(* ===== verification/Prelude.thy ===== *)
theory Prelude
  imports Main "HOL-Library.Word" "HOL-Library.Signed_Division"
begin

unbundle bit_operations_syntax

text \<open>
  Shared vocabulary of the development: the C integer types, conversions between them, the
  Arduino \<open>constrain\<close> macro, C division, fixed-size arrays as lists, and the lemmas about
  them that every component uses.

  \<^item> Unsigned C integers are words of their width (\<open>u8\<close>, \<open>u16\<close>, \<open>u32\<close>).
  \<^item> Signed C integers are values of type int; \<open>to_i8\<close>, \<open>to_i16\<close>, \<open>to_i32\<close> are the conversions
    that C performs on assignment (two's complement truncation). A signed operation that would
    overflow (undefined in C) gets its two's complement result through the same functions.
  \<^item> An operation that traps on the hardware (a division by zero) is the value None.
\<close>

type_synonym u8 = "8 word"
type_synonym u16 = "16 word"
type_synonym u32 = "32 word"

text \<open>Facts about bit masks and arrays that the component proofs rewrite with.\<close>

named_theorems c_simps

section \<open>Signed integers of a fixed width\<close>

definition to_signed :: "nat \<Rightarrow> int \<Rightarrow> int" where
  "to_signed w x = (x + 2 ^ (w - 1)) mod 2 ^ w - 2 ^ (w - 1)"

definition to_i8 :: "int \<Rightarrow> int" where
  "to_i8 x = to_signed 8 x"

definition to_i16 :: "int \<Rightarrow> int" where
  "to_i16 x = to_signed 16 x"

definition to_i32 :: "int \<Rightarrow> int" where
  "to_i32 x = to_signed 32 x"

lemma to_signed_id:
  assumes "0 < w" "- (2 ^ (w - 1)) \<le> x" "x < 2 ^ (w - 1)"
  shows "to_signed w x = x"
proof -
  have "(2::int) ^ w = 2 * 2 ^ (w - 1)"
    using assms(1) by (cases w) simp_all
  then show ?thesis
    using assms by (simp add: to_signed_def)
qed

lemma to_i32_id: "- (2 ^ 31) \<le> x \<Longrightarrow> x < 2 ^ 31 \<Longrightarrow> to_i32 x = x"
  unfolding to_i32_def by (rule to_signed_id) simp_all

lemma to_i16_id: "- (2 ^ 15) \<le> x \<Longrightarrow> x < 2 ^ 15 \<Longrightarrow> to_i16 x = x"
  unfolding to_i16_def by (rule to_signed_id) simp_all

lemma to_i8_id: "- 128 \<le> x \<Longrightarrow> x < 128 \<Longrightarrow> to_i8 x = x"
  unfolding to_i8_def by (rule to_signed_id) simp_all

lemma to_signed_range:
  assumes "0 < w"
  shows "- (2 ^ (w - 1)) \<le> to_signed w x \<and> to_signed w x < 2 ^ (w - 1)"
proof -
  have "(2::int) ^ w = 2 * 2 ^ (w - 1)"
    using assms by (cases w) simp_all
  moreover have "0 \<le> (x + 2 ^ (w - 1)) mod 2 ^ w" "(x + 2 ^ (w - 1)) mod 2 ^ w < (2::int) ^ w"
    by simp_all
  ultimately show ?thesis
    unfolding to_signed_def by linarith
qed

lemma to_i32_range: "- (2 ^ 31) \<le> to_i32 x \<and> to_i32 x < 2 ^ 31"
  using to_signed_range [of 32 x] by (simp add: to_i32_def)

lemma to_i8_range: "- 128 \<le> to_i8 x \<and> to_i8 x < 128"
  using to_signed_range [of 8 x] by (simp add: to_i8_def)

text \<open>Conversions between a signed value and a word, as C performs them.\<close>

definition u8_of :: "int \<Rightarrow> u8" where
  "u8_of x = word_of_int x"

definition u16_of :: "int \<Rightarrow> u16" where
  "u16_of x = word_of_int x"

definition u32_of :: "int \<Rightarrow> u32" where
  "u32_of x = word_of_int x"

definition i32_of_u32 :: "u32 \<Rightarrow> int" where
  "i32_of_u32 x = sint x"

lemma sint_u32_range: "- (2 ^ 31) \<le> sint (x :: u32) \<and> sint x < 2 ^ 31"
  using sint_range_size [of x] by (simp add: word_size)

lemma sint_uint_small:
  assumes "uint (w :: u32) < 2 ^ 31"
  shows "sint w = uint w"
proof -
  have "- (2 ^ 31) \<le> uint w" by (rule order_trans [OF _ uint_ge_0]) simp
  with assms have "signed_take_bit 31 (uint w) = uint w" by (intro signed_take_bit_int_eq_self)
  then show ?thesis by (simp add: sint_uint)
qed

section \<open>The constrain macro\<close>

definition constrain :: "'a::linorder \<Rightarrow> 'a \<Rightarrow> 'a \<Rightarrow> 'a" where
  "constrain amt low high = (if amt < low then low else if amt > high then high else amt)"

lemma constrain_bounds [simp]:
  "low \<le> high \<Longrightarrow> low \<le> constrain amt low high"
  "low \<le> high \<Longrightarrow> constrain amt low high \<le> high"
  by (auto simp: constrain_def)

lemma constrain_id [simp]: "low \<le> x \<Longrightarrow> x \<le> high \<Longrightarrow> constrain x low high = x"
  by (auto simp: constrain_def)

lemma constrain_mono: "low \<le> high \<Longrightarrow> x \<le> y \<Longrightarrow> constrain x low high \<le> constrain y low high"
  by (auto simp: constrain_def)

lemma constrain_idem [simp]:
  "low \<le> high \<Longrightarrow> constrain (constrain x low high) low high = constrain x low high"
  by (auto simp: constrain_def)

lemma constrain_neg:
  "constrain (- x) (- h) h = - constrain (x :: 'a::linordered_idom) (- h) h" if "0 \<le> h"
  using that by (auto simp: constrain_def)

section \<open>C division\<close>

text \<open>
  Division of C's signed integers truncates towards zero (the library's \<open>sdiv\<close>) and traps on a
  zero divisor.
\<close>

definition c_div :: "int \<Rightarrow> int \<Rightarrow> int option" where
  "c_div a b = (if b = 0 then None else Some (a sdiv b))"

definition c_rem :: "int \<Rightarrow> int \<Rightarrow> int option" where
  "c_rem a b = (if b = 0 then None else Some (a smod b))"

lemma sdiv_nonneg: "0 \<le> a \<Longrightarrow> 0 < b \<Longrightarrow> a sdiv b = a div (b :: int)"
  by (cases "a = 0") (simp_all add: signed_divide_int_def)

lemma sdiv_neg: "a \<le> 0 \<Longrightarrow> 0 < b \<Longrightarrow> a sdiv b = - ((- a) div (b :: int))"
  by (cases "a = 0") (simp_all add: signed_divide_int_def)

lemma div_less_boundI:
  fixes a b r :: int
  assumes "0 < r" "a < b * r"
  shows "a div r < b"
proof (rule ccontr)
  assume "\<not> a div r < b"
  then have "b * r \<le> a div r * r" using assms(1) by simp
  also have "\<dots> \<le> a" using assms(1) by (simp add: minus_mod_eq_div_mult [symmetric])
  finally show False using assms(2) by simp
qed

lemma sdiv_mono:
  fixes a b c :: int
  assumes "a \<le> b" "0 < c"
  shows "a sdiv c \<le> b sdiv c"
proof -
  consider "0 \<le> a" | "b \<le> 0" | "a < 0" "0 < b" by linarith
  then show ?thesis
  proof cases
    case 1
    with assms show ?thesis by (simp add: sdiv_nonneg zdiv_mono1)
  next
    case 2
    with assms have "(- b) div c \<le> (- a) div c" by (simp add: zdiv_mono1)
    with 2 assms show ?thesis by (simp add: sdiv_neg)
  next
    case 3
    with assms have "0 \<le> (- a) div c" "0 \<le> b div c"
      by (simp_all add: pos_imp_zdiv_nonneg_iff)
    with 3 assms show ?thesis by (simp add: sdiv_neg sdiv_nonneg)
  qed
qed

section \<open>Bit masks\<close>

definition has_bits :: "'a::len word \<Rightarrow> 'a word \<Rightarrow> bool" where
  "has_bits x m \<longleftrightarrow> x AND m \<noteq> 0"

definition subset_bits :: "'a::len word \<Rightarrow> 'a word \<Rightarrow> bool" where
  "subset_bits x y \<longleftrightarrow> x AND y = x"

definition or_if :: "bool \<Rightarrow> 'a::len word \<Rightarrow> 'a word \<Rightarrow> 'a word" where
  "or_if b m x = (if b then x OR m else x)"

lemma subset_bits_refl [simp]: "subset_bits x x"
  by (simp add: subset_bits_def)

lemma subset_bits_or [simp]: "subset_bits x (x OR m)"
  unfolding subset_bits_def by (rule bit_word_eqI) (auto simp: bit_and_iff bit_or_iff)

lemma subset_bits_or_if [simp]: "subset_bits x (or_if b m x)"
  by (simp add: or_if_def)

lemma subset_bits_trans: "subset_bits x y \<Longrightarrow> subset_bits y z \<Longrightarrow> subset_bits x z"
  unfolding subset_bits_def by (metis and.assoc)

text \<open>\<open>BIT(nr)\<close> of \<^verbatim>\<open>uni_common.h\<close>, stored in a field of the width of the result.\<close>

definition BIT :: "nat \<Rightarrow> 'a::len word" where
  "BIT n = push_bit n 1"

lemma bit_BIT [c_simps]: "bit (BIT n :: 'a::len word) m \<longleftrightarrow> m = n \<and> n < LENGTH('a)"
  by (auto simp: BIT_def bit_simps)

lemma has_bits_BIT [c_simps]: "has_bits x (BIT n) \<longleftrightarrow> bit x n"
  by (simp add: has_bits_def BIT_def bit_iff_and_push_bit_not_eq_0)

lemma bit_or_if [c_simps]: "bit (or_if b m x) n \<longleftrightarrow> bit x n \<or> (b \<and> bit m n)"
  by (auto simp: or_if_def bit_or_iff)

lemma subset_bits_iff: "subset_bits x y \<longleftrightarrow> (\<forall>n. bit x n \<longrightarrow> bit y n)"
  unfolding subset_bits_def by (auto simp: bit_eq_iff bit_and_iff dest: bit_imp_le_length)

section \<open>Fixed-size arrays\<close>

text \<open>
  A C array is a list of fixed length; an access out of range never happens in the modelled code
  (each use has its bound next to it), so \<open>nth\<close> and \<open>list_update\<close> are only used in range.
  \<open>find_index\<close> is the first-match loop that the code writes again and again.
\<close>

fun find_index_from :: "nat \<Rightarrow> ('a \<Rightarrow> bool) \<Rightarrow> 'a list \<Rightarrow> nat option" where
  "find_index_from i P [] = None"
| "find_index_from i P (x # xs) = (if P x then Some i else find_index_from (Suc i) P xs)"

definition find_index :: "('a \<Rightarrow> bool) \<Rightarrow> 'a list \<Rightarrow> nat option" where
  "find_index P xs = find_index_from 0 P xs"

lemma find_index_from_Some:
  "find_index_from k P xs = Some i \<Longrightarrow>
     \<exists>n. i = k + n \<and> n < length xs \<and> P (xs ! n) \<and> (\<forall>j < n. \<not> P (xs ! j))"
proof (induction k P xs rule: find_index_from.induct)
  case (1 i P)
  then show ?case by simp
next
  case (2 k P x xs)
  show ?case
  proof (cases "P x")
    case True
    with 2 show ?thesis by auto
  next
    case False
    with 2 obtain n where n: "i = Suc k + n" "n < length xs" "P (xs ! n)" "\<forall>j < n. \<not> P (xs ! j)"
      by auto
    with False have "\<forall>j < Suc n. \<not> P ((x # xs) ! j)"
      by (auto simp: less_Suc_eq_0_disj)
    with n show ?thesis by (intro exI [of _ "Suc n"]) simp
  qed
qed

lemma find_index_from_None: "find_index_from k P xs = None \<longleftrightarrow> (\<forall>x \<in> set xs. \<not> P x)"
  by (induction k P xs rule: find_index_from.induct) auto

lemma find_index_Some:
  assumes "find_index P xs = Some i"
  shows "i < length xs" "P (xs ! i)" "\<And>j. j < i \<Longrightarrow> \<not> P (xs ! j)"
  using find_index_from_Some [of 0 P xs i] assms by (auto simp: find_index_def)

lemma find_index_None: "find_index P xs = None \<longleftrightarrow> (\<forall>x \<in> set xs. \<not> P x)"
  by (simp add: find_index_def find_index_from_None)

lemma count_true_update:
  assumes "i < length xs"
  shows "length (filter P (xs[i := y])) + (if P (xs ! i) then 1 else 0) =
         length (filter P xs) + (if P y then 1 else 0)"
  using assms
proof (induction xs arbitrary: i)
  case Nil
  then show ?case by simp
next
  case (Cons x xs)
  then show ?case by (cases i) auto
qed

end
