(* ===== verification/Circular_Buffer.thy ===== *)
theory Circular_Buffer
  imports Prelude
begin

text \<open>
  \<^verbatim>\<open>components/bluepad32/uni_circular_buffer.c\<close>: the ring of outgoing packets of a HID device.
  \<open>bounded_queue\<close> is the contract its clients rely on (a first-in first-out queue of bounded
  capacity); the ring is its only provider here.
\<close>

section \<open>The contract\<close>

locale bounded_queue =
  fixes empty :: "'q \<Rightarrow> bool"
    and full :: "'q \<Rightarrow> bool"
    and put :: "'q \<Rightarrow> 'a \<Rightarrow> 'q"
    and get :: "'q \<Rightarrow> 'a \<times> 'q"
    and reset :: "'q \<Rightarrow> 'q"
    and contents :: "'q \<Rightarrow> 'a list"
    and invar :: "'q \<Rightarrow> bool"
    and capacity :: nat
  assumes empty_law: "invar q \<Longrightarrow> empty q \<longleftrightarrow> contents q = []"
    and full_law: "invar q \<Longrightarrow> full q \<longleftrightarrow> length (contents q) = capacity"
    and bound_law: "invar q \<Longrightarrow> length (contents q) \<le> capacity"
    and put_invar: "invar q \<Longrightarrow> \<not> full q \<Longrightarrow> invar (put q x)"
    and put_law: "invar q \<Longrightarrow> \<not> full q \<Longrightarrow> contents (put q x) = contents q @ [x]"
    and get_invar: "invar q \<Longrightarrow> \<not> empty q \<Longrightarrow> invar (snd (get q))"
    and get_law: "invar q \<Longrightarrow> \<not> empty q \<Longrightarrow> contents q = fst (get q) # contents (snd (get q))"
    and reset_invar: "invar q \<Longrightarrow> invar (reset q)"
    and reset_law: "invar q \<Longrightarrow> contents (reset q) = []"
begin

definition put_all :: "'q \<Rightarrow> 'a list \<Rightarrow> 'q" where
  "put_all q xs = foldl put q xs"

fun drain :: "nat \<Rightarrow> 'q \<Rightarrow> 'a list" where
  "drain 0 q = []"
| "drain (Suc n) q = (if empty q then [] else fst (get q) # drain n (snd (get q)))"

lemma put_all_contents:
  assumes "invar q" "length (contents q) + length xs \<le> capacity"
  shows "invar (put_all q xs) \<and> contents (put_all q xs) = contents q @ xs"
  using assms
proof (induction xs arbitrary: q)
  case Nil
  then show ?case by (simp add: put_all_def)
next
  case (Cons x xs)
  then have nf: "\<not> full q" by (simp add: full_law)
  with Cons.prems have "invar (put q x)" "contents (put q x) = contents q @ [x]"
    by (simp_all add: put_invar put_law)
  with Cons.IH [of "put q x"] Cons.prems show ?case by (simp add: put_all_def)
qed

lemma drain_contents:
  "invar q \<Longrightarrow> length (contents q) \<le> n \<Longrightarrow> drain n q = contents q"
proof (induction n arbitrary: q)
  case 0
  then show ?case by simp
next
  case (Suc n)
  show ?case
  proof (cases "empty q")
    case True
    with Suc.prems show ?thesis by (simp add: empty_law)
  next
    case False
    with Suc.prems have c: "contents q = fst (get q) # contents (snd (get q))"
      and i: "invar (snd (get q))" by (simp_all add: get_law get_invar)
    have "length (contents (snd (get q))) \<le> n"
      using Suc.prems(2) by (subst (asm) c) simp
    with Suc.IH [OF i] False c show ?thesis by simp
  qed
qed

lemma fifo:
  assumes "invar q" "contents q = []" "length xs \<le> capacity"
  shows "drain (length xs) (put_all q xs) = xs"
  using put_all_contents [of q xs] drain_contents [of "put_all q xs" "length xs"] assms by simp

end

section \<open>The ring\<close>

definition UNI_CIRCULAR_BUFFER_SIZE :: nat where
  "UNI_CIRCULAR_BUFFER_SIZE = 32"

definition UNI_CIRCULAR_BUFFER_DATA_SIZE :: nat where
  "UNI_CIRCULAR_BUFFER_DATA_SIZE = 128"

datatype cb_error = BUFFER_FULL | BUFFER_EMPTY | BUFFER_TOO_BIG

text \<open>
  A slot holds the channel and the \<open>data_len\<close> bytes that were copied in: the bytes of the 128-byte
  array behind them are never read, so the slot is that byte list.
\<close>

record cb_data =
  cb_cid :: int
  cb_bytes :: "u8 list"

record circular_buffer =
  cb_buffer :: "cb_data list"
  head_idx :: nat
  tail_idx :: nat

definition uni_circular_buffer_is_empty :: "circular_buffer \<Rightarrow> bool" where
  "uni_circular_buffer_is_empty b \<longleftrightarrow> head_idx b = tail_idx b"

definition uni_circular_buffer_is_full :: "circular_buffer \<Rightarrow> bool" where
  "uni_circular_buffer_is_full b \<longleftrightarrow>
     tail_idx b + 1 = head_idx b \<or>
     (head_idx b = 0 \<and> tail_idx b = UNI_CIRCULAR_BUFFER_SIZE - 1)"

definition cb_next :: "nat \<Rightarrow> nat" where
  "cb_next i = (let j = i + 1 in if j = UNI_CIRCULAR_BUFFER_SIZE then 0 else j)"

definition cb_store :: "circular_buffer \<Rightarrow> cb_data \<Rightarrow> circular_buffer" where
  "cb_store b x = b\<lparr>cb_buffer := (cb_buffer b)[tail_idx b := x], tail_idx := cb_next (tail_idx b)\<rparr>"

definition uni_circular_buffer_put ::
  "circular_buffer \<Rightarrow> int \<Rightarrow> u8 list \<Rightarrow> cb_error + circular_buffer" where
  "uni_circular_buffer_put b cid data =
     (if uni_circular_buffer_is_full b then Inl BUFFER_FULL
      else if length data \<ge> UNI_CIRCULAR_BUFFER_DATA_SIZE then Inl BUFFER_TOO_BIG
      else Inr (cb_store b \<lparr>cb_cid = cid, cb_bytes = data\<rparr>))"

definition cb_take :: "circular_buffer \<Rightarrow> cb_data \<times> circular_buffer" where
  "cb_take b = (cb_buffer b ! head_idx b, b\<lparr>head_idx := cb_next (head_idx b)\<rparr>)"

definition uni_circular_buffer_get :: "circular_buffer \<Rightarrow> cb_error + (cb_data \<times> circular_buffer)" where
  "uni_circular_buffer_get b =
     (if uni_circular_buffer_is_empty b then Inl BUFFER_EMPTY else Inr (cb_take b))"

definition uni_circular_buffer_reset :: "circular_buffer \<Rightarrow> circular_buffer" where
  "uni_circular_buffer_reset b = b\<lparr>head_idx := 0, tail_idx := 0\<rparr>"

text \<open>The zeroed ring that \<open>memset\<close> leaves in a fresh device.\<close>

definition cb_zero :: circular_buffer where
  "cb_zero = \<lparr>cb_buffer = replicate UNI_CIRCULAR_BUFFER_SIZE \<lparr>cb_cid = 0, cb_bytes = []\<rparr>,
              head_idx = 0, tail_idx = 0\<rparr>"

definition cb_invar :: "circular_buffer \<Rightarrow> bool" where
  "cb_invar b \<longleftrightarrow> length (cb_buffer b) = UNI_CIRCULAR_BUFFER_SIZE \<and>
     head_idx b < UNI_CIRCULAR_BUFFER_SIZE \<and> tail_idx b < UNI_CIRCULAR_BUFFER_SIZE"

text \<open>Abstraction: the slots from head to tail, in ring order.\<close>

definition cb_count :: "circular_buffer \<Rightarrow> nat" where
  "cb_count b = (if head_idx b \<le> tail_idx b then tail_idx b - head_idx b
                 else UNI_CIRCULAR_BUFFER_SIZE + tail_idx b - head_idx b)"

definition cb_contents :: "circular_buffer \<Rightarrow> cb_data list" where
  "cb_contents b =
     map (\<lambda>i. cb_buffer b ! ((head_idx b + i) mod UNI_CIRCULAR_BUFFER_SIZE)) [0..<cb_count b]"

lemmas cb_defs = UNI_CIRCULAR_BUFFER_SIZE_def cb_invar_def cb_count_def cb_next_def
  uni_circular_buffer_is_empty_def uni_circular_buffer_is_full_def Let_def

lemma cb_next_mod: "i < UNI_CIRCULAR_BUFFER_SIZE \<Longrightarrow> cb_next i = (i + 1) mod UNI_CIRCULAR_BUFFER_SIZE"
  by (auto simp: cb_next_def UNI_CIRCULAR_BUFFER_SIZE_def Let_def)

lemma cb_next_less [simp]: "i < UNI_CIRCULAR_BUFFER_SIZE \<Longrightarrow> cb_next i < UNI_CIRCULAR_BUFFER_SIZE"
  by (simp add: cb_next_mod UNI_CIRCULAR_BUFFER_SIZE_def)

lemma cb_count_store:
  "cb_invar b \<Longrightarrow> \<not> uni_circular_buffer_is_full b \<Longrightarrow> cb_count (cb_store b x) = Suc (cb_count b)"
  by (auto simp: cb_defs cb_store_def)

lemma cb_count_take:
  "cb_invar b \<Longrightarrow> \<not> uni_circular_buffer_is_empty b \<Longrightarrow> Suc (cb_count (snd (cb_take b))) = cb_count b"
  by (auto simp: cb_defs cb_take_def)

lemma cb_tail_slot:
  "cb_invar b \<Longrightarrow> (head_idx b + cb_count b) mod UNI_CIRCULAR_BUFFER_SIZE = tail_idx b"
  by (auto simp: cb_defs)

lemma mod_once: "(k::nat) < 2 * n \<Longrightarrow> k mod n = (if k < n then k else k - n)"
  by (simp add: mod_if)

lemma cb_slot_not_tail:
  assumes "cb_invar b" "i < cb_count b"
  shows "(head_idx b + i) mod UNI_CIRCULAR_BUFFER_SIZE \<noteq> tail_idx b"
proof -
  have "head_idx b + i < 2 * UNI_CIRCULAR_BUFFER_SIZE"
    using assms by (auto simp: cb_invar_def cb_count_def split: if_splits)
  then show ?thesis
    using assms by (auto simp: cb_invar_def cb_count_def mod_once split: if_splits)
qed

lemma cb_contents_store:
  assumes "cb_invar b" "\<not> uni_circular_buffer_is_full b"
  shows "cb_contents (cb_store b x) = cb_contents b @ [x]"
proof -
  have h: "head_idx (cb_store b x) = head_idx b"
    and buf: "cb_buffer (cb_store b x) = (cb_buffer b)[tail_idx b := x]"
    by (simp_all add: cb_store_def)
  have l: "tail_idx b < length (cb_buffer b)" using assms(1) by (simp add: cb_invar_def)
  have "(cb_buffer b)[tail_idx b := x] ! ((head_idx b + i) mod UNI_CIRCULAR_BUFFER_SIZE) =
      cb_buffer b ! ((head_idx b + i) mod UNI_CIRCULAR_BUFFER_SIZE)" if "i < cb_count b" for i
    using cb_slot_not_tail [OF assms(1) that] by simp
  then show ?thesis
    using cb_tail_slot [OF assms(1)] l
    by (simp add: cb_contents_def h buf cb_count_store [OF assms])
qed

lemma cb_contents_take:
  assumes "cb_invar b" "\<not> uni_circular_buffer_is_empty b"
  shows "cb_contents b = fst (cb_take b) # cb_contents (snd (cb_take b))"
proof -
  let ?n = "cb_count (snd (cb_take b))"
  have h: "head_idx b < UNI_CIRCULAR_BUFFER_SIZE" using assms(1) by (simp add: cb_invar_def)
  have "[0..<cb_count b] = 0 # map Suc [0..<?n]"
    by (simp add: cb_count_take [OF assms, symmetric] upt_conv_Cons map_Suc_upt del: upt_Suc)
  moreover have "(cb_next (head_idx b) + i) mod UNI_CIRCULAR_BUFFER_SIZE =
    (head_idx b + Suc i) mod UNI_CIRCULAR_BUFFER_SIZE" for i
    using h by (simp add: cb_next_mod mod_add_left_eq)
  ultimately show ?thesis
    using h by (simp add: cb_contents_def cb_take_def o_def)
qed

interpretation cbq: bounded_queue
  uni_circular_buffer_is_empty uni_circular_buffer_is_full cb_store cb_take
  uni_circular_buffer_reset cb_contents cb_invar "UNI_CIRCULAR_BUFFER_SIZE - 1"
proof (unfold_locales, goal_cases)
  case (1 q)
  then show ?case by (auto simp: cb_contents_def cb_defs)
next
  case (2 q)
  then show ?case by (auto simp: cb_contents_def cb_defs)
next
  case (3 q)
  then show ?case by (auto simp: cb_contents_def cb_defs)
next
  case (4 q x)
  then show ?case by (simp add: cb_invar_def cb_store_def)
next
  case (5 q x)
  then show ?case by (rule cb_contents_store)
next
  case (6 q)
  then show ?case by (simp add: cb_invar_def cb_take_def)
next
  case (7 q)
  then show ?case by (rule cb_contents_take)
next
  case (8 q)
  then show ?case by (simp add: cb_invar_def uni_circular_buffer_reset_def UNI_CIRCULAR_BUFFER_SIZE_def)
next
  case (9 q)
  then show ?case by (simp add: cb_contents_def cb_count_def uni_circular_buffer_reset_def)
qed

lemma cb_zero_invar [simp]: "cb_invar cb_zero"
  by (simp add: cb_invar_def cb_zero_def UNI_CIRCULAR_BUFFER_SIZE_def)

lemma cb_zero_contents [simp]: "cb_contents cb_zero = []"
  by (simp add: cb_contents_def cb_zero_def cb_count_def)

lemma cb_put_Inr:
  assumes "cb_invar b" "uni_circular_buffer_put b cid data = Inr b'"
  shows "cb_invar b'" "cb_contents b' = cb_contents b @ [\<lparr>cb_cid = cid, cb_bytes = data\<rparr>]"
  using assms cbq.put_invar cbq.put_law
  by (auto simp: uni_circular_buffer_put_def split: if_splits)

lemma cb_get_Inr:
  assumes "cb_invar b" "uni_circular_buffer_get b = Inr (x, b')"
  shows "cb_invar b'" "cb_contents b = x # cb_contents b'"
  using assms cbq.get_invar [of b] cbq.get_law [of b]
  by (auto simp: uni_circular_buffer_get_def split: if_splits)

section \<open>Properties\<close>

text \<open>
  The specification is a list of at most 31 packets: a packet of 128 bytes or more is refused, a put
  on a full list is refused, a get takes the oldest packet. \<open>ring_run\<close> and \<open>spec_run\<close> answer the
  same sequence of requests and collect what the caller sees.
\<close>

datatype ring_op = Put int "u8 list" | Get | Reset

datatype ring_reply = Stored | Refused cb_error | Packet cb_data | Done

fun ring_step :: "ring_op \<Rightarrow> circular_buffer \<Rightarrow> ring_reply \<times> circular_buffer" where
  "ring_step (Put cid data) b =
     (case uni_circular_buffer_put b cid data of Inl e \<Rightarrow> (Refused e, b) | Inr b' \<Rightarrow> (Stored, b'))"
| "ring_step Get b =
     (case uni_circular_buffer_get b of Inl e \<Rightarrow> (Refused e, b) | Inr (x, b') \<Rightarrow> (Packet x, b'))"
| "ring_step Reset b = (Done, uni_circular_buffer_reset b)"

fun spec_step :: "ring_op \<Rightarrow> cb_data list \<Rightarrow> ring_reply \<times> cb_data list" where
  "spec_step (Put cid data) q =
     (if length q = 31 then (Refused BUFFER_FULL, q)
      else if 128 \<le> length data then (Refused BUFFER_TOO_BIG, q)
      else (Stored, q @ [\<lparr>cb_cid = cid, cb_bytes = data\<rparr>]))"
| "spec_step Get q = (case q of [] \<Rightarrow> (Refused BUFFER_EMPTY, q) | x # q' \<Rightarrow> (Packet x, q'))"
| "spec_step Reset q = (Done, [])"

fun ring_run :: "ring_op list \<Rightarrow> circular_buffer \<Rightarrow> ring_reply list" where
  "ring_run [] b = []"
| "ring_run (x # xs) b = (case ring_step x b of (r, b') \<Rightarrow> r # ring_run xs b')"

fun spec_run :: "ring_op list \<Rightarrow> cb_data list \<Rightarrow> ring_reply list" where
  "spec_run [] q = []"
| "spec_run (x # xs) q = (case spec_step x q of (r, q') \<Rightarrow> r # spec_run xs q')"

lemma ring_step_sim:
  assumes "cb_invar b"
  shows "cb_invar (snd (ring_step x b)) \<and>
    spec_step x (cb_contents b) = (fst (ring_step x b), cb_contents (snd (ring_step x b)))"
proof (cases x)
  case (Put cid data)
  have full: "uni_circular_buffer_is_full b \<longleftrightarrow> length (cb_contents b) = 31"
    using cbq.full_law [OF assms] by (simp add: UNI_CIRCULAR_BUFFER_SIZE_def)
  show ?thesis
  proof (cases "uni_circular_buffer_put b cid data")
    case (Inl e)
    then show ?thesis
      using assms Put full
      by (auto simp: uni_circular_buffer_put_def UNI_CIRCULAR_BUFFER_DATA_SIZE_def split: if_splits)
  next
    case (Inr b')
    then have "length (cb_contents b) \<noteq> 31" "length data < 128"
      using full
      by (auto simp: uni_circular_buffer_put_def UNI_CIRCULAR_BUFFER_DATA_SIZE_def split: if_splits)
    then show ?thesis
      using Put Inr cb_put_Inr [OF assms Inr] by simp
  qed
next
  case Get
  show ?thesis
  proof (cases "uni_circular_buffer_get b")
    case (Inl e)
    then show ?thesis
      using assms Get cbq.empty_law [OF assms]
      by (simp add: uni_circular_buffer_get_def split: if_splits)
  next
    case (Inr r)
    obtain y b' where r: "r = (y, b')" by fastforce
    show ?thesis using Inr Get cb_get_Inr [OF assms Inr [unfolded r]] by (simp add: r)
  qed
next
  case Reset
  then show ?thesis using assms by (simp add: cbq.reset_invar cbq.reset_law)
qed

lemma ring_run_sim: "cb_invar b \<Longrightarrow> ring_run xs b = spec_run xs (cb_contents b)"
proof (induction xs arbitrary: b)
  case Nil
  then show ?case by simp
next
  case (Cons x xs)
  then show ?case
    using ring_step_sim [OF Cons.prems, of x] by (simp add: case_prod_beta)
qed

text \<open>
  C15: The ring of outgoing packets refines a queue of 31 packets: from the zeroed ring of a fresh
  device, every sequence of puts, gets and resets gets the replies (accepted, full, too big, the
  oldest packet, empty) that the list specification gives.
\<close>

theorem ring_refines_queue: "ring_run ops cb_zero = spec_run ops []"
  using ring_run_sim [of cb_zero ops] by simp

end
