(* ===== verification/Gamepad.thy ===== *)
theory Gamepad
  imports Prelude
begin

text \<open>
  \<^verbatim>\<open>components/bluepad32/controller/uni_gamepad.c\<close> and the headers of
  \<^verbatim>\<open>components/bluepad32/include/controller\<close>: the virtual gamepad every parser fills in, the
  other controller classes, and the remapping of buttons and axes.

  The C union of the four controller classes is the record \<open>uni_controller\<close> with one field per
  class: a parser writes the member of its own class only, after zeroing the whole structure.
\<close>

section \<open>Buttons\<close>

definition DPAD_UP :: u8 where "DPAD_UP = BIT 0"
definition DPAD_DOWN :: u8 where "DPAD_DOWN = BIT 1"
definition DPAD_RIGHT :: u8 where "DPAD_RIGHT = BIT 2"
definition DPAD_LEFT :: u8 where "DPAD_LEFT = BIT 3"

definition BUTTON_A :: u16 where "BUTTON_A = BIT 0"
definition BUTTON_B :: u16 where "BUTTON_B = BIT 1"
definition BUTTON_X :: u16 where "BUTTON_X = BIT 2"
definition BUTTON_Y :: u16 where "BUTTON_Y = BIT 3"
definition BUTTON_SHOULDER_L :: u16 where "BUTTON_SHOULDER_L = BIT 4"
definition BUTTON_SHOULDER_R :: u16 where "BUTTON_SHOULDER_R = BIT 5"
definition BUTTON_TRIGGER_L :: u16 where "BUTTON_TRIGGER_L = BIT 6"
definition BUTTON_TRIGGER_R :: u16 where "BUTTON_TRIGGER_R = BIT 7"
definition BUTTON_THUMB_L :: u16 where "BUTTON_THUMB_L = BIT 8"
definition BUTTON_THUMB_R :: u16 where "BUTTON_THUMB_R = BIT 9"

definition MISC_BUTTON_SYSTEM :: u8 where "MISC_BUTTON_SYSTEM = BIT 0"
definition MISC_BUTTON_SELECT :: u8 where "MISC_BUTTON_SELECT = BIT 1"
definition MISC_BUTTON_START :: u8 where "MISC_BUTTON_START = BIT 2"
definition MISC_BUTTON_CAPTURE :: u8 where "MISC_BUTTON_CAPTURE = BIT 3"

lemmas dpad_defs = DPAD_UP_def DPAD_DOWN_def DPAD_RIGHT_def DPAD_LEFT_def

lemmas button_defs = BUTTON_A_def BUTTON_B_def BUTTON_X_def BUTTON_Y_def BUTTON_SHOULDER_L_def
  BUTTON_SHOULDER_R_def BUTTON_TRIGGER_L_def BUTTON_TRIGGER_R_def BUTTON_THUMB_L_def
  BUTTON_THUMB_R_def

lemmas misc_defs = MISC_BUTTON_SYSTEM_def MISC_BUTTON_SELECT_def MISC_BUTTON_START_def
  MISC_BUTTON_CAPTURE_def

section \<open>Controllers\<close>

record uni_gamepad =
  dpad :: u8
  axis_x :: int
  axis_y :: int
  axis_rx :: int
  axis_ry :: int
  brake :: int
  throttle :: int
  buttons :: u16
  misc_buttons :: u8
  gyro :: "int list"
  accel :: "int list"

definition gamepad_zero :: uni_gamepad where
  "gamepad_zero = \<lparr>dpad = 0, axis_x = 0, axis_y = 0, axis_rx = 0, axis_ry = 0, brake = 0,
     throttle = 0, buttons = 0, misc_buttons = 0, gyro = [0, 0, 0], accel = [0, 0, 0]\<rparr>"

record uni_mouse =
  delta_x :: int
  delta_y :: int
  mouse_buttons :: u16
  scroll_wheel :: int
  mouse_misc_buttons :: u8

definition mouse_zero :: uni_mouse where
  "mouse_zero = \<lparr>delta_x = 0, delta_y = 0, mouse_buttons = 0, scroll_wheel = 0,
     mouse_misc_buttons = 0\<rparr>"

record uni_balance_board =
  bb_tr :: u16
  bb_br :: u16
  bb_tl :: u16
  bb_bl :: u16
  bb_temperature :: int

record uni_keyboard =
  kb_modifiers :: u8
  kb_pressed_keys :: "u8 list"

datatype controller_class = CLASS_NONE | CLASS_GAMEPAD | CLASS_MOUSE | CLASS_KEYBOARD
  | CLASS_BALANCE_BOARD

record uni_controller =
  klass :: controller_class
  gamepad :: uni_gamepad
  mouse :: uni_mouse
  balance_board :: uni_balance_board
  keyboard :: uni_keyboard
  battery :: u8

definition controller_zero :: uni_controller where
  "controller_zero = \<lparr>klass = CLASS_NONE, gamepad = gamepad_zero, mouse = mouse_zero,
     balance_board = \<lparr>bb_tr = 0, bb_br = 0, bb_tl = 0, bb_bl = 0, bb_temperature = 0\<rparr>,
     keyboard = \<lparr>kb_modifiers = 0, kb_pressed_keys = replicate 10 0\<rparr>, battery = 0\<rparr>"

section \<open>Remapping\<close>

datatype mappings_type = TYPE_XBOX | TYPE_SWITCH | TYPE_CUSTOM

record uni_gamepad_mappings =
  map_dpad_up :: u8
  map_dpad_down :: u8
  map_dpad_left :: u8
  map_dpad_right :: u8
  map_button_a :: u8
  map_button_b :: u8
  map_button_x :: u8
  map_button_y :: u8
  map_button_shoulder_l :: u8
  map_button_shoulder_r :: u8
  map_button_trigger_l :: u8
  map_button_trigger_r :: u8
  map_button_thumb_l :: u8
  map_button_thumb_r :: u8
  map_misc_button_select :: u8
  map_misc_button_start :: u8
  map_misc_button_system :: u8
  map_misc_button_capture :: u8
  map_axis_x :: u8
  map_axis_y :: u8
  map_axis_rx :: u8
  map_axis_ry :: u8
  map_axis_x_inverted :: u8
  map_axis_y_inverted :: u8
  map_axis_rx_inverted :: u8
  map_axis_ry_inverted :: u8
  map_brake :: u8
  map_throttle :: u8

definition GAMEPAD_DEFAULT_MAPPINGS :: uni_gamepad_mappings where
  "GAMEPAD_DEFAULT_MAPPINGS = \<lparr>
     map_dpad_up = 0, map_dpad_down = 1, map_dpad_left = 3, map_dpad_right = 2,
     map_button_a = 0, map_button_b = 1, map_button_x = 2, map_button_y = 3,
     map_button_shoulder_l = 4, map_button_shoulder_r = 5,
     map_button_trigger_l = 6, map_button_trigger_r = 7,
     map_button_thumb_l = 8, map_button_thumb_r = 9,
     map_misc_button_select = 1, map_misc_button_start = 2, map_misc_button_system = 0,
     map_misc_button_capture = 3,
     map_axis_x = 0, map_axis_y = 1, map_axis_rx = 2, map_axis_ry = 3,
     map_axis_x_inverted = 0, map_axis_y_inverted = 0, map_axis_rx_inverted = 0,
     map_axis_ry_inverted = 0,
     map_brake = 0, map_throttle = 1\<rparr>"

text \<open>The two file-level variables of \<^verbatim>\<open>uni_gamepad.c\<close>.\<close>

record remap_state =
  rm_map :: uni_gamepad_mappings
  rm_type :: mappings_type

definition get_mappings_value_for_axis :: "u8 \<Rightarrow> uni_gamepad \<Rightarrow> int" where
  "get_mappings_value_for_axis axis_type gp =
     (if axis_type = 0 then axis_x gp
      else if axis_type = 1 then axis_y gp
      else if axis_type = 2 then axis_rx gp
      else if axis_type = 3 then axis_ry gp
      else - 1)"

definition get_mappings_value_for_pedal :: "u8 \<Rightarrow> uni_gamepad \<Rightarrow> int" where
  "get_mappings_value_for_pedal pedal_type gp =
     (if pedal_type = 1 then throttle gp
      else if pedal_type = 0 then brake gp
      else - 1)"

definition remap_axis :: "u8 \<Rightarrow> u8 \<Rightarrow> uni_gamepad \<Rightarrow> int" where
  "remap_axis axis inverted gp =
     (let v = get_mappings_value_for_axis axis gp in if inverted \<noteq> 0 then to_i32 (- v) else v)"

text \<open>One \<open>if (field & MASK) new |= BIT(target);\<close> per entry, in the order of the code.\<close>

definition remap_bits :: "('a::len word \<times> u8) list \<Rightarrow> 'a word \<Rightarrow> 'a word" where
  "remap_bits rules x = foldl (\<lambda>acc (m, target). or_if (has_bits x m) (BIT (unat target)) acc) 0 rules"

definition remap_switch_buttons :: "u16 \<Rightarrow> u16" where
  "remap_switch_buttons b =
     (let b0 = b AND NOT (BUTTON_A OR BUTTON_B OR BUTTON_X OR BUTTON_Y);
          b1 = or_if (has_bits b BUTTON_A) BUTTON_B b0;
          b2 = or_if (has_bits b BUTTON_B) BUTTON_A b1;
          b3 = or_if (has_bits b BUTTON_X) BUTTON_Y b2
      in or_if (has_bits b BUTTON_Y) BUTTON_X b3)"

definition remap_custom :: "uni_gamepad_mappings \<Rightarrow> uni_gamepad \<Rightarrow> uni_gamepad" where
  "remap_custom m gp = gamepad_zero\<lparr>
     buttons := remap_bits
       [(BUTTON_A, map_button_a m), (BUTTON_B, map_button_b m), (BUTTON_X, map_button_x m),
        (BUTTON_Y, map_button_y m), (BUTTON_SHOULDER_L, map_button_shoulder_l m),
        (BUTTON_SHOULDER_R, map_button_shoulder_r m), (BUTTON_TRIGGER_L, map_button_trigger_l m),
        (BUTTON_TRIGGER_R, map_button_trigger_r m), (BUTTON_THUMB_L, map_button_thumb_l m),
        (BUTTON_THUMB_R, map_button_thumb_r m)] (buttons gp),
     dpad := remap_bits
       [(DPAD_UP, map_dpad_up m), (DPAD_DOWN, map_dpad_down m), (DPAD_LEFT, map_dpad_left m),
        (DPAD_RIGHT, map_dpad_right m)] (dpad gp),
     misc_buttons := remap_bits
       [(MISC_BUTTON_SYSTEM, map_misc_button_system m), (MISC_BUTTON_SELECT, map_misc_button_select m),
        (MISC_BUTTON_START, map_misc_button_start m), (MISC_BUTTON_CAPTURE, map_misc_button_capture m)]
       (misc_buttons gp),
     axis_x := remap_axis (map_axis_x m) (map_axis_x_inverted m) gp,
     axis_y := remap_axis (map_axis_y m) (map_axis_y_inverted m) gp,
     axis_rx := remap_axis (map_axis_rx m) (map_axis_rx_inverted m) gp,
     axis_ry := remap_axis (map_axis_ry m) (map_axis_ry_inverted m) gp,
     brake := get_mappings_value_for_pedal (map_brake m) gp,
     throttle := get_mappings_value_for_pedal (map_throttle m) gp\<rparr>"

definition uni_gamepad_remap :: "remap_state \<Rightarrow> uni_gamepad \<Rightarrow> uni_gamepad" where
  "uni_gamepad_remap st gp =
     (case rm_type st of
        TYPE_XBOX \<Rightarrow> gp
      | TYPE_SWITCH \<Rightarrow> gp\<lparr>buttons := remap_switch_buttons (buttons gp)\<rparr>
      | TYPE_CUSTOM \<Rightarrow> remap_custom (rm_map st) gp)"

definition uni_gamepad_set_mappings :: "uni_gamepad_mappings \<Rightarrow> remap_state \<Rightarrow> remap_state" where
  "uni_gamepad_set_mappings m st = st\<lparr>rm_type := TYPE_CUSTOM, rm_map := m\<rparr>"

definition uni_gamepad_set_mappings_type :: "mappings_type \<Rightarrow> remap_state \<Rightarrow> remap_state" where
  "uni_gamepad_set_mappings_type t st = st\<lparr>rm_type := t\<rparr>"

definition uni_gamepad_get_mappings_type :: "remap_state \<Rightarrow> mappings_type" where
  "uni_gamepad_get_mappings_type st = rm_type st"

section \<open>Lemmas\<close>

lemma bit_remap_bits:
  "bit (remap_bits rules x) n \<longleftrightarrow>
     (\<exists>(m, t) \<in> set rules. has_bits x m \<and> bit (BIT (unat t) :: 'a::len word) n)"
  for x :: "'a::len word"
proof -
  have "bit (foldl (\<lambda>acc (m, t). or_if (has_bits x m) (BIT (unat t)) acc) a rules) n \<longleftrightarrow>
     bit a n \<or> (\<exists>(m, t) \<in> set rules. has_bits x m \<and> bit (BIT (unat t) :: 'a word) n)"
    for a :: "'a word"
    by (induction rules arbitrary: a) (auto simp: bit_or_if)
  then show ?thesis by (simp add: remap_bits_def)
qed

text \<open>The switch layout exchanges bits 0 and 1, and bits 2 and 3.\<close>

lemma bit_remap_switch:
  "bit (remap_switch_buttons b) n \<longleftrightarrow>
     bit b (if n = 0 then 1 else if n = 1 then 0 else if n = 2 then 3 else if n = 3 then 2 else n)"
  by (auto simp: remap_switch_buttons_def button_defs c_simps Let_def bit_and_iff bit_or_iff
      bit_not_iff dest: bit_imp_le_length)

lemma remap_switch_involution [simp]: "remap_switch_buttons (remap_switch_buttons b) = b"
  by (rule bit_word_eqI) (simp add: bit_remap_switch)

lemma remap_bits_default:
  "remap_bits [(BUTTON_A, 0), (BUTTON_B, 1), (BUTTON_X, 2), (BUTTON_Y, 3), (BUTTON_SHOULDER_L, 4),
     (BUTTON_SHOULDER_R, 5), (BUTTON_TRIGGER_L, 6), (BUTTON_TRIGGER_R, 7), (BUTTON_THUMB_L, 8),
     (BUTTON_THUMB_R, 9)] b = b AND 0x3FF"
  "remap_bits [(DPAD_UP, 0), (DPAD_DOWN, 1), (DPAD_LEFT, 3), (DPAD_RIGHT, 2)] d = d AND 0xF"
  "remap_bits [(MISC_BUTTON_SYSTEM, 0), (MISC_BUTTON_SELECT, 1), (MISC_BUTTON_START, 2),
     (MISC_BUTTON_CAPTURE, 3)] k = k AND 0xF"
proof -
  have m10: "(0x3FF :: u16) = mask 10" and m4: "(0xF :: u8) = mask 4"
    by (simp_all add: mask_eq_exp_minus_1)
  have n10: "n < 10 \<longleftrightarrow> n \<in> {0, 1, 2, 3, 4, 5, 6, 7, 8, 9}" for n :: nat by auto
  have n4: "n < 4 \<longleftrightarrow> n \<in> {0, 1, 2, 3}" for n :: nat by auto
  show "remap_bits [(BUTTON_A, 0), (BUTTON_B, 1), (BUTTON_X, 2), (BUTTON_Y, 3), (BUTTON_SHOULDER_L, 4),
     (BUTTON_SHOULDER_R, 5), (BUTTON_TRIGGER_L, 6), (BUTTON_TRIGGER_R, 7), (BUTTON_THUMB_L, 8),
     (BUTTON_THUMB_R, 9)] b = b AND 0x3FF"
    unfolding m10 by (rule bit_word_eqI)
      (simp add: bit_remap_bits bit_and_iff bit_mask_iff button_defs c_simps n10, blast)
  show "remap_bits [(DPAD_UP, 0), (DPAD_DOWN, 1), (DPAD_LEFT, 3), (DPAD_RIGHT, 2)] d = d AND 0xF"
    unfolding m4 by (rule bit_word_eqI)
      (simp add: bit_remap_bits bit_and_iff bit_mask_iff dpad_defs c_simps n4, blast)
  show "remap_bits [(MISC_BUTTON_SYSTEM, 0), (MISC_BUTTON_SELECT, 1), (MISC_BUTTON_START, 2),
     (MISC_BUTTON_CAPTURE, 3)] k = k AND 0xF"
    unfolding m4 by (rule bit_word_eqI)
      (simp add: bit_remap_bits bit_and_iff bit_mask_iff misc_defs c_simps n4, blast)
qed

lemma remap_custom_default:
  "remap_custom GAMEPAD_DEFAULT_MAPPINGS gp =
     gp\<lparr>buttons := buttons gp AND 0x3FF, dpad := dpad gp AND 0xF,
        misc_buttons := misc_buttons gp AND 0xF, gyro := [0, 0, 0], accel := [0, 0, 0]\<rparr>"
  by (simp add: remap_custom_def GAMEPAD_DEFAULT_MAPPINGS_def remap_bits_default remap_axis_def
      get_mappings_value_for_axis_def get_mappings_value_for_pedal_def gamepad_zero_def)

section \<open>Properties\<close>

text \<open>The mapping entries of a custom mapping: source mask and target bit of each button.\<close>

definition button_table :: "uni_gamepad_mappings \<Rightarrow> (nat \<times> u8) list" where
  "button_table m =
     [(0, map_button_a m), (1, map_button_b m), (2, map_button_x m), (3, map_button_y m),
      (4, map_button_shoulder_l m), (5, map_button_shoulder_r m), (6, map_button_trigger_l m),
      (7, map_button_trigger_r m), (8, map_button_thumb_l m), (9, map_button_thumb_r m)]"

definition button_rules :: "uni_gamepad_mappings \<Rightarrow> (nat \<times> nat) list" where
  "button_rules m = map (\<lambda>(i, t). (i, unat t)) (button_table m)"

text \<open>
  A custom mapping presses exactly the mapped buttons: button n of the result is down iff some
  of the ten source buttons that the table maps to n is down, and no button beyond bit 15 appears.
\<close>

theorem remap_custom_buttons:
  "bit (buttons (uni_gamepad_remap (uni_gamepad_set_mappings m st) gp)) n \<longleftrightarrow>
     n < 16 \<and> (\<exists>s. (s, n) \<in> set (button_rules m) \<and> bit (buttons gp) s)"
proof -
  have "buttons (uni_gamepad_remap (uni_gamepad_set_mappings m st) gp) =
      remap_bits (map (\<lambda>(i, t). (BIT i, t)) (button_table m)) (buttons gp)"
    by (simp add: uni_gamepad_remap_def uni_gamepad_set_mappings_def remap_custom_def
        button_table_def button_defs)
  then show ?thesis
    by (auto simp: bit_remap_bits button_rules_def c_simps intro!: bexI)
qed

text \<open>
  The built-in layouts: the Xbox layout changes nothing; the Switch layout exchanges A with B
  and X with Y and applying it twice restores the gamepad; the default table used as a custom
  mapping keeps every documented button, stick and pedal, masks the undocumented button bits and,
  unlike the two other layouts, clears the motion sensors.
\<close>

theorem remap_layouts:
  "uni_gamepad_remap (uni_gamepad_set_mappings_type TYPE_XBOX st) gp = gp \<and>
   (let sw = uni_gamepad_remap (uni_gamepad_set_mappings_type TYPE_SWITCH st)
    in sw (sw gp) = gp \<and>
       has_bits (buttons (sw gp)) BUTTON_A = has_bits (buttons gp) BUTTON_B \<and>
       has_bits (buttons (sw gp)) BUTTON_X = has_bits (buttons gp) BUTTON_Y) \<and>
   uni_gamepad_remap (uni_gamepad_set_mappings GAMEPAD_DEFAULT_MAPPINGS st) gp =
     gp\<lparr>buttons := buttons gp AND 0x3FF, dpad := dpad gp AND 0xF,
        misc_buttons := misc_buttons gp AND 0xF, gyro := [0, 0, 0], accel := [0, 0, 0]\<rparr>"
  by (simp add: uni_gamepad_remap_def uni_gamepad_set_mappings_def uni_gamepad_set_mappings_type_def
      remap_custom_default Let_def button_defs c_simps bit_remap_switch)

end
