(* ===== verification/Hid_Parser.thy ===== *)
theory Hid_Parser
  imports Gamepad
begin

text \<open>
  \<^verbatim>\<open>components/bluepad32/parser/uni_hid_parser.c\<close> and its header: normalisation of axes, pedals,
  hats and d-pads, and the loop that feeds the decoded fields of an input report to a parser. The
  decoding of the HID descriptor itself is BTstack's: a report arrives here as the list of fields
  (globals, usage page, usage, value) that its iterator yields.

  \<open>usage_parser\<close> is the contract between that loop and the parsers of the \<^verbatim>\<open>parse_usage\<close> kind;
  each parser theory interprets it on its own definitions.
\<close>

section \<open>Usages\<close>

abbreviation PAGE_GENERIC_DESKTOP :: u16 where "PAGE_GENERIC_DESKTOP \<equiv> 0x01"
abbreviation PAGE_SIMULATION_CONTROLS :: u16 where "PAGE_SIMULATION_CONTROLS \<equiv> 0x02"
abbreviation PAGE_GENERIC_DEVICE_CONTROLS :: u16 where "PAGE_GENERIC_DEVICE_CONTROLS \<equiv> 0x06"
abbreviation PAGE_KEYBOARD_KEYPAD :: u16 where "PAGE_KEYBOARD_KEYPAD \<equiv> 0x07"
abbreviation PAGE_BUTTON :: u16 where "PAGE_BUTTON \<equiv> 0x09"
abbreviation PAGE_CONSUMER :: u16 where "PAGE_CONSUMER \<equiv> 0x0c"

abbreviation USAGE_AXIS_X :: u16 where "USAGE_AXIS_X \<equiv> 0x30"
abbreviation USAGE_AXIS_Y :: u16 where "USAGE_AXIS_Y \<equiv> 0x31"
abbreviation USAGE_AXIS_Z :: u16 where "USAGE_AXIS_Z \<equiv> 0x32"
abbreviation USAGE_AXIS_RX :: u16 where "USAGE_AXIS_RX \<equiv> 0x33"
abbreviation USAGE_AXIS_RY :: u16 where "USAGE_AXIS_RY \<equiv> 0x34"
abbreviation USAGE_AXIS_RZ :: u16 where "USAGE_AXIS_RZ \<equiv> 0x35"
abbreviation USAGE_HAT :: u16 where "USAGE_HAT \<equiv> 0x39"
abbreviation USAGE_SYSTEM_MAIN_MENU :: u16 where "USAGE_SYSTEM_MAIN_MENU \<equiv> 0x85"
abbreviation USAGE_DPAD_UP :: u16 where "USAGE_DPAD_UP \<equiv> 0x90"
abbreviation USAGE_DPAD_DOWN :: u16 where "USAGE_DPAD_DOWN \<equiv> 0x91"
abbreviation USAGE_DPAD_RIGHT :: u16 where "USAGE_DPAD_RIGHT \<equiv> 0x92"
abbreviation USAGE_DPAD_LEFT :: u16 where "USAGE_DPAD_LEFT \<equiv> 0x93"
abbreviation USAGE_ACCELERATOR :: u16 where "USAGE_ACCELERATOR \<equiv> 0xc4"
abbreviation USAGE_BRAKE :: u16 where "USAGE_BRAKE \<equiv> 0xc5"
abbreviation USAGE_BATTERY_STRENGTH :: u16 where "USAGE_BATTERY_STRENGTH \<equiv> 0x20"
abbreviation USAGE_KB_NONE :: u16 where "USAGE_KB_NONE \<equiv> 0x00"
abbreviation USAGE_KB_ENTER :: u16 where "USAGE_KB_ENTER \<equiv> 0x28"
abbreviation USAGE_RECORD :: u16 where "USAGE_RECORD \<equiv> 0xb2"
abbreviation USAGE_AC_HOME :: u16 where "USAGE_AC_HOME \<equiv> 0x0223"
abbreviation USAGE_AC_BACK :: u16 where "USAGE_AC_BACK \<equiv> 0x0224"

section \<open>Globals and normalisation\<close>

record hid_globals =
  logical_minimum :: int
  logical_maximum :: int
  usage_page :: u16
  report_size :: u8
  report_count :: u8
  report_id :: u8

text \<open>\<open>logical_maximum\<close> with the fix for the Amazon Fire pads, and the number of values of a field.\<close>

definition effective_maximum :: "hid_globals \<Rightarrow> int" where
  "effective_maximum g =
     (if logical_maximum g = - 1 then to_i32 (to_i32 (2 ^ unat (report_size g)) - 1)
      else logical_maximum g)"

definition field_range :: "hid_globals \<Rightarrow> int" where
  "field_range g = to_i32 (effective_maximum g - logical_minimum g + 1)"

definition AXIS_NORMALIZE_RANGE :: int where
  "AXIS_NORMALIZE_RANGE = 1024"

definition uni_hid_parser_process_axis :: "hid_globals \<Rightarrow> u32 \<Rightarrow> int option" where
  "uni_hid_parser_process_axis g value =
     (let range = field_range g;
          centered = to_i32 (uint value - range sdiv 2 - logical_minimum g)
      in c_div (to_i32 (centered * AXIS_NORMALIZE_RANGE)) range)"

definition uni_hid_parser_process_pedal :: "hid_globals \<Rightarrow> u32 \<Rightarrow> int option" where
  "uni_hid_parser_process_pedal g value =
     (let range = field_range g
      in if range = 0 then None
         else Some (sint ((value * word_of_int AXIS_NORMALIZE_RANGE) div u32_of range)))"

definition uni_hid_parser_process_hat :: "hid_globals \<Rightarrow> u32 \<Rightarrow> u8" where
  "uni_hid_parser_process_hat g value =
     (let v = sint value
      in if v < logical_minimum g \<or> v > logical_maximum g then 0xff
         else u8_of (v - logical_minimum g))"

definition set_or_clear :: "bool \<Rightarrow> 'a::len word \<Rightarrow> 'a word \<Rightarrow> 'a word" where
  "set_or_clear b m x = (if b then x OR m else x AND NOT m)"

definition uni_hid_parser_process_dpad :: "u16 \<Rightarrow> u32 \<Rightarrow> u8 \<Rightarrow> u8" where
  "uni_hid_parser_process_dpad usage value d =
     (if usage = USAGE_DPAD_UP then set_or_clear (value \<noteq> 0) DPAD_UP d
      else if usage = USAGE_DPAD_DOWN then set_or_clear (value \<noteq> 0) DPAD_DOWN d
      else if usage = USAGE_DPAD_RIGHT then set_or_clear (value \<noteq> 0) DPAD_RIGHT d
      else if usage = USAGE_DPAD_LEFT then set_or_clear (value \<noteq> 0) DPAD_LEFT d
      else d)"

definition uni_hid_parser_hat_to_dpad :: "u8 \<Rightarrow> u8" where
  "uni_hid_parser_hat_to_dpad hat =
     (if hat = 0xff \<or> hat = 0x08 then 0
      else if hat = 0 then DPAD_UP
      else if hat = 1 then DPAD_UP OR DPAD_RIGHT
      else if hat = 2 then DPAD_RIGHT
      else if hat = 3 then DPAD_RIGHT OR DPAD_DOWN
      else if hat = 4 then DPAD_DOWN
      else if hat = 5 then DPAD_DOWN OR DPAD_LEFT
      else if hat = 6 then DPAD_LEFT
      else if hat = 7 then DPAD_LEFT OR DPAD_UP
      else 0)"

subsection \<open>Bounds of the normalised values\<close>

text \<open>A field whose arithmetic stays inside 32 bits: at most 21 bits of range, value in range.\<close>

definition field_ok :: "hid_globals \<Rightarrow> int \<Rightarrow> bool" where
  "field_ok g v \<longleftrightarrow> logical_minimum g \<le> v \<and> v \<le> effective_maximum g \<and>
     effective_maximum g - logical_minimum g < 2 ^ 21 \<and>
     - (2 ^ 30) \<le> logical_minimum g \<and> effective_maximum g < 2 ^ 30"

lemma field_range_ok:
  assumes "field_ok g v"
  shows "field_range g = effective_maximum g - logical_minimum g + 1"
    "0 < field_range g" "field_range g \<le> 2 ^ 21"
proof -
  show eq: "field_range g = effective_maximum g - logical_minimum g + 1"
    unfolding field_range_def by (rule to_i32_id) (use assms in \<open>auto simp: field_ok_def\<close>)
  show "0 < field_range g" "field_range g \<le> 2 ^ 21"
    using assms by (auto simp: eq field_ok_def)
qed

lemma to_i32_uint_diff: "to_i32 (uint (u32_of v) - a - b) = to_i32 (v - a - b)"
proof -
  have "(uint (u32_of v) + (2 ^ 31 - a - b)) mod 2 ^ 32 = (v + (2 ^ 31 - a - b)) mod 2 ^ 32"
    by (simp only: u32_of_def uint_word_of_int_eq take_bit_eq_mod) (simp add: mod_add_left_eq)
  then show ?thesis
    by (simp add: to_i32_def to_signed_def algebra_simps)
qed

lemma process_axis_eq:
  assumes "field_ok g v"
  shows "uni_hid_parser_process_axis g (u32_of v) =
    Some ((v - field_range g div 2 - logical_minimum g) * 1024 sdiv field_range g)"
proof -
  let ?r = "field_range g" and ?c = "v - field_range g div 2 - logical_minimum g"
  have r: "0 < ?r" "?r \<le> 2 ^ 21" using field_range_ok [OF assms] by simp_all
  have "- (?r div 2) \<le> ?c" "?c < ?r"
    using assms field_range_ok(1) [OF assms] r(1) by (auto simp: field_ok_def)
  then have "to_i32 ?c = ?c" "to_i32 (?c * 1024) = ?c * 1024"
    using r by (auto intro!: to_i32_id)
  then show ?thesis
    using r by (simp add: uni_hid_parser_process_axis_def Let_def sdiv_nonneg to_i32_uint_diff
        c_div_def AXIS_NORMALIZE_RANGE_def)
qed

lemma axis_bounds_aux:
  fixes c r :: int
  assumes "0 < r" "- (r div 2) \<le> c" "c < r - r div 2"
  shows "- 512 \<le> c * 1024 sdiv r \<and> c * 1024 sdiv r \<le> 511"
proof (cases "0 \<le> c")
  case True
  have "c * 1024 < 512 * r" using assms(3) by linarith
  with assms(1) have "c * 1024 div r < 512" by (rule div_less_boundI)
  moreover have "0 \<le> c * 1024 div r" using True assms(1) by (simp add: pos_imp_zdiv_nonneg_iff)
  ultimately show ?thesis using True assms(1) by (simp add: sdiv_nonneg)
next
  case False
  have "(- c) * 1024 < 513 * r" using assms(1,2) by linarith
  with assms(1) have "(- c) * 1024 div r < 513" by (rule div_less_boundI)
  moreover have "0 \<le> (- c) * 1024 div r" using False assms(1) by (simp add: pos_imp_zdiv_nonneg_iff)
  ultimately show ?thesis using False assms(1) by (simp add: sdiv_neg)
qed

lemma process_axis_bounds:
  assumes "field_ok g v" "uni_hid_parser_process_axis g (u32_of v) = Some x"
  shows "- 512 \<le> x \<and> x \<le> 511"
proof -
  let ?c = "v - field_range g div 2 - logical_minimum g"
  have "- (field_range g div 2) \<le> ?c" "?c < field_range g - field_range g div 2"
    using assms(1) field_range_ok(1) [OF assms(1)] by (auto simp: field_ok_def)
  from axis_bounds_aux [OF field_range_ok(2) [OF assms(1)] this] show ?thesis
    using assms(2) by (simp add: process_axis_eq [OF assms(1)])
qed

lemma process_axis_mono:
  assumes "field_ok g v" "field_ok g w" "v \<le> w"
    "uni_hid_parser_process_axis g (u32_of v) = Some x"
    "uni_hid_parser_process_axis g (u32_of w) = Some y"
  shows "x \<le> y"
  using assms by (auto simp: process_axis_eq intro!: sdiv_mono field_range_ok(2))

lemma process_pedal_eq:
  assumes "field_ok g v" "logical_minimum g = 0"
  shows "uni_hid_parser_process_pedal g (u32_of v) = Some (v * 1024 div field_range g)"
    "0 \<le> v * 1024 div field_range g \<and> v * 1024 div field_range g \<le> 1023"
proof -
  let ?r = "field_range g"
  have r: "0 < ?r" "?r \<le> 2 ^ 21" using field_range_ok [OF assms(1)] by simp_all
  have v: "0 \<le> v" "v < ?r"
    using assms field_range_ok(1) [OF assms(1)] by (auto simp: field_ok_def)
  have lt: "v * 1024 div ?r < 1024"
    using v r by (intro div_less_boundI) simp_all
  then show b: "0 \<le> v * 1024 div ?r \<and> v * 1024 div ?r \<le> 1023"
    using v r by (auto simp: pos_imp_zdiv_nonneg_iff)
  have "u32_of v * word_of_int 1024 = (word_of_int (v * 1024) :: u32)"
    by (simp add: u32_of_def)
  moreover have "uint (word_of_int (v * 1024) :: u32) = v * 1024" "uint (u32_of ?r) = ?r"
    using v r by (simp_all only: u32_of_def uint_word_of_int_eq) (simp_all add: take_bit_int_eq_self)
  ultimately have "uint ((u32_of v * word_of_int 1024) div u32_of ?r) = v * 1024 div ?r"
    by (simp only: uint_div)
  then show "uni_hid_parser_process_pedal g (u32_of v) = Some (v * 1024 div ?r)"
    using lt r by (simp add: uni_hid_parser_process_pedal_def Let_def AXIS_NORMALIZE_RANGE_def
        sint_uint_small)
qed

section \<open>Properties\<close>

text \<open>
  C30: A stick value is normalised into the documented interval and monotonically: for two values of
  one field (its range at most 21 bits wide) neither computation traps, both results lie between
  -512 and 511, and the larger value gives the larger result.
\<close>

theorem process_axis_correct:
  assumes "field_ok g v" "field_ok g w" "v \<le> w"
  shows "\<exists>x y. uni_hid_parser_process_axis g (u32_of v) = Some x \<and>
    uni_hid_parser_process_axis g (u32_of w) = Some y \<and> - 512 \<le> x \<and> x \<le> y \<and> y \<le> 511"
proof -
  obtain x y where xy: "uni_hid_parser_process_axis g (u32_of v) = Some x"
    "uni_hid_parser_process_axis g (u32_of w) = Some y"
    using process_axis_eq [OF assms(1)] process_axis_eq [OF assms(2)] by blast
  show ?thesis
    using xy process_axis_bounds [OF assms(1) xy(1)] process_axis_bounds [OF assms(2) xy(2)]
      process_axis_mono [OF assms xy] by blast
qed

definition byte_field :: hid_globals where
  "byte_field = \<lparr>logical_minimum = 0, logical_maximum = 255, usage_page = PAGE_GENERIC_DESKTOP,
     report_size = 8, report_count = 1, report_id = 0\<rparr>"

theorem process_axis_correct_witness:
  "\<exists>x y. uni_hid_parser_process_axis byte_field (u32_of 0) = Some x \<and>
    uni_hid_parser_process_axis byte_field (u32_of 255) = Some y \<and> - 512 \<le> x \<and> x \<le> y \<and> y \<le> 511"
  by (rule process_axis_correct) (simp_all add: field_ok_def byte_field_def effective_maximum_def)

text \<open>
  A hat never reports opposite directions, its eight positions give eight different d-pads, and
  every other value (the null value 0xff included) gives the released d-pad.
\<close>

theorem hat_to_dpad_correct:
  "\<not> (has_bits (uni_hid_parser_hat_to_dpad h) DPAD_UP \<and> has_bits (uni_hid_parser_hat_to_dpad h) DPAD_DOWN) \<and>
   \<not> (has_bits (uni_hid_parser_hat_to_dpad h) DPAD_LEFT \<and> has_bits (uni_hid_parser_hat_to_dpad h) DPAD_RIGHT) \<and>
   inj_on uni_hid_parser_hat_to_dpad {0, 1, 2, 3, 4, 5, 6, 7, 8} \<and>
   (uni_hid_parser_hat_to_dpad h = 0 \<longleftrightarrow> h \<notin> {0, 1, 2, 3, 4, 5, 6, 7})"
  by (auto simp: uni_hid_parser_hat_to_dpad_def dpad_defs has_bits_def BIT_def)

end
