(* ===== verification/Usage_Parser.thy ===== *)
theory Usage_Parser
  imports Hid_Parser
begin

text \<open>
  What the parsers of the \<^verbatim>\<open>parse_usage\<close> kind share: the C \<^verbatim>\<open>switch\<close> as a table
  (\<open>switch_on\<close>), the few assignments their cases consist of (\<open>press\<close>, \<open>store_axis\<close>, \ldots), and the
  loop of \<^verbatim>\<open>uni_hid_parse_input_report\<close> over the fields of a report.
\<close>

section \<open>Switch tables\<close>

fun switch_on :: "'k \<Rightarrow> ('k list \<times> 'a) list \<Rightarrow> 'a \<Rightarrow> 'a" where
  "switch_on k [] d = d"
| "switch_on k ((ks, a) # cs) d = (if k \<in> set ks then a else switch_on k cs d)"

lemma switch_on_P:
  "(\<And>ks a. (ks, a) \<in> set cs \<Longrightarrow> P a) \<Longrightarrow> P d \<Longrightarrow> P (switch_on k cs d)"
  by (induction k cs d rule: switch_on.induct) auto

section \<open>Assignments\<close>

type_synonym action = "uni_controller \<Rightarrow> uni_controller option"

definition upd_gp :: "(uni_gamepad \<Rightarrow> uni_gamepad) \<Rightarrow> uni_controller \<Rightarrow> uni_controller" where
  "upd_gp f c = c\<lparr>gamepad := f (gamepad c)\<rparr>"

definition skip :: action where
  "skip c = Some c"

definition press :: "int \<Rightarrow> u16 \<Rightarrow> action" where
  "press value m c = Some (upd_gp (\<lambda>g. g\<lparr>buttons := or_if (value \<noteq> 0) m (buttons g)\<rparr>) c)"

definition press_misc :: "int \<Rightarrow> u8 \<Rightarrow> action" where
  "press_misc value m c =
     Some (upd_gp (\<lambda>g. g\<lparr>misc_buttons := or_if (value \<noteq> 0) m (misc_buttons g)\<rparr>) c)"

definition press_dpad :: "int \<Rightarrow> u8 \<Rightarrow> action" where
  "press_dpad value m c = Some (upd_gp (\<lambda>g. g\<lparr>dpad := or_if (value \<noteq> 0) m (dpad g)\<rparr>) c)"

definition store_hat :: "hid_globals \<Rightarrow> int \<Rightarrow> action" where
  "store_hat g value c = Some (upd_gp (\<lambda>gp. gp\<lparr>dpad :=
     uni_hid_parser_hat_to_dpad (uni_hid_parser_process_hat g (u32_of value))\<rparr>) c)"

definition store_dpad :: "u16 \<Rightarrow> int \<Rightarrow> action" where
  "store_dpad usage value c =
     Some (upd_gp (\<lambda>g. g\<lparr>dpad := uni_hid_parser_process_dpad usage (u32_of value) (dpad g)\<rparr>) c)"

definition store_battery :: "int \<Rightarrow> action" where
  "store_battery value c = Some (c\<lparr>battery := u8_of value\<rparr>)"

definition store :: "(int \<Rightarrow> uni_gamepad \<Rightarrow> uni_gamepad) \<Rightarrow> int option \<Rightarrow> action" where
  "store upd v c = map_option (\<lambda>x. upd_gp (upd x) c) v"

definition put_x :: "int \<Rightarrow> uni_gamepad \<Rightarrow> uni_gamepad" where "put_x v g = g\<lparr>axis_x := v\<rparr>"
definition put_y :: "int \<Rightarrow> uni_gamepad \<Rightarrow> uni_gamepad" where "put_y v g = g\<lparr>axis_y := v\<rparr>"
definition put_rx :: "int \<Rightarrow> uni_gamepad \<Rightarrow> uni_gamepad" where "put_rx v g = g\<lparr>axis_rx := v\<rparr>"
definition put_ry :: "int \<Rightarrow> uni_gamepad \<Rightarrow> uni_gamepad" where "put_ry v g = g\<lparr>axis_ry := v\<rparr>"
definition put_brake :: "int \<Rightarrow> uni_gamepad \<Rightarrow> uni_gamepad" where "put_brake v g = g\<lparr>brake := v\<rparr>"
definition put_throttle :: "int \<Rightarrow> uni_gamepad \<Rightarrow> uni_gamepad" where
  "put_throttle v g = g\<lparr>throttle := v\<rparr>"

abbreviation axis :: "hid_globals \<Rightarrow> int \<Rightarrow> int option" where
  "axis g value \<equiv> uni_hid_parser_process_axis g (u32_of value)"

abbreviation pedal :: "hid_globals \<Rightarrow> int \<Rightarrow> int option" where
  "pedal g value \<equiv> uni_hid_parser_process_pedal g (u32_of value)"

lemmas action_defs = skip_def press_def press_misc_def press_dpad_def store_hat_def store_dpad_def
  store_battery_def store_def

lemmas put_defs = put_x_def put_y_def put_rx_def put_ry_def put_brake_def put_throttle_def

section \<open>What an assignment may touch\<close>

text \<open>
  The frame of one field: the class and the other members of the controller stay, motion data stays,
  and a button that is down stays down until the next report.
\<close>

definition frame :: "uni_controller \<Rightarrow> uni_controller \<Rightarrow> bool" where
  "frame c c' \<longleftrightarrow> klass c' = klass c \<and> mouse c' = mouse c \<and> balance_board c' = balance_board c \<and>
     keyboard c' = keyboard c \<and> gyro (gamepad c') = gyro (gamepad c) \<and>
     accel (gamepad c') = accel (gamepad c) \<and>
     subset_bits (buttons (gamepad c)) (buttons (gamepad c')) \<and>
     subset_bits (misc_buttons (gamepad c)) (misc_buttons (gamepad c'))"

definition framed :: "action \<Rightarrow> bool" where
  "framed a \<longleftrightarrow> (\<forall>c c'. a c = Some c' \<longrightarrow> frame c c')"

definition total :: "action \<Rightarrow> bool" where
  "total a \<longleftrightarrow> (\<forall>c. a c \<noteq> None)"

lemma frame_refl [simp]: "frame c c"
  by (simp add: frame_def)

lemma frame_trans: "frame a b \<Longrightarrow> frame b c \<Longrightarrow> frame a c"
  unfolding frame_def by (auto intro: subset_bits_trans)

lemma framed_actions [simp]:
  "framed skip" "framed (press v m)" "framed (press_misc v k)" "framed (press_dpad v d)"
  "framed (store_hat g v)" "framed (store_dpad u v)" "framed (store_battery v)"
  by (auto simp: framed_def frame_def action_defs upd_gp_def)

lemma framed_store [simp]:
  "framed (store put_x v)" "framed (store put_y v)" "framed (store put_rx v)"
  "framed (store put_ry v)" "framed (store put_brake v)" "framed (store put_throttle v)"
  by (auto simp: framed_def frame_def action_defs upd_gp_def put_defs)

lemma total_actions [simp]:
  "total skip" "total (press v m)" "total (press_misc v k)" "total (press_dpad v d)"
  "total (store_hat g v)" "total (store_dpad u v)" "total (store_battery v)"
  by (auto simp: total_def action_defs)

lemma total_store [simp]: "v \<noteq> None \<Longrightarrow> total (store f v)"
  by (auto simp: total_def action_defs)

lemma axis_total: "field_range g \<noteq> 0 \<Longrightarrow> axis g v \<noteq> None"
  by (simp add: uni_hid_parser_process_axis_def Let_def c_div_def)

lemma pedal_total: "field_range g \<noteq> 0 \<Longrightarrow> pedal g v \<noteq> None"
  by (simp add: uni_hid_parser_process_pedal_def Let_def)

text \<open>Sticks and pedals inside the documented intervals of the virtual gamepad.\<close>

definition in_range :: "uni_gamepad \<Rightarrow> bool" where
  "in_range g \<longleftrightarrow> (\<forall>a \<in> {axis_x g, axis_y g, axis_rx g, axis_ry g}. - 512 \<le> a \<and> a \<le> 511) \<and>
     (\<forall>p \<in> {brake g, throttle g}. 0 \<le> p \<and> p \<le> 1023)"

definition ranged :: "action \<Rightarrow> bool" where
  "ranged a \<longleftrightarrow> (\<forall>c c'. a c = Some c' \<longrightarrow> in_range (gamepad c) \<longrightarrow> in_range (gamepad c'))"

lemma ranged_actions [simp]:
  "ranged skip" "ranged (press v m)" "ranged (press_misc v k)" "ranged (press_dpad v d)"
  "ranged (store_hat g v)" "ranged (store_dpad u v)" "ranged (store_battery v)"
  by (auto simp: ranged_def in_range_def action_defs upd_gp_def)

lemma ranged_axis [simp]:
  assumes "field_ok g v"
  shows "ranged (store put_x (axis g v))" "ranged (store put_y (axis g v))"
    "ranged (store put_rx (axis g v))" "ranged (store put_ry (axis g v))"
  using process_axis_bounds [OF assms]
  by (auto simp: ranged_def in_range_def action_defs upd_gp_def put_defs)

lemma ranged_pedal [simp]:
  assumes "field_ok g v" "logical_minimum g = 0"
  shows "ranged (store put_brake (pedal g v))" "ranged (store put_throttle (pedal g v))"
  using process_pedal_eq [OF assms]
  by (auto simp: ranged_def in_range_def action_defs upd_gp_def put_defs)

lemma in_range_zero [simp]: "in_range gamepad_zero"
  by (simp add: in_range_def gamepad_zero_def)

text \<open>The buttons an assignment presses.\<close>

definition presses :: "action \<Rightarrow> (nat \<Rightarrow> bool) \<Rightarrow> bool" where
  "presses a P \<longleftrightarrow> (\<forall>c c'. a c = Some c' \<longrightarrow>
     (\<forall>n. bit (buttons (gamepad c')) n \<longleftrightarrow> bit (buttons (gamepad c)) n \<or> P n))"

lemma presses_none [simp]:
  "presses skip (\<lambda>n. False)" "presses (press_misc v k) (\<lambda>n. False)" "presses (press_dpad v d) (\<lambda>n. False)"
  "presses (store_hat g v) (\<lambda>n. False)" "presses (store_dpad u v) (\<lambda>n. False)"
  "presses (store_battery v) (\<lambda>n. False)"
  "presses (store put_x w) (\<lambda>n. False)" "presses (store put_y w) (\<lambda>n. False)"
  "presses (store put_rx w) (\<lambda>n. False)" "presses (store put_ry w) (\<lambda>n. False)"
  "presses (store put_brake w) (\<lambda>n. False)" "presses (store put_throttle w) (\<lambda>n. False)"
  by (auto simp: presses_def action_defs upd_gp_def put_defs)

lemma presses_press: "presses (press v (BIT i)) (\<lambda>n. v \<noteq> 0 \<and> n = i \<and> i < 16)"
  by (auto simp: presses_def action_defs upd_gp_def c_simps)

section \<open>The report loop\<close>

type_synonym field = "hid_globals \<times> u16 \<times> u16 \<times> int"

record 'd report_parser =
  rp_init_report :: "('d \<Rightarrow> 'd) option"
  rp_parse_usage :: "(hid_globals \<Rightarrow> u16 \<Rightarrow> u16 \<Rightarrow> int \<Rightarrow> 'd \<Rightarrow> 'd option) option"
  rp_parse_input_report :: "(u8 list \<Rightarrow> 'd \<Rightarrow> 'd option) option"

fun parse_fields ::
  "(hid_globals \<Rightarrow> u16 \<Rightarrow> u16 \<Rightarrow> int \<Rightarrow> 'd \<Rightarrow> 'd option) \<Rightarrow> field list \<Rightarrow> 'd \<Rightarrow> 'd option" where
  "parse_fields pu [] d = Some d"
| "parse_fields pu ((g, page, usage, value) # fs) d =
     (case pu g page usage value d of None \<Rightarrow> None | Some d' \<Rightarrow> parse_fields pu fs d')"

text \<open>\<open>flds\<close> is what BTstack's iterator makes of \<open>report\<close> and the device's HID descriptor.\<close>

definition uni_hid_parse_input_report ::
  "'d report_parser \<Rightarrow> field list \<Rightarrow> u8 list \<Rightarrow> 'd \<Rightarrow> 'd option" where
  "uni_hid_parse_input_report rp flds report d =
     (let d1 = (case rp_init_report rp of None \<Rightarrow> d | Some f \<Rightarrow> f d);
          d2 = (case rp_parse_input_report rp of None \<Rightarrow> Some d1 | Some f \<Rightarrow> f report d1)
      in case d2 of None \<Rightarrow> None
         | Some d3 \<Rightarrow> (case rp_parse_usage rp of None \<Rightarrow> Some d3
                      | Some pu \<Rightarrow> parse_fields pu flds d3))"

text \<open>A parser that has only the two functions most gamepads need.\<close>

definition usage_report_parser ::
  "('d \<Rightarrow> 'd) \<Rightarrow> (hid_globals \<Rightarrow> u16 \<Rightarrow> u16 \<Rightarrow> int \<Rightarrow> 'd \<Rightarrow> 'd option) \<Rightarrow> 'd report_parser" where
  "usage_report_parser init pu =
     \<lparr>rp_init_report = Some init, rp_parse_usage = Some pu, rp_parse_input_report = None\<rparr>"

lemma parse_usage_report:
  "uni_hid_parse_input_report (usage_report_parser init pu) flds report d =
     parse_fields pu flds (init d)"
  by (simp add: uni_hid_parse_input_report_def usage_report_parser_def)

section \<open>The contract of a parser\<close>

locale usage_parser =
  fixes init_report :: "'d \<Rightarrow> 'd"
    and parse_usage :: "hid_globals \<Rightarrow> u16 \<Rightarrow> u16 \<Rightarrow> int \<Rightarrow> 'd \<Rightarrow> 'd option"
    and ctl :: "'d \<Rightarrow> uni_controller"
  assumes init_law: "ctl (init_report d) = controller_zero\<lparr>klass := CLASS_GAMEPAD\<rparr>"
    and frame_law: "parse_usage g page usage value d = Some d' \<Longrightarrow> frame (ctl d) (ctl d')"
    and total_law: "field_range g \<noteq> 0 \<Longrightarrow> parse_usage g page usage value d \<noteq> None"
begin

lemma fields_frame: "parse_fields parse_usage fs d = Some d' \<Longrightarrow> frame (ctl d) (ctl d')"
proof (induction fs arbitrary: d)
  case Nil
  then show ?case by simp
next
  case (Cons f fs)
  then show ?case
    by (cases f) (auto split: option.splits dest: frame_law intro: frame_trans)
qed

lemma fields_total:
  "\<forall>(g, page, usage, value) \<in> set fs. field_range g \<noteq> 0 \<Longrightarrow> parse_fields parse_usage fs d \<noteq> None"
proof (induction fs arbitrary: d)
  case Nil
  then show ?case by simp
next
  case (Cons f fs)
  then show ?case
    using total_law [of "fst f" "fst (snd f)" "fst (snd (snd f))" "snd (snd (snd f))" d]
    by (cases f) auto
qed

lemma report_frame:
  assumes "parse_fields parse_usage fs (init_report d) = Some d'"
  shows "klass (ctl d') = CLASS_GAMEPAD \<and> mouse (ctl d') = mouse_zero \<and>
    gyro (gamepad (ctl d')) = [0, 0, 0] \<and> accel (gamepad (ctl d')) = [0, 0, 0]"
  using fields_frame [OF assms] by (simp add: frame_def init_law controller_zero_def gamepad_zero_def)

end

text \<open>A parser whose fields also keep the sticks and pedals in range, for the fields it accepts.\<close>

locale ranged_usage_parser = usage_parser +
  fixes good :: "field \<Rightarrow> bool"
  assumes range_law: "good (g, page, usage, value) \<Longrightarrow> in_range (gamepad (ctl d)) \<Longrightarrow>
    parse_usage g page usage value d = Some d' \<Longrightarrow> in_range (gamepad (ctl d'))"
begin

lemma fields_range:
  "\<forall>f \<in> set fs. good f \<Longrightarrow> in_range (gamepad (ctl d)) \<Longrightarrow>
    parse_fields parse_usage fs d = Some d' \<Longrightarrow> in_range (gamepad (ctl d'))"
proof (induction fs arbitrary: d)
  case Nil
  then show ?case by simp
next
  case (Cons f fs)
  then show ?case
    by (cases f) (auto split: option.splits dest: range_law)
qed

lemma report_range:
  assumes "\<forall>f \<in> set fs. good f" "parse_fields parse_usage fs (init_report d) = Some d'"
  shows "in_range (gamepad (ctl d'))"
  by (rule fields_range [OF assms(1) _ assms(2)]) (simp add: init_law controller_zero_def)

end

text \<open>A parser whose regular buttons are given by a table.\<close>

locale button_parser = usage_parser +
  fixes pressed_by :: "field \<Rightarrow> nat \<Rightarrow> bool"
  assumes press_law: "parse_usage g page usage value d = Some d' \<Longrightarrow>
    bit (buttons (gamepad (ctl d'))) n \<longleftrightarrow>
      bit (buttons (gamepad (ctl d))) n \<or> pressed_by (g, page, usage, value) n"
begin

lemma fields_buttons:
  "parse_fields parse_usage fs d = Some d' \<Longrightarrow>
    bit (buttons (gamepad (ctl d'))) n \<longleftrightarrow>
      bit (buttons (gamepad (ctl d))) n \<or> (\<exists>f \<in> set fs. pressed_by f n)"
proof (induction fs arbitrary: d)
  case Nil
  then show ?case by simp
next
  case (Cons f fs)
  then show ?case by (cases f) (auto split: option.splits simp: press_law)
qed

lemma report_buttons:
  "parse_fields parse_usage fs (init_report d) = Some d' \<Longrightarrow>
    bit (buttons (gamepad (ctl d'))) n \<longleftrightarrow> (\<exists>f \<in> set fs. pressed_by f n)"
  by (simp add: fields_buttons init_law controller_zero_def gamepad_zero_def)

end

end
