(* ===== verification/Simple_Parsers.thy ===== *)
theory Simple_Parsers
  imports Usage_Parser
begin

text \<open>
  The parsers that need no state of their own:
  \<^verbatim>\<open>uni_hid_parser_generic.c\<close>, \<^verbatim>\<open>uni_hid_parser_android.c\<close> and
  \<^verbatim>\<open>uni_hid_parser_8bitdo.c\<close> under \<^verbatim>\<open>components/bluepad32/parser\<close>. Cases that only log
  are \<open>skip\<close>.
\<close>

section \<open>Generic\<close>

definition uni_hid_parser_generic_init_report :: "uni_controller \<Rightarrow> uni_controller" where
  "uni_hid_parser_generic_init_report c = controller_zero\<lparr>klass := CLASS_GAMEPAD\<rparr>"

definition uni_hid_parser_generic_parse_usage ::
  "hid_globals \<Rightarrow> u16 \<Rightarrow> u16 \<Rightarrow> int \<Rightarrow> action" where
  "uni_hid_parser_generic_parse_usage g page usage value = switch_on page
   [([PAGE_GENERIC_DESKTOP], switch_on usage
      [([USAGE_AXIS_X], store put_x (axis g value)),
       ([USAGE_AXIS_Y], store put_y (axis g value)),
       ([USAGE_AXIS_Z], store put_rx (axis g value)),
       ([USAGE_AXIS_RX], store put_rx (axis g value)),
       ([USAGE_AXIS_RY], store put_ry (pedal g value)),
       ([USAGE_AXIS_RZ], store put_ry (axis g value)),
       ([USAGE_HAT], store_hat g value),
       ([USAGE_DPAD_UP, USAGE_DPAD_DOWN, USAGE_DPAD_RIGHT, USAGE_DPAD_LEFT],
          store_dpad usage value)] skip),
    ([PAGE_SIMULATION_CONTROLS], switch_on usage
      [([USAGE_ACCELERATOR], store put_throttle (pedal g value)),
       ([USAGE_BRAKE], store put_brake (pedal g value))] skip),
    ([PAGE_KEYBOARD_KEYPAD], switch_on usage
      [([USAGE_KB_NONE], skip),
       ([USAGE_KB_ENTER], press_misc value MISC_BUTTON_SYSTEM)] skip),
    ([PAGE_GENERIC_DEVICE_CONTROLS], switch_on usage
      [([USAGE_BATTERY_STRENGTH], store_battery value)] skip),
    ([PAGE_BUTTON], switch_on usage
      [([0x01], press value BUTTON_A),
       ([0x02], press value BUTTON_B),
       ([0x03], skip),
       ([0x04], press value BUTTON_X),
       ([0x05], press value BUTTON_Y),
       ([0x06], skip),
       ([0x07], press value BUTTON_SHOULDER_L),
       ([0x08], press value BUTTON_SHOULDER_R),
       ([0x09, 0x0a], skip),
       ([0x0b], press_misc value MISC_BUTTON_SELECT),
       ([0x0c], press_misc value MISC_BUTTON_START),
       ([0x0d], press_misc value MISC_BUTTON_SYSTEM),
       ([0x0e], press value BUTTON_THUMB_L),
       ([0x0f], press value BUTTON_THUMB_R),
       ([0x10], skip)] skip),
    ([PAGE_CONSUMER], switch_on usage
      [([USAGE_AC_HOME], press_misc value MISC_BUTTON_START),
       ([USAGE_AC_BACK], press_misc value MISC_BUTTON_SELECT)] skip)] skip"

lemma generic_framed [simp]: "framed (uni_hid_parser_generic_parse_usage g page usage value)"
  unfolding uni_hid_parser_generic_parse_usage_def by simp

lemma generic_total [simp]:
  "field_range g \<noteq> 0 \<Longrightarrow> total (uni_hid_parser_generic_parse_usage g page usage value)"
  unfolding uni_hid_parser_generic_parse_usage_def by (simp add: axis_total pedal_total)

interpretation generic: usage_parser
  uni_hid_parser_generic_init_report uni_hid_parser_generic_parse_usage "\<lambda>c. c"
proof (unfold_locales, goal_cases)
  case (1 d)
  then show ?case by (simp add: uni_hid_parser_generic_init_report_def)
next
  case (2 g page usage v d d')
  then show ?case using generic_framed [of g page usage v] by (simp add: framed_def)
next
  case (3 g page usage v d)
  then show ?case using generic_total [of g page usage v] by (simp add: total_def)
qed

section \<open>Android\<close>

definition uni_hid_parser_android_init_report :: "uni_controller \<Rightarrow> uni_controller" where
  "uni_hid_parser_android_init_report c = controller_zero\<lparr>klass := CLASS_GAMEPAD\<rparr>"

definition uni_hid_parser_android_parse_usage ::
  "hid_globals \<Rightarrow> u16 \<Rightarrow> u16 \<Rightarrow> int \<Rightarrow> action" where
  "uni_hid_parser_android_parse_usage g page usage value = switch_on page
   [([PAGE_GENERIC_DESKTOP], switch_on usage
      [([USAGE_AXIS_X], store put_x (axis g value)),
       ([USAGE_AXIS_Y], store put_y (axis g value)),
       ([USAGE_AXIS_Z], store put_rx (axis g value)),
       ([USAGE_AXIS_RZ], store put_ry (axis g value)),
       ([USAGE_HAT], store_hat g value),
       ([USAGE_DPAD_UP, USAGE_DPAD_DOWN, USAGE_DPAD_RIGHT, USAGE_DPAD_LEFT],
          store_dpad usage value)] skip),
    ([PAGE_SIMULATION_CONTROLS], switch_on usage
      [([USAGE_ACCELERATOR], store put_throttle (pedal g value)),
       ([USAGE_BRAKE], store put_brake (pedal g value))] skip),
    ([PAGE_GENERIC_DEVICE_CONTROLS], switch_on usage
      [([USAGE_BATTERY_STRENGTH], store_battery value)] skip),
    ([PAGE_BUTTON], switch_on usage
      [([0x01], press value BUTTON_A),
       ([0x02], press value BUTTON_B),
       ([0x03], skip),
       ([0x04], press value BUTTON_X),
       ([0x05], press value BUTTON_Y),
       ([0x06], skip),
       ([0x07], press value BUTTON_SHOULDER_L),
       ([0x08], press value BUTTON_SHOULDER_R),
       ([0x09], press value BUTTON_TRIGGER_L),
       ([0x0a], press value BUTTON_TRIGGER_R),
       ([0x0b], press_misc value MISC_BUTTON_SELECT),
       ([0x0c], press_misc value MISC_BUTTON_START),
       ([0x0d], press_misc value MISC_BUTTON_SYSTEM),
       ([0x0e], press value BUTTON_THUMB_L),
       ([0x0f], press value BUTTON_THUMB_R),
       ([0x11], skip),
       ([0x12], skip),
       ([0x13], press value BUTTON_TRIGGER_L),
       ([0x14], press value BUTTON_TRIGGER_R)] skip),
    ([PAGE_CONSUMER], switch_on usage
      [([USAGE_AC_HOME], press_misc value MISC_BUTTON_START),
       ([USAGE_AC_BACK], press_misc value MISC_BUTTON_SELECT)] skip),
    ([0xff01], skip)] skip"

text \<open>Fields an Android pad reports in range: pedals count from 0.\<close>

definition android_good :: "field \<Rightarrow> bool" where
  "android_good f = (case f of (g, page, usage, value) \<Rightarrow> field_ok g value \<and>
     (page = PAGE_SIMULATION_CONTROLS \<longrightarrow> logical_minimum g = 0))"

lemma android_framed [simp]: "framed (uni_hid_parser_android_parse_usage g page usage value)"
  unfolding uni_hid_parser_android_parse_usage_def by simp

lemma android_total [simp]:
  "field_range g \<noteq> 0 \<Longrightarrow> total (uni_hid_parser_android_parse_usage g page usage value)"
  unfolding uni_hid_parser_android_parse_usage_def by (simp add: axis_total pedal_total)

lemma android_ranged [simp]:
  "android_good (g, page, usage, value) \<Longrightarrow>
     ranged (uni_hid_parser_android_parse_usage g page usage value)"
  unfolding uni_hid_parser_android_parse_usage_def by (simp add: android_good_def)

interpretation android: ranged_usage_parser
  uni_hid_parser_android_init_report uni_hid_parser_android_parse_usage "\<lambda>c. c" android_good
proof (unfold_locales, goal_cases)
  case (1 d)
  then show ?case by (simp add: uni_hid_parser_android_init_report_def)
next
  case (2 g page usage v d d')
  then show ?case using android_framed [of g page usage v] by (simp add: framed_def)
next
  case (3 g page usage v d)
  then show ?case using android_total [of g page usage v] by (simp add: total_def)
next
  case (4 g page usage v d d')
  then show ?case using android_ranged [of g page usage v] by (simp add: ranged_def)
qed

section \<open>8BitDo\<close>

definition uni_hid_parser_8bitdo_init_report :: "uni_controller \<Rightarrow> uni_controller" where
  "uni_hid_parser_8bitdo_init_report c = controller_zero\<lparr>klass := CLASS_GAMEPAD\<rparr>"

definition uni_hid_parser_8bitdo_parse_usage ::
  "hid_globals \<Rightarrow> u16 \<Rightarrow> u16 \<Rightarrow> int \<Rightarrow> action" where
  "uni_hid_parser_8bitdo_parse_usage g page usage value = switch_on page
   [([PAGE_GENERIC_DESKTOP], switch_on usage
      [([USAGE_AXIS_X], store put_x (axis g value)),
       ([USAGE_AXIS_Y], store put_y (axis g value)),
       ([USAGE_AXIS_Z], store put_rx (axis g value)),
       ([USAGE_AXIS_RZ], store put_ry (axis g value)),
       ([USAGE_HAT], store_hat g value),
       ([USAGE_DPAD_UP, USAGE_DPAD_DOWN, USAGE_DPAD_RIGHT, USAGE_DPAD_LEFT],
          store_dpad usage value)] skip),
    ([PAGE_SIMULATION_CONTROLS], switch_on usage
      [([USAGE_ACCELERATOR], store put_throttle (pedal g value)),
       ([USAGE_BRAKE], store put_brake (pedal g value))] skip),
    ([PAGE_BUTTON], switch_on usage
      [([0x01], press value BUTTON_B),
       ([0x02], press value BUTTON_A),
       ([0x03], press_misc value MISC_BUTTON_SYSTEM),
       ([0x04], press value BUTTON_Y),
       ([0x05], press value BUTTON_X),
       ([0x06], skip),
       ([0x07], press value BUTTON_SHOULDER_L),
       ([0x08], press value BUTTON_SHOULDER_R),
       ([0x09], press value BUTTON_TRIGGER_L),
       ([0x0a], press value BUTTON_TRIGGER_R),
       ([0x0b], press_misc value MISC_BUTTON_SELECT),
       ([0x0c], press_misc value MISC_BUTTON_START),
       ([0x0d], press_misc value MISC_BUTTON_SYSTEM),
       ([0x0e], press value BUTTON_THUMB_L),
       ([0x0f], press value BUTTON_THUMB_R),
       ([0x10], skip)] skip),
    ([PAGE_GENERIC_DEVICE_CONTROLS], switch_on usage
      [([USAGE_BATTERY_STRENGTH], store_battery value)] skip),
    ([PAGE_KEYBOARD_KEYPAD], switch_on usage
      [([USAGE_KB_NONE], skip),
       ([0x06], press_dpad value DPAD_UP),
       ([0x07], press_dpad value DPAD_DOWN),
       ([0x08], press_dpad value DPAD_LEFT),
       ([0x09], press_dpad value DPAD_RIGHT),
       ([0x0A], press value BUTTON_B),
       ([0x0B], press value BUTTON_Y),
       ([0x0C], press value BUTTON_X),
       ([0x0D], press value BUTTON_A),
       ([0x0E], press value BUTTON_SHOULDER_L),
       ([0x10], press value BUTTON_SHOULDER_R),
       ([0x11], press_misc value MISC_BUTTON_SELECT),
       ([0x12], press_misc value MISC_BUTTON_START)] skip)] skip"

lemma bitdo_framed [simp]: "framed (uni_hid_parser_8bitdo_parse_usage g page usage value)"
  unfolding uni_hid_parser_8bitdo_parse_usage_def by simp

lemma bitdo_total [simp]:
  "field_range g \<noteq> 0 \<Longrightarrow> total (uni_hid_parser_8bitdo_parse_usage g page usage value)"
  unfolding uni_hid_parser_8bitdo_parse_usage_def by (simp add: axis_total pedal_total)

lemma bitdo_ranged [simp]:
  "android_good (g, page, usage, value) \<Longrightarrow>
     ranged (uni_hid_parser_8bitdo_parse_usage g page usage value)"
  unfolding uni_hid_parser_8bitdo_parse_usage_def by (simp add: android_good_def)

interpretation bitdo: ranged_usage_parser
  uni_hid_parser_8bitdo_init_report uni_hid_parser_8bitdo_parse_usage "\<lambda>c. c" android_good
proof (unfold_locales, goal_cases)
  case (1 d)
  then show ?case by (simp add: uni_hid_parser_8bitdo_init_report_def)
next
  case (2 g page usage v d d')
  then show ?case using bitdo_framed [of g page usage v] by (simp add: framed_def)
next
  case (3 g page usage v d)
  then show ?case using bitdo_total [of g page usage v] by (simp add: total_def)
next
  case (4 g page usage v d d')
  then show ?case using bitdo_ranged [of g page usage v] by (simp add: ranged_def)
qed

section \<open>Button tables\<close>

definition generic_table :: "(u16 \<times> nat) list" where
  "generic_table = [(1, 0), (2, 1), (4, 2), (5, 3), (7, 4), (8, 5), (0xe, 8), (0xf, 9)]"

definition android_table :: "(u16 \<times> nat) list" where
  "android_table = [(1, 0), (2, 1), (4, 2), (5, 3), (7, 4), (8, 5), (9, 6), (0xa, 7), (0xe, 8),
     (0xf, 9), (0x13, 6), (0x14, 7)]"

definition bitdo_table :: "(u16 \<times> nat) list" where
  "bitdo_table = [(1, 1), (2, 0), (4, 3), (5, 2), (7, 4), (8, 5), (9, 6), (0xa, 7), (0xe, 8),
     (0xf, 9)]"

definition bitdo_keys :: "(u16 \<times> nat) list" where
  "bitdo_keys = [(0x0a, 1), (0x0b, 3), (0x0c, 2), (0x0d, 0), (0x0e, 4), (0x10, 5)]"

definition pressed_in :: "(u16 \<times> (u16 \<times> nat) list) list \<Rightarrow> field \<Rightarrow> nat \<Rightarrow> bool" where
  "pressed_in pages f n = (case f of (g, page, usage, value) \<Rightarrow>
     value \<noteq> 0 \<and> (\<exists>(p, t) \<in> set pages. page = p \<and> (usage, n) \<in> set t))"

lemma presses_if:
  "(C \<Longrightarrow> presses a P) \<Longrightarrow> (\<not> C \<Longrightarrow> presses b P) \<Longrightarrow> presses (if C then a else b) P"
  by simp

lemma presses_leaf:
  "\<forall>n. \<not> P n \<Longrightarrow> presses a (\<lambda>n. False) \<Longrightarrow> presses a P"
  "\<forall>n. P n \<longleftrightarrow> v \<noteq> 0 \<and> n = i \<Longrightarrow> i < 16 \<Longrightarrow> presses (press v (BIT i)) P"
  using presses_press [of v i] by (simp_all add: presses_def)

lemmas table_defs = generic_table_def android_table_def bitdo_table_def bitdo_keys_def pressed_in_def

lemma generic_presses:
  "presses (uni_hid_parser_generic_parse_usage g page usage v)
     (pressed_in [(PAGE_BUTTON, generic_table)] (g, page, usage, v))"
  unfolding uni_hid_parser_generic_parse_usage_def switch_on.simps button_defs
  by (intro presses_if; simp only: list.set insert_iff empty_iff simp_thms;
      ((rule presses_leaf(2); simp add: table_defs; fail) |
       (rule presses_leaf(1); auto simp: table_defs)))

interpretation generic_buttons: button_parser
  uni_hid_parser_generic_init_report uni_hid_parser_generic_parse_usage "\<lambda>c. c" "pressed_in [(PAGE_BUTTON, generic_table)]"
proof (unfold_locales, goal_cases)
  case (1 g page usage v d d' n)
  then show ?case using generic_presses [of g page usage v] by (simp add: presses_def)
qed

lemma android_presses:
  "presses (uni_hid_parser_android_parse_usage g page usage v)
     (pressed_in [(PAGE_BUTTON, android_table)] (g, page, usage, v))"
  unfolding uni_hid_parser_android_parse_usage_def switch_on.simps button_defs
  by (intro presses_if; simp only: list.set insert_iff empty_iff simp_thms;
      ((rule presses_leaf(2); simp add: table_defs; fail) |
       (rule presses_leaf(1); auto simp: table_defs)))

interpretation android_buttons: button_parser
  uni_hid_parser_android_init_report uni_hid_parser_android_parse_usage "\<lambda>c. c" "pressed_in [(PAGE_BUTTON, android_table)]"
proof (unfold_locales, goal_cases)
  case (1 g page usage v d d' n)
  then show ?case using android_presses [of g page usage v] by (simp add: presses_def)
qed

lemma bitdo_presses:
  "presses (uni_hid_parser_8bitdo_parse_usage g page usage v)
     (pressed_in [(PAGE_BUTTON, bitdo_table), (PAGE_KEYBOARD_KEYPAD, bitdo_keys)] (g, page, usage, v))"
  unfolding uni_hid_parser_8bitdo_parse_usage_def switch_on.simps button_defs
  by (intro presses_if; simp only: list.set insert_iff empty_iff simp_thms;
      ((rule presses_leaf(2); simp add: table_defs; fail) |
       (rule presses_leaf(1); auto simp: table_defs)))

interpretation bitdo_buttons: button_parser
  uni_hid_parser_8bitdo_init_report uni_hid_parser_8bitdo_parse_usage "\<lambda>c. c" "pressed_in [(PAGE_BUTTON, bitdo_table), (PAGE_KEYBOARD_KEYPAD, bitdo_keys)]"
proof (unfold_locales, goal_cases)
  case (1 g page usage v d d' n)
  then show ?case using bitdo_presses [of g page usage v] by (simp add: presses_def)
qed

section \<open>Properties\<close>

text \<open>
  An Android gamepad report whose fields are well formed is always decoded: the result is a
  gamepad with every stick within -512..511, every pedal within 0..1023, no motion data and no other
  controller class touched, and button n is down iff the report has a field of the button page with
  a nonzero value that the layout table maps to n.
\<close>

theorem android_report_correct:
  assumes "\<forall>f \<in> set fs. android_good f"
  shows "\<exists>c. uni_hid_parse_input_report (usage_report_parser uni_hid_parser_android_init_report
        uni_hid_parser_android_parse_usage) fs report c0 = Some c \<and>
    klass c = CLASS_GAMEPAD \<and> mouse c = mouse_zero \<and> in_range (gamepad c) \<and>
    gyro (gamepad c) = [0, 0, 0] \<and> accel (gamepad c) = [0, 0, 0] \<and>
    (\<forall>n. bit (buttons (gamepad c)) n \<longleftrightarrow> (\<exists>f \<in> set fs. pressed_in [(PAGE_BUTTON, android_table)] f n))"
proof -
  have "\<forall>(g, page, usage, value) \<in> set fs. field_range g \<noteq> 0"
    using assms by (auto simp: android_good_def dest!: bspec field_range_ok(2))
  then obtain c where c: "parse_fields uni_hid_parser_android_parse_usage fs
      (uni_hid_parser_android_init_report c0) = Some c"
    using android.fields_total by blast
  show ?thesis
    using c android.report_frame [OF c] android.report_range [OF assms c]
      android_buttons.report_buttons [OF c] by (auto simp: parse_usage_report)
qed

theorem android_report_correct_witness:
  "\<exists>c. uni_hid_parse_input_report (usage_report_parser uni_hid_parser_android_init_report
        uni_hid_parser_android_parse_usage)
        [(byte_field, PAGE_GENERIC_DESKTOP, USAGE_AXIS_X, 255), (byte_field, PAGE_BUTTON, 1, 1)]
        [] controller_zero = Some c \<and> in_range (gamepad c) \<and> bit (buttons (gamepad c)) 0"
  using android_report_correct [of "[(byte_field, PAGE_GENERIC_DESKTOP, USAGE_AXIS_X, 255),
      (byte_field, PAGE_BUTTON, 1, 1)]" "[]" controller_zero]
  by (auto simp: android_good_def field_ok_def byte_field_def effective_maximum_def
      pressed_in_def android_table_def)

lemma bitdo_table_swap:
  "(u, n) \<in> set bitdo_table \<longleftrightarrow>
     (u, if n = 0 then 1 else if n = 1 then 0 else if n = 2 then 3 else if n = 3 then 2 else n)
       \<in> set android_table \<and> u \<notin> {0x13, 0x14}"
  by (auto simp: bitdo_table_def android_table_def)

text \<open>
  8BitDo pads use Nintendo's layout: when the 8BitDo and the Android parser decode the same
  report (no keyboard fields, no trigger duplicates 0x13 and 0x14), the buttons they report differ
  exactly by the Switch remapping, A with B and X with Y exchanged.
\<close>

theorem bitdo_is_switched_android:
  assumes "\<forall>(g, page, usage, value) \<in> set fs. page \<noteq> PAGE_KEYBOARD_KEYPAD \<and> usage \<notin> {0x13, 0x14}"
    and "uni_hid_parse_input_report (usage_report_parser uni_hid_parser_8bitdo_init_report
        uni_hid_parser_8bitdo_parse_usage) fs report c0 = Some c8"
    and "uni_hid_parse_input_report (usage_report_parser uni_hid_parser_android_init_report
        uni_hid_parser_android_parse_usage) fs report c0 = Some ca"
  shows "buttons (gamepad c8) = remap_switch_buttons (buttons (gamepad ca))"
proof (rule bit_word_eqI)
  fix n :: nat
  let ?m = "if n = 0 then 1 else if n = 1 then 0 else if n = 2 then 3 else if n = 3 then 2 else n"
  have "pressed_in [(PAGE_BUTTON, bitdo_table), (PAGE_KEYBOARD_KEYPAD, bitdo_keys)] f n \<longleftrightarrow>
      pressed_in [(PAGE_BUTTON, android_table)] f ?m" if "f \<in> set fs" for f
    using assms(1) that unfolding pressed_in_def
    by (cases f) (simp add: bitdo_table_swap, blast)
  moreover have "bit (buttons (gamepad c8)) n \<longleftrightarrow> (\<exists>f \<in> set fs.
      pressed_in [(PAGE_BUTTON, bitdo_table), (PAGE_KEYBOARD_KEYPAD, bitdo_keys)] f n)"
    "bit (buttons (gamepad ca)) ?m \<longleftrightarrow> (\<exists>f \<in> set fs. pressed_in [(PAGE_BUTTON, android_table)] f ?m)"
    using assms(2,3) bitdo_buttons.report_buttons android_buttons.report_buttons
    by (simp_all add: parse_usage_report)
  ultimately show "bit (buttons (gamepad c8)) n \<longleftrightarrow>
      bit (remap_switch_buttons (buttons (gamepad ca))) n"
    by (simp only: bit_remap_switch) blast
qed

theorem bitdo_is_switched_android_witness:
  "BUTTON_B = remap_switch_buttons BUTTON_A"
proof -
  let ?fs = "[(byte_field, PAGE_BUTTON, 1 :: u16, 1 :: int)]"
  let ?c8 = "controller_zero\<lparr>klass := CLASS_GAMEPAD, gamepad := gamepad_zero\<lparr>buttons := BUTTON_B\<rparr>\<rparr>"
  let ?ca = "controller_zero\<lparr>klass := CLASS_GAMEPAD, gamepad := gamepad_zero\<lparr>buttons := BUTTON_A\<rparr>\<rparr>"
  have "uni_hid_parse_input_report (usage_report_parser uni_hid_parser_8bitdo_init_report
        uni_hid_parser_8bitdo_parse_usage) ?fs [] controller_zero = Some ?c8"
    by (simp add: parse_usage_report uni_hid_parser_8bitdo_parse_usage_def press_def upd_gp_def
        uni_hid_parser_8bitdo_init_report_def controller_zero_def gamepad_zero_def or_if_def)
  moreover have "uni_hid_parse_input_report (usage_report_parser uni_hid_parser_android_init_report
        uni_hid_parser_android_parse_usage) ?fs [] controller_zero = Some ?ca"
    by (simp add: parse_usage_report uni_hid_parser_android_parse_usage_def press_def upd_gp_def
        uni_hid_parser_android_init_report_def controller_zero_def gamepad_zero_def or_if_def)
  ultimately have "buttons (gamepad ?c8) = remap_switch_buttons (buttons (gamepad ?ca))"
    by (intro bitdo_is_switched_android [of ?fs]) auto
  then show ?thesis by simp
qed

end
