(* ===== verification/Parser_Layouts.thy ===== *)
theory Parser_Layouts
  imports Simple_Parsers
begin

text \<open>
  Four more gamepads without state of their own, under \<^verbatim>\<open>components/bluepad32/parser\<close>:
  \<^verbatim>\<open>uni_hid_parser_nimbus.c\<close>, \<^verbatim>\<open>uni_hid_parser_ouya.c\<close>, \<^verbatim>\<open>uni_hid_parser_smarttvremote.c\<close>, which
  take the fields of a report, and \<^verbatim>\<open>uni_hid_parser_atari.c\<close>, which takes the bytes.
\<close>

abbreviation USAGE_KB_RIGHT_ARROW :: u16 where "USAGE_KB_RIGHT_ARROW \<equiv> 0x4f"
abbreviation USAGE_KB_LEFT_ARROW :: u16 where "USAGE_KB_LEFT_ARROW \<equiv> 0x50"
abbreviation USAGE_KB_DOWN_ARROW :: u16 where "USAGE_KB_DOWN_ARROW \<equiv> 0x51"
abbreviation USAGE_KB_UP_ARROW :: u16 where "USAGE_KB_UP_ARROW \<equiv> 0x52"
abbreviation USAGE_KP_ENTER :: u16 where "USAGE_KP_ENTER \<equiv> 0x58"
abbreviation USAGE_KB_POWER :: u16 where "USAGE_KB_POWER \<equiv> 0x66"
abbreviation USAGE_MENU :: u16 where "USAGE_MENU \<equiv> 0x40"
abbreviation USAGE_MEDIA_SELECT_TV :: u16 where "USAGE_MEDIA_SELECT_TV \<equiv> 0x89"
abbreviation USAGE_FAST_FORWARD :: u16 where "USAGE_FAST_FORWARD \<equiv> 0xb3"
abbreviation USAGE_REWIND :: u16 where "USAGE_REWIND \<equiv> 0xb4"
abbreviation USAGE_PLAY_PAUSE :: u16 where "USAGE_PLAY_PAUSE \<equiv> 0xcd"
abbreviation USAGE_MUTE :: u16 where "USAGE_MUTE \<equiv> 0xe2"
abbreviation USAGE_VOLUME_UP :: u16 where "USAGE_VOLUME_UP \<equiv> 0xe9"
abbreviation USAGE_VOLUME_DOWN :: u16 where "USAGE_VOLUME_DOWN \<equiv> 0xea"
abbreviation USAGE_AC_SEARCH :: u16 where "USAGE_AC_SEARCH \<equiv> 0x0221"

text \<open>Two assignments in a row.\<close>

definition both :: "action \<Rightarrow> action \<Rightarrow> action" where
  "both a b c = Option.bind (a c) b"

lemma framed_both [simp]: "framed a \<Longrightarrow> framed b \<Longrightarrow> framed (both a b)"
  unfolding framed_def both_def bind_eq_Some_conv by (meson frame_trans)

lemma total_both [simp]: "total a \<Longrightarrow> total b \<Longrightarrow> total (both a b)"
  by (auto simp: total_def both_def bind_eq_None_conv)

lemma presses_both: "presses a P \<Longrightarrow> presses b (\<lambda>n. False) \<Longrightarrow> presses (both a b) P"
  by (auto simp: presses_def both_def bind_eq_Some_conv)

section \<open>Nimbus\<close>

abbreviation axis_inverted :: "hid_globals \<Rightarrow> int \<Rightarrow> int option" where
  "axis_inverted g value \<equiv> map_option uminus (axis g value)"

definition uni_hid_parser_nimbus_init_report :: "uni_controller \<Rightarrow> uni_controller" where
  "uni_hid_parser_nimbus_init_report c = controller_zero\<lparr>klass := CLASS_GAMEPAD\<rparr>"

definition uni_hid_parser_nimbus_parse_usage ::
  "hid_globals \<Rightarrow> u16 \<Rightarrow> u16 \<Rightarrow> int \<Rightarrow> action" where
  "uni_hid_parser_nimbus_parse_usage g page usage value = switch_on page
   [([PAGE_GENERIC_DESKTOP], switch_on usage
      [([USAGE_AXIS_X], store put_x (axis g value)),
       ([USAGE_AXIS_Y], store put_y (axis_inverted g value)),
       ([USAGE_AXIS_Z], store put_rx (axis g value)),
       ([USAGE_AXIS_RZ], store put_ry (axis_inverted g value)),
       ([USAGE_HAT], store_hat g value),
       ([USAGE_DPAD_UP, USAGE_DPAD_DOWN, USAGE_DPAD_RIGHT, USAGE_DPAD_LEFT],
          store_dpad usage value)] skip),
    ([PAGE_SIMULATION_CONTROLS], switch_on usage
      [([USAGE_ACCELERATOR], store put_throttle (pedal g value)),
       ([USAGE_BRAKE], store put_brake (pedal g value))] skip),
    ([PAGE_GENERIC_DEVICE_CONTROLS], switch_on usage
      [([USAGE_BATTERY_STRENGTH], store_battery value)] skip),
    ([PAGE_BUTTON], switch_on usage
      [([0x01], press value BUTTON_A),
       ([0x02], press value BUTTON_B),
       ([0x03], press value BUTTON_X),
       ([0x04], press value BUTTON_Y),
       ([0x05], press value BUTTON_SHOULDER_L),
       ([0x06], press value BUTTON_SHOULDER_R),
       ([0x07], both (press value BUTTON_TRIGGER_L) (store put_brake (pedal g value))),
       ([0x08], both (press value BUTTON_TRIGGER_R) (store put_throttle (pedal g value)))] skip),
    ([PAGE_CONSUMER], switch_on usage
      [([USAGE_AC_SEARCH], skip),
       ([USAGE_AC_HOME], press_misc value MISC_BUTTON_SYSTEM),
       ([USAGE_AC_BACK], skip)] skip)] skip"

lemma nimbus_framed [simp]: "framed (uni_hid_parser_nimbus_parse_usage g page usage value)"
  unfolding uni_hid_parser_nimbus_parse_usage_def by simp

lemma nimbus_total [simp]:
  "field_range g \<noteq> 0 \<Longrightarrow> total (uni_hid_parser_nimbus_parse_usage g page usage value)"
  unfolding uni_hid_parser_nimbus_parse_usage_def
  by (simp add: axis_total pedal_total del: not_None_eq)

interpretation nimbus: usage_parser
  uni_hid_parser_nimbus_init_report uni_hid_parser_nimbus_parse_usage "\<lambda>c. c"
proof (unfold_locales, goal_cases)
  case (1 d)
  then show ?case by (simp add: uni_hid_parser_nimbus_init_report_def)
next
  case (2 g page usage v d d')
  then show ?case using nimbus_framed [of g page usage v] by (simp add: framed_def)
next
  case (3 g page usage v d)
  then show ?case using nimbus_total [of g page usage v] by (simp add: total_def)
qed

section \<open>Ouya\<close>

definition uni_hid_parser_ouya_init_report :: "uni_controller \<Rightarrow> uni_controller" where
  "uni_hid_parser_ouya_init_report c = controller_zero\<lparr>klass := CLASS_GAMEPAD\<rparr>"

definition uni_hid_parser_ouya_parse_usage ::
  "hid_globals \<Rightarrow> u16 \<Rightarrow> u16 \<Rightarrow> int \<Rightarrow> action" where
  "uni_hid_parser_ouya_parse_usage g page usage value = switch_on page
   [([PAGE_GENERIC_DESKTOP], switch_on usage
      [([USAGE_AXIS_X], store put_x (axis g value)),
       ([USAGE_AXIS_Y], store put_y (axis g value)),
       ([USAGE_AXIS_Z], store put_brake (pedal g value)),
       ([USAGE_AXIS_RX], store put_rx (axis g value)),
       ([USAGE_AXIS_RY], store put_ry (axis g value)),
       ([USAGE_AXIS_RZ], store put_throttle (pedal g value))] skip),
    ([PAGE_BUTTON], switch_on usage
      [([1], press value BUTTON_A),
       ([2], press value BUTTON_X),
       ([3], press value BUTTON_Y),
       ([4], press value BUTTON_B),
       ([5], press value BUTTON_SHOULDER_L),
       ([6], press value BUTTON_SHOULDER_R),
       ([7], press value BUTTON_THUMB_L),
       ([8], press value BUTTON_THUMB_R),
       ([9], press_dpad value DPAD_UP),
       ([0x0a], press_dpad value DPAD_DOWN),
       ([0x0b], press_dpad value DPAD_LEFT),
       ([0x0c], press_dpad value DPAD_RIGHT),
       ([0x0d], press value BUTTON_TRIGGER_L),
       ([0x0e], press value BUTTON_TRIGGER_R),
       ([0x0f], press_misc value MISC_BUTTON_SYSTEM),
       ([0x10], skip)] skip),
    ([0xff00], skip)] skip"

text \<open>The pedals are the axes Z and RZ of the generic desktop page.\<close>

definition ouya_good :: "field \<Rightarrow> bool" where
  "ouya_good f = (case f of (g, page, usage, value) \<Rightarrow> field_ok g value \<and>
     (page = PAGE_GENERIC_DESKTOP \<and> usage \<in> {USAGE_AXIS_Z, USAGE_AXIS_RZ} \<longrightarrow> logical_minimum g = 0))"

lemma ouya_framed [simp]: "framed (uni_hid_parser_ouya_parse_usage g page usage value)"
  unfolding uni_hid_parser_ouya_parse_usage_def by simp

lemma ouya_total [simp]:
  "field_range g \<noteq> 0 \<Longrightarrow> total (uni_hid_parser_ouya_parse_usage g page usage value)"
  unfolding uni_hid_parser_ouya_parse_usage_def by (simp add: axis_total pedal_total)

lemma ouya_ranged [simp]:
  "ouya_good (g, page, usage, value) \<Longrightarrow> ranged (uni_hid_parser_ouya_parse_usage g page usage value)"
  unfolding uni_hid_parser_ouya_parse_usage_def by (simp add: ouya_good_def)

interpretation ouya: ranged_usage_parser
  uni_hid_parser_ouya_init_report uni_hid_parser_ouya_parse_usage "\<lambda>c. c" ouya_good
proof (unfold_locales, goal_cases)
  case (1 d)
  then show ?case by (simp add: uni_hid_parser_ouya_init_report_def)
next
  case (2 g page usage v d d')
  then show ?case using ouya_framed [of g page usage v] by (simp add: framed_def)
next
  case (3 g page usage v d)
  then show ?case using ouya_total [of g page usage v] by (simp add: total_def)
next
  case (4 g page usage v d d')
  then show ?case using ouya_ranged [of g page usage v] by (simp add: ranged_def)
qed

section \<open>Smart TV remote\<close>

definition uni_hid_parser_smarttvremote_init_report :: "uni_controller \<Rightarrow> uni_controller" where
  "uni_hid_parser_smarttvremote_init_report c = controller_zero\<lparr>klass := CLASS_GAMEPAD\<rparr>"

definition uni_hid_parser_smarttvremote_parse_usage ::
  "hid_globals \<Rightarrow> u16 \<Rightarrow> u16 \<Rightarrow> int \<Rightarrow> action" where
  "uni_hid_parser_smarttvremote_parse_usage g page usage value = switch_on page
   [([PAGE_GENERIC_DEVICE_CONTROLS], switch_on usage
      [([USAGE_BATTERY_STRENGTH], store_battery value)] skip),
    ([PAGE_KEYBOARD_KEYPAD], switch_on usage
      [([0x00], skip),
       ([USAGE_KB_RIGHT_ARROW], press_dpad value DPAD_RIGHT),
       ([USAGE_KB_LEFT_ARROW], press_dpad value DPAD_LEFT),
       ([USAGE_KB_DOWN_ARROW], press_dpad value DPAD_DOWN),
       ([USAGE_KB_UP_ARROW], press_dpad value DPAD_UP),
       ([USAGE_KP_ENTER], press value BUTTON_A),
       ([USAGE_KB_POWER], skip),
       ([0xf1], press_misc value MISC_BUTTON_SELECT)] skip),
    ([PAGE_CONSUMER], switch_on usage
      [([USAGE_MENU], press_misc value MISC_BUTTON_SYSTEM),
       ([USAGE_MEDIA_SELECT_TV, USAGE_FAST_FORWARD, USAGE_REWIND, USAGE_PLAY_PAUSE, USAGE_MUTE,
         USAGE_VOLUME_UP, USAGE_VOLUME_DOWN, USAGE_AC_SEARCH], skip),
       ([USAGE_AC_HOME], press_misc value MISC_BUTTON_START)] skip)] skip"

lemma tvremote_framed [simp]: "framed (uni_hid_parser_smarttvremote_parse_usage g page usage value)"
  unfolding uni_hid_parser_smarttvremote_parse_usage_def by simp

lemma tvremote_total [simp]: "total (uni_hid_parser_smarttvremote_parse_usage g page usage value)"
  unfolding uni_hid_parser_smarttvremote_parse_usage_def by simp

lemma tvremote_ranged [simp]: "ranged (uni_hid_parser_smarttvremote_parse_usage g page usage value)"
  unfolding uni_hid_parser_smarttvremote_parse_usage_def by simp

interpretation tvremote: ranged_usage_parser
  uni_hid_parser_smarttvremote_init_report uni_hid_parser_smarttvremote_parse_usage "\<lambda>c. c" "\<lambda>f. True"
proof (unfold_locales, goal_cases)
  case (1 d)
  then show ?case by (simp add: uni_hid_parser_smarttvremote_init_report_def)
next
  case (2 g page usage v d d')
  then show ?case using tvremote_framed [of g page usage v] by (simp add: framed_def)
next
  case (3 g page usage v d)
  then show ?case using tvremote_total [of g page usage v] by (simp add: total_def)
next
  case (4 g page usage v d d')
  then show ?case using tvremote_ranged [of g page usage v] by (simp add: ranged_def)
qed

section \<open>Atari\<close>

definition atari_dpad_map :: "u8 list" where
  "atari_dpad_map = [0, DPAD_UP, DPAD_UP OR DPAD_RIGHT, DPAD_RIGHT, DPAD_DOWN OR DPAD_RIGHT, DPAD_DOWN,
     DPAD_DOWN OR DPAD_LEFT, DPAD_LEFT, DPAD_UP OR DPAD_LEFT]"

text \<open>The direction is an index into a table of nine entries; reading behind it is None.\<close>

definition atari_parse_report_id_01 :: "u8 list \<Rightarrow> action" where
  "atari_parse_report_id_01 report c =
     (if length report \<noteq> 5 then Some c
      else let b0 = report ! 1; b1 = report ! 2; joy_value = unat (drop_bit 4 b1)
        in if joy_value \<ge> length atari_dpad_map then None
           else Some (upd_gp (\<lambda>g. g\<lparr>
             buttons := or_if (has_bits b0 0x02) BUTTON_B (or_if (has_bits b0 0x01) BUTTON_A (buttons g)),
             misc_buttons := or_if (has_bits b1 0x04) MISC_BUTTON_START
               (or_if (has_bits b1 0x02) MISC_BUTTON_SELECT
                 (or_if (has_bits b1 0x01) MISC_BUTTON_SYSTEM (misc_buttons g))),
             dpad := atari_dpad_map ! joy_value,
             throttle := uint (report ! 3) + 256 * uint (report ! 4 AND 0x03)\<rparr>) c))"

definition uni_hid_parser_atari_init_report :: "uni_controller \<Rightarrow> uni_controller" where
  "uni_hid_parser_atari_init_report c = controller_zero\<lparr>klass := CLASS_GAMEPAD\<rparr>"

text \<open>Reports 2 and 3 are only printed.\<close>

definition uni_hid_parser_atari_parse_input_report :: "u8 list \<Rightarrow> action" where
  "uni_hid_parser_atari_parse_input_report report c =
     (if report = [] then None
      else if report ! 0 = 0x01 then atari_parse_report_id_01 report c
      else Some c)"

definition atari_report_parser :: "uni_controller report_parser" where
  "atari_report_parser = \<lparr>rp_init_report = Some uni_hid_parser_atari_init_report,
     rp_parse_usage = None, rp_parse_input_report = Some uni_hid_parser_atari_parse_input_report\<rparr>"

section \<open>Button tables\<close>

definition nimbus_table :: "(u16 \<times> nat) list" where
  "nimbus_table = [(1, 0), (2, 1), (3, 2), (4, 3), (5, 4), (6, 5), (7, 6), (8, 7)]"

definition ouya_table :: "(u16 \<times> nat) list" where
  "ouya_table = [(1, 0), (2, 2), (3, 3), (4, 1), (5, 4), (6, 5), (7, 8), (8, 9), (0xd, 6), (0xe, 7)]"

definition tvremote_table :: "(u16 \<times> nat) list" where
  "tvremote_table = [(USAGE_KP_ENTER, 0)]"

lemmas layout_table_defs = nimbus_table_def ouya_table_def tvremote_table_def pressed_in_def

lemma nimbus_presses:
  "presses (uni_hid_parser_nimbus_parse_usage g page usage v)
     (pressed_in [(PAGE_BUTTON, nimbus_table)] (g, page, usage, v))"
proof -
  have neg [simp]: "presses (store put_y w) (\<lambda>n. False)" "presses (store put_ry w) (\<lambda>n. False)" for w
    by simp_all
  show ?thesis
    unfolding uni_hid_parser_nimbus_parse_usage_def switch_on.simps button_defs
    by (intro presses_if; simp only: list.set insert_iff empty_iff simp_thms;
        ((rule presses_leaf(2); simp add: layout_table_defs; fail) |
         (rule presses_both, rule presses_leaf(2); simp add: layout_table_defs; fail) |
         (rule presses_leaf(1); auto simp: layout_table_defs)))
qed

lemma ouya_presses:
  "presses (uni_hid_parser_ouya_parse_usage g page usage v)
     (pressed_in [(PAGE_BUTTON, ouya_table)] (g, page, usage, v))"
  unfolding uni_hid_parser_ouya_parse_usage_def switch_on.simps button_defs
  by (intro presses_if; simp only: list.set insert_iff empty_iff simp_thms;
      ((rule presses_leaf(2); simp add: layout_table_defs; fail) |
       (rule presses_leaf(1); auto simp: layout_table_defs)))

lemma tvremote_presses:
  "presses (uni_hid_parser_smarttvremote_parse_usage g page usage v)
     (pressed_in [(PAGE_KEYBOARD_KEYPAD, tvremote_table)] (g, page, usage, v))"
  unfolding uni_hid_parser_smarttvremote_parse_usage_def switch_on.simps button_defs
  by (intro presses_if; simp only: list.set insert_iff empty_iff simp_thms;
      ((rule presses_leaf(2); simp add: layout_table_defs; fail) |
       (rule presses_leaf(1); auto simp: layout_table_defs)))

interpretation nimbus_buttons: button_parser
  uni_hid_parser_nimbus_init_report uni_hid_parser_nimbus_parse_usage "\<lambda>c. c" "pressed_in [(PAGE_BUTTON, nimbus_table)]"
proof (unfold_locales, goal_cases)
  case (1 g page usage v d d' n)
  then show ?case using nimbus_presses [of g page usage v] by (simp add: presses_def)
qed

interpretation ouya_buttons: button_parser
  uni_hid_parser_ouya_init_report uni_hid_parser_ouya_parse_usage "\<lambda>c. c" "pressed_in [(PAGE_BUTTON, ouya_table)]"
proof (unfold_locales, goal_cases)
  case (1 g page usage v d d' n)
  then show ?case using ouya_presses [of g page usage v] by (simp add: presses_def)
qed

interpretation tvremote_buttons: button_parser
  uni_hid_parser_smarttvremote_init_report uni_hid_parser_smarttvremote_parse_usage "\<lambda>c. c" "pressed_in [(PAGE_KEYBOARD_KEYPAD, tvremote_table)]"
proof (unfold_locales, goal_cases)
  case (1 g page usage v d d' n)
  then show ?case using tvremote_presses [of g page usage v] by (simp add: presses_def)
qed

section \<open>Properties\<close>

text \<open>
  An Ouya report whose fields are well formed is always decoded: a gamepad, sticks and pedals in
  range, nothing of another class, and exactly the buttons of the table.
\<close>

theorem ouya_report_correct:
  assumes "\<forall>f \<in> set fs. ouya_good f"
  shows "\<exists>c. uni_hid_parse_input_report (usage_report_parser uni_hid_parser_ouya_init_report
        uni_hid_parser_ouya_parse_usage) fs report c0 = Some c \<and>
    klass c = CLASS_GAMEPAD \<and> mouse c = mouse_zero \<and> in_range (gamepad c) \<and>
    (\<forall>n. bit (buttons (gamepad c)) n \<longleftrightarrow> (\<exists>f \<in> set fs. pressed_in [(PAGE_BUTTON, ouya_table)] f n))"
proof -
  have "\<forall>(g, page, usage, value) \<in> set fs. field_range g \<noteq> 0"
    using assms by (auto simp: ouya_good_def dest!: bspec field_range_ok(2))
  then obtain c where c: "parse_fields uni_hid_parser_ouya_parse_usage fs
      (uni_hid_parser_ouya_init_report c0) = Some c"
    using ouya.fields_total by blast
  show ?thesis
    using c ouya.report_frame [OF c] ouya.report_range [OF assms c] ouya_buttons.report_buttons [OF c]
    by (auto simp: parse_usage_report)
qed

text \<open>
  Turning an axis round turns its interval round, too: a Nimbus stick at the lowest value of its
  field is reported as 512, one more than the documented maximum of the gamepad.
\<close>

theorem nimbus_leaves_range:
  "\<exists>c. uni_hid_parse_input_report (usage_report_parser uni_hid_parser_nimbus_init_report
        uni_hid_parser_nimbus_parse_usage) [(byte_field, PAGE_GENERIC_DESKTOP, USAGE_AXIS_Y, 0)] report c0
      = Some c \<and> axis_y (gamepad c) = 512 \<and> \<not> in_range (gamepad c)"
proof -
  have "field_ok byte_field 0" by (simp add: field_ok_def byte_field_def effective_maximum_def)
  from process_axis_eq [OF this] field_range_ok(1) [OF this]
  have "axis byte_field 0 = Some (- 512)"
    by (simp add: byte_field_def effective_maximum_def sdiv_neg)
  then show ?thesis
    by (simp add: parse_usage_report uni_hid_parser_nimbus_parse_usage_def store_def put_y_def upd_gp_def
        in_range_def)
qed

text \<open>
  The direction of an Atari report is used as an index without a check: a report is decoded exactly
  when its upper half of the second byte is at most 8, and then the throttle is in range; the values 9
  to 15 read behind the table.
\<close>

theorem atari_direction_bound:
  assumes "length report = 5" "report ! 0 = 0x01"
  shows "uni_hid_parse_input_report atari_report_parser flds report c0 \<noteq> None \<longleftrightarrow>
      unat (drop_bit 4 (report ! 2)) \<le> 8"
    and "uni_hid_parse_input_report atari_report_parser flds report c0 = Some c \<Longrightarrow>
      klass c = CLASS_GAMEPAD \<and> 0 \<le> throttle (gamepad c) \<and> throttle (gamepad c) \<le> 1023"
proof -
  have ne: "report \<noteq> []" using assms(1) by auto
  show "uni_hid_parse_input_report atari_report_parser flds report c0 \<noteq> None \<longleftrightarrow>
      unat (drop_bit 4 (report ! 2)) \<le> 8"
    using assms ne
    by (auto simp: uni_hid_parse_input_report_def atari_report_parser_def Let_def
        uni_hid_parser_atari_parse_input_report_def atari_parse_report_id_01_def atari_dpad_map_def)
  have "uint (report ! 4 AND 0x03) \<le> 3" using word_and_le1 [of "report ! 4" 3]
    by (simp add: word_le_def)
  moreover have "0 \<le> uint (report ! 3)" "uint (report ! 3) \<le> 255" "0 \<le> uint (report ! 4 AND 0x03)"
    using uint_range_size [of "report ! 3"] uint_range_size [of "report ! 4 AND 0x03"]
    by (simp_all add: word_size)
  ultimately show "uni_hid_parse_input_report atari_report_parser flds report c0 = Some c \<Longrightarrow>
      klass c = CLASS_GAMEPAD \<and> 0 \<le> throttle (gamepad c) \<and> throttle (gamepad c) \<le> 1023"
    using assms ne
    by (auto simp: uni_hid_parse_input_report_def atari_report_parser_def Let_def
        uni_hid_parser_atari_parse_input_report_def atari_parse_report_id_01_def upd_gp_def
        uni_hid_parser_atari_init_report_def split: if_splits)
qed

end
