(* ===== verification/Parser_Icade.thy ===== *)
theory Parser_Icade
  imports Usage_Parser
begin

text \<open>
  \<^verbatim>\<open>components/bluepad32/parser/uni_hid_parser_icade.c\<close>: iCade cabinets, which announce themselves as
  keyboards. Every control has one key for down and one for up, so the gamepad is not reset between
  reports: it is the memory of the keys seen so far.
\<close>

datatype icade_model = ICADE_CABINET | ICADE_8BITTY

record icade_device =
  ic_ctl :: uni_controller
  ic_model :: icade_model

definition uni_hid_parser_icade_setup :: "u16 \<Rightarrow> u16 \<Rightarrow> icade_device \<Rightarrow> icade_device" where
  "uni_hid_parser_icade_setup vendor_id product_id d =
     (if vendor_id = 0x15e4 \<and> product_id \<noteq> 0 then d\<lparr>ic_model := ICADE_CABINET\<rparr>
      else if vendor_id = 0x0a5c \<and> product_id = 0x8502 then d\<lparr>ic_model := ICADE_8BITTY\<rparr>
      else d)"

datatype icade_control = Button u16 | Misc u8 | Dpad u8

fun set_control :: "bool \<Rightarrow> icade_control \<Rightarrow> uni_gamepad \<Rightarrow> uni_gamepad" where
  "set_control on (Button m) g = g\<lparr>buttons := (if on then buttons g OR m else buttons g AND NOT m)\<rparr>"
| "set_control on (Misc m) g = g\<lparr>misc_buttons := (if on then misc_buttons g OR m else misc_buttons g AND NOT m)\<rparr>"
| "set_control on (Dpad m) g = g\<lparr>dpad := (if on then dpad g OR m else dpad g AND NOT m)\<rparr>"

fun is_down :: "icade_control \<Rightarrow> uni_gamepad \<Rightarrow> bool" where
  "is_down (Button m) g = has_bits (buttons g) m"
| "is_down (Misc m) g = has_bits (misc_buttons g) m"
| "is_down (Dpad m) g = has_bits (dpad g) m"

text \<open>The control of a key on the two models, and whether the key is the one for down.\<close>

definition by_model :: "icade_model \<Rightarrow> icade_control \<Rightarrow> icade_control \<Rightarrow> icade_control" where
  "by_model model cabinet bitty = (if model = ICADE_CABINET then cabinet else bitty)"

definition icade_key :: "icade_model \<Rightarrow> u16 \<Rightarrow> (bool \<times> icade_control) option" where
  "icade_key model usage = switch_on usage
   [([0x00, 0xe0, 0xe1, 0xe2, 0xe3, 0xe4, 0xe5, 0xe6, 0xe7], None),
    ([0x1a], Some (True, Dpad DPAD_UP)),
    ([0x08], Some (False, Dpad DPAD_UP)),
    ([0x07], Some (True, Dpad DPAD_RIGHT)),
    ([0x06], Some (False, Dpad DPAD_RIGHT)),
    ([0x1b], Some (True, Dpad DPAD_DOWN)),
    ([0x1d], Some (False, Dpad DPAD_DOWN)),
    ([0x04], Some (True, Dpad DPAD_LEFT)),
    ([0x14], Some (False, Dpad DPAD_LEFT)),
    ([0x1c], Some (True, by_model model (Button BUTTON_A) (Misc MISC_BUTTON_SYSTEM))),
    ([0x17], Some (False, by_model model (Button BUTTON_A) (Misc MISC_BUTTON_SYSTEM))),
    ([0x0b], Some (True, by_model model (Button BUTTON_B) (Button BUTTON_SHOULDER_L))),
    ([0x15], Some (False, by_model model (Button BUTTON_B) (Button BUTTON_SHOULDER_L))),
    ([0x18], Some (True, by_model model (Button BUTTON_X) (Misc MISC_BUTTON_START))),
    ([0x09], Some (False, by_model model (Button BUTTON_X) (Misc MISC_BUTTON_START))),
    ([0x0d], Some (True, by_model model (Button BUTTON_Y) (Button BUTTON_SHOULDER_R))),
    ([0x11], Some (False, by_model model (Button BUTTON_Y) (Button BUTTON_SHOULDER_R))),
    ([0x12], Some (True, by_model model (Misc MISC_BUTTON_SYSTEM) (Button BUTTON_Y))),
    ([0x0a], Some (False, by_model model (Misc MISC_BUTTON_SYSTEM) (Button BUTTON_Y))),
    ([0x0c], Some (True, by_model model (Misc MISC_BUTTON_START) (Button BUTTON_X))),
    ([0x10], Some (False, by_model model (Misc MISC_BUTTON_START) (Button BUTTON_X))),
    ([0x0e], Some (True, by_model model (Button BUTTON_SHOULDER_L) (Button BUTTON_A))),
    ([0x13], Some (False, by_model model (Button BUTTON_SHOULDER_L) (Button BUTTON_A))),
    ([0x0f], Some (True, by_model model (Button BUTTON_SHOULDER_R) (Button BUTTON_B))),
    ([0x19], Some (False, by_model model (Button BUTTON_SHOULDER_R) (Button BUTTON_B)))] None"

text \<open>The value of the field is not looked at.\<close>

definition uni_hid_parser_icade_parse_usage ::
  "hid_globals \<Rightarrow> u16 \<Rightarrow> u16 \<Rightarrow> int \<Rightarrow> icade_device \<Rightarrow> icade_device option" where
  "uni_hid_parser_icade_parse_usage g page usage value d =
     (let d1 = d\<lparr>ic_ctl := (ic_ctl d)\<lparr>klass := CLASS_GAMEPAD, battery := 0\<rparr>\<rparr>
      in if page \<noteq> PAGE_KEYBOARD_KEYPAD then Some d1
         else case icade_key (ic_model d) usage of
             None \<Rightarrow> Some d1
           | Some (on, t) \<Rightarrow> Some (d1\<lparr>ic_ctl := upd_gp (set_control on t) (ic_ctl d1)\<rparr>))"

definition icade_report_parser :: "icade_device report_parser" where
  "icade_report_parser = \<lparr>rp_init_report = None,
     rp_parse_usage = Some uni_hid_parser_icade_parse_usage, rp_parse_input_report = None\<rparr>"

section \<open>Controls\<close>

definition single :: "icade_control \<Rightarrow> bool" where
  "single t \<longleftrightarrow> (case t of Button m \<Rightarrow> \<exists>n < 16. m = BIT n | Misc m \<Rightarrow> \<exists>n < 8. m = BIT n
     | Dpad m \<Rightarrow> \<exists>n < 8. m = BIT n)"

lemma BIT_inj: "n < LENGTH('a) \<Longrightarrow> (BIT n :: 'a::len word) = BIT m \<longleftrightarrow> n = m"
  by (metis bit_BIT)

lemma down_set:
  assumes "single t" "single t'"
  shows "is_down t (set_control on t' g) = (if t = t' then on else is_down t g)"
  using assms by (cases t; cases t')
    (auto simp: single_def has_bits_BIT bit_BIT bit_or_iff bit_and_iff bit_not_iff BIT_inj)

lemma single_BIT:
  "n < 16 \<Longrightarrow> single (Button (BIT n))" "n < 8 \<Longrightarrow> single (Misc (BIT n))" "n < 8 \<Longrightarrow> single (Dpad (BIT n))"
  by (auto simp: single_def)

lemma single_masks [simp]:
  "single (Dpad DPAD_UP)" "single (Dpad DPAD_DOWN)" "single (Dpad DPAD_LEFT)" "single (Dpad DPAD_RIGHT)"
  "single (Misc MISC_BUTTON_SYSTEM)" "single (Misc MISC_BUTTON_START)"
  "single (Button BUTTON_A)" "single (Button BUTTON_B)" "single (Button BUTTON_X)" "single (Button BUTTON_Y)"
  "single (Button BUTTON_SHOULDER_L)" "single (Button BUTTON_SHOULDER_R)"
  unfolding DPAD_UP_def DPAD_DOWN_def DPAD_LEFT_def DPAD_RIGHT_def MISC_BUTTON_SYSTEM_def
    MISC_BUTTON_START_def BUTTON_A_def BUTTON_B_def BUTTON_X_def BUTTON_Y_def BUTTON_SHOULDER_L_def
    BUTTON_SHOULDER_R_def
  by (simp_all add: single_BIT)

lemma key_single: "icade_key model usage = Some (on, t) \<Longrightarrow> single t"
proof -
  have "\<forall>on t. k = Some (on, t) \<longrightarrow> single t" if "k = icade_key model usage" for k
    unfolding that icade_key_def by (rule switch_on_P) (auto simp: by_model_def)
  then show "icade_key model usage = Some (on, t) \<Longrightarrow> single t" by blast
qed

text \<open>What the keys of a sequence of fields say about a control: the last of its two keys counts.\<close>

fun key_of :: "icade_model \<Rightarrow> field \<Rightarrow> (bool \<times> icade_control) option" where
  "key_of model (g, page, usage, value) = (if page = PAGE_KEYBOARD_KEYPAD then icade_key model usage else None)"

fun last_key :: "icade_model \<Rightarrow> icade_control \<Rightarrow> field list \<Rightarrow> bool \<Rightarrow> bool" where
  "last_key model t [] before = before"
| "last_key model t (f # fs) before = last_key model t fs
     (case key_of model f of Some (on, t') \<Rightarrow> if t = t' then on else before | None \<Rightarrow> before)"

text \<open>
  An iCade remembers its controls: fields never trap, whatever their number and values, and after
  any of them a control is down exactly if the last of its two keys was the one for down (or it was
  down before and no key of it came); nothing but buttons and directions changes.
\<close>

theorem icade_tracks_keys:
  assumes "single t"
  shows "\<exists>d'. uni_hid_parse_input_report icade_report_parser fs report d = Some d' \<and>
    is_down t (gamepad (ic_ctl d')) = last_key (ic_model d) t fs (is_down t (gamepad (ic_ctl d))) \<and>
    ic_model d' = ic_model d \<and> mouse (ic_ctl d') = mouse (ic_ctl d)"
proof -
  have "\<exists>d'. parse_fields uni_hid_parser_icade_parse_usage fs d = Some d' \<and>
    is_down t (gamepad (ic_ctl d')) = last_key (ic_model d) t fs (is_down t (gamepad (ic_ctl d))) \<and>
    ic_model d' = ic_model d \<and> mouse (ic_ctl d') = mouse (ic_ctl d)" for d
  proof (induction fs arbitrary: d)
    case Nil
    then show ?case by simp
  next
    case (Cons f fs)
    obtain g page usage v where f: "f = (g, page, usage, v)" by (cases f) auto
    have "uni_hid_parser_icade_parse_usage g page usage v d \<noteq> None"
      by (auto simp: uni_hid_parser_icade_parse_usage_def Let_def split: option.splits)
    then obtain d1 where d1: "uni_hid_parser_icade_parse_usage g page usage v d = Some d1"
      by blast
    have "ic_model d1 = ic_model d \<and> mouse (ic_ctl d1) = mouse (ic_ctl d) \<and>
        is_down t (gamepad (ic_ctl d1)) = (case key_of (ic_model d) f of
          Some (on, t') \<Rightarrow> if t = t' then on else is_down t (gamepad (ic_ctl d))
        | None \<Rightarrow> is_down t (gamepad (ic_ctl d)))"
      using d1 down_set [OF assms key_single] f
      by (auto simp: uni_hid_parser_icade_parse_usage_def upd_gp_def Let_def split: option.splits if_splits)
    with Cons.IH [of d1] d1 f show ?case by auto
  qed
  from this [of d] show ?thesis
    by (simp add: uni_hid_parse_input_report_def icade_report_parser_def)
qed

theorem icade_tracks_keys_witness:
  "\<exists>d'. uni_hid_parse_input_report icade_report_parser
      [(byte_field, PAGE_KEYBOARD_KEYPAD, 0x1a, 1), (byte_field, PAGE_KEYBOARD_KEYPAD, 0x1c, 1),
       (byte_field, PAGE_KEYBOARD_KEYPAD, 0x08, 1)] []
      \<lparr>ic_ctl = controller_zero, ic_model = ICADE_CABINET\<rparr> = Some d' \<and>
    \<not> is_down (Dpad DPAD_UP) (gamepad (ic_ctl d'))"
  using icade_tracks_keys [OF single_masks(1), of "[(byte_field, PAGE_KEYBOARD_KEYPAD, 0x1a, 1),
      (byte_field, PAGE_KEYBOARD_KEYPAD, 0x1c, 1), (byte_field, PAGE_KEYBOARD_KEYPAD, 0x08, 1)]" "[]"
      "\<lparr>ic_ctl = controller_zero, ic_model = ICADE_CABINET\<rparr>"]
  by (auto simp: icade_key_def by_model_def)

text \<open>
  The cabinet is recognised by its vendor alone: the code tests that there is a product number, not
  which. An 8-Bitty under the vendor of the cabinet gets the layout of the cabinet.
\<close>

theorem icade_any_product:
  assumes "product_id \<noteq> 0"
  shows "ic_model (uni_hid_parser_icade_setup 0x15e4 product_id d) = ICADE_CABINET"
  using assms by (simp add: uni_hid_parser_icade_setup_def)

end
