(* ===== verification/Parser_Keyboard.thy ===== *)
theory Parser_Keyboard
  imports Usage_Parser
begin

text \<open>
  \<^verbatim>\<open>components/bluepad32/parser/uni_hid_parser_keyboard.c\<close>: keys and modifiers of a report, the media
  keys of small remotes, and the touch gestures of the JX-05 ring. A report holds at most ten keys; a
  write behind the array is the value None.
\<close>

abbreviation PAGE_DIGITIZER :: u16 where "PAGE_DIGITIZER \<equiv> 0x0d"
abbreviation KB_LEFT_CONTROL :: u16 where "KB_LEFT_CONTROL \<equiv> 0xe0"
abbreviation KB_RIGHT_GUI :: u16 where "KB_RIGHT_GUI \<equiv> 0xe7"

definition UNI_KEYBOARD_PRESSED_KEYS_MAX :: nat where
  "UNI_KEYBOARD_PRESSED_KEYS_MAX = 10"

record keyboard_jx_05 =
  jx_x :: int
  jx_y :: int
  jx_ready_to_process :: bool
  jx_last_report :: bool
  jx_is_down_or_button :: bool

record keyboard_device =
  kd_ctl :: uni_controller
  kd_pressed_key_index :: nat
  kd_using_jx_05 :: bool
  kd_jx :: keyboard_jx_05

text \<open>\<open>pressed_keys[idx++] = key\<close> with a local index, and with the index of the instance.\<close>

definition put_key :: "nat \<Rightarrow> u8 \<Rightarrow> keyboard_device \<Rightarrow> keyboard_device option" where
  "put_key idx k d =
     (if idx < UNI_KEYBOARD_PRESSED_KEYS_MAX
      then Some (d\<lparr>kd_ctl := (kd_ctl d)\<lparr>keyboard := (keyboard (kd_ctl d))\<lparr>kb_pressed_keys :=
        (kb_pressed_keys (keyboard (kd_ctl d)))[idx := k]\<rparr>\<rparr>\<rparr>)
      else None)"

definition add_key :: "u8 \<Rightarrow> keyboard_device \<Rightarrow> keyboard_device option" where
  "add_key k d = map_option (\<lambda>d1. d1\<lparr>kd_pressed_key_index := Suc (kd_pressed_key_index d)\<rparr>)
     (put_key (kd_pressed_key_index d) k d)"

section \<open>The JX-05 ring\<close>

definition jx :: "(keyboard_jx_05 \<Rightarrow> keyboard_jx_05) \<Rightarrow> keyboard_device \<Rightarrow> keyboard_device" where
  "jx f d = d\<lparr>kd_jx := f (kd_jx d)\<rparr>"

definition jx_tip_switch :: "int \<Rightarrow> keyboard_device \<Rightarrow> keyboard_device" where
  "jx_tip_switch value d =
     jx (\<lambda>j. j\<lparr>jx_ready_to_process := (value \<noteq> 0 \<and> jx_last_report j) \<or> jx_ready_to_process j,
       jx_last_report := (value = 0)\<rparr>) d"

text \<open>
  The end of a report: a pending "down or button" is decided first; its key is written but the index
  of the instance only moves on when the report itself is a gesture.
\<close>

definition jx_contact_count :: "keyboard_device \<Rightarrow> keyboard_device option" where
  "jx_contact_count d =
     (let x = jx_x (kd_jx d); y = jx_y (kd_jx d); idx = kd_pressed_key_index d in
      case (if jx_is_down_or_button (kd_jx d)
            then map_option (\<lambda>d1. (jx (\<lambda>j. j\<lparr>jx_is_down_or_button := False\<rparr>) d1, Suc idx))
              (put_key idx (if x = - 260 \<and> y = 145 then 0x2c else 0x51) d)
            else Some (d, idx)) of
        None \<Rightarrow> None
      | Some (d1, idx1) \<Rightarrow>
         if \<not> jx_ready_to_process (kd_jx d1) then Some d1
         else let close_report = (\<lambda>i d2. (jx (\<lambda>j. j\<lparr>jx_ready_to_process := False\<rparr>) d2)\<lparr>kd_pressed_key_index := i\<rparr>)
           in if x = - 260 \<and> y = - 222 then map_option (close_report (Suc idx1)) (put_key idx1 0x52 d1)
              else if x = - 260 \<and> y = 145
              then Some (close_report idx1 (jx (\<lambda>j. j\<lparr>jx_is_down_or_button := True\<rparr>) d1))
              else if x = - 387 \<and> y = 251 then map_option (close_report (Suc idx1)) (put_key idx1 0x50 d1)
              else if x = - 48 \<and> y = 251 then map_option (close_report (Suc idx1)) (put_key idx1 0x4f d1)
              else Some d1)"

definition jx_05_parse_usage ::
  "hid_globals \<Rightarrow> u16 \<Rightarrow> u16 \<Rightarrow> int \<Rightarrow> keyboard_device \<Rightarrow> keyboard_device option" where
  "jx_05_parse_usage g page usage value d =
     (if page = PAGE_GENERIC_DESKTOP
      then (if usage = USAGE_AXIS_X then map_option (\<lambda>v. jx (\<lambda>j. j\<lparr>jx_x := v\<rparr>) d) (axis g value)
            else if usage = USAGE_AXIS_Y then map_option (\<lambda>v. jx (\<lambda>j. j\<lparr>jx_y := v\<rparr>) d) (axis g value)
            else Some d)
      else if page = PAGE_DIGITIZER
      then (if usage = 0x42 then Some (jx_tip_switch value d)
            else if usage = 0x54 then jx_contact_count d
            else Some d)
      else Some d)"

section \<open>The parser\<close>

definition uni_hid_parser_keyboard_setup :: "u16 \<Rightarrow> u16 \<Rightarrow> keyboard_device \<Rightarrow> keyboard_device" where
  "uni_hid_parser_keyboard_setup vendor_id product_id d =
     (let ring = (vendor_id = 0x05ac \<and> product_id = 0x022c)
      in d\<lparr>kd_pressed_key_index := 0, kd_using_jx_05 := ring,
           kd_jx := \<lparr>jx_x = 0, jx_y = 0, jx_ready_to_process = ring, jx_last_report = False,
             jx_is_down_or_button = False\<rparr>\<rparr>)"

definition uni_hid_parser_keyboard_init_report :: "keyboard_device \<Rightarrow> keyboard_device" where
  "uni_hid_parser_keyboard_init_report d =
     d\<lparr>kd_pressed_key_index := 0, kd_ctl := controller_zero\<lparr>klass := CLASS_KEYBOARD\<rparr>\<rparr>"

definition media_keys :: "(u16 \<times> u8) list" where
  "media_keys = [(0x30, 0x66), (0xe9, 0x80), (0xea, 0x81), (0x0223, 0x4a), (0x0233, 0x4b),
     (0x0234, 0x4e), (0xb5, 0x4f), (0xb6, 0x50), (0xcd, 0x48)]"

definition keypad_usage :: "u16 \<Rightarrow> int \<Rightarrow> keyboard_device \<Rightarrow> keyboard_device option" where
  "keypad_usage usage value d =
     (if value = 0 then Some d
      else if usage < KB_LEFT_CONTROL
      then (if kd_pressed_key_index d \<ge> UNI_KEYBOARD_PRESSED_KEYS_MAX then Some d
            else add_key (ucast usage) d)
      else if usage \<le> KB_RIGHT_GUI
      then Some (d\<lparr>kd_ctl := (kd_ctl d)\<lparr>keyboard := (keyboard (kd_ctl d))\<lparr>kb_modifiers :=
        kb_modifiers (keyboard (kd_ctl d)) OR BIT (unat usage - 0xe0)\<rparr>\<rparr>\<rparr>)
      else Some d)"

definition consumer_usage :: "u16 \<Rightarrow> int \<Rightarrow> keyboard_device \<Rightarrow> keyboard_device option" where
  "consumer_usage usage value d =
     (if value = 0 then Some d
      else case map_of media_keys usage of Some k \<Rightarrow> add_key k d | None \<Rightarrow> Some d)"

definition uni_hid_parser_keyboard_parse_usage ::
  "hid_globals \<Rightarrow> u16 \<Rightarrow> u16 \<Rightarrow> int \<Rightarrow> keyboard_device \<Rightarrow> keyboard_device option" where
  "uni_hid_parser_keyboard_parse_usage g page usage value d =
     (case (if kd_using_jx_05 d then jx_05_parse_usage g page usage value d else Some d) of
        None \<Rightarrow> None
      | Some d1 \<Rightarrow>
         if page = PAGE_KEYBOARD_KEYPAD then keypad_usage usage value d1
         else if page = PAGE_CONSUMER then consumer_usage usage value d1
         else Some d1)"

text \<open>The byte of the lights is written as report 1 to a Bluetooth LE keyboard only.\<close>

definition uni_hid_parser_keyboard_set_leds :: "bool \<Rightarrow> u8 \<Rightarrow> (u8 \<times> u8 list) list" where
  "uni_hid_parser_keyboard_set_leds le led_bitmask = (if le then [(1, [led_bitmask])] else [])"

definition keyboard_report_parser :: "keyboard_device report_parser" where
  "keyboard_report_parser = usage_report_parser uni_hid_parser_keyboard_init_report
     uni_hid_parser_keyboard_parse_usage"

section \<open>Keys of a report\<close>

text \<open>The keys a report means, in its order: pressed keys below the modifiers and media keys.\<close>

fun key_of_field :: "field \<Rightarrow> u8 list" where
  "key_of_field (g, page, usage, value) =
     (if value = 0 then []
      else if page = PAGE_KEYBOARD_KEYPAD \<and> usage < KB_LEFT_CONTROL then [ucast usage]
      else if page = PAGE_CONSUMER then (case map_of media_keys usage of Some k \<Rightarrow> [k] | None \<Rightarrow> [])
      else [])"

fun modifier_of_field :: "field \<Rightarrow> nat \<Rightarrow> bool" where
  "modifier_of_field (g, page, usage, value) n \<longleftrightarrow>
     value \<noteq> 0 \<and> page = PAGE_KEYBOARD_KEYPAD \<and> KB_LEFT_CONTROL \<le> usage \<and> usage \<le> KB_RIGHT_GUI \<and>
     n = unat usage - 0xe0"

definition keys_of :: "field list \<Rightarrow> u8 list" where
  "keys_of fs = concat (map key_of_field fs)"

text \<open>\<open>holds ks d\<close>: the array has the keys \<open>ks\<close>, padded with zeros.\<close>

definition holds_keys :: "u8 list \<Rightarrow> keyboard_device \<Rightarrow> bool" where
  "holds_keys ks d \<longleftrightarrow> length ks \<le> 10 \<and> kd_pressed_key_index d = length ks \<and>
     kb_pressed_keys (keyboard (kd_ctl d)) = ks @ replicate (10 - length ks) 0"

lemma add_key_holds:
  assumes "holds_keys ks d" "length ks < 10"
  shows "\<exists>d'. add_key k d = Some d' \<and> holds_keys (ks @ [k]) d' \<and> kd_using_jx_05 d' = kd_using_jx_05 d \<and>
    kb_modifiers (keyboard (kd_ctl d')) = kb_modifiers (keyboard (kd_ctl d)) \<and>
    klass (kd_ctl d') = klass (kd_ctl d)"
proof -
  have "10 - length ks = Suc (10 - Suc (length ks))" using assms(2) by simp
  then have "(ks @ replicate (10 - length ks) 0)[length ks := k] = ks @ [k] @ replicate (10 - Suc (length ks)) 0"
    by (simp only: list_update_append) simp
  with assms show ?thesis
    by (simp add: add_key_def put_key_def holds_keys_def UNI_KEYBOARD_PRESSED_KEYS_MAX_def)
qed

lemma field_step:
  assumes "holds_keys ks d" "\<not> kd_using_jx_05 d" "length ks + length (key_of_field f) \<le> 10"
  shows "\<exists>d'. (case f of (g, page, usage, v) \<Rightarrow> uni_hid_parser_keyboard_parse_usage g page usage v d) = Some d' \<and>
    holds_keys (ks @ key_of_field f) d' \<and> \<not> kd_using_jx_05 d' \<and> klass (kd_ctl d') = klass (kd_ctl d) \<and>
    (\<forall>n. bit (kb_modifiers (keyboard (kd_ctl d'))) n \<longleftrightarrow>
      bit (kb_modifiers (keyboard (kd_ctl d))) n \<or> modifier_of_field f n)"
proof -
  obtain g page usage v where f: "f = (g, page, usage, v)" by (cases f) auto
  have modifier: "unat usage - 0xe0 < 8" if "usage \<le> KB_RIGHT_GUI"
    using that by (simp add: word_le_nat_alt)
  show ?thesis
  proof (cases "key_of_field f")
    case Nil
    then show ?thesis
      using assms f modifier
      by (auto simp: uni_hid_parser_keyboard_parse_usage_def keypad_usage_def consumer_usage_def
          holds_keys_def bit_or_iff bit_BIT split: if_splits option.splits)
  next
    case (Cons k rest)
    then have k: "key_of_field f = [k]" and nomod: "\<not> modifier_of_field f n" for n
      using f by (auto split: if_splits option.splits)
    have "(case f of (g, page, usage, v) \<Rightarrow> uni_hid_parser_keyboard_parse_usage g page usage v d) = add_key k d"
      using assms k f
      by (auto simp: uni_hid_parser_keyboard_parse_usage_def keypad_usage_def consumer_usage_def
          holds_keys_def UNI_KEYBOARD_PRESSED_KEYS_MAX_def split: if_splits option.splits)
    with add_key_holds [OF assms(1), of k] assms k nomod show ?thesis by auto
  qed
qed

text \<open>
  A keyboard report with at most ten keys is decoded completely: the array of pressed keys holds the
  keys and media keys of the fields in their order, padded with zeros, and exactly the modifiers of the
  fields are set.
\<close>

theorem keyboard_report_correct:
  assumes "\<not> kd_using_jx_05 d0" "length (keys_of fs) \<le> 10"
  shows "\<exists>d. uni_hid_parse_input_report keyboard_report_parser fs report d0 = Some d \<and>
    klass (kd_ctl d) = CLASS_KEYBOARD \<and>
    kb_pressed_keys (keyboard (kd_ctl d)) = keys_of fs @ replicate (10 - length (keys_of fs)) 0 \<and>
    (\<forall>n. bit (kb_modifiers (keyboard (kd_ctl d))) n \<longleftrightarrow> (\<exists>f \<in> set fs. modifier_of_field f n))"
proof -
  have run: "\<exists>d'. parse_fields uni_hid_parser_keyboard_parse_usage fs d = Some d' \<and>
      holds_keys (ks @ keys_of fs) d' \<and> klass (kd_ctl d') = klass (kd_ctl d) \<and>
      (\<forall>n. bit (kb_modifiers (keyboard (kd_ctl d'))) n \<longleftrightarrow>
        bit (kb_modifiers (keyboard (kd_ctl d))) n \<or> (\<exists>f \<in> set fs. modifier_of_field f n))"
    if "holds_keys ks d" "\<not> kd_using_jx_05 d" "length ks + length (keys_of fs) \<le> 10" for ks d
    using that
  proof (induction fs arbitrary: ks d)
    case Nil
    then show ?case by (simp add: keys_of_def)
  next
    case (Cons f fs)
    obtain g page usage v where f: "f = (g, page, usage, v)" by (cases f) auto
    have len: "length ks + length (key_of_field f) \<le> 10" using Cons.prems(3) by (simp add: keys_of_def)
    from field_step [OF Cons.prems(1,2) len] obtain d1 where
      d1: "uni_hid_parser_keyboard_parse_usage g page usage v d = Some d1"
        "holds_keys (ks @ key_of_field f) d1" "\<not> kd_using_jx_05 d1" "klass (kd_ctl d1) = klass (kd_ctl d)"
        "\<forall>n. bit (kb_modifiers (keyboard (kd_ctl d1))) n \<longleftrightarrow>
          bit (kb_modifiers (keyboard (kd_ctl d))) n \<or> modifier_of_field f n"
      using f by auto
    from Cons.IH [OF d1(2,3)] Cons.prems(3) d1 f show ?case by (auto simp: keys_of_def)
  qed
  let ?d = "uni_hid_parser_keyboard_init_report d0"
  have "holds_keys [] ?d" "\<not> kd_using_jx_05 ?d" "kb_modifiers (keyboard (kd_ctl ?d)) = 0"
    "klass (kd_ctl ?d) = CLASS_KEYBOARD"
    using assms(1) by (simp_all add: uni_hid_parser_keyboard_init_report_def holds_keys_def controller_zero_def)
  with run [of "[]" ?d] assms(2) show ?thesis
    by (auto simp: keyboard_report_parser_def parse_usage_report holds_keys_def)
qed

definition keyboard_fresh :: keyboard_device where
  "keyboard_fresh = uni_hid_parser_keyboard_setup 0 0 \<lparr>kd_ctl = controller_zero, kd_pressed_key_index = 0,
     kd_using_jx_05 = False, kd_jx = \<lparr>jx_x = 0, jx_y = 0, jx_ready_to_process = False,
       jx_last_report = False, jx_is_down_or_button = False\<rparr>\<rparr>"

theorem keyboard_report_correct_witness:
  "\<exists>d. uni_hid_parse_input_report keyboard_report_parser
      [(byte_field, PAGE_KEYBOARD_KEYPAD, 4, 1), (byte_field, PAGE_KEYBOARD_KEYPAD, 0xe1, 1),
       (byte_field, PAGE_CONSUMER, 0xe9, 1)] [] keyboard_fresh = Some d \<and>
    kb_pressed_keys (keyboard (kd_ctl d)) = [4, 0x80] @ replicate 8 0"
  using keyboard_report_correct [of keyboard_fresh "[(byte_field, PAGE_KEYBOARD_KEYPAD, 4, 1),
      (byte_field, PAGE_KEYBOARD_KEYPAD, 0xe1, 1), (byte_field, PAGE_CONSUMER, 0xe9, 1)]" "[]"]
  by (auto simp: keys_of_def media_keys_def keyboard_fresh_def uni_hid_parser_keyboard_setup_def Let_def)

text \<open>
  More keys: the keypad page drops what does not fit, the consumer page does not look. A report of
  eleven or more volume keys writes behind the array.
\<close>

lemma volume_keys:
  "holds_keys ks d \<Longrightarrow> \<not> kd_using_jx_05 d \<Longrightarrow> 10 - length ks < n \<Longrightarrow>
    parse_fields uni_hid_parser_keyboard_parse_usage (replicate n (g, PAGE_CONSUMER, 0xe9, 1)) d = None"
proof (induction n arbitrary: ks d)
  case 0
  then show ?case by simp
next
  case (Suc n)
  have add: "uni_hid_parser_keyboard_parse_usage g PAGE_CONSUMER 0xe9 1 d = add_key 0x80 d"
    using Suc.prems(2) by (simp add: uni_hid_parser_keyboard_parse_usage_def consumer_usage_def media_keys_def)
  show ?case
  proof (cases "length ks < 10")
    case True
    from add_key_holds [OF Suc.prems(1) this] obtain d' where
      "add_key 0x80 d = Some d'" "holds_keys (ks @ [0x80]) d'" "\<not> kd_using_jx_05 d'"
      using Suc.prems(2) by blast
    moreover have "10 - length (ks @ [0x80]) < n" using Suc.prems(3) True by simp
    ultimately show ?thesis using Suc.IH [of "ks @ [0x80]" d'] add by simp
  next
    case False
    with Suc.prems(1) add show ?thesis
      by (simp add: add_key_def put_key_def holds_keys_def UNI_KEYBOARD_PRESSED_KEYS_MAX_def)
  qed
qed

theorem keyboard_consumer_overflow:
  assumes "\<not> kd_using_jx_05 d0" "10 < n"
  shows "uni_hid_parse_input_report keyboard_report_parser (replicate n (g, PAGE_CONSUMER, 0xe9, 1)) report d0
    = None"
proof -
  let ?d = "uni_hid_parser_keyboard_init_report d0"
  have "holds_keys [] ?d" "\<not> kd_using_jx_05 ?d"
    using assms(1) by (simp_all add: uni_hid_parser_keyboard_init_report_def holds_keys_def controller_zero_def)
  with volume_keys [of "[]" ?d n g] assms(2) show ?thesis
    by (simp add: keyboard_report_parser_def parse_usage_report)
qed

end
