(* ===== verification/Binary32.thy ===== *)
theory Binary32
  imports Prelude Complex_Main
begin

text \<open>
  The type \<open>float\<close> of the program. A value is the rational number it stands for; each operation
  computes exactly and rounds to the nearest binary32 number, ties to the even significand
  (\<open>f32\<close>). The program's values stay far below the largest finite number and no operation yields
  a NaN, so infinities are not modelled; a multiplication and an addition are rounded separately,
  without the contraction that compilers may choose; the two zeros are one number, which no comparison of the
  program tells apart.

  The locale \<open>rounding\<close> states what the component proofs use of it.
\<close>

section \<open>Rounding\<close>

function ilog2 :: "int \<Rightarrow> nat" where
  "ilog2 n = (if n < 2 then 0 else Suc (ilog2 (n div 2)))"
  by auto
termination by (relation "measure nat") (auto simp: nat_less_iff)

declare ilog2.simps [simp del]

definition round_even :: "rat \<Rightarrow> int" where
  "round_even x = (let n = \<lfloor>x\<rfloor>; r = x - of_int n
     in if r < 1 / 2 then n else if r > 1 / 2 then n + 1 else if even n then n else n + 1)"

text \<open>The scale of the binade of \<open>a\<close>; the smallest one holds the subnormal numbers.\<close>

definition binade :: "rat \<Rightarrow> nat" where
  "binade a = ilog2 \<lfloor>a * 2 ^ 126\<rfloor>"

definition ulp :: "rat \<Rightarrow> rat" where
  "ulp a = 2 ^ binade a / 2 ^ 149"

definition f32_abs :: "rat \<Rightarrow> rat" where
  "f32_abs a = of_int (round_even (a / ulp a)) * ulp a"

definition f32 :: "rat \<Rightarrow> rat" where
  "f32 x = (if x < 0 then - f32_abs (- x) else f32_abs x)"

definition f_add :: "rat \<Rightarrow> rat \<Rightarrow> rat" where "f_add x y = f32 (x + y)"
definition f_sub :: "rat \<Rightarrow> rat \<Rightarrow> rat" where "f_sub x y = f32 (x - y)"
definition f_mul :: "rat \<Rightarrow> rat \<Rightarrow> rat" where "f_mul x y = f32 (x * y)"
definition f_div :: "rat \<Rightarrow> rat \<Rightarrow> rat" where "f_div x y = f32 (x / y)"

text \<open>\<open>static_cast<float>\<close> of an int, and \<open>lroundf\<close>: to the nearest, halves away from zero.\<close>

definition f_of_int :: "int \<Rightarrow> rat" where "f_of_int n = f32 (of_int n)"

definition lroundf :: "rat \<Rightarrow> int" where
  "lroundf x = (if x < 0 then - \<lfloor>- x + 1 / 2\<rfloor> else \<lfloor>x + 1 / 2\<rfloor>)"

locale rounding =
  fixes rnd :: "rat \<Rightarrow> rat"
  assumes mono: "x \<le> y \<Longrightarrow> rnd x \<le> rnd y"
    and odd: "rnd (- x) = - rnd x"
    and one: "rnd 1 = 1"
begin

lemma zero: "rnd 0 = 0"
  using odd [of 0] by simp

lemma nonneg: "0 \<le> x \<Longrightarrow> 0 \<le> rnd x"
  using mono [of 0 x] by (simp add: zero)

lemma nonpos: "x \<le> 0 \<Longrightarrow> rnd x \<le> 0"
  using mono [of x 0] by (simp add: zero)

lemma le_one: "x \<le> 1 \<Longrightarrow> rnd x \<le> 1"
  using mono [of x 1] by (simp add: one)

lemma ge_minus_one: "- 1 \<le> x \<Longrightarrow> - 1 \<le> rnd x"
  using mono [of "- 1" x] odd [of 1] by (simp add: one)

lemma unit: "\<bar>x\<bar> \<le> 1 \<Longrightarrow> \<bar>rnd x\<bar> \<le> 1"
  using le_one [of x] ge_minus_one [of x] by (simp add: abs_le_iff)

lemma quotient_unit: "\<bar>a\<bar> \<le> b \<Longrightarrow> 0 < b \<Longrightarrow> \<bar>rnd (a / b)\<bar> \<le> 1"
  by (rule unit) (simp add: abs_divide)

end

section \<open>The rounding is monotone, odd and exact on 24 bits\<close>

lemma ilog2_bounds: "0 < n \<Longrightarrow> 2 ^ ilog2 n \<le> n \<and> n < 2 ^ Suc (ilog2 n)"
proof (induction n rule: ilog2.induct)
  case (1 n)
  show ?case
  proof (cases "n < 2")
    case True
    with 1(2) have "n = 1" by simp
    then show ?thesis by (simp add: ilog2.simps)
  next
    case False
    then have "2 ^ ilog2 (n div 2) \<le> n div 2 \<and> n div 2 < 2 ^ Suc (ilog2 (n div 2))" using 1(1) by simp
    moreover have "ilog2 n = Suc (ilog2 (n div 2))" using False by (simp add: ilog2.simps)
    ultimately show ?thesis by auto
  qed
qed

lemma ilog2_mono: "m \<le> (n :: int) \<Longrightarrow> ilog2 m \<le> ilog2 n"
proof (induction m arbitrary: n rule: ilog2.induct)
  case (1 m)
  show ?case
  proof (cases "m < 2")
    case True
    then show ?thesis by (simp add: ilog2.simps [of m])
  next
    case False
    then have "ilog2 (m div 2) \<le> ilog2 (n div 2)" using 1 zdiv_mono1 [of m n 2] by simp
    with False 1(2) show ?thesis by (simp add: ilog2.simps [of m] ilog2.simps [of n])
  qed
qed

lemma round_even_int [simp]: "round_even (of_int n) = n"
  by (simp add: round_even_def)

lemma round_even_floor: "round_even x = \<lfloor>x\<rfloor> \<or> round_even x = \<lfloor>x\<rfloor> + 1"
  by (simp add: round_even_def Let_def)

lemma round_even_mono:
  assumes "x \<le> y"
  shows "round_even x \<le> round_even y"
proof (cases "\<lfloor>x\<rfloor> = \<lfloor>y\<rfloor>")
  case True
  with assms show ?thesis by (simp add: round_even_def Let_def)
next
  case False
  with floor_mono [OF assms] have "\<lfloor>x\<rfloor> + 1 \<le> \<lfloor>y\<rfloor>" by simp
  with round_even_floor [of x] round_even_floor [of y] show ?thesis by linarith
qed

lemma round_even_le: "x \<le> of_int n \<Longrightarrow> round_even x \<le> n"
  using round_even_mono [of x "of_int n"] by simp

lemma round_even_ge: "of_int n \<le> x \<Longrightarrow> n \<le> round_even x"
  using round_even_mono [of "of_int n" x] by simp

lemma ulp_pos [simp]: "0 < ulp a"
  by (simp add: ulp_def)

lemma binade_upper:
  assumes "0 \<le> a"
  shows "a < 2 ^ Suc (binade a) / 2 ^ 126"
proof -
  let ?n = "\<lfloor>a * 2 ^ 126\<rfloor>"
  have "?n < 2 ^ Suc (ilog2 ?n)"
    using ilog2_bounds [of ?n] assms by (cases "0 < ?n") (auto intro: le_less_trans [of _ 0])
  then have "a * 2 ^ 126 < of_int (2 ^ Suc (ilog2 ?n))" by (simp only: floor_less_iff)
  then show ?thesis by (simp add: binade_def pos_less_divide_eq)
qed

lemma binade_lower:
  assumes "0 < binade a"
  shows "2 ^ binade a / 2 ^ 126 \<le> a"
proof -
  let ?n = "\<lfloor>a * 2 ^ 126\<rfloor>"
  have n: "0 < ?n" using assms by (auto simp: binade_def ilog2.simps split: if_splits)
  then have "2 ^ ilog2 ?n \<le> ?n" using ilog2_bounds [of ?n] by linarith
  then have "of_int (2 ^ ilog2 ?n) \<le> a * 2 ^ 126" by (simp only: le_floor_iff)
  then show ?thesis by (simp add: binade_def pos_divide_le_eq)
qed

lemma binade_mono: "a \<le> b \<Longrightarrow> binade a \<le> binade b"
  unfolding binade_def by (intro ilog2_mono floor_mono) simp

lemma f32_abs_upper:
  assumes "0 \<le> a"
  shows "f32_abs a \<le> 2 ^ Suc (binade a) / 2 ^ 126"
proof -
  have "a / ulp a \<le> of_int (2 ^ 24)"
    using binade_upper [OF assms] by (simp add: ulp_def field_simps)
  then have "of_int (round_even (a / ulp a)) \<le> (2 ^ 24 :: rat)"
    using round_even_le by fastforce
  then have "f32_abs a \<le> 2 ^ 24 * ulp a" unfolding f32_abs_def by (intro mult_right_mono) (simp_all add: less_imp_le)
  then show ?thesis by (simp add: ulp_def field_simps)
qed

lemma f32_abs_lower:
  assumes "0 < binade a"
  shows "2 ^ binade a / 2 ^ 126 \<le> f32_abs a"
proof -
  have "of_int (2 ^ 23) \<le> a / ulp a"
    using binade_lower [OF assms] by (simp add: ulp_def field_simps)
  then have "(2 ^ 23 :: rat) \<le> of_int (round_even (a / ulp a))"
    using round_even_ge by fastforce
  then have "2 ^ 23 * ulp a \<le> f32_abs a" unfolding f32_abs_def by (intro mult_right_mono) (simp_all add: less_imp_le)
  then show ?thesis by (simp add: ulp_def field_simps)
qed

lemma f32_abs_mono:
  assumes "0 \<le> a" "a \<le> b"
  shows "f32_abs a \<le> f32_abs b"
proof (cases "binade a = binade b")
  case True
  have "round_even (a / ulp a) \<le> round_even (b / ulp a)"
    using assms by (intro round_even_mono divide_right_mono) (simp_all add: less_imp_le)
  then show ?thesis using True unfolding f32_abs_def by (simp add: ulp_def divide_right_mono mult_right_mono)
next
  case False
  with binade_mono [OF assms(2)] have l: "Suc (binade a) \<le> binade b" by simp
  have "f32_abs a \<le> 2 ^ Suc (binade a) / 2 ^ 126" by (rule f32_abs_upper [OF assms(1)])
  also have "\<dots> \<le> 2 ^ binade b / 2 ^ 126" using power_increasing [OF l, of "2 :: rat"] by (intro divide_right_mono) simp_all
  also have "\<dots> \<le> f32_abs b" using l by (intro f32_abs_lower) simp
  finally show ?thesis .
qed

lemma f32_abs_nonneg: "0 \<le> a \<Longrightarrow> 0 \<le> f32_abs a"
  unfolding f32_abs_def using round_even_ge [of 0 "a / ulp a"] by (simp add: less_imp_le)

lemma f32_abs_zero [simp]: "f32_abs 0 = 0"
  using round_even_int [of 0] by (simp add: f32_abs_def)

lemma f32_mono:
  assumes "x \<le> y"
  shows "f32 x \<le> f32 y"
proof -
  consider "0 \<le> x" | "x < 0" "0 \<le> y" | "y < 0" by linarith
  then show ?thesis
  proof cases
    case 1
    with assms f32_abs_mono [of x y] show ?thesis by (simp add: f32_def)
  next
    case 2
    with f32_abs_nonneg [of "- x"] f32_abs_nonneg [of y] show ?thesis by (simp add: f32_def)
  next
    case 3
    with assms f32_abs_mono [of "- y" "- x"] show ?thesis by (simp add: f32_def)
  qed
qed

lemma f32_neg: "f32 (- x) = - f32 x"
  by (auto simp: f32_def)

text \<open>Exact numbers: an integer of less than 25 bits over a power of two.\<close>

lemma f32_abs_exact:
  assumes "m < 2 ^ 24" "j \<le> 126"
  shows "f32_abs (of_nat m / 2 ^ j) = of_nat m / 2 ^ j"
proof -
  let ?a = "of_nat m / 2 ^ j :: rat"
  have b: "binade ?a \<le> 149 - j"
  proof (rule ccontr)
    assume "\<not> binade ?a \<le> 149 - j"
    then have k: "150 - j \<le> binade ?a" "0 < binade ?a" using assms(2) by auto
    have "(2 ^ (150 - j) :: rat) \<le> 2 ^ binade ?a" using k(1) by simp
    also have "\<dots> \<le> ?a * 2 ^ 126" using binade_lower [OF k(2)] by (simp add: field_simps)
    also have "\<dots> = of_nat m * 2 ^ (126 - j)" using assms(2) by (simp add: power_diff)
    also have "\<dots> < 2 ^ 24 * 2 ^ (126 - j)"
    proof -
      have "of_nat m < (of_nat (2 ^ 24) :: rat)" using assms(1) by (simp only: of_nat_less_iff)
      then show ?thesis by simp
    qed
    also have "\<dots> = 2 ^ (24 + (126 - j))" by (simp only: power_add)
    also have "\<dots> = 2 ^ (150 - j)" using assms(2) by (intro arg_cong [where f = "power 2"]) simp
    finally show False by simp
  qed
  have "(2::rat) ^ (149 - j - binade ?a) = 2 ^ 149 / 2 ^ j / 2 ^ binade ?a"
    using b assms(2) by (simp add: power_diff power_add)
  then have "?a / ulp ?a = of_int (int m * 2 ^ (149 - j - binade ?a))"
    by (simp add: ulp_def power_add)
  then have "f32_abs ?a = ?a / ulp ?a * ulp ?a"
    unfolding f32_abs_def by (simp only: round_even_int)
  then show ?thesis using ulp_pos [of ?a] by simp
qed

lemma f32_exact:
  assumes "\<bar>m\<bar> < 2 ^ 24" "j \<le> 126"
  shows "f32 (of_int m / 2 ^ j) = of_int m / 2 ^ j"
proof (cases "0 \<le> m")
  case True
  then have "\<not> of_int m / 2 ^ j < (0 :: rat)" by (simp add: not_less)
  with True f32_abs_exact [of "nat m" j] assms show ?thesis by (simp add: f32_def nat_less_iff)
next
  case False
  with f32_abs_exact [of "nat (- m)" j] assms show ?thesis
    by (simp add: f32_def nat_less_iff divide_less_0_iff)
qed

lemma f_of_int_exact: "\<bar>m\<bar> < 2 ^ 24 \<Longrightarrow> f_of_int m = of_int m"
  using f32_exact [of m 0] by (simp add: f_of_int_def)

text \<open>The error of a rounding is at most half the distance of the neighbours: 2^-24 up to 1.\<close>

lemma round_even_error: "\<bar>of_int (round_even x) - x\<bar> \<le> 1 / 2"
proof -
  have "of_int \<lfloor>x\<rfloor> \<le> x" "x < of_int \<lfloor>x\<rfloor> + 1" by linarith+
  then show ?thesis by (auto simp: round_even_def Let_def abs_le_iff)
qed

lemma f32_abs_error: "\<bar>f32_abs a - a\<bar> \<le> ulp a / 2"
proof -
  have "f32_abs a - a = (of_int (round_even (a / ulp a)) - a / ulp a) * ulp a"
    using ulp_pos [of a] by (simp add: f32_abs_def left_diff_distrib less_imp_neq [symmetric])
  then have "\<bar>f32_abs a - a\<bar> = \<bar>of_int (round_even (a / ulp a)) - a / ulp a\<bar> * ulp a"
    using ulp_pos [of a] by (simp only: abs_mult abs_of_pos)
  also have "\<dots> \<le> 1 / 2 * ulp a" by (intro mult_right_mono round_even_error) (simp add: less_imp_le)
  finally show ?thesis by simp
qed

lemma ulp_le_one:
  assumes "a \<le> 1"
  shows "ulp a \<le> 1 / 2 ^ 23"
proof -
  have "binade a \<le> 126"
  proof (rule ccontr)
    assume "\<not> binade a \<le> 126"
    then have k: "127 \<le> binade a" "0 < binade a" by auto
    have "(2 ^ 127 / 2 ^ 126 :: rat) \<le> 2 ^ binade a / 2 ^ 126"
      using power_increasing [OF k(1), of "2 :: rat"] by (intro divide_right_mono) simp_all
    also have "\<dots> \<le> 1" using binade_lower [OF k(2)] assms by linarith
    finally show False by simp
  qed
  then have "(2 :: rat) ^ binade a / 2 ^ 149 \<le> 2 ^ 126 / 2 ^ 149" by (intro divide_right_mono power_increasing) simp_all
  then show ?thesis by (simp add: ulp_def)
qed

lemma f32_error: "\<bar>x\<bar> \<le> 1 \<Longrightarrow> \<bar>f32 x - x\<bar> \<le> 1 / 2 ^ 24"
  using f32_abs_error [of x] f32_abs_error [of "- x"] ulp_le_one [of x] ulp_le_one [of "- x"]
  unfolding f32_def abs_le_iff by (auto split: if_splits)

interpretation f32: rounding f32
proof
  show "f32 1 = 1" using f32_exact [of 1 0] by simp
qed (simp_all add: f32_mono f32_neg)

section \<open>Rounding to an integer\<close>

lemma lroundf_mono: "x \<le> y \<Longrightarrow> lroundf x \<le> lroundf y"
proof -
  assume xy: "x \<le> y"
  consider "0 \<le> x" | "x < 0" "0 \<le> y" | "y < 0" by linarith
  then show ?thesis
  proof cases
    case 1
    with xy show ?thesis by (simp add: lroundf_def floor_mono)
  next
    case 2
    then have "0 \<le> \<lfloor>- x + 1 / 2\<rfloor>" "0 \<le> \<lfloor>y + 1 / 2\<rfloor>" by simp_all
    then have "- \<lfloor>- x + 1 / 2\<rfloor> \<le> \<lfloor>y + 1 / 2\<rfloor>" by linarith
    with 2 show ?thesis by (simp only: lroundf_def if_True if_False not_less [symmetric] simp_thms)
  next
    case 3
    with xy have "\<lfloor>- y + 1 / 2\<rfloor> \<le> \<lfloor>- x + 1 / 2\<rfloor>" by (intro floor_mono) simp
    with 3 xy show ?thesis by (simp add: lroundf_def)
  qed
qed

lemma lroundf_int [simp]: "lroundf (of_int n) = n"
proof -
  have "\<lfloor>of_int k + 1 / 2 :: rat\<rfloor> = k" for k by (simp add: floor_eq_iff)
  from this [of n] this [of "- n"] show ?thesis by (simp add: lroundf_def)
qed

lemma lroundf_bounds:
  "of_int a \<le> x \<Longrightarrow> a \<le> lroundf x" "x \<le> of_int b \<Longrightarrow> lroundf x \<le> b"
  using lroundf_mono [of "of_int a" x] lroundf_mono [of x "of_int b"] by simp_all

end
