(* ===== verification/Parser_Mouse.thy ===== *)
theory Parser_Mouse
  imports Usage_Parser Binary32
begin

text \<open>
  \<^verbatim>\<open>components/bluepad32/parser/uni_hid_parser_mouse.c\<close>: mice. The movement is scaled by a factor that
  the setup looks up by vendor, product and name; the arithmetic is binary32, as in the code.
\<close>

record mouse_device =
  md_ctl :: uni_controller
  md_scale :: rat

text \<open>Vendor, product, name where it matters, and the factor, a literal converted to \<^verbatim>\<open>float\<close>.\<close>

definition resolutions :: "(u16 \<times> u16 \<times> string option \<times> rat) list" where
  "resolutions = [
     (0x05ac, 0x030d, None, f32 (2 / 10)),
     (0x05ac, 0x0269, None, f32 (2 / 10)),
     (0x004c, 0x0269, None, f32 (2 / 10)),
     (0x05ac, 0x030e, None, f32 (47 / 100)),
     (0x0a5c, 0x4503, Some ''BM30X mouse'', f32 (3334 / 10000)),
     (0x0a5c, 0x4503, Some ''Adesso Bluetooth 3.0 Mouse'', f32 (5 / 10)),
     (0x0a5c, 0x0001, Some ''BORND Bluetooth Mouse'', f32 (6667 / 10000)),
     (0x046d, 0xb016, Some ''Bluetooth Mouse M336/M337/M535'', f32 (3334 / 10000)),
     (0x046d, 0xb007, Some ''Logitech MX Revolution Mouse'', f32 (3334 / 10000)),
     (0xae24, 0x8618, Some ''BT3.0 Mouse'', f32 (2 / 10)),
     (0xae24, 0x8618, Some ''BM20X-3.0'', f32 (2 / 10)),
     (0x03f0, 0x084c, Some ''HP Bluetooth Mouse Z5000'', f32 (5 / 10)),
     (0x046d, 0xb016, Some ''ID0078A'', f32 (3334 / 10000)),
     (0x248a, 0x8266, None, f32 (75 / 100))]"

definition uni_hid_parser_mouse_setup :: "u16 \<Rightarrow> u16 \<Rightarrow> string \<Rightarrow> mouse_device \<Rightarrow> mouse_device" where
  "uni_hid_parser_mouse_setup vendor_id product_id name d =
     (case find (\<lambda>(vid, pid, n, scale). vid = vendor_id \<and> pid = product_id \<and> (n = None \<or> n = Some name))
        resolutions of
        Some (vid, pid, n, scale) \<Rightarrow> d\<lparr>md_scale := scale\<rparr>
      | None \<Rightarrow> d\<lparr>md_scale := 1\<rparr>)"

definition process_mouse_delta :: "rat \<Rightarrow> int \<Rightarrow> int" where
  "process_mouse_delta scale value =
     (if value = 0 then 0
      else let ret = f_mul (f_of_int value) scale;
             ret1 = (if ret < - 127 then - 127 else ret);
             ret2 = (if ret1 > 127 then 127 else ret1);
             ret_i = lroundf ret2
        in if ret_i = 0 then (if value < 0 then - 1 else 1) else ret_i)"

definition uni_hid_parser_mouse_init_report :: "mouse_device \<Rightarrow> mouse_device" where
  "uni_hid_parser_mouse_init_report d = d\<lparr>md_ctl := controller_zero\<lparr>klass := CLASS_MOUSE\<rparr>\<rparr>"

definition upd_mouse :: "(uni_mouse \<Rightarrow> uni_mouse) \<Rightarrow> mouse_device \<Rightarrow> mouse_device" where
  "upd_mouse f d = d\<lparr>md_ctl := (md_ctl d)\<lparr>mouse := f (mouse (md_ctl d))\<rparr>\<rparr>"

definition press_mouse :: "int \<Rightarrow> nat \<Rightarrow> mouse_device \<Rightarrow> mouse_device" where
  "press_mouse value n = upd_mouse (\<lambda>m. m\<lparr>mouse_buttons := or_if (value \<noteq> 0) (BIT n) (mouse_buttons m)\<rparr>)"

definition uni_hid_parser_mouse_parse_usage ::
  "hid_globals \<Rightarrow> u16 \<Rightarrow> u16 \<Rightarrow> int \<Rightarrow> mouse_device \<Rightarrow> mouse_device" where
  "uni_hid_parser_mouse_parse_usage g page usage value d = switch_on page
     [([PAGE_GENERIC_DESKTOP], switch_on usage
        [([USAGE_AXIS_X], upd_mouse (\<lambda>m. m\<lparr>delta_x := process_mouse_delta (md_scale d) value\<rparr>) d),
         ([USAGE_AXIS_Y], upd_mouse (\<lambda>m. m\<lparr>delta_y := process_mouse_delta (md_scale d) value\<rparr>) d),
         ([0x38], upd_mouse (\<lambda>m. m\<lparr>scroll_wheel := to_i8 value\<rparr>) d)] d),
      ([PAGE_BUTTON], switch_on usage
        [([0x01], press_mouse value 0 d), ([0x02], press_mouse value 1 d), ([0x03], press_mouse value 2 d),
         ([0x04], press_mouse value 3 d), ([0x05], press_mouse value 4 d), ([0x06], press_mouse value 5 d),
         ([0x07], press_mouse value 6 d), ([0x08], press_mouse value 7 d)] d),
      ([PAGE_GENERIC_DEVICE_CONTROLS], switch_on usage
        [([USAGE_BATTERY_STRENGTH], d\<lparr>md_ctl := (md_ctl d)\<lparr>battery := u8_of value\<rparr>\<rparr>)] d)] d"

definition mouse_report_parser :: "mouse_device report_parser" where
  "mouse_report_parser = usage_report_parser uni_hid_parser_mouse_init_report
     (\<lambda>g page usage value d. Some (uni_hid_parser_mouse_parse_usage g page usage value d))"

section \<open>Movement\<close>

definition clamp_127 :: "rat \<Rightarrow> rat" where
  "clamp_127 r = (let r1 = (if r < - 127 then - 127 else r) in if r1 > 127 then 127 else r1)"

lemma clamp_127_bounds: "- 127 \<le> clamp_127 r \<and> clamp_127 r \<le> 127"
  by (auto simp: clamp_127_def Let_def)

lemma clamp_127_mono: "a \<le> b \<Longrightarrow> clamp_127 a \<le> clamp_127 b"
  by (auto simp: clamp_127_def Let_def)

definition scaled :: "rat \<Rightarrow> int \<Rightarrow> int" where
  "scaled scale v = lroundf (clamp_127 (f_mul (f_of_int v) scale))"

lemma process_mouse_delta_eq:
  "process_mouse_delta scale v =
     (if v = 0 then 0 else if scaled scale v = 0 then (if v < 0 then - 1 else 1) else scaled scale v)"
  by (simp add: process_mouse_delta_def scaled_def clamp_127_def Let_def)

lemma scaled_mono:
  assumes "0 \<le> scale" "v \<le> w"
  shows "scaled scale v \<le> scaled scale w"
proof -
  have "f_of_int v \<le> f_of_int w" unfolding f_of_int_def using assms(2) by (intro f32_mono) simp
  then have "f_mul (f_of_int v) scale \<le> f_mul (f_of_int w) scale"
    unfolding f_mul_def using assms(1) by (intro f32_mono mult_right_mono)
  then show ?thesis unfolding scaled_def by (intro lroundf_mono clamp_127_mono)
qed

lemma scaled_zero [simp]: "scaled scale 0 = 0"
proof -
  have "f_of_int 0 = 0" "f_mul 0 scale = 0"
    by (simp_all add: f_of_int_def f_mul_def f32.zero)
  then show ?thesis using lroundf_int [of 0] by (simp add: scaled_def clamp_127_def)
qed

lemma scaled_bounds: "- 127 \<le> scaled scale v \<and> scaled scale v \<le> 127"
  using lroundf_bounds(1) [of "- 127" "clamp_127 (f_mul (f_of_int v) scale)"]
    lroundf_bounds(2) [of "clamp_127 (f_mul (f_of_int v) scale)" 127] clamp_127_bounds
  by (simp add: scaled_def)

text \<open>
  Scaling a mouse movement keeps its direction and never loses it: for any factor that is not
  negative the result lies in -127..127, is zero only for no movement, has the sign of the movement,
  and does not decrease when the movement increases.
\<close>

theorem mouse_delta_correct:
  assumes "0 \<le> scale"
  shows "- 127 \<le> process_mouse_delta scale v \<and> process_mouse_delta scale v \<le> 127 \<and>
    sgn (process_mouse_delta scale v) = sgn v \<and>
    (v \<le> w \<longrightarrow> process_mouse_delta scale v \<le> process_mouse_delta scale w)"
proof -
  have s: "v < 0 \<Longrightarrow> scaled scale v \<le> 0" "0 < v \<Longrightarrow> 0 \<le> scaled scale v"
    "w < 0 \<Longrightarrow> scaled scale w \<le> 0" "0 < w \<Longrightarrow> 0 \<le> scaled scale w"
    using scaled_mono [OF assms, of v 0] scaled_mono [OF assms, of 0 v]
      scaled_mono [OF assms, of w 0] scaled_mono [OF assms, of 0 w] by simp_all
  then show ?thesis
    using scaled_bounds [of scale v] scaled_mono [OF assms, of v w]
    by (cases v "0 :: int" rule: linorder_cases; cases w "0 :: int" rule: linorder_cases)
      (auto simp: process_mouse_delta_eq sgn_if)
qed

theorem mouse_delta_correct_witness:
  "- 127 \<le> process_mouse_delta (1 / 5) 1000 \<and> process_mouse_delta (1 / 5) 1000 \<le> 127"
  using mouse_delta_correct [of "1 / 5" 1000 1000] by simp

lemma resolutions_positive: "(vid, pid, n, scale) \<in> set resolutions \<Longrightarrow> 0 \<le> scale"
  unfolding resolutions_def by (auto intro!: f32.nonneg)

text \<open>Every factor of the table is admissible, so after any setup the movement is sound.\<close>

theorem mouse_setup_scale:
  "0 \<le> md_scale (uni_hid_parser_mouse_setup vendor_id product_id name d)"
proof (cases "find (\<lambda>(vid, pid, n, scale). vid = vendor_id \<and> pid = product_id \<and> (n = None \<or> n = Some name))
    resolutions")
  case None
  then show ?thesis by (simp add: uni_hid_parser_mouse_setup_def)
next
  case (Some r)
  then obtain i where "i < length resolutions" "r = resolutions ! i" unfolding find_Some_iff by blast
  then have mem: "r \<in> set resolutions" by simp
  obtain vid pid n scale where r: "r = (vid, pid, n, scale)" by (cases r)
  have "md_scale (uni_hid_parser_mouse_setup vendor_id product_id name d) = scale"
    using Some by (simp add: uni_hid_parser_mouse_setup_def r)
  then show ?thesis using resolutions_positive [of vid pid n scale] mem by (simp only: r)
qed

end
