(* ===== verification/Rumble.thy ===== *)
theory Rumble
  imports Usage_Parser
begin

text \<open>
  What the rumble state machines of the drivers share: BTstack's one-shot timers as the driver sees
  them, and runs of a machine that may trap. A timer is the period it was last started with, None
  when it is not registered; BTstack asserts that a timer is not registered twice.

  \<open>guarded_machine\<close> is the contract of a driver: on the events its environment may send, the
  handler does not trap and keeps the invariant.
\<close>

type_synonym timer = "u16 option"

definition start_timer :: "u16 \<Rightarrow> timer \<Rightarrow> timer option" where
  "start_timer ms t = (case t of None \<Rightarrow> Some (Some ms) | Some _ \<Rightarrow> None)"

fun run_steps :: "('e \<Rightarrow> 's \<Rightarrow> 's option) \<Rightarrow> 'e list \<Rightarrow> 's \<Rightarrow> 's option" where
  "run_steps step [] s = Some s"
| "run_steps step (e # es) s = (case step e s of None \<Rightarrow> None | Some s' \<Rightarrow> run_steps step es s')"

fun admissible ::
  "('e \<Rightarrow> 's \<Rightarrow> 's option) \<Rightarrow> ('e \<Rightarrow> 's \<Rightarrow> bool) \<Rightarrow> 'e list \<Rightarrow> 's \<Rightarrow> bool" where
  "admissible step ok [] s = True"
| "admissible step ok (e # es) s =
     (ok e s \<and> (case step e s of None \<Rightarrow> True | Some s' \<Rightarrow> admissible step ok es s'))"

lemma run_steps_append:
  "run_steps step (es @ fs) s = (case run_steps step es s of None \<Rightarrow> None | Some s' \<Rightarrow> run_steps step fs s')"
  by (induction es arbitrary: s) (simp_all split: option.split)

locale guarded_machine =
  fixes step :: "'e \<Rightarrow> 's \<Rightarrow> 's option"
    and ok :: "'e \<Rightarrow> 's \<Rightarrow> bool"
    and inv :: "'s \<Rightarrow> bool"
  assumes step_law: "inv s \<Longrightarrow> ok e s \<Longrightarrow> \<exists>s'. step e s = Some s' \<and> inv s'"
begin

lemma run_law:
  "inv s \<Longrightarrow> admissible step ok es s \<Longrightarrow> \<exists>s'. run_steps step es s = Some s' \<and> inv s'"
proof (induction es arbitrary: s)
  case Nil
  then show ?case by simp
next
  case (Cons e es)
  then obtain s' where "step e s = Some s'" "inv s'" using step_law [of s e] by auto
  with Cons show ?case by simp
qed

end

text \<open>Lifting an assignment to the controller of a device with driver state.\<close>

definition lift_action ::
  "('d \<Rightarrow> uni_controller) \<Rightarrow> (uni_controller \<Rightarrow> 'd \<Rightarrow> 'd) \<Rightarrow> action \<Rightarrow> 'd \<Rightarrow> 'd option" where
  "lift_action get put a d = map_option (\<lambda>c. put c d) (a (get d))"

definition sat :: "('d \<Rightarrow> uni_controller) \<Rightarrow> (uni_controller \<Rightarrow> uni_controller \<Rightarrow> bool) \<Rightarrow>
    ('d \<Rightarrow> 'd option) \<Rightarrow> bool" where
  "sat get R x \<longleftrightarrow> (\<forall>d d'. x d = Some d' \<longrightarrow> R (get d) (get d'))"

definition keeps_range :: "uni_controller \<Rightarrow> uni_controller \<Rightarrow> bool" where
  "keeps_range c c' \<longleftrightarrow> (in_range (gamepad c) \<longrightarrow> in_range (gamepad c'))"

lemma satD: "sat get R x \<Longrightarrow> x d = Some d' \<Longrightarrow> R (get d) (get d')"
  by (simp add: sat_def)

lemma sat_lift:
  assumes "\<And>c d. get (put c d) = c" "\<And>c c'. a c = Some c' \<Longrightarrow> R c c'"
  shows "sat get R (lift_action get put a)"
  using assms by (auto simp: sat_def lift_action_def)

definition never_traps :: "('d \<Rightarrow> 'd option) \<Rightarrow> bool" where
  "never_traps x \<longleftrightarrow> (\<forall>d. x d \<noteq> None)"

lemma never_trapsD: "never_traps x \<Longrightarrow> x d \<noteq> None"
  by (simp add: never_traps_def)

lemma lift_never_traps: "total a \<Longrightarrow> never_traps (lift_action get put a)"
  by (simp add: never_traps_def lift_action_def total_def)

end
