(* ===== verification/Parser_Xboxone.thy ===== *)
theory Parser_Xboxone
  imports Rumble
begin

text \<open>
  \<^verbatim>\<open>components/bluepad32/parser/uni_hid_parser_xboxone.c\<close>: the two report layouts of the Xbox
  wireless controllers, the firmware detection that selects between them, and the rumble state
  machine with its two timers.

  Reports handed to \<^verbatim>\<open>uni_hid_device_send_intr_report\<close> (Bluetooth classic) and to BTstack's GATT
  client (firmware 5) are appended to \<open>xb_sent\<close>; the status of a GATT write is an argument of the
  operation that makes it, and only an accepted write is a sent report. The context of a timer is the
  device its callback works on, NULL (False) until an operation sets it.
\<close>

section \<open>State\<close>

datatype xboxone_firmware = XBOXONE_FIRMWARE_V3_1 | XBOXONE_FIRMWARE_V4_8 | XBOXONE_FIRMWARE_V5

datatype xboxone_state_rumble = XBOXONE_STATE_RUMBLE_DISABLED | XBOXONE_STATE_RUMBLE_DELAYED
  | XBOXONE_STATE_RUMBLE_IN_PROGRESS

datatype xboxone_retry_cmd_t = XBOXONE_RETRY_CMD_RUMBLE_ON | XBOXONE_RETRY_CMD_RUMBLE_OFF

record xboxone_device =
  xb_ctl :: uni_controller
  xb_version :: xboxone_firmware
  xb_timer_duration :: timer
  xb_timer_delayed_start :: timer
  xb_duration_ctx :: bool
  xb_delayed_ctx :: bool
  xb_rumble_state :: xboxone_state_rumble
  xb_rumble_duration_ms :: u16
  xb_rumble_trigger_left :: u8
  xb_rumble_trigger_right :: u8
  xb_rumble_weak_magnitude :: u8
  xb_rumble_strong_magnitude :: u8
  xb_sent :: "u8 list list"

definition XBOXONE_FF_WEAK :: u8 where "XBOXONE_FF_WEAK = BIT 0"
definition XBOXONE_FF_STRONG :: u8 where "XBOXONE_FF_STRONG = BIT 1"
definition XBOXONE_FF_TRIGGER_RIGHT :: u8 where "XBOXONE_FF_TRIGGER_RIGHT = BIT 2"
definition XBOXONE_FF_TRIGGER_LEFT :: u8 where "XBOXONE_FF_TRIGGER_LEFT = BIT 3"

abbreviation ERROR_CODE_SUCCESS :: u8 where "ERROR_CODE_SUCCESS \<equiv> 0"
abbreviation ERROR_CODE_COMMAND_DISALLOWED :: u8 where "ERROR_CODE_COMMAND_DISALLOWED \<equiv> 0x0c"

definition TRIGGER_BUTTON_THRESHOLD :: int where "TRIGGER_BUTTON_THRESHOLD = 32"
definition XBOX_RUMBLE_REPORT_ID :: u8 where "XBOX_RUMBLE_REPORT_ID = 0x03"
definition BLE_RETRY_MS :: u16 where "BLE_RETRY_MS = 50"

section \<open>Setup and input reports\<close>

definition uni_hid_parser_xboxone_setup :: "bool \<Rightarrow> nat \<Rightarrow> xboxone_device \<Rightarrow> xboxone_device" where
  "uni_hid_parser_xboxone_setup is_le hid_descriptor_len d =
     (if is_le then d\<lparr>xb_version := XBOXONE_FIRMWARE_V5\<rparr>
      else if hid_descriptor_len > 330 then d\<lparr>xb_version := XBOXONE_FIRMWARE_V4_8\<rparr>
      else d\<lparr>xb_version := XBOXONE_FIRMWARE_V3_1\<rparr>)"

definition uni_hid_parser_xboxone_init_report :: "xboxone_device \<Rightarrow> xboxone_device" where
  "uni_hid_parser_xboxone_init_report d = d\<lparr>xb_ctl := controller_zero\<lparr>klass := CLASS_GAMEPAD\<rparr>\<rparr>"

definition on_ctl :: "action \<Rightarrow> xboxone_device \<Rightarrow> xboxone_device option" where
  "on_ctl = lift_action xb_ctl (\<lambda>c d. d\<lparr>xb_ctl := c\<rparr>)"

definition set_version :: "xboxone_firmware \<Rightarrow> xboxone_device \<Rightarrow> xboxone_device option" where
  "set_version v d = Some (d\<lparr>xb_version := v\<rparr>)"

text \<open>A pedal that also presses its trigger button from the threshold on.\<close>

definition store_trigger :: "(int \<Rightarrow> uni_gamepad \<Rightarrow> uni_gamepad) \<Rightarrow> int option \<Rightarrow> u16 \<Rightarrow> action" where
  "store_trigger upd v m c = map_option (\<lambda>x. upd_gp (\<lambda>g.
     let g' = upd x g
     in g'\<lparr>buttons := or_if (x \<ge> TRIGGER_BUTTON_THRESHOLD) m (buttons g')\<rparr>) c) v"

definition parse_usage_firmware_v3_1 ::
  "hid_globals \<Rightarrow> u16 \<Rightarrow> u16 \<Rightarrow> int \<Rightarrow> xboxone_device \<Rightarrow> xboxone_device option" where
  "parse_usage_firmware_v3_1 g page usage value = switch_on page
   [([PAGE_GENERIC_DESKTOP], on_ctl (switch_on usage
      [([USAGE_AXIS_X], store put_x (axis g value)),
       ([USAGE_AXIS_Y], store put_y (axis g value)),
       ([USAGE_AXIS_Z], store put_brake (pedal g value)),
       ([USAGE_AXIS_RX], store put_rx (axis g value)),
       ([USAGE_AXIS_RY], store put_ry (axis g value)),
       ([USAGE_AXIS_RZ], store put_throttle (pedal g value)),
       ([USAGE_HAT], store_hat g value),
       ([USAGE_SYSTEM_MAIN_MENU], press_misc value MISC_BUTTON_SYSTEM),
       ([USAGE_DPAD_UP, USAGE_DPAD_DOWN, USAGE_DPAD_RIGHT, USAGE_DPAD_LEFT],
          store_dpad usage value)] skip)),
    ([PAGE_GENERIC_DEVICE_CONTROLS], on_ctl (switch_on usage
      [([USAGE_BATTERY_STRENGTH], store_battery value)] skip)),
    ([PAGE_BUTTON], switch_on usage
      [([0x01], on_ctl (press value BUTTON_A)),
       ([0x02], on_ctl (press value BUTTON_B)),
       ([0x03], on_ctl (press value BUTTON_X)),
       ([0x04], on_ctl (press value BUTTON_Y)),
       ([0x05], on_ctl (press value BUTTON_SHOULDER_L)),
       ([0x06], on_ctl (press value BUTTON_SHOULDER_R)),
       ([0x07], on_ctl (press_misc value MISC_BUTTON_SELECT)),
       ([0x08], on_ctl (press_misc value MISC_BUTTON_START)),
       ([0x09], on_ctl (press value BUTTON_THUMB_L)),
       ([0x0a], on_ctl (press value BUTTON_THUMB_R)),
       ([0x0f], set_version XBOXONE_FIRMWARE_V4_8)] (on_ctl skip)),
    ([PAGE_CONSUMER], on_ctl (switch_on usage
      [([USAGE_RECORD], skip),
       ([USAGE_AC_BACK], skip)] skip))] (on_ctl skip)"

definition parse_usage_record :: "int \<Rightarrow> xboxone_device \<Rightarrow> xboxone_device option" where
  "parse_usage_record value d =
     (let d' = (if xb_version d \<noteq> XBOXONE_FIRMWARE_V5
                then d\<lparr>xb_version := XBOXONE_FIRMWARE_V5\<rparr> else d)
      in on_ctl (press_misc value MISC_BUTTON_CAPTURE) d')"

definition parse_usage_firmware_v4_v5 ::
  "hid_globals \<Rightarrow> u16 \<Rightarrow> u16 \<Rightarrow> int \<Rightarrow> xboxone_device \<Rightarrow> xboxone_device option" where
  "parse_usage_firmware_v4_v5 g page usage value = switch_on page
   [([PAGE_GENERIC_DESKTOP], on_ctl (switch_on usage
      [([USAGE_AXIS_X], store put_x (axis g value)),
       ([USAGE_AXIS_Y], store put_y (axis g value)),
       ([USAGE_AXIS_Z], store put_rx (axis g value)),
       ([USAGE_AXIS_RZ], store put_ry (axis g value)),
       ([USAGE_HAT], store_hat g value),
       ([USAGE_SYSTEM_MAIN_MENU], press_misc value MISC_BUTTON_SYSTEM),
       ([USAGE_DPAD_UP, USAGE_DPAD_DOWN, USAGE_DPAD_RIGHT, USAGE_DPAD_LEFT],
          store_dpad usage value)] skip)),
    ([PAGE_SIMULATION_CONTROLS], on_ctl (switch_on usage
      [([USAGE_ACCELERATOR], store_trigger put_throttle (pedal g value) BUTTON_TRIGGER_R),
       ([USAGE_BRAKE], store_trigger put_brake (pedal g value) BUTTON_TRIGGER_L)] skip)),
    ([PAGE_GENERIC_DEVICE_CONTROLS], on_ctl (switch_on usage
      [([USAGE_BATTERY_STRENGTH], store_battery value)] skip)),
    ([PAGE_BUTTON], on_ctl (switch_on usage
      [([0x01], press value BUTTON_A),
       ([0x02], press value BUTTON_B),
       ([0x03], skip),
       ([0x04], press value BUTTON_X),
       ([0x05], press value BUTTON_Y),
       ([0x06], skip),
       ([0x07], press value BUTTON_SHOULDER_L),
       ([0x08], press value BUTTON_SHOULDER_R),
       ([0x09, 0x0a], skip),
       ([0x0b], press_misc value MISC_BUTTON_SELECT),
       ([0x0c], press_misc value MISC_BUTTON_START),
       ([0x0d], press_misc value MISC_BUTTON_SYSTEM),
       ([0x0e], press value BUTTON_THUMB_L),
       ([0x0f], press value BUTTON_THUMB_R)] skip)),
    ([PAGE_CONSUMER], switch_on usage
      [([USAGE_RECORD], parse_usage_record value),
       ([USAGE_AC_BACK], on_ctl (press_misc value MISC_BUTTON_SELECT)),
       ([0x81, 0x85, 0x99], on_ctl skip)] (on_ctl skip))] (on_ctl skip)"

definition uni_hid_parser_xboxone_parse_usage ::
  "hid_globals \<Rightarrow> u16 \<Rightarrow> u16 \<Rightarrow> int \<Rightarrow> xboxone_device \<Rightarrow> xboxone_device option" where
  "uni_hid_parser_xboxone_parse_usage g page usage value d =
     (if xb_version d = XBOXONE_FIRMWARE_V3_1
      then parse_usage_firmware_v3_1 g page usage value d
      else parse_usage_firmware_v4_v5 g page usage value d)"

section \<open>Rumble\<close>

text \<open>\<open>struct xboxone_ff_report\<close>, packed.\<close>

definition xboxone_ff_report :: "u8 \<Rightarrow> u8 \<Rightarrow> u8 \<Rightarrow> u8 \<Rightarrow> u8 \<Rightarrow> u8 \<Rightarrow> u8 \<Rightarrow> u8 \<Rightarrow> u8 list" where
  "xboxone_ff_report actuators left right strong weak duration start_delay loops =
     [0xa2, XBOX_RUMBLE_REPORT_ID, actuators, left, right, strong, weak, duration, start_delay, loops]"

definition ff_off :: "u8 list" where
  "ff_off = xboxone_ff_report (XBOXONE_FF_TRIGGER_LEFT OR XBOXONE_FF_TRIGGER_RIGHT OR
     XBOXONE_FF_WEAK OR XBOXONE_FF_STRONG) 0 0 0 0 0 0 0"

text \<open>\<open>((uint16_t)(m * 100)) / UINT8_MAX\<close>: the product fits 16 bits.\<close>

definition scale_magnitude :: "u8 \<Rightarrow> u8" where
  "scale_magnitude m = ucast (((ucast m :: u16) * 100) div 255)"

definition ff_on :: "u8 \<Rightarrow> u8 \<Rightarrow> u8 \<Rightarrow> u8 \<Rightarrow> u8 list" where
  "ff_on trigger_left trigger_right weak strong = xboxone_ff_report
     (or_if (strong \<noteq> 0) XBOXONE_FF_STRONG (or_if (weak \<noteq> 0) XBOXONE_FF_WEAK
       (or_if (trigger_right \<noteq> 0) XBOXONE_FF_TRIGGER_RIGHT
         (or_if (trigger_left \<noteq> 0) XBOXONE_FF_TRIGGER_LEFT 0))))
     (scale_magnitude trigger_left) (scale_magnitude trigger_right)
     (scale_magnitude strong) (scale_magnitude weak) 0xff 0 25"

definition xb_send :: "u8 list \<Rightarrow> xboxone_device \<Rightarrow> xboxone_device" where
  "xb_send report d = d\<lparr>xb_sent := xb_sent d @ [report]\<rparr>"

definition start_delayed :: "u16 \<Rightarrow> xboxone_device \<Rightarrow> xboxone_device option" where
  "start_delayed ms d = map_option (\<lambda>t. d\<lparr>xb_timer_delayed_start := t\<rparr>)
     (start_timer ms (xb_timer_delayed_start d))"

definition start_duration :: "u16 \<Rightarrow> xboxone_device \<Rightarrow> xboxone_device option" where
  "start_duration ms d = map_option (\<lambda>t. d\<lparr>xb_timer_duration := t\<rparr>)
     (start_timer ms (xb_timer_duration d))"

text \<open>Either way the context of the delayed timer is set, and only that one.\<close>

fun xboxone_retry_cmd :: "xboxone_retry_cmd_t \<Rightarrow> xboxone_device \<Rightarrow> xboxone_device option" where
  "xboxone_retry_cmd XBOXONE_RETRY_CMD_RUMBLE_ON d =
     start_delayed BLE_RETRY_MS (d\<lparr>xb_delayed_ctx := True, xb_rumble_state := XBOXONE_STATE_RUMBLE_DELAYED\<rparr>)"
| "xboxone_retry_cmd XBOXONE_RETRY_CMD_RUMBLE_OFF d =
     start_duration BLE_RETRY_MS (d\<lparr>xb_delayed_ctx := True, xb_rumble_state := XBOXONE_STATE_RUMBLE_IN_PROGRESS\<rparr>)"

text \<open>None: the assertion that a rumble is running fails.\<close>

definition xboxone_stop_rumble_now :: "u8 \<Rightarrow> xboxone_device \<Rightarrow> xboxone_device option" where
  "xboxone_stop_rumble_now status d =
     (if xb_rumble_state d = XBOXONE_STATE_RUMBLE_DISABLED then None
      else
        let d1 = d\<lparr>xb_rumble_state := XBOXONE_STATE_RUMBLE_DISABLED\<rparr>
        in if xb_version d1 = XBOXONE_FIRMWARE_V5
           then (if status = ERROR_CODE_COMMAND_DISALLOWED
                 then xboxone_retry_cmd XBOXONE_RETRY_CMD_RUMBLE_OFF d1
                 else if status \<noteq> ERROR_CODE_SUCCESS then Some d1
                 else Some (xb_send (drop 2 ff_off) d1))
           else Some (xb_send ff_off d1))"

definition xboxone_play_quad_rumble_now ::
  "u8 \<Rightarrow> u16 \<Rightarrow> u8 \<Rightarrow> u8 \<Rightarrow> u8 \<Rightarrow> u8 \<Rightarrow> xboxone_device \<Rightarrow> xboxone_device option" where
  "xboxone_play_quad_rumble_now status duration_ms trigger_left trigger_right weak strong d =
     (if duration_ms = 0
      then (if xb_rumble_state d \<noteq> XBOXONE_STATE_RUMBLE_DISABLED
            then xboxone_stop_rumble_now status d else Some d)
      else
        let ff = ff_on trigger_left trigger_right weak strong;
            arm = (\<lambda>d. start_duration duration_ms
                     (d\<lparr>xb_duration_ctx := True, xb_rumble_state := XBOXONE_STATE_RUMBLE_IN_PROGRESS\<rparr>))
        in if xb_version d = XBOXONE_FIRMWARE_V5
           then (if status = ERROR_CODE_COMMAND_DISALLOWED
                 then xboxone_retry_cmd XBOXONE_RETRY_CMD_RUMBLE_ON d
                 else if status \<noteq> ERROR_CODE_SUCCESS then Some d
                 else arm (xb_send (drop 2 ff) d))
           else arm (xb_send ff d))"

definition remove_rumble_timer :: "xboxone_device \<Rightarrow> xboxone_device" where
  "remove_rumble_timer d = (case xb_rumble_state d of
       XBOXONE_STATE_RUMBLE_DELAYED \<Rightarrow> d\<lparr>xb_timer_delayed_start := None\<rparr>
     | XBOXONE_STATE_RUMBLE_IN_PROGRESS \<Rightarrow> d\<lparr>xb_timer_duration := None\<rparr>
     | XBOXONE_STATE_RUMBLE_DISABLED \<Rightarrow> d)"

definition xboxone_play_quad_rumble ::
  "u8 \<Rightarrow> u16 \<Rightarrow> u16 \<Rightarrow> u8 \<Rightarrow> u8 \<Rightarrow> u8 \<Rightarrow> u8 \<Rightarrow> xboxone_device \<Rightarrow> xboxone_device option" where
  "xboxone_play_quad_rumble status start_delay_ms duration_ms trigger_left trigger_right weak strong d =
     (let d1 = remove_rumble_timer d
      in if start_delay_ms = 0
         then xboxone_play_quad_rumble_now status duration_ms trigger_left trigger_right weak strong d1
         else start_delayed start_delay_ms (d1\<lparr>
           xb_delayed_ctx := True,
           xb_rumble_state := XBOXONE_STATE_RUMBLE_DELAYED,
           xb_rumble_duration_ms := duration_ms,
           xb_rumble_trigger_left := trigger_left,
           xb_rumble_trigger_right := trigger_right,
           xb_rumble_strong_magnitude := strong,
           xb_rumble_weak_magnitude := weak\<rparr>))"

definition uni_hid_parser_xboxone_play_dual_rumble ::
  "u8 \<Rightarrow> u16 \<Rightarrow> u16 \<Rightarrow> u8 \<Rightarrow> u8 \<Rightarrow> xboxone_device \<Rightarrow> xboxone_device option" where
  "uni_hid_parser_xboxone_play_dual_rumble status start_delay_ms duration_ms weak strong =
     xboxone_play_quad_rumble status start_delay_ms duration_ms 0 0 weak strong"

text \<open>
  The timer callbacks; BTstack has removed the timer before it calls them. None is also the access to
  the instance of a device that is NULL.
\<close>

definition on_xboxone_set_rumble_on :: "u8 \<Rightarrow> xboxone_device \<Rightarrow> xboxone_device option" where
  "on_xboxone_set_rumble_on status d = (if \<not> xb_delayed_ctx d then None
     else xboxone_play_quad_rumble_now status
       (xb_rumble_duration_ms d) (xb_rumble_trigger_left d) (xb_rumble_trigger_right d)
       (xb_rumble_weak_magnitude d) (xb_rumble_strong_magnitude d) d)"

definition on_xboxone_set_rumble_off :: "u8 \<Rightarrow> xboxone_device \<Rightarrow> xboxone_device option" where
  "on_xboxone_set_rumble_off status d = (if \<not> xb_duration_ctx d then None else xboxone_stop_rumble_now status d)"

section \<open>Input reports\<close>

lemma on_ctl_sat [simp]:
  "framed a \<Longrightarrow> sat xb_ctl frame (on_ctl a)"
  "ranged a \<Longrightarrow> sat xb_ctl keeps_range (on_ctl a)"
  unfolding on_ctl_def by (rule sat_lift; simp add: framed_def ranged_def keeps_range_def)+

lemma on_ctl_total [simp]: "total a \<Longrightarrow> never_traps (on_ctl a)"
  unfolding on_ctl_def by (rule lift_never_traps)

lemma set_version_sat [simp]:
  "sat xb_ctl frame (set_version v)" "sat xb_ctl keeps_range (set_version v)"
  by (auto simp: sat_def set_version_def keeps_range_def)

lemma record_sat [simp]:
  "sat xb_ctl frame (parse_usage_record v)" "sat xb_ctl keeps_range (parse_usage_record v)"
  by (auto simp: sat_def parse_usage_record_def Let_def on_ctl_def lift_action_def press_misc_def
      upd_gp_def frame_def keeps_range_def in_range_def)

lemma record_total [simp]: "never_traps (parse_usage_record v)" "never_traps (set_version w)"
  by (simp_all add: never_traps_def set_version_def parse_usage_record_def Let_def on_ctl_def lift_action_def press_misc_def)

lemma store_trigger_framed [simp]:
  "framed (store_trigger put_throttle v m)" "framed (store_trigger put_brake v m)"
  by (auto simp: framed_def frame_def store_trigger_def upd_gp_def put_defs Let_def)

lemma store_trigger_total [simp]: "v \<noteq> None \<Longrightarrow> total (store_trigger f v m)"
  by (auto simp: total_def store_trigger_def)

lemma store_trigger_ranged [simp]:
  assumes "field_ok g v" "logical_minimum g = 0"
  shows "ranged (store_trigger put_throttle (pedal g v) m)" "ranged (store_trigger put_brake (pedal g v) m)"
  using process_pedal_eq [OF assms]
  by (auto simp: ranged_def in_range_def store_trigger_def upd_gp_def put_defs Let_def)

definition xbox_good :: "field \<Rightarrow> bool" where
  "xbox_good f = (case f of (g, page, usage, value) \<Rightarrow> field_ok g value \<and> logical_minimum g = 0)"

lemma xbox_frame:
  "sat xb_ctl frame (parse_usage_firmware_v3_1 g page usage value)"
  "sat xb_ctl frame (parse_usage_firmware_v4_v5 g page usage value)"
  unfolding parse_usage_firmware_v3_1_def parse_usage_firmware_v4_v5_def by simp_all

lemma xbox_total:
  assumes "field_range g \<noteq> 0"
  shows "never_traps (parse_usage_firmware_v3_1 g page usage value)"
    "never_traps (parse_usage_firmware_v4_v5 g page usage value)"
  unfolding parse_usage_firmware_v3_1_def parse_usage_firmware_v4_v5_def
  using assms by (simp_all add: axis_total pedal_total)

lemma xbox_range:
  assumes "xbox_good (g, page, usage, value)"
  shows "sat xb_ctl keeps_range (parse_usage_firmware_v3_1 g page usage value)"
    "sat xb_ctl keeps_range (parse_usage_firmware_v4_v5 g page usage value)"
  unfolding parse_usage_firmware_v3_1_def parse_usage_firmware_v4_v5_def
  using assms by (simp_all add: xbox_good_def)

interpretation xbox: ranged_usage_parser
  uni_hid_parser_xboxone_init_report uni_hid_parser_xboxone_parse_usage xb_ctl xbox_good
proof (unfold_locales, goal_cases)
  case (1 d)
  then show ?case by (simp add: uni_hid_parser_xboxone_init_report_def)
next
  case (2 g page usage v d d')
  then show ?case
    using xbox_frame [of g page usage v]
    by (auto simp: uni_hid_parser_xboxone_parse_usage_def dest: satD split: if_splits)
next
  case (3 g page usage v d)
  then show ?case
    by (simp add: uni_hid_parser_xboxone_parse_usage_def never_trapsD [OF xbox_total(1)]
        never_trapsD [OF xbox_total(2)] del: not_None_eq)
next
  case (4 g page usage v d d')
  then show ?case
    using xbox_range [OF 4(1)]
    by (auto simp: uni_hid_parser_xboxone_parse_usage_def keeps_range_def dest: satD split: if_splits)
qed

section \<open>The rumble state machine\<close>

datatype xb_event =
    XB_Play u8 u16 u16 u8 u8 u8 u8
  | XB_Delayed_Fires u8
  | XB_Duration_Fires u8
  | XB_Field hid_globals u16 u16 int

fun xb_step :: "xb_event \<Rightarrow> xboxone_device \<Rightarrow> xboxone_device option" where
  "xb_step (XB_Play status start_delay duration lt rt weak strong) d =
     xboxone_play_quad_rumble status start_delay duration lt rt weak strong d"
| "xb_step (XB_Delayed_Fires status) d =
     on_xboxone_set_rumble_on status (d\<lparr>xb_timer_delayed_start := None\<rparr>)"
| "xb_step (XB_Duration_Fires status) d =
     on_xboxone_set_rumble_off status (d\<lparr>xb_timer_duration := None\<rparr>)"
| "xb_step (XB_Field g page usage value) d = uni_hid_parser_xboxone_parse_usage g page usage value d"

text \<open>
  A timer fires only while it is registered; a field has a non-empty range. Until a first rumble has
  started, which sets the context of the duration timer, no stop is deferred: the retry would not set it.
\<close>

definition stop_safe :: "u8 \<Rightarrow> xboxone_device \<Rightarrow> bool" where
  "stop_safe status d \<longleftrightarrow> xb_duration_ctx d \<or> xb_version d \<noteq> XBOXONE_FIRMWARE_V5 \<or> status \<noteq> ERROR_CODE_COMMAND_DISALLOWED"

fun xb_ok :: "xb_event \<Rightarrow> xboxone_device \<Rightarrow> bool" where
  "xb_ok (XB_Play status start_delay duration lt rt weak strong) d \<longleftrightarrow>
     (start_delay = 0 \<and> duration = 0 \<longrightarrow> stop_safe status d)"
| "xb_ok (XB_Delayed_Fires status) d \<longleftrightarrow> xb_timer_delayed_start d \<noteq> None \<and>
     (xb_rumble_duration_ms d = 0 \<longrightarrow> stop_safe status d)"
| "xb_ok (XB_Duration_Fires status) d \<longleftrightarrow> xb_timer_duration d \<noteq> None"
| "xb_ok (XB_Field g page usage value) d \<longleftrightarrow> field_range g \<noteq> 0"

text \<open>The same, when a GATT write is only ever accepted or deferred.\<close>

fun xb_status :: "xb_event \<Rightarrow> u8" where
  "xb_status (XB_Play status start_delay duration lt rt weak strong) = status"
| "xb_status (XB_Delayed_Fires status) = status"
| "xb_status (XB_Duration_Fires status) = status"
| "xb_status (XB_Field g page usage value) = ERROR_CODE_SUCCESS"

definition deferred_only :: "u8 \<Rightarrow> xboxone_device \<Rightarrow> bool" where
  "deferred_only status d \<longleftrightarrow> xb_version d = XBOXONE_FIRMWARE_V5 \<longrightarrow>
     status = ERROR_CODE_SUCCESS \<or> status = ERROR_CODE_COMMAND_DISALLOWED"


definition xb_inv :: "xboxone_device \<Rightarrow> bool" where
  "xb_inv d \<longleftrightarrow>
     (xb_timer_delayed_start d \<noteq> None \<longrightarrow> xb_rumble_state d = XBOXONE_STATE_RUMBLE_DELAYED \<and> xb_delayed_ctx d) \<and>
     (xb_timer_duration d \<noteq> None \<longrightarrow> xb_rumble_state d = XBOXONE_STATE_RUMBLE_IN_PROGRESS \<and> xb_duration_ctx d)"

definition motors_off :: "xboxone_device \<Rightarrow> bool" where
  "motors_off d \<longleftrightarrow> xb_sent d = [] \<or> last (xb_sent d) = ff_off \<or> last (xb_sent d) = drop 2 ff_off"

definition xb_strong_inv :: "xboxone_device \<Rightarrow> bool" where
  "xb_strong_inv d \<longleftrightarrow>
     (xb_timer_delayed_start d \<noteq> None \<longleftrightarrow> xb_rumble_state d = XBOXONE_STATE_RUMBLE_DELAYED) \<and>
     (xb_timer_duration d \<noteq> None \<longleftrightarrow> xb_rumble_state d = XBOXONE_STATE_RUMBLE_IN_PROGRESS) \<and>
     (xb_timer_delayed_start d \<noteq> None \<longrightarrow> xb_delayed_ctx d) \<and> (xb_timer_duration d \<noteq> None \<longrightarrow> xb_duration_ctx d) \<and>
     (xb_rumble_state d = XBOXONE_STATE_RUMBLE_DISABLED \<longrightarrow> motors_off d)"

lemmas rumble_defs = xboxone_play_quad_rumble_def xboxone_play_quad_rumble_now_def
  xboxone_stop_rumble_now_def on_xboxone_set_rumble_on_def on_xboxone_set_rumble_off_def
  start_delayed_def start_duration_def start_timer_def remove_rumble_timer_def xb_send_def Let_def

text \<open>A field leaves the rumble part of the device alone.\<close>

definition same_rumble :: "xboxone_device \<Rightarrow> xboxone_device \<Rightarrow> bool" where
  "same_rumble d d' \<longleftrightarrow> xb_timer_delayed_start d' = xb_timer_delayed_start d \<and>
     xb_timer_duration d' = xb_timer_duration d \<and> xb_rumble_state d' = xb_rumble_state d \<and>
     xb_duration_ctx d' = xb_duration_ctx d \<and> xb_delayed_ctx d' = xb_delayed_ctx d \<and>
     xb_sent d' = xb_sent d"

definition rumble_frame :: "(xboxone_device \<Rightarrow> xboxone_device option) \<Rightarrow> bool" where
  "rumble_frame x \<longleftrightarrow> (\<forall>d d'. x d = Some d' \<longrightarrow> same_rumble d d')"

lemma rumble_frame_basic [simp]:
  "rumble_frame (on_ctl a)" "rumble_frame (set_version v)" "rumble_frame (parse_usage_record w)"
  by (auto simp: rumble_frame_def same_rumble_def on_ctl_def lift_action_def set_version_def
      parse_usage_record_def Let_def)

lemma parse_usage_rumble:
  "rumble_frame (parse_usage_firmware_v3_1 g page usage value)"
  "rumble_frame (parse_usage_firmware_v4_v5 g page usage value)"
  unfolding parse_usage_firmware_v3_1_def parse_usage_firmware_v4_v5_def by simp_all

lemma field_same_rumble:
  "uni_hid_parser_xboxone_parse_usage g page usage value d = Some d' \<Longrightarrow> same_rumble d d'"
  using parse_usage_rumble [of g page usage "value"]
  by (auto simp: uni_hid_parser_xboxone_parse_usage_def rumble_frame_def split: if_splits)

lemma xb_field_step:
  assumes "field_range g \<noteq> 0"
  shows "\<exists>d'. uni_hid_parser_xboxone_parse_usage g page usage value d = Some d' \<and> same_rumble d d'"
  using xbox.total_law [OF assms, of page usage "value" d] field_same_rumble by fastforce

definition disarmed :: "xboxone_device \<Rightarrow> bool" where
  "disarmed d \<longleftrightarrow> xb_timer_delayed_start d = None \<and> xb_timer_duration d = None"

lemma xb_stop_step:
  assumes "disarmed d" "xb_rumble_state d \<noteq> XBOXONE_STATE_RUMBLE_DISABLED" "stop_safe status d"
  shows "\<exists>d'. xboxone_stop_rumble_now status d = Some d' \<and> xb_inv d' \<and>
    (deferred_only status d \<longrightarrow> xb_strong_inv d')"
  using assms
  by (auto simp: rumble_defs xb_inv_def xb_strong_inv_def motors_off_def disarmed_def
      deferred_only_def stop_safe_def)

lemma xb_play_now_step:
  assumes "disarmed d" "duration = 0 \<longrightarrow> stop_safe status d"
  shows "\<exists>d'. xboxone_play_quad_rumble_now status duration lt rt weak strong d = Some d' \<and> xb_inv d' \<and>
    (deferred_only status d \<and> (xb_rumble_state d = XBOXONE_STATE_RUMBLE_DISABLED \<longrightarrow> motors_off d) \<longrightarrow>
       xb_strong_inv d')"
proof (cases "duration = 0")
  case True
  then show ?thesis
    using assms xb_stop_step [OF assms(1), of status]
    by (cases "xb_rumble_state d = XBOXONE_STATE_RUMBLE_DISABLED")
      (auto simp: xboxone_play_quad_rumble_now_def xb_inv_def xb_strong_inv_def disarmed_def)
next
  case False
  with assms show ?thesis
    by (auto simp: rumble_defs xb_inv_def xb_strong_inv_def disarmed_def deferred_only_def)
qed

lemma remove_rumble_timer_disarms:
  "xb_inv d \<Longrightarrow> disarmed (remove_rumble_timer d)"
  by (cases "xb_rumble_state d") (auto simp: remove_rumble_timer_def xb_inv_def disarmed_def)

lemma remove_rumble_timer_same [simp]:
  "xb_rumble_state (remove_rumble_timer d) = xb_rumble_state d"
  "xb_version (remove_rumble_timer d) = xb_version d"
  "motors_off (remove_rumble_timer d) = motors_off d"
  "deferred_only status (remove_rumble_timer d) = deferred_only status d"
  "stop_safe status (remove_rumble_timer d) = stop_safe status d"
  by (auto simp: remove_rumble_timer_def motors_off_def deferred_only_def stop_safe_def
      split: xboxone_state_rumble.splits)

lemma xb_strong_weak: "xb_strong_inv d \<Longrightarrow> xb_inv d"
  by (auto simp: xb_strong_inv_def xb_inv_def)

text \<open>Both invariants at once: the weak one always, the strong one when writes are only deferred.\<close>

lemma xb_step_both:
  assumes "xb_inv d" "xb_ok e d"
  shows "\<exists>d'. xb_step e d = Some d' \<and> xb_inv d' \<and>
    (deferred_only (xb_status e) d \<and> xb_strong_inv d \<longrightarrow> xb_strong_inv d')"
proof (cases e)
  case (XB_Play status start_delay duration lt rt weak strong)
  note dis = remove_rumble_timer_disarms [OF assms(1)]
  show ?thesis
  proof (cases "start_delay = 0")
    case True
    then show ?thesis
      using xb_play_now_step [OF dis, of duration status lt rt weak strong] XB_Play assms(2)
      by (auto simp: xboxone_play_quad_rumble_def Let_def xb_strong_inv_def)
  next
    case False
    then show ?thesis
      using dis XB_Play
      by (auto simp: xboxone_play_quad_rumble_def Let_def xb_strong_inv_def xb_inv_def disarmed_def
          start_delayed_def start_timer_def)
  qed
next
  case (XB_Delayed_Fires status)
  let ?d = "d\<lparr>xb_timer_delayed_start := None\<rparr>"
  have "disarmed ?d" "xb_rumble_state ?d = XBOXONE_STATE_RUMBLE_DELAYED" "xb_delayed_ctx ?d"
    "xb_rumble_duration_ms d = 0 \<longrightarrow> stop_safe status ?d"
    using assms XB_Delayed_Fires by (auto simp: xb_inv_def disarmed_def stop_safe_def)
  then show ?thesis
    using xb_play_now_step [of ?d "xb_rumble_duration_ms d" status "xb_rumble_trigger_left d"
        "xb_rumble_trigger_right d" "xb_rumble_weak_magnitude d" "xb_rumble_strong_magnitude d"]
      XB_Delayed_Fires
    by (auto simp: on_xboxone_set_rumble_on_def deferred_only_def)
next
  case (XB_Duration_Fires status)
  let ?d = "d\<lparr>xb_timer_duration := None\<rparr>"
  have "disarmed ?d" "xb_rumble_state ?d = XBOXONE_STATE_RUMBLE_IN_PROGRESS" "xb_duration_ctx ?d" "stop_safe status ?d"
    using assms XB_Duration_Fires by (auto simp: xb_inv_def disarmed_def stop_safe_def)
  then show ?thesis
    using xb_stop_step [of ?d status] XB_Duration_Fires
    by (auto simp: on_xboxone_set_rumble_off_def deferred_only_def)
next
  case (XB_Field g page usage v)
  then show ?thesis
    using xb_field_step [of g page usage v d] assms
    by (auto simp: same_rumble_def xb_inv_def xb_strong_inv_def motors_off_def)
qed

interpretation xb: guarded_machine xb_step xb_ok xb_inv
  by unfold_locales (use xb_step_both in blast)


definition xb_fresh :: xboxone_device where
  "xb_fresh = \<lparr>xb_ctl = controller_zero, xb_version = XBOXONE_FIRMWARE_V3_1,
     xb_timer_duration = None, xb_timer_delayed_start = None, xb_duration_ctx = False, xb_delayed_ctx = False,
     xb_rumble_state = XBOXONE_STATE_RUMBLE_DISABLED, xb_rumble_duration_ms = 0,
     xb_rumble_trigger_left = 0, xb_rumble_trigger_right = 0, xb_rumble_weak_magnitude = 0,
     xb_rumble_strong_magnitude = 0, xb_sent = []\<rparr>"

lemma xb_setup_inv: "xb_strong_inv (uni_hid_parser_xboxone_setup le len xb_fresh)"
  by (simp add: uni_hid_parser_xboxone_setup_def xb_fresh_def xb_strong_inv_def motors_off_def)

section \<open>Properties\<close>








text \<open>
  C18: The Xbox rumble driver never traps: whatever the setup decided about the firmware, for every
  sequence of rumble requests, timer expiries and input fields in which only a registered timer
  expires, whatever status the GATT writes return, except that no stop is deferred before a first
  rumble has started, no timer is registered twice, the stop routine is never entered while disabled,
  no callback runs without its device, and each timer is only registered in its state and with its context set.
\<close>

theorem xbox_rumble_never_traps:
  assumes "admissible xb_step xb_ok es (uni_hid_parser_xboxone_setup le len xb_fresh)"
  shows "\<exists>d. run_steps xb_step es (uni_hid_parser_xboxone_setup le len xb_fresh) = Some d \<and>
    \<not> (xb_timer_delayed_start d \<noteq> None \<and> xb_timer_duration d \<noteq> None) \<and>
    (xb_timer_delayed_start d \<noteq> None \<longrightarrow> xb_rumble_state d = XBOXONE_STATE_RUMBLE_DELAYED \<and> xb_delayed_ctx d) \<and>
    (xb_timer_duration d \<noteq> None \<longrightarrow> xb_rumble_state d = XBOXONE_STATE_RUMBLE_IN_PROGRESS \<and> xb_duration_ctx d)"
  using xb.run_law [OF xb_strong_weak [OF xb_setup_inv] assms] by (auto simp: xb_inv_def)

theorem xbox_rumble_never_traps_witness:
  "\<exists>d. run_steps xb_step [XB_Play 0 0 500 0 0 10 20, XB_Play 0x0c 100 0 0 0 0 0, XB_Delayed_Fires 0]
      (uni_hid_parser_xboxone_setup True 0 xb_fresh) = Some d \<and>
    \<not> (xb_timer_delayed_start d \<noteq> None \<and> xb_timer_duration d \<noteq> None)"
  using xbox_rumble_never_traps [of "[XB_Play 0 0 500 0 0 10 20, XB_Play 0x0c 100 0 0 0 0 0,
      XB_Delayed_Fires 0]" True 0]
  by (simp add: uni_hid_parser_xboxone_setup_def xb_fresh_def rumble_defs)



text \<open>
  A failed write breaks that promise: when a GATT write fails for good, the driver of a firmware 5
  controller is left in the state for a running rumble without any timer to end it.
\<close>

theorem xbox_failed_write_strands_rumble:
  "\<exists>d. run_steps xb_step [XB_Play 0 0 500 0 0 10 20, XB_Play 0x1f 0 500 0 0 30 40]
      (uni_hid_parser_xboxone_setup True 0 xb_fresh) = Some d \<and>
    xb_rumble_state d = XBOXONE_STATE_RUMBLE_IN_PROGRESS \<and> disarmed d \<and> \<not> motors_off d"
  by (simp add: uni_hid_parser_xboxone_setup_def xb_fresh_def rumble_defs disarmed_def motors_off_def
      ff_on_def ff_off_def xboxone_ff_report_def)

text \<open>
  A deferred immediate rumble is lost: the retry replays the parameters saved by the last delayed
  request, so on a fresh controller a request for 500 ms whose write is deferred once only ever sends
  the all-zero report.
\<close>

theorem xbox_retry_loses_rumble:
  "\<exists>d. run_steps xb_step [XB_Play ERROR_CODE_COMMAND_DISALLOWED 0 500 0 0 weak strong, XB_Delayed_Fires 0]
      (uni_hid_parser_xboxone_setup True len xb_fresh) = Some d \<and>
    xb_sent d = [drop 2 ff_off] \<and> xb_rumble_state d = XBOXONE_STATE_RUMBLE_DISABLED"
  by (simp add: uni_hid_parser_xboxone_setup_def xb_fresh_def rumble_defs)

text \<open>
  The guard on deferred stops is needed. The retry of a stop arms the duration timer but sets the
  context of the other one, so on a fresh controller a request for 500 ms whose write and whose retry
  are both deferred makes the duration timer expire without a device.
\<close>

theorem xbox_deferred_stop_without_device:
  "\<exists>d. run_steps xb_step [XB_Play ERROR_CODE_COMMAND_DISALLOWED 0 500 0 0 weak strong,
        XB_Delayed_Fires ERROR_CODE_COMMAND_DISALLOWED]
      (uni_hid_parser_xboxone_setup True len xb_fresh) = Some d \<and>
    xb_timer_duration d \<noteq> None \<and> xb_step (XB_Duration_Fires status) d = None"
  by (simp add: uni_hid_parser_xboxone_setup_def xb_fresh_def rumble_defs)

end
