(* ===== verification/Dual_Rumble.thy ===== *)
theory Dual_Rumble
  imports Rumble
begin

text \<open>
  The rumble state machine that the drivers with two motors repeat: a request replaces the running
  one, starts at once or after a delay, and a second timer ends it. The drivers differ in the reports
  they send and in the state their stop routine insists on; these are the parameters of
  \<open>rumble_driver\<close>, which proves once that a run never traps and that rumble always ends.
\<close>

section \<open>The shared code\<close>

datatype rumble_state = RUMBLE_DISABLED | RUMBLE_DELAYED | RUMBLE_IN_PROGRESS

record rumble =
  rb_timer_duration :: timer
  rb_timer_delayed_start :: timer
  rb_state :: rumble_state
  rb_weak_magnitude :: u16
  rb_strong_magnitude :: u16
  rb_duration_ms :: u16

definition rumble_zero :: rumble where
  "rumble_zero = \<lparr>rb_timer_duration = None, rb_timer_delayed_start = None,
     rb_state = RUMBLE_DISABLED, rb_weak_magnitude = 0, rb_strong_magnitude = 0, rb_duration_ms = 0\<rparr>"

definition rumble_remove :: "rumble \<Rightarrow> rumble" where
  "rumble_remove r = (case rb_state r of
       RUMBLE_DELAYED \<Rightarrow> r\<lparr>rb_timer_delayed_start := None\<rparr>
     | RUMBLE_IN_PROGRESS \<Rightarrow> r\<lparr>rb_timer_duration := None\<rparr>
     | RUMBLE_DISABLED \<Rightarrow> r)"

definition rumble_delay :: "u16 \<Rightarrow> u16 \<Rightarrow> u8 \<Rightarrow> u8 \<Rightarrow> rumble \<Rightarrow> rumble option" where
  "rumble_delay start_delay_ms duration_ms weak strong r =
     map_option (\<lambda>t. r\<lparr>rb_timer_delayed_start := t, rb_state := RUMBLE_DELAYED,
         rb_duration_ms := duration_ms, rb_strong_magnitude := ucast strong,
         rb_weak_magnitude := ucast weak\<rparr>)
       (start_timer start_delay_ms (rb_timer_delayed_start r))"

definition rumble_arm :: "u16 \<Rightarrow> rumble \<Rightarrow> rumble option" where
  "rumble_arm duration_ms r =
     map_option (\<lambda>t. r\<lparr>rb_timer_duration := t, rb_state := RUMBLE_IN_PROGRESS\<rparr>)
       (start_timer duration_ms (rb_timer_duration r))"

definition rumble_play ::
  "('d \<Rightarrow> rumble) \<Rightarrow> (rumble \<Rightarrow> 'd \<Rightarrow> 'd) \<Rightarrow> (u16 \<Rightarrow> u8 \<Rightarrow> u8 \<Rightarrow> 'd \<Rightarrow> 'd option) \<Rightarrow>
     u16 \<Rightarrow> u16 \<Rightarrow> u8 \<Rightarrow> u8 \<Rightarrow> 'd \<Rightarrow> 'd option" where
  "rumble_play rb set_rb play_now start_delay_ms duration_ms weak strong d =
     (let d1 = set_rb (rumble_remove (rb d)) d
      in if start_delay_ms = 0 then play_now duration_ms weak strong d1
         else map_option (\<lambda>r. set_rb r d1)
           (rumble_delay start_delay_ms duration_ms weak strong (rb d1)))"

definition rumble_on ::
  "('d \<Rightarrow> rumble) \<Rightarrow> (u16 \<Rightarrow> u8 \<Rightarrow> u8 \<Rightarrow> 'd \<Rightarrow> 'd option) \<Rightarrow> 'd \<Rightarrow> 'd option" where
  "rumble_on rb play_now d = play_now (rb_duration_ms (rb d)) (ucast (rb_weak_magnitude (rb d)))
     (ucast (rb_strong_magnitude (rb d))) d"

section \<open>Events\<close>

datatype rumble_event = Rumble_Play u16 u16 u8 u8 | Delayed_Fires | Duration_Fires

fun rumble_step ::
  "('d \<Rightarrow> rumble) \<Rightarrow> (rumble \<Rightarrow> 'd \<Rightarrow> 'd) \<Rightarrow> (u16 \<Rightarrow> u8 \<Rightarrow> u8 \<Rightarrow> 'd \<Rightarrow> 'd option) \<Rightarrow>
     ('d \<Rightarrow> 'd option) \<Rightarrow> rumble_event \<Rightarrow> 'd \<Rightarrow> 'd option" where
  "rumble_step rb set_rb play_now stop_now (Rumble_Play start_delay duration weak strong) d =
     rumble_play rb set_rb play_now start_delay duration weak strong d"
| "rumble_step rb set_rb play_now stop_now Delayed_Fires d =
     rumble_on rb play_now (set_rb ((rb d)\<lparr>rb_timer_delayed_start := None\<rparr>) d)"
| "rumble_step rb set_rb play_now stop_now Duration_Fires d =
     stop_now (set_rb ((rb d)\<lparr>rb_timer_duration := None\<rparr>) d)"

text \<open>
  What the environment may send: a timer only fires while registered, and where the stop routine
  refuses to stop a delayed rumble, no request has duration zero.
\<close>

fun rumble_ok :: "bool \<Rightarrow> rumble_event \<Rightarrow> rumble \<Rightarrow> bool" where
  "rumble_ok zero_ok (Rumble_Play start_delay duration weak strong) r = (zero_ok \<or> duration \<noteq> 0)"
| "rumble_ok zero_ok Delayed_Fires r = (rb_timer_delayed_start r \<noteq> None)"
| "rumble_ok zero_ok Duration_Fires r = (rb_timer_duration r \<noteq> None)"

definition rumble_inv :: "bool \<Rightarrow> rumble \<Rightarrow> bool" where
  "rumble_inv zero_ok r \<longleftrightarrow>
     (rb_timer_delayed_start r \<noteq> None \<longleftrightarrow> rb_state r = RUMBLE_DELAYED) \<and>
     (rb_timer_duration r \<noteq> None \<longleftrightarrow> rb_state r = RUMBLE_IN_PROGRESS) \<and>
     (rb_state r = RUMBLE_DELAYED \<longrightarrow> zero_ok \<or> rb_duration_ms r \<noteq> 0)"

definition no_timers :: "rumble \<Rightarrow> bool" where
  "no_timers r \<longleftrightarrow> rb_timer_delayed_start r = None \<and> rb_timer_duration r = None"

lemma rumble_remove_no_timers:
  "rumble_inv z r \<Longrightarrow> no_timers (rumble_remove r)" "rb_state (rumble_remove r) = rb_state r"
  by (cases "rb_state r"; auto simp: rumble_remove_def rumble_inv_def no_timers_def)+

lemma rumble_zero_inv [simp]: "rumble_inv z rumble_zero"
  by (simp add: rumble_inv_def rumble_zero_def)

section \<open>The contract\<close>

locale rumble_driver =
  fixes rb :: "'d \<Rightarrow> rumble"
    and set_rb :: "rumble \<Rightarrow> 'd \<Rightarrow> 'd"
    and play_now :: "u16 \<Rightarrow> u8 \<Rightarrow> u8 \<Rightarrow> 'd \<Rightarrow> 'd option"
    and stop_now :: "'d \<Rightarrow> 'd option"
    and silent :: "'d \<Rightarrow> bool"
    and zero_ok :: bool
  assumes rb_set: "rb (set_rb r d) = r"
    and silent_set: "silent (set_rb r d) = silent d"
    and stop_law: "rb_state (rb d) = RUMBLE_IN_PROGRESS \<or> zero_ok \<and> rb_state (rb d) = RUMBLE_DELAYED \<Longrightarrow>
      \<exists>d'. stop_now d = Some d' \<and> rb d' = (rb d)\<lparr>rb_state := RUMBLE_DISABLED\<rparr> \<and> silent d'"
    and play_zero_law: "play_now 0 weak strong d =
      (if rb_state (rb d) \<noteq> RUMBLE_DISABLED then stop_now d else Some d)"
    and play_law: "duration \<noteq> 0 \<Longrightarrow> rb_timer_duration (rb d) = None \<Longrightarrow>
      \<exists>d'. play_now duration weak strong d = Some d' \<and>
        rb d' = (rb d)\<lparr>rb_timer_duration := Some duration, rb_state := RUMBLE_IN_PROGRESS\<rparr>"
begin

abbreviation step :: "rumble_event \<Rightarrow> 'd \<Rightarrow> 'd option" where
  "step \<equiv> rumble_step rb set_rb play_now stop_now"

definition inv :: "'d \<Rightarrow> bool" where
  "inv d \<longleftrightarrow> rumble_inv zero_ok (rb d) \<and> (rb_state (rb d) = RUMBLE_DISABLED \<longrightarrow> silent d)"

definition ok :: "rumble_event \<Rightarrow> 'd \<Rightarrow> bool" where
  "ok e d \<longleftrightarrow> rumble_ok zero_ok e (rb d)"

lemma stop_step:
  assumes "no_timers (rb d)" "rb_state (rb d) = RUMBLE_IN_PROGRESS \<or> zero_ok \<and> rb_state (rb d) = RUMBLE_DELAYED"
  shows "\<exists>d'. stop_now d = Some d' \<and> inv d' \<and> rb_state (rb d') = RUMBLE_DISABLED"
  using stop_law [OF assms(2)] assms(1) by (auto simp: inv_def rumble_inv_def no_timers_def)

lemma play_now_step:
  assumes "no_timers (rb d)" "rb_state (rb d) = RUMBLE_DISABLED \<Longrightarrow> silent d" "zero_ok \<or> duration \<noteq> 0"
  shows "\<exists>d'. play_now duration weak strong d = Some d' \<and> inv d' \<and>
    rb_state (rb d') \<noteq> RUMBLE_DELAYED"
proof (cases "duration = 0")
  case True
  show ?thesis
  proof (cases "rb_state (rb d) = RUMBLE_DISABLED")
    case disabled: True
    have "silent d" using assms(2) disabled by simp
    with assms(1) disabled True show ?thesis
      unfolding inv_def by (simp add: play_zero_law rumble_inv_def no_timers_def)
  next
    case False
    then have "rb_state (rb d) = RUMBLE_IN_PROGRESS \<or> zero_ok \<and> rb_state (rb d) = RUMBLE_DELAYED"
      using assms(3) True by (cases "rb_state (rb d)") auto
    from stop_step [OF assms(1) this] False True show ?thesis by (auto simp: play_zero_law)
  qed
next
  case False
  with assms(1) play_law [OF False, of d weak strong] show ?thesis
    by (auto simp: inv_def rumble_inv_def no_timers_def)
qed

lemma step_inv:
  assumes "inv d" "ok e d"
  shows "\<exists>d'. step e d = Some d' \<and> inv d'"
proof (cases e)
  case (Rumble_Play start_delay duration weak strong)
  let ?d = "set_rb (rumble_remove (rb d)) d"
  have n: "no_timers (rb ?d)" "rb_state (rb ?d) = RUMBLE_DISABLED \<Longrightarrow> silent ?d"
    using assms(1) rumble_remove_no_timers(1) [of zero_ok "rb d"] rumble_remove_no_timers(2) [of "rb d"]
    by (auto simp: inv_def rb_set silent_set)
  have z: "zero_ok \<or> duration \<noteq> 0" using assms(2) Rumble_Play by (simp add: ok_def)
  show ?thesis
  proof (cases "start_delay = 0")
    case True
    with play_now_step [OF n z, of weak strong] Rumble_Play show ?thesis
      by (auto simp: rumble_play_def)
  next
    case False
    with n(1) z Rumble_Play show ?thesis
      by (auto simp: rumble_play_def rumble_delay_def start_timer_def rb_set no_timers_def
          inv_def rumble_inv_def)
  qed
next
  case Delayed_Fires
  let ?d = "set_rb ((rb d)\<lparr>rb_timer_delayed_start := None\<rparr>) d"
  have d: "rb_state (rb d) = RUMBLE_DELAYED" "no_timers (rb ?d)"
    using assms Delayed_Fires by (auto simp: ok_def inv_def rumble_inv_def rb_set no_timers_def)
  have z: "zero_ok \<or> rb_duration_ms (rb ?d) \<noteq> 0"
    using assms(1) d(1) by (auto simp: inv_def rumble_inv_def rb_set)
  have "rb_state (rb ?d) = RUMBLE_DISABLED \<Longrightarrow> silent ?d" using d(1) by (simp add: rb_set)
  from play_now_step [OF d(2) this z] Delayed_Fires show ?thesis
    by (auto simp: rumble_on_def rb_set)
next
  case Duration_Fires
  let ?d = "set_rb ((rb d)\<lparr>rb_timer_duration := None\<rparr>) d"
  have "rb_state (rb ?d) = RUMBLE_IN_PROGRESS" "no_timers (rb ?d)"
    using assms Duration_Fires by (auto simp: ok_def inv_def rumble_inv_def rb_set no_timers_def)
  with stop_step [of ?d] Duration_Fires show ?thesis by auto
qed

text \<open>The expiry of whichever timer is registered.\<close>

definition fire :: "'d \<Rightarrow> 'd option" where
  "fire d = (if rb_timer_delayed_start (rb d) \<noteq> None then step Delayed_Fires d
     else if rb_timer_duration (rb d) \<noteq> None then step Duration_Fires d else Some d)"

definition at_rest :: "'d \<Rightarrow> bool" where
  "at_rest d \<longleftrightarrow> rb_state (rb d) = RUMBLE_DISABLED \<and> no_timers (rb d) \<and> silent d"

lemma at_rest_fire: "at_rest d \<Longrightarrow> fire d = Some d"
  by (simp add: at_rest_def fire_def no_timers_def)

lemma inv_at_rest: "inv d \<Longrightarrow> rb_state (rb d) = RUMBLE_DISABLED \<Longrightarrow> at_rest d"
  by (auto simp: inv_def rumble_inv_def at_rest_def no_timers_def)

lemma fire_in_progress:
  assumes "inv d" "rb_state (rb d) = RUMBLE_IN_PROGRESS"
  shows "\<exists>d'. fire d = Some d' \<and> at_rest d'"
proof -
  let ?d = "set_rb ((rb d)\<lparr>rb_timer_duration := None\<rparr>) d"
  have "rb_state (rb ?d) = RUMBLE_IN_PROGRESS" "no_timers (rb ?d)"
    and t: "rb_timer_delayed_start (rb d) = None" "rb_timer_duration (rb d) \<noteq> None"
    using assms by (auto simp: inv_def rumble_inv_def rb_set no_timers_def)
  with stop_step [of ?d] obtain d' where "stop_now ?d = Some d'" "inv d'" "rb_state (rb d') = RUMBLE_DISABLED"
    by auto
  with t show ?thesis by (auto simp: fire_def inv_at_rest)
qed

lemma fire_delayed:
  assumes "inv d" "rb_state (rb d) = RUMBLE_DELAYED"
  shows "\<exists>d'. fire d = Some d' \<and> inv d' \<and> rb_state (rb d') \<noteq> RUMBLE_DELAYED"
proof -
  let ?d = "set_rb ((rb d)\<lparr>rb_timer_delayed_start := None\<rparr>) d"
  have n: "no_timers (rb ?d)" "zero_ok \<or> rb_duration_ms (rb ?d) \<noteq> 0"
    and s: "rb_state (rb ?d) = RUMBLE_DISABLED \<Longrightarrow> silent ?d"
    and t: "rb_timer_delayed_start (rb d) \<noteq> None"
    using assms by (auto simp: inv_def rumble_inv_def rb_set no_timers_def)
  from play_now_step [OF n(1) s n(2)] t show ?thesis
    by (auto simp: fire_def rumble_on_def rb_set)
qed

lemma fire_twice:
  assumes "inv d"
  shows "\<exists>d1 d2. fire d = Some d1 \<and> fire d1 = Some d2 \<and> at_rest d2"
proof (cases "rb_state (rb d)")
  case RUMBLE_DISABLED
  with assms show ?thesis using inv_at_rest at_rest_fire by blast
next
  case RUMBLE_IN_PROGRESS
  with assms show ?thesis using fire_in_progress at_rest_fire by blast
next
  case RUMBLE_DELAYED
  then obtain d1 where d1: "fire d = Some d1" "inv d1" "rb_state (rb d1) \<noteq> RUMBLE_DELAYED"
    using fire_delayed [OF assms] by blast
  show ?thesis
  proof (cases "rb_state (rb d1)")
    case RUMBLE_DISABLED
    with d1 show ?thesis using inv_at_rest at_rest_fire by blast
  next
    case RUMBLE_IN_PROGRESS
    with d1 show ?thesis using fire_in_progress by blast
  qed (use d1 in simp)
qed

end

sublocale rumble_driver \<subseteq> machine: guarded_machine "rumble_step rb set_rb play_now stop_now" ok inv
  by unfold_locales (rule step_inv)

end
