(* ===== verification/Parser_Stadia.thy ===== *)
theory Parser_Stadia
  imports Dual_Rumble
begin

text \<open>
  \<^verbatim>\<open>components/bluepad32/parser/uni_hid_parser_stadia.c\<close>: the rumble of the Stadia controller, a
  Bluetooth LE device. Reports are GATT writes, whose status the stack returns: an argument here. A
  write that is refused for the moment is tried again 50 ms later.
\<close>

section \<open>The driver\<close>

record stadia_device =
  st_rumble :: rumble
  st_written :: "u8 list list"

definition STATUS_SUCCESS :: u8 where "STATUS_SUCCESS = 0"
definition STATUS_COMMAND_DISALLOWED :: u8 where "STATUS_COMMAND_DISALLOWED = 0x0c"
definition STADIA_RETRY_MS :: u16 where "STADIA_RETRY_MS = 50"

text \<open>\<open>stadia_ff_report\<close>: two little-endian words; a magnitude fills the upper byte.\<close>

definition stadia_ff_report :: "u8 \<Rightarrow> u8 \<Rightarrow> u8 list" where
  "stadia_ff_report strong weak = [0, strong, 0, weak]"

definition st_set_rumble :: "rumble \<Rightarrow> stadia_device \<Rightarrow> stadia_device" where
  "st_set_rumble r d = d\<lparr>st_rumble := r\<rparr>"

definition st_write :: "u8 \<Rightarrow> u8 list \<Rightarrow> stadia_device \<Rightarrow> stadia_device" where
  "st_write status r d = (if status = STATUS_SUCCESS then d\<lparr>st_written := st_written d @ [r]\<rparr> else d)"

definition st_on_rumble :: "(rumble \<Rightarrow> rumble option) \<Rightarrow> stadia_device \<Rightarrow> stadia_device option" where
  "st_on_rumble f d = map_option (\<lambda>r. st_set_rumble r d) (f (st_rumble d))"

text \<open>The retry timer of a refused start: the parameters saved before stay as they are.\<close>

definition rumble_retry :: "rumble \<Rightarrow> rumble option" where
  "rumble_retry r = map_option (\<lambda>t. r\<lparr>rb_timer_delayed_start := t, rb_state := RUMBLE_DELAYED\<rparr>)
     (start_timer STADIA_RETRY_MS (rb_timer_delayed_start r))"

definition uni_hid_parser_stadia_setup :: "stadia_device \<Rightarrow> stadia_device" where
  "uni_hid_parser_stadia_setup d = d\<lparr>st_rumble := rumble_zero\<rparr>"

definition stadia_stop_rumble_now :: "u8 \<Rightarrow> stadia_device \<Rightarrow> stadia_device option" where
  "stadia_stop_rumble_now status d =
     (if rb_state (st_rumble d) = RUMBLE_DISABLED then None
      else let d1 = st_write status (stadia_ff_report 0 0)
             (st_set_rumble ((st_rumble d)\<lparr>rb_state := RUMBLE_DISABLED\<rparr>) d)
        in if status = STATUS_COMMAND_DISALLOWED then st_on_rumble (rumble_arm STADIA_RETRY_MS) d1
           else Some d1)"

definition stadia_play_dual_rumble_now :: "u8 \<Rightarrow> u16 \<Rightarrow> u8 \<Rightarrow> u8 \<Rightarrow> stadia_device \<Rightarrow> stadia_device option" where
  "stadia_play_dual_rumble_now status duration_ms weak strong d =
     (if duration_ms = 0
      then (if rb_state (st_rumble d) \<noteq> RUMBLE_DISABLED then stadia_stop_rumble_now status d else Some d)
      else let d1 = st_write status (stadia_ff_report strong weak) d
        in if status = STATUS_COMMAND_DISALLOWED then st_on_rumble rumble_retry d1
           else if status \<noteq> STATUS_SUCCESS then Some d1
           else st_on_rumble (rumble_arm duration_ms) d1)"

definition uni_hid_parser_stadia_play_dual_rumble ::
  "u8 \<Rightarrow> u16 \<Rightarrow> u16 \<Rightarrow> u8 \<Rightarrow> u8 \<Rightarrow> stadia_device \<Rightarrow> stadia_device option" where
  "uni_hid_parser_stadia_play_dual_rumble status start_delay_ms duration_ms weak strong d =
     rumble_play st_rumble st_set_rumble (stadia_play_dual_rumble_now status) start_delay_ms duration_ms
       weak strong d"

definition on_stadia_set_rumble_on :: "u8 \<Rightarrow> stadia_device \<Rightarrow> stadia_device option" where
  "on_stadia_set_rumble_on status d = rumble_on st_rumble (stadia_play_dual_rumble_now status) d"

definition on_stadia_set_rumble_off :: "u8 \<Rightarrow> stadia_device \<Rightarrow> stadia_device option" where
  "on_stadia_set_rumble_off status d = stadia_stop_rumble_now status d"

section \<open>Runs\<close>

datatype stadia_event = Stadia_Event u8 rumble_event

fun stadia_step :: "stadia_event \<Rightarrow> stadia_device \<Rightarrow> stadia_device option" where
  "stadia_step (Stadia_Event status e) d = rumble_step st_rumble st_set_rumble
     (stadia_play_dual_rumble_now status) (stadia_stop_rumble_now status) e d"

fun stadia_ok :: "stadia_event \<Rightarrow> stadia_device \<Rightarrow> bool" where
  "stadia_ok (Stadia_Event status e) d = rumble_ok True e (st_rumble d)"

text \<open>The same, when a write is only ever accepted or deferred.\<close>

fun stadia_ok_deferred :: "stadia_event \<Rightarrow> stadia_device \<Rightarrow> bool" where
  "stadia_ok_deferred (Stadia_Event status e) d =
     (rumble_ok True e (st_rumble d) \<and> status \<in> {STATUS_SUCCESS, STATUS_COMMAND_DISALLOWED})"

definition timers_in_state :: "rumble \<Rightarrow> bool" where
  "timers_in_state r \<longleftrightarrow> (rb_timer_delayed_start r \<noteq> None \<longrightarrow> rb_state r = RUMBLE_DELAYED) \<and>
     (rb_timer_duration r \<noteq> None \<longrightarrow> rb_state r = RUMBLE_IN_PROGRESS)"

definition silent_writes :: "u8 list list \<Rightarrow> bool" where
  "silent_writes ws \<longleftrightarrow> ws = [] \<or> last ws = stadia_ff_report 0 0"

definition stadia_strong :: "stadia_device \<Rightarrow> bool" where
  "stadia_strong d \<longleftrightarrow> rumble_inv True (st_rumble d) \<and>
     (rb_state (st_rumble d) = RUMBLE_DISABLED \<longrightarrow> silent_writes (st_written d))"

lemmas stadia_defs = stadia_stop_rumble_now_def stadia_play_dual_rumble_now_def st_on_rumble_def
  st_set_rumble_def st_write_def rumble_arm_def rumble_retry_def start_timer_def Let_def

lemma status_distinct [simp]: "STATUS_SUCCESS \<noteq> STATUS_COMMAND_DISALLOWED"
  "STATUS_COMMAND_DISALLOWED \<noteq> STATUS_SUCCESS"
  by (simp_all add: STATUS_SUCCESS_def STATUS_COMMAND_DISALLOWED_def)

lemma stadia_stop_step:
  assumes "no_timers (st_rumble d)" "rb_state (st_rumble d) \<noteq> RUMBLE_DISABLED"
  shows "\<exists>d'. stadia_stop_rumble_now status d = Some d' \<and> timers_in_state (st_rumble d') \<and>
    (status \<in> {STATUS_SUCCESS, STATUS_COMMAND_DISALLOWED} \<longrightarrow> stadia_strong d') \<and>
    (status = STATUS_SUCCESS \<longrightarrow> rb_state (st_rumble d') = RUMBLE_DISABLED)"
  using assms by (auto simp: stadia_defs no_timers_def timers_in_state_def stadia_strong_def
      rumble_inv_def silent_writes_def)

lemma stadia_play_step:
  assumes "no_timers (st_rumble d)"
  shows "\<exists>d'. stadia_play_dual_rumble_now status duration weak strong d = Some d' \<and>
    timers_in_state (st_rumble d') \<and>
    (status \<in> {STATUS_SUCCESS, STATUS_COMMAND_DISALLOWED} \<and>
      (rb_state (st_rumble d) = RUMBLE_DISABLED \<longrightarrow> silent_writes (st_written d)) \<longrightarrow> stadia_strong d') \<and>
    (status = STATUS_SUCCESS \<longrightarrow> rb_state (st_rumble d') \<noteq> RUMBLE_DELAYED)"
proof (cases "duration = 0")
  case True
  then show ?thesis
    using assms stadia_stop_step [OF assms, of status]
    by (cases "rb_state (st_rumble d) = RUMBLE_DISABLED")
      (auto simp: stadia_play_dual_rumble_now_def timers_in_state_def stadia_strong_def rumble_inv_def
        no_timers_def)
next
  case False
  with assms show ?thesis
    by (auto simp: stadia_defs timers_in_state_def stadia_strong_def rumble_inv_def no_timers_def)
qed

lemma removed_no_timers: "timers_in_state r \<Longrightarrow> no_timers (rumble_remove r)"
  by (cases "rb_state r") (auto simp: timers_in_state_def rumble_remove_def no_timers_def)

lemma strong_timers: "stadia_strong d \<Longrightarrow> timers_in_state (st_rumble d)"
  by (auto simp: stadia_strong_def timers_in_state_def rumble_inv_def)

lemma st_set_simps [simp]:
  "st_rumble (st_set_rumble r d) = r" "st_written (st_set_rumble r d) = st_written d"
  by (simp_all add: st_set_rumble_def)

lemma stadia_step_both:
  assumes "timers_in_state (st_rumble d)" "stadia_ok (Stadia_Event status e) d"
  shows "\<exists>d'. stadia_step (Stadia_Event status e) d = Some d' \<and> timers_in_state (st_rumble d') \<and>
    (status \<in> {STATUS_SUCCESS, STATUS_COMMAND_DISALLOWED} \<and> stadia_strong d \<longrightarrow> stadia_strong d')"
proof (cases e)
  case (Rumble_Play delay duration weak strong)
  let ?d = "st_set_rumble (rumble_remove (st_rumble d)) d"
  have n: "no_timers (st_rumble ?d)" using removed_no_timers [OF assms(1)] by simp
  have "rb_state (st_rumble ?d) = rb_state (st_rumble d)" by (simp add: rumble_remove_no_timers(2))
  with n show ?thesis
    using Rumble_Play stadia_play_step [OF n, of status duration weak strong]
    by (cases "delay = 0")
      (auto simp: rumble_play_def rumble_delay_def start_timer_def Let_def no_timers_def
        timers_in_state_def stadia_strong_def rumble_inv_def)
next
  case Delayed_Fires
  let ?d = "st_set_rumble ((st_rumble d)\<lparr>rb_timer_delayed_start := None\<rparr>) d"
  have "no_timers (st_rumble ?d)" "rb_state (st_rumble ?d) = RUMBLE_DELAYED"
    using assms Delayed_Fires by (auto simp: timers_in_state_def no_timers_def)
  then show ?thesis
    using Delayed_Fires stadia_play_step [of ?d status "rb_duration_ms (st_rumble d)"
        "ucast (rb_weak_magnitude (st_rumble d))" "ucast (rb_strong_magnitude (st_rumble d))"]
    by (auto simp: rumble_on_def)
next
  case Duration_Fires
  let ?d = "st_set_rumble ((st_rumble d)\<lparr>rb_timer_duration := None\<rparr>) d"
  have "no_timers (st_rumble ?d)" "rb_state (st_rumble ?d) = RUMBLE_IN_PROGRESS"
    using assms Duration_Fires by (auto simp: timers_in_state_def no_timers_def)
  then show ?thesis using Duration_Fires stadia_stop_step [of ?d status] by auto
qed

interpretation stadia: guarded_machine stadia_step stadia_ok "\<lambda>d. timers_in_state (st_rumble d)"
proof
  fix d e
  assume "timers_in_state (st_rumble d)" "stadia_ok e d"
  then show "\<exists>d'. stadia_step e d = Some d' \<and> timers_in_state (st_rumble d')"
    using stadia_step_both by (cases e) blast
qed

interpretation stadia_deferred: guarded_machine stadia_step stadia_ok_deferred stadia_strong
proof
  fix d e
  assume a: "stadia_strong d" "stadia_ok_deferred e d"
  show "\<exists>d'. stadia_step e d = Some d' \<and> stadia_strong d'"
  proof (cases e)
    case (Stadia_Event status ev)
    then show ?thesis
      using a stadia_step_both [OF strong_timers [OF a(1)], of status ev] by auto
  qed
qed

definition stadia_fresh :: stadia_device where
  "stadia_fresh = \<lparr>st_rumble = rumble_zero, st_written = []\<rparr>"

definition stadia_fire :: "stadia_device \<Rightarrow> stadia_device option" where
  "stadia_fire d =
     (if rb_timer_delayed_start (st_rumble d) \<noteq> None
      then stadia_step (Stadia_Event STATUS_SUCCESS Delayed_Fires) d
      else if rb_timer_duration (st_rumble d) \<noteq> None
      then stadia_step (Stadia_Event STATUS_SUCCESS Duration_Fires) d
      else Some d)"

definition stadia_rests :: "stadia_device \<Rightarrow> bool" where
  "stadia_rests d \<longleftrightarrow> rb_state (st_rumble d) = RUMBLE_DISABLED \<and> no_timers (st_rumble d) \<and>
     silent_writes (st_written d)"

lemma strong_rests: "stadia_strong d \<Longrightarrow> rb_state (st_rumble d) = RUMBLE_DISABLED \<Longrightarrow> stadia_rests d"
  by (auto simp: stadia_strong_def stadia_rests_def rumble_inv_def no_timers_def)

lemma rests_fire: "stadia_rests d \<Longrightarrow> stadia_fire d = Some d"
  by (simp add: stadia_rests_def stadia_fire_def no_timers_def)

lemma fire_running:
  assumes "stadia_strong d" "rb_state (st_rumble d) = RUMBLE_IN_PROGRESS"
  shows "\<exists>d'. stadia_fire d = Some d' \<and> stadia_rests d'"
proof -
  let ?d = "st_set_rumble ((st_rumble d)\<lparr>rb_timer_duration := None\<rparr>) d"
  have "no_timers (st_rumble ?d)" "rb_state (st_rumble ?d) \<noteq> RUMBLE_DISABLED"
    using assms by (auto simp: stadia_strong_def rumble_inv_def no_timers_def)
  from stadia_stop_step [OF this, of STATUS_SUCCESS] strong_rests assms show ?thesis
    by (auto simp: stadia_fire_def stadia_strong_def rumble_inv_def)
qed

lemma fire_waiting:
  assumes "stadia_strong d" "rb_state (st_rumble d) = RUMBLE_DELAYED"
  shows "\<exists>d'. stadia_fire d = Some d' \<and> stadia_strong d' \<and> rb_state (st_rumble d') \<noteq> RUMBLE_DELAYED"
proof -
  let ?d = "st_set_rumble ((st_rumble d)\<lparr>rb_timer_delayed_start := None\<rparr>) d"
  have "no_timers (st_rumble ?d)" "rb_state (st_rumble ?d) = RUMBLE_DELAYED"
    and "rb_timer_delayed_start (st_rumble d) \<noteq> None"
    using assms by (auto simp: stadia_strong_def rumble_inv_def no_timers_def)
  with stadia_play_step [of ?d STATUS_SUCCESS "rb_duration_ms (st_rumble d)"
      "ucast (rb_weak_magnitude (st_rumble d))" "ucast (rb_strong_magnitude (st_rumble d))"]
  show ?thesis by (auto simp: stadia_fire_def rumble_on_def)
qed

section \<open>Properties\<close>

text \<open>
  The Stadia rumble never trips an assertion and registers no timer twice: after any requests and
  expiries of registered timers, whatever the writes return, each timer is only registered in its state.
\<close>

theorem stadia_never_traps:
  assumes "admissible stadia_step stadia_ok es (uni_hid_parser_stadia_setup stadia_fresh)"
  shows "\<exists>d. run_steps stadia_step es (uni_hid_parser_stadia_setup stadia_fresh) = Some d \<and>
    timers_in_state (st_rumble d)"
  using stadia.run_law [OF _ assms]
  by (simp add: uni_hid_parser_stadia_setup_def timers_in_state_def rumble_zero_def)

text \<open>
  Rumble ends as long as writes are accepted or deferred: after any run, at most two more expiries,
  each with its write accepted, leave the driver disabled without a timer and with both motors off.
\<close>

theorem stadia_rumble_stops:
  assumes "admissible stadia_step stadia_ok_deferred es (uni_hid_parser_stadia_setup stadia_fresh)"
  shows "\<exists>d d1 d2. run_steps stadia_step es (uni_hid_parser_stadia_setup stadia_fresh) = Some d \<and>
    stadia_fire d = Some d1 \<and> stadia_fire d1 = Some d2 \<and> stadia_rests d2"
proof -
  have "stadia_strong (uni_hid_parser_stadia_setup stadia_fresh)"
    by (simp add: uni_hid_parser_stadia_setup_def stadia_fresh_def stadia_strong_def silent_writes_def)
  then obtain d where d: "run_steps stadia_step es (uni_hid_parser_stadia_setup stadia_fresh) = Some d"
    "stadia_strong d"
    using stadia_deferred.run_law [OF _ assms] by blast
  have "\<exists>d1 d2. stadia_fire d = Some d1 \<and> stadia_fire d1 = Some d2 \<and> stadia_rests d2"
  proof (cases "rb_state (st_rumble d)")
    case RUMBLE_DISABLED
    with d(2) show ?thesis using strong_rests rests_fire by blast
  next
    case RUMBLE_IN_PROGRESS
    with d(2) show ?thesis using fire_running rests_fire by blast
  next
    case RUMBLE_DELAYED
    with d(2) obtain d1 where "stadia_fire d = Some d1" "stadia_strong d1"
      "rb_state (st_rumble d1) \<noteq> RUMBLE_DELAYED"
      using fire_waiting by blast
    then show ?thesis
      using strong_rests rests_fire fire_running by (cases "rb_state (st_rumble d1)") blast+
  qed
  with d show ?thesis by blast
qed

text \<open>
  A refused start is retried with the wrong parameters: those of the last delayed request. On a
  fresh controller a rumble of 500 ms whose write is deferred once never happens at all.
\<close>

theorem stadia_retry_loses_rumble:
  "\<exists>d. run_steps stadia_step [Stadia_Event STATUS_COMMAND_DISALLOWED (Rumble_Play 0 500 weak strong),
      Stadia_Event STATUS_SUCCESS Delayed_Fires] (uni_hid_parser_stadia_setup stadia_fresh) = Some d \<and>
    st_written d = [stadia_ff_report 0 0] \<and> rb_state (st_rumble d) = RUMBLE_DISABLED"
  by (simp add: uni_hid_parser_stadia_setup_def stadia_fresh_def rumble_play_def rumble_on_def
      rumble_remove_def rumble_zero_def stadia_defs)

text \<open>
  A write that fails for good strands the motors: the running rumble's timer is gone, none replaces it.
\<close>

theorem stadia_failed_write_strands_rumble:
  assumes "status \<notin> {STATUS_SUCCESS, STATUS_COMMAND_DISALLOWED}" "strong \<noteq> 0"
  shows "\<exists>d. run_steps stadia_step [Stadia_Event STATUS_SUCCESS (Rumble_Play 0 500 weak strong),
      Stadia_Event status (Rumble_Play 0 500 weak' strong')] (uni_hid_parser_stadia_setup stadia_fresh) = Some d \<and>
    no_timers (st_rumble d) \<and> \<not> silent_writes (st_written d)"
  using assms by (simp add: uni_hid_parser_stadia_setup_def stadia_fresh_def rumble_play_def
      rumble_remove_def rumble_zero_def stadia_defs no_timers_def silent_writes_def stadia_ff_report_def)

end
