(* ===== verification/Lenient_Rumble.thy ===== *)
theory Lenient_Rumble
  imports Dual_Rumble
begin

text \<open>
  The rumble of the drivers that insist less than those of \<^verbatim>\<open>Dual_Rumble\<close>: a request of duration zero
  stops a rumble that is in progress and is ignored in any other state. Such a driver never traps; a
  rumble ends by its timer; but a request that delays the start while a rumble is running takes the
  timer of the running one away, so cancelling the delay leaves the motors on. The parameter
  \<open>sounding\<close> is what the last report told the motors.
\<close>

locale lenient_rumble =
  fixes rb :: "'d \<Rightarrow> rumble"
    and set_rb :: "rumble \<Rightarrow> 'd \<Rightarrow> 'd"
    and play_now :: "u16 \<Rightarrow> u8 \<Rightarrow> u8 \<Rightarrow> 'd \<Rightarrow> 'd option"
    and stop_now :: "'d \<Rightarrow> 'd option"
    and sounding :: "'d \<Rightarrow> bool"
  assumes rb_set: "rb (set_rb r d) = r"
    and sounding_set: "sounding (set_rb r d) = sounding d"
    and stop_law: "rb_state (rb d) = RUMBLE_IN_PROGRESS \<Longrightarrow>
      \<exists>d'. stop_now d = Some d' \<and> rb_timer_duration (rb d') = rb_timer_duration (rb d) \<and>
        rb_timer_delayed_start (rb d') = rb_timer_delayed_start (rb d) \<and>
        rb_state (rb d') = RUMBLE_DISABLED \<and> \<not> sounding d'"
    and play_zero_law: "play_now 0 weak strong d =
      (if rb_state (rb d) = RUMBLE_IN_PROGRESS then stop_now d else Some d)"
    and play_law: "duration \<noteq> 0 \<Longrightarrow> rb_timer_duration (rb d) = None \<Longrightarrow>
      \<exists>d'. play_now duration weak strong d = Some d' \<and> rb_timer_duration (rb d') = Some duration \<and>
        rb_timer_delayed_start (rb d') = rb_timer_delayed_start (rb d) \<and>
        rb_state (rb d') = RUMBLE_IN_PROGRESS"
begin

abbreviation step :: "rumble_event \<Rightarrow> 'd \<Rightarrow> 'd option" where
  "step \<equiv> rumble_step rb set_rb play_now stop_now"

definition inv :: "'d \<Rightarrow> bool" where
  "inv d \<longleftrightarrow> (rb_timer_delayed_start (rb d) \<noteq> None \<longrightarrow> rb_state (rb d) = RUMBLE_DELAYED) \<and>
     (rb_timer_duration (rb d) \<noteq> None \<longleftrightarrow> rb_state (rb d) = RUMBLE_IN_PROGRESS) \<and>
     (sounding d \<longrightarrow> rb_state (rb d) \<noteq> RUMBLE_DISABLED)"

definition ok :: "rumble_event \<Rightarrow> 'd \<Rightarrow> bool" where
  "ok e d \<longleftrightarrow> rumble_ok True e (rb d)"

lemma play_now_inv:
  assumes "no_timers (rb d)" "sounding d \<Longrightarrow> rb_state (rb d) \<noteq> RUMBLE_DISABLED"
  shows "\<exists>d'. play_now duration weak strong d = Some d' \<and> inv d'"
proof (cases "duration = 0")
  case True
  show ?thesis
  proof (cases "rb_state (rb d) = RUMBLE_IN_PROGRESS")
    case progress: True
    with True assms stop_law [of d] show ?thesis
      by (auto simp: play_zero_law inv_def no_timers_def)
  next
    case False
    with True assms show ?thesis by (auto simp: play_zero_law inv_def no_timers_def)
  qed
next
  case False
  with assms play_law [OF False, of d weak strong] show ?thesis by (auto simp: inv_def no_timers_def)
qed

lemma removed:
  assumes "inv d"
  shows "no_timers (rumble_remove (rb d))" "rb_state (rumble_remove (rb d)) = rb_state (rb d)"
  using assms by (cases "rb_state (rb d)"; auto simp: inv_def rumble_remove_def no_timers_def)+

lemma step_inv:
  assumes "inv d" "ok e d"
  shows "\<exists>d'. step e d = Some d' \<and> inv d'"
proof (cases e)
  case (Rumble_Play delay duration weak strong)
  let ?d = "set_rb (rumble_remove (rb d)) d"
  have n: "no_timers (rb ?d)" "sounding ?d \<Longrightarrow> rb_state (rb ?d) \<noteq> RUMBLE_DISABLED"
    using removed [OF assms(1)] assms(1) by (auto simp: rb_set sounding_set inv_def)
  show ?thesis
  proof (cases "delay = 0")
    case True
    with play_now_inv [OF n] Rumble_Play show ?thesis by (auto simp: rumble_play_def)
  next
    case False
    with n(1) Rumble_Play show ?thesis
      by (auto simp: rumble_play_def rumble_delay_def start_timer_def rb_set no_timers_def inv_def)
  qed
next
  case Delayed_Fires
  let ?d = "set_rb ((rb d)\<lparr>rb_timer_delayed_start := None\<rparr>) d"
  have n: "no_timers (rb ?d)" "sounding ?d \<Longrightarrow> rb_state (rb ?d) \<noteq> RUMBLE_DISABLED"
    using assms Delayed_Fires by (auto simp: ok_def inv_def rb_set no_timers_def)
  from play_now_inv [OF n] Delayed_Fires show ?thesis by (auto simp: rumble_on_def)
next
  case Duration_Fires
  let ?d = "set_rb ((rb d)\<lparr>rb_timer_duration := None\<rparr>) d"
  have "rb_state (rb ?d) = RUMBLE_IN_PROGRESS" "no_timers (rb ?d)"
    using assms Duration_Fires by (auto simp: ok_def inv_def rb_set no_timers_def)
  with stop_law [of ?d] Duration_Fires show ?thesis by (auto simp: inv_def no_timers_def)
qed

text \<open>A rumble in progress ends with its timer.\<close>

lemma ends:
  assumes "inv d" "rb_state (rb d) = RUMBLE_IN_PROGRESS"
  shows "\<exists>d'. step Duration_Fires d = Some d' \<and> \<not> sounding d' \<and> rb_state (rb d') = RUMBLE_DISABLED \<and>
    no_timers (rb d')"
proof -
  let ?d = "set_rb ((rb d)\<lparr>rb_timer_duration := None\<rparr>) d"
  have "rb_state (rb ?d) = RUMBLE_IN_PROGRESS" "no_timers (rb ?d)"
    using assms by (auto simp: inv_def rb_set no_timers_def)
  with stop_law [of ?d] show ?thesis by (auto simp: no_timers_def)
qed

lemma strands:
  assumes "inv d" "rb_state (rb d) = RUMBLE_IN_PROGRESS" "sounding d" "delay \<noteq> 0"
  shows "\<exists>d'. run_steps step [Rumble_Play delay duration weak strong, Rumble_Play 0 0 w s] d = Some d' \<and>
    sounding d' \<and> no_timers (rb d')"
proof -
  let ?d = "set_rb (rumble_remove (rb d)) d"
  have n: "rb_timer_delayed_start (rb ?d) = None" "rb_timer_duration (rb ?d) = None"
    using removed(1) [OF assms(1)] by (auto simp: rb_set no_timers_def)
  obtain d1 where d1: "step (Rumble_Play delay duration weak strong) d = Some d1" "rb_state (rb d1) = RUMBLE_DELAYED"
      "rb_timer_duration (rb d1) = None" "sounding d1"
    using n assms(3,4)
    by (auto simp: rumble_play_def rumble_delay_def start_timer_def rb_set sounding_set)
  have "step (Rumble_Play 0 0 w s) d1 = Some (set_rb (rumble_remove (rb d1)) d1)"
    using d1(2) by (simp add: rumble_play_def play_zero_law rb_set rumble_remove_def)
  with d1 show ?thesis
    by (auto simp: rb_set sounding_set rumble_remove_def no_timers_def)
qed

end

sublocale lenient_rumble \<subseteq> machine: guarded_machine "rumble_step rb set_rb play_now stop_now" ok inv
  by unfold_locales (rule step_inv)

end
