(* ===== verification/Report_Bytes.thy ===== *)
theory Report_Bytes
  imports Usage_Parser
begin

text \<open>
  Reading the bytes of a report, for the drivers that take reports apart themselves. A report is the
  list of its bytes; reading behind its end is the value None.
\<close>

text \<open>\<open>have_bytes n r x\<close>: the code reads the first \<open>n\<close> bytes of \<open>r\<close>.\<close>

definition have_bytes :: "nat \<Rightarrow> u8 list \<Rightarrow> 'a option \<Rightarrow> 'a option" where
  "have_bytes n r x = (if n \<le> length r then x else None)"

lemma have_bytes_enough [simp]: "n \<le> length r \<Longrightarrow> have_bytes n r x = x"
  by (simp add: have_bytes_def)

text \<open>Bits that the conditions of a list set.\<close>

definition pressed_bits :: "(bool \<times> 'a::len word) list \<Rightarrow> 'a word" where
  "pressed_bits cs = foldl (\<lambda>x (c, m). or_if c m x) 0 cs"

lemma foldl_or_if_bit:
  "bit (foldl (\<lambda>x (c, m). or_if c m x) a cs) n \<longleftrightarrow> bit a n \<or> (\<exists>(c, m) \<in> set cs. c \<and> bit m n)"
proof (induction cs arbitrary: a)
  case Nil
  then show ?case by simp
next
  case (Cons p cs)
  obtain c m where p: "p = (c, m)" by (cases p)
  have "bit (foldl (\<lambda>x (c, m). or_if c m x) a (p # cs)) n \<longleftrightarrow>
      bit (or_if c m a) n \<or> (\<exists>(c, m) \<in> set cs. c \<and> bit m n)"
    by (simp only: foldl_Cons p prod.case Cons.IH)
  also have "\<dots> \<longleftrightarrow> bit a n \<or> (c \<and> bit m n) \<or> (\<exists>(c, m) \<in> set cs. c \<and> bit m n)"
    by (simp only: bit_or_if disj_assoc)
  finally show ?case by (simp only: p list.set bex_simps prod.case)
qed

lemma bit_pressed_bits: "bit (pressed_bits cs) n \<longleftrightarrow> (\<exists>(c, m) \<in> set cs. c \<and> bit m n)"
  by (simp add: pressed_bits_def foldl_or_if_bit)

text \<open>Big-endian pair of bytes.\<close>

definition be16_at :: "u8 list \<Rightarrow> nat \<Rightarrow> int" where
  "be16_at r i = 256 * uint (r ! i) + uint (r ! (i + 1))"

lemma byte_bounds: "0 \<le> uint (b :: u8)" "uint (b :: u8) \<le> 255"
  using uint_range_size [of b] by (simp_all add: word_size)

lemma be16_bounds: "0 \<le> be16_at r i \<and> be16_at r i \<le> 65535"
  using byte_bounds [of "r ! i"] byte_bounds [of "r ! (i + 1)"] by (simp add: be16_at_def)

end
