(* ===== verification/Parser_DS3.thy ===== *)
theory Parser_DS3
  imports Lenient_Rumble Report_Bytes
begin

text \<open>
  \<^verbatim>\<open>components/bluepad32/parser/uni_hid_parser_ds3.c\<close>: the PlayStation 3 controller and its clones.
  Reports go out on the control channel, to a clone on the interrupt channel as well; \<open>d3_sent\<close> lists
  them with their channel.
\<close>

section \<open>State\<close>

datatype ds3_fsm = DS3_FSM_0 | DS3_FSM_REQUIRES_LED_UPDATE | DS3_FSM_LED_UPDATED

datatype ds3_channel = To_Control | To_Interrupt

record ds3_device =
  d3_ctl :: uni_controller
  d3_vendor_id :: u16
  d3_product_id :: u16
  d3_state :: ds3_fsm
  d3_player_leds :: u8
  d3_clone_controller :: bool
  d3_rumble :: rumble
  d3_sent :: "(ds3_channel \<times> u8 list) list"
  d3_ready_calls :: nat

section \<open>Output\<close>

record ds3_output_report =
  o3_motor_right_duration :: u8
  o3_motor_right_enabled :: u8
  o3_motor_left_duration :: u8
  o3_motor_left_force :: u8
  o3_player_leds :: u8

definition ds3_output_zero :: ds3_output_report where
  "ds3_output_zero = \<lparr>o3_motor_right_duration = 0, o3_motor_right_enabled = 0, o3_motor_left_duration = 0,
     o3_motor_left_force = 0, o3_player_leds = 0\<rparr>"

definition ds3_output_bytes :: "ds3_output_report \<Rightarrow> u8 list" where
  "ds3_output_bytes out = [0x52, 0x01, 0, o3_motor_right_duration out, o3_motor_right_enabled out,
     o3_motor_left_duration out, o3_motor_left_force out, 0, 0, 0, 0, o3_player_leds out] @
     concat (replicate 4 [0xff, 0x27, 0x10, 0x00, 0x32]) @ replicate 5 0"

definition ds3_send_output_report :: "ds3_output_report \<Rightarrow> ds3_device \<Rightarrow> ds3_device" where
  "ds3_send_output_report out d =
     (let r = ds3_output_bytes out
      in d\<lparr>d3_sent := d3_sent d @ [(To_Control, r)] @ (if d3_clone_controller d then [(To_Interrupt, r)] else [])\<rparr>)"

definition ds3_update_led :: "u8 \<Rightarrow> ds3_device \<Rightarrow> ds3_device" where
  "ds3_update_led player_leds d = ds3_send_output_report
     (ds3_output_zero\<lparr>o3_player_leds := push_bit 1 player_leds\<rparr>) (d\<lparr>d3_state := DS3_FSM_LED_UPDATED\<rparr>)"

definition ds3_set_rumble :: "rumble \<Rightarrow> ds3_device \<Rightarrow> ds3_device" where
  "ds3_set_rumble r d = d\<lparr>d3_rumble := r\<rparr>"

definition ds3_stop_rumble_now :: "ds3_device \<Rightarrow> ds3_device option" where
  "ds3_stop_rumble_now d =
     (if rb_state (d3_rumble d) \<noteq> RUMBLE_IN_PROGRESS then None
      else Some (ds3_send_output_report (ds3_output_zero\<lparr>o3_player_leds := push_bit 1 (d3_player_leds d)\<rparr>)
        (ds3_set_rumble ((d3_rumble d)\<lparr>rb_state := RUMBLE_DISABLED\<rparr>) d)))"

definition ds3_play_dual_rumble_now :: "u16 \<Rightarrow> u8 \<Rightarrow> u8 \<Rightarrow> ds3_device \<Rightarrow> ds3_device option" where
  "ds3_play_dual_rumble_now duration_ms weak strong d =
     (if duration_ms = 0
      then (if rb_state (d3_rumble d) = RUMBLE_IN_PROGRESS then ds3_stop_rumble_now d else Some d)
      else let d1 = ds3_send_output_report \<lparr>o3_motor_right_duration = 0xff,
             o3_motor_right_enabled = (if weak \<noteq> 0 then 1 else 0), o3_motor_left_duration = 0xff,
             o3_motor_left_force = strong, o3_player_leds = push_bit 1 (d3_player_leds d)\<rparr> d
        in map_option (\<lambda>r. ds3_set_rumble r d1) (rumble_arm duration_ms (d3_rumble d1)))"

definition uni_hid_parser_ds3_play_dual_rumble ::
  "u16 \<Rightarrow> u16 \<Rightarrow> u8 \<Rightarrow> u8 \<Rightarrow> ds3_device \<Rightarrow> ds3_device option" where
  "uni_hid_parser_ds3_play_dual_rumble start_delay_ms duration_ms weak strong d =
     rumble_play d3_rumble ds3_set_rumble ds3_play_dual_rumble_now start_delay_ms duration_ms weak strong d"

definition on_ds3_set_rumble_on :: "ds3_device \<Rightarrow> ds3_device option" where
  "on_ds3_set_rumble_on d = rumble_on d3_rumble ds3_play_dual_rumble_now d"

definition on_ds3_set_rumble_off :: "ds3_device \<Rightarrow> ds3_device option" where
  "on_ds3_set_rumble_off d = ds3_stop_rumble_now d"

text \<open>The lights wait for the first report.\<close>

definition uni_hid_parser_ds3_set_player_leds :: "u8 \<Rightarrow> ds3_device \<Rightarrow> ds3_device" where
  "uni_hid_parser_ds3_set_player_leds leds d =
     (let d1 = d\<lparr>d3_player_leds := leds\<rparr>
      in if d3_state d1 \<noteq> DS3_FSM_LED_UPDATED then d1\<lparr>d3_state := DS3_FSM_REQUIRES_LED_UPDATE\<rparr>
         else ds3_update_led leds d1)"

definition uni_hid_parser_ds3_setup :: "ds3_device \<Rightarrow> ds3_device" where
  "uni_hid_parser_ds3_setup d = d\<lparr>d3_sent := d3_sent d @ [(To_Control, [0x53, 0xf4, 0x42, 0x03, 0x00, 0x00])],
     d3_ready_calls := Suc (d3_ready_calls d)\<rparr>"

definition ds3_known_name :: "string \<Rightarrow> bool" where
  "ds3_known_name name \<longleftrightarrow> name = ''Navigation Controller'' \<or> take 15 name = ''PLAYSTATION(R)3''"

definition uni_hid_parser_ds3_does_name_match :: "string \<Rightarrow> ds3_device \<Rightarrow> bool \<times> ds3_device" where
  "uni_hid_parser_ds3_does_name_match name d =
     (if \<not> ds3_known_name name then (False, d)
      else let clone = (name \<noteq> ''Navigation Controller'' \<and> name \<noteq> ''PLAYSTATION(R)3 Controller'')
        in (True, d\<lparr>d3_vendor_id := 0x054c, d3_product_id := 0x0268,
          d3_clone_controller := (if clone then True else d3_clone_controller d)\<rparr>))"

section \<open>Input\<close>

definition uni_hid_parser_ds3_init_report :: "ds3_device \<Rightarrow> ds3_device" where
  "uni_hid_parser_ds3_init_report d = d\<lparr>d3_ctl := controller_zero\<lparr>klass := CLASS_GAMEPAD\<rparr>\<rparr>"

definition ds3_axis :: "u8 \<Rightarrow> int" where
  "ds3_axis b = (uint b - 127) * 4"

definition ds3_battery :: "u8 \<Rightarrow> u8 \<Rightarrow> u8" where
  "ds3_battery status old = (if status = 1 then 0 else if status = 2 then 64 else if status = 3 then 128
     else if status = 4 then 192 else if status = 5 \<or> status = 0xee then 255 else old)"

definition ds3_gamepad :: "u8 list \<Rightarrow> uni_gamepad \<Rightarrow> uni_gamepad" where
  "ds3_gamepad r g = (let b0 = r ! 2; b1 = r ! 3; b2 = r ! 4 in g\<lparr>
     axis_x := ds3_axis (r ! 6), axis_y := ds3_axis (r ! 7), axis_rx := ds3_axis (r ! 8), axis_ry := ds3_axis (r ! 9),
     brake := uint (r ! 18) * 4, throttle := uint (r ! 19) * 4,
     dpad := dpad g OR pressed_bits [(has_bits b0 0x10, DPAD_UP), (has_bits b0 0x20, DPAD_RIGHT),
       (has_bits b0 0x40, DPAD_DOWN), (has_bits b0 0x80, DPAD_LEFT)],
     buttons := buttons g OR pressed_bits [(has_bits b0 0x02, BUTTON_THUMB_L), (has_bits b0 0x04, BUTTON_THUMB_R),
       (has_bits b1 0x01, BUTTON_TRIGGER_L), (has_bits b1 0x02, BUTTON_TRIGGER_R),
       (has_bits b1 0x04, BUTTON_SHOULDER_L), (has_bits b1 0x08, BUTTON_SHOULDER_R),
       (has_bits b1 0x10, BUTTON_Y), (has_bits b1 0x20, BUTTON_B), (has_bits b1 0x40, BUTTON_A),
       (has_bits b1 0x80, BUTTON_X)],
     misc_buttons := misc_buttons g OR pressed_bits [(has_bits b0 0x01, MISC_BUTTON_SELECT),
       (has_bits b0 0x08, MISC_BUTTON_START), (has_bits b2 0x01, MISC_BUTTON_SYSTEM)]\<rparr>)"

text \<open>The battery is byte 30; a report of exactly 30 bytes passes the check of its length.\<close>

definition uni_hid_parser_ds3_parse_input_report :: "u8 list \<Rightarrow> ds3_device \<Rightarrow> ds3_device option" where
  "uni_hid_parser_ds3_parse_input_report r d =
     (let d1 = (if d3_state d = DS3_FSM_REQUIRES_LED_UPDATE then ds3_update_led (d3_player_leds d) d else d)
      in if length r < 30 then Some d1
         else if r ! 0 \<noteq> 0x01 then Some d1
         else have_bytes 31 r (Some (d1\<lparr>d3_ctl := (d3_ctl d1)\<lparr>gamepad := ds3_gamepad r (gamepad (d3_ctl d1)),
           battery := ds3_battery (r ! 30) (battery (d3_ctl d1))\<rparr>\<rparr>)))"

section \<open>Runs\<close>

datatype ds3_event = DS3_Report "u8 list" | DS3_Leds u8 | DS3_Rumble rumble_event

fun ds3_step :: "ds3_event \<Rightarrow> ds3_device \<Rightarrow> ds3_device option" where
  "ds3_step (DS3_Report r) d = uni_hid_parser_ds3_parse_input_report r (uni_hid_parser_ds3_init_report d)"
| "ds3_step (DS3_Leds leds) d = Some (uni_hid_parser_ds3_set_player_leds leds d)"
| "ds3_step (DS3_Rumble e) d =
     rumble_step d3_rumble ds3_set_rumble ds3_play_dual_rumble_now ds3_stop_rumble_now e d"

section \<open>Rumble\<close>

text \<open>What the last report with motor settings, the number 0x01, told the motors.\<close>

definition motors_on :: "u8 list \<Rightarrow> bool" where
  "motors_on r \<longleftrightarrow> r ! 4 \<noteq> 0 \<or> r ! 6 \<noteq> 0"

definition ds3_sounding :: "ds3_device \<Rightarrow> bool" where
  "ds3_sounding d =
     (let rs = filter (\<lambda>r. r ! 1 = 0x01) (map snd (d3_sent d)) in rs \<noteq> [] \<and> motors_on (last rs))"

lemma ds3_send_frame [simp]:
  "d3_rumble (ds3_send_output_report out d) = d3_rumble d" "d3_state (ds3_send_output_report out d) = d3_state d"
  "d3_ctl (ds3_send_output_report out d) = d3_ctl d"
  by (simp_all add: ds3_send_output_report_def Let_def)

lemma ds3_set_frame [simp]:
  "d3_rumble (ds3_set_rumble r d) = r" "ds3_sounding (ds3_set_rumble r d) = ds3_sounding d"
  by (simp_all add: ds3_set_rumble_def ds3_sounding_def)

lemma ds3_sounding_send:
  "ds3_sounding (ds3_send_output_report out d) \<longleftrightarrow> o3_motor_right_enabled out \<noteq> 0 \<or> o3_motor_left_force out \<noteq> 0"
  by (simp add: ds3_sounding_def ds3_send_output_report_def ds3_output_bytes_def motors_on_def Let_def)

lemma ds3_sounding_frame: "d3_sent d' = d3_sent d \<Longrightarrow> ds3_sounding d' = ds3_sounding d"
  by (simp add: ds3_sounding_def)

interpretation ds3: lenient_rumble d3_rumble ds3_set_rumble ds3_play_dual_rumble_now ds3_stop_rumble_now ds3_sounding
  by unfold_locales (auto simp: ds3_stop_rumble_now_def ds3_play_dual_rumble_now_def rumble_arm_def
      start_timer_def Let_def ds3_sounding_send ds3_output_zero_def)

lemma ds3_update_led_inv: "ds3.inv d \<Longrightarrow> ds3.inv (ds3_update_led leds d)"
  by (simp add: ds3.inv_def ds3_update_led_def ds3_sounding_send ds3_output_zero_def)

fun ds3_ok :: "ds3_event \<Rightarrow> ds3_device \<Rightarrow> bool" where
  "ds3_ok (DS3_Report r) d = (length r \<noteq> 30)"
| "ds3_ok (DS3_Leds leds) d = True"
| "ds3_ok (DS3_Rumble e) d = rumble_ok True e (d3_rumble d)"

lemma ds3_inv_same:
  "d3_rumble d' = d3_rumble d \<Longrightarrow> d3_sent d' = d3_sent d \<Longrightarrow> ds3.inv d \<Longrightarrow> ds3.inv d'"
  by (simp add: ds3.inv_def ds3_sounding_frame [of d' d])

lemma ds3_report_step:
  assumes "ds3.inv d" "length r \<noteq> 30"
  shows "\<exists>d'. uni_hid_parser_ds3_parse_input_report r d = Some d' \<and> ds3.inv d'"
proof -
  define d1 where "d1 = (if d3_state d = DS3_FSM_REQUIRES_LED_UPDATE then ds3_update_led (d3_player_leds d) d else d)"
  have "ds3.inv d1" using assms(1) ds3_update_led_inv by (simp add: d1_def)
  moreover from this have "ds3.inv (d1\<lparr>d3_ctl := c\<rparr>)" for c by (rule ds3_inv_same [rotated 2]) simp_all
  ultimately show ?thesis using assms(2)
    by (auto simp: uni_hid_parser_ds3_parse_input_report_def Let_def d1_def [symmetric] have_bytes_def)
qed

interpretation ds3_run: guarded_machine ds3_step ds3_ok ds3.inv
proof
  fix d e
  assume a: "ds3.inv d" "ds3_ok e d"
  show "\<exists>d'. ds3_step e d = Some d' \<and> ds3.inv d'"
  proof (cases e)
    case (DS3_Report r)
    have "ds3.inv (uni_hid_parser_ds3_init_report d)"
      by (rule ds3_inv_same [OF _ _ a(1)]) (simp_all add: uni_hid_parser_ds3_init_report_def)
    with ds3_report_step a(2) DS3_Report show ?thesis by simp
  next
    case (DS3_Leds leds)
    have "ds3.inv (d\<lparr>d3_player_leds := leds\<rparr>)" "ds3.inv (d\<lparr>d3_player_leds := leds, d3_state := q\<rparr>)" for q
      by (rule ds3_inv_same [OF _ _ a(1)], simp_all)+
    with DS3_Leds show ?thesis
      by (auto simp: uni_hid_parser_ds3_set_player_leds_def Let_def intro: ds3_update_led_inv)
  next
    case (DS3_Rumble re)
    with a ds3.step_inv [of d re] show ?thesis by (simp add: ds3.ok_def)
  qed
qed

definition ds3_fresh :: ds3_device where
  "ds3_fresh = \<lparr>d3_ctl = controller_zero, d3_vendor_id = 0, d3_product_id = 0, d3_state = DS3_FSM_0,
     d3_player_leds = 0, d3_clone_controller = False, d3_rumble = rumble_zero, d3_sent = [], d3_ready_calls = 0\<rparr>"

lemma ds3_start_inv:
  "ds3.inv (uni_hid_parser_ds3_setup (ds3_fresh\<lparr>d3_clone_controller := c\<rparr>))"
  by (simp add: ds3.inv_def uni_hid_parser_ds3_setup_def ds3_fresh_def rumble_zero_def ds3_sounding_def)

section \<open>Properties\<close>

text \<open>
  A PlayStation 3 controller, or a clone of one, never trips an assertion and registers no timer twice,
  whatever the lengths of its reports except 30; and while its motors are on, its rumble is not disabled.
\<close>

theorem ds3_never_traps:
  assumes "admissible ds3_step ds3_ok es (uni_hid_parser_ds3_setup (ds3_fresh\<lparr>d3_clone_controller := c\<rparr>))"
  shows "\<exists>d. run_steps ds3_step es (uni_hid_parser_ds3_setup (ds3_fresh\<lparr>d3_clone_controller := c\<rparr>)) = Some d \<and>
    (ds3_sounding d \<longrightarrow> rb_state (d3_rumble d) \<noteq> RUMBLE_DISABLED)"
  using ds3_run.run_law [OF ds3_start_inv assms] by (auto simp: ds3.inv_def)

text \<open>A rumble that is in progress ends with its timer, and then both motors are off.\<close>

theorem ds3_rumble_ends:
  assumes "admissible ds3_step ds3_ok es (uni_hid_parser_ds3_setup (ds3_fresh\<lparr>d3_clone_controller := c\<rparr>))"
    "run_steps ds3_step es (uni_hid_parser_ds3_setup (ds3_fresh\<lparr>d3_clone_controller := c\<rparr>)) = Some d"
    "rb_state (d3_rumble d) = RUMBLE_IN_PROGRESS"
  shows "\<exists>d'. ds3_step (DS3_Rumble Duration_Fires) d = Some d' \<and> \<not> ds3_sounding d' \<and> no_timers (d3_rumble d')"
  using ds3_run.run_law [OF ds3_start_inv assms(1)] assms(2) ds3.ends [OF _ assms(3)] by auto

text \<open>
  A delayed request takes the timer of the running rumble away; when the next request cancels it, the
  motors stay on without any timer.
\<close>

theorem ds3_cancelled_delay_strands_rumble:
  assumes "strong \<noteq> 0"
  shows "\<exists>d. run_steps ds3_step [DS3_Rumble (Rumble_Play 0 500 weak strong),
      DS3_Rumble (Rumble_Play 100 500 w s), DS3_Rumble (Rumble_Play 0 0 0 0)] (uni_hid_parser_ds3_setup ds3_fresh) = Some d \<and>
    ds3_sounding d \<and> no_timers (d3_rumble d)"
proof -
  have "\<exists>d1. ds3_step (DS3_Rumble (Rumble_Play 0 500 weak strong)) (uni_hid_parser_ds3_setup ds3_fresh) = Some d1 \<and>
      rb_state (d3_rumble d1) = RUMBLE_IN_PROGRESS \<and> ds3_sounding d1 \<and> ds3.inv d1"
    using assms by (simp add: rumble_play_def ds3_play_dual_rumble_now_def rumble_arm_def start_timer_def Let_def
        rumble_remove_def uni_hid_parser_ds3_setup_def ds3_fresh_def rumble_zero_def ds3_sounding_send ds3.inv_def)
  then obtain d1 where d1: "ds3_step (DS3_Rumble (Rumble_Play 0 500 weak strong)) (uni_hid_parser_ds3_setup ds3_fresh) = Some d1"
      "rb_state (d3_rumble d1) = RUMBLE_IN_PROGRESS" "ds3_sounding d1" "ds3.inv d1" by blast
  from ds3.strands [OF d1(4,2,3), of 100 500 w s 0 0] d1(1) show ?thesis
    by (auto split: option.splits)
qed

text \<open>Changing the lights of a rumbling controller stops its motors: the report carries zeros for them.\<close>

theorem ds3_lights_stop_motors:
  assumes "d3_state d = DS3_FSM_LED_UPDATED"
  shows "\<exists>d'. ds3_step (DS3_Leds leds) d = Some d' \<and> \<not> ds3_sounding d' \<and> d3_rumble d' = d3_rumble d"
  using assms by (simp add: uni_hid_parser_ds3_set_player_leds_def ds3_update_led_def ds3_sounding_send
      ds3_output_zero_def Let_def)

text \<open>
  The check of the length admits a report of 30 bytes, whose battery, byte 30, is behind its end; and an
  axis that is pushed to its end gives 512, one more than the largest value of an axis.
\<close>

theorem ds3_short_report_read_past_end:
  assumes "length r = 30" "r ! 0 = 0x01"
  shows "uni_hid_parser_ds3_parse_input_report r d = None"
  using assms by (simp add: uni_hid_parser_ds3_parse_input_report_def have_bytes_def Let_def)

theorem ds3_axis_range: "- 508 \<le> ds3_axis b \<and> ds3_axis b \<le> 512" "ds3_axis 0xff = 512" "ds3_axis 127 = 0"
proof -
  show "- 508 \<le> ds3_axis b \<and> ds3_axis b \<le> 512"
    using unsigned_greater_eq [of b, where 'a = int] unsigned_less [of b, where 'a = int] by (simp add: ds3_axis_def)
qed (simp_all add: ds3_axis_def)

end
