(* ===== verification/Crc32.thy ===== *)
theory Crc32
  imports Prelude
begin

text \<open>
  \<^verbatim>\<open>components/bluepad32/uni_utils.c\<close>: the bitwise CRC-32 that Sony's controllers expect at the end
  of every output report, and the little-endian byte order of the packed report structures.
\<close>

section \<open>The routine\<close>

definition CRCPOLY :: u32 where
  "CRCPOLY = 0xedb88320"

definition crc_bit :: "u32 \<Rightarrow> u32" where
  "crc_bit crc = drop_bit 1 crc XOR (if bit crc 0 then CRCPOLY else 0)"

definition crc_byte :: "u32 \<Rightarrow> u8 \<Rightarrow> u32" where
  "crc_byte crc b = (crc_bit ^^ 8) (crc XOR ucast b)"

definition uni_crc32_le :: "u32 \<Rightarrow> u8 list \<Rightarrow> u32" where
  "uni_crc32_le crc data = foldl crc_byte crc data"

text \<open>The bytes of a \<open>uint32_t\<close> member of a packed structure.\<close>

definition u32_bytes :: "u32 \<Rightarrow> u8 list" where
  "u32_bytes w = map (\<lambda>i. ucast (drop_bit (8 * i) w)) [0..<4]"

section \<open>Linearity\<close>

lemma crc_bit_xor: "crc_bit (x XOR y) = crc_bit x XOR crc_bit y"
  by (rule bit_word_eqI) (auto simp: crc_bit_def bit_simps)

lemma crc_bits_xor: "(crc_bit ^^ n) (x XOR y) = (crc_bit ^^ n) x XOR (crc_bit ^^ n) y"
  by (induction n) (simp_all add: crc_bit_xor)

lemma crc_bits_shifted:
  "(\<And>i. i < n \<Longrightarrow> \<not> bit x i) \<Longrightarrow> (crc_bit ^^ n) x = drop_bit n x"
proof (induction n arbitrary: x)
  case 0
  then show ?case by simp
next
  case (Suc n)
  have "crc_bit x = drop_bit 1 x" using Suc.prems [of 0] by (simp add: crc_bit_def)
  moreover have "(crc_bit ^^ n) (drop_bit 1 x) = drop_bit n (drop_bit 1 x)"
    by (rule Suc.IH) (simp add: bit_drop_bit_eq Suc.prems)
  ultimately show ?case by (simp add: funpow_swap1 del: funpow.simps(2) add: funpow_Suc_right)
qed

lemma crc_byte_at:
  assumes "m + 8 \<le> 32"
  shows "(crc_bit ^^ m) s XOR ucast b = (crc_bit ^^ m) (s XOR push_bit m (ucast (b :: u8)))"
proof -
  have "(crc_bit ^^ m) (push_bit m (ucast b)) = drop_bit m (push_bit m (ucast b :: u32))"
    by (rule crc_bits_shifted) (simp add: bit_push_bit_iff)
  also have "\<dots> = ucast b"
    using assms by (intro bit_word_eqI) (auto simp: bit_simps dest: bit_imp_le_length)
  finally show ?thesis by (simp add: crc_bits_xor)
qed

text \<open>Feeding the four bytes of a word is 32 bit steps of the register combined with the word.\<close>

lemma crc_feed_word:
  "foldl crc_byte s (u32_bytes w) = (crc_bit ^^ 32) (s XOR w)"
proof -
  let ?b = "\<lambda>i. ucast (drop_bit (8 * i) w) :: u8"
  let ?u = "\<lambda>i. push_bit (8 * i) (ucast (?b i)) :: u32"
  have step: "crc_byte ((crc_bit ^^ (8 * i)) t) (?b i) = (crc_bit ^^ (8 * Suc i)) (t XOR ?u i)"
    if "i < 4" for t and i :: nat
  proof -
    have "crc_byte ((crc_bit ^^ (8 * i)) t) (?b i) = (crc_bit ^^ 8) ((crc_bit ^^ (8 * i)) (t XOR ?u i))"
      using that by (simp only: crc_byte_def) (subst crc_byte_at, simp_all)
    also have "\<dots> = (crc_bit ^^ (8 + 8 * i)) (t XOR ?u i)" by (simp only: funpow_add o_apply)
    finally show ?thesis by simp
  qed
  have "foldl crc_byte s (u32_bytes w) = (crc_bit ^^ (8 * Suc 3)) ((((s XOR ?u 0) XOR ?u 1) XOR ?u 2) XOR ?u 3)"
    using step [of 0 s] step [of 1 "s XOR ?u 0"] step [of 2 "(s XOR ?u 0) XOR ?u 1"]
      step [of 3 "((s XOR ?u 0) XOR ?u 1) XOR ?u 2"]
    by (simp add: u32_bytes_def upt_rec numeral_2_eq_2 numeral_3_eq_3 del: funpow.simps)
  moreover have "(((s XOR ?u 0) XOR ?u 1) XOR ?u 2) XOR ?u 3 = s XOR w"
    by (rule bit_word_eqI) (auto simp: bit_simps)
  ultimately show ?thesis by (simp del: funpow.simps)
qed

text \<open>The residue of a message followed by its complemented CRC does not depend on the message.\<close>

definition CRC_RESIDUE :: u32 where
  "CRC_RESIDUE = 0xdebb20e3"

lemma crc_residue_bits:
  "crc_bit 0xffffffff = 0x92477cdf" "crc_bit 0x92477cdf = 0xa49b3d4f"
  "crc_bit 0xa49b3d4f = 0xbff51d87" "crc_bit 0xbff51d87 = 0xb2420de3"
  "crc_bit 0xb2420de3 = 0xb49985d1" "crc_bit 0xb49985d1 = 0xb7f441c8"
  "crc_bit 0xb7f441c8 = 0x5bfa20e4" "crc_bit 0x5bfa20e4 = 0x2dfd1072"
  "crc_bit 0x2dfd1072 = 0x16fe8839" "crc_bit 0x16fe8839 = 0xe6c7c73c"
  "crc_bit 0xe6c7c73c = 0x7363e39e" "crc_bit 0x7363e39e = 0x39b1f1cf"
  "crc_bit 0x39b1f1cf = 0xf1607bc7" "crc_bit 0xf1607bc7 = 0x9508bec3"
  "crc_bit 0x9508bec3 = 0xa73cdc41" "crc_bit 0xa73cdc41 = 0xbe26ed00"
  "crc_bit 0xbe26ed00 = 0x5f137680" "crc_bit 0x5f137680 = 0x2f89bb40"
  "crc_bit 0x2f89bb40 = 0x17c4dda0" "crc_bit 0x17c4dda0 = 0x0be26ed0"
  "crc_bit 0x0be26ed0 = 0x05f13768" "crc_bit 0x05f13768 = 0x02f89bb4"
  "crc_bit 0x02f89bb4 = 0x017c4dda" "crc_bit 0x017c4dda = 0x00be26ed"
  "crc_bit 0x00be26ed = 0xede79056" "crc_bit 0xede79056 = 0x76f3c82b"
  "crc_bit 0x76f3c82b = 0xd6c16735" "crc_bit 0xd6c16735 = 0x86d830ba"
  "crc_bit 0x86d830ba = 0x436c185d" "crc_bit 0x436c185d = 0xcc0e8f0e"
  "crc_bit 0xcc0e8f0e = 0x66074787" "crc_bit 0x66074787 = 0xdebb20e3"
  by (simp_all add: crc_bit_def CRCPOLY_def drop_bit_eq_div bit_0)

lemma crc_residue_step: "(crc_bit ^^ 32) 0xffffffff = CRC_RESIDUE"
  by (simp add: eval_nat_numeral crc_residue_bits CRC_RESIDUE_def)

lemma crc_residue:
  "uni_crc32_le s (data @ u32_bytes (NOT (uni_crc32_le s data))) = CRC_RESIDUE"
proof -
  have "uni_crc32_le s data XOR NOT (uni_crc32_le s data) = - 1"
    by (rule bit_word_eqI) (simp add: bit_simps)
  then have x: "uni_crc32_le s data XOR NOT (uni_crc32_le s data) = 0xffffffff"
    by simp
  show ?thesis
    using x crc_residue_step
    by (simp only: uni_crc32_le_def foldl_append crc_feed_word)
qed

end
