(* ===== verification/Sony_Common.thy ===== *)
theory Sony_Common
  imports Dual_Rumble Crc32
begin

text \<open>
  What the DualShock 4 and DualSense drivers share: \<^verbatim>\<open>mult_frac\<close> of \<^verbatim>\<open>uni_common.h\<close>, little-endian
  fields of a packed report, calibration data, and the gamepad part of an input report (the same code
  in both files). A report is the list of its bytes; reading past its end is the value None.
\<close>

section \<open>Fields of a report\<close>

definition u16_at :: "u8 list \<Rightarrow> nat \<Rightarrow> u16" where
  "u16_at r i = ucast (r ! i) OR push_bit 8 (ucast (r ! (i + 1)))"

definition i16_at :: "u8 list \<Rightarrow> nat \<Rightarrow> int" where
  "i16_at r i = sint (u16_at r i)"

lemma i16_at_range: "- 32768 \<le> i16_at r i \<and> i16_at r i \<le> 32767"
  using sint_range_size [of "u16_at r i"] by (simp add: i16_at_def word_size)

section \<open>Scaling by a fraction\<close>

text \<open>\<open>mult_frac\<close> on 64-bit integers: None is the division by zero.\<close>

definition mult_frac :: "int \<Rightarrow> int \<Rightarrow> int \<Rightarrow> int option" where
  "mult_frac x multiplier divisor =
     (if divisor = 0 then None
      else Some ((x sdiv divisor) * multiplier + ((x smod divisor) * multiplier) sdiv divisor))"

lemma sdiv_alt: "x sdiv d = sgn x * sgn d * (\<bar>x\<bar> div \<bar>d\<bar>)" for x d :: int
  by (simp add: signed_divide_int_def sgn_mult)

text \<open>Truncating division distributes over a multiple of the divisor of the same sign.\<close>

lemma sdiv_add_multiple:
  fixes a b d :: int
  assumes d: "d \<noteq> 0" and s: "sgn b = sgn (a * d) \<or> a = 0 \<or> b = 0"
  shows "(a * d + b) sdiv d = a + b sdiv d"
proof -
  have a: "sgn (a * d) * sgn d * \<bar>a\<bar> = a"
    using d by (simp add: sgn_mult mult.assoc) (simp add: mult.left_commute sgn_mult_abs)
  have abs: "\<bar>a * d\<bar> div \<bar>d\<bar> = \<bar>a\<bar>" using d by (simp add: abs_mult)
  consider "a = 0" | "b = 0" | "sgn b = sgn (a * d)" "a \<noteq> 0" "b \<noteq> 0" using s by blast
  then show ?thesis
  proof cases
    case 1
    then show ?thesis by simp
  next
    case 2
    then show ?thesis using a by (simp add: sdiv_alt abs)
  next
    case 3
    then have sg: "sgn (a * d + b) = sgn (a * d)" and ab: "\<bar>a * d + b\<bar> = \<bar>a * d\<bar> + \<bar>b\<bar>"
      by (auto simp: sgn_if split: if_splits)
    have "(a * d + b) sdiv d = sgn (a * d) * sgn d * (\<bar>a\<bar> + \<bar>b\<bar> div \<bar>d\<bar>)"
      by (simp add: sdiv_alt sg ab div_plus_div_distrib_dvd_left abs)
    also have "\<dots> = a + b sdiv d" using 3(1) a by (simp add: sdiv_alt distrib_left)
    finally show ?thesis .
  qed
qed

text \<open>The split into quotient and remainder loses nothing: it is the truncated product.\<close>

lemma mult_frac_eq:
  assumes "divisor \<noteq> 0"
  shows "mult_frac x m divisor = Some ((x * m) sdiv divisor)"
proof -
  let ?q = "x sdiv divisor" and ?r = "x smod divisor"
  have qd: "?q * divisor = sgn x * (\<bar>x\<bar> - \<bar>x\<bar> mod \<bar>divisor\<bar>)"
  proof -
    have "?q * divisor = x - sgn x * (\<bar>x\<bar> mod \<bar>divisor\<bar>)"
      using minus_smod_eq_sdiv_mult [of x divisor] by (simp add: signed_modulo_int_def)
    moreover have "sgn x * \<bar>x\<bar> = x" by (rule sgn_mult_abs)
    ultimately show ?thesis by (simp only: right_diff_distrib)
  qed
  have "\<bar>x\<bar> mod \<bar>divisor\<bar> \<le> \<bar>x\<bar>" by (simp add: zmod_le_nonneg_dividend)
  then have "sgn (?q * divisor) = sgn x \<or> ?q * divisor = 0"
    unfolding qd by (auto simp: sgn_mult sgn_1_pos)
  moreover have "0 \<le> \<bar>x\<bar> mod \<bar>divisor\<bar>" using assms by simp
  then have "sgn ?r = sgn x \<or> ?r = 0"
    unfolding signed_modulo_int_def sgn_mult
    by (cases "\<bar>x\<bar> mod \<bar>divisor\<bar> = 0") (simp_all del: pos_mod_sign)
  ultimately have "sgn (?r * m) = sgn ((?q * m) * divisor) \<or> ?q * m = 0 \<or> ?r * m = 0"
    using assms by (auto simp: sgn_mult ac_simps)
  then have "(?q * m * divisor + ?r * m) sdiv divisor = ?q * m + (?r * m) sdiv divisor"
    by (rule sdiv_add_multiple [OF assms])
  moreover have "?q * m * divisor + ?r * m = x * m"
    using sdiv_mult_smod_eq [of x divisor] by (metis distrib_right mult.assoc mult.commute)
  ultimately show ?thesis using assms by (simp add: mult_frac_def)
qed

section \<open>Calibration of the motion sensors\<close>

record calibration_data =
  cal_bias :: int
  sens_numer :: int
  sens_denom :: int

text \<open>The constants are the same in both files: \<open>GYRO_RANGE\<close>, \<open>ACC_RANGE\<close> and \<open>INT16_MAX\<close>.\<close>

definition GYRO_RES_PER_DEG_S :: int where "GYRO_RES_PER_DEG_S = 1024"
definition GYRO_RANGE :: int where "GYRO_RANGE = 2048 * GYRO_RES_PER_DEG_S"
definition ACC_RES_PER_G :: int where "ACC_RES_PER_G = 8192"
definition ACC_RANGE :: int where "ACC_RANGE = 4 * ACC_RES_PER_G"

definition default_gyro :: calibration_data where
  "default_gyro = \<lparr>cal_bias = 0, sens_numer = GYRO_RANGE, sens_denom = 32767\<rparr>"

definition default_accel :: calibration_data where
  "default_accel = \<lparr>cal_bias = 0, sens_numer = ACC_RANGE, sens_denom = 32767\<rparr>"

text \<open>The check that disables the calibration of an axis with an empty range.\<close>

definition sanity_check :: "calibration_data \<Rightarrow> calibration_data \<Rightarrow> calibration_data" where
  "sanity_check dflt c = (if sens_denom c = 0 then dflt else c)"

text \<open>\<open>plus\<close> and \<open>minus\<close> relative to the bias; the pitch axis adds the bias to \<open>minus\<close>.\<close>

definition gyro_axis :: "int \<Rightarrow> int \<Rightarrow> int \<Rightarrow> calibration_data" where
  "gyro_axis speed_2x from_plus from_minus =
     \<lparr>cal_bias = 0, sens_numer = to_i32 (speed_2x * GYRO_RES_PER_DEG_S),
      sens_denom = \<bar>from_plus\<bar> + \<bar>from_minus\<bar>\<rparr>"

definition accel_axis :: "int \<Rightarrow> int \<Rightarrow> calibration_data" where
  "accel_axis acc_plus acc_minus =
     (let range_2g = acc_plus - acc_minus
      in \<lparr>cal_bias = to_i16 (acc_plus - range_2g sdiv 2), sens_numer = 2 * ACC_RES_PER_G,
          sens_denom = range_2g\<rparr>)"

definition calibrated :: "calibration_data list \<Rightarrow> bool" where
  "calibrated cs \<longleftrightarrow> length cs = 3 \<and> (\<forall>c \<in> set cs. sens_denom c \<noteq> 0)"

lemma sanity_check_nonzero: "sens_denom dflt \<noteq> 0 \<Longrightarrow> sens_denom (sanity_check dflt c) \<noteq> 0"
  by (simp add: sanity_check_def)

lemma calibrated_default [simp]:
  "calibrated [default_gyro, default_gyro, default_gyro]"
  "calibrated [default_accel, default_accel, default_accel]"
  by (simp_all add: calibrated_def default_gyro_def default_accel_def)

lemma calibrated_sane [simp]:
  "calibrated [sanity_check default_gyro a, sanity_check default_gyro b, sanity_check default_gyro c]"
  "calibrated [sanity_check default_accel a, sanity_check default_accel b, sanity_check default_accel c]"
  by (auto simp: calibrated_def sanity_check_def default_gyro_def default_accel_def)

text \<open>The three values at offset \<open>i\<close> of a report through the calibration data.\<close>

definition apply_calibration :: "calibration_data list \<Rightarrow> u8 list \<Rightarrow> nat \<Rightarrow> int list option" where
  "apply_calibration cs r i =
     (case (mult_frac (sens_numer (cs ! 0)) (i16_at r i) (sens_denom (cs ! 0)),
            mult_frac (sens_numer (cs ! 1)) (i16_at r (i + 2)) (sens_denom (cs ! 1)),
            mult_frac (sens_numer (cs ! 2)) (i16_at r (i + 4)) (sens_denom (cs ! 2))) of
        (Some a, Some b, Some c) \<Rightarrow> Some [to_i32 a, to_i32 b, to_i32 c]
      | _ \<Rightarrow> None)"

lemma apply_calibration_eq:
  assumes "calibrated cs"
  shows "apply_calibration cs r i = Some (map (\<lambda>k. to_i32
    ((sens_numer (cs ! k) * i16_at r (i + 2 * k)) sdiv sens_denom (cs ! k))) [0, 1, 2])"
proof -
  have "sens_denom (cs ! k) \<noteq> 0" if "k < 3" for k
    using assms that by (simp add: calibrated_def)
  from this [of 0] this [of 1] this [of 2] show ?thesis
    by (simp add: apply_calibration_def mult_frac_eq)
qed

section \<open>Sticks, hat, buttons and triggers\<close>

definition sony_axis :: "u8 \<Rightarrow> int" where
  "sony_axis b = (uint b - 127) * 4"

definition sony_hat :: "u8 \<Rightarrow> u8" where
  "sony_hat b0 = (let v = b0 AND 0xf in uni_hid_parser_hat_to_dpad (if v > 7 then 0xff else v))"

definition sony_buttons :: "u8 \<Rightarrow> u8 \<Rightarrow> u16 \<Rightarrow> u16" where
  "sony_buttons b0 b1 acc =
     foldl (\<lambda>x (c, m). or_if c m x) acc
      [(has_bits b0 0x10, BUTTON_X), (has_bits b0 0x20, BUTTON_A),
       (has_bits b0 0x40, BUTTON_B), (has_bits b0 0x80, BUTTON_Y),
       (has_bits b1 0x01, BUTTON_SHOULDER_L), (has_bits b1 0x02, BUTTON_SHOULDER_R),
       (has_bits b1 0x04, BUTTON_TRIGGER_L), (has_bits b1 0x08, BUTTON_TRIGGER_R),
       (has_bits b1 0x40, BUTTON_THUMB_L), (has_bits b1 0x80, BUTTON_THUMB_R)]"

definition sony_misc :: "u8 \<Rightarrow> u8 \<Rightarrow> u8 \<Rightarrow> u8" where
  "sony_misc b1 b2 acc =
     foldl (\<lambda>x (c, m). or_if c m x) acc
      [(has_bits b1 0x10, MISC_BUTTON_SELECT), (has_bits b1 0x20, MISC_BUTTON_START),
       (has_bits b2 0x01, MISC_BUTTON_SYSTEM)]"

text \<open>Bytes x, y, rx, ry, the three button bytes, brake and throttle.\<close>

definition sony_pad ::
  "u8 \<Rightarrow> u8 \<Rightarrow> u8 \<Rightarrow> u8 \<Rightarrow> u8 \<Rightarrow> u8 \<Rightarrow> u8 \<Rightarrow> u8 \<Rightarrow> u8 \<Rightarrow> uni_gamepad \<Rightarrow> uni_gamepad" where
  "sony_pad x y rx ry b0 b1 b2 br th g = g\<lparr>axis_x := sony_axis x, axis_y := sony_axis y,
     axis_rx := sony_axis rx, axis_ry := sony_axis ry, dpad := sony_hat b0,
     buttons := sony_buttons b0 b1 (buttons g), misc_buttons := sony_misc b1 b2 (misc_buttons g),
     brake := uint br * 4, throttle := uint th * 4\<rparr>"

text \<open>Battery: 0 to 10 becomes 1 to 251.\<close>

definition sony_battery :: "u8 \<Rightarrow> u8" where
  "sony_battery status = (status AND 0xf) * 25 + 1"

text \<open>The intervals a Sony pad reports: the sticks reach one step beyond the documented 511.\<close>

definition sony_range :: "uni_gamepad \<Rightarrow> bool" where
  "sony_range g \<longleftrightarrow> (\<forall>a \<in> {axis_x g, axis_y g, axis_rx g, axis_ry g}. - 508 \<le> a \<and> a \<le> 512) \<and>
     (\<forall>p \<in> {brake g, throttle g}. 0 \<le> p \<and> p \<le> 1020)"

lemma u8_range: "0 \<le> uint (b :: u8) \<and> uint b \<le> 255"
  using uint_range_size [of b] by (simp add: word_size)

lemma sony_pad_range: "sony_range (sony_pad x y rx ry b0 b1 b2 br th g)"
  using u8_range [of x] u8_range [of y] u8_range [of rx] u8_range [of ry] u8_range [of br]
    u8_range [of th] by (simp add: sony_range_def sony_pad_def sony_axis_def)

lemma sony_battery_nonzero: "sony_battery s \<noteq> 0"
proof
  let ?x = "s AND 0xf"
  assume "sony_battery s = 0"
  then have "(?x * 25 + 1) * 41 = 0" by (simp only: sony_battery_def mult_zero_left)
  moreover have "(?x * 25 + 1) * 41 = ?x + 41"
  proof -
    have "(1024 :: u8) = 0" by simp
    then have "?x * 1024 = 0" by (simp only: mult_zero_right)
    then show ?thesis by (simp add: algebra_simps)
  qed
  ultimately have "?x = - 41" by (simp only: eq_neg_iff_add_eq_0)
  moreover have "?x \<le> 0xf" by (rule word_and_le1)
  ultimately show False by simp
qed

section \<open>The touchpad as a mouse\<close>

text \<open>
  The virtual child device: its controller, the touchpad state of its own parser data, and the
  controllers it handed to \<^verbatim>\<open>uni_hid_device_process_controller\<close>.
\<close>

record sony_child =
  ch_ctl :: uni_controller
  ch_x_prev :: int
  ch_y_prev :: int
  ch_prev_touch_active :: bool
  ch_processed :: "uni_controller list"

definition child_fresh :: sony_child where
  "child_fresh = \<lparr>ch_ctl = controller_zero, ch_x_prev = 0, ch_y_prev = 0,
     ch_prev_touch_active = False, ch_processed = []\<rparr>"

definition child_init_report :: "sony_child \<Rightarrow> sony_child" where
  "child_init_report ch = ch\<lparr>ch_ctl := controller_zero\<lparr>klass := CLASS_MOUSE\<rparr>\<rparr>"

definition touch_x :: "u8 \<Rightarrow> u8 \<Rightarrow> int" where
  "touch_x x_lo xy = uint (xy AND 0xf) * 256 + uint x_lo"

definition touch_y :: "u8 \<Rightarrow> u8 \<Rightarrow> int" where
  "touch_y xy y_hi = uint y_hi * 16 + uint (drop_bit 4 xy)"

definition sony_touch :: "u8 \<Rightarrow> u8 \<Rightarrow> u8 \<Rightarrow> u8 \<Rightarrow> u8 \<Rightarrow> sony_child \<Rightarrow> sony_child" where
  "sony_touch contact x_lo xy y_hi b2 ch =
     (let x = touch_x x_lo xy;
          y = touch_y xy y_hi;
          m = mouse (ch_ctl ch);
          m1 = (if ch_prev_touch_active ch
                then m\<lparr>delta_x := x - ch_x_prev ch, delta_y := y - ch_y_prev ch\<rparr>
                else m\<lparr>delta_x := 0, delta_y := 0\<rparr>);
          m2 = (if has_bits b2 0x02
                then m1\<lparr>mouse_buttons := mouse_buttons m1 OR (if x < 1440 then BIT 0 else BIT 1)\<rparr>
                else m1);
          c = (ch_ctl ch)\<lparr>mouse := m2\<rparr>
      in ch\<lparr>ch_ctl := c, ch_prev_touch_active := \<not> bit contact 7, ch_x_prev := x, ch_y_prev := y,
            ch_processed := ch_processed ch @ [c]\<rparr>)"

section \<open>Properties\<close>

text \<open>
  Scaling a raw sensor value through quotient and remainder loses nothing: for every nonzero
  divisor the result is the truncated quotient of the full product, negative operands included.
\<close>

theorem mult_frac_correct:
  assumes "divisor \<noteq> 0"
  shows "mult_frac x m divisor = Some ((x * m) sdiv divisor)"
  using assms by (rule mult_frac_eq)

theorem mult_frac_correct_witness: "mult_frac (- 2097152) 12345 32767 = Some ((- 2097152 * 12345) sdiv 32767)"
  by (rule mult_frac_correct) simp

type_synonym touch_point = "u8 \<times> u8 \<times> u8 \<times> u8 \<times> u8"

fun touch_run :: "touch_point list \<Rightarrow> sony_child \<Rightarrow> sony_child" where
  "touch_run [] ch = ch"
| "touch_run ((contact, x_lo, xy, y_hi, b2) # ps) ch =
     touch_run ps (sony_touch contact x_lo xy y_hi b2 (child_init_report ch))"

definition moved :: "(uni_mouse \<Rightarrow> int) \<Rightarrow> sony_child \<Rightarrow> int" where
  "moved f ch = sum_list (map (\<lambda>c. f (mouse c)) (ch_processed ch))"

text \<open>
  The virtual mouse of a Sony pad loses no movement: while a finger stays on the touchpad, the
  deltas handed to the platform over any number of reports add up to the distance between the first
  and the last position, on both axes, and a finger that touches down again starts without a jump.
\<close>

theorem touch_movement:
  assumes "\<forall>(contact, rest) \<in> set ps. \<not> bit contact 7" "ch_prev_touch_active ch"
  shows "moved delta_x (touch_run ps ch) - moved delta_x ch = ch_x_prev (touch_run ps ch) - ch_x_prev ch \<and>
    moved delta_y (touch_run ps ch) - moved delta_y ch = ch_y_prev (touch_run ps ch) - ch_y_prev ch \<and>
    (\<forall>contact x_lo xy y_hi b2 c. ch_prev_touch_active c = False \<longrightarrow>
       moved delta_x (sony_touch contact x_lo xy y_hi b2 c) = moved delta_x c)"
proof -
  have "moved delta_x (touch_run ps ch) - moved delta_x ch = ch_x_prev (touch_run ps ch) - ch_x_prev ch \<and>
    moved delta_y (touch_run ps ch) - moved delta_y ch = ch_y_prev (touch_run ps ch) - ch_y_prev ch"
    using assms
  proof (induction ps arbitrary: ch)
    case Nil
    then show ?case by simp
  next
    case (Cons p ps)
    obtain contact x_lo xy y_hi b2 where p: "p = (contact, x_lo, xy, y_hi, b2)" by (cases p) auto
    let ?ch = "sony_touch contact x_lo xy y_hi b2 (child_init_report ch)"
    have "ch_prev_touch_active ?ch" using Cons.prems(1) p by (simp add: sony_touch_def Let_def)
    then have "moved delta_x (touch_run ps ?ch) - moved delta_x ?ch = ch_x_prev (touch_run ps ?ch) - ch_x_prev ?ch \<and>
        moved delta_y (touch_run ps ?ch) - moved delta_y ?ch = ch_y_prev (touch_run ps ?ch) - ch_y_prev ?ch"
      using Cons.IH [of ?ch] Cons.prems(1) by simp
    moreover have "moved delta_x ?ch - moved delta_x ch = ch_x_prev ?ch - ch_x_prev ch"
      "moved delta_y ?ch - moved delta_y ch = ch_y_prev ?ch - ch_y_prev ch"
      using Cons.prems(2) by (simp_all add: sony_touch_def child_init_report_def Let_def moved_def)
    ultimately show ?case by (simp add: p)
  qed
  moreover have "moved delta_x (sony_touch contact x_lo xy y_hi b2 c) = moved delta_x c"
    if "ch_prev_touch_active c = False" for contact x_lo xy y_hi b2 c
    using that by (simp add: sony_touch_def Let_def moved_def)
  ultimately show ?thesis by blast
qed

theorem touch_movement_witness:
  "moved delta_x (touch_run [(0, 30, 0, 0, 0), (1, 10, 0, 0, 0)] (child_fresh\<lparr>ch_prev_touch_active := True\<rparr>)) = 10"
  using touch_movement [of "[(0, 30, 0, 0, 0), (1, 10, 0, 0, 0)]" "child_fresh\<lparr>ch_prev_touch_active := True\<rparr>"]
  by (simp add: moved_def child_fresh_def child_init_report_def sony_touch_def Let_def touch_x_def touch_y_def)

end
