(* ===== verification/Parser_DS4.thy ===== *)
theory Parser_DS4
  imports Sony_Common
begin

text \<open>
  \<^verbatim>\<open>components/bluepad32/parser/uni_hid_parser_ds4.c\<close>: the DualShock 4. Setup, calibration, the two
  input report formats, the lightbar and the rumble. Reports go to \<open>d4_sent\<close> with the channel they
  are sent on. The results of the device functions that setup calls (whether the platform accepts the
  controller and its virtual mouse) are arguments. The parent never uses the touchpad part of its own
  instance: the child has one of its own.
\<close>

section \<open>State\<close>

datatype channel = INTR | CTRL

record ds4_device =
  d4_ctl :: uni_controller
  d4_rumble :: rumble
  d4_fw_version :: u16
  d4_hw_version :: u16
  d4_gyro_calib :: "calibration_data list"
  d4_accel_calib :: "calibration_data list"
  d4_red :: u8
  d4_green :: u8
  d4_blue :: u8
  d4_weak :: u8
  d4_strong :: u8
  d4_child :: "sony_child option"
  d4_sent :: "(channel \<times> u8 list) list"

definition DS4_FF_FLAG_BLINK_COLOR_RUMBLE :: u8 where "DS4_FF_FLAG_BLINK_COLOR_RUMBLE = 0x07"

text \<open>\<open>ds4_output_report_t\<close> without the checksum: 75 bytes.\<close>

definition ds4_output :: "u8 \<Rightarrow> u8 \<Rightarrow> u8 \<Rightarrow> u8 \<Rightarrow> u8 \<Rightarrow> u8 list" where
  "ds4_output motor_right motor_left red green blue =
     [0xa2, 0x11, 0xc4, 0, DS4_FF_FLAG_BLINK_COLOR_RUMBLE, 0, 0, motor_right, motor_left,
      red, green, blue, 0, 0] @ replicate 61 0"

definition ds4_send :: "channel \<Rightarrow> u8 list \<Rightarrow> ds4_device \<Rightarrow> ds4_device" where
  "ds4_send ch r d = d\<lparr>d4_sent := d4_sent d @ [(ch, r)]\<rparr>"

definition ds4_send_output_report :: "u8 list \<Rightarrow> ds4_device \<Rightarrow> ds4_device" where
  "ds4_send_output_report out d =
     ds4_send INTR (out @ u32_bytes (NOT (uni_crc32_le 0xffffffff out))) d"

section \<open>Setup and feature reports\<close>

definition ds4_request_calibration_report :: "ds4_device \<Rightarrow> ds4_device" where
  "ds4_request_calibration_report d = ds4_send CTRL [0x43, 0x02] d"

definition ds4_request_firmware_version_report :: "ds4_device \<Rightarrow> ds4_device" where
  "ds4_request_firmware_version_report d = ds4_send CTRL [0x43, 0xa3] d"

definition ds4_send_enable_lightbar_report :: "ds4_device \<Rightarrow> ds4_device" where
  "ds4_send_enable_lightbar_report d =
     (let d1 = d\<lparr>d4_red := 0, d4_green := 0, d4_blue := 0x40, d4_weak := 0, d4_strong := 0\<rparr>
      in ds4_send_output_report (ds4_output 0 0 (d4_red d1) (d4_green d1) (d4_blue d1)) d1)"

definition ds4_zero_instance :: "ds4_device \<Rightarrow> ds4_device" where
  "ds4_zero_instance d = d\<lparr>d4_rumble := rumble_zero, d4_fw_version := 0, d4_hw_version := 0,
     d4_gyro_calib := [default_gyro, default_gyro, default_gyro],
     d4_accel_calib := [default_accel, default_accel, default_accel],
     d4_red := 0, d4_green := 0, d4_blue := 0, d4_weak := 0, d4_strong := 0\<rparr>"

definition uni_hid_parser_ds4_setup :: "bool \<Rightarrow> bool \<Rightarrow> bool \<Rightarrow> ds4_device \<Rightarrow> ds4_device" where
  "uni_hid_parser_ds4_setup accepted has_virtual child_accepted d =
     (let d1 = ds4_request_calibration_report (ds4_send_enable_lightbar_report (ds4_zero_instance d))
      in if \<not> accepted then d1
         else if \<not> has_virtual then d1
         else if \<not> child_accepted then d1\<lparr>d4_child := None\<rparr>
         else d1\<lparr>d4_child := Some child_fresh\<rparr>)"

definition uni_hid_parser_ds4_init_report :: "ds4_device \<Rightarrow> ds4_device" where
  "uni_hid_parser_ds4_init_report d = d\<lparr>d4_ctl := controller_zero\<lparr>klass := CLASS_GAMEPAD\<rparr>,
     d4_child := map_option child_init_report (d4_child d)\<rparr>"

text \<open>The calibration report; the offsets are those of the packed structure.\<close>

definition ds4_calibrate :: "u8 list \<Rightarrow> ds4_device \<Rightarrow> ds4_device" where
  "ds4_calibrate r d =
     (let speed_2x = i16_at r 19 + i16_at r 21;
          pitch_bias = i16_at r 1; yaw_bias = i16_at r 3; roll_bias = i16_at r 5
      in d\<lparr>d4_gyro_calib := map (sanity_check default_gyro)
             [gyro_axis speed_2x (i16_at r 7 - pitch_bias) (i16_at r 13 + pitch_bias),
              gyro_axis speed_2x (i16_at r 9 - yaw_bias) (i16_at r 15 - yaw_bias),
              gyro_axis speed_2x (i16_at r 11 - roll_bias) (i16_at r 17 - roll_bias)],
           d4_accel_calib := map (sanity_check default_accel)
             [accel_axis (i16_at r 23) (i16_at r 25), accel_axis (i16_at r 27) (i16_at r 29),
              accel_axis (i16_at r 31) (i16_at r 33)]\<rparr>)"

definition uni_hid_parser_ds4_parse_feature_report :: "u8 list \<Rightarrow> ds4_device \<Rightarrow> ds4_device option" where
  "uni_hid_parser_ds4_parse_feature_report report d =
     (if report = [] then None
      else if report ! 0 = 0x02
      then (if length report < 35 then None
            else Some (ds4_request_firmware_version_report (ds4_calibrate report d)))
      else if report ! 0 = 0xa3
      then (if length report < 43 then None
            else Some (d\<lparr>d4_hw_version := u16_at report 35, d4_fw_version := u16_at report 41\<rparr>))
      else Some d)"

section \<open>Input reports\<close>

definition ds4_parse_input_report_01 :: "u8 list \<Rightarrow> ds4_device \<Rightarrow> ds4_device" where
  "ds4_parse_input_report_01 r d =
     d\<lparr>d4_ctl := upd_gp (sony_pad (r ! 0) (r ! 1) (r ! 2) (r ! 3) (r ! 4) (r ! 5) (r ! 6) (r ! 7) (r ! 8))
        (d4_ctl d)\<rparr>"

definition ds4_parse_mouse :: "u8 list \<Rightarrow> sony_child \<Rightarrow> sony_child" where
  "ds4_parse_mouse r ch =
     (if r ! 32 < 1 then ch\<lparr>ch_prev_touch_active := False\<rparr>
      else sony_touch (r ! 34) (r ! 35) (r ! 36) (r ! 37) (r ! 6) ch)"

definition ds4_parse_input_report_11 :: "u8 list \<Rightarrow> ds4_device \<Rightarrow> ds4_device option" where
  "ds4_parse_input_report_11 r d =
     (case apply_calibration (d4_gyro_calib d) r 12 of None \<Rightarrow> None
      | Some gs \<Rightarrow> (case apply_calibration (d4_accel_calib d) r 18 of None \<Rightarrow> None
      | Some as \<Rightarrow> Some (d\<lparr>
          d4_ctl := (upd_gp (\<lambda>g.
            (sony_pad (r ! 0) (r ! 1) (r ! 2) (r ! 3) (r ! 4) (r ! 5) (r ! 6) (r ! 7) (r ! 8) g)
              \<lparr>gyro := gs, accel := as\<rparr>) (d4_ctl d))\<lparr>battery := sony_battery (r ! 29)\<rparr>,
          d4_child := map_option (ds4_parse_mouse r) (d4_child d)\<rparr>)))"

definition uni_hid_parser_ds4_parse_input_report :: "u8 list \<Rightarrow> ds4_device \<Rightarrow> ds4_device option" where
  "uni_hid_parser_ds4_parse_input_report report d =
     (if report = [] then None
      else if report ! 0 = 0x11 \<and> length report = 78 then ds4_parse_input_report_11 (drop 3 report) d
      else if report ! 0 = 0x01 \<and> length report = 10
      then Some (ds4_parse_input_report_01 (drop 1 report) d)
      else Some d)"

section \<open>Lightbar and rumble\<close>

definition uni_hid_parser_ds4_set_lightbar_color :: "u8 \<Rightarrow> u8 \<Rightarrow> u8 \<Rightarrow> ds4_device \<Rightarrow> ds4_device" where
  "uni_hid_parser_ds4_set_lightbar_color r g b d =
     ds4_send_output_report (ds4_output (d4_weak d) (d4_strong d) r g b)
       (d\<lparr>d4_red := r, d4_green := g, d4_blue := b\<rparr>)"

definition ds4_set_rumble :: "rumble \<Rightarrow> ds4_device \<Rightarrow> ds4_device" where
  "ds4_set_rumble r d = d\<lparr>d4_rumble := r\<rparr>"

definition ds4_stop_rumble_now :: "ds4_device \<Rightarrow> ds4_device option" where
  "ds4_stop_rumble_now d =
     (if rb_state (d4_rumble d) \<noteq> RUMBLE_IN_PROGRESS then None
      else Some (ds4_send_output_report (ds4_output 0 0 (d4_red d) (d4_green d) (d4_blue d))
        (d\<lparr>d4_rumble := (d4_rumble d)\<lparr>rb_state := RUMBLE_DISABLED\<rparr>, d4_weak := 0, d4_strong := 0\<rparr>)))"

definition ds4_play_dual_rumble_now :: "u16 \<Rightarrow> u8 \<Rightarrow> u8 \<Rightarrow> ds4_device \<Rightarrow> ds4_device option" where
  "ds4_play_dual_rumble_now duration_ms weak strong d =
     (if duration_ms = 0
      then (if rb_state (d4_rumble d) \<noteq> RUMBLE_DISABLED then ds4_stop_rumble_now d else Some d)
      else
        let d1 = ds4_send_output_report (ds4_output weak strong (d4_red d) (d4_green d) (d4_blue d))
                   (d\<lparr>d4_weak := weak, d4_strong := strong\<rparr>)
        in map_option (\<lambda>r. ds4_set_rumble r d1) (rumble_arm duration_ms (d4_rumble d1)))"

definition uni_hid_parser_ds4_play_dual_rumble ::
  "u16 \<Rightarrow> u16 \<Rightarrow> u8 \<Rightarrow> u8 \<Rightarrow> ds4_device \<Rightarrow> ds4_device option" where
  "uni_hid_parser_ds4_play_dual_rumble =
     rumble_play d4_rumble ds4_set_rumble ds4_play_dual_rumble_now"

definition on_ds4_set_rumble_on :: "ds4_device \<Rightarrow> ds4_device option" where
  "on_ds4_set_rumble_on = rumble_on d4_rumble ds4_play_dual_rumble_now"

definition on_ds4_set_rumble_off :: "ds4_device \<Rightarrow> ds4_device option" where
  "on_ds4_set_rumble_off = ds4_stop_rumble_now"

lemmas ds4_send_defs = ds4_send_def ds4_send_output_report_def

interpretation ds4: rumble_driver d4_rumble ds4_set_rumble ds4_play_dual_rumble_now
  ds4_stop_rumble_now "\<lambda>d. d4_weak d = 0 \<and> d4_strong d = 0" False
  by unfold_locales
    (auto simp: ds4_set_rumble_def ds4_stop_rumble_now_def ds4_play_dual_rumble_now_def
      ds4_send_defs rumble_arm_def start_timer_def Let_def)

section \<open>Runs of the driver\<close>

datatype ds4_event =
    DS4_Feature "u8 list"
  | DS4_Input "u8 list"
  | DS4_Lightbar u8 u8 u8
  | DS4_Rumble rumble_event

fun ds4_step :: "ds4_event \<Rightarrow> ds4_device \<Rightarrow> ds4_device option" where
  "ds4_step (DS4_Feature r) d = uni_hid_parser_ds4_parse_feature_report r d"
| "ds4_step (DS4_Input r) d =
     uni_hid_parser_ds4_parse_input_report r (uni_hid_parser_ds4_init_report d)"
| "ds4_step (DS4_Lightbar r g b) d = Some (uni_hid_parser_ds4_set_lightbar_color r g b d)"
| "ds4_step (DS4_Rumble e) d =
     rumble_step d4_rumble ds4_set_rumble ds4_play_dual_rumble_now ds4_stop_rumble_now e d"

text \<open>
  Feature reports are as long as their structure, input reports are not empty; a timer only fires
  while registered, and no rumble has duration zero (the assertion of the stop routine fails when
  such a request finds a delayed rumble).
\<close>

fun ds4_ok :: "ds4_event \<Rightarrow> ds4_device \<Rightarrow> bool" where
  "ds4_ok (DS4_Feature r) d = (49 \<le> length r \<or> r \<noteq> [] \<and> r ! 0 = 0x02 \<and> length r = 37)"
| "ds4_ok (DS4_Input r) d = (r \<noteq> [])"
| "ds4_ok (DS4_Lightbar r g b) d = True"
| "ds4_ok (DS4_Rumble e) d = rumble_ok False e (d4_rumble d)"

definition valid_output :: "channel \<times> u8 list \<Rightarrow> bool" where
  "valid_output m \<longleftrightarrow> fst m = INTR \<longrightarrow>
     length (snd m) = 79 \<and> uni_crc32_le 0xffffffff (snd m) = CRC_RESIDUE"

fun last_output :: "(channel \<times> u8 list) list \<Rightarrow> u8 list option" where
  "last_output [] = None"
| "last_output ((ch, r) # ms) =
     (case last_output ms of None \<Rightarrow> (if ch = INTR then Some r else None) | Some x \<Rightarrow> Some x)"

lemma last_output_append:
  "last_output (ms @ [(ch, r)]) = (if ch = INTR then Some r else last_output ms)"
  by (induction ms rule: last_output.induct) (auto split: option.splits)

text \<open>The motors and the lightbar show what the driver state says, and every report is well formed.\<close>

definition ds4_shows :: "ds4_device \<Rightarrow> bool" where
  "ds4_shows d \<longleftrightarrow> (\<forall>m \<in> set (d4_sent d). valid_output m) \<and>
     map_option (\<lambda>r. take 5 (drop 7 r)) (last_output (d4_sent d)) =
       Some [d4_weak d, d4_strong d, d4_red d, d4_green d, d4_blue d]"

definition ds4_inv :: "ds4_device \<Rightarrow> bool" where
  "ds4_inv d \<longleftrightarrow> calibrated (d4_gyro_calib d) \<and> calibrated (d4_accel_calib d) \<and>
     ds4.inv d \<and> ds4_shows d"

lemma valid_send:
  "length out = 75 \<Longrightarrow> valid_output (INTR, out @ u32_bytes (NOT (uni_crc32_le 0xffffffff out)))"
  by (simp add: valid_output_def crc_residue) (simp add: u32_bytes_def)

lemma shows_output:
  assumes "\<forall>m \<in> set (d4_sent d). valid_output m"
  shows "ds4_shows (ds4_send_output_report
    (ds4_output (d4_weak d) (d4_strong d) (d4_red d) (d4_green d) (d4_blue d)) d)"
  using assms valid_send [of "ds4_output (d4_weak d) (d4_strong d) (d4_red d) (d4_green d) (d4_blue d)"]
  by (simp add: ds4_shows_def ds4_send_defs last_output_append) (simp add: ds4_output_def)

lemma valid_outputD:
  "\<forall>m \<in> ms. valid_output m \<Longrightarrow> (INTR, r) \<in> ms \<Longrightarrow> length r = 79"
  "\<forall>m \<in> ms. valid_output m \<Longrightarrow> (INTR, r) \<in> ms \<Longrightarrow> uni_crc32_le 0xffffffff r = CRC_RESIDUE"
  by (auto simp: valid_output_def dest!: bspec)

lemma shows_ctrl: "ds4_shows d \<Longrightarrow> ds4_shows (ds4_send CTRL r d)"
  by (auto simp: ds4_shows_def ds4_send_def last_output_append valid_output_def)

text \<open>Fields the report state does not depend on.\<close>

lemma shows_cong:
  "d4_sent d' = d4_sent d \<Longrightarrow> d4_weak d' = d4_weak d \<Longrightarrow> d4_strong d' = d4_strong d \<Longrightarrow>
   d4_red d' = d4_red d \<Longrightarrow> d4_green d' = d4_green d \<Longrightarrow> d4_blue d' = d4_blue d \<Longrightarrow>
   ds4_shows d' = ds4_shows d"
  by (simp add: ds4_shows_def)

lemma sent_valid: "ds4_shows d \<Longrightarrow> \<forall>m \<in> set (d4_sent d). valid_output m"
  by (simp add: ds4_shows_def)

definition rumble_only :: "ds4_device \<Rightarrow> ds4_device \<Rightarrow> bool" where
  "rumble_only d d' \<longleftrightarrow> d4_gyro_calib d' = d4_gyro_calib d \<and> d4_accel_calib d' = d4_accel_calib d \<and>
     (ds4_shows d \<longrightarrow> ds4_shows d')"

lemma rumble_only_refl [simp]: "rumble_only d d"
  by (simp add: rumble_only_def)

lemma rumble_only_set [simp]: "rumble_only d (ds4_set_rumble r d') = rumble_only d d'"
  "rumble_only (ds4_set_rumble r d) d' = rumble_only d d'"
  by (simp_all add: rumble_only_def ds4_set_rumble_def ds4_shows_def)

lemma stop_rumble_only: "ds4_stop_rumble_now d = Some d' \<Longrightarrow> rumble_only d d'"
proof -
  assume a: "ds4_stop_rumble_now d = Some d'"
  let ?e = "d\<lparr>d4_rumble := (d4_rumble d)\<lparr>rb_state := RUMBLE_DISABLED\<rparr>, d4_weak := 0, d4_strong := 0\<rparr>"
  have d': "d' = ds4_send_output_report (ds4_output 0 0 (d4_red d) (d4_green d) (d4_blue d)) ?e"
    using a by (simp add: ds4_stop_rumble_now_def split: if_splits)
  have "ds4_shows d \<Longrightarrow> ds4_shows d'"
    using shows_output [of ?e] by (simp add: d' ds4_shows_def)
  then show ?thesis by (simp add: rumble_only_def) (simp add: d' ds4_send_defs)
qed

lemma play_rumble_only: "ds4_play_dual_rumble_now dur w s d = Some d' \<Longrightarrow> rumble_only d d'"
proof (cases "dur = 0")
  case True
  moreover assume "ds4_play_dual_rumble_now dur w s d = Some d'"
  ultimately show ?thesis
    by (auto simp: ds4_play_dual_rumble_now_def stop_rumble_only split: if_splits)
next
  case False
  assume a: "ds4_play_dual_rumble_now dur w s d = Some d'"
  let ?e = "d\<lparr>d4_weak := w, d4_strong := s\<rparr>"
  let ?f = "ds4_send_output_report (ds4_output w s (d4_red d) (d4_green d) (d4_blue d)) ?e"
  obtain r where d': "d' = ds4_set_rumble r ?f"
    using a False by (auto simp: ds4_play_dual_rumble_now_def Let_def)
  have "ds4_shows d \<Longrightarrow> ds4_shows ?f"
    using shows_output [of ?e] by (simp add: ds4_shows_def)
  then have "rumble_only d ?f" by (simp add: rumble_only_def) (simp add: ds4_send_defs)
  then show ?thesis by (simp add: d')
qed

lemma rumble_step_only:
  assumes "rumble_step d4_rumble ds4_set_rumble ds4_play_dual_rumble_now ds4_stop_rumble_now e d = Some d'"
  shows "rumble_only d d'"
proof (cases e)
  case (Rumble_Play sd dur w s)
  with assms show ?thesis
    by (auto simp: rumble_play_def Let_def split: if_splits dest!: play_rumble_only)
next
  case Delayed_Fires
  with assms show ?thesis by (auto simp: rumble_on_def dest!: play_rumble_only)
next
  case Duration_Fires
  with assms show ?thesis by (auto dest!: stop_rumble_only)
qed

lemma ds4_inv_setup: "ds4_inv (uni_hid_parser_ds4_setup a v c d)" if "d4_sent d = []"
proof -
  let ?z = "(ds4_zero_instance d)\<lparr>d4_red := 0, d4_green := 0, d4_blue := 0x40, d4_weak := 0, d4_strong := 0\<rparr>"
  have "ds4_shows (ds4_send_output_report (ds4_output 0 0 0 0 0x40) ?z)"
    using shows_output [of ?z] that by (simp add: ds4_zero_instance_def)
  then have "ds4_shows (ds4_request_calibration_report (ds4_send_enable_lightbar_report (ds4_zero_instance d)))"
    unfolding ds4_request_calibration_report_def
    by (intro shows_ctrl) (simp add: ds4_send_enable_lightbar_report_def ds4_zero_instance_def Let_def)
  then have "ds4_shows (uni_hid_parser_ds4_setup a v c d)"
    by (auto simp: uni_hid_parser_ds4_setup_def Let_def ds4_shows_def)
  then show ?thesis
    by (simp add: ds4_inv_def) (simp add: uni_hid_parser_ds4_setup_def Let_def ds4.inv_def
        ds4_request_calibration_report_def ds4_send_enable_lightbar_report_def ds4_send_defs
        ds4_zero_instance_def)
qed

lemma feature_step:
  assumes "ds4_inv d" "ds4_ok (DS4_Feature r) d"
  shows "\<exists>d'. uni_hid_parser_ds4_parse_feature_report r d = Some d' \<and> ds4_inv d'"
proof -
  have len: "r \<noteq> []" "r ! 0 = 0x02 \<longrightarrow> 35 \<le> length r" "r ! 0 \<noteq> 0x02 \<longrightarrow> 43 \<le> length r"
    using assms(2) by auto
  have "ds4_inv (ds4_request_firmware_version_report (ds4_calibrate r d))"
    using assms(1) shows_ctrl [of "ds4_calibrate r d"] unfolding ds4_inv_def
    by (simp add: ds4_request_firmware_version_report_def ds4_send_def ds4_calibrate_def
        ds4_shows_def Let_def ds4.inv_def)
  moreover have "ds4_inv (d\<lparr>d4_hw_version := a, d4_fw_version := b\<rparr>)" for a b
    using assms(1) by (simp add: ds4_inv_def ds4.inv_def ds4_shows_def)
  ultimately show ?thesis
    using assms(1) len by (auto simp: uni_hid_parser_ds4_parse_feature_report_def)
qed

lemma input_eq:
  assumes "calibrated (d4_gyro_calib d)" "calibrated (d4_accel_calib d)" "r \<noteq> []"
  shows "\<exists>c ch. uni_hid_parser_ds4_parse_input_report r d = Some (d\<lparr>d4_ctl := c, d4_child := ch\<rparr>)"
proof -
  have "\<exists>c ch. d = d\<lparr>d4_ctl := c, d4_child := ch\<rparr>"
    by (intro exI [of _ "d4_ctl d"] exI [of _ "d4_child d"]) simp
  moreover have "\<exists>c' ch. d\<lparr>d4_ctl := c\<rparr> = d\<lparr>d4_ctl := c', d4_child := ch\<rparr>" for c
    by (intro exI [of _ c] exI [of _ "d4_child d"]) simp
  ultimately show ?thesis
    using assms(3) apply_calibration_eq [OF assms(1)] apply_calibration_eq [OF assms(2)]
    by (auto simp: uni_hid_parser_ds4_parse_input_report_def ds4_parse_input_report_11_def
        ds4_parse_input_report_01_def)
qed

lemma input_step:
  assumes "ds4_inv d" "r \<noteq> []"
  shows "\<exists>d'. ds4_step (DS4_Input r) d = Some d' \<and> ds4_inv d'"
proof -
  let ?d = "uni_hid_parser_ds4_init_report d"
  have i: "ds4_inv ?d"
    using assms(1)
    by (simp add: uni_hid_parser_ds4_init_report_def ds4_inv_def ds4.inv_def ds4_shows_def)
  then obtain c ch where e: "uni_hid_parser_ds4_parse_input_report r ?d = Some (?d\<lparr>d4_ctl := c, d4_child := ch\<rparr>)"
    using input_eq [of ?d r] assms(2) by (auto simp: ds4_inv_def)
  have "ds4_inv (?d\<lparr>d4_ctl := c, d4_child := ch\<rparr>)"
    using i by (simp add: ds4_inv_def ds4.inv_def ds4_shows_def)
  with e show ?thesis by simp
qed

lemma lightbar_step:
  assumes "ds4_inv d"
  shows "ds4_inv (uni_hid_parser_ds4_set_lightbar_color r g b d)"
proof -
  let ?d = "d\<lparr>d4_red := r, d4_green := g, d4_blue := b\<rparr>"
  have "ds4_shows (uni_hid_parser_ds4_set_lightbar_color r g b d)"
    using shows_output [of ?d] assms
    by (simp add: uni_hid_parser_ds4_set_lightbar_color_def ds4_inv_def ds4_shows_def)
  with assms show ?thesis
    by (simp add: ds4_inv_def) (simp add: uni_hid_parser_ds4_set_lightbar_color_def ds4_send_defs
        ds4.inv_def)
qed

lemma rumble_step_inv:
  assumes "ds4_inv d" "rumble_ok False e (d4_rumble d)"
  shows "\<exists>d'. ds4_step (DS4_Rumble e) d = Some d' \<and> ds4_inv d'"
proof -
  obtain d' where d': "ds4_step (DS4_Rumble e) d = Some d'" "ds4.inv d'"
    using ds4.step_inv [of d e] assms by (auto simp: ds4_inv_def ds4.ok_def)
  then have "rumble_only d d'" by (simp add: rumble_step_only)
  with assms d' show ?thesis by (simp add: ds4_inv_def rumble_only_def)
qed

interpretation ds4_run: guarded_machine ds4_step ds4_ok ds4_inv
proof
  fix d e
  assume "ds4_inv d" "ds4_ok e d"
  then show "\<exists>d'. ds4_step e d = Some d' \<and> ds4_inv d'"
    using feature_step [of d] input_step [of d] lightbar_step [of d] rumble_step_inv [of d]
    by (cases e) auto
qed

section \<open>Properties\<close>

text \<open>
  C16: A DualShock 4 never traps and always shows its state: after setup, for every sequence of
  feature reports of full length, input reports, lightbar colours and rumble events (no rumble of
  duration zero), every division of the motion data has a nonzero divisor, every output report has 79
  bytes and a checksum the controller accepts, and the motors and the lightbar in the last one are
  the current ones, so that changing the colour keeps the rumble and ending the rumble keeps the
  colour; and a disabled rumble means motors off.
\<close>

theorem ds4_run_correct:
  assumes "d4_sent d = []" "admissible ds4_step ds4_ok es (uni_hid_parser_ds4_setup a v c d)"
  shows "\<exists>d'. run_steps ds4_step es (uni_hid_parser_ds4_setup a v c d) = Some d' \<and>
    (\<forall>k \<in> set (d4_gyro_calib d' @ d4_accel_calib d'). sens_denom k \<noteq> 0) \<and>
    (\<forall>r. (INTR, r) \<in> set (d4_sent d') \<longrightarrow> length r = 79 \<and> uni_crc32_le 0xffffffff r = CRC_RESIDUE) \<and>
    map_option (\<lambda>r. take 5 (drop 7 r)) (last_output (d4_sent d')) =
      Some [d4_weak d', d4_strong d', d4_red d', d4_green d', d4_blue d'] \<and>
    (rb_state (d4_rumble d') = RUMBLE_DISABLED \<longrightarrow> d4_weak d' = 0 \<and> d4_strong d' = 0)"
  using ds4_run.run_law [OF ds4_inv_setup [OF assms(1)] assms(2)]
  by (auto simp: ds4_inv_def calibrated_def ds4_shows_def ds4.inv_def dest: valid_outputD)

definition ds4_fresh :: ds4_device where
  "ds4_fresh = \<lparr>d4_ctl = controller_zero, d4_rumble = rumble_zero, d4_fw_version = 0,
     d4_hw_version = 0, d4_gyro_calib = [], d4_accel_calib = [], d4_red = 0, d4_green = 0,
     d4_blue = 0, d4_weak = 0, d4_strong = 0, d4_child = None, d4_sent = []\<rparr>"

lemmas ds4_setup_defs = uni_hid_parser_ds4_setup_def ds4_zero_instance_def Let_def
  ds4_request_calibration_report_def ds4_send_enable_lightbar_report_def ds4_send_defs

theorem ds4_run_correct_witness:
  "\<exists>d'. run_steps ds4_step [DS4_Lightbar 1 2 3, DS4_Rumble (Rumble_Play 0 100 7 8), DS4_Rumble Duration_Fires]
      (uni_hid_parser_ds4_setup True True True ds4_fresh) = Some d' \<and>
    map_option (\<lambda>r. take 5 (drop 7 r)) (last_output (d4_sent d')) =
      Some [d4_weak d', d4_strong d', d4_red d', d4_green d', d4_blue d']"
proof -
  let ?es = "[DS4_Lightbar 1 2 3, DS4_Rumble (Rumble_Play 0 100 7 8), DS4_Rumble Duration_Fires]"
  have "admissible ds4_step ds4_ok ?es (uni_hid_parser_ds4_setup True True True ds4_fresh)"
    by (simp add: ds4_setup_defs ds4_fresh_def rumble_zero_def rumble_play_def rumble_remove_def
        ds4_play_dual_rumble_now_def rumble_arm_def start_timer_def ds4_set_rumble_def
        uni_hid_parser_ds4_set_lightbar_color_def split: option.splits)
  moreover have "d4_sent ds4_fresh = []" by (simp add: ds4_fresh_def)
  ultimately show ?thesis using ds4_run_correct [of ds4_fresh ?es True True True] by blast
qed

text \<open>
  DualShock 4 rumble always ends: in the same runs, expiring whatever timer is registered at
  most twice leaves the driver disabled, without a timer, and with both motors off.
\<close>

theorem ds4_rumble_stops:
  assumes "d4_sent d = []" "admissible ds4_step ds4_ok es (uni_hid_parser_ds4_setup a v c d)"
  shows "\<exists>d0 d1 d2. run_steps ds4_step es (uni_hid_parser_ds4_setup a v c d) = Some d0 \<and>
    ds4.fire d0 = Some d1 \<and> ds4.fire d1 = Some d2 \<and> rb_state (d4_rumble d2) = RUMBLE_DISABLED \<and>
    no_timers (d4_rumble d2) \<and> d4_weak d2 = 0 \<and> d4_strong d2 = 0"
proof -
  obtain d0 where d0: "run_steps ds4_step es (uni_hid_parser_ds4_setup a v c d) = Some d0" "ds4.inv d0"
    using ds4_run.run_law [OF ds4_inv_setup [OF assms(1)] assms(2)] by (auto simp: ds4_inv_def)
  with ds4.fire_twice [OF d0(2)] show ?thesis by (auto simp: ds4.at_rest_def)
qed

theorem ds4_rumble_stops_witness:
  "\<exists>d0 d1 d2. run_steps ds4_step [DS4_Rumble (Rumble_Play 10 100 7 8)]
      (uni_hid_parser_ds4_setup True True True ds4_fresh) = Some d0 \<and>
    ds4.fire d0 = Some d1 \<and> ds4.fire d1 = Some d2 \<and> rb_state (d4_rumble d2) = RUMBLE_DISABLED"
proof -
  let ?es = "[DS4_Rumble (Rumble_Play 10 100 7 8)]"
  have "admissible ds4_step ds4_ok ?es (uni_hid_parser_ds4_setup True True True ds4_fresh)"
    by (simp split: option.splits)
  moreover have "d4_sent ds4_fresh = []" by (simp add: ds4_fresh_def)
  ultimately show ?thesis using ds4_rumble_stops [of ds4_fresh ?es True True True] by blast
qed

text \<open>
  The driver stops with a failed assertion on two request sequences any application can make: a
  delayed rumble of duration zero when its delay expires, and an immediate request of duration zero
  while a delayed rumble is pending.
\<close>

theorem ds4_zero_duration_traps:
  assumes "start_delay \<noteq> 0"
  shows "run_steps ds4_step [DS4_Rumble (Rumble_Play start_delay 0 w s), DS4_Rumble Delayed_Fires]
      (uni_hid_parser_ds4_setup a v c d) = None \<and>
    run_steps ds4_step [DS4_Rumble (Rumble_Play start_delay dur w s), DS4_Rumble (Rumble_Play 0 0 w' s')]
      (uni_hid_parser_ds4_setup a v c d) = None"
proof -
  let ?d = "uni_hid_parser_ds4_setup a v c d"
  have "d4_rumble ?d = rumble_zero" by (simp add: ds4_setup_defs)
  then have "ds4_step (DS4_Rumble (Rumble_Play start_delay t w s)) ?d =
      Some (ds4_set_rumble (rumble_zero\<lparr>rb_timer_delayed_start := Some start_delay, rb_state := RUMBLE_DELAYED,
         rb_duration_ms := t, rb_strong_magnitude := ucast s, rb_weak_magnitude := ucast w\<rparr>) ?d)" for t
    using assms by (simp add: rumble_play_def rumble_delay_def rumble_remove_def start_timer_def
        rumble_zero_def ds4_set_rumble_def Let_def)
  then show ?thesis
    by (simp add: ds4_set_rumble_def rumble_on_def ds4_play_dual_rumble_now_def ds4_stop_rumble_now_def
        rumble_play_def rumble_remove_def Let_def)
qed

theorem ds4_zero_duration_traps_witness:
  "run_steps ds4_step [DS4_Rumble (Rumble_Play 10 0 5 5), DS4_Rumble Delayed_Fires]
      (uni_hid_parser_ds4_setup True True True ds4_fresh) = None"
  using ds4_zero_duration_traps [of 10 5 5 True True True ds4_fresh] by simp

end
