(* ===== verification/Parser_DS5.thy ===== *)
theory Parser_DS5
  imports Sony_Common
begin

text \<open>
  \<^verbatim>\<open>components/bluepad32/parser/uni_hid_parser_ds5.c\<close>: the DualSense. The three-step handshake that
  ends in the ready state, the input report, the adaptive trigger effects, LEDs and rumble. Reports
  go to \<open>d5_sent\<close>; the results of the device functions called when the handshake completes are
  arguments of the feature report that completes it.
\<close>

section \<open>State\<close>

datatype ds5_channel = D5_INTR | D5_CTRL

datatype ds5_state_t = DS5_STATE_INITIAL | DS5_STATE_PAIRING_INFO_REQUEST
  | DS5_STATE_FIRMWARE_VERSION_REQUEST | DS5_STATE_CALIBRATION_REQUEST | DS5_STATE_READY

record ds5_device =
  d5_ctl :: uni_controller
  d5_product_id :: u16
  d5_rumble :: rumble
  d5_output_seq :: u8
  d5_state :: ds5_state_t
  d5_hw_version :: u32
  d5_fw_version :: u32
  d5_update_version :: u16
  d5_use_vibration2 :: bool
  d5_gyro_calib :: "calibration_data list"
  d5_accel_calib :: "calibration_data list"
  d5_child :: "sony_child option"
  d5_sent :: "(ds5_channel \<times> u8 list) list"

definition DS5_FLAG0_COMPATIBLE_VIBRATION :: u8 where "DS5_FLAG0_COMPATIBLE_VIBRATION = BIT 0"
definition DS5_FLAG0_HAPTICS_SELECT :: u8 where "DS5_FLAG0_HAPTICS_SELECT = BIT 1"
definition DS5_FLAG0_FFB_RIGHT :: u8 where "DS5_FLAG0_FFB_RIGHT = BIT 2"
definition DS5_FLAG0_FFB_LEFT :: u8 where "DS5_FLAG0_FFB_LEFT = BIT 3"
definition DS5_FLAG1_LIGHTBAR_CONTROL_ENABLE :: u8 where "DS5_FLAG1_LIGHTBAR_CONTROL_ENABLE = BIT 2"
definition DS5_FLAG1_PLAYER_LED_CONTROL_ENABLE :: u8 where "DS5_FLAG1_PLAYER_LED_CONTROL_ENABLE = BIT 4"
definition DS5_FLAG2_LIGHTBAR_SETUP_CONTROL_ENABLE :: u8 where
  "DS5_FLAG2_LIGHTBAR_SETUP_CONTROL_ENABLE = BIT 1"
definition DS5_FLAG2_COMPATIBLE_VIBRATION2 :: u8 where "DS5_FLAG2_COMPATIBLE_VIBRATION2 = BIT 2"
definition DS5_LIGHTBAR_SETUP_LIGHT_OUT :: u8 where "DS5_LIGHTBAR_SETUP_LIGHT_OUT = BIT 1"

text \<open>The members of \<open>ds5_output_report_t\<close> that the driver sets; the others are zero.\<close>

record ds5_output =
  o_flag0 :: u8
  o_flag1 :: u8
  o_motor_right :: u8
  o_motor_left :: u8
  o_right_ffb :: "u8 list"
  o_left_ffb :: "u8 list"
  o_flag2 :: u8
  o_lightbar_setup :: u8
  o_player_leds :: u8
  o_red :: u8
  o_green :: u8
  o_blue :: u8

definition ds5_output_zero :: ds5_output where
  "ds5_output_zero = \<lparr>o_flag0 = 0, o_flag1 = 0, o_motor_right = 0, o_motor_left = 0,
     o_right_ffb = replicate 11 0, o_left_ffb = replicate 11 0, o_flag2 = 0, o_lightbar_setup = 0,
     o_player_leds = 0, o_red = 0, o_green = 0, o_blue = 0\<rparr>"

definition ds5_output_bytes :: "u8 \<Rightarrow> ds5_output \<Rightarrow> u8 list" where
  "ds5_output_bytes seq_tag out =
     [0xa2, 0x31, seq_tag, 0x10, o_flag0 out, o_flag1 out, o_motor_right out, o_motor_left out,
      0, 0, 0, 0, 0, 0] @ o_right_ffb out @ o_left_ffb out @ replicate 6 0 @
     [o_flag2 out, 0, 0, o_lightbar_setup out, 0, o_player_leds out, o_red out, o_green out,
      o_blue out] @ replicate 24 0"

definition ds5_send :: "ds5_channel \<Rightarrow> u8 list \<Rightarrow> ds5_device \<Rightarrow> ds5_device" where
  "ds5_send ch r d = d\<lparr>d5_sent := d5_sent d @ [(ch, r)]\<rparr>"

definition ds5_send_output_report :: "ds5_output \<Rightarrow> ds5_device \<Rightarrow> ds5_device" where
  "ds5_send_output_report out d =
     (let body = ds5_output_bytes (push_bit 4 (d5_output_seq d)) out;
          s = d5_output_seq d + 1;
          d1 = d\<lparr>d5_output_seq := if s = 15 then 0 else s\<rparr>
      in ds5_send D5_INTR (body @ u32_bytes (NOT (uni_crc32_le 0xffffffff body))) d1)"

section \<open>Setup and the handshake\<close>

definition ds5_request_pairing_info_report :: "ds5_device \<Rightarrow> ds5_device" where
  "ds5_request_pairing_info_report d =
     ds5_send D5_CTRL [0x43, 0x09] (d\<lparr>d5_state := DS5_STATE_PAIRING_INFO_REQUEST\<rparr>)"

definition ds5_request_firmware_version_report :: "ds5_device \<Rightarrow> ds5_device" where
  "ds5_request_firmware_version_report d =
     ds5_send D5_CTRL [0x43, 0x20] (d\<lparr>d5_state := DS5_STATE_FIRMWARE_VERSION_REQUEST\<rparr>)"

definition ds5_request_calibration_report :: "ds5_device \<Rightarrow> ds5_device" where
  "ds5_request_calibration_report d =
     ds5_send D5_CTRL [0x43, 0x05] (d\<lparr>d5_state := DS5_STATE_CALIBRATION_REQUEST\<rparr>)"

definition uni_hid_parser_ds5_setup :: "ds5_device \<Rightarrow> ds5_device" where
  "uni_hid_parser_ds5_setup d = ds5_request_pairing_info_report
     (d\<lparr>d5_rumble := rumble_zero, d5_output_seq := 0, d5_state := DS5_STATE_INITIAL,
        d5_hw_version := 0, d5_fw_version := 0, d5_update_version := 0, d5_use_vibration2 := False,
        d5_gyro_calib := [default_gyro, default_gyro, default_gyro],
        d5_accel_calib := [default_accel, default_accel, default_accel]\<rparr>)"

definition uni_hid_parser_ds5_init_report :: "ds5_device \<Rightarrow> ds5_device" where
  "uni_hid_parser_ds5_init_report d = d\<lparr>d5_ctl := controller_zero\<lparr>klass := CLASS_GAMEPAD\<rparr>,
     d5_child := map_option child_init_report (d5_child d)\<rparr>"

definition ds5_send_enable_lightbar_report :: "bool \<Rightarrow> bool \<Rightarrow> bool \<Rightarrow> ds5_device \<Rightarrow> ds5_device" where
  "ds5_send_enable_lightbar_report accepted has_virtual child_accepted d =
     (let d1 = ds5_send_output_report (ds5_output_zero\<lparr>o_blue := 255,
                 o_flag1 := DS5_FLAG1_LIGHTBAR_CONTROL_ENABLE,
                 o_flag2 := DS5_FLAG2_LIGHTBAR_SETUP_CONTROL_ENABLE,
                 o_lightbar_setup := DS5_LIGHTBAR_SETUP_LIGHT_OUT\<rparr>) d;
          d2 = d1\<lparr>d5_state := DS5_STATE_READY\<rparr>
      in if \<not> accepted then d2
         else if \<not> has_virtual then d2
         else if \<not> child_accepted then d2\<lparr>d5_child := None\<rparr>
         else d2\<lparr>d5_child := Some child_fresh\<rparr>)"

definition ds5_calibrate :: "u8 list \<Rightarrow> ds5_device \<Rightarrow> ds5_device" where
  "ds5_calibrate r d =
     (let speed_2x = i16_at r 19 + i16_at r 21;
          pitch_bias = i16_at r 1; yaw_bias = i16_at r 3; roll_bias = i16_at r 5
      in d\<lparr>d5_gyro_calib := map (sanity_check default_gyro)
             [gyro_axis speed_2x (i16_at r 7 - pitch_bias) (i16_at r 9 + pitch_bias),
              gyro_axis speed_2x (i16_at r 11 - yaw_bias) (i16_at r 13 - yaw_bias),
              gyro_axis speed_2x (i16_at r 15 - roll_bias) (i16_at r 17 - roll_bias)],
           d5_accel_calib := map (sanity_check default_accel)
             [accel_axis (i16_at r 23) (i16_at r 25), accel_axis (i16_at r 27) (i16_at r 29),
              accel_axis (i16_at r 31) (i16_at r 33)]\<rparr>)"

definition u32_at :: "u8 list \<Rightarrow> nat \<Rightarrow> u32" where
  "u32_at r i = ucast (u16_at r i) OR push_bit 16 (ucast (u16_at r (i + 2)))"

definition ds5_firmware_version :: "u8 list \<Rightarrow> ds5_device \<Rightarrow> ds5_device" where
  "ds5_firmware_version r d = d\<lparr>d5_hw_version := u32_at r 24, d5_fw_version := u32_at r 28,
     d5_update_version := u16_at r 44,
     d5_use_vibration2 := (d5_product_id d = 0x0df2 \<or> u16_at r 44 \<ge> 0x0215)\<rparr>"

definition uni_hid_parser_ds5_parse_feature_report ::
  "bool \<Rightarrow> bool \<Rightarrow> bool \<Rightarrow> u8 list \<Rightarrow> ds5_device \<Rightarrow> ds5_device option" where
  "uni_hid_parser_ds5_parse_feature_report accepted has_virtual child_accepted report d =
     (if report = [] then None
      else if report ! 0 = 0x09 then Some (ds5_request_firmware_version_report d)
      else if report ! 0 = 0x20
      then (if length report < 46 then None
            else Some (ds5_request_calibration_report (ds5_firmware_version report d)))
      else if report ! 0 = 0x05
      then (if length report < 35 then None
            else Some (ds5_send_enable_lightbar_report accepted has_virtual child_accepted
              (ds5_calibrate report d)))
      else Some d)"

section \<open>Input reports\<close>

definition ds5_parse_mouse :: "u8 list \<Rightarrow> sony_child \<Rightarrow> sony_child" where
  "ds5_parse_mouse r ch = sony_touch (r ! 32) (r ! 33) (r ! 34) (r ! 35) (r ! 9) ch"

definition ds5_pad :: "u8 list \<Rightarrow> uni_gamepad \<Rightarrow> uni_gamepad" where
  "ds5_pad r g =
     (let g1 = sony_pad (r ! 0) (r ! 1) (r ! 2) (r ! 3) (r ! 7) (r ! 8) (r ! 9) (r ! 4) (r ! 5) g
      in g1\<lparr>misc_buttons := or_if (has_bits (r ! 9) 0x04) MISC_BUTTON_CAPTURE (misc_buttons g1)\<rparr>)"

definition uni_hid_parser_ds5_parse_input_report :: "u8 list \<Rightarrow> ds5_device \<Rightarrow> ds5_device option" where
  "uni_hid_parser_ds5_parse_input_report report d =
     (if d5_state d \<noteq> DS5_STATE_READY then Some d
      else if report = [] then None
      else if report ! 0 \<noteq> 0x31 then Some d
      else if length report \<noteq> 78 then Some d
      else
        let r = drop 2 report
        in case apply_calibration (d5_gyro_calib d) r 15 of None \<Rightarrow> None
           | Some gs \<Rightarrow> (case apply_calibration (d5_accel_calib d) r 21 of None \<Rightarrow> None
           | Some as \<Rightarrow> Some (d\<lparr>
               d5_ctl := (upd_gp (\<lambda>g. (ds5_pad r g)\<lparr>gyro := gs, accel := as\<rparr>) (d5_ctl d))
                 \<lparr>battery := sony_battery (r ! 52)\<rparr>,
               d5_child := map_option (ds5_parse_mouse r) (d5_child d)\<rparr>)))"

section \<open>Adaptive triggers, LEDs and rumble\<close>

text \<open>
  An effect is its code and ten data bytes; None is the invalid effect, whose data the code leaves
  unset and which \<open>ds5_set_adaptive_trigger_effect\<close> refuses.
\<close>

type_synonym trigger_effect = "(u8 \<times> u8 list) option"

datatype ds5_adaptive_trigger_type = TRIGGER_LEFT | TRIGGER_RIGHT

definition ds5_new_adaptive_trigger_effect_off :: trigger_effect where
  "ds5_new_adaptive_trigger_effect_off = Some (0x05, replicate 10 0)"

text \<open>The loop over the zones: 3 bits of force and one active bit per zone from \<open>position\<close> on.\<close>

definition zone_loop :: "nat \<Rightarrow> u8 \<Rightarrow> u32 \<times> u16" where
  "zone_loop position force =
     foldl (\<lambda>(forces, active) i. (forces OR push_bit (3 * i) (ucast force), active OR push_bit i 1))
       (0, 0) [position..<10]"

definition zone_bytes :: "u32 \<times> u16 \<Rightarrow> u8 list" where
  "zone_bytes z = (case z of (forces, active) \<Rightarrow>
     [ucast active, ucast (drop_bit 8 active), ucast forces, ucast (drop_bit 8 forces),
      ucast (drop_bit 16 forces), ucast (drop_bit 24 forces)])"

definition ds5_new_adaptive_trigger_effect_feedback :: "u8 \<Rightarrow> u8 \<Rightarrow> trigger_effect" where
  "ds5_new_adaptive_trigger_effect_feedback position strength =
     (if position > 9 then None
      else if strength > 8 then None
      else Some (0x21, zone_bytes (zone_loop (unat position) ((strength - 1) AND 0x07)) @ replicate 4 0))"

definition ds5_new_adaptive_trigger_effect_weapon :: "u8 \<Rightarrow> u8 \<Rightarrow> u8 \<Rightarrow> trigger_effect" where
  "ds5_new_adaptive_trigger_effect_weapon start_position end_position strength =
     (if start_position < 2 \<or> start_position > 7 then None
      else if end_position \<le> start_position \<or> end_position > 8 then None
      else if strength > 8 then None
      else let zones = (push_bit (unat start_position) 1 OR push_bit (unat end_position) 1 :: u16)
           in Some (0x25, [ucast zones, ucast (drop_bit 8 zones), strength - 1] @ replicate 7 0))"

definition ds5_new_adaptive_trigger_effect_vibration :: "u8 \<Rightarrow> u8 \<Rightarrow> u8 \<Rightarrow> trigger_effect" where
  "ds5_new_adaptive_trigger_effect_vibration position amplitude frequency =
     (if position > 9 then None
      else if amplitude > 8 then None
      else Some (0x26, zone_bytes (zone_loop (unat position) ((amplitude - 1) AND 0x07)) @
        [0, 0, frequency, 0]))"

definition ds5_set_adaptive_trigger_effect ::
  "ds5_adaptive_trigger_type \<Rightarrow> trigger_effect \<Rightarrow> ds5_device \<Rightarrow> ds5_device" where
  "ds5_set_adaptive_trigger_effect trigger_type effect d =
     (case effect of None \<Rightarrow> d
      | Some (code, data) \<Rightarrow>
          (case trigger_type of
             TRIGGER_LEFT \<Rightarrow> ds5_send_output_report
               (ds5_output_zero\<lparr>o_flag0 := DS5_FLAG0_FFB_LEFT, o_left_ffb := code # data\<rparr>) d
           | TRIGGER_RIGHT \<Rightarrow> ds5_send_output_report
               (ds5_output_zero\<lparr>o_flag0 := DS5_FLAG0_FFB_RIGHT, o_right_ffb := code # data\<rparr>) d))"

definition led_values :: "u8 list" where
  "led_values = [0x00, BIT 2, BIT 1 OR BIT 3, BIT 0 OR BIT 2 OR BIT 4, BIT 0 OR BIT 1 OR BIT 3 OR BIT 4]"

definition uni_hid_parser_ds5_set_player_leds :: "u8 \<Rightarrow> ds5_device \<Rightarrow> ds5_device" where
  "uni_hid_parser_ds5_set_player_leds v d = ds5_send_output_report
     (ds5_output_zero\<lparr>o_player_leds := led_values ! (unat v mod 5),
        o_flag1 := DS5_FLAG1_PLAYER_LED_CONTROL_ENABLE\<rparr>) d"

definition uni_hid_parser_ds5_set_lightbar_color :: "u8 \<Rightarrow> u8 \<Rightarrow> u8 \<Rightarrow> ds5_device \<Rightarrow> ds5_device" where
  "uni_hid_parser_ds5_set_lightbar_color r g b d = ds5_send_output_report
     (ds5_output_zero\<lparr>o_red := r, o_green := g, o_blue := b,
        o_flag1 := DS5_FLAG1_LIGHTBAR_CONTROL_ENABLE\<rparr>) d"

definition ds5_set_rumble :: "rumble \<Rightarrow> ds5_device \<Rightarrow> ds5_device" where
  "ds5_set_rumble r d = d\<lparr>d5_rumble := r\<rparr>"

text \<open>The flags of a motor report, for the old and the new way to rumble.\<close>

definition ds5_motor_output :: "u8 \<Rightarrow> u8 \<Rightarrow> ds5_device \<Rightarrow> ds5_output" where
  "ds5_motor_output right left d =
     (if d5_use_vibration2 d
      then ds5_output_zero\<lparr>o_flag0 := DS5_FLAG0_HAPTICS_SELECT, o_motor_right := right,
             o_motor_left := left, o_flag2 := DS5_FLAG2_COMPATIBLE_VIBRATION2\<rparr>
      else ds5_output_zero\<lparr>o_flag0 := DS5_FLAG0_HAPTICS_SELECT OR DS5_FLAG0_COMPATIBLE_VIBRATION,
             o_motor_right := right, o_motor_left := left\<rparr>)"

definition ds5_stop_rumble_now :: "ds5_device \<Rightarrow> ds5_device option" where
  "ds5_stop_rumble_now d =
     (if rb_state (d5_rumble d) = RUMBLE_DISABLED then None
      else Some (ds5_send_output_report (ds5_motor_output 0 0 d)
        (d\<lparr>d5_rumble := (d5_rumble d)\<lparr>rb_state := RUMBLE_DISABLED\<rparr>\<rparr>)))"

definition ds5_play_dual_rumble_now :: "u16 \<Rightarrow> u8 \<Rightarrow> u8 \<Rightarrow> ds5_device \<Rightarrow> ds5_device option" where
  "ds5_play_dual_rumble_now duration_ms weak strong d =
     (if duration_ms = 0
      then (if rb_state (d5_rumble d) \<noteq> RUMBLE_DISABLED then ds5_stop_rumble_now d else Some d)
      else
        let d1 = ds5_send_output_report (ds5_motor_output weak strong d) d
        in map_option (\<lambda>r. ds5_set_rumble r d1) (rumble_arm duration_ms (d5_rumble d1)))"

definition uni_hid_parser_ds5_play_dual_rumble ::
  "u16 \<Rightarrow> u16 \<Rightarrow> u8 \<Rightarrow> u8 \<Rightarrow> ds5_device \<Rightarrow> ds5_device option" where
  "uni_hid_parser_ds5_play_dual_rumble =
     rumble_play d5_rumble ds5_set_rumble ds5_play_dual_rumble_now"

definition on_ds5_set_rumble_on :: "ds5_device \<Rightarrow> ds5_device option" where
  "on_ds5_set_rumble_on = rumble_on d5_rumble ds5_play_dual_rumble_now"

definition on_ds5_set_rumble_off :: "ds5_device \<Rightarrow> ds5_device option" where
  "on_ds5_set_rumble_off = ds5_stop_rumble_now"

section \<open>Zones\<close>

lemma zone_loop_bits:
  assumes "\<And>k. 3 \<le> k \<Longrightarrow> \<not> bit f k"
  shows "bit (fst (zone_loop p f)) n \<longleftrightarrow> n < 32 \<and> p \<le> n div 3 \<and> n div 3 < 10 \<and> bit f (n mod 3)"
    "bit (snd (zone_loop p f)) n \<longleftrightarrow> p \<le> n \<and> n < 10"
proof -
  have fst: "bit (fst (foldl (\<lambda>(z, a) i. (z OR push_bit (3 * i) (ucast f), a OR push_bit i 1)) (z0, a0) is)) n \<longleftrightarrow>
      bit (z0 :: u32) n \<or> n < 32 \<and> (\<exists>i \<in> set is. 3 * i \<le> n \<and> bit f (n - 3 * i))"
    for z0 and a0 :: u16 and "is"
    by (induction "is" arbitrary: z0 a0) (auto simp: bit_simps dest: bit_imp_le_length)
  have snd: "bit (snd (foldl (\<lambda>(z, a) i. (z OR push_bit (3 * i) (ucast f), a OR push_bit i 1)) (z0, a0) is)) n \<longleftrightarrow>
      bit a0 n \<or> n < 16 \<and> n \<in> set is" for z0 :: u32 and a0 :: u16 and "is"
    by (induction "is" arbitrary: z0 a0) (auto simp: bit_simps)
  have pos: "3 * i \<le> n \<and> bit f (n - 3 * i) \<longleftrightarrow> i = n div 3 \<and> bit f (n mod 3)" for i
  proof
    assume a: "3 * i \<le> n \<and> bit f (n - 3 * i)"
    then have "n - 3 * i < 3" using assms not_le_imp_less by blast
    moreover have "3 * i \<le> n" using a by blast
    ultimately have "i = n div 3" by presburger
    with a show "i = n div 3 \<and> bit f (n mod 3)" by (simp add: minus_mult_div_eq_mod)
  qed (simp add: minus_mult_div_eq_mod)
  show "bit (fst (zone_loop p f)) n \<longleftrightarrow> n < 32 \<and> p \<le> n div 3 \<and> n div 3 < 10 \<and> bit f (n mod 3)"
    unfolding zone_loop_def fst by (auto simp: pos)
  show "bit (snd (zone_loop p f)) n \<longleftrightarrow> p \<le> n \<and> n < 10"
    unfolding zone_loop_def snd by auto
qed

text \<open>What a controller reads back from the six zone bytes.\<close>

definition zone_active :: "u8 list \<Rightarrow> nat \<Rightarrow> bool" where
  "zone_active data i = bit (u16_at data 0) i"

definition zone_force :: "u8 list \<Rightarrow> nat \<Rightarrow> u32" where
  "zone_force data i = drop_bit (3 * i) (u32_at data 2) AND 7"

lemma u16_at_bytes: "u16_at (ucast w # ucast (drop_bit 8 w) # xs) 0 = w" for w :: u16
  by (rule bit_word_eqI) (auto simp: u16_at_def bit_simps)

lemma u32_at_bytes:
  "u32_at (a # b # ucast w # ucast (drop_bit 8 w) # ucast (drop_bit 16 w) # ucast (drop_bit 24 w) # xs) 2 = w"
  for w :: u32
proof (rule bit_word_eqI)
  fix n
  assume "n < LENGTH(32)"
  then consider "n < 8" | "8 \<le> n" "n < 16" | "16 \<le> n" "n < 24" | "24 \<le> n" "n < 32" by fastforce
  then show "bit (u32_at (a # b # ucast w # ucast (drop_bit 8 w) # ucast (drop_bit 16 w) #
      ucast (drop_bit 24 w) # xs) 2) n = bit w n"
    by cases (auto simp: u32_at_def u16_at_def bit_simps less_diff_conv2 le_diff_conv2)
qed

lemma length_zone_bytes [simp]: "length (zone_bytes z) = 6"
  by (simp add: zone_bytes_def case_prod_beta)

lemma zones_read_back:
  assumes "\<And>k. 3 \<le> k \<Longrightarrow> \<not> bit (f :: u8) k" "i < 10"
  shows "zone_active (zone_bytes (zone_loop p f) @ xs) i \<longleftrightarrow> p \<le> i"
    "zone_force (zone_bytes (zone_loop p f) @ xs) i = (if p \<le> i then ucast f else 0)"
proof -
  obtain z a where za: "zone_loop p f = (z, a)" by fastforce
  show "zone_active (zone_bytes (zone_loop p f) @ xs) i \<longleftrightarrow> p \<le> i"
    using zone_loop_bits(2) [OF assms(1), of p i] assms(2)
    by (simp add: zone_active_def zone_bytes_def za u16_at_bytes)
  have m: "(7 :: u32) = mask 3" by (simp add: mask_eq_exp_minus_1)
  have z: "bit z n \<longleftrightarrow> n < 32 \<and> p \<le> n div 3 \<and> n div 3 < 10 \<and> bit f (n mod 3)" for n
    using zone_loop_bits(1) [OF assms(1), of p n] by (simp add: za)
  have f: "bit f n \<Longrightarrow> n < 3 \<and> n mod 3 = n" for n
    using assms(1) [of n] by (cases "n < 3") auto
  have "drop_bit (3 * i) z AND 7 = (if p \<le> i then ucast f else 0)"
    unfolding m using assms(2)
    by (intro bit_word_eqI) (auto simp: bit_simps z not_less f dest: f)
  then show "zone_force (zone_bytes (zone_loop p f) @ xs) i = (if p \<le> i then ucast f else 0)"
    by (simp add: zone_force_def zone_bytes_def za u32_at_bytes)
qed

section \<open>The stream of output reports\<close>

definition outputs :: "(ds5_channel \<times> u8 list) list \<Rightarrow> u8 list list" where
  "outputs ms = map snd (filter (\<lambda>m. fst m = D5_INTR) ms)"

definition motors_of :: "u8 list list \<Rightarrow> u8 \<times> u8" where
  "motors_of rs = foldl (\<lambda>m r. if bit (r ! 4) 1 then (r ! 6, r ! 7) else m) (0, 0) rs"

definition seq_tag :: "nat \<Rightarrow> u8" where
  "seq_tag i = push_bit 4 (of_nat (i mod 15))"

text \<open>Every report is well formed, and the sequence numbers count modulo 15 without a gap.\<close>

definition ds5_stream :: "ds5_device \<Rightarrow> bool" where
  "ds5_stream d \<longleftrightarrow>
     (\<forall>r \<in> set (outputs (d5_sent d)). length r = 79 \<and> uni_crc32_le 0xffffffff r = CRC_RESIDUE) \<and>
     map (\<lambda>r. r ! 2) (outputs (d5_sent d)) = map seq_tag [0..<length (outputs (d5_sent d))] \<and>
     d5_output_seq d = of_nat (length (outputs (d5_sent d)) mod 15)"

definition output_ok :: "ds5_output \<Rightarrow> bool" where
  "output_ok out \<longleftrightarrow> length (o_right_ffb out) = 11 \<and> length (o_left_ffb out) = 11"

lemma output_ok_zero [simp]: "output_ok ds5_output_zero"
  by (simp add: output_ok_def ds5_output_zero_def)

lemma output_ok_upd [simp]:
  "output_ok (q\<lparr>o_flag0 := x\<rparr>) = output_ok q" "output_ok (q\<lparr>o_flag1 := x\<rparr>) = output_ok q"
  "output_ok (q\<lparr>o_flag2 := x\<rparr>) = output_ok q" "output_ok (q\<lparr>o_lightbar_setup := x\<rparr>) = output_ok q"
  "output_ok (q\<lparr>o_player_leds := x\<rparr>) = output_ok q" "output_ok (q\<lparr>o_red := x\<rparr>) = output_ok q"
  "output_ok (q\<lparr>o_green := x\<rparr>) = output_ok q" "output_ok (q\<lparr>o_blue := x\<rparr>) = output_ok q"
  "output_ok (q\<lparr>o_motor_right := x\<rparr>) = output_ok q" "output_ok (q\<lparr>o_motor_left := x\<rparr>) = output_ok q"
  by (simp_all add: output_ok_def)

lemma output_ok_motor [simp]: "output_ok (ds5_motor_output a b d)"
  by (simp add: ds5_motor_output_def)

lemma outputs_send [simp]:
  "outputs (ms @ [(D5_INTR, r)]) = outputs ms @ [r]" "outputs (ms @ [(D5_CTRL, r)]) = outputs ms"
  by (simp_all add: outputs_def)

lemma seq_step:
  "(if of_nat (n mod 15) + 1 = (15 :: u8) then 0 else of_nat (n mod 15) + 1) = (of_nat (Suc n mod 15) :: u8)"
proof -
  have "n mod 15 = 0 \<or> n mod 15 = 1 \<or> n mod 15 = 2 \<or> n mod 15 = 3 \<or> n mod 15 = 4 \<or> n mod 15 = 5 \<or>
      n mod 15 = 6 \<or> n mod 15 = 7 \<or> n mod 15 = 8 \<or> n mod 15 = 9 \<or> n mod 15 = 10 \<or>
      n mod 15 = 11 \<or> n mod 15 = 12 \<or> n mod 15 = 13 \<or> n mod 15 = 14" by presburger
  moreover have "Suc n mod 15 = Suc (n mod 15) mod 15" by (simp add: mod_Suc_eq)
  ultimately show ?thesis by (elim disjE) simp_all
qed

lemma output_bytes:
  assumes "output_ok out"
  shows "length (ds5_output_bytes s out) = 75" "(ds5_output_bytes s out @ xs) ! 2 = s"
    "(ds5_output_bytes s out @ xs) ! 4 = o_flag0 out" "(ds5_output_bytes s out @ xs) ! 6 = o_motor_right out"
    "(ds5_output_bytes s out @ xs) ! 7 = o_motor_left out"
  using assms by (simp_all add: ds5_output_bytes_def output_ok_def)

definition motors :: "ds5_device \<Rightarrow> u8 \<times> u8" where
  "motors d = motors_of (outputs (d5_sent d))"

lemma stream_output:
  assumes "ds5_stream d" "output_ok out"
  shows "ds5_stream (ds5_send_output_report out d)"
proof -
  let ?body = "ds5_output_bytes (push_bit 4 (d5_output_seq d)) out"
  let ?r = "?body @ u32_bytes (NOT (uni_crc32_le 0xffffffff ?body))"
  have o: "outputs (d5_sent (ds5_send_output_report out d)) = outputs (d5_sent d) @ [?r]"
    by (simp add: ds5_send_output_report_def Let_def ds5_send_def)
  have s: "d5_output_seq (ds5_send_output_report out d) =
      (if d5_output_seq d + 1 = 15 then 0 else d5_output_seq d + 1)"
    by (simp add: ds5_send_output_report_def Let_def ds5_send_def)
  have "length ?r = 79" by (simp add: output_bytes [OF assms(2)] u32_bytes_def)
  moreover have "uni_crc32_le 0xffffffff ?r = CRC_RESIDUE" by (rule crc_residue)
  moreover have "?r ! 2 = seq_tag (length (outputs (d5_sent d)))"
    using assms(1) by (simp add: output_bytes [OF assms(2)] ds5_stream_def seq_tag_def)
  ultimately show ?thesis
    using assms(1) seq_step [of "length (outputs (d5_sent d))"]
    by (auto simp: ds5_stream_def o s)
qed

lemma motors_output:
  assumes "output_ok out"
  shows "motors (ds5_send_output_report out d) =
    (if bit (o_flag0 out) 1 then (o_motor_right out, o_motor_left out) else motors d)"
  by (simp add: motors_def motors_of_def ds5_send_output_report_def Let_def ds5_send_def
      output_bytes [OF assms])

lemma motors_motor_output [simp]: "motors (ds5_send_output_report (ds5_motor_output a b d) d') = (a, b)"
  by (simp add: motors_output) (simp add: ds5_motor_output_def ds5_output_zero_def
      DS5_FLAG0_HAPTICS_SELECT_def DS5_FLAG0_COMPATIBLE_VIBRATION_def bit_BIT bit_or_iff)

lemma send_same [simp]:
  "d5_rumble (ds5_send_output_report out d) = d5_rumble d"
  "d5_gyro_calib (ds5_send_output_report out d) = d5_gyro_calib d"
  "d5_accel_calib (ds5_send_output_report out d) = d5_accel_calib d"
  "d5_state (ds5_send_output_report out d) = d5_state d"
  by (simp_all add: ds5_send_output_report_def Let_def ds5_send_def)

lemma motors_cong [simp]:
  "motors (ds5_set_rumble r d) = motors d" "motors (d\<lparr>d5_rumble := x\<rparr>) = motors d"
  by (simp_all add: motors_def ds5_set_rumble_def)

interpretation ds5: rumble_driver d5_rumble ds5_set_rumble ds5_play_dual_rumble_now
  ds5_stop_rumble_now "\<lambda>d. motors d = (0, 0)" True
  by unfold_locales
    (auto simp: ds5_stop_rumble_now_def ds5_play_dual_rumble_now_def rumble_arm_def start_timer_def
      Let_def, simp_all add: ds5_set_rumble_def)

section \<open>Runs of the driver\<close>

datatype ds5_event =
    DS5_Feature bool bool bool "u8 list"
  | DS5_Input "u8 list"
  | DS5_Leds u8
  | DS5_Lightbar u8 u8 u8
  | DS5_Trigger ds5_adaptive_trigger_type trigger_effect
  | DS5_Rumble rumble_event

fun ds5_step :: "ds5_event \<Rightarrow> ds5_device \<Rightarrow> ds5_device option" where
  "ds5_step (DS5_Feature a v c r) d = uni_hid_parser_ds5_parse_feature_report a v c r d"
| "ds5_step (DS5_Input r) d =
     uni_hid_parser_ds5_parse_input_report r (uni_hid_parser_ds5_init_report d)"
| "ds5_step (DS5_Leds v) d = Some (uni_hid_parser_ds5_set_player_leds v d)"
| "ds5_step (DS5_Lightbar r g b) d = Some (uni_hid_parser_ds5_set_lightbar_color r g b d)"
| "ds5_step (DS5_Trigger t e) d = Some (ds5_set_adaptive_trigger_effect t e d)"
| "ds5_step (DS5_Rumble e) d =
     rumble_step d5_rumble ds5_set_rumble ds5_play_dual_rumble_now ds5_stop_rumble_now e d"

text \<open>An effect has ten data bytes, as its type says.\<close>

fun ds5_ok :: "ds5_event \<Rightarrow> ds5_device \<Rightarrow> bool" where
  "ds5_ok (DS5_Feature a v c r) d = (r \<noteq> [] \<and> (r ! 0 = 0x20 \<longrightarrow> 64 \<le> length r) \<and>
     (r ! 0 = 0x05 \<longrightarrow> 41 \<le> length r))"
| "ds5_ok (DS5_Input r) d = (r \<noteq> [])"
| "ds5_ok (DS5_Leds v) d = True"
| "ds5_ok (DS5_Lightbar r g b) d = True"
| "ds5_ok (DS5_Trigger t e) d = (case e of None \<Rightarrow> True | Some (code, data) \<Rightarrow> length data = 10)"
| "ds5_ok (DS5_Rumble e) d = rumble_ok True e (d5_rumble d)"

definition ds5_inv :: "ds5_device \<Rightarrow> bool" where
  "ds5_inv d \<longleftrightarrow> calibrated (d5_gyro_calib d) \<and> calibrated (d5_accel_calib d) \<and>
     ds5.inv d \<and> ds5_stream d"

lemma ds5_inv_alt:
  "ds5_inv d \<longleftrightarrow> calibrated (d5_gyro_calib d) \<and> calibrated (d5_accel_calib d) \<and>
     rumble_inv True (d5_rumble d) \<and> (rb_state (d5_rumble d) = RUMBLE_DISABLED \<longrightarrow> motors d = (0, 0)) \<and>
     ds5_stream d"
  by (simp add: ds5_inv_def ds5.inv_def)

text \<open>What the invariant looks at.\<close>

lemma ds5_inv_cong:
  "d5_gyro_calib d' = d5_gyro_calib d \<Longrightarrow> d5_accel_calib d' = d5_accel_calib d \<Longrightarrow>
   d5_rumble d' = d5_rumble d \<Longrightarrow> d5_sent d' = d5_sent d \<Longrightarrow> d5_output_seq d' = d5_output_seq d \<Longrightarrow>
   ds5_inv d' = ds5_inv d"
  by (simp add: ds5_inv_alt ds5_stream_def motors_def)

lemma ds5_inv_upd [simp]:
  "ds5_inv (d\<lparr>d5_state := x\<rparr>) = ds5_inv d" "ds5_inv (d\<lparr>d5_child := ch\<rparr>) = ds5_inv d"
  "ds5_inv (d\<lparr>d5_ctl := c\<rparr>) = ds5_inv d"
  by (rule ds5_inv_cong; simp)+

lemma ds5_inv_ctrl: "ds5_inv (ds5_send D5_CTRL r d) = ds5_inv d"
  by (simp add: ds5_inv_alt ds5_stream_def motors_def ds5_send_def)

lemma ds5_inv_output:
  assumes "ds5_inv d" "output_ok out" "\<not> bit (o_flag0 out) 1"
  shows "ds5_inv (ds5_send_output_report out d)"
  using assms stream_output by (simp add: ds5_inv_alt motors_output)

lemma ds5_inv_setup: "d5_sent d = [] \<Longrightarrow> ds5_inv (uni_hid_parser_ds5_setup d)"
  by (simp add: uni_hid_parser_ds5_setup_def ds5_request_pairing_info_report_def ds5_inv_ctrl)
    (simp add: ds5_inv_alt ds5_stream_def motors_def motors_of_def outputs_def)

lemma ds5_lightbar_inv:
  assumes "ds5_inv d"
  shows "ds5_inv (ds5_send_enable_lightbar_report a v c d)"
proof -
  let ?out = "ds5_output_zero\<lparr>o_blue := 255, o_flag1 := DS5_FLAG1_LIGHTBAR_CONTROL_ENABLE,
    o_flag2 := DS5_FLAG2_LIGHTBAR_SETUP_CONTROL_ENABLE, o_lightbar_setup := DS5_LIGHTBAR_SETUP_LIGHT_OUT\<rparr>"
  have "ds5_inv (ds5_send_output_report ?out d)"
    by (rule ds5_inv_output [OF assms]) (simp_all add: ds5_output_zero_def output_ok_def)
  then show ?thesis
    unfolding ds5_send_enable_lightbar_report_def Let_def by simp
qed

lemma ds5_calibrate_inv: "ds5_inv d \<Longrightarrow> ds5_inv (ds5_calibrate r d)"
  by (simp add: ds5_inv_alt ds5_calibrate_def Let_def ds5_stream_def motors_def)

lemma ds5_feature_step:
  assumes "ds5_inv d" "ds5_ok (DS5_Feature a v c r) d"
  shows "\<exists>d'. ds5_step (DS5_Feature a v c r) d = Some d' \<and> ds5_inv d'"
proof -
  have "ds5_inv (ds5_request_firmware_version_report d)"
    using assms(1) by (simp add: ds5_request_firmware_version_report_def ds5_inv_ctrl)
  moreover have "ds5_inv (ds5_request_calibration_report (ds5_firmware_version r d))"
    unfolding ds5_request_calibration_report_def ds5_inv_ctrl ds5_inv_upd
    by (rule ds5_inv_cong [THEN iffD2, OF _ _ _ _ _ assms(1)]) (simp_all add: ds5_firmware_version_def)
  ultimately show ?thesis
    using assms ds5_lightbar_inv [OF ds5_calibrate_inv [OF assms(1)], of a v c r]
    by (auto simp: uni_hid_parser_ds5_parse_feature_report_def)
qed

lemma ds5_input_eq:
  assumes "calibrated (d5_gyro_calib d)" "calibrated (d5_accel_calib d)" "r \<noteq> []"
  shows "\<exists>c ch. uni_hid_parser_ds5_parse_input_report r d = Some (d\<lparr>d5_ctl := c, d5_child := ch\<rparr>)"
proof -
  have "\<exists>c ch. d = d\<lparr>d5_ctl := c, d5_child := ch\<rparr>"
    by (intro exI [of _ "d5_ctl d"] exI [of _ "d5_child d"]) simp
  then show ?thesis
    using assms(3) apply_calibration_eq [OF assms(1)] apply_calibration_eq [OF assms(2)]
    by (auto simp: uni_hid_parser_ds5_parse_input_report_def Let_def)
qed

lemma ds5_input_step:
  assumes "ds5_inv d" "r \<noteq> []"
  shows "\<exists>d'. ds5_step (DS5_Input r) d = Some d' \<and> ds5_inv d'"
proof -
  let ?d = "uni_hid_parser_ds5_init_report d"
  have i: "ds5_inv ?d"
    using assms(1) by (simp add: uni_hid_parser_ds5_init_report_def)
  then obtain c ch where e: "uni_hid_parser_ds5_parse_input_report r ?d = Some (?d\<lparr>d5_ctl := c, d5_child := ch\<rparr>)"
    using ds5_input_eq [of ?d r] assms(2) by (auto simp: ds5_inv_def)
  have "ds5_inv (?d\<lparr>d5_ctl := c, d5_child := ch\<rparr>)"
    using i by simp
  with e show ?thesis by simp
qed

lemma ds5_led_step:
  assumes "ds5_inv d"
  shows "ds5_inv (uni_hid_parser_ds5_set_player_leds v d)"
    "ds5_inv (uni_hid_parser_ds5_set_lightbar_color r g b d)"
  unfolding uni_hid_parser_ds5_set_player_leds_def uni_hid_parser_ds5_set_lightbar_color_def
  by (rule ds5_inv_output [OF assms]; simp add: ds5_output_zero_def output_ok_def)+

lemma ds5_trigger_step:
  assumes "ds5_inv d" "ds5_ok (DS5_Trigger t e) d"
  shows "ds5_inv (ds5_set_adaptive_trigger_effect t e d)"
proof (cases e)
  case None
  with assms show ?thesis by (simp add: ds5_set_adaptive_trigger_effect_def)
next
  case (Some x)
  then obtain code data where x: "e = Some (code, data)" "length data = 10" using assms(2) by (cases x) auto
  have "ds5_inv (ds5_send_output_report (ds5_output_zero\<lparr>o_flag0 := DS5_FLAG0_FFB_LEFT, o_left_ffb := code # data\<rparr>) d)"
    "ds5_inv (ds5_send_output_report (ds5_output_zero\<lparr>o_flag0 := DS5_FLAG0_FFB_RIGHT, o_right_ffb := code # data\<rparr>) d)"
    using x(2) by (auto intro!: ds5_inv_output [OF assms(1)]
        simp: output_ok_def ds5_output_zero_def DS5_FLAG0_FFB_LEFT_def DS5_FLAG0_FFB_RIGHT_def bit_BIT)
  then show ?thesis
    by (simp add: ds5_set_adaptive_trigger_effect_def x(1) split: ds5_adaptive_trigger_type.split)
qed

definition ds5_rumble_only :: "ds5_device \<Rightarrow> ds5_device \<Rightarrow> bool" where
  "ds5_rumble_only d d' \<longleftrightarrow> d5_gyro_calib d' = d5_gyro_calib d \<and> d5_accel_calib d' = d5_accel_calib d \<and>
     (ds5_stream d \<longrightarrow> ds5_stream d')"

lemma ds5_rumble_only_basic [simp]:
  "ds5_rumble_only d (ds5_set_rumble r d') = ds5_rumble_only d d'"
  "ds5_rumble_only (ds5_set_rumble r d) d' = ds5_rumble_only d d'"
  "ds5_rumble_only (d\<lparr>d5_rumble := r\<rparr>) d' = ds5_rumble_only d d'"
  "output_ok out \<Longrightarrow> ds5_rumble_only d (ds5_send_output_report out d)" "ds5_rumble_only d d"
  by (simp_all add: ds5_rumble_only_def stream_output)
    (simp_all add: ds5_set_rumble_def ds5_stream_def)

lemma ds5_stop_only: "ds5_stop_rumble_now d = Some d' \<Longrightarrow> ds5_rumble_only d d'"
  using ds5_rumble_only_basic(4) [of "ds5_motor_output 0 0 d"
      "d\<lparr>d5_rumble := (d5_rumble d)\<lparr>rb_state := RUMBLE_DISABLED\<rparr>\<rparr>"]
  by (simp add: ds5_stop_rumble_now_def split: if_splits)

lemma ds5_play_only: "ds5_play_dual_rumble_now dur w s d = Some d' \<Longrightarrow> ds5_rumble_only d d'"
  by (auto simp: ds5_play_dual_rumble_now_def Let_def split: if_splits dest: ds5_stop_only)

lemma ds5_rumble_step_only:
  assumes "rumble_step d5_rumble ds5_set_rumble ds5_play_dual_rumble_now ds5_stop_rumble_now e d = Some d'"
  shows "ds5_rumble_only d d'"
  using assms
  by (cases e) (auto simp: rumble_play_def rumble_on_def Let_def split: if_splits
      dest!: ds5_play_only ds5_stop_only)

interpretation ds5_run: guarded_machine ds5_step ds5_ok ds5_inv
proof
  fix d e
  assume a: "ds5_inv d" "ds5_ok e d"
  show "\<exists>d'. ds5_step e d = Some d' \<and> ds5_inv d'"
  proof (cases e)
    case (DS5_Rumble ev)
    obtain d' where d': "ds5_step e d = Some d'" "ds5.inv d'"
      using ds5.step_inv [of d ev] a DS5_Rumble by (auto simp: ds5_inv_def ds5.ok_def)
    moreover have "ds5_inv d'"
      using d' a(1) ds5_rumble_step_only [of ev d d'] DS5_Rumble
      by (simp add: ds5_inv_def ds5_rumble_only_def)
    ultimately show ?thesis by blast
  qed (use a ds5_feature_step ds5_input_step ds5_led_step ds5_trigger_step in auto)
qed

section \<open>Properties\<close>

definition ds5_fresh :: "u16 \<Rightarrow> ds5_device" where
  "ds5_fresh pid = \<lparr>d5_ctl = controller_zero, d5_product_id = pid, d5_rumble = rumble_zero,
     d5_output_seq = 0, d5_state = DS5_STATE_INITIAL, d5_hw_version = 0, d5_fw_version = 0,
     d5_update_version = 0, d5_use_vibration2 = False, d5_gyro_calib = [], d5_accel_calib = [],
     d5_child = None, d5_sent = []\<rparr>"

text \<open>
  C17: A DualSense never traps: after setup, for every sequence of feature reports of full length,
  input reports, LED, lightbar and trigger requests and rumble events, all calibration divisors are
  nonzero, every output report has 79 bytes and a checksum the controller accepts, the sequence
  numbers of the output reports count modulo 15 without a gap, and a disabled rumble means that the
  last motor command was for motors off.
\<close>

theorem ds5_run_correct:
  assumes "admissible ds5_step ds5_ok es (uni_hid_parser_ds5_setup (ds5_fresh pid))"
  shows "\<exists>d. run_steps ds5_step es (uni_hid_parser_ds5_setup (ds5_fresh pid)) = Some d \<and>
    (\<forall>k \<in> set (d5_gyro_calib d @ d5_accel_calib d). sens_denom k \<noteq> 0) \<and>
    (\<forall>r \<in> set (outputs (d5_sent d)). length r = 79 \<and> uni_crc32_le 0xffffffff r = CRC_RESIDUE) \<and>
    map (\<lambda>r. r ! 2) (outputs (d5_sent d)) =
      map (\<lambda>i. push_bit 4 (of_nat (i mod 15))) [0..<length (outputs (d5_sent d))] \<and>
    (rb_state (d5_rumble d) = RUMBLE_DISABLED \<longrightarrow> motors_of (outputs (d5_sent d)) = (0, 0))"
proof -
  have "ds5_inv (uni_hid_parser_ds5_setup (ds5_fresh pid))"
    by (rule ds5_inv_setup) (simp add: ds5_fresh_def)
  from ds5_run.run_law [OF this assms] obtain d where
    d: "run_steps ds5_step es (uni_hid_parser_ds5_setup (ds5_fresh pid)) = Some d" "ds5_inv d" by blast
  then show ?thesis
    by (intro exI [of _ d])
      (simp add: ds5_inv_alt ds5_stream_def calibrated_def motors_def seq_tag_def [abs_def], blast)
qed

theorem ds5_run_correct_witness:
  "\<exists>d. run_steps ds5_step [DS5_Lightbar 1 2 3, DS5_Rumble (Rumble_Play 0 100 7 8),
      DS5_Trigger TRIGGER_LEFT (ds5_new_adaptive_trigger_effect_feedback 2 3)]
      (uni_hid_parser_ds5_setup (ds5_fresh 0)) = Some d \<and>
    (\<forall>r \<in> set (outputs (d5_sent d)). length r = 79 \<and> uni_crc32_le 0xffffffff r = CRC_RESIDUE)"
proof -
  let ?es = "[DS5_Lightbar 1 2 3, DS5_Rumble (Rumble_Play 0 100 7 8),
      DS5_Trigger TRIGGER_LEFT (ds5_new_adaptive_trigger_effect_feedback 2 3)]"
  have "admissible ds5_step ds5_ok ?es (uni_hid_parser_ds5_setup (ds5_fresh 0))"
    by (simp add: ds5_new_adaptive_trigger_effect_feedback_def zone_bytes_def case_prod_beta
        split: option.splits)
  then show ?thesis using ds5_run_correct [of ?es 0] by blast
qed

text \<open>
  DualSense rumble always ends, from any state the driver can reach: expiring whatever timer is
  registered at most twice leaves it disabled, without a timer and with a last motor command of zero;
  a request of duration zero is allowed here and stops the rumble.
\<close>

theorem ds5_rumble_stops:
  assumes "admissible ds5_step ds5_ok es (uni_hid_parser_ds5_setup (ds5_fresh pid))"
  shows "\<exists>d0 d1 d2. run_steps ds5_step es (uni_hid_parser_ds5_setup (ds5_fresh pid)) = Some d0 \<and>
    ds5.fire d0 = Some d1 \<and> ds5.fire d1 = Some d2 \<and> rb_state (d5_rumble d2) = RUMBLE_DISABLED \<and>
    no_timers (d5_rumble d2) \<and> motors_of (outputs (d5_sent d2)) = (0, 0)"
proof -
  have "ds5_inv (uni_hid_parser_ds5_setup (ds5_fresh pid))"
    by (rule ds5_inv_setup) (simp add: ds5_fresh_def)
  then obtain d0 where
    d0: "run_steps ds5_step es (uni_hid_parser_ds5_setup (ds5_fresh pid)) = Some d0" "ds5.inv d0"
    using ds5_run.run_law [OF _ assms] by (auto simp: ds5_inv_def)
  with ds5.fire_twice [OF d0(2)] show ?thesis
    unfolding ds5.at_rest_def by (metis motors_def)
qed

theorem ds5_rumble_stops_witness:
  "\<exists>d0 d1 d2. run_steps ds5_step [DS5_Rumble (Rumble_Play 10 0 7 8)]
      (uni_hid_parser_ds5_setup (ds5_fresh 0)) = Some d0 \<and>
    ds5.fire d0 = Some d1 \<and> ds5.fire d1 = Some d2 \<and> rb_state (d5_rumble d2) = RUMBLE_DISABLED"
proof -
  have "admissible ds5_step ds5_ok [DS5_Rumble (Rumble_Play 10 0 7 8)] (uni_hid_parser_ds5_setup (ds5_fresh 0))"
    by (simp split: option.splits)
  then show ?thesis using ds5_rumble_stops [of "[DS5_Rumble (Rumble_Play 10 0 7 8)]" 0] by blast
qed

text \<open>
  The handshake: setup asks for the pairing information, each of the three feature reports asks
  for the next one, and the calibration report makes the controller ready, with the virtual mouse iff
  the platform accepts both; before that no input report changes the controller.
\<close>

theorem ds5_handshake:
  assumes "hd p = 0x09" "p \<noteq> []" "hd f = 0x20" "46 \<le> length f" "hd k = 0x05" "35 \<le> length k"
  shows "(\<exists>d. run_steps ds5_step [DS5_Feature a v c p, DS5_Feature a v c f, DS5_Feature a v c k]
      (uni_hid_parser_ds5_setup (ds5_fresh pid)) = Some d \<and> d5_state d = DS5_STATE_READY \<and>
      map snd (filter (\<lambda>m. fst m = D5_CTRL) (d5_sent d)) = [[0x43, 0x09], [0x43, 0x20], [0x43, 0x05]] \<and>
      length (outputs (d5_sent d)) = 1 \<and> (d5_child d \<noteq> None \<longleftrightarrow> a \<and> v \<and> c) \<and>
      (d5_use_vibration2 d \<longleftrightarrow> pid = 0x0df2 \<or> 0x0215 \<le> u16_at f 44)) \<and>
    (\<forall>d r. d5_state d \<noteq> DS5_STATE_READY \<longrightarrow> uni_hid_parser_ds5_parse_input_report r d = Some d)"
proof -
  have "f \<noteq> []" "k \<noteq> []" using assms by auto
  moreover have "p ! 0 = 0x09" "f ! 0 = 0x20" "k ! 0 = 0x05"
    using assms calculation by (simp_all add: hd_conv_nth)
  ultimately show ?thesis
    using assms
    by (simp add: uni_hid_parser_ds5_parse_feature_report_def uni_hid_parser_ds5_setup_def
        ds5_request_pairing_info_report_def ds5_request_firmware_version_report_def
        ds5_request_calibration_report_def ds5_firmware_version_def ds5_calibrate_def
        ds5_send_enable_lightbar_report_def ds5_send_output_report_def ds5_send_def ds5_fresh_def
        outputs_def Let_def uni_hid_parser_ds5_parse_input_report_def)
qed

theorem ds5_handshake_witness:
  "\<exists>d. run_steps ds5_step [DS5_Feature True True True (0x09 # replicate 19 0),
      DS5_Feature True True True (0x20 # replicate 63 0), DS5_Feature True True True (0x05 # replicate 40 0)]
      (uni_hid_parser_ds5_setup (ds5_fresh 0x0df2)) = Some d \<and> d5_state d = DS5_STATE_READY"
  using ds5_handshake [of "0x09 # replicate 19 0" "0x20 # replicate 63 0" "0x05 # replicate 40 0"
      True True True "0x0df2"] by auto

text \<open>
  The zone encoding of the adaptive triggers: an accepted feedback effect activates exactly the
  zones from the given position on, each with the force strength - 1, and no other zone has a force;
  positions above 9 and strengths above 8 are refused. Strength 0, which the interface allows, wraps
  round to the force of strength 8.
\<close>

theorem trigger_feedback_zones:
  assumes "i < 10"
  shows "(case ds5_new_adaptive_trigger_effect_feedback position strength of
      None \<Rightarrow> position > 9 \<or> strength > 8
    | Some (code, data) \<Rightarrow> position \<le> 9 \<and> strength \<le> 8 \<and> code = 0x21 \<and> length data = 10 \<and>
        (zone_active data i \<longleftrightarrow> unat position \<le> i) \<and>
        zone_force data i = (if unat position \<le> i then ucast ((strength - 1) AND 7) else 0)) \<and>
    ds5_new_adaptive_trigger_effect_feedback position 0 = ds5_new_adaptive_trigger_effect_feedback position 8"
proof -
  have m: "(7 :: u8) = mask 3" by (simp add: mask_eq_exp_minus_1)
  have f: "\<not> bit ((strength - 1) AND 7) k" if "3 \<le> k" for k
    using that unfolding m by (simp add: bit_simps)
  show ?thesis
    using zones_read_back [OF f assms, of "unat position" "replicate 4 0"]
    by (auto simp: ds5_new_adaptive_trigger_effect_feedback_def not_less)
qed

theorem trigger_feedback_zones_witness:
  "zone_force (zone_bytes (zone_loop 4 2) @ replicate 4 0) 7 = 2"
  using trigger_feedback_zones [of 7 4 3]
  by (simp add: ds5_new_adaptive_trigger_effect_feedback_def)

end
