(* ===== verification/Parser_PSMove.thy ===== *)
theory Parser_PSMove
  imports Lenient_Rumble Sony_Common Report_Bytes
begin

text \<open>
  \<^verbatim>\<open>components/bluepad32/parser/uni_hid_parser_psmove.c\<close>: the PlayStation Move, with one motor and a light.
  Its driver keeps one \<open>rumble_magnitude\<close>, for the motor that turns as well as for a request that
  waits; in the record shared by the drivers it is the strong magnitude, and the weak one repeats it.
\<close>

section \<open>State\<close>

datatype psmove_model = PSMOVE_MODEL_UNK | PSMOVE_MODEL_ZCM1 | PSMOVE_MODEL_ZCM2

record psmove_device =
  pm_ctl :: uni_controller
  pm_product_id :: u16
  pm_model :: psmove_model
  pm_led_rgb :: "u8 \<times> u8 \<times> u8"
  pm_rumble :: rumble
  pm_sent :: "u8 list list"
  pm_ready_calls :: nat

definition ZCM1_PID :: u16 where "ZCM1_PID = 0x03d5"

definition ZCM2_PID :: u16 where "ZCM2_PID = 0x0c5e"

section \<open>Output\<close>

definition psmove_output :: "u8 \<times> u8 \<times> u8 \<Rightarrow> u8 \<Rightarrow> u8 list" where
  "psmove_output rgb motor = (case rgb of (r, g, b) \<Rightarrow> [0xa2, 0x06, 0, r, g, b, 0, motor, 0, 0])"

definition psmove_send_output_report :: "u8 list \<Rightarrow> psmove_device \<Rightarrow> psmove_device" where
  "psmove_send_output_report out d = d\<lparr>pm_sent := pm_sent d @ [out]\<rparr>"

definition pm_set_rumble :: "rumble \<Rightarrow> psmove_device \<Rightarrow> psmove_device" where
  "pm_set_rumble r d = d\<lparr>pm_rumble := r\<rparr>"

definition set_magnitude :: "u16 \<Rightarrow> rumble \<Rightarrow> rumble" where
  "set_magnitude m r = r\<lparr>rb_strong_magnitude := m, rb_weak_magnitude := m\<rparr>"

definition psmove_stop_rumble_now :: "psmove_device \<Rightarrow> psmove_device option" where
  "psmove_stop_rumble_now d =
     (if rb_state (pm_rumble d) \<noteq> RUMBLE_IN_PROGRESS then None
      else Some (psmove_send_output_report (psmove_output (pm_led_rgb d) 0)
        (pm_set_rumble (set_magnitude 0 ((pm_rumble d)\<lparr>rb_state := RUMBLE_DISABLED\<rparr>)) d)))"

definition psmove_play_dual_rumble_now :: "u16 \<Rightarrow> u8 \<Rightarrow> u8 \<Rightarrow> psmove_device \<Rightarrow> psmove_device option" where
  "psmove_play_dual_rumble_now duration_ms weak magnitude d =
     (if duration_ms = 0
      then (if rb_state (pm_rumble d) = RUMBLE_IN_PROGRESS then psmove_stop_rumble_now d else Some d)
      else let d1 = psmove_send_output_report (psmove_output (pm_led_rgb d) magnitude)
             (pm_set_rumble (set_magnitude (ucast magnitude) (pm_rumble d)) d)
        in map_option (\<lambda>r. pm_set_rumble r d1) (rumble_arm duration_ms (pm_rumble d1)))"

definition uni_hid_parser_psmove_play_dual_rumble ::
  "u16 \<Rightarrow> u16 \<Rightarrow> u8 \<Rightarrow> u8 \<Rightarrow> psmove_device \<Rightarrow> psmove_device option" where
  "uni_hid_parser_psmove_play_dual_rumble start_delay_ms duration_ms weak strong d =
     (let magnitude = max weak strong
      in rumble_play pm_rumble pm_set_rumble psmove_play_dual_rumble_now start_delay_ms duration_ms
        magnitude magnitude d)"

definition on_psmove_set_rumble_on :: "psmove_device \<Rightarrow> psmove_device option" where
  "on_psmove_set_rumble_on d = rumble_on pm_rumble psmove_play_dual_rumble_now d"

definition on_psmove_set_rumble_off :: "psmove_device \<Rightarrow> psmove_device option" where
  "on_psmove_set_rumble_off d = psmove_stop_rumble_now d"

definition uni_hid_parser_psmove_set_lightbar_color :: "u8 \<Rightarrow> u8 \<Rightarrow> u8 \<Rightarrow> psmove_device \<Rightarrow> psmove_device" where
  "uni_hid_parser_psmove_set_lightbar_color r g b d = psmove_send_output_report
     (psmove_output (r, g, b) (ucast (rb_strong_magnitude (pm_rumble d)))) (d\<lparr>pm_led_rgb := (r, g, b)\<rparr>)"

definition uni_hid_parser_psmove_setup :: "psmove_device \<Rightarrow> psmove_device" where
  "uni_hid_parser_psmove_setup d = d\<lparr>pm_led_rgb := (0, 0, 0), pm_rumble := rumble_zero,
     pm_model := (if pm_product_id d = ZCM1_PID then PSMOVE_MODEL_ZCM1
       else if pm_product_id d = ZCM2_PID then PSMOVE_MODEL_ZCM2 else PSMOVE_MODEL_ZCM1),
     pm_ready_calls := Suc (pm_ready_calls d)\<rparr>"

section \<open>Input\<close>

definition uni_hid_parser_psmove_init_report :: "psmove_device \<Rightarrow> psmove_device" where
  "uni_hid_parser_psmove_init_report d = d\<lparr>pm_ctl := controller_zero\<lparr>klass := CLASS_GAMEPAD\<rparr>\<rparr>"

definition psmove_gamepad :: "u8 list \<Rightarrow> uni_gamepad \<Rightarrow> uni_gamepad" where
  "psmove_gamepad r g = (let b0 = r ! 1; b1 = r ! 2; b2 = r ! 3 in g\<lparr>
     misc_buttons := misc_buttons g OR pressed_bits [(has_bits b0 0x01, MISC_BUTTON_SELECT),
       (has_bits b0 0x08, MISC_BUTTON_START), (has_bits b2 0x01, MISC_BUTTON_SYSTEM)],
     buttons := buttons g OR pressed_bits [
       (has_bits b1 0x01, BUTTON_TRIGGER_L), (has_bits b1 0x02, BUTTON_TRIGGER_R),
       (has_bits b1 0x04, BUTTON_SHOULDER_L), (has_bits b1 0x08, BUTTON_SHOULDER_R),
       (has_bits b1 0x10, BUTTON_Y), (has_bits b1 0x20, BUTTON_B), (has_bits b1 0x40, BUTTON_A),
       (has_bits b1 0x80, BUTTON_X), (has_bits b2 0x08, BUTTON_THUMB_R), (has_bits b2 0x10, BUTTON_TRIGGER_R)],
     throttle := uint (r ! 5) * 4,
     accel := [uint (u16_at r 13), uint (u16_at r 15), uint (u16_at r 17)], gyro := [uint (u16_at r 25), uint (u16_at r 27), uint (u16_at r 29)]\<rparr>)"

text \<open>The part common to both models has 39 bytes.\<close>

definition uni_hid_parser_psmove_parse_input_report :: "u8 list \<Rightarrow> psmove_device \<Rightarrow> psmove_device" where
  "uni_hid_parser_psmove_parse_input_report r d =
     (if length r < 39 then d
      else if r ! 0 \<noteq> 0x01 then d
      else d\<lparr>pm_ctl := (pm_ctl d)\<lparr>gamepad := psmove_gamepad r (gamepad (pm_ctl d)),
        battery := (if r ! 12 \<le> 5 then r ! 12 * 51 else battery (pm_ctl d))\<rparr>\<rparr>)"

section \<open>Runs\<close>

datatype psmove_event = PM_Report "u8 list" | PM_Light u8 u8 u8 | PM_Rumble rumble_event

fun psmove_step :: "psmove_event \<Rightarrow> psmove_device \<Rightarrow> psmove_device option" where
  "psmove_step (PM_Report r) d =
     Some (uni_hid_parser_psmove_parse_input_report r (uni_hid_parser_psmove_init_report d))"
| "psmove_step (PM_Light r g b) d = Some (uni_hid_parser_psmove_set_lightbar_color r g b d)"
| "psmove_step (PM_Rumble (Rumble_Play start_delay duration weak strong)) d =
     uni_hid_parser_psmove_play_dual_rumble start_delay duration weak strong d"
| "psmove_step (PM_Rumble Delayed_Fires) d =
     on_psmove_set_rumble_on (pm_set_rumble ((pm_rumble d)\<lparr>rb_timer_delayed_start := None\<rparr>) d)"
| "psmove_step (PM_Rumble Duration_Fires) d =
     on_psmove_set_rumble_off (pm_set_rumble ((pm_rumble d)\<lparr>rb_timer_duration := None\<rparr>) d)"

section \<open>The motor\<close>

definition psmove_sounding :: "psmove_device \<Rightarrow> bool" where
  "psmove_sounding d \<longleftrightarrow> pm_sent d \<noteq> [] \<and> last (pm_sent d) ! 7 \<noteq> 0"

lemma psmove_frame [simp]:
  "pm_rumble (psmove_send_output_report out d) = pm_rumble d" "pm_rumble (pm_set_rumble r d) = r"
  "pm_led_rgb (pm_set_rumble r d) = pm_led_rgb d" "psmove_sounding (pm_set_rumble r d) = psmove_sounding d"
  "psmove_sounding (psmove_send_output_report (psmove_output rgb motor) d) \<longleftrightarrow> motor \<noteq> 0"
  "rb_state (set_magnitude m q) = rb_state q" "rb_timer_duration (set_magnitude m q) = rb_timer_duration q"
  "rb_timer_delayed_start (set_magnitude m q) = rb_timer_delayed_start q" "rb_strong_magnitude (set_magnitude m q) = m"
  by (simp_all add: psmove_send_output_report_def pm_set_rumble_def psmove_sounding_def psmove_output_def
      set_magnitude_def split: prod.split)

interpretation psmove: lenient_rumble pm_rumble pm_set_rumble psmove_play_dual_rumble_now psmove_stop_rumble_now
  psmove_sounding
  by unfold_locales (auto simp: psmove_stop_rumble_now_def psmove_play_dual_rumble_now_def rumble_arm_def
      start_timer_def Let_def)

text \<open>
  A motor that is off leaves no magnitude behind, and one that turns does so with the magnitude stored.
\<close>

definition magnitude_kept :: "psmove_device \<Rightarrow> bool" where
  "magnitude_kept d \<longleftrightarrow> (rb_state (pm_rumble d) = RUMBLE_DISABLED \<longrightarrow> rb_strong_magnitude (pm_rumble d) = 0) \<and>
     (rb_state (pm_rumble d) = RUMBLE_IN_PROGRESS \<longrightarrow>
       pm_sent d \<noteq> [] \<and> last (pm_sent d) ! 7 = ucast (rb_strong_magnitude (pm_rumble d)))"

definition psmove_inv :: "psmove_device \<Rightarrow> bool" where
  "psmove_inv d \<longleftrightarrow> psmove.inv d \<and> magnitude_kept d"

fun psmove_ok :: "psmove_event \<Rightarrow> psmove_device \<Rightarrow> bool" where
  "psmove_ok (PM_Rumble e) d = rumble_ok True e (pm_rumble d)"
| "psmove_ok _ d = True"

lemma magnitude_same:
  "pm_rumble d' = pm_rumble d \<Longrightarrow> pm_sent d' = pm_sent d \<Longrightarrow> magnitude_kept d' = magnitude_kept d"
  by (simp add: magnitude_kept_def)

lemma psmove_inv_same:
  "pm_rumble d' = pm_rumble d \<Longrightarrow> pm_sent d' = pm_sent d \<Longrightarrow> psmove_inv d \<Longrightarrow> psmove_inv d'"
  by (simp add: psmove_inv_def psmove.inv_def magnitude_kept_def psmove_sounding_def)

lemma stop_keeps: "psmove_stop_rumble_now d = Some d' \<Longrightarrow> magnitude_kept d'"
  by (auto simp: psmove_stop_rumble_now_def magnitude_kept_def split: if_splits)

lemma ucast_back: "(ucast (ucast m :: u16) :: u8) = m"
  by (simp add: ucast_down_ucast_id is_down)

lemma play_keeps:
  assumes "psmove_play_dual_rumble_now duration weak m d = Some d'" "magnitude_kept d"
  shows "magnitude_kept d'"
proof (cases "duration = 0")
  case True
  with assms stop_keeps show ?thesis by (auto simp: psmove_play_dual_rumble_now_def split: if_splits)
next
  case False
  with assms(1) show ?thesis
    by (auto simp: psmove_play_dual_rumble_now_def rumble_arm_def Let_def magnitude_kept_def pm_set_rumble_def
        psmove_send_output_report_def psmove_output_def set_magnitude_def ucast_back split: prod.split)
qed

lemma rumble_keeps:
  assumes "magnitude_kept d" "psmove.inv d" "rumble_ok True e (pm_rumble d)" "psmove_step (PM_Rumble e) d = Some d'"
  shows "magnitude_kept d'"
proof (cases e)
  case (Rumble_Play delay duration weak strong)
  let ?r = "rumble_remove (pm_rumble d)"
  have r: "rb_state ?r = rb_state (pm_rumble d)" "rb_strong_magnitude ?r = rb_strong_magnitude (pm_rumble d)"
    by (simp_all add: rumble_remove_def split: rumble_state.split)
  then have k: "magnitude_kept (pm_set_rumble ?r d)"
    using assms(1) by (simp add: magnitude_kept_def pm_set_rumble_def)
  show ?thesis
  proof (cases "delay = 0")
    case True
    with assms(4) Rumble_Play have "psmove_play_dual_rumble_now duration (max weak strong) (max weak strong)
        (pm_set_rumble ?r d) = Some d'"
      by (simp add: uni_hid_parser_psmove_play_dual_rumble_def rumble_play_def Let_def)
    from play_keeps [OF this k] show ?thesis .
  next
    case False
    with assms(4) Rumble_Play show ?thesis
      by (auto simp: uni_hid_parser_psmove_play_dual_rumble_def rumble_play_def rumble_delay_def Let_def
          magnitude_kept_def)
  qed
next
  case Delayed_Fires
  with assms have "magnitude_kept (pm_set_rumble ((pm_rumble d)\<lparr>rb_timer_delayed_start := None\<rparr>) d)"
    by (simp add: magnitude_kept_def pm_set_rumble_def)
  with assms(4) Delayed_Fires play_keeps show ?thesis
    by (simp add: on_psmove_set_rumble_on_def rumble_on_def)
next
  case Duration_Fires
  with assms(4) stop_keeps show ?thesis by (simp add: on_psmove_set_rumble_off_def)
qed

lemma rumble_returns:
  assumes "psmove.inv d" "rumble_ok True e (pm_rumble d)"
  shows "\<exists>d'. psmove_step (PM_Rumble e) d = Some d' \<and> psmove.inv d'"
proof (cases e)
  case (Rumble_Play delay duration weak strong)
  with psmove.step_inv [of d "Rumble_Play delay duration (max weak strong) (max weak strong)"] assms
  show ?thesis by (simp add: psmove.ok_def uni_hid_parser_psmove_play_dual_rumble_def Let_def)
qed (use psmove.step_inv [of d e] assms in
    \<open>simp_all add: psmove.ok_def on_psmove_set_rumble_on_def on_psmove_set_rumble_off_def\<close>)

lemma light_inv:
  assumes "psmove_inv d"
  shows "psmove_inv (uni_hid_parser_psmove_set_lightbar_color r g b d)"
  using assms by (auto simp: psmove_inv_def psmove.inv_def magnitude_kept_def psmove_sounding_def
      uni_hid_parser_psmove_set_lightbar_color_def psmove_send_output_report_def psmove_output_def)

interpretation psmove_run: guarded_machine psmove_step psmove_ok psmove_inv
proof
  fix d e
  assume a: "psmove_inv d" "psmove_ok e d"
  show "\<exists>d'. psmove_step e d = Some d' \<and> psmove_inv d'"
  proof (cases e)
    case (PM_Report r)
    then show ?thesis
      by (auto simp: uni_hid_parser_psmove_parse_input_report_def uni_hid_parser_psmove_init_report_def
          intro!: psmove_inv_same [OF _ _ a(1)])
  next
    case (PM_Light r g b)
    with a light_inv show ?thesis by simp
  next
    case (PM_Rumble re)
    with a rumble_returns [of d re] rumble_keeps [of d re] show ?thesis
      by (simp add: psmove_inv_def) blast
  qed
qed

definition psmove_fresh :: psmove_device where
  "psmove_fresh = \<lparr>pm_ctl = controller_zero, pm_product_id = ZCM1_PID, pm_model = PSMOVE_MODEL_UNK,
     pm_led_rgb = (0, 0, 0), pm_rumble = rumble_zero, pm_sent = [], pm_ready_calls = 0\<rparr>"

lemma psmove_start_inv: "psmove_inv (uni_hid_parser_psmove_setup psmove_fresh)"
  by (simp add: psmove_inv_def psmove.inv_def magnitude_kept_def psmove_sounding_def
      uni_hid_parser_psmove_setup_def psmove_fresh_def rumble_zero_def)

section \<open>Properties\<close>

text \<open>
  A Move controller never trips an assertion, and changing its light does not disturb a rumble that is in
  progress: the new report carries the magnitude of the old one.
\<close>

theorem psmove_light_keeps_rumble:
  assumes "admissible psmove_step psmove_ok es (uni_hid_parser_psmove_setup psmove_fresh)"
  shows "\<exists>d. run_steps psmove_step es (uni_hid_parser_psmove_setup psmove_fresh) = Some d \<and>
    (rb_state (pm_rumble d) = RUMBLE_IN_PROGRESS \<longrightarrow>
      last (pm_sent (uni_hid_parser_psmove_set_lightbar_color r g b d)) =
        [0xa2, 0x06, 0, r, g, b, 0, last (pm_sent d) ! 7, 0, 0])"
  using psmove_run.run_law [OF psmove_start_inv assms]
  by (auto simp: psmove_inv_def magnitude_kept_def uni_hid_parser_psmove_set_lightbar_color_def
      psmove_send_output_report_def psmove_output_def)

text \<open>A rumble that is in progress ends with its timer.\<close>

theorem psmove_rumble_ends:
  assumes "admissible psmove_step psmove_ok es (uni_hid_parser_psmove_setup psmove_fresh)"
    "run_steps psmove_step es (uni_hid_parser_psmove_setup psmove_fresh) = Some d"
    "rb_state (pm_rumble d) = RUMBLE_IN_PROGRESS"
  shows "\<exists>d'. psmove_step (PM_Rumble Duration_Fires) d = Some d' \<and> \<not> psmove_sounding d' \<and> no_timers (pm_rumble d')"
  using psmove_run.run_law [OF psmove_start_inv assms(1)] assms(2) psmove.ends [OF _ assms(3)]
  by (auto simp: psmove_inv_def on_psmove_set_rumble_off_def)

text \<open>
  But the variable also holds the magnitude of a request that waits: changing the light meanwhile starts
  the motor at once, before its time and for longer than asked; when the next request cancels the
  delayed one, the motor turns on without any timer.
\<close>

theorem psmove_light_starts_waiting_rumble:
  assumes "strong \<noteq> 0"
  shows "\<exists>d. run_steps psmove_step [PM_Rumble (Rumble_Play 1000 500 0 strong), PM_Light r g b]
      (uni_hid_parser_psmove_setup psmove_fresh) = Some d \<and>
    psmove_sounding d \<and> rb_timer_delayed_start (pm_rumble d) = Some 1000"
    "\<exists>d. run_steps psmove_step [PM_Rumble (Rumble_Play 1000 500 0 strong), PM_Light r g b,
      PM_Rumble (Rumble_Play 0 0 0 0)] (uni_hid_parser_psmove_setup psmove_fresh) = Some d \<and>
    psmove_sounding d \<and> no_timers (pm_rumble d)"
proof -
  have m: "max 0 strong = strong" by (simp add: max_def)
  show "\<exists>d. run_steps psmove_step [PM_Rumble (Rumble_Play 1000 500 0 strong), PM_Light r g b]
      (uni_hid_parser_psmove_setup psmove_fresh) = Some d \<and>
    psmove_sounding d \<and> rb_timer_delayed_start (pm_rumble d) = Some 1000"
    "\<exists>d. run_steps psmove_step [PM_Rumble (Rumble_Play 1000 500 0 strong), PM_Light r g b,
      PM_Rumble (Rumble_Play 0 0 0 0)] (uni_hid_parser_psmove_setup psmove_fresh) = Some d \<and>
    psmove_sounding d \<and> no_timers (pm_rumble d)"
    using assms
    by (simp_all add: m ucast_back uni_hid_parser_psmove_play_dual_rumble_def rumble_play_def rumble_delay_def rumble_remove_def
        start_timer_def Let_def uni_hid_parser_psmove_set_lightbar_color_def uni_hid_parser_psmove_setup_def
        psmove_fresh_def rumble_zero_def psmove_play_dual_rumble_now_def psmove_sounding_def
        psmove_send_output_report_def psmove_output_def pm_set_rumble_def no_timers_def)
qed

end
