(* ===== verification/Parser_Steam.thy ===== *)
theory Parser_Steam
  imports Sony_Common Report_Bytes Rumble
begin

text \<open>
  \<^verbatim>\<open>components/bluepad32/parser/uni_hid_parser_steam.c\<close>: the Steam Controller over BLE. Its set-up asks the
  GATT client for a service and a characteristic and writes two commands; the variables it keeps for that
  are global, one set for all controllers. The answers of the GATT client are events, the requests are
  recorded; a service is its pair of handles.
\<close>

section \<open>Setting up\<close>

datatype steam_query_state = STATE_QUERY_SERVICE | STATE_QUERY_CHARACTERISTIC_REPORT | STATE_QUERY_CLEAR_MAPPINGS
  | STATE_QUERY_DISABLE_LIZARD | STATE_QUERY_FORCEFEEDBACK | STATE_QUERY_END

datatype gatt_request = Discover_Service u16 | Discover_Characteristic u16 "u16 \<times> u16" | Write_Value u16 u16 "u8 list"

datatype gatt_event = Service_Query_Result "u16 \<times> u16" | Characteristic_Query_Result u16 | Query_Complete u8
  | Other_Gatt_Event

record steam =
  sm_service :: "u16 \<times> u16"
  sm_value_handle :: u16
  sm_connection_handle :: u16
  sm_device :: nat
  sm_query_state :: steam_query_state
  sm_requests :: "gatt_request list"
  sm_ready :: "nat list"

definition cmd_clear_mappings :: "u8 list" where
  "cmd_clear_mappings = [0xc0, 0x81, 0x01]"

definition cmd_disable_lizard :: "u8 list" where
  "cmd_disable_lizard = [0xc0, 0x87, 0x0f, 0x30, 0, 0, 0x07, 0x07, 0, 0x08, 0x07, 0, 0x18, 0, 0, 0x2d, 0x64, 0]"

definition steam_request :: "gatt_request \<Rightarrow> steam \<Rightarrow> steam" where
  "steam_request q s = s\<lparr>sm_requests := sm_requests s @ [q]\<rparr>"

fun uni_steam_handle_gatt_client_event :: "gatt_event \<Rightarrow> steam \<Rightarrow> steam" where
  "uni_steam_handle_gatt_client_event (Service_Query_Result service) s =
     (if sm_query_state s = STATE_QUERY_SERVICE then s\<lparr>sm_service := service\<rparr> else s)"
| "uni_steam_handle_gatt_client_event (Characteristic_Query_Result handle) s =
     (if sm_query_state s = STATE_QUERY_CHARACTERISTIC_REPORT then s\<lparr>sm_value_handle := handle\<rparr> else s)"
| "uni_steam_handle_gatt_client_event (Query_Complete att_status) s =
     (if att_status \<noteq> 0 then s
      else case sm_query_state s of
          STATE_QUERY_SERVICE \<Rightarrow> steam_request (Discover_Characteristic (sm_connection_handle s) (sm_service s))
            (s\<lparr>sm_query_state := STATE_QUERY_CHARACTERISTIC_REPORT\<rparr>)
        | STATE_QUERY_CHARACTERISTIC_REPORT \<Rightarrow>
            steam_request (Write_Value (sm_connection_handle s) (sm_value_handle s) cmd_clear_mappings)
              (s\<lparr>sm_query_state := STATE_QUERY_CLEAR_MAPPINGS\<rparr>)
        | STATE_QUERY_CLEAR_MAPPINGS \<Rightarrow>
            steam_request (Write_Value (sm_connection_handle s) (sm_value_handle s) cmd_disable_lizard)
              (s\<lparr>sm_query_state := STATE_QUERY_DISABLE_LIZARD\<rparr>)
        | STATE_QUERY_DISABLE_LIZARD \<Rightarrow>
            s\<lparr>sm_ready := sm_ready s @ [sm_device s], sm_query_state := STATE_QUERY_END\<rparr>
        | _ \<Rightarrow> s)"
| "uni_steam_handle_gatt_client_event Other_Gatt_Event s = s"

definition uni_hid_parser_steam_setup :: "nat \<Rightarrow> u16 \<Rightarrow> uni_controller \<Rightarrow> steam \<Rightarrow> uni_controller \<times> steam" where
  "uni_hid_parser_steam_setup d handle ctl s = (ctl\<lparr>klass := CLASS_GAMEPAD\<rparr>,
     steam_request (Discover_Service handle)
       (s\<lparr>sm_device := d, sm_connection_handle := handle, sm_query_state := STATE_QUERY_SERVICE\<rparr>))"

section \<open>Reports\<close>

text \<open>A report leaves what it does not mention as it was.\<close>

definition uni_hid_parser_steam_init_report :: "uni_controller \<Rightarrow> uni_controller" where
  "uni_hid_parser_steam_init_report ctl = ctl"

definition u24_at :: "u8 list \<Rightarrow> nat \<Rightarrow> u32" where
  "u24_at r i = ucast (r ! i) OR push_bit 8 (ucast (r ! (i + 1))) OR push_bit 16 (ucast (r ! (i + 2)))"

definition parse_buttons :: "u8 list \<Rightarrow> nat \<Rightarrow> uni_gamepad \<Rightarrow> uni_gamepad" where
  "parse_buttons r i g = (let b = u24_at r i in g\<lparr>
     buttons := pressed_bits [(has_bits b 0x01, BUTTON_TRIGGER_R), (has_bits b 0x02, BUTTON_TRIGGER_L),
       (has_bits b 0x04, BUTTON_SHOULDER_R), (has_bits b 0x08, BUTTON_SHOULDER_L), (has_bits b 0x10, BUTTON_Y),
       (has_bits b 0x20, BUTTON_B), (has_bits b 0x40, BUTTON_X), (has_bits b 0x80, BUTTON_A),
       (has_bits b 0x8000, BUTTON_A), (has_bits b 0x10000, BUTTON_X), (has_bits b 0x400000, BUTTON_THUMB_L)],
     dpad := pressed_bits [(has_bits b 0x100, DPAD_UP), (has_bits b 0x200, DPAD_RIGHT),
       (has_bits b 0x400, DPAD_LEFT), (has_bits b 0x800, DPAD_DOWN)],
     misc_buttons := pressed_bits [(has_bits b 0x1000, MISC_BUTTON_SELECT),
       (has_bits b 0x2000, MISC_BUTTON_SYSTEM), (has_bits b 0x4000, MISC_BUTTON_START)]\<rparr>)"

definition parse_triggers :: "u8 list \<Rightarrow> nat \<Rightarrow> uni_gamepad \<Rightarrow> uni_gamepad" where
  "parse_triggers r i g = g\<lparr>brake := uint (r ! i) * 4, throttle := uint (r ! (i + 1)) * 4\<rparr>"

text \<open>Horizontal and vertical part of a stick or pad; the vertical one is turned round in 16 bits.\<close>

definition steam_x :: "u8 list \<Rightarrow> nat \<Rightarrow> int" where
  "steam_x r i = i16_at r i div 64"

definition steam_y :: "u8 list \<Rightarrow> nat \<Rightarrow> int" where
  "steam_y r i = to_i16 (- i16_at r (i + 2)) div 64"

definition parse_thumbstick :: "u8 list \<Rightarrow> nat \<Rightarrow> uni_gamepad \<Rightarrow> uni_gamepad" where
  "parse_thumbstick r i g = g\<lparr>axis_x := steam_x r i, axis_y := steam_y r i\<rparr>"

definition parse_right_pad :: "u8 list \<Rightarrow> nat \<Rightarrow> uni_gamepad \<Rightarrow> uni_gamepad" where
  "parse_right_pad r i g = g\<lparr>axis_rx := steam_x r i, axis_ry := steam_y r i\<rparr>"

definition steam_flags :: "u8 list \<Rightarrow> u16" where
  "steam_flags r = (ucast (r ! 2) AND 0xf0) + push_bit 8 (ucast (r ! 3))"

definition parse_sections :: "u8 list \<Rightarrow> uni_gamepad \<Rightarrow> uni_gamepad" where
  "parse_sections r g =
     (let flags = steam_flags r;
          i = 4;
          g1 = (if has_bits flags 0x10 then parse_buttons r i g else g);
          g2 = (if has_bits flags 0x20 then parse_triggers r i g1 else g1);
          g3 = (if has_bits flags 0x80 then parse_thumbstick r i g2 else g2);
          i1 = (if has_bits flags 0x100 then i + 4 else i)
      in if has_bits flags 0x200 then parse_right_pad r i1 g3 else g3)"

definition uni_hid_parser_steam_parse_input_report :: "u8 list \<Rightarrow> uni_controller \<Rightarrow> uni_controller" where
  "uni_hid_parser_steam_parse_input_report r ctl =
     (if length r \<noteq> 20 then ctl
      else if r ! 0 \<noteq> 0x03 then ctl
      else if r ! 1 \<noteq> 0xc0 then ctl
      else if r ! 2 AND 0x0f \<noteq> 0x04 then ctl
      else ctl\<lparr>gamepad := parse_sections r (gamepad ctl)\<rparr>)"

section \<open>The set-up of one controller\<close>

definition is_success :: "gatt_event \<Rightarrow> bool" where
  "is_success e \<longleftrightarrow> e = Query_Complete 0"

definition successes :: "gatt_event list \<Rightarrow> nat" where
  "successes es = length (filter is_success es)"

text \<open>How many of its four questions are answered.\<close>

fun progress_of :: "steam_query_state \<Rightarrow> nat" where
  "progress_of STATE_QUERY_SERVICE = 0"
| "progress_of STATE_QUERY_CHARACTERISTIC_REPORT = 1"
| "progress_of STATE_QUERY_CLEAR_MAPPINGS = 2"
| "progress_of STATE_QUERY_DISABLE_LIZARD = 3"
| "progress_of _ = 4"

definition steam_run :: "gatt_event list \<Rightarrow> steam \<Rightarrow> steam" where
  "steam_run es s = fold uni_steam_handle_gatt_client_event es s"

lemma steam_event_progress:
  defines "n \<equiv> \<lambda>s. progress_of (sm_query_state s)"
  shows "n (uni_steam_handle_gatt_client_event e s) = (if is_success e then min 4 (Suc (n s)) else n s)"
    "sm_ready (uni_steam_handle_gatt_client_event e s) =
      sm_ready s @ (if is_success e \<and> n s = 3 then [sm_device s] else [])"
    "sm_device (uni_steam_handle_gatt_client_event e s) = sm_device s"
    "sm_connection_handle (uni_steam_handle_gatt_client_event e s) = sm_connection_handle s"
  by (cases e; cases "sm_query_state s"; simp add: is_success_def n_def steam_request_def)+

lemma successes_Cons: "successes (e # es) = (if is_success e then Suc (successes es) else successes es)"
  by (simp add: successes_def)

lemma progress_le: "progress_of q \<le> 4"
  by (cases q) simp_all

lemma steam_run_progress:
  defines "n \<equiv> \<lambda>s. progress_of (sm_query_state s)"
  shows "n (steam_run es s) = min 4 (n s + successes es)"
    "sm_ready (steam_run es s) = sm_ready s @ (if n s < 4 \<and> 4 \<le> n s + successes es then [sm_device s] else [])"
    "sm_device (steam_run es s) = sm_device s"
  unfolding n_def
proof (induction es arbitrary: s)
  case Nil
  { case 1 show ?case using progress_le [of "sm_query_state s"] by (simp add: steam_run_def successes_def)
  next case 2 show ?case by (simp add: steam_run_def successes_def)
  next case 3 show ?case by (simp add: steam_run_def) }
next
  case (Cons e es)
  have run: "steam_run (e # es) s = steam_run es (uni_steam_handle_gatt_client_event e s)" for s
    by (simp add: steam_run_def)
  note step = steam_event_progress
  { case 1 show ?case using progress_le [of "sm_query_state s"]
      by (auto simp: run Cons.IH(1) step(1) successes_Cons min_def)
  next case 2 show ?case using progress_le [of "sm_query_state s"]
      by (auto simp: run Cons.IH(2) step successes_Cons)
  next case 3 show ?case by (simp add: run Cons.IH(3) step(3)) }
qed

section \<open>Properties\<close>

text \<open>
  The set-up of a Steam Controller counts successful answers: after any events, however ordered, the
  controller has been announced ready exactly once if at least four queries completed without error,
  and not at all otherwise.
\<close>

theorem steam_ready_after_four:
  "sm_ready (steam_run es (snd (uni_hid_parser_steam_setup d handle ctl s))) =
    sm_ready s @ (if 4 \<le> successes es then [d] else [])"
  by (simp add: steam_run_progress(2) uni_hid_parser_steam_setup_def steam_request_def)

text \<open>
  With the answers a controller gives, the requests are those of the protocol, in order, on its own
  connection and to the handle it named.
\<close>

theorem steam_setup_requests:
  "sm_requests (steam_run [Service_Query_Result service, Query_Complete 0, Characteristic_Query_Result h,
      Query_Complete 0, Query_Complete 0, Query_Complete 0] (snd (uni_hid_parser_steam_setup d handle ctl s))) =
    sm_requests s @ [Discover_Service handle, Discover_Characteristic handle service,
      Write_Value handle h cmd_clear_mappings, Write_Value handle h cmd_disable_lizard]"
  by (simp add: steam_run_def uni_hid_parser_steam_setup_def steam_request_def)

text \<open>
  The variables are global: when a second controller is set up before the first is ready, the first never
  is, and its answers are taken for those of the second.
\<close>

theorem second_steam_takes_over:
  assumes "successes es < 4"
  shows "sm_ready (steam_run es' (snd (uni_hid_parser_steam_setup d' h' ctl'
      (steam_run es (snd (uni_hid_parser_steam_setup d h ctl s)))))) =
    sm_ready s @ (if 4 \<le> successes es' then [d'] else [])"
  using assms by (simp add: steam_ready_after_four)

text \<open>
  The place of a section is not advanced behind the buttons, the triggers and the stick: in a report that
  carries several, all are read from the same bytes.
\<close>

theorem steam_sections_overlap:
  assumes "length r = 20" "r ! 0 = 0x03" "r ! 1 = 0xc0" "r ! 2 = 0xb4" "r ! 3 = 0"
  shows "let g = gamepad (uni_hid_parser_steam_parse_input_report r ctl) in
    brake g = uint (r ! 4) * 4 \<and> throttle g = uint (r ! 5) * 4 \<and> axis_x g = steam_x r 4 \<and>
    (bit (buttons g) 0 \<longleftrightarrow> bit (u24_at r 4) 7 \<or> bit (u24_at r 4) 15)"
proof -
  have f: "steam_flags r = 0xb0" using assms(4,5) by (simp add: steam_flags_def)
  have m: "(0x80 :: u32) = BIT 7" "(0x8000 :: u32) = BIT 15" by (simp_all add: BIT_def)
  have "gamepad (uni_hid_parser_steam_parse_input_report r ctl) =
      parse_thumbstick r 4 (parse_triggers r 4 (parse_buttons r 4 (gamepad ctl)))"
    using assms(1-4) by (simp add: uni_hid_parser_steam_parse_input_report_def parse_sections_def f has_bits_def)
  then show ?thesis
    by (simp add: parse_thumbstick_def parse_triggers_def parse_buttons_def Let_def bit_pressed_bits m has_bits_BIT
        bit_BIT button_defs)
qed

lemma sixty_fourth: "- 32768 \<le> v \<Longrightarrow> v \<le> 32767 \<Longrightarrow> - 512 \<le> (- v) div 64 \<and> (- v) div 64 \<le> 512" for v :: int
  using zdiv_mono1 [of "- v" 32768 64] zdiv_mono1 [of "- 32767" "- v" 64] by simp

text \<open>
  The vertical axis is turned round, except at its very end: -32768 has no negative in 16 bits, so a stick
  pushed there jumps to the other end.
\<close>

theorem steam_y_turned:
  "i16_at r (i + 2) \<noteq> - 32768 \<Longrightarrow> steam_y r i = (- i16_at r (i + 2)) div 64 \<and> \<bar>steam_y r i\<bar> \<le> 512"
  "i16_at r (i + 2) = - 32768 \<Longrightarrow> steam_y r i = - 512"
proof -
  show "i16_at r (i + 2) \<noteq> - 32768 \<Longrightarrow> steam_y r i = (- i16_at r (i + 2)) div 64 \<and> \<bar>steam_y r i\<bar> \<le> 512"
    using i16_at_range [of r "i + 2"] sixty_fourth [of "i16_at r (i + 2)"]
    by (simp add: steam_y_def to_i16_id abs_le_iff)
  show "i16_at r (i + 2) = - 32768 \<Longrightarrow> steam_y r i = - 512"
    by (simp add: steam_y_def to_i16_def to_signed_def)
qed

end
