(* ===== verification/Switch_Device.thy ===== *)
theory Switch_Device
  imports Sony_Common Report_Bytes
begin

text \<open>
  \<^verbatim>\<open>components/bluepad32/parser/uni_hid_parser_switch.c\<close>, the state and what it sends: the
  instance, subcommands, the state machine of the setup, the answers that advance it (calibration of
  sticks and motion sensors among them) and the rumble. \<^verbatim>\<open>ENABLE_IMU_REPORT\<close> is 1 and
  \<^verbatim>\<open>ENABLE_SPI_FLASH_DUMP\<close> is 0, as in the file. Reading behind the end of a report, a timer
  registered twice, a failed assertion and a division by zero are the value None. The counter of
  packets is a static variable of \<^verbatim>\<open>send_subcmd\<close>; it is a field here, of the one device that runs.
\<close>

section \<open>State\<close>

datatype switch_state = STATE_UNINIT | STATE_SETUP | STATE_REQ_DEV_INFO
  | STATE_READ_FACTORY_STICK_CALIBRATION | STATE_READ_USER_STICK_CALIBRATION
  | STATE_READ_FACTORY_IMU_CALIBRATION | STATE_SET_FULL_REPORT | STATE_ENABLE_IMU
  | STATE_DUMP_FLASH | STATE_UPDATE_LED | STATE_READY

fun state_number :: "switch_state \<Rightarrow> nat" where
  "state_number STATE_UNINIT = 0"
| "state_number STATE_SETUP = 1"
| "state_number STATE_REQ_DEV_INFO = 2"
| "state_number STATE_READ_FACTORY_STICK_CALIBRATION = 3"
| "state_number STATE_READ_USER_STICK_CALIBRATION = 4"
| "state_number STATE_READ_FACTORY_IMU_CALIBRATION = 5"
| "state_number STATE_SET_FULL_REPORT = 6"
| "state_number STATE_ENABLE_IMU = 7"
| "state_number STATE_DUMP_FLASH = 8"
| "state_number STATE_UPDATE_LED = 9"
| "state_number STATE_READY = 10"

text \<open>The code compares states with less-than and greater-than: the order of the enumeration.\<close>

instantiation switch_state :: linorder
begin

definition "less_eq_switch_state a b \<longleftrightarrow> state_number a \<le> state_number b"

definition "less_switch_state a b \<longleftrightarrow> state_number a < state_number b"

instance
proof
  fix a b :: switch_state
  show "a \<le> b \<Longrightarrow> b \<le> a \<Longrightarrow> a = b"
    by (cases a; cases b) (simp_all add: less_eq_switch_state_def)
qed (auto simp: less_eq_switch_state_def less_switch_state_def)

end

lemmas state_order = less_eq_switch_state_def less_switch_state_def

datatype switch_flags = SWITCH_MODE_NONE | SWITCH_MODE_NORMAL | SWITCH_MODE_IMU

abbreviation SWITCH_CONTROLLER_TYPE_JCL :: u8 where "SWITCH_CONTROLLER_TYPE_JCL \<equiv> 0x01"
abbreviation SWITCH_CONTROLLER_TYPE_JCR :: u8 where "SWITCH_CONTROLLER_TYPE_JCR \<equiv> 0x02"
abbreviation SWITCH_CONTROLLER_TYPE_PRO :: u8 where "SWITCH_CONTROLLER_TYPE_PRO \<equiv> 0x03"
abbreviation SWITCH_CONTROLLER_TYPE_SNES :: u8 where "SWITCH_CONTROLLER_TYPE_SNES \<equiv> 0x0b"

abbreviation SUBCMD_REQ_DEV_INFO :: u8 where "SUBCMD_REQ_DEV_INFO \<equiv> 0x02"
abbreviation SUBCMD_SET_REPORT_MODE :: u8 where "SUBCMD_SET_REPORT_MODE \<equiv> 0x03"
abbreviation SUBCMD_SPI_FLASH_READ :: u8 where "SUBCMD_SPI_FLASH_READ \<equiv> 0x10"
abbreviation SUBCMD_SET_PLAYER_LEDS :: u8 where "SUBCMD_SET_PLAYER_LEDS \<equiv> 0x30"
abbreviation SUBCMD_ENABLE_IMU :: u8 where "SUBCMD_ENABLE_IMU \<equiv> 0x40"

record switch_cal_stick =
  stick_min :: int
  stick_center :: int
  stick_max :: int

record switch_cal_imu =
  imu_offset :: "int list"
  imu_scale :: "int list"

record switch_device =
  sw_ctl :: uni_controller
  sw_rumble :: rumble
  sw_setup_timer :: timer
  sw_state :: switch_state
  sw_mode :: switch_flags
  sw_firmware_hi :: u8
  sw_firmware_lo :: u8
  sw_controller_type :: u8
  sw_gamepad_seat :: u8
  sw_cal_x :: switch_cal_stick
  sw_cal_y :: switch_cal_stick
  sw_cal_rx :: switch_cal_stick
  sw_cal_ry :: switch_cal_stick
  sw_cal_accel :: switch_cal_imu
  sw_cal_gyro :: switch_cal_imu
  sw_accel_divisor :: "int list"
  sw_gyro_divisor :: "int list"
  sw_packet_num :: u8
  sw_sent :: "u8 list list"
  sw_ready_calls :: nat

section \<open>Subcommands\<close>

text \<open>
  \<open>body\<close> is the part behind the rumble bytes: the subcommand with its data, empty for a rumble
  report. The first byte is the HID header for output data.
\<close>

definition send_subcmd :: "u8 \<Rightarrow> u8 list \<Rightarrow> u8 list \<Rightarrow> u8 list \<Rightarrow> switch_device \<Rightarrow> switch_device" where
  "send_subcmd kind rumble_left rumble_right body d =
     (let n = sw_packet_num d
      in d\<lparr>sw_packet_num := (if n + 1 > 0x0f then 0 else n + 1),
           sw_sent := sw_sent d @ [[0xa2, kind, n] @ rumble_left @ rumble_right @ body]\<rparr>)"

definition no_rumble :: "u8 list" where
  "no_rumble = [0, 0, 0, 0]"

definition subcmd :: "u8 \<Rightarrow> u8 list \<Rightarrow> switch_device \<Rightarrow> switch_device" where
  "subcmd subcmd_id payload d = send_subcmd 0x01 no_rumble no_rumble (subcmd_id # payload) d"

definition spi_flash_read :: "u32 \<Rightarrow> u8 \<Rightarrow> switch_device \<Rightarrow> switch_device" where
  "spi_flash_read address bytes_to_read d =
     subcmd SUBCMD_SPI_FLASH_READ [ucast address, ucast (drop_bit 8 address), ucast (drop_bit 16 address),
       ucast (drop_bit 24 address), bytes_to_read] d"

definition set_led :: "u8 \<Rightarrow> switch_device \<Rightarrow> switch_device" where
  "set_led leds d = subcmd SUBCMD_SET_PLAYER_LEDS [leds AND 0x0f] (d\<lparr>sw_gamepad_seat := leds\<rparr>)"

section \<open>The state machine of the setup\<close>

definition fsm_request_device_info :: "switch_device \<Rightarrow> switch_device" where
  "fsm_request_device_info d = subcmd SUBCMD_REQ_DEV_INFO [] (d\<lparr>sw_state := STATE_REQ_DEV_INFO\<rparr>)"

text \<open>A Pro controller is asked for both sticks at once, a Joy-Con for its own.\<close>

definition stick_bytes :: "u8 \<Rightarrow> u8 \<Rightarrow> u8" where
  "stick_bytes kind n = (if kind = SWITCH_CONTROLLER_TYPE_PRO then n * 2 else n)"

definition fsm_read_factory_stick_calibration :: "switch_device \<Rightarrow> switch_device" where
  "fsm_read_factory_stick_calibration d =
     spi_flash_read (if sw_controller_type d = SWITCH_CONTROLLER_TYPE_JCR then 0x6046 else 0x603d)
       (stick_bytes (sw_controller_type d) 9) (d\<lparr>sw_state := STATE_READ_FACTORY_STICK_CALIBRATION\<rparr>)"

definition fsm_read_user_stick_calibration :: "switch_device \<Rightarrow> switch_device" where
  "fsm_read_user_stick_calibration d =
     spi_flash_read (if sw_controller_type d = SWITCH_CONTROLLER_TYPE_JCR then 0x801b else 0x8010)
       (stick_bytes (sw_controller_type d) 11) (d\<lparr>sw_state := STATE_READ_USER_STICK_CALIBRATION\<rparr>)"

definition fsm_read_factory_imu_calibration :: "switch_device \<Rightarrow> switch_device" where
  "fsm_read_factory_imu_calibration d =
     spi_flash_read 0x6020 24 (d\<lparr>sw_state := STATE_READ_FACTORY_IMU_CALIBRATION\<rparr>)"

definition fsm_set_full_report :: "switch_device \<Rightarrow> switch_device" where
  "fsm_set_full_report d = subcmd SUBCMD_SET_REPORT_MODE [0x30] (d\<lparr>sw_state := STATE_SET_FULL_REPORT\<rparr>)"

definition fsm_enable_imu :: "switch_device \<Rightarrow> switch_device" where
  "fsm_enable_imu d = subcmd SUBCMD_ENABLE_IMU [if sw_mode d = SWITCH_MODE_IMU then 1 else 0]
     (d\<lparr>sw_state := STATE_ENABLE_IMU\<rparr>)"

definition fsm_update_led :: "switch_device \<Rightarrow> switch_device" where
  "fsm_update_led d = set_led (sw_gamepad_seat d) (d\<lparr>sw_state := STATE_UPDATE_LED\<rparr>)"

definition SWITCH_SETUP_TIMEOUT_MS :: u16 where
  "SWITCH_SETUP_TIMEOUT_MS = 800"

function process_fsm :: "switch_device \<Rightarrow> switch_device option"
  and fsm_dump_rom :: "switch_device \<Rightarrow> switch_device option"
  and fsm_ready :: "switch_device \<Rightarrow> switch_device option" where
  "process_fsm d = (case sw_state d of
       STATE_SETUP \<Rightarrow> map_option (\<lambda>t. fsm_request_device_info (d\<lparr>sw_setup_timer := t\<rparr>))
         (start_timer SWITCH_SETUP_TIMEOUT_MS (sw_setup_timer d))
     | STATE_REQ_DEV_INFO \<Rightarrow> Some (fsm_read_factory_stick_calibration d)
     | STATE_READ_FACTORY_STICK_CALIBRATION \<Rightarrow> Some (fsm_read_user_stick_calibration d)
     | STATE_READ_USER_STICK_CALIBRATION \<Rightarrow> Some (fsm_read_factory_imu_calibration d)
     | STATE_READ_FACTORY_IMU_CALIBRATION \<Rightarrow> Some (fsm_set_full_report d)
     | STATE_SET_FULL_REPORT \<Rightarrow> Some (fsm_enable_imu d)
     | STATE_ENABLE_IMU \<Rightarrow> fsm_dump_rom d
     | STATE_DUMP_FLASH \<Rightarrow> Some (fsm_update_led d)
     | STATE_UPDATE_LED \<Rightarrow> fsm_ready d
     | STATE_READY \<Rightarrow> Some (d\<lparr>sw_setup_timer := None\<rparr>)
     | STATE_UNINIT \<Rightarrow> Some d)"
| "fsm_dump_rom d = process_fsm (d\<lparr>sw_state := STATE_DUMP_FLASH, sw_setup_timer := None\<rparr>)"
| "fsm_ready d = process_fsm (d\<lparr>sw_state := STATE_READY, sw_ready_calls := Suc (sw_ready_calls d)\<rparr>)"
  by pat_completeness auto

termination
  by (relation "measure (\<lambda>x. case x of
        Inl d \<Rightarrow> 2 * (10 - state_number (sw_state d))
      | Inr (Inl d) \<Rightarrow> 5 | Inr (Inr d) \<Rightarrow> 1)") auto

declare process_fsm.simps [simp del] fsm_dump_rom.simps [simp del] fsm_ready.simps [simp del]

definition switch_setup_timeout_callback :: "switch_device \<Rightarrow> switch_device option" where
  "switch_setup_timeout_callback d = process_fsm d"

section \<open>Setup\<close>

definition default_stick :: switch_cal_stick where
  "default_stick = \<lparr>stick_min = 512, stick_center = 2048, stick_max = 3583\<rparr>"

definition uni_hid_parser_switch_setup :: "switch_device \<Rightarrow> switch_device option" where
  "uni_hid_parser_switch_setup d = process_fsm (d\<lparr>
     sw_rumble := rumble_zero, sw_setup_timer := None,
     sw_state := STATE_SETUP, sw_mode := SWITCH_MODE_NONE, sw_firmware_hi := 0, sw_firmware_lo := 0,
     sw_controller_type := SWITCH_CONTROLLER_TYPE_PRO, sw_gamepad_seat := 0,
     sw_cal_x := default_stick, sw_cal_y := default_stick,
     sw_cal_rx := default_stick, sw_cal_ry := default_stick,
     sw_cal_accel := \<lparr>imu_offset = [0, 0, 0], imu_scale = [16384, 16384, 16384]\<rparr>,
     sw_cal_gyro := \<lparr>imu_offset = [0, 0, 0], imu_scale = [13371, 13371, 13371]\<rparr>,
     sw_accel_divisor := [16384, 16384, 16384], sw_gyro_divisor := [13371, 13371, 13371],
     sw_ctl := controller_zero\<lparr>klass := CLASS_GAMEPAD\<rparr>\<rparr>)"

section \<open>Answers of the controller\<close>

text \<open>Two values of twelve bits in three bytes.\<close>

definition low12 :: "u8 list \<Rightarrow> nat \<Rightarrow> int" where
  "low12 r i = uint (r ! i) + 256 * uint (r ! (i + 1) AND 0x0f)"

definition high12 :: "u8 list \<Rightarrow> nat \<Rightarrow> int" where
  "high12 r i = uint (drop_bit 4 (r ! (i + 1))) + 16 * uint (r ! (i + 2))"

text \<open>The nine bytes of the calibration of a stick: left max, center, min; right center, min, max.\<close>

definition parse_stick_calibration ::
  "u8 list \<Rightarrow> bool \<Rightarrow> switch_cal_stick \<times> switch_cal_stick" where
  "parse_stick_calibration r is_left =
     (let (mx, ce, mn) = (if is_left then (0, 3, 6) else (6, 0, 3))
      in (\<lparr>stick_min = low12 r ce - low12 r mn, stick_center = low12 r ce,
           stick_max = low12 r ce + low12 r mx\<rparr>,
          \<lparr>stick_min = high12 r ce - high12 r mn, stick_center = high12 r ce,
           stick_max = high12 r ce + high12 r mx\<rparr>))"

definition set_left_stick :: "u8 list \<Rightarrow> switch_device \<Rightarrow> switch_device" where
  "set_left_stick r d = (case parse_stick_calibration r True of
     (x, y) \<Rightarrow> d\<lparr>sw_cal_x := x, sw_cal_y := y\<rparr>)"

definition set_right_stick :: "u8 list \<Rightarrow> switch_device \<Rightarrow> switch_device" where
  "set_right_stick r d = (case parse_stick_calibration r False of
     (x, y) \<Rightarrow> d\<lparr>sw_cal_rx := x, sw_cal_ry := y\<rparr>)"

text \<open>\<open>len\<close> is the number of bytes the answer claims to carry, \<open>r\<close> what is left of the report.\<close>

definition process_reply_read_spi_factory_stick_calibration ::
  "u8 list \<Rightarrow> nat \<Rightarrow> switch_device \<Rightarrow> switch_device option" where
  "process_reply_read_spi_factory_stick_calibration r len d =
     (if sw_controller_type d = SWITCH_CONTROLLER_TYPE_PRO
      then (if len < 18 then Some d
            else have_bytes 18 r (Some (set_right_stick (drop 9 r) (set_left_stick r d))))
      else (if len < 9 then Some d
            else have_bytes 9 r (Some (if sw_controller_type d = SWITCH_CONTROLLER_TYPE_JCL
              then set_left_stick r d else set_right_stick r d))))"

definition magic_at :: "u8 list \<Rightarrow> nat \<Rightarrow> bool" where
  "magic_at r i \<longleftrightarrow> r ! i = 0xB2 \<and> r ! (i + 1) = 0xA1"

definition process_reply_read_spi_user_stick_calibration ::
  "u8 list \<Rightarrow> nat \<Rightarrow> switch_device \<Rightarrow> switch_device option" where
  "process_reply_read_spi_user_stick_calibration r len d = have_bytes 2 r
     (if sw_controller_type d = SWITCH_CONTROLLER_TYPE_PRO
      then (if len < 18 then Some d
            else have_bytes 13 r
              (let d1 = (if magic_at r 0 then set_left_stick (drop 2 r) d else d)
               in if magic_at r 11 then have_bytes 22 r (Some (set_right_stick (drop 13 r) d1))
                  else Some d1))
      else (if len < 9 then Some d
            else if \<not> magic_at r 0 then Some d
            else have_bytes 11 r (Some (if sw_controller_type d = SWITCH_CONTROLLER_TYPE_JCL
              then set_left_stick (drop 2 r) d else set_right_stick (drop 2 r) d))))"

definition imu_calibration :: "u8 list \<Rightarrow> nat \<Rightarrow> switch_cal_imu" where
  "imu_calibration r i = \<lparr>imu_offset = [i16_at r i, i16_at r (i + 2), i16_at r (i + 4)],
     imu_scale = [i16_at r (i + 6), i16_at r (i + 8), i16_at r (i + 10)]\<rparr>"

definition imu_divisor :: "switch_cal_imu \<Rightarrow> int list" where
  "imu_divisor c = map2 (\<lambda>s off. s - off) (imu_scale c) (imu_offset c)"

definition process_reply_read_spi_factory_imu_calibration ::
  "u8 list \<Rightarrow> nat \<Rightarrow> switch_device \<Rightarrow> switch_device option" where
  "process_reply_read_spi_factory_imu_calibration r len d =
     (if len \<noteq> 24 then Some d
      else have_bytes 24 r (Some (let a = imu_calibration r 0; g = imu_calibration r 12
        in d\<lparr>sw_cal_accel := a, sw_cal_gyro := g,
             sw_accel_divisor := imu_divisor a, sw_gyro_divisor := imu_divisor g\<rparr>)))"

definition process_reply_spi_flash_read :: "u8 list \<Rightarrow> switch_device \<Rightarrow> switch_device option" where
  "process_reply_spi_flash_read report d =
     (if length report < 20 then Some d
      else let mem_len = unat (report ! 19); r = drop 20 report
        in case sw_state d of
             STATE_READ_FACTORY_STICK_CALIBRATION \<Rightarrow>
               process_reply_read_spi_factory_stick_calibration r mem_len d
           | STATE_READ_USER_STICK_CALIBRATION \<Rightarrow>
               process_reply_read_spi_user_stick_calibration r mem_len d
           | STATE_READ_FACTORY_IMU_CALIBRATION \<Rightarrow>
               process_reply_read_spi_factory_imu_calibration r mem_len d
           | _ \<Rightarrow> Some d)"

definition process_reply_req_dev_info :: "u8 list \<Rightarrow> switch_device \<Rightarrow> switch_device option" where
  "process_reply_req_dev_info report d = have_bytes 18 report
     (let d1 = (if sw_state d > STATE_SETUP \<and> sw_mode d = SWITCH_MODE_NONE
                then d\<lparr>sw_mode := SWITCH_MODE_IMU\<rparr> else d)
      in Some (d1\<lparr>sw_firmware_hi := report ! 15, sw_firmware_lo := report ! 16,
           sw_controller_type := report ! 17\<rparr>))"

definition switch_battery :: "u8 \<Rightarrow> u8 \<Rightarrow> u8" where
  "switch_battery bat_con old = (let b = drop_bit 5 bat_con
     in if b = 0 then 1 else if b = 1 then 64 else if b = 2 then 128 else if b = 3 then 192
        else if b = 4 then 255 else old)"

text \<open>The answers to the other subcommands carry nothing.\<close>

definition reply_data :: "u8 list \<Rightarrow> switch_device \<Rightarrow> switch_device option" where
  "reply_data report d =
     (if report ! 14 = SUBCMD_REQ_DEV_INFO then process_reply_req_dev_info report d
      else if report ! 14 = SUBCMD_SPI_FLASH_READ then process_reply_spi_flash_read report d
      else Some d)"

definition process_input_subcmd_reply :: "u8 list \<Rightarrow> switch_device \<Rightarrow> switch_device option" where
  "process_input_subcmd_reply report d = have_bytes 15 report
     (case reply_data report d of
        None \<Rightarrow> None
      | Some d1 \<Rightarrow> process_fsm (d1\<lparr>sw_ctl := (sw_ctl d1)\<lparr>battery :=
          switch_battery (report ! 2) (battery (sw_ctl d1))\<rparr>\<rparr>))"

section \<open>Lights and rumble\<close>

definition uni_hid_parser_switch_set_player_leds :: "u8 \<Rightarrow> switch_device \<Rightarrow> switch_device" where
  "uni_hid_parser_switch_set_player_leds leds d =
     (let d1 = d\<lparr>sw_gamepad_seat := leds\<rparr> in if sw_state d1 < STATE_READY then d1 else set_led leds d1)"

type_synonym rumble_freq_data = "u16 \<times> u8 \<times> nat"
type_synonym rumble_amp_data = "u8 \<times> u16 \<times> nat"

definition rumble_freqs :: "rumble_freq_data list" where
  "rumble_freqs = [
    (0x0000, 0x01, 41), (0x0000, 0x02, 42), (0x0000, 0x03, 43), (0x0000, 0x04, 44),
    (0x0000, 0x05, 45), (0x0000, 0x06, 46), (0x0000, 0x07, 47), (0x0000, 0x08, 48),
    (0x0000, 0x09, 49), (0x0000, 0x0A, 50), (0x0000, 0x0B, 51), (0x0000, 0x0C, 52),
    (0x0000, 0x0D, 53), (0x0000, 0x0E, 54), (0x0000, 0x0F, 55), (0x0000, 0x10, 57),
    (0x0000, 0x11, 58), (0x0000, 0x12, 59), (0x0000, 0x13, 60), (0x0000, 0x14, 62),
    (0x0000, 0x15, 63), (0x0000, 0x16, 64), (0x0000, 0x17, 66), (0x0000, 0x18, 67),
    (0x0000, 0x19, 69), (0x0000, 0x1A, 70), (0x0000, 0x1B, 72), (0x0000, 0x1C, 73),
    (0x0000, 0x1D, 75), (0x0000, 0x1e, 77), (0x0000, 0x1f, 78), (0x0000, 0x20, 80),
    (0x0400, 0x21, 82), (0x0800, 0x22, 84), (0x0c00, 0x23, 85), (0x1000, 0x24, 87),
    (0x1400, 0x25, 89), (0x1800, 0x26, 91), (0x1c00, 0x27, 93), (0x2000, 0x28, 95),
    (0x2400, 0x29, 97), (0x2800, 0x2a, 99), (0x2c00, 0x2b, 102), (0x3000, 0x2c, 104),
    (0x3400, 0x2d, 106), (0x3800, 0x2e, 108), (0x3c00, 0x2f, 111), (0x4000, 0x30, 113),
    (0x4400, 0x31, 116), (0x4800, 0x32, 118), (0x4c00, 0x33, 121), (0x5000, 0x34, 123),
    (0x5400, 0x35, 126), (0x5800, 0x36, 129), (0x5c00, 0x37, 132), (0x6000, 0x38, 135),
    (0x6400, 0x39, 137), (0x6800, 0x3a, 141), (0x6c00, 0x3b, 144), (0x7000, 0x3c, 147),
    (0x7400, 0x3d, 150), (0x7800, 0x3e, 153), (0x7c00, 0x3f, 157), (0x8000, 0x40, 160),
    (0x8400, 0x41, 164), (0x8800, 0x42, 167), (0x8c00, 0x43, 171), (0x9000, 0x44, 174),
    (0x9400, 0x45, 178), (0x9800, 0x46, 182), (0x9c00, 0x47, 186), (0xa000, 0x48, 190),
    (0xa400, 0x49, 194), (0xa800, 0x4a, 199), (0xac00, 0x4b, 203), (0xb000, 0x4c, 207),
    (0xb400, 0x4d, 212), (0xb800, 0x4e, 217), (0xbc00, 0x4f, 221), (0xc000, 0x50, 226),
    (0xc400, 0x51, 231), (0xc800, 0x52, 236), (0xcc00, 0x53, 241), (0xd000, 0x54, 247),
    (0xd400, 0x55, 252), (0xd800, 0x56, 258), (0xdc00, 0x57, 263), (0xe000, 0x58, 269),
    (0xe400, 0x59, 275), (0xe800, 0x5a, 281), (0xec00, 0x5b, 287), (0xf000, 0x5c, 293),
    (0xf400, 0x5d, 300), (0xf800, 0x5e, 306), (0xfc00, 0x5f, 313), (0x0001, 0x60, 320),
    (0x0401, 0x61, 327), (0x0801, 0x62, 334), (0x0c01, 0x63, 341), (0x1001, 0x64, 349),
    (0x1401, 0x65, 357), (0x1801, 0x66, 364), (0x1c01, 0x67, 372), (0x2001, 0x68, 381),
    (0x2401, 0x69, 389), (0x2801, 0x6a, 397), (0x2c01, 0x6b, 406), (0x3001, 0x6c, 415),
    (0x3401, 0x6d, 424), (0x3801, 0x6e, 433), (0x3c01, 0x6f, 443), (0x4001, 0x70, 453),
    (0x4401, 0x71, 462), (0x4801, 0x72, 473), (0x4c01, 0x73, 483), (0x5001, 0x74, 494),
    (0x5401, 0x75, 504), (0x5801, 0x76, 515), (0x5c01, 0x77, 527), (0x6001, 0x78, 538),
    (0x6401, 0x79, 550), (0x6801, 0x7a, 562), (0x6c01, 0x7b, 574), (0x7001, 0x7c, 587),
    (0x7401, 0x7d, 600), (0x7801, 0x7e, 613), (0x7c01, 0x7f, 626), (0x8001, 0x00, 640),
    (0x8401, 0x00, 654), (0x8801, 0x00, 668), (0x8c01, 0x00, 683), (0x9001, 0x00, 698),
    (0x9401, 0x00, 713), (0x9801, 0x00, 729), (0x9c01, 0x00, 745), (0xa001, 0x00, 761),
    (0xa401, 0x00, 778), (0xa801, 0x00, 795), (0xac01, 0x00, 812), (0xb001, 0x00, 830),
    (0xb401, 0x00, 848), (0xb801, 0x00, 867), (0xbc01, 0x00, 886), (0xc001, 0x00, 905),
    (0xc401, 0x00, 925), (0xc801, 0x00, 945), (0xcc01, 0x00, 966), (0xd001, 0x00, 987),
    (0xd401, 0x00, 1009), (0xd801, 0x00, 1031), (0xdc01, 0x00, 1053), (0xe001, 0x00, 1076),
    (0xe401, 0x00, 1100), (0xe801, 0x00, 1124), (0xec01, 0x00, 1149), (0xf001, 0x00, 1174),
    (0xf401, 0x00, 1199), (0xf801, 0x00, 1226), (0xfc01, 0x00, 1253)]"

definition rumble_amps :: "rumble_amp_data list" where
  "rumble_amps = [
    (0x00, 0x0040, 0), (0x02, 0x8040, 10), (0x04, 0x0041, 12), (0x06, 0x8041, 14),
    (0x08, 0x0042, 17), (0x0a, 0x8042, 20), (0x0c, 0x0043, 24), (0x0e, 0x8043, 28),
    (0x10, 0x0044, 33), (0x12, 0x8044, 40), (0x14, 0x0045, 47), (0x16, 0x8045, 56),
    (0x18, 0x0046, 67), (0x1a, 0x8046, 80), (0x1c, 0x0047, 95), (0x1e, 0x8047, 112),
    (0x20, 0x0048, 117), (0x22, 0x8048, 123), (0x24, 0x0049, 128), (0x26, 0x8049, 134),
    (0x28, 0x004a, 140), (0x2a, 0x804a, 146), (0x2c, 0x004b, 152), (0x2e, 0x804b, 159),
    (0x30, 0x004c, 166), (0x32, 0x804c, 173), (0x34, 0x004d, 181), (0x36, 0x804d, 189),
    (0x38, 0x004e, 198), (0x3a, 0x804e, 206), (0x3c, 0x004f, 215), (0x3e, 0x804f, 225),
    (0x40, 0x0050, 230), (0x42, 0x8050, 235), (0x44, 0x0051, 240), (0x46, 0x8051, 245),
    (0x48, 0x0052, 251), (0x4a, 0x8052, 256), (0x4c, 0x0053, 262), (0x4e, 0x8053, 268),
    (0x50, 0x0054, 273), (0x52, 0x8054, 279), (0x54, 0x0055, 286), (0x56, 0x8055, 292),
    (0x58, 0x0056, 298), (0x5a, 0x8056, 305), (0x5c, 0x0057, 311), (0x5e, 0x8057, 318),
    (0x60, 0x0058, 325), (0x62, 0x8058, 332), (0x64, 0x0059, 340), (0x66, 0x8059, 347),
    (0x68, 0x005a, 355), (0x6a, 0x805a, 362), (0x6c, 0x005b, 370), (0x6e, 0x805b, 378),
    (0x70, 0x005c, 387), (0x72, 0x805c, 395), (0x74, 0x005d, 404), (0x76, 0x805d, 413),
    (0x78, 0x005e, 422), (0x7a, 0x805e, 431), (0x7c, 0x005f, 440), (0x7e, 0x805f, 450),
    (0x80, 0x0060, 460), (0x82, 0x8060, 470), (0x84, 0x0061, 480), (0x86, 0x8061, 491),
    (0x88, 0x0062, 501), (0x8a, 0x8062, 512), (0x8c, 0x0063, 524), (0x8e, 0x8063, 535),
    (0x90, 0x0064, 547), (0x92, 0x8064, 559), (0x94, 0x0065, 571), (0x96, 0x8065, 584),
    (0x98, 0x0066, 596), (0x9a, 0x8066, 609), (0x9c, 0x0067, 623), (0x9e, 0x8067, 636),
    (0xa0, 0x0068, 650), (0xa2, 0x8068, 665), (0xa4, 0x0069, 679), (0xa6, 0x8069, 694),
    (0xa8, 0x006a, 709), (0xaa, 0x806a, 725), (0xac, 0x006b, 741), (0xae, 0x806b, 757),
    (0xb0, 0x006c, 773), (0xb2, 0x806c, 790), (0xb4, 0x006d, 808), (0xb6, 0x806d, 825),
    (0xb8, 0x006e, 843), (0xba, 0x806e, 862), (0xbc, 0x006f, 881), (0xbe, 0x806f, 900),
    (0xc0, 0x0070, 920), (0xc2, 0x8070, 940), (0xc4, 0x0071, 960), (0xc6, 0x8071, 981),
    (0xc8, 0x0072, 1003)]"

text \<open>
  The two searches are the same loop: the first entry is for small values, the last one for large ones,
  and between them the one whose value and its predecessor's enclose the wanted value.
\<close>

definition find_rumble :: "('a \<Rightarrow> nat) \<Rightarrow> 'a list \<Rightarrow> nat \<Rightarrow> 'a" where
  "find_rumble v t x =
     (if x > v (t ! 0)
      then (case find (\<lambda>i. x > v (t ! (i - 1)) \<and> x \<le> v (t ! i)) [1 ..< length t - 1] of
              Some i \<Rightarrow> t ! i
            | None \<Rightarrow> t ! (length t - 1))
      else t ! 0)"

definition find_rumble_freq :: "u16 \<Rightarrow> rumble_freq_data" where
  "find_rumble_freq freq = find_rumble (\<lambda>e. snd (snd e)) rumble_freqs (unat freq)"

definition find_rumble_amp :: "u16 \<Rightarrow> rumble_amp_data" where
  "find_rumble_amp amp = find_rumble (\<lambda>e. snd (snd e)) rumble_amps (unat amp)"

definition switch_encode_rumble :: "u16 \<Rightarrow> u16 \<Rightarrow> u16 \<Rightarrow> u8 list" where
  "switch_encode_rumble freq_low freq_high amp =
     (let (lo_high, lo_low, lo_freq) = find_rumble_freq freq_low;
          (hi_high, hi_low, hi_freq) = find_rumble_freq freq_high;
          (amp_high, amp_low, amp_amp) = find_rumble_amp amp
      in [ucast (drop_bit 8 hi_high), ucast hi_high + amp_high,
          lo_low + ucast (drop_bit 8 amp_low), ucast amp_low])"

definition rumble_default :: "u8 list" where
  "rumble_default = [0x00, 0x01, 0x40, 0x40]"

definition sw_set_rumble :: "rumble \<Rightarrow> switch_device \<Rightarrow> switch_device" where
  "sw_set_rumble r d = d\<lparr>sw_rumble := r\<rparr>"

definition switch_stop_rumble_now :: "switch_device \<Rightarrow> switch_device option" where
  "switch_stop_rumble_now d =
     (if rb_state (sw_rumble d) \<noteq> RUMBLE_IN_PROGRESS then None
      else Some (send_subcmd 0x10 rumble_default rumble_default []
        (sw_set_rumble ((sw_rumble d)\<lparr>rb_state := RUMBLE_DISABLED\<rparr>) d)))"

definition switch_play_dual_rumble_now :: "u16 \<Rightarrow> u8 \<Rightarrow> u8 \<Rightarrow> switch_device \<Rightarrow> switch_device option" where
  "switch_play_dual_rumble_now duration_ms weak strong d =
     (if duration_ms = 0
      then (if rb_state (sw_rumble d) \<noteq> RUMBLE_DISABLED then switch_stop_rumble_now d else Some d)
      else let d1 = send_subcmd 0x10
               (switch_encode_rumble (push_bit 2 (ucast weak)) (ucast weak) 500)
               (switch_encode_rumble (push_bit 2 (ucast strong)) (ucast strong) 500) [] d
        in map_option (\<lambda>r. sw_set_rumble r d1) (rumble_arm duration_ms (sw_rumble d1)))"

definition uni_hid_parser_switch_play_dual_rumble ::
  "u16 \<Rightarrow> u16 \<Rightarrow> u8 \<Rightarrow> u8 \<Rightarrow> switch_device \<Rightarrow> switch_device option" where
  "uni_hid_parser_switch_play_dual_rumble start_delay_ms duration_ms weak strong d =
     rumble_play sw_rumble sw_set_rumble switch_play_dual_rumble_now start_delay_ms duration_ms weak strong d"

definition on_switch_set_rumble_on :: "switch_device \<Rightarrow> switch_device option" where
  "on_switch_set_rumble_on d = rumble_on sw_rumble switch_play_dual_rumble_now d"

definition on_switch_set_rumble_off :: "switch_device \<Rightarrow> switch_device option" where
  "on_switch_set_rumble_off d = switch_stop_rumble_now d"

section \<open>Choice by name\<close>

definition uni_hid_parser_switch_does_name_match :: "string \<Rightarrow> (u16 \<times> u16) option" where
  "uni_hid_parser_switch_does_name_match name =
     map_of [(''Pro Controller'', (0x057e, 0x2009)), (''Joy-Con (L)'', (0x057e, 0x2006)),
       (''Joy-Con (R)'', (0x057e, 0x2007)), (''SNES Controller'', (0x057e, 0x2017))] name"

end
