(* ===== verification/Parser_Switch.thy ===== *)
theory Parser_Switch
  imports Switch_Device
begin

text \<open>
  \<^verbatim>\<open>components/bluepad32/parser/uni_hid_parser_switch.c\<close>, the input reports and the driver as a whole:
  calibrated sticks, motion data, the layouts of Pro controller, SNES pad and Joy-Cons, the short
  report, and runs of any reports, time-outs, lights and rumble. The setup advances one state with
  every answer; what the controller answers decides whether later reports can be scaled.
\<close>

section \<open>Sticks\<close>

definition calibrate_axis :: "int \<Rightarrow> switch_cal_stick \<Rightarrow> int option" where
  "calibrate_axis v cal =
     map_option (\<lambda>r. let r1 = (if r > AXIS_NORMALIZE_RANGE sdiv 2 then AXIS_NORMALIZE_RANGE sdiv 2 else r)
         in if r1 < - AXIS_NORMALIZE_RANGE sdiv 2 then - AXIS_NORMALIZE_RANGE sdiv 2 else r1)
       (if v > stick_center cal
        then c_div (((v - stick_center cal) * AXIS_NORMALIZE_RANGE) sdiv 2) (stick_max cal - stick_center cal)
        else c_div (((stick_center cal - v) * - AXIS_NORMALIZE_RANGE) sdiv 2) (stick_center cal - stick_min cal))"

text \<open>The report starts behind its three header bytes: right, misc and left buttons, two sticks.\<close>

definition parse_report_30_pro_controller :: "u8 list \<Rightarrow> switch_device \<Rightarrow> uni_gamepad option" where
  "parse_report_30_pro_controller r d =
     (let b_right = r ! 3; b_misc = r ! 4; b_left = r ! 5;
          base = [(has_bits b_right 0x01, BUTTON_X), (has_bits b_right 0x02, BUTTON_Y),
            (has_bits b_right 0x04, BUTTON_A), (has_bits b_right 0x08, BUTTON_B),
            (has_bits b_right 0x40, BUTTON_SHOULDER_R), (has_bits b_right 0x80, BUTTON_TRIGGER_R),
            (has_bits b_left 0x40, BUTTON_SHOULDER_L), (has_bits b_left 0x80, BUTTON_TRIGGER_L)];
          thumbs = [(has_bits b_misc 0x04, BUTTON_THUMB_R), (has_bits b_misc 0x08, BUTTON_THUMB_L)];
          g = gamepad_zero\<lparr>
            dpad := pressed_bits [(has_bits b_left 0x01, DPAD_DOWN), (has_bits b_left 0x02, DPAD_UP),
              (has_bits b_left 0x04, DPAD_RIGHT), (has_bits b_left 0x08, DPAD_LEFT)],
            misc_buttons := pressed_bits [(has_bits b_misc 0x01, MISC_BUTTON_SELECT),
              (has_bits b_misc 0x02, MISC_BUTTON_START), (has_bits b_misc 0x10, MISC_BUTTON_SYSTEM),
              (has_bits b_misc 0x20, MISC_BUTTON_CAPTURE)]\<rparr>
      in if sw_controller_type d = SWITCH_CONTROLLER_TYPE_PRO
         then (case (calibrate_axis (low12 r 6) (sw_cal_x d), calibrate_axis (high12 r 6) (sw_cal_y d),
                     calibrate_axis (low12 r 9) (sw_cal_rx d), calibrate_axis (high12 r 9) (sw_cal_ry d)) of
                 (Some x, Some y, Some rx, Some ry) \<Rightarrow> Some (g\<lparr>buttons := pressed_bits (base @ thumbs),
                   axis_x := x, axis_y := - y, axis_rx := rx, axis_ry := - ry\<rparr>)
               | _ \<Rightarrow> None)
         else Some (g\<lparr>buttons := pressed_bits base\<rparr>))"

definition parse_report_30_joycon_left :: "u8 list \<Rightarrow> switch_device \<Rightarrow> uni_gamepad option" where
  "parse_report_30_joycon_left r d =
     (let b_misc = r ! 4; b_left = r ! 5
      in case (calibrate_axis (low12 r 6) (sw_cal_x d), calibrate_axis (high12 r 6) (sw_cal_y d)) of
           (Some x, Some y) \<Rightarrow> Some (gamepad_zero\<lparr>axis_y := - x, axis_x := - y,
             buttons := pressed_bits [(has_bits b_left 0x01, BUTTON_B), (has_bits b_left 0x02, BUTTON_X),
               (has_bits b_left 0x04, BUTTON_Y), (has_bits b_left 0x08, BUTTON_A),
               (has_bits b_left 0x10, BUTTON_SHOULDER_R), (has_bits b_left 0x20, BUTTON_SHOULDER_L),
               (has_bits b_left 0x40, BUTTON_TRIGGER_L), (has_bits b_left 0x80, BUTTON_TRIGGER_R),
               (has_bits b_misc 0x08, BUTTON_THUMB_L)],
             misc_buttons := pressed_bits [(has_bits b_misc 0x01, MISC_BUTTON_SELECT),
               (has_bits b_misc 0x20, MISC_BUTTON_START)]\<rparr>)
         | _ \<Rightarrow> None)"

definition parse_report_30_joycon_right :: "u8 list \<Rightarrow> switch_device \<Rightarrow> uni_gamepad option" where
  "parse_report_30_joycon_right r d =
     (let b_right = r ! 3; b_misc = r ! 4
      in case (calibrate_axis (low12 r 9) (sw_cal_rx d), calibrate_axis (high12 r 9) (sw_cal_ry d)) of
           (Some rx, Some ry) \<Rightarrow> Some (gamepad_zero\<lparr>axis_y := rx, axis_x := ry,
             buttons := pressed_bits [(has_bits b_right 0x01, BUTTON_Y), (has_bits b_right 0x02, BUTTON_B),
               (has_bits b_right 0x04, BUTTON_X), (has_bits b_right 0x08, BUTTON_A),
               (has_bits b_right 0x10, BUTTON_SHOULDER_R), (has_bits b_right 0x20, BUTTON_SHOULDER_L),
               (has_bits b_right 0x40, BUTTON_TRIGGER_L), (has_bits b_right 0x80, BUTTON_TRIGGER_R),
               (has_bits b_misc 0x04, BUTTON_THUMB_L)],
             misc_buttons := pressed_bits [(has_bits b_misc 0x10, MISC_BUTTON_SELECT),
               (has_bits b_misc 0x02, MISC_BUTTON_START)]\<rparr>)
         | _ \<Rightarrow> None)"

section \<open>Motion data\<close>

definition switch_accel :: "switch_device \<Rightarrow> u8 list \<Rightarrow> nat \<Rightarrow> nat \<Rightarrow> int option" where
  "switch_accel d r base i =
     (if sw_accel_divisor d ! i = 0 then Some (i16_at r (base + 2 * i))
      else c_div (i16_at r (base + 2 * i) * imu_scale (sw_cal_accel d) ! i) (sw_accel_divisor d ! i))"

definition switch_gyro :: "switch_device \<Rightarrow> u8 list \<Rightarrow> nat \<Rightarrow> nat \<Rightarrow> int option" where
  "switch_gyro d r base i =
     map_option to_i32 (mult_frac (1000 * (i16_at r (base + 6 + 2 * i) - imu_offset (sw_cal_gyro d) ! i))
       (imu_scale (sw_cal_gyro d) ! i) (sw_gyro_divisor d ! i))"

definition three :: "(nat \<Rightarrow> int option) \<Rightarrow> int list option" where
  "three f = (case (f 0, f 1, f 2) of (Some a, Some b, Some c) \<Rightarrow> Some [a, b, c] | _ \<Rightarrow> None)"

text \<open>A right Joy-Con has its Y and Z axes negated.\<close>

definition joycon_axes :: "switch_device \<Rightarrow> int list \<Rightarrow> int list" where
  "joycon_axes d v =
     (if sw_controller_type d = SWITCH_CONTROLLER_TYPE_JCR then [v ! 0, - (v ! 1), - (v ! 2)] else v)"

definition parse_imu :: "u8 list \<Rightarrow> nat \<Rightarrow> switch_device \<Rightarrow> uni_gamepad \<Rightarrow> uni_gamepad option" where
  "parse_imu r base d g =
     (case (three (switch_accel d r base), three (switch_gyro d r base)) of
        (Some a, Some w) \<Rightarrow> Some (g\<lparr>accel := joycon_axes d a, gyro := joycon_axes d w\<rparr>)
      | _ \<Rightarrow> None)"

section \<open>Reports\<close>

definition set_gamepad :: "switch_device \<Rightarrow> uni_gamepad \<Rightarrow> switch_device" where
  "set_gamepad d g = d\<lparr>sw_ctl := (sw_ctl d)\<lparr>gamepad := g\<rparr>\<rparr>"

text \<open>The last of the three samples of motion data starts at byte 37.\<close>

definition parse_report_30 :: "u8 list \<Rightarrow> switch_device \<Rightarrow> switch_device option" where
  "parse_report_30 r d =
     (case (if sw_controller_type d = SWITCH_CONTROLLER_TYPE_JCL then parse_report_30_joycon_left r d
            else if sw_controller_type d = SWITCH_CONTROLLER_TYPE_JCR then parse_report_30_joycon_right r d
            else if sw_controller_type d \<in> {SWITCH_CONTROLLER_TYPE_PRO, SWITCH_CONTROLLER_TYPE_SNES}
            then parse_report_30_pro_controller r d
            else Some gamepad_zero) of
        None \<Rightarrow> None
      | Some g \<Rightarrow> map_option (set_gamepad d)
          (if sw_mode d = SWITCH_MODE_IMU then have_bytes 49 r (parse_imu r 37 d g) else Some g))"

definition axis_16 :: "u8 \<Rightarrow> u8 \<Rightarrow> int" where
  "axis_16 msb lsb = ((256 * uint msb + uint lsb) * AXIS_NORMALIZE_RANGE) sdiv 65536 - AXIS_NORMALIZE_RANGE sdiv 2"

definition parse_report_3f :: "u8 list \<Rightarrow> switch_device \<Rightarrow> switch_device" where
  "parse_report_3f r d =
     (let b_main = r ! 1; b_aux = r ! 2
      in set_gamepad d (gamepad_zero\<lparr>
        buttons := pressed_bits [(has_bits b_main 0x01, BUTTON_A), (has_bits b_main 0x02, BUTTON_B),
          (has_bits b_main 0x04, BUTTON_X), (has_bits b_main 0x08, BUTTON_Y),
          (has_bits b_main 0x10, BUTTON_SHOULDER_L), (has_bits b_main 0x20, BUTTON_SHOULDER_R),
          (has_bits b_main 0x40, BUTTON_TRIGGER_L), (has_bits b_main 0x80, BUTTON_TRIGGER_R),
          (has_bits b_aux 0x04, BUTTON_THUMB_L), (has_bits b_aux 0x08, BUTTON_THUMB_R)],
        misc_buttons := pressed_bits [(has_bits b_aux 0x01, MISC_BUTTON_SELECT),
          (has_bits b_aux 0x02, MISC_BUTTON_START), (has_bits b_aux 0x10, MISC_BUTTON_SYSTEM),
          (has_bits b_aux 0x20, MISC_BUTTON_CAPTURE)],
        dpad := uni_hid_parser_hat_to_dpad (r ! 3),
        axis_x := axis_16 (r ! 5) (r ! 4), axis_y := axis_16 (r ! 7) (r ! 6),
        axis_rx := axis_16 (r ! 9) (r ! 8), axis_ry := axis_16 (r ! 11) (r ! 10)\<rparr>))"

definition uni_hid_parser_switch_init_report :: "switch_device \<Rightarrow> switch_device" where
  "uni_hid_parser_switch_init_report d = d"

definition uni_hid_parser_switch_parse_input_report ::
  "u8 list \<Rightarrow> switch_device \<Rightarrow> switch_device option" where
  "uni_hid_parser_switch_parse_input_report report d =
     (if length report < 12 then Some d
      else if report ! 0 = 0x21 then process_input_subcmd_reply report d
      else if report ! 0 = 0x30 then parse_report_30 report d
      else if report ! 0 = 0x3f then Some (parse_report_3f report d)
      else Some d)"

section \<open>Runs of the driver\<close>

datatype switch_event = SW_Report "u8 list" | SW_Setup_Timeout | SW_Leds u8 | SW_Rumble rumble_event

fun switch_step :: "switch_event \<Rightarrow> switch_device \<Rightarrow> switch_device option" where
  "switch_step (SW_Report r) d =
     uni_hid_parser_switch_parse_input_report r (uni_hid_parser_switch_init_report d)"
| "switch_step SW_Setup_Timeout d = switch_setup_timeout_callback (d\<lparr>sw_setup_timer := None\<rparr>)"
| "switch_step (SW_Leds leds) d = Some (uni_hid_parser_switch_set_player_leds leds d)"
| "switch_step (SW_Rumble e) d =
     rumble_step sw_rumble sw_set_rumble switch_play_dual_rumble_now switch_stop_rumble_now e d"

text \<open>What the calibration data must be like for the divisions that use it.\<close>

definition stick_ok :: "switch_cal_stick \<Rightarrow> bool" where
  "stick_ok c \<longleftrightarrow> stick_min c < stick_center c \<and> stick_center c < stick_max c"

definition scalable :: "switch_device \<Rightarrow> bool" where
  "scalable d \<longleftrightarrow> stick_ok (sw_cal_x d) \<and> stick_ok (sw_cal_y d) \<and> stick_ok (sw_cal_rx d) \<and>
     stick_ok (sw_cal_ry d) \<and> (\<forall>i < 3. sw_gyro_divisor d ! i \<noteq> 0)"

text \<open>
  The bytes of the flash that make it so: the distances of the ends of a stick from its centre are not
  zero, and the scale of the gyroscope differs from its offset.
\<close>

definition ends_apart :: "u8 list \<Rightarrow> nat \<Rightarrow> nat \<Rightarrow> bool" where
  "ends_apart r i j \<longleftrightarrow> 0 < low12 r i \<and> 0 < high12 r i \<and> 0 < low12 r j \<and> 0 < high12 r j"

definition left_usable :: "u8 list \<Rightarrow> bool" where "left_usable r = ends_apart r 0 6"
definition right_usable :: "u8 list \<Rightarrow> bool" where "right_usable r = ends_apart r 6 3"

definition gyro_usable :: "u8 list \<Rightarrow> bool" where
  "gyro_usable r \<longleftrightarrow> i16_at r 12 \<noteq> i16_at r 18 \<and> i16_at r 14 \<noteq> i16_at r 20 \<and> i16_at r 16 \<noteq> i16_at r 22"

text \<open>What the flash answers to the read of a state, \<open>n\<close> bytes of it; a user calibration counts with its magic number.\<close>

definition flash_usable :: "switch_state \<Rightarrow> u8 \<Rightarrow> nat \<Rightarrow> u8 list \<Rightarrow> bool" where
  "flash_usable st t n r \<longleftrightarrow>
     (st = STATE_READ_FACTORY_STICK_CALIBRATION \<longrightarrow>
        (if t = SWITCH_CONTROLLER_TYPE_PRO then n \<ge> 18 \<longrightarrow> left_usable r \<and> right_usable (drop 9 r)
         else n \<ge> 9 \<longrightarrow> (if t = SWITCH_CONTROLLER_TYPE_JCL then left_usable r else right_usable r))) \<and>
     (st = STATE_READ_USER_STICK_CALIBRATION \<longrightarrow>
        (if t = SWITCH_CONTROLLER_TYPE_PRO
         then n \<ge> 18 \<longrightarrow> (magic_at r 0 \<longrightarrow> left_usable (drop 2 r)) \<and> (magic_at r 11 \<longrightarrow> right_usable (drop 13 r))
         else n \<ge> 9 \<longrightarrow> magic_at r 0 \<longrightarrow>
           (if t = SWITCH_CONTROLLER_TYPE_JCL then left_usable (drop 2 r) else right_usable (drop 2 r)))) \<and>
     (st = STATE_READ_FACTORY_IMU_CALIBRATION \<longrightarrow> n = 24 \<longrightarrow> gyro_usable r)"

text \<open>
  The environment: reports have their full 49 bytes; what is read from the flash is usable; a timer
  fires only while registered; no rumble has duration zero.
\<close>

fun switch_ok :: "switch_event \<Rightarrow> switch_device \<Rightarrow> bool" where
  "switch_ok (SW_Report r) d =
     (length r = 49 \<and> (r ! 0 = 0x21 \<longrightarrow> r ! 14 = SUBCMD_SPI_FLASH_READ \<longrightarrow>
        flash_usable (sw_state d) (sw_controller_type d) (unat (r ! 19)) (drop 20 r)))"
| "switch_ok SW_Setup_Timeout d = (sw_setup_timer d \<noteq> None)"
| "switch_ok (SW_Leds leds) d = True"
| "switch_ok (SW_Rumble e) d = rumble_ok False e (sw_rumble d)"

fun advances :: "switch_event \<Rightarrow> bool" where
  "advances (SW_Report r) = (r ! 0 = 0x21)"
| "advances SW_Setup_Timeout = True"
| "advances (SW_Leds leds) = False"
| "advances (SW_Rumble e) = False"

text \<open>The states a setup goes through; the ROM dump is compiled out and passed at once.\<close>

definition setup_order :: "switch_state list" where
  "setup_order = [STATE_REQ_DEV_INFO, STATE_READ_FACTORY_STICK_CALIBRATION,
     STATE_READ_USER_STICK_CALIBRATION, STATE_READ_FACTORY_IMU_CALIBRATION, STATE_SET_FULL_REPORT,
     STATE_ENABLE_IMU, STATE_UPDATE_LED, STATE_READY]"

definition switch_fresh :: switch_device where
  "switch_fresh = \<lparr>sw_ctl = controller_zero, sw_rumble = rumble_zero, sw_setup_timer = None,
     sw_state = STATE_UNINIT, sw_mode = SWITCH_MODE_NONE, sw_firmware_hi = 0, sw_firmware_lo = 0,
     sw_controller_type = 0, sw_gamepad_seat = 0, sw_cal_x = default_stick, sw_cal_y = default_stick,
     sw_cal_rx = default_stick, sw_cal_ry = default_stick,
     sw_cal_accel = \<lparr>imu_offset = [0, 0, 0], imu_scale = [0, 0, 0]\<rparr>,
     sw_cal_gyro = \<lparr>imu_offset = [0, 0, 0], imu_scale = [0, 0, 0]\<rparr>,
     sw_accel_divisor = [0, 0, 0], sw_gyro_divisor = [0, 0, 0], sw_packet_num = 0, sw_sent = [],
     sw_ready_calls = 0\<rparr>"

section \<open>Invariant\<close>

text \<open>The last rumble report sent, if any, is the one that stops both motors.\<close>

definition motors_stopped :: "u8 list list \<Rightarrow> bool" where
  "motors_stopped sent \<longleftrightarrow> (let rs = filter (\<lambda>p. p ! 1 = 0x10) sent
     in rs = [] \<or> drop 3 (last rs) = rumble_default @ rumble_default)"

text \<open>Packets carry the numbers 0 to 15 in turn.\<close>

definition packets_numbered :: "u8 \<Rightarrow> u8 list list \<Rightarrow> bool" where
  "packets_numbered n sent \<longleftrightarrow> n = of_nat (length sent mod 16) \<and>
     (\<forall>i < length sent. sent ! i ! 2 = of_nat (i mod 16))"

definition next_state :: "switch_state \<Rightarrow> switch_state" where
  "next_state s = (if s = STATE_UPDATE_LED \<or> s = STATE_READY then STATE_READY
     else setup_order ! (state_number s - 1))"

definition setup_inv :: "switch_device \<Rightarrow> bool" where
  "setup_inv d \<longleftrightarrow> sw_state d \<in> set setup_order \<and>
     (sw_setup_timer d \<noteq> None \<longrightarrow> sw_state d < STATE_DUMP_FLASH) \<and>
     sw_ready_calls d = (if sw_state d = STATE_READY then 1 else 0) \<and>
     packets_numbered (sw_packet_num d) (sw_sent d)"

definition rumble_part :: "switch_device \<Rightarrow> bool" where
  "rumble_part d \<longleftrightarrow> rumble_inv False (sw_rumble d) \<and>
     (rb_state (sw_rumble d) = RUMBLE_DISABLED \<longrightarrow> motors_stopped (sw_sent d))"

definition switch_inv :: "switch_device \<Rightarrow> bool" where
  "switch_inv d \<longleftrightarrow> setup_inv d \<and> rumble_part d \<and> scalable d"

lemmas subcmd_defs = send_subcmd_def subcmd_def spi_flash_read_def set_led_def Let_def

lemmas fsm_defs = fsm_request_device_info_def fsm_read_factory_stick_calibration_def
  fsm_read_user_stick_calibration_def fsm_read_factory_imu_calibration_def fsm_set_full_report_def
  fsm_enable_imu_def fsm_update_led_def

lemma packets_numbered_nil [simp]: "packets_numbered 0 []"
  by (simp add: packets_numbered_def)

lemma packet_num_step:
  assumes "k < 16"
  shows "(if (of_nat k :: u8) + 1 > 0x0f then 0 else of_nat k + 1) = (of_nat (Suc k mod 16) :: u8)"
proof -
  have "k = 0 \<or> k = 1 \<or> k = 2 \<or> k = 3 \<or> k = 4 \<or> k = 5 \<or> k = 6 \<or> k = 7 \<or> k = 8 \<or> k = 9 \<or>
      k = 10 \<or> k = 11 \<or> k = 12 \<or> k = 13 \<or> k = 14 \<or> k = 15"
    using assms by presburger
  then show ?thesis by (elim disjE) simp_all
qed

lemma numbered_send:
  assumes "packets_numbered n sent"
  shows "packets_numbered (if n + 1 > 0x0f then 0 else n + 1) (sent @ [a # b # n # rest])"
proof -
  have n: "n = of_nat (length sent mod 16)" using assms by (simp add: packets_numbered_def)
  have "(if n + 1 > 0x0f then 0 else n + 1) = of_nat (Suc (length sent) mod 16)"
    using packet_num_step [of "length sent mod 16"] by (simp only: n mod_Suc_eq)
  moreover have "(sent @ [a # b # n # rest]) ! i ! 2 = of_nat (i mod 16)" if "i < Suc (length sent)" for i
    using assms that n by (auto simp: packets_numbered_def nth_append less_Suc_eq)
  ultimately show ?thesis by (simp add: packets_numbered_def)
qed

lemma motors_stopped_send [simp]:
  "motors_stopped (sent @ [a # 1 # rest]) = motors_stopped sent"
  "motors_stopped (sent @ [a # 16 # n # rumble_default @ rumble_default])"
  by (simp_all add: motors_stopped_def)

interpretation sw: rumble_driver sw_rumble sw_set_rumble switch_play_dual_rumble_now
  switch_stop_rumble_now "\<lambda>d. motors_stopped (sw_sent d)" False
proof (unfold_locales, goal_cases)
  case (3 d)
  then show ?case by (auto simp: switch_stop_rumble_now_def send_subcmd_def sw_set_rumble_def Let_def)
qed (auto simp: sw_set_rumble_def switch_play_dual_rumble_now_def switch_stop_rumble_now_def
    send_subcmd_def rumble_arm_def start_timer_def Let_def)

lemma rumble_part_sw: "rumble_part d \<longleftrightarrow> sw.inv d"
  by (simp add: rumble_part_def sw.inv_def)

text \<open>One answer or time-out takes the setup to its next state.\<close>

lemma process_fsm_step:
  assumes "setup_inv d"
  shows "\<exists>d'. process_fsm d = Some d' \<and> setup_inv d' \<and> sw_state d' = next_state (sw_state d) \<and>
    (rumble_part d \<longrightarrow> rumble_part d') \<and> (scalable d \<longrightarrow> scalable d') \<and>
    sw_setup_timer d' = (if sw_state d < STATE_ENABLE_IMU then sw_setup_timer d else None)"
  using assms
  by (cases "sw_state d")
    (auto simp: process_fsm.simps fsm_dump_rom.simps fsm_ready.simps fsm_defs subcmd_defs setup_inv_def
      next_state_def setup_order_def state_order rumble_part_def scalable_def numbered_send [simplified])

text \<open>The calibration part of an answer leaves the setup, the rumble and the packets alone.\<close>

definition same_setup :: "switch_device \<Rightarrow> switch_device \<Rightarrow> bool" where
  "same_setup d d' \<longleftrightarrow> sw_state d' = sw_state d \<and> sw_setup_timer d' = sw_setup_timer d \<and>
     sw_ready_calls d' = sw_ready_calls d \<and> sw_packet_num d' = sw_packet_num d \<and>
     sw_sent d' = sw_sent d \<and> sw_rumble d' = sw_rumble d"

lemma same_setup_inv:
  "same_setup d d' \<Longrightarrow> setup_inv d' = setup_inv d"
  "same_setup d d' \<Longrightarrow> rumble_part d' = rumble_part d"
  by (simp_all add: same_setup_def setup_inv_def rumble_part_def)

lemma set_stick_same [simp]:
  "same_setup d (set_left_stick r d)" "same_setup d (set_right_stick r d)"
  by (simp_all add: same_setup_def set_left_stick_def set_right_stick_def parse_stick_calibration_def Let_def)

lemma same_setup_refl [simp]: "same_setup d d"
  by (simp add: same_setup_def)

lemma same_setup_trans: "same_setup a b \<Longrightarrow> same_setup b c \<Longrightarrow> same_setup a c"
  by (simp add: same_setup_def)

lemma set_both_same [simp]: "same_setup d (set_right_stick r' (set_left_stick r d))"
  by (rule same_setup_trans [OF set_stick_same(1) set_stick_same(2)])

lemma flash_read_step:
  assumes "29 \<le> length (drop 20 report)"
  shows "\<exists>d'. process_reply_spi_flash_read report d = Some d' \<and> same_setup d d'"
proof -
  have l: "\<not> length report < 20" "n \<le> 29 \<Longrightarrow> have_bytes n (drop 20 report) x = x" for n x
    using assms by (auto simp: have_bytes_def)
  have imu_same: "same_setup d (d\<lparr>sw_cal_accel := a, sw_cal_gyro := g, sw_accel_divisor := u, sw_gyro_divisor := v\<rparr>)"
    for a g u v by (simp add: same_setup_def)
  show ?thesis
    by (cases "sw_state d")
      (auto simp: process_reply_spi_flash_read_def process_reply_read_spi_factory_stick_calibration_def
        process_reply_read_spi_user_stick_calibration_def l Let_def
        process_reply_read_spi_factory_imu_calibration_def imu_same simp del: length_drop)
qed

lemma reply_data_step:
  assumes "length report = 49"
  shows "\<exists>d'. reply_data report d = Some d' \<and> same_setup d d'"
  using flash_read_step [of report d] assms
  by (auto simp: reply_data_def process_reply_req_dev_info_def have_bytes_def same_setup_def Let_def)

lemma sticks_usable:
  "left_usable r \<Longrightarrow> scalable d \<Longrightarrow> scalable (set_left_stick r d)"
  "right_usable r \<Longrightarrow> scalable d \<Longrightarrow> scalable (set_right_stick r d)"
  by (simp_all add: left_usable_def right_usable_def ends_apart_def scalable_def stick_ok_def set_left_stick_def
      set_right_stick_def parse_stick_calibration_def)

lemma gyro_divides:
  assumes "gyro_usable r" "scalable d"
  shows "scalable (d\<lparr>sw_cal_accel := a, sw_cal_gyro := g, sw_accel_divisor := u, sw_gyro_divisor := imu_divisor (imu_calibration r 12)\<rparr>)"
  using assms by (simp add: scalable_def gyro_usable_def imu_divisor_def imu_calibration_def All_less_Suc numeral_3_eq_3)

lemma flash_scalable:
  assumes "process_reply_spi_flash_read r d = Some d'" "scalable d" "length r = 49"
    "flash_usable (sw_state d) (sw_controller_type d) (unat (r ! 19)) (drop 20 r)"
  shows "scalable d'"
proof -
  have l: "have_bytes n (drop 20 r) x = x" if "n \<le> 29" for n x using assms(3) that by (simp add: have_bytes_def)
  show ?thesis
  proof (cases "sw_state d \<in> {STATE_READ_FACTORY_STICK_CALIBRATION, STATE_READ_USER_STICK_CALIBRATION, STATE_READ_FACTORY_IMU_CALIBRATION}")
    case False
    with assms show ?thesis by (cases "sw_state d") (simp_all add: process_reply_spi_flash_read_def Let_def)
  next
    case True
    then show ?thesis
      using assms
      by (auto simp: process_reply_spi_flash_read_def l Let_def flash_usable_def not_less
          process_reply_read_spi_factory_stick_calibration_def process_reply_read_spi_user_stick_calibration_def
          process_reply_read_spi_factory_imu_calibration_def simp del: length_drop drop_drop
          intro!: sticks_usable gyro_divides split: if_splits)
  qed
qed

lemma reply_scalable:
  assumes "reply_data r d = Some d'" "switch_ok (SW_Report r) d" "r ! 0 = 0x21" "scalable d"
  shows "scalable d'"
  using assms flash_scalable [of r d d']
  by (auto simp: reply_data_def process_reply_req_dev_info_def have_bytes_def scalable_def Let_def split: if_splits)

lemma subcmd_reply_step:
  assumes "length report = 49" "setup_inv d" "rumble_part d"
    and "\<And>d'. reply_data report d = Some d' \<Longrightarrow> scalable d'"
  shows "\<exists>d'. process_input_subcmd_reply report d = Some d' \<and> switch_inv d' \<and>
    sw_state d' = next_state (sw_state d)"
proof -
  obtain d1 where d1: "reply_data report d = Some d1" "same_setup d d1"
    using reply_data_step [OF assms(1)] by blast
  let ?d = "d1\<lparr>sw_ctl := (sw_ctl d1)\<lparr>battery := switch_battery (report ! 2) (battery (sw_ctl d1))\<rparr>\<rparr>"
  have same: "same_setup d ?d" using d1(2) by (simp add: same_setup_def)
  have "scalable ?d" using assms(4) [OF d1(1)] by (simp add: scalable_def)
  with process_fsm_step [of ?d] same_setup_inv [OF same] assms(2,3) same
  obtain d' where "process_fsm ?d = Some d'" "switch_inv d'" "sw_state d' = next_state (sw_state d)"
    by (auto simp: switch_inv_def same_setup_def)
  then show ?thesis
    using assms(1) d1(1) by (simp add: process_input_subcmd_reply_def have_bytes_def)
qed

text \<open>With usable calibration no report traps, whatever its bytes.\<close>

lemma calibrate_axis_total: "stick_ok c \<Longrightarrow> \<exists>x. calibrate_axis v c = Some x"
  by (auto simp: calibrate_axis_def c_div_def stick_ok_def)

lemma switch_accel_total: "\<exists>x. switch_accel d r base i = Some x"
  by (simp add: switch_accel_def c_div_def)

lemma switch_gyro_total: "sw_gyro_divisor d ! i \<noteq> 0 \<Longrightarrow> \<exists>x. switch_gyro d r base i = Some x"
  by (simp add: switch_gyro_def mult_frac_def)

lemma three_total: "(\<And>i. i < 3 \<Longrightarrow> \<exists>x. f i = Some x) \<Longrightarrow> \<exists>v. three f = Some v"
proof -
  assume "\<And>i. i < 3 \<Longrightarrow> \<exists>x. f i = Some x"
  from this [of 0] this [of 1] this [of 2] show ?thesis by (auto simp: three_def)
qed

lemma parse_imu_total: "scalable d \<Longrightarrow> \<exists>g'. parse_imu r base d g = Some g'"
  using three_total [of "switch_accel d r base"] three_total [of "switch_gyro d r base"]
    switch_accel_total switch_gyro_total
  by (fastforce simp: parse_imu_def scalable_def)

lemma layouts_total:
  assumes "scalable d"
  shows "\<exists>g. parse_report_30_pro_controller r d = Some g"
    "\<exists>g. parse_report_30_joycon_left r d = Some g" "\<exists>g. parse_report_30_joycon_right r d = Some g"
proof -
  have ok: "stick_ok (sw_cal_x d)" "stick_ok (sw_cal_y d)" "stick_ok (sw_cal_rx d)" "stick_ok (sw_cal_ry d)"
    using assms by (simp_all add: scalable_def)
  obtain x y rx ry where a: "calibrate_axis (low12 r 6) (sw_cal_x d) = Some x"
    "calibrate_axis (high12 r 6) (sw_cal_y d) = Some y"
    "calibrate_axis (low12 r 9) (sw_cal_rx d) = Some rx"
    "calibrate_axis (high12 r 9) (sw_cal_ry d) = Some ry"
    using ok [THEN calibrate_axis_total] by meson
  show "\<exists>g. parse_report_30_pro_controller r d = Some g"
    "\<exists>g. parse_report_30_joycon_left r d = Some g" "\<exists>g. parse_report_30_joycon_right r d = Some g"
    by (simp_all add: parse_report_30_pro_controller_def parse_report_30_joycon_left_def
        parse_report_30_joycon_right_def a Let_def)
qed

lemma set_gamepad_inv:
  "switch_inv (set_gamepad d g) = switch_inv d" "sw_state (set_gamepad d g) = sw_state d"
  by (simp_all add: set_gamepad_def switch_inv_def setup_inv_def rumble_part_def scalable_def)

lemma report_30_step:
  assumes "switch_inv d" "length r = 49"
  shows "\<exists>d'. parse_report_30 r d = Some d' \<and> switch_inv d' \<and> sw_state d' = sw_state d"
proof -
  have sc: "scalable d" using assms(1) by (simp add: switch_inv_def)
  have "\<exists>g. parse_report_30 r d = Some (set_gamepad d g)"
    using layouts_total [OF sc, of r] parse_imu_total [OF sc, of r 37] assms(2)
    by (fastforce simp: parse_report_30_def have_bytes_def)
  then show ?thesis using assms(1) by (auto simp: set_gamepad_inv)
qed

lemma report_step:
  assumes "switch_inv d" "switch_ok (SW_Report r) d"
  shows "\<exists>d'. switch_step (SW_Report r) d = Some d' \<and> switch_inv d' \<and>
    sw_state d' = (if r ! 0 = 0x21 then next_state (sw_state d) else sw_state d)"
proof -
  have "setup_inv d" "rumble_part d" "scalable d" using assms(1) by (simp_all add: switch_inv_def)
  moreover have "switch_inv (parse_report_3f r d)" "sw_state (parse_report_3f r d) = sw_state d"
    using assms(1) by (simp_all add: parse_report_3f_def Let_def set_gamepad_inv)
  ultimately show ?thesis
    using assms report_30_step [of d r] subcmd_reply_step [of r d] reply_scalable [OF _ assms(2)]
    by (auto simp: uni_hid_parser_switch_parse_input_report_def uni_hid_parser_switch_init_report_def)
qed

lemma leds_setup:
  "setup_inv d \<Longrightarrow> setup_inv (uni_hid_parser_switch_set_player_leds leds d)"
  "sw_setup_timer (uni_hid_parser_switch_set_player_leds leds d) = sw_setup_timer d"
  by (simp_all add: uni_hid_parser_switch_set_player_leds_def subcmd_defs setup_inv_def
      numbered_send [simplified])

lemma leds_step:
  assumes "switch_inv d"
  shows "switch_inv (uni_hid_parser_switch_set_player_leds leds d)"
    "sw_state (uni_hid_parser_switch_set_player_leds leds d) = sw_state d"
  using assms
  by (auto simp: uni_hid_parser_switch_set_player_leds_def subcmd_defs switch_inv_def setup_inv_def
      rumble_part_def scalable_def numbered_send [simplified])

text \<open>Rumble touches neither setup nor calibration.\<close>

definition same_but_rumble :: "switch_device \<Rightarrow> switch_device \<Rightarrow> bool" where
  "same_but_rumble d d' \<longleftrightarrow> sw_state d' = sw_state d \<and> (setup_inv d \<longrightarrow> setup_inv d') \<and>
     (scalable d \<longrightarrow> scalable d')"

lemma same_but_rumble_basic:
  "same_but_rumble d d" "same_but_rumble d (sw_set_rumble r d)"
  by (simp_all add: same_but_rumble_def sw_set_rumble_def setup_inv_def scalable_def)

lemma same_but_rumble_send: "same_but_rumble d (send_subcmd kind a b body d)"
  by (auto simp: same_but_rumble_def send_subcmd_def setup_inv_def scalable_def Let_def
      numbered_send [simplified])

lemma same_but_rumble_trans: "same_but_rumble a b \<Longrightarrow> same_but_rumble b c \<Longrightarrow> same_but_rumble a c"
  by (simp add: same_but_rumble_def)

lemma stop_same: "switch_stop_rumble_now d = Some d' \<Longrightarrow> same_but_rumble d d'"
  by (auto simp: switch_stop_rumble_now_def split: if_splits
      intro: same_but_rumble_trans [OF same_but_rumble_basic(2) same_but_rumble_send])

lemma play_now_same: "switch_play_dual_rumble_now ms weak strong d = Some d' \<Longrightarrow> same_but_rumble d d'"
  by (auto simp: switch_play_dual_rumble_now_def Let_def same_but_rumble_basic(1) dest: stop_same
      split: if_splits intro: same_but_rumble_trans [OF same_but_rumble_send same_but_rumble_basic(2)])

lemma rumble_step_same:
  assumes "rumble_step sw_rumble sw_set_rumble switch_play_dual_rumble_now switch_stop_rumble_now e d = Some d'"
  shows "same_but_rumble d d'"
proof (cases e)
  case (Rumble_Play delay ms weak strong)
  then show ?thesis
    using assms by (auto simp: rumble_play_def Let_def dest: play_now_same split: if_splits
      intro: same_but_rumble_trans [OF same_but_rumble_basic(2)] same_but_rumble_basic(2))
next
  case Delayed_Fires
  then show ?thesis
    using assms by (auto simp: rumble_on_def dest!: play_now_same
      intro: same_but_rumble_trans [OF same_but_rumble_basic(2)])
next
  case Duration_Fires
  then show ?thesis
    using assms by (auto dest!: stop_same intro: same_but_rumble_trans [OF same_but_rumble_basic(2)])
qed

lemma switch_step_inv:
  assumes "switch_inv d" "switch_ok e d"
  shows "\<exists>d'. switch_step e d = Some d' \<and> switch_inv d' \<and>
    sw_state d' = (if advances e then next_state (sw_state d) else sw_state d)"
proof (cases e)
  case (SW_Report r)
  then show ?thesis using report_step [of d r] assms by simp
next
  case SW_Setup_Timeout
  let ?d = "d\<lparr>sw_setup_timer := None\<rparr>"
  have "setup_inv ?d" "rumble_part ?d" "scalable ?d"
    using assms(1) by (auto simp: switch_inv_def setup_inv_def rumble_part_def scalable_def)
  with process_fsm_step [of ?d] SW_Setup_Timeout show ?thesis
    by (auto simp: switch_setup_timeout_callback_def switch_inv_def)
next
  case (SW_Leds leds)
  then show ?thesis using leds_step [OF assms(1)] by simp
next
  case (SW_Rumble ev)
  have "sw.inv d" "sw.ok ev d"
    using assms SW_Rumble by (simp_all add: switch_inv_def rumble_part_sw sw.ok_def)
  from sw.step_inv [OF this] obtain d' where d': "sw.step ev d = Some d'" "sw.inv d'" by blast
  with rumble_step_same [OF d'(1)] assms(1) SW_Rumble show ?thesis
    by (auto simp: switch_inv_def rumble_part_sw same_but_rumble_def)
qed

interpretation switch: guarded_machine switch_step switch_ok switch_inv
  by unfold_locales (use switch_step_inv in blast)

text \<open>Where the setup is after any run.\<close>

definition advanced :: "switch_event list \<Rightarrow> nat" where
  "advanced es = length (filter advances es)"

lemma run_stage:
  "switch_inv d \<Longrightarrow> admissible switch_step switch_ok es d \<Longrightarrow>
    \<exists>d'. run_steps switch_step es d = Some d' \<and> switch_inv d' \<and>
      sw_state d' = (next_state ^^ advanced es) (sw_state d)"
proof (induction es arbitrary: d)
  case Nil
  then show ?case by (simp add: advanced_def)
next
  case (Cons e es)
  then obtain d1 where d1: "switch_step e d = Some d1" "switch_inv d1"
    "sw_state d1 = (if advances e then next_state (sw_state d) else sw_state d)"
    using switch_step_inv [of d e] by auto
  with Cons.IH [of d1] Cons.prems show ?case
    by (auto simp: advanced_def funpow_swap1)
qed

lemma stages: "(next_state ^^ n) STATE_REQ_DEV_INFO = setup_order ! min n 7"
proof -
  have step: "next_state (setup_order ! i) = setup_order ! min (Suc i) 7" if "i \<le> 7" for i
  proof -
    have "i = 0 \<or> i = 1 \<or> i = 2 \<or> i = 3 \<or> i = 4 \<or> i = 5 \<or> i = 6 \<or> i = 7" using that by presburger
    then show ?thesis by (elim disjE) (simp_all add: setup_order_def next_state_def)
  qed
  show ?thesis
  proof (induction n)
    case 0
    then show ?case by (simp add: setup_order_def)
  next
    case (Suc n)
    then show ?case by (simp add: step min_def)
  qed
qed

lemma switch_setup_inv:
  "\<exists>d. uni_hid_parser_switch_setup switch_fresh = Some d \<and> switch_inv d \<and>
    sw_state d = STATE_REQ_DEV_INFO \<and> sw_setup_timer d = Some SWITCH_SETUP_TIMEOUT_MS"
  by (simp add: uni_hid_parser_switch_setup_def process_fsm.simps start_timer_def fsm_defs subcmd_defs
      switch_fresh_def switch_inv_def setup_inv_def setup_order_def state_order rumble_part_def
      scalable_def stick_ok_def default_stick_def packets_numbered_def motors_stopped_def nth_Cons')

section \<open>Properties\<close>

text \<open>
  C36: The setup of a Switch controller makes progress and announces the controller exactly once: after
  any run of full-length reports, time-outs of the setup, lights and rumble requests of a duration that is
  not zero, in which every answer to a read of the flash holds usable calibration (the ends of a stick
  apart from its centre, the scale of the gyroscope not its offset), the driver has not trapped, its
  state is the one that the number of answers and time-outs so far selects from the list of setup
  states, \<open>uni_hid_device_set_ready_complete\<close> was called once if there were at least seven of them
  and not at all otherwise, and the packets sent are numbered 0 to 15 in turn.
\<close>

theorem switch_setup_progress:
  assumes "uni_hid_parser_switch_setup switch_fresh = Some d0"
    and "admissible switch_step switch_ok es d0"
  shows "\<exists>d. run_steps switch_step es d0 = Some d \<and> sw_state d = setup_order ! min (advanced es) 7 \<and>
    sw_ready_calls d = (if advanced es \<ge> 7 then 1 else 0) \<and>
    (\<forall>i < length (sw_sent d). sw_sent d ! i ! 2 = of_nat (i mod 16))"
proof -
  have d0: "switch_inv d0" "sw_state d0 = STATE_REQ_DEV_INFO" using assms(1) switch_setup_inv by auto
  obtain d where d: "run_steps switch_step es d0 = Some d" "switch_inv d"
    "sw_state d = setup_order ! min (advanced es) 7"
    using run_stage [OF d0(1) assms(2)] by (auto simp: d0(2) stages)
  have "sw_state d = STATE_READY \<longleftrightarrow> advanced es \<ge> 7"
  proof -
    have "min (advanced es) 7 \<le> 7" by simp
    then have "min (advanced es) 7 < 7 \<or> min (advanced es) 7 = 7" by linarith
    moreover have "\<forall>i < 7. setup_order ! i \<noteq> STATE_READY"
      by (simp add: setup_order_def numeral_eq_Suc All_less_Suc)
    moreover have "setup_order ! 7 = STATE_READY" by (simp add: setup_order_def)
    ultimately show ?thesis using d(3) by (auto simp: min_def split: if_splits)
  qed
  with d show ?thesis by (auto simp: switch_inv_def setup_inv_def packets_numbered_def)
qed

definition led_answer :: "u8 list" where
  "led_answer = [0x21, 0, 0x80] @ replicate 10 0 @ [0x80, SUBCMD_SET_PLAYER_LEDS] @ replicate 34 0"

theorem switch_setup_progress_witness:
  "\<exists>d0 d. uni_hid_parser_switch_setup switch_fresh = Some d0 \<and>
    run_steps switch_step [SW_Report led_answer, SW_Leds 3] d0 = Some d \<and>
    sw_state d = STATE_READ_FACTORY_STICK_CALIBRATION \<and> sw_ready_calls d = 0"
proof -
  obtain d0 where d0: "uni_hid_parser_switch_setup switch_fresh = Some d0"
    using switch_setup_inv by blast
  have ok: "switch_ok (SW_Report led_answer) d0"
    by (simp add: led_answer_def nth_append)
  have "admissible switch_step switch_ok [SW_Report led_answer, SW_Leds 3] d0"
    using ok by (simp split: option.split)
  from switch_setup_progress [OF d0 this] d0 show ?thesis
    by (auto simp: advanced_def led_answer_def setup_order_def)
qed

text \<open>
  The time-out of the setup rescues one lost answer only: its timer is started once, so a controller
  whose reports are all lost is moved on by one state and, whatever else happens, never gets ready.
\<close>

lemma timer_once:
  "setup_inv d \<Longrightarrow> sw_setup_timer d = None \<Longrightarrow> \<forall>r. SW_Report r \<notin> set es \<Longrightarrow>
    admissible switch_step switch_ok es d \<Longrightarrow> run_steps switch_step es d = Some d' \<Longrightarrow>
    sw_state d' = sw_state d"
proof (induction es arbitrary: d)
  case Nil
  then show ?case by simp
next
  case (Cons e es)
  then obtain d1 where d1: "switch_step e d = Some d1" "run_steps switch_step es d1 = Some d'"
    by (auto split: option.splits)
  have "setup_inv d1 \<and> sw_state d1 = sw_state d \<and> sw_setup_timer d1 = None"
  proof (cases e)
    case (SW_Leds leds)
    then have "d1 = uni_hid_parser_switch_set_player_leds leds d" using d1(1) by simp
    then show ?thesis
      using leds_setup(1) [of d leds] leds_setup(2) [of leds d] Cons.prems(1,2)
      by (simp add: uni_hid_parser_switch_set_player_leds_def set_led_def subcmd_defs)
  next
    case (SW_Rumble ev)
    have "switch_step (SW_Rumble ev) d = Some d1" using d1(1) SW_Rumble by simp
    then have same: "same_but_rumble d d1" by (auto dest: rumble_step_same)
    moreover have "sw_setup_timer d1 = sw_setup_timer d"
      using d1(1) SW_Rumble
      by (cases ev) (auto simp: rumble_play_def rumble_on_def switch_play_dual_rumble_now_def
          switch_stop_rumble_now_def send_subcmd_def sw_set_rumble_def Let_def split: if_splits)
    ultimately show ?thesis using Cons.prems(1,2) by (auto simp: same_but_rumble_def)
  qed (use Cons.prems in auto)
  with Cons.IH [of d1] Cons.prems d1 show ?case by auto
qed

theorem switch_timeout_once:
  assumes "uni_hid_parser_switch_setup switch_fresh = Some d0"
    and "switch_step SW_Setup_Timeout d0 = Some d1"
    and "admissible switch_step switch_ok es d1" "\<forall>r. SW_Report r \<notin> set es"
    and "run_steps switch_step es d1 = Some d"
  shows "sw_state d = STATE_READ_FACTORY_STICK_CALIBRATION \<and> sw_setup_timer d1 = None"
proof -
  have d0: "switch_inv d0" "sw_state d0 = STATE_REQ_DEV_INFO" using assms(1) switch_setup_inv by auto
  let ?d = "d0\<lparr>sw_setup_timer := None\<rparr>"
  have "setup_inv ?d" using d0(1) by (auto simp: switch_inv_def setup_inv_def)
  from process_fsm_step [OF this] assms(2) d0(2)
  have "setup_inv d1" "sw_state d1 = STATE_READ_FACTORY_STICK_CALIBRATION" "sw_setup_timer d1 = None"
    by (auto simp: switch_setup_timeout_callback_def next_state_def setup_order_def)
  with timer_once [OF _ _ assms(4,3,5)] show ?thesis by simp
qed

lemma clamp_mono:
  fixes a b :: int
  assumes "a \<le> b"
  shows "(let r1 = (if a > 512 then 512 else a) in if r1 < - 512 then - 512 else r1) \<le>
    (let r1 = (if b > 512 then 512 else b) in if r1 < - 512 then - 512 else r1)"
  using assms by (auto simp: Let_def)

definition stick_raw :: "int \<Rightarrow> switch_cal_stick \<Rightarrow> int" where
  "stick_raw v c = (if v > stick_center c then ((v - stick_center c) * 512) sdiv (stick_max c - stick_center c)
     else ((v - stick_center c) * 512) sdiv (stick_center c - stick_min c))"

lemma calibrate_axis_eq:
  assumes "stick_ok c"
  shows "calibrate_axis v c = Some (let r1 = (if stick_raw v c > 512 then 512 else stick_raw v c)
    in if r1 < - 512 then - 512 else r1)"
proof -
  have half: "(x * 1024) sdiv 2 = x * 512" for x :: int
    using sdiv_add_multiple [of 2 0 "x * 512"] by (simp add: mult.assoc)
  have up: "((v - stick_center c) * AXIS_NORMALIZE_RANGE) sdiv 2 = (v - stick_center c) * 512"
    by (simp only: AXIS_NORMALIZE_RANGE_def half)
  have "(stick_center c - v) * - AXIS_NORMALIZE_RANGE = (v - stick_center c) * 1024"
    by (simp add: AXIS_NORMALIZE_RANGE_def)
  then have down: "((stick_center c - v) * - AXIS_NORMALIZE_RANGE) sdiv 2 = (v - stick_center c) * 512"
    by (simp only: half)
  have ends: "AXIS_NORMALIZE_RANGE sdiv 2 = 512" "- AXIS_NORMALIZE_RANGE sdiv 2 = - 512"
    using half [of 1] half [of "- 1"] by (simp_all add: AXIS_NORMALIZE_RANGE_def)
  have "stick_max c - stick_center c \<noteq> 0" "stick_center c - stick_min c \<noteq> 0"
    using assms by (simp_all add: stick_ok_def)
  then show ?thesis
    by (cases "v > stick_center c")
      (simp_all only: calibrate_axis_def up down ends stick_raw_def c_div_def if_True if_False simp_thms
        option.map)
qed

lemma stick_raw_mono:
  assumes "stick_ok c" "v \<le> w"
  shows "stick_raw v c \<le> stick_raw w c"
proof -
  have p: "0 < stick_max c - stick_center c" "0 < stick_center c - stick_min c"
    using assms(1) by (simp_all add: stick_ok_def)
  consider "v > stick_center c" | "w \<le> stick_center c" | "v \<le> stick_center c" "w > stick_center c"
    by linarith
  then show ?thesis
  proof cases
    case 1
    then show ?thesis using assms p by (auto simp: stick_raw_def intro!: sdiv_mono)
  next
    case 2
    then show ?thesis using assms p by (auto simp: stick_raw_def intro!: sdiv_mono)
  next
    case 3
    have "stick_raw v c \<le> 0" "0 \<le> stick_raw w c"
      using 3 p sdiv_mono [of "(v - stick_center c) * 512" 0 "stick_center c - stick_min c"]
        sdiv_mono [of 0 "(w - stick_center c) * 512" "stick_max c - stick_center c"]
      by (simp_all add: stick_raw_def)
    then show ?thesis by simp
  qed
qed

lemma stick_raw_ends:
  assumes "stick_ok c"
  shows "stick_raw (stick_min c) c = - 512" "stick_raw (stick_center c) c = 0"
    "stick_raw (stick_max c) c = 512"
proof -
  have p: "0 < stick_max c - stick_center c" "0 < stick_center c - stick_min c"
    using assms by (simp_all add: stick_ok_def)
  have e: "(512 * k) sdiv k = 512" "(- 512 * k) sdiv k = - 512" if "0 < k" for k :: int
    using that sdiv_add_multiple [of k 0 512] sdiv_add_multiple [of k 0 "- 512"] by simp_all
  show "stick_raw (stick_min c) c = - 512" "stick_raw (stick_center c) c = 0"
    "stick_raw (stick_max c) c = 512"
    using p e(1) [OF p(1)] e(2) [OF p(2)] by (simp_all add: stick_raw_def algebra_simps)
qed

text \<open>
  C37: with usable calibration data (minimum below centre below maximum) a stick never divides by zero; it
  is zero at the centre, does not fall when the reading rises, stays within -512..512, and is at these
  ends for every reading at or beyond the calibrated extremes.
\<close>

theorem calibrate_axis_correct:
  assumes "stick_ok c" "v \<le> w"
  shows "\<exists>x y. calibrate_axis v c = Some x \<and> calibrate_axis w c = Some y \<and>
    - 512 \<le> x \<and> x \<le> y \<and> y \<le> 512 \<and> calibrate_axis (stick_center c) c = Some 0 \<and>
    (v \<le> stick_min c \<longrightarrow> x = - 512) \<and> (stick_max c \<le> w \<longrightarrow> y = 512)"
proof -
  have "v \<le> stick_min c \<Longrightarrow> stick_raw v c \<le> - 512" "stick_max c \<le> w \<Longrightarrow> 512 \<le> stick_raw w c"
    using stick_raw_mono [OF assms(1), of v "stick_min c"] stick_raw_mono [OF assms(1), of "stick_max c" w]
      stick_raw_ends [OF assms(1)] by simp_all
  with clamp_mono [OF stick_raw_mono [OF assms]] stick_raw_ends(2) [OF assms(1)] show ?thesis
    by (auto simp: calibrate_axis_eq [OF assms(1)] Let_def)
qed

theorem calibrate_axis_correct_witness:
  "\<exists>x y. calibrate_axis 100 default_stick = Some x \<and> calibrate_axis 3000 default_stick = Some y \<and>
    x \<le> y \<and> x = - 512"
proof -
  have "stick_ok default_stick" by (simp add: stick_ok_def default_stick_def)
  from calibrate_axis_correct [OF this, of 100 3000] show ?thesis
    by (auto simp: default_stick_def)
qed

text \<open>
  The motion sensors have no such protection: a controller whose flash is erased (all bytes 0xff)
  answers with a scale equal to the offset; the accelerometer is then taken as it is, but the
  gyroscope is divided by zero, so every full report afterwards traps.
\<close>

definition erased_flash_answer :: "u8 list" where
  "erased_flash_answer = [0x21, 0, 0x80] @ replicate 10 0 @
     [0x90, SUBCMD_SPI_FLASH_READ, 0x20, 0x60, 0, 0, 24] @ replicate 24 0xff @ replicate 5 0"

theorem erased_flash_traps:
  assumes "sw_state d = STATE_READ_FACTORY_IMU_CALIBRATION" "sw_mode d = SWITCH_MODE_IMU"
    and "uni_hid_parser_switch_parse_input_report erased_flash_answer d = Some d1"
    and "r ! 0 = 0x30" "12 \<le> length r"
  shows "uni_hid_parser_switch_parse_input_report r d1 = None"
proof -
  have len: "length erased_flash_answer = 49" by (simp add: erased_flash_answer_def)
  have ff: "erased_flash_answer ! n = 0xff" if "20 \<le> n" "n < 44" for n
    using that by (simp add: erased_flash_answer_def nth_append) arith
  have at: "i16_at (drop 20 erased_flash_answer) i = - 1" if "i < 23" for i
    using that by (simp add: i16_at_def u16_at_def ff len)
  have spi: "erased_flash_answer ! 0 = 0x21" "erased_flash_answer ! 14 = SUBCMD_SPI_FLASH_READ"
    "erased_flash_answer ! 19 = 24"
    by (simp_all add: erased_flash_answer_def nth_append)
  have g: "imu_calibration (drop 20 erased_flash_answer) 12 =
      \<lparr>imu_offset = [- 1, - 1, - 1], imu_scale = [- 1, - 1, - 1]\<rparr>"
    by (simp add: imu_calibration_def at)
  have "sw_gyro_divisor d1 = [0, 0, 0] \<and> sw_mode d1 = SWITCH_MODE_IMU"
    using assms(1,2,3)
    by (auto simp: uni_hid_parser_switch_parse_input_report_def len spi process_input_subcmd_reply_def
        have_bytes_def reply_data_def process_reply_spi_flash_read_def g Let_def imu_divisor_def
        process_reply_read_spi_factory_imu_calibration_def process_fsm.simps fsm_set_full_report_def
        subcmd_defs)
  then have "parse_imu r 37 d1 g' = None" and "sw_mode d1 = SWITCH_MODE_IMU" for g'
    by (simp_all add: parse_imu_def three_def switch_gyro_def mult_frac_def split: option.split)
  with assms(4,5) show ?thesis
    by (simp add: uni_hid_parser_switch_parse_input_report_def parse_report_30_def have_bytes_def
        split: option.split)
qed

text \<open>
  The rumble tables are searched correctly: the entry found for a frequency (an amplitude) is the
  least one of the table that reaches it, and the last one for anything beyond the table.
\<close>

lemma find_rumble_correct:
  assumes sorted: "sorted_wrt (\<lambda>a b. v a < v b) t" and len: "2 \<le> length t"
  shows "find_rumble v t x \<in> set t \<and>
    (x \<le> v (last t) \<longrightarrow> x \<le> v (find_rumble v t x) \<and> (\<forall>e \<in> set t. x \<le> v e \<longrightarrow> v (find_rumble v t x) \<le> v e)) \<and>
    (x > v (last t) \<longrightarrow> find_rumble v t x = last t)"
proof -
  let ?n = "length t"
  have ne: "t \<noteq> []" using len by auto
  then have last: "last t = t ! (?n - 1)" by (rule last_conv_nth)
  have lt: "v (t ! i) < v (t ! j)" if "i < j" "j < ?n" for i j
    using sorted_wrt_nth_less [OF sorted that] .
  have le: "v (t ! i) \<le> v (t ! j)" if "i \<le> j" "j < ?n" for i j
    using lt [of i j] that by (cases "i = j") auto
  have least: "\<forall>e \<in> set t. x \<le> v e \<longrightarrow> v (t ! i) \<le> v e" if "i < ?n" "i = 0 \<or> v (t ! (i - 1)) < x" for i
  proof (intro ballI impI)
    fix e assume "e \<in> set t" "x \<le> v e"
    then obtain j where j: "e = t ! j" "j < ?n" "x \<le> v (t ! j)" by (auto simp: in_set_conv_nth)
    have "i \<le> j"
    proof (rule ccontr)
      assume "\<not> i \<le> j"
      then have "j \<le> i - 1" "i \<noteq> 0" by auto
      moreover have "i - 1 < ?n" using that(1) by simp
      ultimately show False using le [of j "i - 1"] that(2) j(3) by auto
    qed
    with le [of i j] j show "v (t ! i) \<le> v e" by simp
  qed
  show ?thesis
  proof (cases "x > v (t ! 0)")
    case False
    then have "find_rumble v t x = t ! 0" by (simp add: find_rumble_def)
    with False least [of 0] lt [of 0 "?n - 1"] len ne show ?thesis by (auto simp: last)
  next
    case True
    let ?P = "\<lambda>i. x > v (t ! (i - 1)) \<and> x \<le> v (t ! i)"
    show ?thesis
    proof (cases "find ?P [1 ..< ?n - 1]")
      case (Some i)
      then have i: "1 \<le> i" "i < ?n - 1" "?P i" by (auto simp: find_Some_iff)
      have "find_rumble v t x = t ! i" using True Some by (simp add: find_rumble_def)
      moreover have "i < ?n" "?n - 1 < ?n" using i(2) by simp_all
      ultimately show ?thesis using i least [of i] lt [of i "?n - 1"] by (auto simp: last)
    next
      case None
      then have no: "\<not> ?P i" if "1 \<le> i" "i < ?n - 1" for i
        using that by (auto simp: find_None_iff)
      have above: "i < ?n - 1 \<Longrightarrow> v (t ! i) < x" for i
      proof (induction i)
        case 0
        then show ?case using True by simp
      next
        case (Suc i)
        then show ?case using no [of "Suc i"] by auto
      qed
      have f: "find_rumble v t x = t ! (?n - 1)" using True None by (simp add: find_rumble_def)
      have "?n - 1 < ?n" "?n - 1 - 1 < ?n - 1" using len by auto
      with above [of "?n - 1 - 1"] least [of "?n - 1"] f show ?thesis by (auto simp: last)
    qed
  qed
qed

lemma rumble_tables_sorted:
  "sorted_wrt (\<lambda>a b. snd (snd a) < snd (snd b)) rumble_freqs"
  "sorted_wrt (\<lambda>a b. snd (snd a) < snd (snd b)) rumble_amps"
proof -
  show "sorted_wrt (\<lambda>a b. snd (snd a) < snd (snd b)) rumble_freqs"
    by (subst successively_conv_sorted_wrt [symmetric]) (auto intro: transpI simp: rumble_freqs_def)
  show "sorted_wrt (\<lambda>a b. snd (snd a) < snd (snd b)) rumble_amps"
    by (subst successively_conv_sorted_wrt [symmetric]) (auto intro: transpI simp: rumble_amps_def)
qed

theorem rumble_lookup_least:
  shows "find_rumble_freq f \<in> set rumble_freqs \<and> find_rumble_amp a \<in> set rumble_amps \<and>
    (unat f \<le> 1253 \<longrightarrow> unat f \<le> snd (snd (find_rumble_freq f)) \<and>
      (\<forall>e \<in> set rumble_freqs. unat f \<le> snd (snd e) \<longrightarrow> snd (snd (find_rumble_freq f)) \<le> snd (snd e))) \<and>
    (unat a \<le> 1003 \<longrightarrow> unat a \<le> snd (snd (find_rumble_amp a)) \<and>
      (\<forall>e \<in> set rumble_amps. unat a \<le> snd (snd e) \<longrightarrow> snd (snd (find_rumble_amp a)) \<le> snd (snd e)))"
proof -
  have l: "2 \<le> length rumble_freqs" "2 \<le> length rumble_amps" "snd (snd (last rumble_freqs)) = 1253"
    "snd (snd (last rumble_amps)) = 1003"
    by (simp_all add: rumble_freqs_def rumble_amps_def)
  show ?thesis
    using find_rumble_correct [OF rumble_tables_sorted(1) l(1), of "unat f"]
      find_rumble_correct [OF rumble_tables_sorted(2) l(2), of "unat a"]
    by (simp add: find_rumble_freq_def find_rumble_amp_def l(3,4))
qed

text \<open>
  The two bands of a motor are exchanged: the low band gets four times the frequency of the high
  band. From magnitude 160 on the low band is beyond the last frequency it can encode, and its byte only
  carries the amplitude.
\<close>

theorem rumble_bands_exchanged:
  assumes "160 \<le> m" "m \<le> (255 :: u8)"
  shows "switch_encode_rumble (push_bit 2 (ucast m)) (ucast m) 500 ! 2 = 0"
proof -
  have m: "160 \<le> unat m" "unat m < 256"
    using assms(1) unsigned_less [of m, where 'a = nat] by (simp_all add: word_le_nat_alt)
  have f: "unat (push_bit 2 (ucast m) :: u16) = 4 * unat m"
    using m(2) by (simp add: push_bit_eq_mult unat_word_ariths unsigned_ucast_eq take_bit_nat_eq_self)
  note look = rumble_lookup_least [of "push_bit 2 (ucast m)" 500]
  have low: "\<forall>e \<in> set rumble_freqs. 640 \<le> snd (snd e) \<longrightarrow> fst (snd e) = 0"
    by (simp add: rumble_freqs_def)
  have amp: "\<forall>e \<in> set rumble_amps. 500 \<le> snd (snd e) \<and> snd (snd e) \<le> 501 \<longrightarrow> e = (0x88, 0x0062, 501)"
    by (simp add: rumble_amps_def)
  have in_amps: "(0x88, 0x0062, 501) \<in> set rumble_amps" by (simp add: rumble_amps_def)
  have r: "find_rumble_amp 500 \<in> set rumble_amps" "500 \<le> snd (snd (find_rumble_amp 500))"
    "\<forall>e \<in> set rumble_amps. 500 \<le> snd (snd e) \<longrightarrow> snd (snd (find_rumble_amp 500)) \<le> snd (snd e)"
    using look by simp_all
  have "snd (snd (find_rumble_amp 500)) \<le> 501" using bspec [OF r(3) in_amps] by simp
  with bspec [OF amp r(1)] r(2) have "find_rumble_amp 500 = (0x88, 0x0062, 501)" by blast
  moreover have "fst (snd (find_rumble_freq (push_bit 2 (ucast m)))) = 0"
    using look low f m by auto
  ultimately show ?thesis
    by (cases "find_rumble_freq (push_bit 2 (ucast m))"; cases "find_rumble_freq (ucast m)")
      (simp add: switch_encode_rumble_def)
qed

end
