(* ===== verification/Wii_Device.thy ===== *)
theory Wii_Device
  imports Report_Bytes Dual_Rumble
begin

text \<open>
  \<^verbatim>\<open>components/bluepad32/parser/uni_hid_parser_wii.c\<close>, the state and the setup: what a Wii device is
  asked, how its answers decide the kind of device and extension, lights and rumble. Packets go to
  \<open>wd_sent\<close>. \<^verbatim>\<open>ENABLE_EEPROM_DUMP\<close> is 0, as in the file.
\<close>

section \<open>State\<close>

datatype wii_devtype = WII_DEVTYPE_UNK | WII_DEVTYPE_PRO_CONTROLLER | WII_DEVTYPE_REMOTE | WII_DEVTYPE_REMOTE_MP

datatype wii_exttype = WII_EXT_NONE | WII_EXT_UNK | WII_EXT_NUNCHUK | WII_EXT_CLASSIC_CONTROLLER
  | WII_EXT_U_PRO_CONTROLLER | WII_EXT_BALANCE_BOARD | WII_EXT_UDRAW_TABLET

datatype wii_fsm = WII_FSM_UNINIT | WII_FSM_SETUP | WII_FSM_DUMP_EEPROM_IN_PROGRESS
  | WII_FSM_DUMP_EEPROM_FINISHED | WII_FSM_DID_REQ_STATUS | WII_FSM_DEV_UNK | WII_FSM_EXT_UNK
  | WII_FSM_EXT_DID_INIT | WII_FSM_EXT_DID_NO_ENCRYPTION | WII_FSM_EXT_DID_READ_REGISTER
  | WII_FSM_BALANCE_BOARD_READ_CALIBRATION | WII_FSM_BALANCE_BOARD_READ_CALIBRATION2
  | WII_FSM_BALANCE_BOARD_DID_READ_CALIBRATION | WII_FSM_BALANCE_BOARD_DID_READ_CALIBRATION2
  | WII_FSM_DEV_GUESSED | WII_FSM_DEV_ASSIGNED | WII_FSM_LED_UPDATED

datatype wii_mode = WII_MODE_HORIZONTAL | WII_MODE_VERTICAL | WII_MODE_ACCEL

datatype controller_subtype = CONTROLLER_SUBTYPE_NONE | CONTROLLER_SUBTYPE_WIIMOTE_HORIZONTAL
  | CONTROLLER_SUBTYPE_WIIMOTE_VERTICAL | CONTROLLER_SUBTYPE_WIIMOTE_ACCEL
  | CONTROLLER_SUBTYPE_WIIMOTE_NUNCHUK | CONTROLLER_SUBTYPE_WIIMOTE_NUNCHUK_ACCEL
  | CONTROLLER_SUBTYPE_WII_CLASSIC | CONTROLLER_SUBTYPE_WIIUPRO
  | CONTROLLER_SUBTYPE_WII_BALANCE_BOARD | CONTROLLER_SUBTYPE_WIIMOTE_UDRAW_TABLET

abbreviation WII_REPORT_TYPE_K :: u8 where "WII_REPORT_TYPE_K \<equiv> 0x30"
abbreviation WII_REPORT_TYPE_KA :: u8 where "WII_REPORT_TYPE_KA \<equiv> 0x31"
abbreviation WII_REPORT_TYPE_KE :: u8 where "WII_REPORT_TYPE_KE \<equiv> 0x32"
abbreviation WII_REPORT_TYPE_KEE :: u8 where "WII_REPORT_TYPE_KEE \<equiv> 0x34"
abbreviation WII_REPORT_TYPE_KAE :: u8 where "WII_REPORT_TYPE_KAE \<equiv> 0x35"
abbreviation WII_REPORT_TYPE_E :: u8 where "WII_REPORT_TYPE_E \<equiv> 0x3d"

text \<open>Readings of the four sensors of a balance board: top right, bottom right, top left, bottom left.\<close>

record sensors =
  se_tr :: int
  se_br :: int
  se_tl :: int
  se_bl :: int

record wii_device =
  wd_ctl :: uni_controller
  wd_product_id :: u16
  wd_subtype :: controller_subtype
  wd_state :: wii_fsm
  wd_register_address :: u8
  wd_mode :: wii_mode
  wd_dev_type :: wii_devtype
  wd_ext_type :: wii_exttype
  wd_gamepad_seat :: u8
  wd_rumble :: rumble
  wd_kg0 :: sensors
  wd_kg17 :: sensors
  wd_kg34 :: sensors
  wd_sent :: "u8 list list"
  wd_ready_calls :: nat

definition wii_send :: "u8 list \<Rightarrow> wii_device \<Rightarrow> wii_device" where
  "wii_send r d = d\<lparr>wd_sent := wd_sent d @ [r]\<rparr>"

section \<open>Requests\<close>

definition wii_read_mem :: "u8 \<Rightarrow> u8 \<Rightarrow> nat \<Rightarrow> nat \<Rightarrow> wii_device \<Rightarrow> wii_device" where
  "wii_read_mem kind bank offset n d =
     wii_send [0xa2, 0x17, kind, bank, of_nat (offset div 256), of_nat (offset mod 256),
       of_nat (n div 256), of_nat (n mod 256)] d"

text \<open>Writing one byte to a control register: the packet is padded.\<close>

definition wii_write_register :: "u8 \<Rightarrow> u8 \<Rightarrow> wii_device \<Rightarrow> wii_device" where
  "wii_write_register offset b d =
     wii_send ([0xa2, 0x16, 0x04, wd_register_address d, 0x00, offset, 0x01, b] @ replicate 15 0) d"

definition uni_hid_parser_wii_request_report_type :: "u8 \<Rightarrow> wii_device \<Rightarrow> wii_device" where
  "uni_hid_parser_wii_request_report_type report_type d = wii_send [0xa2, 0x12, 0x00, report_type] d"

definition wii_set_led :: "u8 \<Rightarrow> wii_device \<Rightarrow> wii_device" where
  "wii_set_led seat d =
     (let led = or_if (rb_state (wd_rumble d) = RUMBLE_IN_PROGRESS) 0x01
            (or_if (wd_mode d = WII_MODE_ACCEL) 0x40
              (or_if (wd_mode d = WII_MODE_VERTICAL) 0x80 (push_bit 4 seat)))
      in wii_send [0xa2, 0x11, led] d)"

section \<open>The state machine\<close>

definition wii_fsm_req_status :: "wii_device \<Rightarrow> wii_device" where
  "wii_fsm_req_status d = wii_send [0xa2, 0x15, 0x00] (d\<lparr>wd_state := WII_FSM_DID_REQ_STATUS\<rparr>)"

definition wii_fsm_ext_init :: "wii_device \<Rightarrow> wii_device" where
  "wii_fsm_ext_init d = wii_write_register 0xf0 0x55 (d\<lparr>wd_state := WII_FSM_EXT_DID_INIT\<rparr>)"

definition wii_fsm_ext_encrypt_off :: "wii_device \<Rightarrow> wii_device" where
  "wii_fsm_ext_encrypt_off d = wii_write_register 0xfb 0x00 (d\<lparr>wd_state := WII_FSM_EXT_DID_NO_ENCRYPTION\<rparr>)"

definition wii_fsm_ext_read_register :: "wii_device \<Rightarrow> wii_device" where
  "wii_fsm_ext_read_register d =
     wii_read_mem 0x04 (wd_register_address d) 0xfa 6 (d\<lparr>wd_state := WII_FSM_EXT_DID_READ_REGISTER\<rparr>)"

definition wii_fsm_balance_board_read_calibration :: "wii_device \<Rightarrow> wii_device" where
  "wii_fsm_balance_board_read_calibration d =
     wii_read_mem 0x04 (wd_register_address d) 0x24 16
       (d\<lparr>wd_state := WII_FSM_BALANCE_BOARD_DID_READ_CALIBRATION\<rparr>)"

definition wii_fsm_balance_board_read_calibration2 :: "wii_device \<Rightarrow> wii_device" where
  "wii_fsm_balance_board_read_calibration2 d =
     wii_read_mem 0x04 (wd_register_address d) 0x34 8
       (d\<lparr>wd_state := WII_FSM_BALANCE_BOARD_DID_READ_CALIBRATION2\<rparr>)"

text \<open>The report type and subtype of a remote, by extension and mode.\<close>

definition remote_report :: "wii_exttype \<Rightarrow> wii_mode \<Rightarrow> u8 \<times> controller_subtype" where
  "remote_report ext m = (case ext of
       WII_EXT_NUNCHUK \<Rightarrow> (if m = WII_MODE_ACCEL
         then (WII_REPORT_TYPE_KAE, CONTROLLER_SUBTYPE_WIIMOTE_NUNCHUK_ACCEL)
         else (WII_REPORT_TYPE_KE, CONTROLLER_SUBTYPE_WIIMOTE_NUNCHUK))
     | WII_EXT_CLASSIC_CONTROLLER \<Rightarrow> (WII_REPORT_TYPE_E, CONTROLLER_SUBTYPE_WII_CLASSIC)
     | WII_EXT_BALANCE_BOARD \<Rightarrow> (WII_REPORT_TYPE_KEE, CONTROLLER_SUBTYPE_WII_BALANCE_BOARD)
     | WII_EXT_UDRAW_TABLET \<Rightarrow> (WII_REPORT_TYPE_KE, CONTROLLER_SUBTYPE_WIIMOTE_UDRAW_TABLET)
     | _ \<Rightarrow> (if m = WII_MODE_ACCEL then (WII_REPORT_TYPE_KA, CONTROLLER_SUBTYPE_WIIMOTE_ACCEL)
         else (WII_REPORT_TYPE_K, if m = WII_MODE_VERTICAL then CONTROLLER_SUBTYPE_WIIMOTE_VERTICAL
           else CONTROLLER_SUBTYPE_WIIMOTE_HORIZONTAL)))"

definition assigned_report :: "wii_device \<Rightarrow> u8 \<times> controller_subtype" where
  "assigned_report d =
     (if wd_dev_type d = WII_DEVTYPE_PRO_CONTROLLER then (WII_REPORT_TYPE_KEE, CONTROLLER_SUBTYPE_WIIUPRO)
      else remote_report (wd_ext_type d) (wd_mode d))"

fun fsm_rank :: "wii_fsm \<Rightarrow> nat" where
  "fsm_rank WII_FSM_SETUP = 2"
| "fsm_rank WII_FSM_DUMP_EEPROM_IN_PROGRESS = 2"
| "fsm_rank WII_FSM_DEV_GUESSED = 4"
| "fsm_rank WII_FSM_DEV_ASSIGNED = 2"
| "fsm_rank _ = 0"

function wii_process_fsm :: "wii_device \<Rightarrow> wii_device"
  and wii_fsm_dump_eeprom :: "wii_device \<Rightarrow> wii_device"
  and wii_fsm_assign_device :: "wii_device \<Rightarrow> wii_device"
  and wii_fsm_update_led :: "wii_device \<Rightarrow> wii_device" where
  "wii_process_fsm d = (case wd_state d of
       WII_FSM_SETUP \<Rightarrow> wii_fsm_dump_eeprom d
     | WII_FSM_DUMP_EEPROM_IN_PROGRESS \<Rightarrow> wii_fsm_dump_eeprom d
     | WII_FSM_DUMP_EEPROM_FINISHED \<Rightarrow> wii_fsm_req_status d
     | WII_FSM_DEV_UNK \<Rightarrow> wii_fsm_ext_init d
     | WII_FSM_EXT_UNK \<Rightarrow> wii_fsm_ext_init d
     | WII_FSM_EXT_DID_INIT \<Rightarrow> wii_fsm_ext_encrypt_off d
     | WII_FSM_EXT_DID_NO_ENCRYPTION \<Rightarrow> wii_fsm_ext_read_register d
     | WII_FSM_DEV_GUESSED \<Rightarrow> wii_fsm_assign_device d
     | WII_FSM_BALANCE_BOARD_READ_CALIBRATION \<Rightarrow> wii_fsm_balance_board_read_calibration d
     | WII_FSM_BALANCE_BOARD_READ_CALIBRATION2 \<Rightarrow> wii_fsm_balance_board_read_calibration2 d
     | WII_FSM_DEV_ASSIGNED \<Rightarrow> wii_fsm_update_led d
     | _ \<Rightarrow> d)"
| "wii_fsm_dump_eeprom d = wii_process_fsm (d\<lparr>wd_state := WII_FSM_DUMP_EEPROM_FINISHED\<rparr>)"
| "wii_fsm_assign_device d = (case assigned_report d of (report_type, sub) \<Rightarrow>
     wii_process_fsm ((uni_hid_parser_wii_request_report_type report_type (d\<lparr>wd_subtype := sub\<rparr>))
       \<lparr>wd_state := WII_FSM_DEV_ASSIGNED\<rparr>))"
| "wii_fsm_update_led d =
     (let d1 = wii_process_fsm ((wii_set_led (wd_gamepad_seat d) d)\<lparr>wd_state := WII_FSM_LED_UPDATED\<rparr>)
      in d1\<lparr>wd_ready_calls := Suc (wd_ready_calls d1)\<rparr>)"
  by pat_completeness auto

termination
  by (relation "measure (\<lambda>x. case x of
        Inl (Inl d) \<Rightarrow> fsm_rank (wd_state d) | Inl (Inr d) \<Rightarrow> 1
      | Inr (Inl d) \<Rightarrow> 3 | Inr (Inr d) \<Rightarrow> 1)")
    (auto simp: uni_hid_parser_wii_request_report_type_def wii_send_def wii_set_led_def Let_def)

declare wii_process_fsm.simps [simp del] wii_fsm_dump_eeprom.simps [simp del]
  wii_fsm_assign_device.simps [simp del] wii_fsm_update_led.simps [simp del]

section \<open>Answers\<close>

definition process_req_status :: "u8 list \<Rightarrow> wii_device \<Rightarrow> wii_device" where
  "process_req_status report d =
     (if length report < 7 then d
      else if wd_state d \<noteq> WII_FSM_DID_REQ_STATUS then d
      else let flags = report ! 3 AND 0x0f;
               ext = has_bits flags 0x02;
               d1 = (if wd_product_id d = 0x0306
                     then d\<lparr>wd_state := WII_FSM_DEV_GUESSED, wd_dev_type := WII_DEVTYPE_REMOTE\<rparr>
                     else if wd_product_id d = 0x0330
                     then (if \<not> ext
                           then d\<lparr>wd_state := WII_FSM_DEV_GUESSED, wd_dev_type := WII_DEVTYPE_REMOTE_MP\<rparr>
                           else d\<lparr>wd_state := WII_FSM_DEV_UNK\<rparr>)
                     else d);
               d2 = (if ext then d1\<lparr>wd_state := WII_FSM_EXT_UNK, wd_ext_type := WII_EXT_UNK\<rparr>
                     else d1\<lparr>wd_ext_type := WII_EXT_NONE\<rparr>);
               d3 = (if has_bits (report ! 2) 0x08 then d2\<lparr>wd_mode := WII_MODE_ACCEL\<rparr>
                     else if has_bits (report ! 1) 0x10 then d2\<lparr>wd_mode := WII_MODE_VERTICAL\<rparr>
                     else d2)
        in wii_process_fsm d3)"

definition guess_device :: "u8 list \<Rightarrow> wii_device \<Rightarrow> wii_device" where
  "guess_device report d =
     (if report ! 10 = 0x01 \<and> report ! 11 = 0x20
      then d\<lparr>wd_dev_type := WII_DEVTYPE_PRO_CONTROLLER, wd_ext_type := WII_EXT_U_PRO_CONTROLLER\<rparr>
      else if wd_dev_type d = WII_DEVTYPE_UNK
      then (if wd_product_id d = 0x0330 then d\<lparr>wd_dev_type := WII_DEVTYPE_REMOTE_MP\<rparr>
            else if wd_product_id d = 0x0306 then d\<lparr>wd_dev_type := WII_DEVTYPE_REMOTE\<rparr> else d)
      else d)"

definition guess_extension :: "u8 list \<Rightarrow> wii_device \<Rightarrow> wii_device" where
  "guess_extension report d =
     (if wd_ext_type d \<noteq> WII_EXT_UNK then d
      else if report ! 10 = 0x00 \<and> report ! 11 = 0x00
      then d\<lparr>wd_ext_type := WII_EXT_NUNCHUK, wd_mode := WII_MODE_VERTICAL\<rparr>
      else if report ! 10 = 0x04 \<and> report ! 11 = 0x02 then d\<lparr>wd_ext_type := WII_EXT_BALANCE_BOARD\<rparr>
      else if report ! 10 = 0x01 \<and> report ! 11 = 0x01 then d\<lparr>wd_ext_type := WII_EXT_CLASSIC_CONTROLLER\<rparr>
      else if report ! 10 = 0x01 \<and> report ! 11 = 0x12
      then d\<lparr>wd_ext_type := WII_EXT_UDRAW_TABLET, wd_mode := WII_MODE_VERTICAL\<rparr>
      else d)"

definition process_req_data_read_register :: "u8 list \<Rightarrow> wii_device \<Rightarrow> wii_device" where
  "process_req_data_read_register report d =
     (if report ! 3 AND 0x0f \<noteq> 0 then d
      else if drop_bit 4 (report ! 3) = 5 \<and> report ! 4 = 0x00 \<and> report ! 5 = 0xfa
      then let d1 = guess_extension report (guess_device report d)
        in wii_process_fsm (d1\<lparr>wd_state := (if wd_ext_type d1 = WII_EXT_BALANCE_BOARD
             then WII_FSM_BALANCE_BOARD_READ_CALIBRATION else WII_FSM_DEV_GUESSED)\<rparr>)
      else d)"

definition sensors_at :: "u8 list \<Rightarrow> nat \<Rightarrow> sensors" where
  "sensors_at r i = \<lparr>se_tr = be16_at r i, se_br = be16_at r (i + 2), se_tl = be16_at r (i + 4),
     se_bl = be16_at r (i + 6)\<rparr>"

text \<open>The setup goes on whether or not the answer is the expected one.\<close>

definition process_req_data_read_calibration_data :: "u8 list \<Rightarrow> wii_device \<Rightarrow> wii_device" where
  "process_req_data_read_calibration_data report d =
     (if report ! 3 AND 0x0f \<noteq> 0 then d
      else let d1 = (if drop_bit 4 (report ! 3) = 15 \<and> report ! 4 = 0x00 \<and> report ! 5 = 0x24
                     then d\<lparr>wd_kg0 := sensors_at report 6, wd_kg17 := sensors_at report 14\<rparr> else d)
        in wii_process_fsm (d1\<lparr>wd_state := WII_FSM_BALANCE_BOARD_READ_CALIBRATION2\<rparr>))"

definition process_req_data_read_calibration_data2 :: "u8 list \<Rightarrow> wii_device \<Rightarrow> wii_device" where
  "process_req_data_read_calibration_data2 report d =
     (if report ! 3 AND 0x0f \<noteq> 0 then d
      else let d1 = (if drop_bit 4 (report ! 3) = 7 \<and> report ! 4 = 0x00 \<and> report ! 5 = 0x34
                     then d\<lparr>wd_kg34 := sensors_at report 6\<rparr> else d)
        in wii_process_fsm (d1\<lparr>wd_state := WII_FSM_DEV_GUESSED\<rparr>))"

definition process_req_data_dump_eeprom :: "u8 list \<Rightarrow> wii_device \<Rightarrow> wii_device" where
  "process_req_data_dump_eeprom report d = wii_process_fsm d"

definition process_req_data :: "u8 list \<Rightarrow> wii_device \<Rightarrow> wii_device" where
  "process_req_data report d =
     (if length report < 22 then d
      else case wd_state d of
          WII_FSM_EXT_DID_READ_REGISTER \<Rightarrow> process_req_data_read_register report d
        | WII_FSM_BALANCE_BOARD_DID_READ_CALIBRATION \<Rightarrow> process_req_data_read_calibration_data report d
        | WII_FSM_BALANCE_BOARD_DID_READ_CALIBRATION2 \<Rightarrow> process_req_data_read_calibration_data2 report d
        | WII_FSM_DUMP_EEPROM_IN_PROGRESS \<Rightarrow> process_req_data_dump_eeprom report d
        | _ \<Rightarrow> d)"

text \<open>The check of the length only writes to the log: the code reads on.\<close>

definition process_req_return :: "u8 list \<Rightarrow> wii_device \<Rightarrow> wii_device option" where
  "process_req_return report d = have_bytes 4 report
     (if report ! 3 \<noteq> 0x16 then Some d
      else have_bytes 5 report (Some (wii_process_fsm
        (if report ! 4 \<noteq> 0
         then (if wd_register_address d = 0xa6 then d\<lparr>wd_state := WII_FSM_SETUP\<rparr>
               else d\<lparr>wd_state := WII_FSM_DEV_UNK, wd_register_address := 0xa6\<rparr>)
         else d))))"

section \<open>Setup, lights, mode\<close>

definition no_sensors :: sensors where
  "no_sensors = \<lparr>se_tr = 0, se_br = 0, se_tl = 0, se_bl = 0\<rparr>"

definition uni_hid_parser_wii_setup :: "wii_device \<Rightarrow> wii_device" where
  "uni_hid_parser_wii_setup d = wii_process_fsm (d\<lparr>wd_state := WII_FSM_SETUP,
     wd_register_address := 0xa4, wd_mode := WII_MODE_HORIZONTAL, wd_dev_type := WII_DEVTYPE_UNK,
     wd_ext_type := WII_EXT_NONE, wd_gamepad_seat := 0, wd_rumble := rumble_zero,
     wd_kg0 := no_sensors, wd_kg17 := no_sensors, wd_kg34 := no_sensors\<rparr>)"

definition uni_hid_parser_wii_set_player_leds :: "u8 \<Rightarrow> wii_device \<Rightarrow> wii_device" where
  "uni_hid_parser_wii_set_player_leds leds d =
     (let d1 = d\<lparr>wd_gamepad_seat := leds\<rparr>
      in if wd_state d1 \<noteq> WII_FSM_LED_UPDATED then d1 else wii_set_led leds d1)"

definition uni_hid_parser_wii_set_mode :: "wii_mode \<Rightarrow> wii_device \<Rightarrow> wii_device" where
  "uni_hid_parser_wii_set_mode m d =
     (let d1 = d\<lparr>wd_mode := m\<rparr> in case m of
        WII_MODE_HORIZONTAL \<Rightarrow> d1\<lparr>wd_subtype := CONTROLLER_SUBTYPE_WIIMOTE_HORIZONTAL\<rparr>
      | WII_MODE_VERTICAL \<Rightarrow> d1\<lparr>wd_subtype := CONTROLLER_SUBTYPE_WIIMOTE_VERTICAL\<rparr>
      | WII_MODE_ACCEL \<Rightarrow> (if wd_ext_type d1 = WII_EXT_NONE then d1\<lparr>wd_subtype := CONTROLLER_SUBTYPE_WIIMOTE_ACCEL\<rparr>
          else if wd_ext_type d1 = WII_EXT_NUNCHUK
          then d1\<lparr>wd_subtype := CONTROLLER_SUBTYPE_WIIMOTE_NUNCHUK_ACCEL\<rparr> else d1))"

section \<open>Rumble\<close>

definition wii_set_rumble :: "rumble \<Rightarrow> wii_device \<Rightarrow> wii_device" where
  "wii_set_rumble r d = d\<lparr>wd_rumble := r\<rparr>"

definition wii_stop_rumble_now :: "wii_device \<Rightarrow> wii_device option" where
  "wii_stop_rumble_now d =
     (if rb_state (wd_rumble d) \<noteq> RUMBLE_IN_PROGRESS then None
      else Some (wii_send [0xa2, 0x10, 0x00]
        (wii_set_rumble ((wd_rumble d)\<lparr>rb_state := RUMBLE_DISABLED\<rparr>) d)))"

definition wii_play_dual_rumble_now :: "u16 \<Rightarrow> wii_device \<Rightarrow> wii_device option" where
  "wii_play_dual_rumble_now duration_ms d =
     (if duration_ms = 0
      then (if rb_state (wd_rumble d) = RUMBLE_IN_PROGRESS then wii_stop_rumble_now d else Some d)
      else map_option (\<lambda>r. wii_set_rumble r (wii_send [0xa2, 0x10, 0x01] d))
        (rumble_arm duration_ms (wd_rumble d)))"

definition wii_rumble_delay :: "u16 \<Rightarrow> u16 \<Rightarrow> rumble \<Rightarrow> rumble option" where
  "wii_rumble_delay start_delay_ms duration_ms r =
     map_option (\<lambda>t. r\<lparr>rb_timer_delayed_start := t, rb_state := RUMBLE_DELAYED, rb_duration_ms := duration_ms\<rparr>)
       (start_timer start_delay_ms (rb_timer_delayed_start r))"

definition uni_hid_parser_wii_play_dual_rumble :: "u16 \<Rightarrow> u16 \<Rightarrow> wii_device \<Rightarrow> wii_device option" where
  "uni_hid_parser_wii_play_dual_rumble start_delay_ms duration_ms d =
     (if wd_state d \<noteq> WII_FSM_LED_UPDATED then Some d
      else let d1 = wii_set_rumble (rumble_remove (wd_rumble d)) d
        in if start_delay_ms = 0 then wii_play_dual_rumble_now duration_ms d1
           else map_option (\<lambda>r. wii_set_rumble r d1) (wii_rumble_delay start_delay_ms duration_ms (wd_rumble d1)))"

definition on_wii_set_rumble_on :: "wii_device \<Rightarrow> wii_device option" where
  "on_wii_set_rumble_on d = wii_play_dual_rumble_now (rb_duration_ms (wd_rumble d)) d"

definition on_wii_set_rumble_off :: "wii_device \<Rightarrow> wii_device option" where
  "on_wii_set_rumble_off d = wii_stop_rumble_now d"

section \<open>What the state machine does in each state\<close>

lemma assigned_report_state [simp]: "assigned_report (d\<lparr>wd_state := s\<rparr>) = assigned_report d"
  by (simp add: assigned_report_def)

lemma assigned_report_subtype [simp]: "assigned_report (d\<lparr>wd_subtype := s\<rparr>) = assigned_report d"
  by (simp add: assigned_report_def)

definition device_ready :: "wii_device \<Rightarrow> wii_device" where
  "device_ready d = (let d1 = (wii_set_led (wd_gamepad_seat d) d)\<lparr>wd_state := WII_FSM_LED_UPDATED\<rparr>
     in d1\<lparr>wd_ready_calls := Suc (wd_ready_calls d1)\<rparr>)"

lemma fsm_idle:
  "wd_state d \<in> {WII_FSM_UNINIT, WII_FSM_DID_REQ_STATUS, WII_FSM_EXT_DID_READ_REGISTER,
     WII_FSM_BALANCE_BOARD_DID_READ_CALIBRATION, WII_FSM_BALANCE_BOARD_DID_READ_CALIBRATION2,
     WII_FSM_LED_UPDATED} \<Longrightarrow> wii_process_fsm d = d"
  by (auto simp: wii_process_fsm.simps)

lemma fsm_assigned: "wd_state d = WII_FSM_DEV_ASSIGNED \<Longrightarrow> wii_process_fsm d = device_ready d"
  by (simp add: wii_process_fsm.simps [of d] wii_fsm_update_led.simps fsm_idle device_ready_def)

lemma fsm_guessed:
  "wd_state d = WII_FSM_DEV_GUESSED \<Longrightarrow> wii_process_fsm d =
     device_ready ((uni_hid_parser_wii_request_report_type (fst (assigned_report d))
       (d\<lparr>wd_subtype := snd (assigned_report d)\<rparr>))\<lparr>wd_state := WII_FSM_DEV_ASSIGNED\<rparr>)"
  by (simp add: wii_process_fsm.simps [of d] wii_fsm_assign_device.simps fsm_assigned split: prod.split)

lemma fsm_restart:
  "wd_state d \<in> {WII_FSM_SETUP, WII_FSM_DUMP_EEPROM_IN_PROGRESS} \<Longrightarrow>
     wii_process_fsm d = wii_fsm_req_status (d\<lparr>wd_state := WII_FSM_DUMP_EEPROM_FINISHED\<rparr>)"
  by (auto simp: wii_process_fsm.simps wii_fsm_dump_eeprom.simps)

lemma fsm_asks:
  "wd_state d = WII_FSM_DUMP_EEPROM_FINISHED \<Longrightarrow> wii_process_fsm d = wii_fsm_req_status d"
  "wd_state d \<in> {WII_FSM_DEV_UNK, WII_FSM_EXT_UNK} \<Longrightarrow> wii_process_fsm d = wii_fsm_ext_init d"
  "wd_state d = WII_FSM_EXT_DID_INIT \<Longrightarrow> wii_process_fsm d = wii_fsm_ext_encrypt_off d"
  "wd_state d = WII_FSM_EXT_DID_NO_ENCRYPTION \<Longrightarrow> wii_process_fsm d = wii_fsm_ext_read_register d"
  "wd_state d = WII_FSM_BALANCE_BOARD_READ_CALIBRATION \<Longrightarrow>
     wii_process_fsm d = wii_fsm_balance_board_read_calibration d"
  "wd_state d = WII_FSM_BALANCE_BOARD_READ_CALIBRATION2 \<Longrightarrow>
     wii_process_fsm d = wii_fsm_balance_board_read_calibration2 d"
  by (auto simp: wii_process_fsm.simps)

lemmas fsm_simps = fsm_idle fsm_assigned fsm_guessed fsm_restart fsm_asks

lemmas wii_request_defs = wii_send_def wii_read_mem_def wii_write_register_def
  uni_hid_parser_wii_request_report_type_def wii_fsm_req_status_def wii_fsm_ext_init_def
  wii_fsm_ext_encrypt_off_def wii_fsm_ext_read_register_def
  wii_fsm_balance_board_read_calibration_def wii_fsm_balance_board_read_calibration2_def

section \<open>The motor\<close>

text \<open>What the commands 0x10 (rumble) and 0x11 (lights) last told the motor.\<close>

definition wii_motor :: "u8 list list \<Rightarrow> bool" where
  "wii_motor sent = foldl (\<lambda>m r. if r ! 1 = 0x10 \<or> r ! 1 = 0x11 then bit (r ! 2) 0 else m) False sent"

lemma wii_motor_snoc [simp]:
  "wii_motor (sent @ [r]) = (if r ! 1 = 0x10 \<or> r ! 1 = 0x11 then bit (r ! 2) 0 else wii_motor sent)"
  by (simp add: wii_motor_def)

text \<open>A step that is none of the rumble's: the motor keeps running, or is told what the state says.\<close>

definition aside :: "wii_device \<Rightarrow> wii_device \<Rightarrow> bool" where
  "aside d d' \<longleftrightarrow> wd_rumble d' = wd_rumble d \<and> (wii_motor (wd_sent d') = wii_motor (wd_sent d) \<or>
     wii_motor (wd_sent d') = (rb_state (wd_rumble d) = RUMBLE_IN_PROGRESS))"

lemma aside_trans: "aside d d' \<Longrightarrow> aside d' d'' \<Longrightarrow> aside d d''"
  by (auto simp: aside_def)

lemma aside_same: "wd_rumble d' = wd_rumble d \<Longrightarrow> wd_sent d' = wd_sent d \<Longrightarrow> aside d d'"
  by (simp add: aside_def)

lemma led_bit:
  "bit (or_if a 0x01 (or_if b 0x40 (or_if c 0x80 (push_bit 4 seat))) :: u8) 0 \<longleftrightarrow> a"
  by (simp add: bit_or_if bit_push_bit_iff)

lemma aside_led: "aside d (wii_set_led seat d)"
  using led_bit by (simp add: aside_def wii_set_led_def wii_send_def Let_def)

lemma aside_ready: "aside d (device_ready d)"
proof -
  have "aside (wii_set_led (wd_gamepad_seat d) d) (device_ready d)"
    by (rule aside_same) (simp_all add: device_ready_def Let_def)
  with aside_led aside_trans show ?thesis by blast
qed

lemma aside_fsm: "aside d (wii_process_fsm d)"
proof -
  let ?e = "(uni_hid_parser_wii_request_report_type (fst (assigned_report d))
       (d\<lparr>wd_subtype := snd (assigned_report d)\<rparr>))\<lparr>wd_state := WII_FSM_DEV_ASSIGNED\<rparr>"
  have "aside d ?e" by (simp add: aside_def wii_request_defs)
  then have "aside d (device_ready ?e)" using aside_ready aside_trans by blast
  then show ?thesis
    by (cases "wd_state d") (simp_all add: fsm_simps aside_ready, simp_all add: aside_def wii_request_defs)
qed

lemma aside_fsm_after: "wd_rumble d' = wd_rumble d \<Longrightarrow> wd_sent d' = wd_sent d \<Longrightarrow> aside d (wii_process_fsm d')"
  using aside_trans [OF aside_same aside_fsm] by blast

end
