(* ===== verification/Parser_Wii.thy ===== *)
theory Parser_Wii
  imports Wii_Device Binary32
begin

text \<open>
  \<^verbatim>\<open>components/bluepad32/parser/uni_hid_parser_wii.c\<close>, the input reports: remote held across and
  upright, with acceleration, with Nunchuk or drawing tablet, Classic and Wii U Pro controllers, and the
  balance board with its weights in binary32; then the driver as a whole.
\<close>

section \<open>The remote alone\<close>

definition core_misc :: "u8 \<Rightarrow> u8 \<Rightarrow> u8 \<Rightarrow> u8" where
  "core_misc b0 b1 old = old OR pressed_bits [(has_bits b1 0x80, MISC_BUTTON_SYSTEM),
     (has_bits b0 0x10, MISC_BUTTON_START), (has_bits b1 0x10, MISC_BUTTON_SELECT)]"

definition dpad_across :: "u8 \<Rightarrow> u8" where
  "dpad_across b0 = pressed_bits [(has_bits b0 0x01, DPAD_DOWN), (has_bits b0 0x02, DPAD_UP),
     (has_bits b0 0x04, DPAD_RIGHT), (has_bits b0 0x08, DPAD_LEFT)]"

definition dpad_upright :: "u8 \<Rightarrow> u8" where
  "dpad_upright b0 = pressed_bits [(has_bits b0 0x01, DPAD_LEFT), (has_bits b0 0x02, DPAD_RIGHT),
     (has_bits b0 0x04, DPAD_DOWN), (has_bits b0 0x08, DPAD_UP)]"

definition process_drm_k_horizontal :: "u8 \<Rightarrow> u8 \<Rightarrow> uni_gamepad \<Rightarrow> uni_gamepad" where
  "process_drm_k_horizontal b0 b1 g = g\<lparr>dpad := dpad g OR dpad_across b0,
     buttons := buttons g OR pressed_bits [(has_bits b1 0x04, BUTTON_Y), (has_bits b1 0x08, BUTTON_X),
       (has_bits b1 0x02, BUTTON_A), (has_bits b1 0x01, BUTTON_B)]\<rparr>"

definition process_drm_k_vertical :: "u8 \<Rightarrow> u8 \<Rightarrow> uni_gamepad \<Rightarrow> uni_gamepad" where
  "process_drm_k_vertical b0 b1 g = g\<lparr>dpad := dpad g OR dpad_upright b0,
     buttons := buttons g OR pressed_bits [(has_bits b1 0x04, BUTTON_A), (has_bits b1 0x08, BUTTON_B),
       (has_bits b1 0x02, BUTTON_X), (has_bits b1 0x01, BUTTON_Y)]\<rparr>"

definition wii_pad :: "(uni_gamepad \<Rightarrow> uni_gamepad) \<Rightarrow> wii_device \<Rightarrow> wii_device" where
  "wii_pad f d = d\<lparr>wd_ctl := upd_gp f (wd_ctl d)\<rparr>"

definition process_drm_k :: "u8 list \<Rightarrow> wii_device \<Rightarrow> wii_device" where
  "process_drm_k r d =
     (if length r < 3 then d
      else let layout = (case wd_mode d of
             WII_MODE_HORIZONTAL \<Rightarrow> process_drm_k_horizontal (r ! 1) (r ! 2)
           | WII_MODE_VERTICAL \<Rightarrow> process_drm_k_vertical (r ! 1) (r ! 2)
           | WII_MODE_ACCEL \<Rightarrow> (\<lambda>g. g))
        in wii_pad (\<lambda>g. (layout g)\<lparr>misc_buttons := core_misc (r ! 1) (r ! 2) (misc_buttons g)\<rparr>) d)"

text \<open>Ten bits of acceleration; the low bits are among those of the buttons.\<close>

definition process_drm_ka :: "u8 list \<Rightarrow> wii_device \<Rightarrow> wii_device" where
  "process_drm_ka r d =
     (if length r < 6 then d
      else let x = 4 * uint (r ! 3) + uint (drop_bit 5 (r ! 1) AND 0x3);
               y = 4 * uint (r ! 4) + uint (drop_bit 4 (r ! 2) AND 0x2);
               z = 4 * uint (r ! 5) + uint (drop_bit 5 (r ! 2) AND 0x2)
        in wii_pad (\<lambda>g. g\<lparr>accel := [x - 0x200, y - 0x200, z - 0x200],
          dpad := dpad g OR dpad_across (r ! 1),
          buttons := buttons g OR pressed_bits [(has_bits (r ! 2) 0x02, BUTTON_A),
            (has_bits (r ! 2) 0x01, BUTTON_B), (has_bits (r ! 2) 0x08, BUTTON_X),
            (has_bits (r ! 2) 0x04, BUTTON_Y)],
          misc_buttons := core_misc (r ! 1) (r ! 2) (misc_buttons g)\<rparr>) d)"

section \<open>Nunchuk and drawing tablet\<close>

record nunchuk =
  nu_sx :: int
  nu_sy :: int
  nu_ax :: int
  nu_ay :: int
  nu_az :: int
  nu_bc :: bool
  nu_bz :: bool

definition process_nunchuk :: "u8 list \<Rightarrow> nunchuk" where
  "process_nunchuk e =
     (if length e < 6 then \<lparr>nu_sx = 0, nu_sy = 0, nu_ax = 0, nu_ay = 0, nu_az = 0, nu_bc = False, nu_bz = False\<rparr>
      else \<lparr>nu_sx = uint (e ! 0) - 0x80, nu_sy = - (uint (e ! 1) - 0x80),
        nu_ax = 4 * uint (e ! 2) + uint (drop_bit 2 (e ! 5 AND 0x0c)) - AXIS_NORMALIZE_RANGE sdiv 2,
        nu_ay = 4 * uint (e ! 3) + uint (drop_bit 4 (e ! 5 AND 0x30)) - AXIS_NORMALIZE_RANGE sdiv 2,
        nu_az = 4 * uint (e ! 4) + uint (drop_bit 6 (e ! 5 AND 0xc0)) - AXIS_NORMALIZE_RANGE sdiv 2,
        nu_bc = (\<not> has_bits (e ! 5) 0x02), nu_bz = (\<not> has_bits (e ! 5) 0x01)\<rparr>)"

record udraw_tablet =
  ud_x :: int
  ud_y :: int
  ud_pressure :: int
  ud_button_lower :: bool
  ud_button_upper :: bool

definition process_udraw_tablet :: "u8 list \<Rightarrow> udraw_tablet" where
  "process_udraw_tablet e =
     (if length e < 6
      then \<lparr>ud_x = 0, ud_y = 0, ud_pressure = 0, ud_button_lower = False, ud_button_upper = False\<rparr>
      else \<lparr>ud_x = uint (e ! 0) + 256 * uint (e ! 2 AND 0x0f),
        ud_y = uint (e ! 1) + 16 * uint (e ! 2 AND 0xf0),
        ud_pressure = uint (e ! 3) + 32 * uint (e ! 5 AND 0x04),
        ud_button_lower = (\<not> has_bits (e ! 5) 0x02), ud_button_upper = (\<not> has_bits (e ! 5) 0x01)\<rparr>)"

definition nunchuk_pad :: "nunchuk \<Rightarrow> uni_gamepad \<Rightarrow> uni_gamepad" where
  "nunchuk_pad n g = (let factor = (AXIS_NORMALIZE_RANGE sdiv 2) sdiv 128
     in g\<lparr>axis_rx := nu_sx n * factor, axis_ry := nu_sy n * factor,
       buttons := buttons g OR pressed_bits [(nu_bc n, BUTTON_X), (nu_bz n, BUTTON_Y)]\<rparr>)"

definition udraw_pad :: "udraw_tablet \<Rightarrow> uni_gamepad \<Rightarrow> uni_gamepad" where
  "udraw_pad n g =
     (let half = AXIS_NORMALIZE_RANGE sdiv 2;
          x = (if ud_x n < 2000 then ((ud_x n - 90) * AXIS_NORMALIZE_RANGE) sdiv 1955 - half else 0);
          y = (if ud_y n < 2000 then ((ud_y n - 80) * AXIS_NORMALIZE_RANGE) sdiv 1450 - half else 0);
          p = ((ud_pressure n - 8) * AXIS_NORMALIZE_RANGE) sdiv 380
      in g\<lparr>axis_rx := x, axis_ry := y, throttle := p,
        buttons := buttons g OR pressed_bits [(ud_button_upper n, BUTTON_X), (ud_button_lower n, BUTTON_Y)]\<rparr>)"

definition process_drm_ke :: "u8 list \<Rightarrow> wii_device \<Rightarrow> wii_device" where
  "process_drm_ke r d =
     (if length r < 11 then d
      else if wd_ext_type d \<notin> {WII_EXT_NUNCHUK, WII_EXT_UDRAW_TABLET} then d
      else if wd_mode d \<noteq> WII_MODE_VERTICAL then d
      else let half = (if wd_ext_type d = WII_EXT_NUNCHUK then nunchuk_pad (process_nunchuk (drop 3 r))
             else udraw_pad (process_udraw_tablet (drop 3 r)))
        in wii_pad (\<lambda>g. (half g)\<lparr>dpad := dpad g OR dpad_upright (r ! 1),
          buttons := buttons (half g) OR pressed_bits [(has_bits (r ! 2) 0x04, BUTTON_A),
            (has_bits (r ! 2) 0x08, BUTTON_B), (has_bits (r ! 2) 0x02, BUTTON_SHOULDER_L),
            (has_bits (r ! 2) 0x01, BUTTON_SHOULDER_R)],
          misc_buttons := core_misc (r ! 1) (r ! 2) (misc_buttons g)\<rparr>) d)"

text \<open>\<open>drm_kae\<close> is not supported by the code.\<close>

definition process_drm_kae :: "u8 list \<Rightarrow> wii_device \<Rightarrow> wii_device" where
  "process_drm_kae r d = d"

section \<open>The balance board\<close>

text \<open>Conversion of a \<^verbatim>\<open>float\<close> to an integer cuts the fraction; that of an infinity is undefined.\<close>

definition trunc :: "rat \<Rightarrow> int" where
  "trunc x = (if x < 0 then - \<lfloor>- x\<rfloor> else \<lfloor>x\<rfloor>)"

definition balance_interpolate :: "int \<Rightarrow> int \<Rightarrow> int \<Rightarrow> int \<Rightarrow> int option" where
  "balance_interpolate val kg0 kg17 kg34 =
     (if val < kg0 then Some 0
      else if val < kg17
      then Some (trunc (f_mul (f_div (f_mul 17 (f_of_int (val - kg0))) (f_of_int (kg17 - kg0))) 1000))
      else if kg34 = kg17 then None
      else Some (trunc (f_mul (f_add 17 (f_div (f_mul 17 (f_of_int (val - kg17))) (f_of_int (kg34 - kg17)))) 1000)))"

definition board_battery :: "u8 \<Rightarrow> u8" where
  "board_battery b = (if b \<ge> 0x82 then 255 else if b \<ge> 0x7d then 192 else if b \<ge> 0x78 then 128
     else if b \<ge> 0x6a then 64 else 0)"

text \<open>
  The weights are stored in 16 bits. The length is passed as \<^verbatim>\<open>uint16_t\<close> less the three bytes in
  front; in a report of one or two bytes it wraps and passes for a long one.
\<close>

definition process_balance_board :: "u8 list \<Rightarrow> wii_device \<Rightarrow> (uni_balance_board \<times> u8) option" where
  "process_balance_board r d =
     (if (int (length r) - 3) mod 65536 < 11
      then Some (\<lparr>bb_tr = 0, bb_br = 0, bb_tl = 0, bb_bl = 0, bb_temperature = 0\<rparr>, 0)
      else have_bytes 14 r
        (case (balance_interpolate (be16_at r 3) (se_tr (wd_kg0 d)) (se_tr (wd_kg17 d)) (se_tr (wd_kg34 d)),
               balance_interpolate (be16_at r 5) (se_br (wd_kg0 d)) (se_br (wd_kg17 d)) (se_br (wd_kg34 d)),
               balance_interpolate (be16_at r 7) (se_tl (wd_kg0 d)) (se_tl (wd_kg17 d)) (se_tl (wd_kg34 d)),
               balance_interpolate (be16_at r 9) (se_bl (wd_kg0 d)) (se_bl (wd_kg17 d)) (se_bl (wd_kg34 d))) of
           (Some w1, Some w2, Some w3, Some w4) \<Rightarrow>
             Some (\<lparr>bb_tr = u16_of w1, bb_br = u16_of w2, bb_tl = u16_of w3, bb_bl = u16_of w4,
               bb_temperature = uint (r ! 11)\<rparr>, board_battery (r ! 13))
         | _ \<Rightarrow> None))"

section \<open>Wii U Pro and Classic controller\<close>

definition pro_axis :: "u8 list \<Rightarrow> nat \<Rightarrow> int" where
  "pro_axis r i = ((uint (r ! i) + 256 * uint (r ! (i + 1) AND 0x0f) - 0x800) * 512) sdiv 1280"

definition pro_battery :: "u8 \<Rightarrow> u8" where
  "pro_battery b = u8_of (min 255 (max 1 (uint (b AND 0x70) * 4 - 1)))"

definition pro_pad :: "u8 list \<Rightarrow> uni_gamepad \<Rightarrow> uni_gamepad" where
  "pro_pad r g = (let b8 = r ! 11; b9 = r ! 12; b10 = r ! 13 in g\<lparr>
     axis_x := pro_axis r 3, axis_y := - pro_axis r 7, axis_rx := pro_axis r 5, axis_ry := - pro_axis r 9,
     dpad := dpad g OR pressed_bits [(\<not> has_bits b8 0x80, DPAD_RIGHT), (\<not> has_bits b8 0x40, DPAD_DOWN),
       (\<not> has_bits b9 0x02, DPAD_LEFT), (\<not> has_bits b9 0x01, DPAD_UP)],
     buttons := buttons g OR pressed_bits [(\<not> has_bits b9 0x10, BUTTON_B), (\<not> has_bits b9 0x40, BUTTON_A),
       (\<not> has_bits b9 0x08, BUTTON_Y), (\<not> has_bits b9 0x20, BUTTON_X),
       (\<not> has_bits b9 0x80, BUTTON_TRIGGER_L), (\<not> has_bits b9 0x04, BUTTON_TRIGGER_R),
       (\<not> has_bits b8 0x20, BUTTON_SHOULDER_L), (\<not> has_bits b8 0x02, BUTTON_SHOULDER_R),
       (\<not> has_bits b10 0x02, BUTTON_THUMB_L), (\<not> has_bits b10 0x01, BUTTON_THUMB_R)],
     misc_buttons := misc_buttons g OR pressed_bits [(\<not> has_bits b8 0x08, MISC_BUTTON_SYSTEM),
       (\<not> has_bits b8 0x04, MISC_BUTTON_START), (\<not> has_bits b8 0x10, MISC_BUTTON_SELECT)]\<rparr>)"

definition process_drm_kee :: "u8 list \<Rightarrow> wii_device \<Rightarrow> wii_device option" where
  "process_drm_kee r d =
     (if wd_ext_type d = WII_EXT_BALANCE_BOARD
      then map_option (\<lambda>(b, batt). d\<lparr>wd_ctl := (wd_ctl d)\<lparr>balance_board := b, battery := max 1 batt,
          klass := CLASS_BALANCE_BOARD\<rparr>\<rparr>) (process_balance_board r d)
      else if wd_ext_type d \<noteq> WII_EXT_U_PRO_CONTROLLER then Some d
      else if length r < 14 then Some d
      else let d1 = wii_pad (pro_pad r) d
        in Some (d1\<lparr>wd_ctl := (wd_ctl d1)\<lparr>battery := pro_battery (r ! 13)\<rparr>\<rparr>))"

definition classic_rx :: "u8 list \<Rightarrow> int" where
  "classic_rx r = (uint (drop_bit 3 (r ! 1 AND 0xc0) OR drop_bit 5 (r ! 2 AND 0xc0) OR drop_bit 7 (r ! 1 AND 0x80)) - 16) *
     ((AXIS_NORMALIZE_RANGE sdiv 2) sdiv 16)"

definition classic_pad :: "u8 list \<Rightarrow> uni_gamepad \<Rightarrow> uni_gamepad" where
  "classic_pad r g = (let b0 = r ! 1; b1 = r ! 2; b2 = r ! 3; b3 = r ! 4; b4 = r ! 5; b5 = r ! 6;
       wide = (AXIS_NORMALIZE_RANGE sdiv 2) sdiv 32; narrow = (AXIS_NORMALIZE_RANGE sdiv 2) sdiv 16
     in g\<lparr>
     axis_x := (uint (b0 AND 0x3f) - 32) * wide, axis_y := - ((uint (b1 AND 0x3f) - 32) * wide),
     axis_rx := classic_rx r, axis_ry := - ((uint (b2 AND 0x1f) - 16) * narrow),
     brake := uint (drop_bit 2 (b2 AND 0x60) OR drop_bit 5 (b3 AND 0xe0)) * (AXIS_NORMALIZE_RANGE sdiv 32),
     throttle := uint (b3 AND 0x1f) * (AXIS_NORMALIZE_RANGE sdiv 32),
     dpad := dpad g OR pressed_bits [(\<not> has_bits b4 0x80, DPAD_RIGHT), (\<not> has_bits b4 0x40, DPAD_DOWN),
       (\<not> has_bits b5 0x01, DPAD_UP), (\<not> has_bits b5 0x02, DPAD_LEFT)],
     buttons := buttons g OR pressed_bits [(\<not> has_bits b5 0x40, BUTTON_A), (\<not> has_bits b5 0x10, BUTTON_B),
       (\<not> has_bits b5 0x20, BUTTON_X), (\<not> has_bits b5 0x08, BUTTON_Y),
       (\<not> has_bits b4 0x20, BUTTON_SHOULDER_L), (\<not> has_bits b4 0x02, BUTTON_SHOULDER_R),
       (\<not> has_bits b5 0x80, BUTTON_TRIGGER_L), (\<not> has_bits b5 0x04, BUTTON_TRIGGER_R)],
     misc_buttons := misc_buttons g OR pressed_bits [(\<not> has_bits b4 0x08, MISC_BUTTON_SYSTEM),
       (\<not> has_bits b4 0x04, MISC_BUTTON_START), (\<not> has_bits b4 0x10, MISC_BUTTON_SELECT)]\<rparr>)"

definition process_drm_e :: "u8 list \<Rightarrow> wii_device \<Rightarrow> wii_device" where
  "process_drm_e r d =
     (if length r < 22 then d
      else if wd_ext_type d \<noteq> WII_EXT_CLASSIC_CONTROLLER then d
      else wii_pad (classic_pad r) d)"

section \<open>The driver\<close>

definition uni_hid_parser_wii_init_report :: "wii_device \<Rightarrow> wii_device" where
  "uni_hid_parser_wii_init_report d = d\<lparr>wd_ctl := controller_zero\<lparr>klass := CLASS_GAMEPAD\<rparr>\<rparr>"

definition uni_hid_parser_wii_parse_input_report :: "u8 list \<Rightarrow> wii_device \<Rightarrow> wii_device option" where
  "uni_hid_parser_wii_parse_input_report r d =
     (if r = [] then Some d
      else if r ! 0 = 0x20 then Some (process_req_status r d)
      else if r ! 0 = WII_REPORT_TYPE_K then Some (process_drm_k r d)
      else if r ! 0 = WII_REPORT_TYPE_KA then Some (process_drm_ka r d)
      else if r ! 0 = WII_REPORT_TYPE_KE then Some (process_drm_ke r d)
      else if r ! 0 = WII_REPORT_TYPE_KAE then Some (process_drm_kae r d)
      else if r ! 0 = WII_REPORT_TYPE_KEE then process_drm_kee r d
      else if r ! 0 = WII_REPORT_TYPE_E then Some (process_drm_e r d)
      else if r ! 0 = 0x21 then Some (process_req_data r d)
      else if r ! 0 = 0x22 then process_req_return r d
      else Some d)"

datatype wii_event = WII_Report "u8 list" | WII_Leds u8 | WII_Mode wii_mode | WII_Play u16 u16
  | WII_Delayed_Fires | WII_Duration_Fires

fun wii_step :: "wii_event \<Rightarrow> wii_device \<Rightarrow> wii_device option" where
  "wii_step (WII_Report r) d = uni_hid_parser_wii_parse_input_report r (uni_hid_parser_wii_init_report d)"
| "wii_step (WII_Leds leds) d = Some (uni_hid_parser_wii_set_player_leds leds d)"
| "wii_step (WII_Mode m) d = Some (uni_hid_parser_wii_set_mode m d)"
| "wii_step (WII_Play delay duration) d = uni_hid_parser_wii_play_dual_rumble delay duration d"
| "wii_step WII_Delayed_Fires d =
     on_wii_set_rumble_on (wii_set_rumble ((wd_rumble d)\<lparr>rb_timer_delayed_start := None\<rparr>) d)"
| "wii_step WII_Duration_Fires d =
     on_wii_set_rumble_off (wii_set_rumble ((wd_rumble d)\<lparr>rb_timer_duration := None\<rparr>) d)"

section \<open>Runs\<close>

definition wii_inv :: "wii_device \<Rightarrow> bool" where
  "wii_inv d \<longleftrightarrow> (let r = wd_rumble d in
     (rb_timer_delayed_start r \<noteq> None \<longrightarrow> rb_state r = RUMBLE_DELAYED) \<and>
     (rb_timer_duration r \<noteq> None \<longleftrightarrow> rb_state r = RUMBLE_IN_PROGRESS) \<and>
     (rb_state r = RUMBLE_IN_PROGRESS \<longrightarrow> wii_motor (wd_sent d)) \<and>
     (wii_motor (wd_sent d) \<longrightarrow> rb_state r \<noteq> RUMBLE_DISABLED))"

definition board_calibrated :: "wii_device \<Rightarrow> bool" where
  "board_calibrated d \<longleftrightarrow> (let a = wd_kg17 d; b = wd_kg34 d in
     se_tr a \<noteq> se_tr b \<and> se_br a \<noteq> se_br b \<and> se_tl a \<noteq> se_tl b \<and> se_bl a \<noteq> se_bl b)"

fun wii_ok :: "wii_event \<Rightarrow> wii_device \<Rightarrow> bool" where
  "wii_ok (WII_Report r) d = ((r = [] \<or> 5 \<le> length r) \<and>
     (wd_ext_type d = WII_EXT_BALANCE_BOARD \<longrightarrow> board_calibrated d))"
| "wii_ok WII_Delayed_Fires d = (rb_timer_delayed_start (wd_rumble d) \<noteq> None)"
| "wii_ok WII_Duration_Fires d = (rb_timer_duration (wd_rumble d) \<noteq> None)"
| "wii_ok _ d = True"

lemma aside_inv: "aside d d' \<Longrightarrow> wii_inv d \<Longrightarrow> wii_inv d'"
  by (auto simp: aside_def wii_inv_def Let_def)

subsection \<open>Reports\<close>

lemma aside_pad: "aside d (wii_pad f d)"
  by (simp add: aside_same wii_pad_def)

lemma aside_init: "aside d (uni_hid_parser_wii_init_report d)"
  by (simp add: aside_same uni_hid_parser_wii_init_report_def)

lemma aside_refl: "aside d d"
  by (simp add: aside_same)

lemma aside_status: "aside d (process_req_status r d)"
  by (simp add: process_req_status_def aside_refl Let_def aside_fsm_after)

lemma aside_register: "aside d (process_req_data_read_register r d)"
  by (simp add: process_req_data_read_register_def guess_device_def guess_extension_def aside_refl Let_def
      aside_fsm_after)

lemma aside_data: "aside d (process_req_data r d)"
  by (simp add: process_req_data_def aside_refl aside_register Let_def aside_fsm aside_fsm_after
      process_req_data_read_calibration_data_def process_req_data_read_calibration_data2_def
      process_req_data_dump_eeprom_def split: wii_fsm.split)

lemma aside_return: "process_req_return r d = Some d' \<Longrightarrow> aside d d'"
  by (auto simp: process_req_return_def have_bytes_def aside_refl aside_fsm aside_fsm_after split: if_splits)

lemmas aside_answers = aside_status aside_data aside_return

lemma aside_input:
  "aside d (process_drm_k r d)" "aside d (process_drm_ka r d)" "aside d (process_drm_ke r d)"
  "aside d (process_drm_kae r d)" "aside d (process_drm_e r d)"
  "process_drm_kee r d = Some d' \<Longrightarrow> aside d d'"
  by (auto simp: process_drm_k_def process_drm_ka_def process_drm_ke_def process_drm_kae_def
      process_drm_e_def process_drm_kee_def aside_pad aside_refl Let_def wii_pad_def
      intro!: aside_same split: if_splits)

lemma aside_parse: "uni_hid_parser_wii_parse_input_report r d = Some d' \<Longrightarrow> aside d d'"
  by (auto simp: uni_hid_parser_wii_parse_input_report_def aside_answers aside_input aside_refl
      split: if_splits)

lemma interpolate_returns: "kg17 \<noteq> kg34 \<Longrightarrow> \<exists>w. balance_interpolate v kg0 kg17 kg34 = Some w"
  by (simp add: balance_interpolate_def)

lemma balance_board_returns:
  assumes "board_calibrated d" "5 \<le> length r"
  shows "process_balance_board r d \<noteq> None"
proof (cases "(int (length r) - 3) mod 65536 < 11")
  case True
  then show ?thesis by (simp add: process_balance_board_def)
next
  case False
  have "14 \<le> length r"
  proof (rule ccontr)
    assume "\<not> 14 \<le> length r"
    then have "(int (length r) - 3) mod 65536 = int (length r) - 3" using assms(2) by simp
    with False \<open>\<not> 14 \<le> length r\<close> show False by simp
  qed
  moreover have "\<exists>w. balance_interpolate v kg0 (se_tr (wd_kg17 d)) (se_tr (wd_kg34 d)) = Some w"
    "\<exists>w. balance_interpolate v kg0 (se_br (wd_kg17 d)) (se_br (wd_kg34 d)) = Some w"
    "\<exists>w. balance_interpolate v kg0 (se_tl (wd_kg17 d)) (se_tl (wd_kg34 d)) = Some w"
    "\<exists>w. balance_interpolate v kg0 (se_bl (wd_kg17 d)) (se_bl (wd_kg34 d)) = Some w" for v kg0
    using assms(1) by (intro interpolate_returns; simp add: board_calibrated_def Let_def)+
  then obtain w1 w2 w3 w4 where
    "balance_interpolate (be16_at r 3) (se_tr (wd_kg0 d)) (se_tr (wd_kg17 d)) (se_tr (wd_kg34 d)) = Some w1"
    "balance_interpolate (be16_at r 5) (se_br (wd_kg0 d)) (se_br (wd_kg17 d)) (se_br (wd_kg34 d)) = Some w2"
    "balance_interpolate (be16_at r 7) (se_tl (wd_kg0 d)) (se_tl (wd_kg17 d)) (se_tl (wd_kg34 d)) = Some w3"
    "balance_interpolate (be16_at r 9) (se_bl (wd_kg0 d)) (se_bl (wd_kg17 d)) (se_bl (wd_kg34 d)) = Some w4"
    by metis
  ultimately show ?thesis by (simp add: process_balance_board_def)
qed

lemma parse_returns:
  assumes "r = [] \<or> 5 \<le> length r" "wd_ext_type d = WII_EXT_BALANCE_BOARD \<longrightarrow> board_calibrated d"
  shows "uni_hid_parser_wii_parse_input_report r d \<noteq> None"
  using assms balance_board_returns [of d r]
  by (auto simp: uni_hid_parser_wii_parse_input_report_def process_req_return_def process_drm_kee_def Let_def)

subsection \<open>Rumble\<close>

lemma wii_play_now_inv:
  assumes "no_timers (wd_rumble d)"
    "rb_state (wd_rumble d) = RUMBLE_IN_PROGRESS \<longrightarrow> wii_motor (wd_sent d)"
    "wii_motor (wd_sent d) \<longrightarrow> rb_state (wd_rumble d) \<noteq> RUMBLE_DISABLED"
  shows "\<exists>d'. wii_play_dual_rumble_now duration d = Some d' \<and> wii_inv d'"
  using assms
  by (auto simp: wii_play_dual_rumble_now_def wii_stop_rumble_now_def rumble_arm_def start_timer_def
      no_timers_def wii_inv_def wii_set_rumble_def wii_send_def Let_def)

lemma remove_no_timers:
  assumes "wii_inv d"
  shows "no_timers (rumble_remove (wd_rumble d))"
    "rb_state (rumble_remove (wd_rumble d)) = rb_state (wd_rumble d)"
  using assms by (cases "rb_state (wd_rumble d)"; auto simp: wii_inv_def rumble_remove_def no_timers_def Let_def)+

lemma wii_play_inv:
  assumes "wii_inv d"
  shows "\<exists>d'. uni_hid_parser_wii_play_dual_rumble delay duration d = Some d' \<and> wii_inv d'"
proof (cases "wd_state d = WII_FSM_LED_UPDATED")
  case False
  with assms show ?thesis by (simp add: uni_hid_parser_wii_play_dual_rumble_def)
next
  case True
  let ?d = "wii_set_rumble (rumble_remove (wd_rumble d)) d"
  have n: "no_timers (wd_rumble ?d)" "rb_state (wd_rumble ?d) = rb_state (wd_rumble d)" "wd_sent ?d = wd_sent d"
    using remove_no_timers [OF assms] by (simp_all add: wii_set_rumble_def)
  have m: "rb_state (wd_rumble ?d) = RUMBLE_IN_PROGRESS \<longrightarrow> wii_motor (wd_sent ?d)"
    "wii_motor (wd_sent ?d) \<longrightarrow> rb_state (wd_rumble ?d) \<noteq> RUMBLE_DISABLED"
    using assms n(2,3) by (auto simp: wii_inv_def Let_def)
  show ?thesis
  proof (cases "delay = 0")
    case now: True
    with True wii_play_now_inv [OF n(1) m] show ?thesis
      by (simp add: uni_hid_parser_wii_play_dual_rumble_def)
  next
    case False
    with True n(1) show ?thesis
      by (auto simp: uni_hid_parser_wii_play_dual_rumble_def wii_rumble_delay_def start_timer_def
          no_timers_def wii_inv_def wii_set_rumble_def Let_def)
  qed
qed

lemma wii_step_inv:
  assumes "wii_inv d" "wii_ok e d"
  shows "\<exists>d'. wii_step e d = Some d' \<and> wii_inv d'"
proof (cases e)
  case (WII_Report r)
  have "uni_hid_parser_wii_parse_input_report r (uni_hid_parser_wii_init_report d) \<noteq> None"
    using assms(2) WII_Report
    by (intro parse_returns) (auto simp: uni_hid_parser_wii_init_report_def board_calibrated_def)
  then obtain d' where d': "uni_hid_parser_wii_parse_input_report r (uni_hid_parser_wii_init_report d) = Some d'"
    by blast
  from aside_inv [OF aside_trans [OF aside_init aside_parse [OF d']] assms(1)] d' WII_Report
  show ?thesis by simp
next
  case (WII_Leds l)
  have "aside d (uni_hid_parser_wii_set_player_leds l d)"
    using aside_trans [OF aside_same aside_led]
    by (auto simp: uni_hid_parser_wii_set_player_leds_def Let_def aside_same)
  with aside_inv assms(1) WII_Leds show ?thesis by auto
next
  case (WII_Mode m)
  have "aside d (uni_hid_parser_wii_set_mode m d)"
    by (auto simp: uni_hid_parser_wii_set_mode_def Let_def aside_same split: wii_mode.split)
  with aside_inv assms(1) WII_Mode show ?thesis by auto
next
  case (WII_Play delay duration)
  with wii_play_inv assms(1) show ?thesis by simp
next
  case WII_Delayed_Fires
  let ?d = "wii_set_rumble ((wd_rumble d)\<lparr>rb_timer_delayed_start := None\<rparr>) d"
  have "no_timers (wd_rumble ?d)" "rb_state (wd_rumble ?d) = RUMBLE_DELAYED"
    using assms WII_Delayed_Fires by (auto simp: wii_inv_def no_timers_def wii_set_rumble_def Let_def)
  with wii_play_now_inv [of ?d] WII_Delayed_Fires show ?thesis by (simp add: on_wii_set_rumble_on_def)
next
  case WII_Duration_Fires
  with assms show ?thesis
    by (auto simp: on_wii_set_rumble_off_def wii_stop_rumble_now_def wii_inv_def wii_set_rumble_def
        wii_send_def Let_def)
qed

interpretation wii: guarded_machine wii_step wii_ok wii_inv
  by unfold_locales (rule wii_step_inv)

section \<open>Properties\<close>

text \<open>
  no run of the Wii driver traps: from any state that keeps the rumble invariant (the one after
  setup does), whatever reports of at least five bytes, lights, modes, rumble requests and timer
  expiries follow, provided a balance board has answered with a calibration; and the motor runs only
  while the driver has a rumble in progress or delayed.
\<close>

theorem wii_never_traps:
  assumes "wii_inv d" "admissible wii_step wii_ok es d"
  shows "\<exists>d'. run_steps wii_step es d = Some d' \<and> wii_inv d' \<and>
    (wii_motor (wd_sent d') \<longrightarrow> rb_state (wd_rumble d') \<noteq> RUMBLE_DISABLED)"
  using wii.run_law [OF assms] by (auto simp: wii_inv_def Let_def)

lemma wii_setup_inv: "wd_sent d = [] \<Longrightarrow> wii_inv (uni_hid_parser_wii_setup d)"
  by (simp add: uni_hid_parser_wii_setup_def fsm_simps wii_inv_def wii_request_defs rumble_zero_def wii_motor_def)

theorem wii_never_traps_witness:
  "\<exists>d. wii_inv (uni_hid_parser_wii_setup d) \<and>
    run_steps wii_step [WII_Report [0x20, 0, 0, 0, 0, 0, 0], WII_Leds 2, WII_Play 0 100 , WII_Duration_Fires]
      (uni_hid_parser_wii_setup d) \<noteq> None"
proof -
  let ?d = "\<lparr>wd_ctl = controller_zero, wd_product_id = 0x0306, wd_subtype = CONTROLLER_SUBTYPE_NONE,
    wd_state = WII_FSM_UNINIT, wd_register_address = 0, wd_mode = WII_MODE_HORIZONTAL,
    wd_dev_type = WII_DEVTYPE_UNK, wd_ext_type = WII_EXT_NONE, wd_gamepad_seat = 0, wd_rumble = rumble_zero,
    wd_kg0 = no_sensors, wd_kg17 = no_sensors, wd_kg34 = no_sensors, wd_sent = [], wd_ready_calls = 0\<rparr>"
  let ?es = "[WII_Report [0x20, 0, 0, 0, 0, 0, 0], WII_Leds 2, WII_Play 0 100 , WII_Duration_Fires]"
  have inv: "wii_inv (uni_hid_parser_wii_setup ?d)" by (rule wii_setup_inv) simp
  have "admissible wii_step wii_ok ?es (uni_hid_parser_wii_setup ?d)"
    by (simp add: uni_hid_parser_wii_setup_def fsm_simps wii_request_defs
        uni_hid_parser_wii_init_report_def uni_hid_parser_wii_parse_input_report_def process_req_status_def
        Let_def assigned_report_def remote_report_def device_ready_def uni_hid_parser_wii_set_player_leds_def
        wii_set_led_def uni_hid_parser_wii_play_dual_rumble_def wii_play_dual_rumble_now_def
        rumble_remove_def rumble_zero_def rumble_arm_def start_timer_def wii_set_rumble_def
        on_wii_set_rumble_off_def wii_stop_rumble_now_def has_bits_def)
  from wii_never_traps [OF inv this] inv show ?thesis by blast
qed

subsection \<open>The balance board\<close>

lemma f32_int: "\<bar>m\<bar> < 2 ^ 24 \<Longrightarrow> f32 (of_int m) = of_int m"
  using f32_exact [of m 0] by simp

lemma trunc_int [simp]: "trunc (of_int n) = n"
  by (simp add: trunc_def)

lemma trunc_mono: "0 \<le> x \<Longrightarrow> x \<le> y \<Longrightarrow> 0 \<le> trunc x \<and> trunc x \<le> trunc y"
  by (simp add: trunc_def floor_mono)

text \<open>Seventeen kilograms times the share \<open>a / b\<close>, as the code computes it.\<close>

definition kg17_share :: "int \<Rightarrow> int \<Rightarrow> rat" where
  "kg17_share a b = f_div (f_mul 17 (f_of_int a)) (f_of_int b)"

lemma kg17_share_bounds:
  assumes "0 \<le> a" "a \<le> c" "0 < b" "c \<le> 65535" "b \<le> 65535"
  shows "0 \<le> kg17_share a b" "kg17_share a b \<le> kg17_share c b" "kg17_share 0 b = 0" "kg17_share b b = 17"
proof -
  have e: "kg17_share x b = f32 (of_int (17 * x) / of_int b)" if "0 \<le> x" "x \<le> 65535" for x
    using f32_int [of "17 * x"] that assms(3,5)
    by (simp add: kg17_share_def f_div_def f_mul_def f_of_int_exact)
  have "(of_int (17 * a) / of_int b :: rat) \<le> of_int (17 * c) / of_int b"
    using assms by (simp add: divide_right_mono)
  from f32_mono [OF this] show "kg17_share a b \<le> kg17_share c b" using assms by (simp add: e)
  show "0 \<le> kg17_share a b" using assms e [of a] by (simp add: f32.nonneg)
  show "kg17_share 0 b = 0" using e [of 0] f32.zero by simp
  show "kg17_share b b = 17" using e [of b] f32_int [of 17] assms by simp
qed

lemma interpolate_low:
  "kg0 \<le> v \<Longrightarrow> v < kg17 \<Longrightarrow> balance_interpolate v kg0 kg17 kg34 =
     Some (trunc (f_mul (kg17_share (v - kg0) (kg17 - kg0)) 1000))"
  by (simp add: balance_interpolate_def kg17_share_def)

lemma interpolate_high:
  "kg0 \<le> kg17 \<Longrightarrow> kg17 \<le> v \<Longrightarrow> kg17 \<noteq> kg34 \<Longrightarrow> balance_interpolate v kg0 kg17 kg34 =
     Some (trunc (f_mul (f_add 17 (kg17_share (v - kg17) (kg34 - kg17))) 1000))"
  by (simp add: balance_interpolate_def kg17_share_def)

lemma grams_mono: "0 \<le> x \<Longrightarrow> x \<le> y \<Longrightarrow> 0 \<le> trunc (f_mul x 1000) \<and> trunc (f_mul x 1000) \<le> trunc (f_mul y 1000)"
  using f32.nonneg [of "x * 1000"] f32_mono [of "x * 1000" "y * 1000"]
  by (intro trunc_mono) (simp_all add: f_mul_def)

lemma grams_int: "\<bar>m\<bar> < 16000 \<Longrightarrow> trunc (f_mul (of_int m) 1000) = 1000 * m"
  using f32_int [of "m * 1000"] trunc_int [of "m * 1000"] by (simp add: f_mul_def)

lemma add17_mono: "0 \<le> x \<Longrightarrow> x \<le> y \<Longrightarrow> 17 \<le> f_add 17 x \<and> f_add 17 x \<le> f_add 17 y"
  using f32_mono [of 17 "17 + x"] f32_mono [of "17 + x" "17 + y"] f32_int [of 17] by (simp add: f_add_def)

text \<open>The two pieces of the interpolation, in grams.\<close>

lemma low_piece:
  assumes "0 \<le> kg0" "kg0 < kg17" "kg17 \<le> 65535" "kg0 \<le> x" "x \<le> y" "y \<le> kg17"
  defines "g \<equiv> \<lambda>x. trunc (f_mul (kg17_share (x - kg0) (kg17 - kg0)) 1000)"
  shows "0 \<le> g x" "g x \<le> g y" "g y \<le> 17000"
proof -
  have lo: "0 \<le> kg17_share (x - kg0) (kg17 - kg0)"
    "kg17_share (x - kg0) (kg17 - kg0) \<le> kg17_share (y - kg0) (kg17 - kg0)"
    "0 \<le> kg17_share (y - kg0) (kg17 - kg0)" "kg17_share (y - kg0) (kg17 - kg0) \<le> 17"
    using kg17_share_bounds [of "x - kg0" "y - kg0" "kg17 - kg0"]
      kg17_share_bounds [of "y - kg0" "kg17 - kg0" "kg17 - kg0"] assms(1-6) by auto
  show "0 \<le> g x" "g x \<le> g y" "g y \<le> 17000"
    using grams_mono [OF lo(1,2)] grams_mono [OF lo(3,4)] grams_int [of 17] by (simp_all add: g_def)
qed

lemma high_piece:
  assumes "0 \<le> kg17" "kg17 < kg34" "kg34 \<le> 65535" "kg17 \<le> x" "x \<le> y" "y \<le> 65535"
  defines "g \<equiv> \<lambda>x. trunc (f_mul (f_add 17 (kg17_share (x - kg17) (kg34 - kg17))) 1000)"
  shows "17000 \<le> g x" "g x \<le> g y"
proof -
  have sh: "0 \<le> kg17_share (x - kg17) (kg34 - kg17)"
    "kg17_share (x - kg17) (kg34 - kg17) \<le> kg17_share (y - kg17) (kg34 - kg17)"
    using kg17_share_bounds [of "x - kg17" "y - kg17" "kg34 - kg17"] assms(1-6) by auto
  note hi = add17_mono [OF sh]
  have "0 \<le> f_add 17 (kg17_share (x - kg17) (kg34 - kg17))" using hi by linarith
  then show "17000 \<le> g x" "g x \<le> g y"
    using hi grams_mono [of 17 "f_add 17 (kg17_share (x - kg17) (kg34 - kg17))"] grams_int [of 17]
      grams_mono [of "f_add 17 (kg17_share (x - kg17) (kg34 - kg17))"
        "f_add 17 (kg17_share (y - kg17) (kg34 - kg17))"]
    by (simp_all add: g_def)
qed

lemma calibration_points:
  assumes "0 \<le> kg0" "kg0 < kg17" "kg17 < kg34" "kg34 \<le> 65535"
  shows "balance_interpolate kg0 kg0 kg17 kg34 = Some 0"
    "balance_interpolate kg17 kg0 kg17 kg34 = Some 17000"
    "balance_interpolate kg34 kg0 kg17 kg34 = Some 34000"
  using kg17_share_bounds(3) [of 0 0 "kg17 - kg0"] kg17_share_bounds(3,4) [of 0 0 "kg34 - kg17"]
    grams_int [of 0] grams_int [of 17] grams_int [of 34] f32_int [of 17] f32_int [of 34] assms
  by (simp_all add: interpolate_low interpolate_high f_add_def)

lemma weight_side:
  assumes "0 \<le> kg0" "kg0 < kg17" "kg17 < kg34" "kg34 \<le> 65535" "x \<le> 65535"
  shows "\<exists>w. balance_interpolate x kg0 kg17 kg34 = Some w \<and> 0 \<le> w \<and> (x < kg17 \<longrightarrow> w \<le> 17000) \<and>
    (kg17 \<le> x \<longrightarrow> 17000 \<le> w)"
proof -
  consider "x < kg0" | "kg0 \<le> x" "x < kg17" | "kg17 \<le> x" by linarith
  then show ?thesis
  proof cases
    case 1
    with assms show ?thesis by (simp add: balance_interpolate_def)
  next
    case 2
    with low_piece [of kg0 kg17 x x] assms show ?thesis by (simp add: interpolate_low)
  next
    case 3
    with high_piece [of kg17 kg34 x x] assms show ?thesis by (simp add: interpolate_high)
  qed
qed

text \<open>
  C35: the weight on a sensor of the balance board, computed in binary32 as the code does, is 0, 17 and
  34 kg exactly at the three calibration points, never negative, and never falls when the reading rises,
  across the three pieces of the interpolation and beyond the last point.
\<close>

theorem balance_weight_correct:
  assumes "0 \<le> kg0" "kg0 < kg17" "kg17 < kg34" "kg34 \<le> 65535" "v \<le> v'" "v' \<le> 65535"
  shows "balance_interpolate kg0 kg0 kg17 kg34 = Some 0 \<and>
    balance_interpolate kg17 kg0 kg17 kg34 = Some 17000 \<and>
    balance_interpolate kg34 kg0 kg17 kg34 = Some 34000 \<and>
    (\<exists>w w'. balance_interpolate v kg0 kg17 kg34 = Some w \<and> balance_interpolate v' kg0 kg17 kg34 = Some w' \<and>
      0 \<le> w \<and> w \<le> w')"
proof -
  have "\<exists>w w'. balance_interpolate v kg0 kg17 kg34 = Some w \<and> balance_interpolate v' kg0 kg17 kg34 = Some w' \<and>
      0 \<le> w \<and> w \<le> w'"
  proof -
    consider "v < kg0" | "kg0 \<le> v" "v' < kg17" | "v < kg17" "kg17 \<le> v'" | "kg17 \<le> v" by linarith
    then show ?thesis
    proof cases
      case 1
      with weight_side [of kg0 kg17 kg34 v'] assms show ?thesis by (auto simp: balance_interpolate_def [of v])
    next
      case 2
      with low_piece [of kg0 kg17 v v'] assms show ?thesis by (simp add: interpolate_low)
    next
      case 3
      with weight_side [of kg0 kg17 kg34 v] weight_side [of kg0 kg17 kg34 v'] assms show ?thesis by fastforce
    next
      case 4
      with high_piece [of kg17 kg34 v v'] assms show ?thesis by (simp add: interpolate_high)
    qed
  qed
  with calibration_points assms show ?thesis by blast
qed

theorem balance_weight_correct_witness:
  "balance_interpolate 3400 0 1700 3400 = Some 34000 \<and>
    (\<exists>w w'. balance_interpolate 100 0 1700 3400 = Some w \<and> balance_interpolate 2000 0 1700 3400 = Some w' \<and> w \<le> w')"
  using balance_weight_correct [of 0 1700 3400 100 2000] by auto

text \<open>Without an answer to the request for the calibration, the board divides zero by zero.\<close>

theorem uncalibrated_board_traps:
  assumes "kg34 = kg17" "kg0 \<le> v" "kg17 \<le> v"
  shows "balance_interpolate v kg0 kg17 kg34 = None"
  using assms by (simp add: balance_interpolate_def)

text \<open>A weight above 65.5 kg on one sensor does not fit the 16 bits that hold it.\<close>

theorem heavy_weight_wraps:
  "balance_interpolate 6800 0 1700 3400 = Some 68000 \<and> u16_of 68000 = 2464"
proof -
  have "kg17_share 5100 1700 = 51"
    using f32_int [of 86700] f32_int [of 51]
    by (simp add: kg17_share_def f_div_def f_mul_def f_of_int_exact)
  then show ?thesis using grams_int [of 68] f32_int [of 68]
    by (simp add: interpolate_high f_add_def u16_of_def)
qed

subsection \<open>Rumble that stays on\<close>

text \<open>
  A request that delays the start while a rumble runs takes the running one's timer away, but neither
  silences the motor nor remembers it; cancelling it, or a delayed request of duration zero, then leaves
  the motor on with no timer left to stop it.
\<close>

theorem wii_cancelled_delay_strands_rumble:
  assumes "wii_inv d" "wd_state d = WII_FSM_LED_UPDATED" "rb_state (wd_rumble d) = RUMBLE_IN_PROGRESS"
    "delay \<noteq> 0"
  shows "\<exists>d'. run_steps wii_step [WII_Play delay duration, WII_Play 0 0] d = Some d' \<and>
    wii_motor (wd_sent d') \<and> no_timers (wd_rumble d')"
  using assms
  by (auto simp: wii_inv_def Let_def uni_hid_parser_wii_play_dual_rumble_def wii_rumble_delay_def
      start_timer_def rumble_remove_def wii_set_rumble_def wii_play_dual_rumble_now_def no_timers_def)

text \<open>A rumble that is not interrupted ends with its timer.\<close>

theorem wii_rumble_ends:
  assumes "wii_inv d" "rb_state (wd_rumble d) = RUMBLE_IN_PROGRESS"
  shows "\<exists>d'. wii_step WII_Duration_Fires d = Some d' \<and> \<not> wii_motor (wd_sent d') \<and>
    rb_state (wd_rumble d') = RUMBLE_DISABLED \<and> no_timers (wd_rumble d')"
  using assms
  by (auto simp: on_wii_set_rumble_off_def wii_stop_rumble_now_def wii_inv_def wii_set_rumble_def
      wii_send_def no_timers_def Let_def)

subsection \<open>Setup\<close>

text \<open>The answers of a device: its status, and that a register was written.\<close>

definition status_report :: "u8 list \<Rightarrow> bool \<Rightarrow> bool" where
  "status_report r ext \<longleftrightarrow> 7 \<le> length r \<and> r ! 0 = 0x20 \<and> has_bits (r ! 3 AND 0x0f) 0x02 = ext"

definition write_ok :: "u8 list \<Rightarrow> bool" where
  "write_ok r \<longleftrightarrow> 5 \<le> length r \<and> r ! 0 = 0x22 \<and> r ! 3 = 0x16 \<and> r ! 4 = 0"

definition write_failed :: "u8 list \<Rightarrow> bool" where
  "write_failed r \<longleftrightarrow> 5 \<le> length r \<and> r ! 0 = 0x22 \<and> r ! 3 = 0x16 \<and> r ! 4 \<noteq> 0"

definition id_report :: "u8 list \<Rightarrow> u8 \<Rightarrow> u8 \<Rightarrow> bool" where
  "id_report r a b \<longleftrightarrow> 22 \<le> length r \<and> r ! 0 = 0x21 \<and> r ! 3 = 0x50 \<and> r ! 4 = 0x00 \<and> r ! 5 = 0xfa \<and>
     r ! 10 = a \<and> r ! 11 = b"

text \<open>The packets of the setup: the request of the status, a byte written to a control register, bytes read.\<close>

definition ask_status :: "u8 list" where
  "ask_status = [0xa2, 0x15, 0x00]"

definition write_packet :: "u8 \<Rightarrow> u8 \<Rightarrow> u8 \<Rightarrow> u8 list" where
  "write_packet bank offset b = [0xa2, 0x16, 0x04, bank, 0x00, offset, 0x01, b] @ replicate 15 0"

definition read_packet :: "u8 \<Rightarrow> u8 \<Rightarrow> u8 \<Rightarrow> u8 list" where
  "read_packet bank offset n = [0xa2, 0x17, 0x04, bank, 0x00, offset, 0x00, n]"

definition player_light :: "wii_device \<Rightarrow> u8" where
  "player_light d = or_if (rb_state (wd_rumble d) = RUMBLE_IN_PROGRESS) 0x01
     (or_if (wd_mode d = WII_MODE_ACCEL) 0x40 (or_if (wd_mode d = WII_MODE_VERTICAL) 0x80 (push_bit 4 (wd_gamepad_seat d))))"

text \<open>What a device that is ready was asked last: the reports of its kind, and its light.\<close>

definition ready_packets :: "wii_device \<Rightarrow> u8 list list" where
  "ready_packets d = [[0xa2, 0x12, 0x00, fst (assigned_report d)], [0xa2, 0x11, player_light d]]"

lemma guessed_ready:
  assumes "wd_state d = WII_FSM_DEV_GUESSED"
  shows "wd_state (wii_process_fsm d) = WII_FSM_LED_UPDATED" "wd_ready_calls (wii_process_fsm d) = Suc (wd_ready_calls d)"
    "wd_ext_type (wii_process_fsm d) = wd_ext_type d" "wd_product_id (wii_process_fsm d) = wd_product_id d"
    "wd_register_address (wii_process_fsm d) = wd_register_address d"
    "wd_kg0 (wii_process_fsm d) = wd_kg0 d" "wd_kg17 (wii_process_fsm d) = wd_kg17 d" "wd_kg34 (wii_process_fsm d) = wd_kg34 d"
    "wd_sent (wii_process_fsm d) = wd_sent d @ ready_packets (wii_process_fsm d)"
  unfolding fsm_guessed [OF assms] device_ready_def wii_set_led_def Let_def wii_send_def
    uni_hid_parser_wii_request_report_type_def ready_packets_def player_light_def
  by (simp_all add: assigned_report_def)

lemmas packet_defs = write_packet_def read_packet_def
lemmas setup_simps = fsm_asks guessed_ready wii_request_defs packet_defs

lemma status_step:
  assumes "status_report r ext" "wd_state d = WII_FSM_DID_REQ_STATUS" "ext \<or> wd_product_id d \<in> {0x0306, 0x0330}"
  shows "\<exists>d'. wii_step (WII_Report r) d = Some d' \<and> wd_product_id d' = wd_product_id d \<and>
    wd_register_address d' = wd_register_address d \<and>
    wd_ext_type d' = (if ext then WII_EXT_UNK else WII_EXT_NONE) \<and>
    wd_state d' = (if ext then WII_FSM_EXT_DID_INIT else WII_FSM_LED_UPDATED) \<and>
    wd_ready_calls d' = (if ext then wd_ready_calls d else Suc (wd_ready_calls d)) \<and>
    wd_sent d' = wd_sent d @ (if ext then [write_packet (wd_register_address d) 0xf0 0x55] else ready_packets d')"
  using assms
  by (auto simp: status_report_def uni_hid_parser_wii_init_report_def uni_hid_parser_wii_parse_input_report_def
      process_req_status_def Let_def setup_simps)

lemma write_ok_step:
  assumes "write_ok r"
  shows "wii_step (WII_Report r) d = Some (wii_process_fsm (uni_hid_parser_wii_init_report d))"
  using assms by (auto simp: write_ok_def uni_hid_parser_wii_parse_input_report_def process_req_return_def)

lemma write_failed_step:
  assumes "write_failed r" "wd_register_address d \<noteq> 0xa6"
  shows "\<exists>d'. wii_step (WII_Report r) d = Some d' \<and> wd_state d' = WII_FSM_EXT_DID_INIT \<and>
    wd_product_id d' = wd_product_id d \<and> wd_register_address d' = 0xa6 \<and> wd_ext_type d' = wd_ext_type d \<and>
    wd_ready_calls d' = wd_ready_calls d \<and> wd_sent d' = wd_sent d @ [write_packet 0xa6 0xf0 0x55]"
  using assms
  by (auto simp: write_failed_def uni_hid_parser_wii_parse_input_report_def process_req_return_def
      uni_hid_parser_wii_init_report_def fsm_simps wii_request_defs packet_defs)

definition extension_of :: "u8 \<Rightarrow> u8 \<Rightarrow> wii_exttype" where
  "extension_of a b = (if (a, b) = (0, 0) then WII_EXT_NUNCHUK
     else if (a, b) = (0x01, 0x01) then WII_EXT_CLASSIC_CONTROLLER
     else if (a, b) = (0x01, 0x12) then WII_EXT_UDRAW_TABLET
     else if (a, b) = (0x01, 0x20) then WII_EXT_U_PRO_CONTROLLER
     else if (a, b) = (0x04, 0x02) then WII_EXT_BALANCE_BOARD else WII_EXT_UNK)"

definition calibration_report :: "u8 list \<Rightarrow> u8 \<Rightarrow> u8 \<Rightarrow> bool" where
  "calibration_report r se offset \<longleftrightarrow> 22 \<le> length r \<and> r ! 0 = 0x21 \<and> r ! 3 = se \<and> r ! 4 = 0x00 \<and> r ! 5 = offset"

lemmas answer_defs = uni_hid_parser_wii_init_report_def uni_hid_parser_wii_parse_input_report_def process_req_data_def
  process_req_data_read_calibration_data_def process_req_data_read_calibration_data2_def

lemma kinds_keep [simp]:
  "wd_ready_calls (guess_extension r (guess_device r d)) = wd_ready_calls d"
  "wd_register_address (guess_extension r (guess_device r d)) = wd_register_address d"
  "wd_sent (guess_extension r (guess_device r d)) = wd_sent d"
  by (simp_all add: guess_extension_def guess_device_def)

lemma guess_ext:
  "wd_ext_type d = WII_EXT_UNK \<Longrightarrow> wd_ext_type (guess_extension r (guess_device r d)) = extension_of (r ! 10) (r ! 11)"
  by (auto simp: guess_extension_def guess_device_def extension_of_def)

lemma extension_board: "extension_of a b = WII_EXT_BALANCE_BOARD \<longleftrightarrow> (a, b) = (0x04, 0x02)"
  by (auto simp: extension_of_def)

lemma id_report_answer:
  assumes "id_report r a b" "wd_state d = WII_FSM_EXT_DID_READ_REGISTER" "wd_ext_type d = WII_EXT_UNK"
  shows "\<exists>d1. wii_step (WII_Report r) d = Some (wii_process_fsm (d1\<lparr>wd_state := (if (a, b) = (0x04, 0x02)
      then WII_FSM_BALANCE_BOARD_READ_CALIBRATION else WII_FSM_DEV_GUESSED)\<rparr>)) \<and>
    wd_ext_type d1 = extension_of a b \<and> wd_ready_calls d1 = wd_ready_calls d \<and>
    wd_register_address d1 = wd_register_address d \<and> wd_sent d1 = wd_sent d"
proof -
  let ?c = "uni_hid_parser_wii_init_report d"
  let ?d1 = "guess_extension r (guess_device r ?c)"
  have c: "wd_state ?c = WII_FSM_EXT_DID_READ_REGISTER" "wd_ext_type ?c = WII_EXT_UNK" "wd_ready_calls ?c = wd_ready_calls d"
    "wd_register_address ?c = wd_register_address d" "wd_sent ?c = wd_sent d"
    using assms(2,3) by (simp_all add: uni_hid_parser_wii_init_report_def)
  have e: "wd_ext_type ?d1 = extension_of a b" using guess_ext [OF c(2), of r] assms(1) by (simp add: id_report_def)
  have "wii_step (WII_Report r) d = Some (process_req_data_read_register r ?c)"
    using assms(1) c(1) by (auto simp: id_report_def uni_hid_parser_wii_parse_input_report_def process_req_data_def)
  moreover have "process_req_data_read_register r ?c = wii_process_fsm (?d1\<lparr>wd_state := (if (a, b) = (0x04, 0x02)
      then WII_FSM_BALANCE_BOARD_READ_CALIBRATION else WII_FSM_DEV_GUESSED)\<rparr>)"
    using assms(1) extension_board [of a b] by (simp add: process_req_data_read_register_def id_report_def Let_def e)
  ultimately show ?thesis using e c(3-5) by (intro exI [of _ ?d1]) simp
qed

lemma id_step:
  assumes "id_report r a b" "wd_state d = WII_FSM_EXT_DID_READ_REGISTER" "wd_ext_type d = WII_EXT_UNK"
    "(a, b) \<noteq> (0x04, 0x02)"
  shows "\<exists>d'. wii_step (WII_Report r) d = Some d' \<and> wd_state d' = WII_FSM_LED_UPDATED \<and>
    wd_ext_type d' = extension_of a b \<and> wd_ready_calls d' = Suc (wd_ready_calls d) \<and>
    wd_sent d' = wd_sent d @ ready_packets d'"
proof -
  from id_report_answer [OF assms(1-3)] assms(4) obtain d1 where
    d1: "wii_step (WII_Report r) d = Some (wii_process_fsm (d1\<lparr>wd_state := WII_FSM_DEV_GUESSED\<rparr>))"
      "wd_ext_type d1 = extension_of a b" "wd_ready_calls d1 = wd_ready_calls d" "wd_sent d1 = wd_sent d"
    unfolding if_not_P [OF assms(4)] by blast
  have "wd_state (d1\<lparr>wd_state := WII_FSM_DEV_GUESSED\<rparr>) = WII_FSM_DEV_GUESSED" by simp
  note g = guessed_ready [OF this]
  from d1 g(1-3) g(9) show ?thesis by (intro exI conjI) (assumption | simp del: wii_step.simps)+
qed

lemma board_step:
  assumes "id_report r 0x04 0x02" "wd_state d = WII_FSM_EXT_DID_READ_REGISTER" "wd_ext_type d = WII_EXT_UNK"
  shows "\<exists>d'. wii_step (WII_Report r) d = Some d' \<and> wd_state d' = WII_FSM_BALANCE_BOARD_DID_READ_CALIBRATION \<and>
    wd_ext_type d' = WII_EXT_BALANCE_BOARD \<and> wd_ready_calls d' = wd_ready_calls d \<and>
    wd_register_address d' = wd_register_address d \<and>
    wd_sent d' = wd_sent d @ [read_packet (wd_register_address d) 0x24 16]"
proof -
  from id_report_answer [OF assms] obtain d1 where
    d1: "wii_step (WII_Report r) d = Some (wii_process_fsm (d1\<lparr>wd_state := WII_FSM_BALANCE_BOARD_READ_CALIBRATION\<rparr>))"
      "wd_ext_type d1 = extension_of 0x04 0x02" "wd_ready_calls d1 = wd_ready_calls d"
      "wd_register_address d1 = wd_register_address d" "wd_sent d1 = wd_sent d"
    by auto
  then show ?thesis by (simp add: fsm_asks wii_request_defs packet_defs extension_board del: wii_step.simps)
qed

lemma first_calibration_step:
  assumes "calibration_report r 0xf0 0x24" "wd_state d = WII_FSM_BALANCE_BOARD_DID_READ_CALIBRATION"
  shows "\<exists>d'. wii_step (WII_Report r) d = Some d' \<and> wd_state d' = WII_FSM_BALANCE_BOARD_DID_READ_CALIBRATION2 \<and>
    wd_ext_type d' = wd_ext_type d \<and> wd_ready_calls d' = wd_ready_calls d \<and>
    wd_kg0 d' = sensors_at r 6 \<and> wd_kg17 d' = sensors_at r 14 \<and>
    wd_sent d' = wd_sent d @ [read_packet (wd_register_address d) 0x34 8]"
  using assms
  by (auto simp: calibration_report_def answer_defs Let_def setup_simps)

lemma second_calibration_step:
  assumes "calibration_report r 0x70 0x34" "wd_state d = WII_FSM_BALANCE_BOARD_DID_READ_CALIBRATION2"
  shows "\<exists>d'. wii_step (WII_Report r) d = Some d' \<and> wd_state d' = WII_FSM_LED_UPDATED \<and>
    wd_ext_type d' = wd_ext_type d \<and> wd_ready_calls d' = Suc (wd_ready_calls d) \<and>
    wd_kg0 d' = wd_kg0 d \<and> wd_kg17 d' = wd_kg17 d \<and> wd_kg34 d' = sensors_at r 6 \<and>
    wd_sent d' = wd_sent d @ ready_packets d'"
  using assms
  by (auto simp: calibration_report_def answer_defs Let_def setup_simps)

text \<open>From the identification on.\<close>

lemma device_identified:
  assumes ids: "id_report r a b" and d: "wd_state d = WII_FSM_EXT_DID_READ_REGISTER" "wd_ext_type d = WII_EXT_UNK"
    and cal: "calibration_report c1 0xf0 0x24" "calibration_report c2 0x70 0x34"
  shows "\<exists>d'. run_steps wii_step (map WII_Report (r # (if (a, b) = (0x04, 0x02) then [c1, c2] else []))) d = Some d' \<and>
    wd_state d' = WII_FSM_LED_UPDATED \<and> wd_ready_calls d' = Suc (wd_ready_calls d) \<and> wd_ext_type d' = extension_of a b \<and>
    wd_sent d' = wd_sent d @ (if (a, b) = (0x04, 0x02)
      then [read_packet (wd_register_address d) 0x24 16, read_packet (wd_register_address d) 0x34 8] else []) @ ready_packets d' \<and>
    ((a, b) = (0x04, 0x02) \<longrightarrow> wd_kg0 d' = sensors_at c1 6 \<and> wd_kg17 d' = sensors_at c1 14 \<and> wd_kg34 d' = sensors_at c2 6)"
proof (cases "(a, b) = (0x04, 0x02)")
  case False
  from id_step [OF ids d False] obtain d' where "wii_step (WII_Report r) d = Some d'" "wd_state d' = WII_FSM_LED_UPDATED"
    "wd_ext_type d' = extension_of a b" "wd_ready_calls d' = Suc (wd_ready_calls d)" "wd_sent d' = wd_sent d @ ready_packets d'"
    by blast
  then show ?thesis unfolding if_not_P [OF False] using False by (simp del: wii_step.simps prod.inject)
next
  case True
  then have "id_report r 0x04 0x02" using ids by simp
  from board_step [OF this d] obtain d1 where d1: "wii_step (WII_Report r) d = Some d1"
    "wd_state d1 = WII_FSM_BALANCE_BOARD_DID_READ_CALIBRATION" "wd_ext_type d1 = WII_EXT_BALANCE_BOARD"
    "wd_ready_calls d1 = wd_ready_calls d" "wd_register_address d1 = wd_register_address d"
    "wd_sent d1 = wd_sent d @ [read_packet (wd_register_address d) 0x24 16]" by blast
  from first_calibration_step [OF cal(1) d1(2)] obtain d2 where d2: "wii_step (WII_Report c1) d1 = Some d2"
    "wd_state d2 = WII_FSM_BALANCE_BOARD_DID_READ_CALIBRATION2" "wd_ext_type d2 = wd_ext_type d1"
    "wd_ready_calls d2 = wd_ready_calls d1" "wd_kg0 d2 = sensors_at c1 6" "wd_kg17 d2 = sensors_at c1 14"
    "wd_sent d2 = wd_sent d1 @ [read_packet (wd_register_address d1) 0x34 8]" by blast
  from second_calibration_step [OF cal(2) d2(2)] obtain d3 where d3: "wii_step (WII_Report c2) d2 = Some d3"
    "wd_state d3 = WII_FSM_LED_UPDATED" "wd_ext_type d3 = wd_ext_type d2" "wd_ready_calls d3 = Suc (wd_ready_calls d2)"
    "wd_kg0 d3 = wd_kg0 d2" "wd_kg17 d3 = wd_kg17 d2" "wd_kg34 d3 = sensors_at c2 6" "wd_sent d3 = wd_sent d2 @ ready_packets d3"
    by blast
  have "run_steps wii_step (map WII_Report [r, c1, c2]) d = Some d3"
    by (simp only: list.map run_steps.simps d1(1) d2(1) d3(1) option.case)
  moreover have "extension_of a b = WII_EXT_BALANCE_BOARD" using True by (simp add: extension_of_def)
  ultimately show ?thesis using True d1(3-) d2(3-) d3(2-) by (simp del: wii_step.simps run_steps.simps)
qed

text \<open>The writes of the set-up: the first to one bank or, after its refusal, to the other, and the second.\<close>

lemma registers_written:
  assumes fs: "length fs \<le> 1" "\<forall>f \<in> set fs. write_failed f" and ws: "write_ok w1" "write_ok w2"
    and d: "wd_state d = WII_FSM_EXT_DID_INIT" "wd_ext_type d = WII_EXT_UNK" "wd_register_address d = 0xa4"
    and bank: "bank = (if fs = [] then 0xa4 else 0xa6)"
  shows "\<exists>d'. run_steps wii_step (map WII_Report (fs @ [w1, w2])) d = Some d' \<and>
    wd_state d' = WII_FSM_EXT_DID_READ_REGISTER \<and> wd_ext_type d' = WII_EXT_UNK \<and>
    wd_ready_calls d' = wd_ready_calls d \<and> wd_register_address d' = bank \<and>
    wd_sent d' = wd_sent d @ (if fs = [] then [] else [write_packet 0xa6 0xf0 0x55]) @
      [write_packet bank 0xfb 0x00, read_packet bank 0xfa 6]"
proof -
  obtain d2 where d2: "run_steps wii_step (map WII_Report fs) d = Some d2"
      "wd_ext_type d2 = WII_EXT_UNK" "wd_state d2 = WII_FSM_EXT_DID_INIT" "wd_ready_calls d2 = wd_ready_calls d"
      "wd_register_address d2 = bank" "wd_sent d2 = wd_sent d @ (if fs = [] then [] else [write_packet 0xa6 0xf0 0x55])"
  proof (cases fs)
    case Nil
    with d that show ?thesis by (simp add: bank)
  next
    case (Cons f fs')
    with fs have f: "write_failed f" "fs = [f]" by auto
    have "wd_register_address d \<noteq> 0xa6" using d(3) by simp
    from write_failed_step [OF f(1) this] f(2) d that show ?thesis by (auto simp: bank simp del: wii_step.simps)
  qed
  let ?d3 = "wii_process_fsm (uni_hid_parser_wii_init_report d2)"
  let ?d4 = "wii_process_fsm (uni_hid_parser_wii_init_report ?d3)"
  have "wd_state ?d4 = WII_FSM_EXT_DID_READ_REGISTER" "wd_ext_type ?d4 = WII_EXT_UNK"
      "wd_ready_calls ?d4 = wd_ready_calls d" "wd_register_address ?d4 = bank"
      "wd_sent ?d4 = wd_sent d2 @ [write_packet bank 0xfb 0x00, read_packet bank 0xfa 6]"
    using d2 by (simp_all add: uni_hid_parser_wii_init_report_def fsm_simps wii_request_defs write_packet_def read_packet_def)
  moreover have "run_steps wii_step (map WII_Report (fs @ [w1, w2])) d = Some ?d4"
    using d2(1) by (simp only: map_append list.map run_steps_append run_steps.simps write_ok_step [OF ws(1)]
      write_ok_step [OF ws(2)] option.case)
  ultimately show ?thesis using d2(6) by (intro exI [of _ ?d4]) simp
qed

text \<open>
  C33: a Wii device comes up. A remote (product 0x0306 or 0x0330) without an extension is declared ready
  by its first status report. With an extension, the driver writes two registers of bank 0xa4, or of
  bank 0xa6 from the start after bank 0xa4 has refused the first write (\<open>fs\<close>, at most one refusal), reads
  the identification from the same bank and recognises Nunchuk, Classic controller, drawing tablet,
  Wii U Pro controller and balance board from its two last bytes; of a balance board it also reads and keeps the
  calibration. Exactly these requests are sent, then the one for the reports of its kind and its
  light; the device is declared ready exactly once, in the last state.
\<close>

theorem wii_setup_completes:
  assumes st: "status_report st ext" and product: "ext \<or> wd_product_id d \<in> {0x0306, 0x0330}"
    and fs: "length fs \<le> 1" "\<forall>f \<in> set fs. write_failed f"
    and ws: "write_ok w1" "write_ok w2" and ids: "id_report r a b"
    and cal: "calibration_report c1 0xf0 0x24" "calibration_report c2 0x70 0x34"
    and bank: "bank = (if fs = [] then 0xa4 else 0xa6)" and board: "board \<longleftrightarrow> (a, b) = (0x04, 0x02)"
  shows "\<exists>d'. run_steps wii_step (map WII_Report (if ext then st # fs @ [w1, w2] @ r # (if board then [c1, c2] else []) else [st]))
      (uni_hid_parser_wii_setup d) = Some d' \<and>
    wd_state d' = WII_FSM_LED_UPDATED \<and> wd_ready_calls d' = Suc (wd_ready_calls d) \<and>
    wd_ext_type d' = (if ext then extension_of a b else WII_EXT_NONE) \<and>
    wd_sent d' = wd_sent d @ ask_status #
      (if ext then write_packet 0xa4 0xf0 0x55 # (if fs = [] then [] else [write_packet 0xa6 0xf0 0x55]) @
         [write_packet bank 0xfb 0x00, read_packet bank 0xfa 6] @
         (if board then [read_packet bank 0x24 16, read_packet bank 0x34 8] else []) else []) @ ready_packets d' \<and>
    (ext \<and> board \<longrightarrow> wd_kg0 d' = sensors_at c1 6 \<and> wd_kg17 d' = sensors_at c1 14 \<and> wd_kg34 d' = sensors_at c2 6)"
proof -
  let ?d = "uni_hid_parser_wii_setup d"
  have s: "wd_state ?d = WII_FSM_DID_REQ_STATUS" "wd_product_id ?d = wd_product_id d"
    "wd_ready_calls ?d = wd_ready_calls d" "wd_register_address ?d = 0xa4" "wd_sent ?d = wd_sent d @ [ask_status]"
    by (simp_all add: uni_hid_parser_wii_setup_def fsm_simps wii_request_defs ask_status_def)
  obtain d1 where d1: "wii_step (WII_Report st) ?d = Some d1" "wd_register_address d1 = 0xa4"
      "wd_ext_type d1 = (if ext then WII_EXT_UNK else WII_EXT_NONE)"
      "wd_state d1 = (if ext then WII_FSM_EXT_DID_INIT else WII_FSM_LED_UPDATED)"
      "wd_ready_calls d1 = (if ext then wd_ready_calls d else Suc (wd_ready_calls d))"
      "wd_sent d1 = wd_sent d @ ask_status # (if ext then [write_packet 0xa4 0xf0 0x55] else ready_packets d1)"
    using status_step [OF st s(1)] product s(2-) by auto
  show ?thesis
  proof (cases ext)
    case False
    with d1 show ?thesis by (simp del: wii_step.simps)
  next
    case True
    let ?init = "write_packet 0xa4 0xf0 0x55" and ?again = "if fs = [] then [] else [write_packet 0xa6 0xf0 0x55]"
    obtain d4 where d4: "run_steps wii_step (map WII_Report (fs @ [w1, w2])) d1 = Some d4"
        "wd_state d4 = WII_FSM_EXT_DID_READ_REGISTER" "wd_ext_type d4 = WII_EXT_UNK"
        "wd_ready_calls d4 = wd_ready_calls d1" "wd_register_address d4 = bank"
        "wd_sent d4 = wd_sent d1 @ ?again @ [write_packet bank 0xfb 0x00, read_packet bank 0xfa 6]"
      using registers_written [OF fs ws _ _ d1(2) bank] d1 True by auto
    let ?rest = "r # (if board then [c1, c2] else [])"
    obtain d5 where d5: "run_steps wii_step (map WII_Report ?rest) d4 = Some d5" "wd_state d5 = WII_FSM_LED_UPDATED"
        "wd_ext_type d5 = extension_of a b" "wd_ready_calls d5 = Suc (wd_ready_calls d1)"
        "wd_sent d5 = wd_sent d4 @ (if board then [read_packet bank 0x24 16, read_packet bank 0x34 8] else []) @ ready_packets d5"
        "board \<longrightarrow> wd_kg0 d5 = sensors_at c1 6 \<and> wd_kg17 d5 = sensors_at c1 14 \<and> wd_kg34 d5 = sensors_at c2 6"
      using device_identified [OF ids d4(2,3) cal, folded board] unfolding d4(4,5) by blast
    have "map WII_Report (st # fs @ [w1, w2] @ ?rest) = WII_Report st # map WII_Report (fs @ [w1, w2]) @ map WII_Report ?rest"
      by simp
    then have "run_steps wii_step (map WII_Report (st # fs @ [w1, w2] @ ?rest)) ?d = Some d5"
      using d1(1) d4(1) d5(1) by (simp only: run_steps.simps run_steps_append option.case)
    moreover have "wd_sent d5 = wd_sent d @ ask_status # (?init # ?again @ [write_packet bank 0xfb 0x00, read_packet bank 0xfa 6] @
         (if board then [read_packet bank 0x24 16, read_packet bank 0x34 8] else [])) @ ready_packets d5"
      unfolding d5(5) d4(6) d1(6) using True by simp
    moreover have "wd_ready_calls d5 = Suc (wd_ready_calls d)" using d5(4) d1(5) True by simp
    ultimately show ?thesis using True d5(2,3,6) by (intro exI [of _ d5]) (simp only: if_True simp_thms)
  qed
qed

theorem wii_setup_completes_witness:
  "\<exists>d d'. run_steps wii_step (map WII_Report ([0x20, 0, 0, 2, 0, 0, 0] # [[0x22, 0, 0, 0x16, 4]] @
      [[0x22, 0, 0, 0x16, 0], [0x22, 0, 0, 0x16, 0]] @ ([0x21, 0, 0, 0x50, 0, 0xfa] @ replicate 16 0) # []))
      (uni_hid_parser_wii_setup d) = Some d' \<and> wd_ext_type d' = WII_EXT_NUNCHUK"
proof -
  have w: "status_report [0x20, 0, 0, 2, 0, 0, 0] True" "write_failed [0x22, 0, 0, 0x16, 4]"
    "write_ok [0x22, 0, 0, 0x16, 0]" "id_report ([0x21, 0, 0, 0x50, 0, 0xfa] @ replicate 16 0) 0 0"
    "calibration_report ([0x21, 0, 0, 0xf0, 0, 0x24] @ replicate 16 0) 0xf0 0x24"
    "calibration_report ([0x21, 0, 0, 0x70, 0, 0x34] @ replicate 16 0) 0x70 0x34"
    by (simp_all add: status_report_def write_failed_def write_ok_def id_report_def calibration_report_def has_bits_def
        nth_append)
  fix d :: wii_device
  have e: "True \<or> wd_product_id d \<in> {0x0306, 0x0330}" "length [[0x22, 0, 0, 0x16, 4 :: u8]] \<le> 1"
    "\<forall>f \<in> set [[0x22, 0, 0, 0x16, 4]]. write_failed f" using w(2) by simp_all
  have "False \<longleftrightarrow> (0 :: u8, 0 :: u8) = (0x04, 0x02)" by simp
  from wii_setup_completes [OF w(1) e w(3) w(3) w(4-6) refl this]
  obtain d' where "run_steps wii_step (map WII_Report ([0x20, 0, 0, 2, 0, 0, 0] # [[0x22, 0, 0, 0x16, 4]] @
      [[0x22, 0, 0, 0x16, 0], [0x22, 0, 0, 0x16, 0]] @ ([0x21, 0, 0, 0x50, 0, 0xfa] @ replicate 16 0) # []))
      (uni_hid_parser_wii_setup d) = Some d'" "wd_ext_type d' = extension_of 0 0"
    unfolding if_True if_False by blast
  then show ?thesis
    by (intro exI [of _ d] exI [of _ d']) (simp add: extension_of_def del: run_steps.simps wii_step.simps list.map)
qed

text \<open>
  A device of any other product without an extension is asked for its status once, and no later
  status makes it ready.
\<close>

lemma unknown_status_step:
  assumes "status_report r False" "wd_state d = WII_FSM_DID_REQ_STATUS" "wd_product_id d \<notin> {0x0306, 0x0330}"
  shows "\<exists>d'. wii_step (WII_Report r) d = Some d' \<and> wd_state d' = WII_FSM_DID_REQ_STATUS \<and>
    wd_product_id d' = wd_product_id d \<and> wd_ready_calls d' = wd_ready_calls d"
  using assms
  by (auto simp: status_report_def uni_hid_parser_wii_init_report_def uni_hid_parser_wii_parse_input_report_def
      process_req_status_def Let_def fsm_simps)

theorem wii_unknown_product_waits:
  assumes "\<forall>r \<in> set rs. status_report r False" "wd_state d = WII_FSM_DID_REQ_STATUS"
    "wd_product_id d \<notin> {0x0306, 0x0330}"
  shows "\<exists>d'. run_steps wii_step (map WII_Report rs) d = Some d' \<and> wd_ready_calls d' = wd_ready_calls d"
  using assms
proof (induction rs arbitrary: d)
  case Nil
  then show ?case by simp
next
  case (Cons r rs)
  then obtain d1 where d1: "wii_step (WII_Report r) d = Some d1" "wd_state d1 = WII_FSM_DID_REQ_STATUS"
      "wd_product_id d1 = wd_product_id d" "wd_ready_calls d1 = wd_ready_calls d"
    using unknown_status_step [of r d] by auto
  with Cons.IH [of d1] Cons.prems show ?case by simp
qed

subsection \<open>Axes\<close>

text \<open>The axes of the Wii U Pro controller are scaled, but not limited.\<close>

theorem pro_axis_exceeds_range:
  "pro_axis (replicate 14 0) 3 = - 819 \<and> pro_axis (replicate 14 0xff) 3 = 818"
  by (simp add: pro_axis_def signed_divide_int_def)

lemma pro_battery_bounds: "1 \<le> pro_battery b"
proof -
  have "1 \<le> min 255 (max 1 (uint (b AND 0x70) * 4 - 1))" "min 255 (max 1 (uint (b AND 0x70) * 4 - 1)) < 256"
    by simp_all
  then show ?thesis by (simp add: pro_battery_def u8_of_def word_le_def uint_word_of_int take_bit_int_eq_self)
qed

text \<open>
  The right stick of a Classic controller takes bit 0 of its x coordinate from the byte of the left
  stick's x, where its top bit already is: the bit that the controller sends for it is not read.
\<close>

theorem classic_rx_ignores_bit:
  "classic_rx [t, b0, b1, b2] = classic_rx [t, b0, b1, b2 XOR 0x80]"
  by (simp add: classic_rx_def)

end
