(* ===== verification/Hid_Device.thy ===== *)
theory Hid_Device
  imports Circular_Buffer Usage_Parser
begin

text \<open>
  \<^verbatim>\<open>components/bluepad32/uni_hid_device.c\<close>, \<^verbatim>\<open>bt/uni_bt_conn.c\<close> and
  \<^verbatim>\<open>uni_virtual_device.c\<close>: the table of devices. A device is named by its index in the table
  (the pointer into \<open>g_devices\<close>); parent and child links are indices too.

  Arguments that stand for other code: the platform's answers, the type of a GAP connection, the
  status of \<open>l2cap_send\<close>, and the table of known controllers. What the platform is told is appended
  to \<open>sys_events\<close>; the timers that the run loop holds are the set \<open>sys_timers\<close>, and starting a timer
  that is registered is the value None, as BTstack's assertion demands.
\<close>

section \<open>Connections\<close>

type_synonym bd_addr = "u8 list"

definition zero_addr :: bd_addr where
  "zero_addr = [0, 0, 0, 0, 0, 0]"

datatype bt_conn_state =
    STATE_DEVICE_NONE
  | STATE_DEVICE_DISCOVERED
  | STATE_REMOTE_NAME_REQUEST
  | STATE_REMOTE_NAME_INQUIRED
  | STATE_REMOTE_NAME_FETCHED
  | STATE_SDP_VENDOR_REQUESTED
  | STATE_SDP_VENDOR_FETCHED
  | STATE_SDP_HID_DESCRIPTOR_REQUESTED
  | STATE_SDP_HID_DESCRIPTOR_FETCHED
  | STATE_L2CAP_CONTROL_CONNECTION_REQUESTED
  | STATE_L2CAP_CONTROL_CONNECTED
  | STATE_L2CAP_INTERRUPT_CONNECTION_REQUESTED
  | STATE_L2CAP_INTERRUPT_CONNECTED
  | STATE_DEVICE_PENDING_READY
  | STATE_DEVICE_READY

record bt_conn =
  btaddr :: bd_addr
  handle :: u16
  control_cid :: u16
  interrupt_cid :: u16
  incoming :: bool
  connected :: bool
  conn_state :: bt_conn_state

definition conn_zero :: bt_conn where
  "conn_zero = \<lparr>btaddr = zero_addr, handle = 0, control_cid = 0, interrupt_cid = 0,
     incoming = False, connected = False, conn_state = STATE_DEVICE_NONE\<rparr>"

definition UNI_BT_CONN_HANDLE_INVALID :: u16 where
  "UNI_BT_CONN_HANDLE_INVALID = 0xffff"

definition uni_bt_conn_init :: "bt_conn \<Rightarrow> bt_conn" where
  "uni_bt_conn_init c = conn_zero\<lparr>handle := UNI_BT_CONN_HANDLE_INVALID\<rparr>"

definition uni_bt_conn_set_state :: "bt_conn_state \<Rightarrow> bt_conn \<Rightarrow> bt_conn" where
  "uni_bt_conn_set_state st c = c\<lparr>conn_state := st\<rparr>"

definition uni_bt_conn_set_connected :: "bool \<Rightarrow> bt_conn \<Rightarrow> bt_conn" where
  "uni_bt_conn_set_connected b c = (if connected c = b then c else c\<lparr>connected := b\<rparr>)"

definition uni_bt_conn_disconnect :: "bt_conn \<Rightarrow> bt_conn" where
  "uni_bt_conn_disconnect c = uni_bt_conn_set_connected False c"

section \<open>Devices\<close>

datatype controller_type =
    TYPE_Unknown | TYPE_UnknownSteamController | TYPE_UnknownNonSteamController
  | TYPE_SteamController | TYPE_XBoxOneController | TYPE_PS3Controller | TYPE_PS4Controller
  | TYPE_WiiController | TYPE_AndroidController | TYPE_SwitchProController | TYPE_SwitchJoyConLeft
  | TYPE_SwitchJoyConRight | TYPE_PS5Controller | TYPE_iCadeController
  | TYPE_SmartTVRemoteController | TYPE_8BitdoController | TYPE_GenericController
  | TYPE_NimbusController | TYPE_OUYAController | TYPE_PSMoveController | TYPE_AtariJoystick
  | TYPE_GenericKeyboard | TYPE_GenericMouse | TYPE_Other int

text \<open>The function pointers of \<open>uni_report_parser_t\<close>: which parser's function each member points to.\<close>

datatype parser_id = P_icade | P_ouya | P_xboxone | P_android | P_stadia | P_nimbus
  | P_smarttvremote | P_psmove | P_ds3 | P_ds4 | P_ds5 | P_8bitdo | P_generic | P_wii | P_switch
  | P_steam | P_atari | P_mouse | P_keyboard

record parser_table =
  pt_setup :: "parser_id option"
  pt_init_report :: "parser_id option"
  pt_parse_usage :: "parser_id option"
  pt_parse_input_report :: "parser_id option"
  pt_parse_feature_report :: "parser_id option"
  pt_set_player_leds :: "parser_id option"
  pt_set_lightbar_color :: "parser_id option"
  pt_play_dual_rumble :: "parser_id option"
  pt_device_dump :: "parser_id option"

definition no_parser :: parser_table where
  "no_parser = \<lparr>pt_setup = None, pt_init_report = None, pt_parse_usage = None,
     pt_parse_input_report = None, pt_parse_feature_report = None, pt_set_player_leds = None,
     pt_set_lightbar_color = None, pt_play_dual_rumble = None, pt_device_dump = None\<rparr>"

record hid_device =
  hd_cod :: u32
  hd_vendor_id :: u16
  hd_product_id :: u16
  hd_name :: string
  hd_flags :: u32
  hd_descriptor :: "u8 list"
  hd_hids_cid :: u16
  hd_controller_type :: controller_type
  hd_controller_subtype :: nat
  hd_controller :: uni_controller
  hd_report_parser :: parser_table
  hd_wait_release :: u32
  hd_wait_delay :: u32
  hd_outgoing_buffer :: circular_buffer
  hd_conn :: bt_conn
  hd_parent :: "nat option"
  hd_child :: "nat option"

definition FLAGS_HAS_COD :: u32 where "FLAGS_HAS_COD = BIT 8"
definition FLAGS_HAS_NAME :: u32 where "FLAGS_HAS_NAME = BIT 9"
definition FLAGS_HAS_HID_DESCRIPTOR :: u32 where "FLAGS_HAS_HID_DESCRIPTOR = BIT 10"
definition FLAGS_HAS_VENDOR_ID :: u32 where "FLAGS_HAS_VENDOR_ID = BIT 11"
definition FLAGS_HAS_PRODUCT_ID :: u32 where "FLAGS_HAS_PRODUCT_ID = BIT 12"
definition FLAGS_HAS_CONTROLLER_TYPE :: u32 where "FLAGS_HAS_CONTROLLER_TYPE = BIT 13"

text \<open>What \<open>memset(d, 0, sizeof( *d))\<close> leaves, and an initialised slot.\<close>

definition hd_zero :: hid_device where
  "hd_zero = \<lparr>hd_cod = 0, hd_vendor_id = 0, hd_product_id = 0, hd_name = [], hd_flags = 0,
     hd_descriptor = [], hd_hids_cid = 0, hd_controller_type = TYPE_Unknown,
     hd_controller_subtype = 0, hd_controller = controller_zero, hd_report_parser = no_parser,
     hd_wait_release = 0, hd_wait_delay = 0, hd_outgoing_buffer = cb_zero, hd_conn = conn_zero,
     hd_parent = None, hd_child = None\<rparr>"

definition hd_init :: hid_device where
  "hd_init = hd_zero\<lparr>hd_hids_cid := 0xffff, hd_conn := uni_bt_conn_init (hd_conn hd_zero)\<rparr>"

section \<open>The table\<close>

datatype dev_timer = Connection_Timer | Inquiry_Timer | Misc_Delay_Timer

datatype platform_event =
    On_Connected nat
  | On_Disconnected nat
  | On_Ready nat
  | On_Controller_Data nat uni_controller
  | On_System_Button nat

record hid_system =
  sys_devices :: "hid_device list"
  sys_timers :: "(nat \<times> dev_timer) set"
  sys_events :: "platform_event list"

definition dev :: "hid_system \<Rightarrow> nat \<Rightarrow> hid_device" where
  "dev s i = sys_devices s ! i"

definition upd_dev :: "nat \<Rightarrow> (hid_device \<Rightarrow> hid_device) \<Rightarrow> hid_system \<Rightarrow> hid_system" where
  "upd_dev i f s = s\<lparr>sys_devices := (sys_devices s)[i := f (sys_devices s ! i)]\<rparr>"

definition tell :: "platform_event \<Rightarrow> hid_system \<Rightarrow> hid_system" where
  "tell e s = s\<lparr>sys_events := sys_events s @ [e]\<rparr>"

definition add_timer :: "nat \<Rightarrow> dev_timer \<Rightarrow> hid_system \<Rightarrow> hid_system option" where
  "add_timer i t s =
     (if (i, t) \<in> sys_timers s then None else Some (s\<lparr>sys_timers := insert (i, t) (sys_timers s)\<rparr>))"

definition remove_timer :: "nat \<Rightarrow> dev_timer \<Rightarrow> hid_system \<Rightarrow> hid_system" where
  "remove_timer i t s = s\<lparr>sys_timers := sys_timers s - {(i, t)}\<rparr>"

definition uni_hid_device_init :: "nat \<Rightarrow> hid_system \<Rightarrow> hid_system" where
  "uni_hid_device_init i s = upd_dev i (\<lambda>_. hd_init) s"

definition uni_hid_device_setup :: "nat \<Rightarrow> hid_system" where
  "uni_hid_device_setup n = \<lparr>sys_devices = replicate n hd_init, sys_timers = {}, sys_events = []\<rparr>"

definition is_free :: "hid_device \<Rightarrow> bool" where
  "is_free d \<longleftrightarrow> btaddr (hd_conn d) = zero_addr"

definition start_connection_timeout :: "nat \<Rightarrow> hid_system \<Rightarrow> hid_system option" where
  "start_connection_timeout i s = add_timer i Connection_Timer s"

text \<open>Some (None, s): the table is full. None: the timer of the slot was still registered.\<close>

definition uni_hid_device_create :: "bd_addr \<Rightarrow> hid_system \<Rightarrow> (nat option \<times> hid_system) option" where
  "uni_hid_device_create address s =
     (case find_index is_free (sys_devices s) of
        None \<Rightarrow> Some (None, s)
      | Some i \<Rightarrow>
          map_option (\<lambda>s'. (Some i, s')) (start_connection_timeout i
            (upd_dev i (\<lambda>_. hd_zero\<lparr>hd_conn := conn_zero\<lparr>btaddr := address\<rparr>\<rparr>) s)))"

definition virtual_name :: "nat \<Rightarrow> string" where
  "virtual_name i = ''virtual-'' @ (if i < 10 then [char_of (48 + i)] else [char_of (48 + i div 10), char_of (48 + i mod 10)])"

definition uni_hid_device_create_virtual :: "bool \<Rightarrow> nat \<Rightarrow> hid_system \<Rightarrow> nat option \<times> hid_system" where
  "uni_hid_device_create_virtual virtual_device_enabled parent s =
     (if \<not> virtual_device_enabled then (None, s)
      else case find_index is_free (sys_devices s) of
        None \<Rightarrow> (None, s)
      | Some i \<Rightarrow>
          let p = dev s parent;
              s1 = upd_dev i (\<lambda>d. d\<lparr>hd_conn := (hd_conn d)\<lparr>btaddr := btaddr (hd_conn p)\<rparr>,
                     hd_parent := Some parent, hd_product_id := hd_product_id p,
                     hd_vendor_id := hd_vendor_id p, hd_cod := hd_cod p,
                     hd_controller_type := hd_controller_type p,
                     hd_controller_subtype := hd_controller_subtype p,
                     hd_flags := hd_flags d OR FLAGS_HAS_CONTROLLER_TYPE,
                     hd_name := virtual_name i\<rparr>) s
          in (Some i, upd_dev parent (\<lambda>d. d\<lparr>hd_child := Some i\<rparr>) s1))"

subsection \<open>Lookups\<close>

definition uni_hid_device_is_virtual_device :: "hid_device \<Rightarrow> bool" where
  "uni_hid_device_is_virtual_device d \<longleftrightarrow> hd_parent d \<noteq> None"

definition uni_hid_device_get_instance_for_address :: "bd_addr \<Rightarrow> hid_system \<Rightarrow> nat option" where
  "uni_hid_device_get_instance_for_address addr s =
     find_index (\<lambda>d. \<not> uni_hid_device_is_virtual_device d \<and> addr = btaddr (hd_conn d)) (sys_devices s)"

definition uni_hid_device_get_instance_for_cid :: "u16 \<Rightarrow> hid_system \<Rightarrow> nat option" where
  "uni_hid_device_get_instance_for_cid cid s =
     (if cid = 0 then None
      else find_index (\<lambda>d. interrupt_cid (hd_conn d) = cid \<or> control_cid (hd_conn d) = cid) (sys_devices s))"

definition uni_hid_device_get_instance_for_hids_cid :: "u16 \<Rightarrow> hid_system \<Rightarrow> nat option" where
  "uni_hid_device_get_instance_for_hids_cid cid s =
     (if cid = 0 then None else find_index (\<lambda>d. hd_hids_cid d = cid) (sys_devices s))"

definition uni_hid_device_get_instance_for_connection_handle :: "u16 \<Rightarrow> hid_system \<Rightarrow> nat option" where
  "uni_hid_device_get_instance_for_connection_handle h s =
     (if h = UNI_BT_CONN_HANDLE_INVALID then None
      else find_index (\<lambda>d. handle (hd_conn d) = h) (sys_devices s))"

definition uni_hid_device_get_instance_with_predicate ::
  "(hid_device \<Rightarrow> bool) \<Rightarrow> hid_system \<Rightarrow> nat option" where
  "uni_hid_device_get_instance_with_predicate predicate s =
     find_index (\<lambda>d. conn_state (hd_conn d) = STATE_DEVICE_READY \<and> predicate d) (sys_devices s)"

definition uni_hid_device_get_first_device_with_state :: "bt_conn_state \<Rightarrow> hid_system \<Rightarrow> nat option" where
  "uni_hid_device_get_first_device_with_state st s =
     find_index (\<lambda>d. btaddr (hd_conn d) \<noteq> zero_addr \<and> conn_state (hd_conn d) = st) (sys_devices s)"

definition uni_hid_device_get_instance_for_idx :: "int \<Rightarrow> hid_system \<Rightarrow> nat option" where
  "uni_hid_device_get_instance_for_idx idx s =
     (if idx < 0 \<or> idx \<ge> int (length (sys_devices s)) then None else Some (nat idx))"

section \<open>Setters\<close>

definition uni_hid_device_set_cod :: "nat \<Rightarrow> u32 \<Rightarrow> hid_system \<Rightarrow> hid_system" where
  "uni_hid_device_set_cod i cod s = upd_dev i (\<lambda>d. d\<lparr>hd_cod := cod,
     hd_flags := (if cod = 0 then hd_flags d AND NOT FLAGS_HAS_COD else hd_flags d OR FLAGS_HAS_COD)\<rparr>) s"

definition uni_hid_device_set_incoming :: "nat \<Rightarrow> bool \<Rightarrow> hid_system \<Rightarrow> hid_system" where
  "uni_hid_device_set_incoming i b s = upd_dev i (\<lambda>d. d\<lparr>hd_conn := (hd_conn d)\<lparr>incoming := b\<rparr>\<rparr>) s"

definition HID_MAX_NAME_LEN :: nat where "HID_MAX_NAME_LEN = 240"
definition HID_MAX_DESCRIPTOR_LEN :: nat where "HID_MAX_DESCRIPTOR_LEN = 512"

definition uni_hid_device_set_name :: "nat \<Rightarrow> string option \<Rightarrow> hid_system \<Rightarrow> hid_system" where
  "uni_hid_device_set_name i name s =
     (case name of None \<Rightarrow> s
      | Some n \<Rightarrow> upd_dev i (\<lambda>d. d\<lparr>hd_name := take (HID_MAX_NAME_LEN - 1) n,
          hd_flags := hd_flags d OR FLAGS_HAS_NAME\<rparr>) s)"

text \<open>None: the copy of \<open>len\<close> bytes overruns the descriptor array.\<close>

definition uni_hid_device_set_hid_descriptor :: "nat \<Rightarrow> u8 list \<Rightarrow> hid_system \<Rightarrow> hid_system option" where
  "uni_hid_device_set_hid_descriptor i descriptor s =
     (if length descriptor > HID_MAX_DESCRIPTOR_LEN then None
      else Some (upd_dev i (\<lambda>d. d\<lparr>hd_descriptor := take HID_MAX_DESCRIPTOR_LEN descriptor,
        hd_flags := hd_flags d OR FLAGS_HAS_HID_DESCRIPTOR\<rparr>) s))"

definition uni_hid_device_set_product_id :: "nat \<Rightarrow> u16 \<Rightarrow> hid_system \<Rightarrow> hid_system" where
  "uni_hid_device_set_product_id i pid s = upd_dev i (\<lambda>d. d\<lparr>hd_product_id := pid,
     hd_flags := hd_flags d OR FLAGS_HAS_PRODUCT_ID\<rparr>) s"

definition uni_hid_device_set_vendor_id :: "nat \<Rightarrow> u16 \<Rightarrow> hid_system \<Rightarrow> hid_system" where
  "uni_hid_device_set_vendor_id i vid s =
     (if vid = 0 then s
      else upd_dev i (\<lambda>d. d\<lparr>hd_vendor_id := vid, hd_flags := hd_flags d OR FLAGS_HAS_VENDOR_ID\<rparr>) s)"

definition uni_hid_device_set_connection_handle :: "nat \<Rightarrow> u16 \<Rightarrow> hid_system \<Rightarrow> hid_system" where
  "uni_hid_device_set_connection_handle i h s = upd_dev i (\<lambda>d. d\<lparr>hd_conn := (hd_conn d)\<lparr>handle := h\<rparr>\<rparr>) s"

section \<open>Class of device and discovery\<close>

definition COD_MAJOR_MASK :: u32 where "COD_MAJOR_MASK = 0x1f00"
definition COD_MAJOR_PERIPHERAL :: u32 where "COD_MAJOR_PERIPHERAL = 0x0500"
definition COD_MAJOR_AUDIO_VIDEO :: u32 where "COD_MAJOR_AUDIO_VIDEO = 0x0400"
definition COD_MINOR_MASK :: u32 where "COD_MINOR_MASK = 0xfc"
definition COD_MINOR_MICE :: u32 where "COD_MINOR_MICE = 0x80"
definition COD_MINOR_KEYBOARD :: u32 where "COD_MINOR_KEYBOARD = 0x40"
definition COD_MINOR_GAMEPAD :: u32 where "COD_MINOR_GAMEPAD = 0x08"
definition COD_MINOR_JOYSTICK :: u32 where "COD_MINOR_JOYSTICK = 0x04"

lemmas cod_defs = COD_MAJOR_MASK_def COD_MAJOR_PERIPHERAL_def COD_MAJOR_AUDIO_VIDEO_def
  COD_MINOR_MASK_def COD_MINOR_MICE_def COD_MINOR_KEYBOARD_def COD_MINOR_GAMEPAD_def
  COD_MINOR_JOYSTICK_def

definition uni_hid_device_is_cod_supported :: "u32 \<Rightarrow> bool" where
  "uni_hid_device_is_cod_supported cod =
     (let minor_cod = cod AND COD_MINOR_MASK
      in if cod AND COD_MAJOR_MASK = COD_MAJOR_PERIPHERAL
         then minor_cod AND (COD_MINOR_MICE OR COD_MINOR_KEYBOARD OR COD_MINOR_GAMEPAD OR COD_MINOR_JOYSTICK) \<noteq> 0
         else if cod AND COD_MAJOR_MASK = COD_MAJOR_AUDIO_VIDEO then cod = 0x400408
         else False)"

definition uni_hid_device_is_mouse :: "hid_device \<Rightarrow> bool" where
  "uni_hid_device_is_mouse d \<longleftrightarrow> (let mouse_cod = COD_MAJOR_PERIPHERAL OR COD_MINOR_MICE
     in hd_cod d AND mouse_cod = mouse_cod)"

definition uni_hid_device_is_keyboard :: "hid_device \<Rightarrow> bool" where
  "uni_hid_device_is_keyboard d \<longleftrightarrow> (let keyboard_cod = COD_MAJOR_PERIPHERAL OR COD_MINOR_KEYBOARD
     in hd_cod d AND keyboard_cod = keyboard_cod)"

definition uni_hid_device_is_gamepad :: "hid_device \<Rightarrow> bool" where
  "uni_hid_device_is_gamepad d \<longleftrightarrow>
     hd_cod d AND COD_MAJOR_PERIPHERAL \<noteq> 0 \<and> hd_cod d AND (COD_MINOR_GAMEPAD OR COD_MINOR_JOYSTICK) \<noteq> 0"

text \<open>The \<open>cod\<close> parameter is 16 bits wide. The platform's answer is its hook's, when it has one.\<close>

definition uni_hid_device_on_device_discovered ::
  "(bd_addr \<Rightarrow> bool) \<Rightarrow> (bd_addr \<Rightarrow> string \<Rightarrow> u16 \<Rightarrow> u8 \<Rightarrow> bool) option \<Rightarrow>
     bd_addr \<Rightarrow> string \<Rightarrow> u16 \<Rightarrow> u8 \<Rightarrow> bool" where
  "uni_hid_device_on_device_discovered allowed platform addr name cod rssi =
     (if \<not> allowed addr then False
      else if rssi < 155 then False
      else if \<not> uni_hid_device_is_cod_supported (ucast cod) then False
      else case platform of Some f \<Rightarrow> f addr name cod rssi | None \<Rightarrow> True)"

section \<open>Connecting, disconnecting, deleting\<close>

definition uni_hid_device_on_connected :: "nat \<Rightarrow> bool \<Rightarrow> hid_system \<Rightarrow> hid_system" where
  "uni_hid_device_on_connected i b s = tell (if b then On_Connected i else On_Disconnected i) s"

definition uni_hid_device_connect :: "nat \<Rightarrow> hid_system \<Rightarrow> hid_system" where
  "uni_hid_device_connect i s = uni_hid_device_on_connected i True
     (upd_dev i (\<lambda>d. d\<lparr>hd_conn := uni_bt_conn_set_connected True (hd_conn d)\<rparr>) s)"

datatype gap_type = GAP_INVALID | GAP_ACL | GAP_LE | GAP_SCO

text \<open>
  What \<^verbatim>\<open>uni_bt_bredr_disconnect\<close> does to the device. On a low-energy connection the device itself
  is left alone: \<open>hog_disconnect\<close> only asks the stack to close the handle.
\<close>

definition uni_bt_bredr_disconnect :: "(u16 \<Rightarrow> gap_type) \<Rightarrow> bt_conn \<Rightarrow> bt_conn" where
  "uni_bt_bredr_disconnect gap c =
     (if gap (handle c) \<noteq> GAP_INVALID then c\<lparr>handle := UNI_BT_CONN_HANDLE_INVALID\<rparr>
      else c\<lparr>control_cid := 0, interrupt_cid := 0\<rparr>)"

definition disconnect_self :: "(u16 \<Rightarrow> gap_type) \<Rightarrow> nat \<Rightarrow> hid_system \<Rightarrow> hid_system" where
  "disconnect_self gap i s =
     (let d = dev s i;
          was_connected = connected (hd_conn d);
          s1 = (if \<not> uni_hid_device_is_virtual_device d \<and> gap (handle (hd_conn d)) = GAP_ACL
                then upd_dev i (\<lambda>d. d\<lparr>hd_conn := uni_bt_bredr_disconnect gap (hd_conn d)\<rparr>) s else s);
          s2 = upd_dev i (\<lambda>d. d\<lparr>hd_conn := uni_bt_conn_disconnect (hd_conn d)\<rparr>) s1;
          s3 = remove_timer i Inquiry_Timer (remove_timer i Connection_Timer s2)
      in if was_connected then uni_hid_device_on_connected i False s3 else s3)"

definition delete_self :: "nat \<Rightarrow> hid_system \<Rightarrow> hid_system" where
  "delete_self i s = uni_hid_device_init i (remove_timer i Connection_Timer s)"

text \<open>
  The recursion over the child. \<open>n\<close> bounds its depth, None is a chain that is deeper; \<open>family_ok\<close>
  below makes two levels enough.
\<close>

fun disconnect_rec :: "nat \<Rightarrow> (u16 \<Rightarrow> gap_type) \<Rightarrow> nat \<Rightarrow> hid_system \<Rightarrow> hid_system option" where
  "disconnect_rec 0 gap i s = None"
| "disconnect_rec (Suc n) gap i s =
     (case hd_child (dev s i) of
        None \<Rightarrow> Some (disconnect_self gap i s)
      | Some c \<Rightarrow> map_option (disconnect_self gap i) (disconnect_rec n gap c s))"

fun delete_rec :: "nat \<Rightarrow> nat \<Rightarrow> hid_system \<Rightarrow> hid_system option" where
  "delete_rec 0 i s = None"
| "delete_rec (Suc n) i s =
     (case hd_child (dev s i) of
        None \<Rightarrow> Some (delete_self i s)
      | Some c \<Rightarrow> map_option (delete_self i) (delete_rec n c s))"

definition uni_hid_device_disconnect :: "(u16 \<Rightarrow> gap_type) \<Rightarrow> nat \<Rightarrow> hid_system \<Rightarrow> hid_system option" where
  "uni_hid_device_disconnect gap i s = disconnect_rec (Suc (length (sys_devices s))) gap i s"

definition uni_hid_device_delete :: "nat \<Rightarrow> hid_system \<Rightarrow> hid_system option" where
  "uni_hid_device_delete i s = delete_rec (Suc (length (sys_devices s))) i s"

text \<open>\<open>accepted\<close>: the platform's answer to \<open>on_device_ready\<close>.\<close>

definition uni_hid_device_set_ready_complete ::
  "(u16 \<Rightarrow> gap_type) \<Rightarrow> bool \<Rightarrow> nat \<Rightarrow> hid_system \<Rightarrow> (bool \<times> hid_system) option" where
  "uni_hid_device_set_ready_complete gap accepted i s =
     (if conn_state (hd_conn (dev s i)) = STATE_DEVICE_READY then Some (False, s)
      else
        let s1 = tell (On_Ready i) (remove_timer i Connection_Timer s)
        in if \<not> accepted
           then (case uni_hid_device_disconnect gap i s1 of None \<Rightarrow> None
                 | Some s2 \<Rightarrow> map_option (Pair False) (uni_hid_device_delete i s2))
           else Some (True,
             upd_dev i (\<lambda>d. d\<lparr>hd_conn := uni_bt_conn_set_state STATE_DEVICE_READY (hd_conn d)\<rparr>) s1))"

text \<open>\<open>run_setup\<close> is the setup function of the parser the device points to.\<close>

definition uni_hid_device_set_ready ::
  "(u16 \<Rightarrow> gap_type) \<Rightarrow> bool \<Rightarrow> (parser_id \<Rightarrow> nat \<Rightarrow> hid_system \<Rightarrow> hid_system option) \<Rightarrow>
     nat \<Rightarrow> hid_system \<Rightarrow> hid_system option" where
  "uni_hid_device_set_ready gap accepted run_setup i s =
     (if conn_state (hd_conn (dev s i)) = STATE_DEVICE_PENDING_READY then Some s
      else
        let s1 = upd_dev i (\<lambda>d. d\<lparr>hd_conn := uni_bt_conn_set_state STATE_DEVICE_PENDING_READY (hd_conn d)\<rparr>) s
        in case pt_setup (hd_report_parser (dev s1 i)) of
             Some p \<Rightarrow> run_setup p i s1
           | None \<Rightarrow> map_option snd (uni_hid_device_set_ready_complete gap accepted i s1))"

definition uni_hid_device_request_inquire :: "hid_system \<Rightarrow> hid_system" where
  "uni_hid_device_request_inquire s = s\<lparr>sys_devices := map (\<lambda>d.
     if conn_state (hd_conn d) = STATE_REMOTE_NAME_INQUIRED
     then d\<lparr>hd_conn := uni_bt_conn_set_state STATE_REMOTE_NAME_REQUEST (hd_conn d)\<rparr> else d) (sys_devices s)\<rparr>"

text \<open>The expiry of the connection timer; the run loop has removed it.\<close>

definition device_connection_timeout :: "(u16 \<Rightarrow> gap_type) \<Rightarrow> nat \<Rightarrow> hid_system \<Rightarrow> hid_system option" where
  "device_connection_timeout gap i s =
     (let s1 = remove_timer i Connection_Timer s
      in if conn_state (hd_conn (dev s1 i)) = STATE_DEVICE_READY then Some s1
         else case uni_hid_device_disconnect gap i s1 of None \<Rightarrow> None
              | Some s2 \<Rightarrow> uni_hid_device_delete i s2)"

section \<open>Choice of the parser\<close>

definition uni_hid_device_has_controller_type :: "hid_device \<Rightarrow> bool" where
  "uni_hid_device_has_controller_type d \<longleftrightarrow> has_bits (hd_flags d) FLAGS_HAS_CONTROLLER_TYPE"

definition uni_hid_device_does_require_hid_descriptor :: "hid_device \<Rightarrow> bool" where
  "uni_hid_device_does_require_hid_descriptor d \<longleftrightarrow> pt_parse_usage (hd_report_parser d) \<noteq> None"

text \<open>Vendor and product of the Stadia controller, an Android pad with rumble.\<close>

definition is_stadia :: "hid_device \<Rightarrow> bool" where
  "is_stadia d \<longleftrightarrow> hd_vendor_id d = 0x18d1 \<and> hd_product_id d = 0x9400"

fun parser_for :: "controller_type \<Rightarrow> bool \<Rightarrow> parser_table" where
  "parser_for TYPE_iCadeController stadia =
     no_parser\<lparr>pt_setup := Some P_icade, pt_parse_usage := Some P_icade\<rparr>"
| "parser_for TYPE_OUYAController stadia =
     no_parser\<lparr>pt_init_report := Some P_ouya, pt_parse_usage := Some P_ouya,
       pt_set_player_leds := Some P_ouya\<rparr>"
| "parser_for TYPE_XBoxOneController stadia =
     no_parser\<lparr>pt_setup := Some P_xboxone, pt_init_report := Some P_xboxone,
       pt_parse_usage := Some P_xboxone, pt_play_dual_rumble := Some P_xboxone,
       pt_device_dump := Some P_xboxone\<rparr>"
| "parser_for TYPE_AndroidController stadia =
     (let t = no_parser\<lparr>pt_init_report := Some P_android, pt_parse_usage := Some P_android,
                pt_set_player_leds := Some P_android\<rparr>
      in if stadia then t\<lparr>pt_setup := Some P_stadia, pt_play_dual_rumble := Some P_stadia\<rparr> else t)"
| "parser_for TYPE_NimbusController stadia =
     no_parser\<lparr>pt_init_report := Some P_nimbus, pt_parse_usage := Some P_nimbus,
       pt_set_player_leds := Some P_nimbus\<rparr>"
| "parser_for TYPE_SmartTVRemoteController stadia =
     no_parser\<lparr>pt_init_report := Some P_smarttvremote, pt_parse_usage := Some P_smarttvremote\<rparr>"
| "parser_for TYPE_PSMoveController stadia =
     no_parser\<lparr>pt_setup := Some P_psmove, pt_init_report := Some P_psmove,
       pt_parse_input_report := Some P_psmove, pt_set_lightbar_color := Some P_psmove,
       pt_play_dual_rumble := Some P_psmove\<rparr>"
| "parser_for TYPE_PS3Controller stadia =
     no_parser\<lparr>pt_setup := Some P_ds3, pt_init_report := Some P_ds3,
       pt_parse_input_report := Some P_ds3, pt_set_player_leds := Some P_ds3,
       pt_play_dual_rumble := Some P_ds3\<rparr>"
| "parser_for TYPE_PS4Controller stadia =
     no_parser\<lparr>pt_setup := Some P_ds4, pt_init_report := Some P_ds4,
       pt_parse_input_report := Some P_ds4, pt_parse_feature_report := Some P_ds4,
       pt_set_lightbar_color := Some P_ds4, pt_play_dual_rumble := Some P_ds4,
       pt_device_dump := Some P_ds4\<rparr>"
| "parser_for TYPE_PS5Controller stadia =
     no_parser\<lparr>pt_setup := Some P_ds5, pt_init_report := Some P_ds5,
       pt_parse_input_report := Some P_ds5, pt_parse_feature_report := Some P_ds5,
       pt_set_player_leds := Some P_ds5, pt_set_lightbar_color := Some P_ds5,
       pt_play_dual_rumble := Some P_ds5, pt_device_dump := Some P_ds5\<rparr>"
| "parser_for TYPE_8BitdoController stadia =
     no_parser\<lparr>pt_init_report := Some P_8bitdo, pt_parse_usage := Some P_8bitdo\<rparr>"
| "parser_for TYPE_WiiController stadia =
     no_parser\<lparr>pt_setup := Some P_wii, pt_init_report := Some P_wii,
       pt_parse_input_report := Some P_wii, pt_set_player_leds := Some P_wii,
       pt_play_dual_rumble := Some P_wii, pt_device_dump := Some P_wii\<rparr>"
| "parser_for TYPE_SteamController stadia =
     no_parser\<lparr>pt_setup := Some P_steam, pt_init_report := Some P_steam,
       pt_parse_input_report := Some P_steam\<rparr>"
| "parser_for TYPE_AtariJoystick stadia =
     no_parser\<lparr>pt_setup := Some P_atari, pt_init_report := Some P_atari,
       pt_parse_input_report := Some P_atari\<rparr>"
| "parser_for TYPE_GenericMouse stadia =
     no_parser\<lparr>pt_setup := Some P_mouse, pt_parse_input_report := Some P_mouse,
       pt_init_report := Some P_mouse, pt_parse_usage := Some P_mouse, pt_device_dump := Some P_mouse\<rparr>"
| "parser_for TYPE_GenericKeyboard stadia =
     no_parser\<lparr>pt_setup := Some P_keyboard, pt_parse_input_report := Some P_keyboard,
       pt_init_report := Some P_keyboard, pt_parse_usage := Some P_keyboard,
       pt_device_dump := Some P_keyboard\<rparr>"
| "parser_for t stadia =
     (if t = TYPE_SwitchProController \<or> t = TYPE_SwitchJoyConRight \<or> t = TYPE_SwitchJoyConLeft
      then no_parser\<lparr>pt_setup := Some P_switch, pt_init_report := Some P_switch,
             pt_parse_input_report := Some P_switch, pt_set_player_leds := Some P_switch,
             pt_play_dual_rumble := Some P_switch, pt_device_dump := Some P_switch\<rparr>
      else no_parser\<lparr>pt_init_report := Some P_generic, pt_parse_usage := Some P_generic\<rparr>)"

text \<open>
  \<open>db\<close> is the lookup in the table of known controllers, \<open>xbox_name\<close> whether the name is that of an
  Xbox clone.
\<close>

definition guessed_type :: "(u16 \<Rightarrow> u16 \<Rightarrow> controller_type) \<Rightarrow> bool \<Rightarrow> hid_device \<Rightarrow> controller_type" where
  "guessed_type db xbox_name d =
     (let type = db (hd_vendor_id d) (hd_product_id d)
      in if type = TYPE_Unknown \<or> type = TYPE_UnknownNonSteamController \<or> type = TYPE_UnknownSteamController
         then (if uni_hid_device_is_mouse d then TYPE_GenericMouse
               else if uni_hid_device_is_keyboard d then TYPE_GenericKeyboard
               else if xbox_name then TYPE_XBoxOneController
               else TYPE_AndroidController)
         else type)"

definition uni_hid_device_guess_controller_type_from_pid_vid ::
  "(u16 \<Rightarrow> u16 \<Rightarrow> controller_type) \<Rightarrow> bool \<Rightarrow> hid_device \<Rightarrow> hid_device" where
  "uni_hid_device_guess_controller_type_from_pid_vid db xbox_name d =
     (if uni_hid_device_has_controller_type d then d
      else let type = guessed_type db xbox_name d
           in d\<lparr>hd_controller_subtype := 0, hd_report_parser := parser_for type (is_stadia d),
                hd_controller_type := type, hd_flags := hd_flags d OR FLAGS_HAS_CONTROLLER_TYPE\<rparr>)"

section \<open>Reports\<close>

text \<open>\<open>l2cap_send\<close> is the status of the attempt; 0 is success.\<close>

datatype sent_report = Sent u16 "u8 list"

definition uni_hid_device_send_report ::
  "u8 \<Rightarrow> u16 \<Rightarrow> u8 list \<Rightarrow> circular_buffer \<Rightarrow> sent_report list \<times> circular_buffer" where
  "uni_hid_device_send_report l2cap_send cid report q =
     (if cid = 0 then ([], q)
      else if report = [] then ([], q)
      else if l2cap_send = 0 then ([Sent cid report], q)
      else case uni_circular_buffer_put q (to_i16 (uint cid)) report of
             Inl e \<Rightarrow> ([], q) | Inr q' \<Rightarrow> ([], q'))"

definition uni_hid_device_send_queued_reports ::
  "u8 \<Rightarrow> circular_buffer \<Rightarrow> sent_report list \<times> circular_buffer" where
  "uni_hid_device_send_queued_reports l2cap_send q =
     (if uni_circular_buffer_is_empty q then ([], q)
      else case uni_circular_buffer_get q of
             Inl e \<Rightarrow> ([], q)
           | Inr (x, q') \<Rightarrow> uni_hid_device_send_report l2cap_send (u16_of (cb_cid x)) (cb_bytes x) q')"

definition uni_hid_device_send_intr_report ::
  "u8 \<Rightarrow> u8 list \<Rightarrow> hid_device \<Rightarrow> sent_report list \<times> hid_device" where
  "uni_hid_device_send_intr_report l2cap_send report d =
     (case uni_hid_device_send_report l2cap_send (interrupt_cid (hd_conn d)) report (hd_outgoing_buffer d) of
        (out, q) \<Rightarrow> (out, d\<lparr>hd_outgoing_buffer := q\<rparr>))"

definition uni_hid_device_send_ctrl_report ::
  "u8 \<Rightarrow> u8 list \<Rightarrow> hid_device \<Rightarrow> sent_report list \<times> hid_device" where
  "uni_hid_device_send_ctrl_report l2cap_send report d =
     (case uni_hid_device_send_report l2cap_send (control_cid (hd_conn d)) report (hd_outgoing_buffer d) of
        (out, q) \<Rightarrow> (out, d\<lparr>hd_outgoing_buffer := q\<rparr>))"

section \<open>Controller data\<close>

text \<open>\<open>MISC_BUTTON_SYSTEM\<close> and \<open>MISC_BUTTON_START\<close> in the 32-bit wait masks.\<close>

definition WAIT_SYSTEM :: u32 where "WAIT_SYSTEM = BIT 0"
definition WAIT_START :: u32 where "WAIT_START = BIT 2"

definition requires_delay :: "hid_device \<Rightarrow> bool" where
  "requires_delay d \<longleftrightarrow> hd_controller_type d = TYPE_SwitchProController \<or>
     hd_controller_type d = TYPE_SwitchJoyConLeft \<or> hd_controller_type d = TYPE_SwitchJoyConRight"

definition process_misc_button_system :: "nat \<Rightarrow> hid_system \<Rightarrow> hid_system option" where
  "process_misc_button_system i s =
     (let d = dev s i
      in if \<not> has_bits (misc_buttons (gamepad (hd_controller d))) MISC_BUTTON_SYSTEM
         then Some (upd_dev i (\<lambda>d. d\<lparr>hd_wait_release := hd_wait_release d AND NOT WAIT_SYSTEM\<rparr>) s)
         else if has_bits (hd_wait_release d) WAIT_SYSTEM then Some s
         else if requires_delay d \<and> has_bits (hd_wait_delay d) WAIT_SYSTEM then Some s
         else
           let s1 = tell (On_System_Button i)
                      (upd_dev i (\<lambda>d. d\<lparr>hd_wait_release := hd_wait_release d OR WAIT_SYSTEM\<rparr>) s)
           in if requires_delay d
              then add_timer i Misc_Delay_Timer
                     (upd_dev i (\<lambda>d. d\<lparr>hd_wait_delay := hd_wait_delay d OR WAIT_SYSTEM\<rparr>) s1)
              else Some s1)"

definition misc_button_enable_callback :: "nat \<Rightarrow> hid_system \<Rightarrow> hid_system" where
  "misc_button_enable_callback i s =
     upd_dev i (\<lambda>d. d\<lparr>hd_wait_delay := hd_wait_delay d AND NOT WAIT_SYSTEM\<rparr>)
       (remove_timer i Misc_Delay_Timer s)"

definition process_misc_button_home :: "nat \<Rightarrow> hid_system \<Rightarrow> hid_system" where
  "process_misc_button_home i s =
     (let d = dev s i
      in if \<not> has_bits (misc_buttons (gamepad (hd_controller d))) MISC_BUTTON_START
         then upd_dev i (\<lambda>d. d\<lparr>hd_wait_release := hd_wait_release d AND NOT WAIT_START\<rparr>) s
         else if has_bits (hd_wait_release d) WAIT_START then s
         else upd_dev i (\<lambda>d. d\<lparr>hd_wait_release := hd_wait_release d OR WAIT_START\<rparr>) s)"

definition uni_hid_device_process_controller :: "remap_state \<Rightarrow> nat \<Rightarrow> hid_system \<Rightarrow> hid_system option" where
  "uni_hid_device_process_controller rm i s =
     (if conn_state (hd_conn (dev s i)) \<noteq> STATE_DEVICE_READY then Some s
      else
        let s1 = (if klass (hd_controller (dev s i)) = CLASS_GAMEPAD
                  then upd_dev i (\<lambda>d. d\<lparr>hd_controller := upd_gp (uni_gamepad_remap rm) (hd_controller d)\<rparr>) s
                  else s);
            s2 = tell (On_Controller_Data i (hd_controller (dev s1 i))) s1
        in map_option (process_misc_button_home i) (process_misc_button_system i s2))"

end
