(* ===== verification/Allowlist.thy ===== *)
theory Allowlist
  imports Hid_Device Rumble
begin

text \<open>
  \<^verbatim>\<open>components/bluepad32/bt/uni_bt_allowlist.c\<close>: the addresses that may connect, kept in an array of
  \<^verbatim>\<open>CONFIG_BLUEPAD32_MAX_ALLOWLIST\<close> slots (zero is a free slot) and, as text, in a property of the flash.
  The property storage is taken to succeed; it limits a text to 126 characters. Addresses are printed
  and parsed as BTstack does (\<^verbatim>\<open>components/btstack/src/btstack_util.c\<close>). The list is built in an array of
  128 characters without a check: writing behind it is the value None. The switch for virtual devices,
  kept in the properties in the same way, follows at the end.
\<close>

section \<open>Text of an address\<close>

definition char_for_nibble :: "nat \<Rightarrow> char" where
  "char_for_nibble n = (if n < 16 then ''0123456789ABCDEF'' ! n else CHR ''?'')"

definition bd_addr_to_str :: "bd_addr \<Rightarrow> string" where
  "bd_addr_to_str addr = butlast (concat (map (\<lambda>b. [char_for_nibble (unat b div 16),
     char_for_nibble (unat b mod 16), CHR '':'']) addr))"

definition nibble_for_char :: "char \<Rightarrow> nat option" where
  "nibble_for_char c =
     (let n = of_char c :: nat
      in if 48 \<le> n \<and> n \<le> 57 then Some (n - 48)
         else if 97 \<le> n \<and> n \<le> 102 then Some (n - 97 + 10)
         else if 65 \<le> n \<and> n \<le> 70 then Some (n - 65 + 10)
         else None)"

text \<open>The end of a string is its zero byte, which is no digit.\<close>

fun scan_hex_byte :: "string \<Rightarrow> u8 option" where
  "scan_hex_byte (a # b # s) = (case (nibble_for_char a, nibble_for_char b) of
     (Some h, Some l) \<Rightarrow> Some (of_nat (16 * h + l)) | _ \<Rightarrow> None)"
| "scan_hex_byte _ = None"

fun skip_separator :: "string \<Rightarrow> string" where
  "skip_separator (c # s) = (if c = CHR '':'' \<or> c = CHR ''-'' \<or> c = CHR '' '' then s else c # s)"
| "skip_separator [] = []"

fun scan_bytes :: "nat \<Rightarrow> string \<Rightarrow> u8 list option" where
  "scan_bytes 0 s = Some []"
| "scan_bytes (Suc n) s = (case scan_hex_byte s of
     None \<Rightarrow> None
   | Some b \<Rightarrow> map_option ((#) b) (scan_bytes n (skip_separator (drop 2 s))))"

definition sscanf_bd_addr :: "string \<Rightarrow> bd_addr option" where
  "sscanf_bd_addr s = scan_bytes 6 s"

section \<open>The list\<close>

record allowlist =
  al_slots :: "bd_addr list"
  al_enforced :: bool
  al_stored_list :: "string option"
  al_stored_enabled :: bool

definition list_text :: "bd_addr list \<Rightarrow> string" where
  "list_text as = concat (map (\<lambda>a. bd_addr_to_str a @ [CHR '','']) (filter (\<lambda>a. a \<noteq> zero_addr) as))"

definition update_allowlist_to_property :: "allowlist \<Rightarrow> allowlist option" where
  "update_allowlist_to_property d =
     (let s = list_text (al_slots d)
      in if length s + 1 > 128 then None else Some (d\<lparr>al_stored_list := Some s\<rparr>))"

definition is_address_in_allowlist :: "bd_addr \<Rightarrow> allowlist \<Rightarrow> bool" where
  "is_address_in_allowlist a d \<longleftrightarrow> a \<in> set (al_slots d)"

definition uni_bt_allowlist_is_allowed_addr :: "bd_addr \<Rightarrow> allowlist \<Rightarrow> bool" where
  "uni_bt_allowlist_is_allowed_addr a d = (if \<not> al_enforced d then True else is_address_in_allowlist a d)"

text \<open>The first slot that holds \<open>a\<close> gets \<open>b\<close>.\<close>

definition put_first :: "bd_addr \<Rightarrow> bd_addr \<Rightarrow> allowlist \<Rightarrow> (bool \<times> allowlist) option" where
  "put_first a b d = (case find_index (\<lambda>x. x = a) (al_slots d) of
     None \<Rightarrow> Some (False, d)
   | Some i \<Rightarrow> map_option (Pair True) (update_allowlist_to_property (d\<lparr>al_slots := (al_slots d)[i := b]\<rparr>)))"

definition uni_bt_allowlist_add_addr :: "bd_addr \<Rightarrow> allowlist \<Rightarrow> (bool \<times> allowlist) option" where
  "uni_bt_allowlist_add_addr a d =
     (if is_address_in_allowlist a d then Some (False, d) else put_first zero_addr a d)"

definition uni_bt_allowlist_remove_addr :: "bd_addr \<Rightarrow> allowlist \<Rightarrow> (bool \<times> allowlist) option" where
  "uni_bt_allowlist_remove_addr a d = put_first a zero_addr d"

definition uni_bt_allowlist_remove_all :: "allowlist \<Rightarrow> (bool \<times> allowlist) option" where
  "uni_bt_allowlist_remove_all d = map_option (Pair True)
     (update_allowlist_to_property (d\<lparr>al_slots := map (\<lambda>_. zero_addr) (al_slots d)\<rparr>))"

definition uni_bt_allowlist_get_all :: "allowlist \<Rightarrow> bd_addr list \<times> nat" where
  "uni_bt_allowlist_get_all d = (al_slots d, length (al_slots d))"

definition uni_bt_allowlist_is_enabled :: "allowlist \<Rightarrow> bool" where
  "uni_bt_allowlist_is_enabled d = al_enforced d"

definition uni_bt_allowlist_set_enabled :: "bool \<Rightarrow> allowlist \<Rightarrow> allowlist" where
  "uni_bt_allowlist_set_enabled on d =
     (if on \<noteq> al_enforced d then d\<lparr>al_enforced := on, al_stored_enabled := on\<rparr> else d)"

text \<open>
  Reading the text back: an address every 18 characters, each added (and so the property written) at
  once; the first that is not an address ends the loop. The text being read is a copy.
\<close>

function load_addresses :: "string \<Rightarrow> allowlist \<Rightarrow> allowlist option" where
  "load_addresses s d =
     (if s = [] then Some d
      else case sscanf_bd_addr s of
          None \<Rightarrow> Some d
        | Some a \<Rightarrow> (case uni_bt_allowlist_add_addr a d of
              None \<Rightarrow> None | Some (_, d1) \<Rightarrow> load_addresses (drop 18 s) d1))"
  by pat_completeness auto

termination by (relation "measure (length \<circ> fst)") auto

declare load_addresses.simps [simp del]

definition update_allowlist_from_property :: "allowlist \<Rightarrow> allowlist option" where
  "update_allowlist_from_property d = (case al_stored_list d of
     None \<Rightarrow> Some d | Some s \<Rightarrow> load_addresses s d)"

definition uni_bt_allowlist_init :: "allowlist \<Rightarrow> allowlist option" where
  "uni_bt_allowlist_init d = update_allowlist_from_property (d\<lparr>al_enforced := al_stored_enabled d\<rparr>)"

text \<open>A restart keeps the flash only: the array is zero again.\<close>

definition restart :: "allowlist \<Rightarrow> allowlist option" where
  "restart d = uni_bt_allowlist_init (d\<lparr>al_slots := map (\<lambda>_. zero_addr) (al_slots d), al_enforced := False\<rparr>)"

section \<open>Runs\<close>

datatype allow_event = Al_Add bd_addr | Al_Remove bd_addr | Al_Remove_All | Al_Enable bool | Al_Restart

fun allow_step :: "allow_event \<Rightarrow> allowlist \<Rightarrow> allowlist option" where
  "allow_step (Al_Add a) d = map_option snd (uni_bt_allowlist_add_addr a d)"
| "allow_step (Al_Remove a) d = map_option snd (uni_bt_allowlist_remove_addr a d)"
| "allow_step Al_Remove_All d = map_option snd (uni_bt_allowlist_remove_all d)"
| "allow_step (Al_Enable b) d = Some (uni_bt_allowlist_set_enabled b d)"
| "allow_step Al_Restart d = restart d"

text \<open>Addresses have six bytes; the zero address stands for a free slot and is not given.\<close>

fun allow_ok :: "allow_event \<Rightarrow> bool" where
  "allow_ok (Al_Add a) = (length a = 6 \<and> a \<noteq> zero_addr)"
| "allow_ok (Al_Remove a) = (length a = 6 \<and> a \<noteq> zero_addr)"
| "allow_ok _ = True"

definition members :: "allowlist \<Rightarrow> bd_addr list" where
  "members d = filter (\<lambda>a. a \<noteq> zero_addr) (al_slots d)"

definition allow_inv :: "allowlist \<Rightarrow> bool" where
  "allow_inv d \<longleftrightarrow> length (al_slots d) \<le> 7 \<and> (\<forall>a \<in> set (al_slots d). length a = 6) \<and> distinct (members d) \<and>
     al_stored_enabled d = al_enforced d \<and>
     al_stored_list d = (if members d = [] \<and> al_stored_list d = None then None else Some (list_text (al_slots d)))"

section \<open>Printing and parsing\<close>

lemma nibble_round: "n < 16 \<Longrightarrow> nibble_for_char (char_for_nibble n) = Some n"
proof -
  assume "n < 16"
  then have "n \<in> set [0 ..< 16]" by simp
  moreover have "\<forall>n \<in> set [0 ..< 16]. nibble_for_char (char_for_nibble n) = Some n"
    by (simp add: upt_rec nibble_for_char_def char_for_nibble_def)
  ultimately show ?thesis by blast
qed

lemma byte_round:
  "scan_hex_byte (char_for_nibble (unat b div 16) # char_for_nibble (unat b mod 16) # s) = Some (b :: u8)"
proof -
  have "unat b < 256" using unsigned_less [of b, where 'a = nat] by simp
  then have "unat b div 16 < 16" by simp
  then show ?thesis by (simp add: nibble_round)
qed

lemma scan_more:
  "scan_bytes (Suc n) (char_for_nibble (unat b div 16) # char_for_nibble (unat b mod 16) # s) =
    map_option ((#) b) (scan_bytes n (skip_separator s))"
  by (simp add: byte_round del: scan_hex_byte.simps)

lemma addr_text_six:
  "length a = 6 \<Longrightarrow> \<exists>b1 b2 b3 b4 b5 b6. a = [b1, b2, b3, b4, b5, b6]"
  by (simp add: length_Suc_conv eval_nat_numeral) blast

lemma sscanf_text:
  assumes "length a = 6"
  shows "sscanf_bd_addr (bd_addr_to_str a @ s) = Some a" "length (bd_addr_to_str a) = 17"
proof -
  obtain b1 b2 b3 b4 b5 b6 where a: "a = [b1, b2, b3, b4, b5, b6]" using addr_text_six [OF assms] by blast
  have six: "6 = Suc (Suc (Suc (Suc (Suc (Suc 0)))))" by simp
  show "sscanf_bd_addr (bd_addr_to_str a @ s) = Some a"
    unfolding sscanf_bd_addr_def six by (simp add: a bd_addr_to_str_def scan_more del: scan_bytes.simps(2))
  show "length (bd_addr_to_str a) = 17" by (simp add: a bd_addr_to_str_def)
qed

lemma list_text_Cons:
  "a \<noteq> zero_addr \<Longrightarrow> list_text (a # as) = bd_addr_to_str a @ CHR '','' # list_text as"
  by (simp add: list_text_def)

lemma list_text_filter: "list_text (filter (\<lambda>a. a \<noteq> zero_addr) as) = list_text as"
  by (simp add: list_text_def)

lemma list_text_length:
  "\<forall>a \<in> set as. length a = 6 \<Longrightarrow> length (list_text as) = 18 * length (filter (\<lambda>a. a \<noteq> zero_addr) as)"
  by (induction as) (auto simp: list_text_def sscanf_text(2))

section \<open>The operations keep the invariant\<close>

lemma store_returns:
  assumes "length (al_slots d) \<le> 7" "\<forall>a \<in> set (al_slots d). length a = 6"
  shows "update_allowlist_to_property d = Some (d\<lparr>al_stored_list := Some (list_text (al_slots d))\<rparr>)"
proof -
  have "length (filter (\<lambda>a. a \<noteq> zero_addr) (al_slots d)) \<le> 7"
    using assms(1) length_filter_le order_trans by blast
  with list_text_length [OF assms(2)] show ?thesis
    by (simp add: update_allowlist_to_property_def)
qed

lemma find_index_from_first:
  "\<forall>x \<in> set as. \<not> P x \<Longrightarrow> P y \<Longrightarrow> find_index_from k P (as @ y # ys) = Some (k + length as)"
  by (induction as arbitrary: k) auto

lemma find_index_first: "\<forall>x \<in> set as. \<not> P x \<Longrightarrow> P y \<Longrightarrow> find_index P (as @ y # ys) = Some (length as)"
  using find_index_from_first [of as P y 0 ys] by (simp add: find_index_def)

lemma put_first_split:
  assumes "al_slots d = xs @ a # ys" "a \<notin> set xs" "length (al_slots d) \<le> 7"
    "\<forall>x \<in> set (al_slots d). length x = 6" "length b = 6"
  defines "d' \<equiv> d\<lparr>al_slots := xs @ b # ys\<rparr>"
  shows "put_first a b d = Some (True, d'\<lparr>al_stored_list := Some (list_text (xs @ b # ys))\<rparr>)"
proof -
  have i: "find_index (\<lambda>x. x = a) (al_slots d) = Some (length xs)"
    unfolding assms(1) by (rule find_index_first) (use assms(2) in auto)
  have u: "(al_slots d)[length xs := b] = xs @ b # ys" by (simp add: assms(1))
  have "update_allowlist_to_property d' = Some (d'\<lparr>al_stored_list := Some (list_text (xs @ b # ys))\<rparr>)"
    using store_returns [of d'] assms(1,3,4,5) by (simp add: d'_def)
  then show ?thesis by (simp add: put_first_def i u d'_def)
qed

lemma members_set: "set (members d) = set (al_slots d) - {zero_addr}"
  by (auto simp: members_def)

text \<open>What each operation does to the members.\<close>

definition same_frame :: "allowlist \<Rightarrow> allowlist \<Rightarrow> bool" where
  "same_frame d d' \<longleftrightarrow> length (al_slots d') = length (al_slots d) \<and> al_enforced d' = al_enforced d"

lemma zero_length: "length zero_addr = 6"
  by (simp add: zero_addr_def)

lemma add_effect:
  assumes "allow_inv d" "length a = 6" "a \<noteq> zero_addr"
  defines "room \<equiv> a \<notin> set (members d) \<and> length (members d) < length (al_slots d)"
  shows "\<exists>d'. uni_bt_allowlist_add_addr a d = Some (room, d') \<and> allow_inv d' \<and> same_frame d d' \<and>
    set (members d') = (if room then insert a (set (members d)) else set (members d))"
proof (cases "a \<in> set (al_slots d)")
  case True
  with assms(1,3) show ?thesis
    by (auto simp: uni_bt_allowlist_add_addr_def is_address_in_allowlist_def room_def members_set same_frame_def)
next
  case new: False
  show ?thesis
  proof (cases "zero_addr \<in> set (al_slots d)")
    case False
    then have "members d = al_slots d" by (auto simp: members_def filter_id_conv)
    moreover have "put_first zero_addr a d = Some (False, d)"
      using False by (auto simp: put_first_def find_index_None split: option.split dest!: find_index_Some(1,2))
    ultimately show ?thesis using new assms(1)
      by (auto simp: uni_bt_allowlist_add_addr_def is_address_in_allowlist_def room_def same_frame_def)
  next
    case True
    then obtain xs ys where s: "al_slots d = xs @ zero_addr # ys" "zero_addr \<notin> set xs"
      by (auto dest!: split_list_first)
    have "length (members d) < length (al_slots d)"
      using length_filter_less [OF True, of "\<lambda>a. a \<noteq> zero_addr"] by (simp add: members_def)
    moreover have "put_first zero_addr a d = Some (True, d\<lparr>al_slots := xs @ a # ys,
        al_stored_list := Some (list_text (xs @ a # ys))\<rparr>)"
      using put_first_split [OF s, of a] assms(1,2) by (simp add: allow_inv_def)
    ultimately show ?thesis using new assms(1-3) s
      by (auto simp: uni_bt_allowlist_add_addr_def is_address_in_allowlist_def room_def allow_inv_def
          members_def same_frame_def)
  qed
qed

lemma remove_effect:
  assumes "allow_inv d" "length a = 6" "a \<noteq> zero_addr"
  shows "\<exists>d'. uni_bt_allowlist_remove_addr a d = Some (a \<in> set (members d), d') \<and> allow_inv d' \<and>
    same_frame d d' \<and> set (members d') = set (members d) - {a}"
proof (cases "a \<in> set (al_slots d)")
  case False
  then have "put_first a zero_addr d = Some (False, d)"
    by (auto simp: put_first_def find_index_None split: option.split dest!: find_index_Some(1,2))
  with False assms(1) show ?thesis
    by (auto simp: uni_bt_allowlist_remove_addr_def members_set same_frame_def)
next
  case True
  then obtain xs ys where s: "al_slots d = xs @ a # ys" "a \<notin> set xs" by (auto dest!: split_list_first)
  have "put_first a zero_addr d = Some (True, d\<lparr>al_slots := xs @ zero_addr # ys,
      al_stored_list := Some (list_text (xs @ zero_addr # ys))\<rparr>)"
    using put_first_split [OF s, of zero_addr] assms(1) by (simp add: allow_inv_def zero_length)
  with True assms s show ?thesis
    by (auto simp: uni_bt_allowlist_remove_addr_def allow_inv_def members_def same_frame_def zero_length)
qed

lemma remove_all_effect:
  assumes "allow_inv d"
  shows "\<exists>d'. uni_bt_allowlist_remove_all d = Some (True, d') \<and> allow_inv d' \<and> same_frame d d' \<and> members d' = []"
proof -
  let ?d = "d\<lparr>al_slots := map (\<lambda>_. zero_addr) (al_slots d)\<rparr>"
  have "update_allowlist_to_property ?d = Some (?d\<lparr>al_stored_list := Some (list_text (al_slots ?d))\<rparr>)"
    using assms by (intro store_returns) (auto simp: allow_inv_def zero_length)
  moreover have "filter (\<lambda>a. a \<noteq> zero_addr) (map (\<lambda>_. zero_addr) xs) = []" for xs :: "bd_addr list"
    by simp
  ultimately show ?thesis using assms
    by (auto simp: uni_bt_allowlist_remove_all_def allow_inv_def members_def same_frame_def zero_length)
qed

section \<open>Restart\<close>

lemma load_step:
  assumes "al_slots d = as @ replicate (Suc m) zero_addr" "length as + Suc m \<le> 7"
    "\<forall>a \<in> set (b # as). length a = 6 \<and> a \<noteq> zero_addr" "b \<notin> set as"
  shows "load_addresses (list_text (b # bs)) d = load_addresses (list_text bs)
    (d\<lparr>al_slots := (as @ [b]) @ replicate m zero_addr,
       al_stored_list := Some (list_text ((as @ [b]) @ replicate m zero_addr))\<rparr>)"
proof -
  have t: "list_text (b # bs) = bd_addr_to_str b @ CHR '','' # list_text bs"
    using assms(3) by (intro list_text_Cons) simp
  have sc: "sscanf_bd_addr (list_text (b # bs)) = Some b" "drop 18 (list_text (b # bs)) = list_text bs"
    "list_text (b # bs) \<noteq> []"
    using sscanf_text [of b] assms(3) by (simp_all add: t)
  have "put_first zero_addr b d = Some (True, d\<lparr>al_slots := as @ b # replicate m zero_addr,
      al_stored_list := Some (list_text (as @ b # replicate m zero_addr))\<rparr>)"
    using assms by (intro put_first_split) (auto simp: zero_length)
  moreover have "b \<notin> set (al_slots d)" using assms by auto
  ultimately have "uni_bt_allowlist_add_addr b d = Some (True, d\<lparr>al_slots := (as @ [b]) @ replicate m zero_addr,
      al_stored_list := Some (list_text ((as @ [b]) @ replicate m zero_addr))\<rparr>)"
    by (simp add: uni_bt_allowlist_add_addr_def is_address_in_allowlist_def)
  then show ?thesis
    by (subst load_addresses.simps) (simp add: sc)
qed

lemma load_list:
  assumes "al_slots d = as @ replicate m zero_addr" "length as + m \<le> 7" "length bs \<le> m"
    "\<forall>a \<in> set (as @ bs). length a = 6 \<and> a \<noteq> zero_addr" "distinct (as @ bs)"
    "al_stored_list d = None \<or> al_stored_list d = Some s"
  shows "\<exists>d'. load_addresses (list_text bs) d = Some d' \<and>
    al_slots d' = as @ bs @ replicate (m - length bs) zero_addr \<and> al_enforced d' = al_enforced d \<and>
    al_stored_enabled d' = al_stored_enabled d \<and>
    al_stored_list d' = (if bs = [] then al_stored_list d else Some (list_text (al_slots d')))"
  using assms
proof (induction bs arbitrary: as m d s)
  case Nil
  then show ?case by (simp add: list_text_def load_addresses.simps)
next
  case (Cons b bs)
  then obtain m' where m: "m = Suc m'" by (cases m) auto
  let ?d = "d\<lparr>al_slots := (as @ [b]) @ replicate m' zero_addr,
       al_stored_list := Some (list_text ((as @ [b]) @ replicate m' zero_addr))\<rparr>"
  have "load_addresses (list_text (b # bs)) d = load_addresses (list_text bs) ?d"
    using Cons.prems m by (intro load_step) auto
  moreover have "\<exists>d'. load_addresses (list_text bs) ?d = Some d' \<and>
    al_slots d' = (as @ [b]) @ bs @ replicate (m' - length bs) zero_addr \<and> al_enforced d' = al_enforced ?d \<and>
    al_stored_enabled d' = al_stored_enabled ?d \<and>
    al_stored_list d' = (if bs = [] then al_stored_list ?d else Some (list_text (al_slots d')))"
    using Cons.prems m by (intro Cons.IH) auto
  ultimately show ?case using m by auto
qed

lemma restart_effect:
  assumes "allow_inv d"
  shows "\<exists>d'. restart d = Some d' \<and> allow_inv d' \<and> same_frame d d' \<and> members d' = members d"
proof -
  let ?n = "length (al_slots d)"
  let ?d = "d\<lparr>al_slots := map (\<lambda>_. zero_addr) (al_slots d), al_enforced := al_stored_enabled d\<rparr>"
  have slots: "al_slots ?d = [] @ replicate ?n zero_addr" by (simp add: map_replicate_const)
  have mem: "length (members d) \<le> ?n" "\<forall>a \<in> set (members d). length a = 6 \<and> a \<noteq> zero_addr" "distinct (members d)"
    using assms by (auto simp: members_def allow_inv_def)
  obtain d' where d': "load_addresses (list_text (members d)) ?d = Some d'"
      "al_slots d' = members d @ replicate (?n - length (members d)) zero_addr"
      "al_enforced d' = al_stored_enabled d" "al_stored_enabled d' = al_stored_enabled d"
      "al_stored_list d' = (if members d = [] then al_stored_list d else Some (list_text (al_slots d')))"
    using load_list [of ?d "[]" ?n "members d"] slots mem assms
    by (cases "al_stored_list d") (auto simp: allow_inv_def)
  have same: "filter (\<lambda>a. a \<noteq> zero_addr) (members d) = members d" by (simp add: members_def)
  have m: "members d' = members d" by (simp add: members_def d'(2) same [unfolded members_def])
  have t: "list_text (al_slots d') = list_text (al_slots d)"
    using m list_text_filter [of "al_slots d"] list_text_filter [of "al_slots d'"] by (simp add: members_def)
  have inv': "allow_inv d'"
    using assms d'(2-5) mem m t by (auto simp: allow_inv_def zero_length)
  have frame: "same_frame d d'" using d'(2,3) mem(1) assms by (simp add: same_frame_def allow_inv_def)
  show ?thesis
  proof (cases "al_stored_list d")
    case None
    then have "members d = []" using assms by (auto simp: allow_inv_def split: if_splits)
    with None have "load_addresses (list_text (members d)) ?d = Some ?d"
      by (simp add: list_text_def load_addresses.simps)
    with None inv' frame m d'(1) show ?thesis
      by (auto simp: restart_def uni_bt_allowlist_init_def update_allowlist_from_property_def)
  next
    case (Some s)
    then have "s = list_text (members d)"
      using assms list_text_filter [of "al_slots d"] by (auto simp: allow_inv_def members_def split: if_splits)
    with Some inv' frame m d'(1) show ?thesis
      by (auto simp: restart_def uni_bt_allowlist_init_def update_allowlist_from_property_def)
  qed
qed

section \<open>The specification\<close>

text \<open>A set of at most \<open>n\<close> addresses and a switch, which a restart does not change.\<close>

fun allow_spec :: "nat \<Rightarrow> allow_event \<Rightarrow> bd_addr set \<times> bool \<Rightarrow> bd_addr set \<times> bool" where
  "allow_spec n (Al_Add a) (S, on) = (if card S < n then insert a S else S, on)"
| "allow_spec n (Al_Remove a) (S, on) = (S - {a}, on)"
| "allow_spec n Al_Remove_All (S, on) = ({}, on)"
| "allow_spec n (Al_Enable b) (S, on) = (S, b)"
| "allow_spec n Al_Restart (S, on) = (S, on)"

definition allow_abs :: "allowlist \<Rightarrow> bd_addr set \<times> bool" where
  "allow_abs d = (set (members d), al_enforced d)"

lemma allow_step_sim:
  assumes "allow_inv d" "allow_ok e"
  shows "\<exists>d'. allow_step e d = Some d' \<and> allow_inv d' \<and> length (al_slots d') = length (al_slots d) \<and>
    allow_abs d' = allow_spec (length (al_slots d)) e (allow_abs d)"
proof (cases e)
  case (Al_Add a)
  have "card (set (members d)) = length (members d)" using assms(1) by (simp add: allow_inv_def distinct_card)
  with add_effect [of d a] assms Al_Add show ?thesis
    by (auto simp: allow_abs_def same_frame_def insert_absorb)
next
  case (Al_Remove a)
  with remove_effect [of d a] assms show ?thesis by (auto simp: allow_abs_def same_frame_def)
next
  case Al_Remove_All
  with remove_all_effect [OF assms(1)] show ?thesis by (auto simp: allow_abs_def same_frame_def)
next
  case (Al_Enable b)
  with assms(1) show ?thesis
    by (auto simp: uni_bt_allowlist_set_enabled_def allow_inv_def allow_abs_def members_def)
next
  case Al_Restart
  with restart_effect [OF assms(1)] show ?thesis by (auto simp: allow_abs_def same_frame_def)
qed

definition allow_fresh :: "nat \<Rightarrow> allowlist" where
  "allow_fresh n = \<lparr>al_slots = replicate n zero_addr, al_enforced = False, al_stored_list = None,
     al_stored_enabled = False\<rparr>"

lemma fresh_inv: "n \<le> 7 \<Longrightarrow> allow_inv (allow_fresh n)" "allow_abs (allow_fresh n) = ({}, False)"
  by (auto simp: allow_inv_def allow_fresh_def members_def allow_abs_def zero_length)

lemma allow_run_sim:
  assumes "allow_inv d" "\<forall>e \<in> set es. allow_ok e"
  shows "\<exists>d'. run_steps allow_step es d = Some d' \<and> allow_inv d' \<and>
    allow_abs d' = fold (allow_spec (length (al_slots d))) es (allow_abs d)"
  using assms
proof (induction es arbitrary: d)
  case Nil
  then show ?case by simp
next
  case (Cons e es)
  obtain d1 where d1: "allow_step e d = Some d1" "allow_inv d1" "length (al_slots d1) = length (al_slots d)"
      "allow_abs d1 = allow_spec (length (al_slots d)) e (allow_abs d)"
    using allow_step_sim [of d e] Cons.prems by auto
  with Cons.IH [of d1] Cons.prems show ?case by simp
qed

text \<open>
  C34: the allow list is a set of at most \<open>n\<close> addresses with a switch, for any number of slots up to
  seven: from a device that was never configured, any sequence of additions, removals, switching and
  restarts leaves exactly the members and the switch of the specification, for which a restart changes
  nothing; and an address may connect iff the switch is off or it is a member.
\<close>

theorem allowlist_refines_set:
  assumes "n \<le> 7" "\<forall>e \<in> set es. allow_ok e" "a \<noteq> zero_addr"
  shows "\<exists>d. run_steps allow_step es (allow_fresh n) = Some d \<and>
    (set (members d), al_enforced d) = fold (allow_spec n) es ({}, False) \<and>
    (uni_bt_allowlist_is_allowed_addr a d \<longleftrightarrow> \<not> al_enforced d \<or> a \<in> set (members d))"
proof -
  have n: "length (al_slots (allow_fresh n)) = n" by (simp add: allow_fresh_def)
  obtain d where d: "run_steps allow_step es (allow_fresh n) = Some d"
      "allow_abs d = fold (allow_spec n) es ({}, False)"
    using allow_run_sim [OF fresh_inv(1) [OF assms(1)] assms(2)] by (auto simp: n fresh_inv(2))
  have "uni_bt_allowlist_is_allowed_addr a d \<longleftrightarrow> \<not> al_enforced d \<or> a \<in> set (members d)"
    using assms(3) by (simp add: uni_bt_allowlist_is_allowed_addr_def is_address_in_allowlist_def members_set)
  with d show ?thesis by (intro exI [of _ d]) (simp add: allow_abs_def)
qed

theorem allowlist_refines_set_witness:
  "\<exists>d. run_steps allow_step [Al_Enable True, Al_Add [1, 2, 3, 4, 5, 0xab], Al_Restart] (allow_fresh 4) = Some d \<and>
    set (members d) = {[1, 2, 3, 4, 5, 0xab]} \<and> \<not> uni_bt_allowlist_is_allowed_addr [9, 9, 9, 9, 9, 9] d"
  using allowlist_refines_set [of 4 "[Al_Enable True, Al_Add [1, 2, 3, 4, 5, 0xab], Al_Restart]" "[9, 9, 9, 9, 9, 9]"]
  by (auto simp: zero_addr_def)

text \<open>The answers: an addition succeeds iff the address is new and there is room, a removal iff it was there.\<close>

theorem allowlist_answers:
  assumes "allow_inv d" "length a = 6" "a \<noteq> zero_addr"
  shows "map_option fst (uni_bt_allowlist_add_addr a d) =
      Some (a \<notin> set (members d) \<and> length (members d) < length (al_slots d)) \<and>
    map_option fst (uni_bt_allowlist_remove_addr a d) = Some (a \<in> set (members d))"
  using add_effect [OF assms] remove_effect [OF assms] by auto

text \<open>
  With more than seven slots the text of the list does not fit the array it is built in: the eighth
  address overruns it.
\<close>

theorem eighth_address_overruns:
  assumes "zero_addr \<in> set (al_slots d)" "\<forall>x \<in> set (al_slots d). length x = 6" "length (members d) = 7"
    "length a = 6" "a \<notin> set (al_slots d)"
  shows "uni_bt_allowlist_add_addr a d = None"
proof -
  obtain xs ys where s: "al_slots d = xs @ zero_addr # ys" "zero_addr \<notin> set xs"
    using assms(1) by (auto dest!: split_list_first)
  have a: "a \<noteq> zero_addr" using assms(1,5) by auto
  have i: "find_index (\<lambda>x. x = zero_addr) (al_slots d) = Some (length xs)"
    unfolding s(1) by (rule find_index_first) (use s(2) in auto)
  have u: "(al_slots d)[length xs := a] = xs @ a # ys" by (simp add: s(1))
  have "length (list_text (xs @ a # ys)) = 18 * length (filter (\<lambda>a. a \<noteq> zero_addr) (xs @ a # ys))"
    using assms(2,4) s(1) by (intro list_text_length) auto
  also have "\<dots> = 18 * Suc (length (members d))" using a by (simp add: members_def s(1))
  finally have "length (list_text (xs @ a # ys)) = 144" using assms(3) by simp
  then show ?thesis using assms(5)
    by (simp add: uni_bt_allowlist_add_addr_def is_address_in_allowlist_def put_first_def i u
        update_allowlist_to_property_def)
qed

text \<open>The zero address marks a free slot, so it is always allowed while there is one.\<close>

theorem zero_address_allowed:
  "zero_addr \<in> set (al_slots d) \<Longrightarrow> uni_bt_allowlist_is_allowed_addr zero_addr d"
  by (simp add: uni_bt_allowlist_is_allowed_addr_def is_address_in_allowlist_def)

section \<open>The switch for virtual devices\<close>

text \<open>
  \<^verbatim>\<open>uni_virtual_device.c\<close>: whether pads with a touchpad get a virtual mouse, in memory and in a property.
\<close>

record virtual_switch =
  vs_enabled :: bool
  vs_stored :: bool

definition uni_virtual_device_set_enabled :: "bool \<Rightarrow> virtual_switch \<Rightarrow> virtual_switch" where
  "uni_virtual_device_set_enabled on v = (if on \<noteq> vs_enabled v then v\<lparr>vs_enabled := on, vs_stored := on\<rparr> else v)"

definition uni_virtual_device_is_enabled :: "virtual_switch \<Rightarrow> bool" where
  "uni_virtual_device_is_enabled v = vs_enabled v"

definition uni_virtual_device_init :: "virtual_switch \<Rightarrow> virtual_switch" where
  "uni_virtual_device_init v = v\<lparr>vs_enabled := vs_stored v\<rparr>"

text \<open>After start-up, the last setting is the one in force and the one a restart finds.\<close>

theorem virtual_switch_survives_restart:
  assumes "v = fold uni_virtual_device_set_enabled ons (uni_virtual_device_init w)"
  shows "vs_enabled (uni_virtual_device_init (v\<lparr>vs_enabled := False\<rparr>)) = vs_enabled v \<and>
    (ons \<noteq> [] \<longrightarrow> uni_virtual_device_is_enabled v = last ons)"
proof -
  have "vs_stored (fold uni_virtual_device_set_enabled ons x) = vs_enabled (fold uni_virtual_device_set_enabled ons x) \<and>
      vs_enabled (fold uni_virtual_device_set_enabled ons x) = (if ons = [] then vs_enabled x else last ons)"
    if "vs_stored x = vs_enabled x" for x
    using that by (induction ons arbitrary: x) (auto simp: uni_virtual_device_set_enabled_def)
  from this [of "uni_virtual_device_init w"] assms show ?thesis
    by (simp add: uni_virtual_device_init_def uni_virtual_device_is_enabled_def)
qed

end
