(* ===== verification/Device_Table.thy ===== *)
theory Device_Table
  imports Hid_Device Rumble "HOL-Library.Multiset"
begin

text \<open>
  The invariant of the device table of \<^verbatim>\<open>Hid_Device\<close> and its properties: slots, addresses and
  parent-child links stay consistent over any sequence of operations; outgoing reports; the parser
  tables; the system button.
\<close>

section \<open>Access to the table\<close>

abbreviation size_of :: "hid_system \<Rightarrow> nat" where
  "size_of s \<equiv> length (sys_devices s)"

lemma size_upd [simp]: "size_of (upd_dev i f s) = size_of s"
  by (simp add: upd_dev_def)

lemma dev_upd: "i < size_of s \<Longrightarrow> dev (upd_dev i f s) j = (if j = i then f (dev s i) else dev s j)"
  by (auto simp: dev_def upd_dev_def nth_list_update)

lemma timers_upd [simp]: "sys_timers (upd_dev i f s) = sys_timers s"
  by (simp add: upd_dev_def)

lemma dev_tell [simp]: "dev (tell e s) j = dev s j" "size_of (tell e s) = size_of s"
  "sys_timers (tell e s) = sys_timers s"
  by (simp_all add: dev_def tell_def)

lemma dev_remove_timer [simp]:
  "dev (remove_timer i t s) j = dev s j" "size_of (remove_timer i t s) = size_of s"
  "sys_timers (remove_timer i t s) = sys_timers s - {(i, t)}"
  by (simp_all add: dev_def remove_timer_def)

lemma dev_connected [simp]:
  "dev (uni_hid_device_on_connected i b s) j = dev s j"
  "size_of (uni_hid_device_on_connected i b s) = size_of s"
  "sys_timers (uni_hid_device_on_connected i b s) = sys_timers s"
  by (simp_all add: uni_hid_device_on_connected_def)

section \<open>The invariant\<close>

definition link_ok :: "hid_system \<Rightarrow> nat \<Rightarrow> bool" where
  "link_ok s i \<longleftrightarrow>
     (\<forall>c. hd_child (dev s i) = Some c \<longrightarrow> c < size_of s \<and> c \<noteq> i \<and> hd_parent (dev s c) = Some i \<and>
        hd_child (dev s c) = None) \<and>
     (\<forall>p. hd_parent (dev s i) = Some p \<longrightarrow> p < size_of s \<and> hd_child (dev s p) = Some i)"

definition slot_ok :: "hid_system \<Rightarrow> nat \<Rightarrow> bool" where
  "slot_ok s i \<longleftrightarrow>
     (is_free (dev s i) \<longrightarrow> dev s i = hd_init) \<and>
     ((i, Connection_Timer) \<in> sys_timers s \<longrightarrow> \<not> is_free (dev s i) \<and> hd_parent (dev s i) = None)"

definition table_inv :: "hid_system \<Rightarrow> bool" where
  "table_inv s \<longleftrightarrow> (\<forall>i < size_of s. link_ok s i \<and> slot_ok s i) \<and>
     (\<forall>i < size_of s. \<forall>j < size_of s. i \<noteq> j \<longrightarrow> hd_parent (dev s i) = None \<longrightarrow> hd_parent (dev s j) = None \<longrightarrow>
        \<not> is_free (dev s i) \<longrightarrow> btaddr (hd_conn (dev s i)) \<noteq> btaddr (hd_conn (dev s j)))"

lemma link_ok_same:
  assumes "link_ok s j" "size_of s' = size_of s" "dev s' j = dev s j"
    "\<And>c. hd_child (dev s j) = Some c \<Longrightarrow> hd_parent (dev s' c) = hd_parent (dev s c) \<and> hd_child (dev s' c) = hd_child (dev s c)"
    "\<And>p. hd_parent (dev s j) = Some p \<Longrightarrow> hd_child (dev s' p) = hd_child (dev s p)"
  shows "link_ok s' j"
  using assms(1) unfolding link_ok_def assms(2,3)
  by (intro conjI allI impI) (use assms(4,5) in blast | (drule conjunct1 conjunct2, use assms(4,5) in \<open>fastforce\<close>))+

text \<open>Steps that change neither links nor addresses, and touch no free slot.\<close>

definition same_table :: "hid_system \<Rightarrow> hid_system \<Rightarrow> bool" where
  "same_table s s' \<longleftrightarrow> size_of s' = size_of s \<and>
     (\<forall>t. (t, Connection_Timer) \<in> sys_timers s' \<longrightarrow> (t, Connection_Timer) \<in> sys_timers s) \<and>
     (\<forall>i < size_of s. hd_child (dev s' i) = hd_child (dev s i) \<and> hd_parent (dev s' i) = hd_parent (dev s i) \<and>
        btaddr (hd_conn (dev s' i)) = btaddr (hd_conn (dev s i)) \<and>
        (is_free (dev s i) \<longrightarrow> dev s' i = dev s i))"

lemma same_table_refl [simp]: "same_table s s"
  by (simp add: same_table_def)

lemma same_table_trans: "same_table a b \<Longrightarrow> same_table b c \<Longrightarrow> same_table a c"
  unfolding same_table_def by (auto simp: is_free_def)

lemma same_table_inv:
  assumes "same_table s s'" "table_inv s"
  shows "table_inv s'"
proof -
  have n: "size_of s' = size_of s" using assms(1) by (simp add: same_table_def)
  have e: "hd_child (dev s' i) = hd_child (dev s i)" "hd_parent (dev s' i) = hd_parent (dev s i)"
    "btaddr (hd_conn (dev s' i)) = btaddr (hd_conn (dev s i))" "is_free (dev s' i) = is_free (dev s i)"
    "is_free (dev s i) \<Longrightarrow> dev s' i = dev s i" if "i < size_of s" for i
    using assms(1) that by (auto simp: same_table_def is_free_def)
  have t: "(i, Connection_Timer) \<in> sys_timers s' \<Longrightarrow> (i, Connection_Timer) \<in> sys_timers s" for i
    using assms(1) by (auto simp: same_table_def)
  have "link_ok s' i" if "i < size_of s" for i
    using assms(2) that e unfolding table_inv_def link_ok_def n by metis
  moreover have "slot_ok s' i" if "i < size_of s" for i
    using assms(2) that e t unfolding table_inv_def slot_ok_def by metis
  ultimately show ?thesis
    using assms(2) e unfolding table_inv_def n by metis
qed

lemma same_table_upd:
  assumes "i < size_of s" "\<not> is_free (dev s i)"
    "\<And>d. hd_child (f d) = hd_child d" "\<And>d. hd_parent (f d) = hd_parent d"
    "\<And>d. btaddr (hd_conn (f d)) = btaddr (hd_conn d)"
  shows "same_table s (upd_dev i f s)"
  using assms by (auto simp: same_table_def dev_upd)

lemma same_table_tell [simp]: "same_table s (tell e s')= same_table s s'"
  by (simp add: same_table_def)

lemma same_table_remove_timer [simp]: "same_table s s' \<Longrightarrow> same_table s (remove_timer i t s')"
  by (simp add: same_table_def)

lemma same_table_on_connected [simp]:
  "same_table s (uni_hid_device_on_connected i b s') = same_table s s'"
  by (simp add: uni_hid_device_on_connected_def)

lemma conn_addr [simp]:
  "btaddr (uni_bt_conn_set_connected b c) = btaddr c" "btaddr (uni_bt_conn_disconnect c) = btaddr c"
  "btaddr (uni_bt_conn_set_state st c) = btaddr c" "btaddr (uni_bt_bredr_disconnect gap c) = btaddr c"
  by (simp_all add: uni_bt_conn_set_connected_def uni_bt_conn_disconnect_def uni_bt_conn_set_state_def
      uni_bt_bredr_disconnect_def)

lemma disconnect_self_same:
  assumes "i < size_of s" "\<not> is_free (dev s i)"
  shows "same_table s (disconnect_self gap i s)"
proof -
  define s1 where "s1 = (if \<not> uni_hid_device_is_virtual_device (dev s i) \<and> gap (handle (hd_conn (dev s i))) = GAP_ACL
    then upd_dev i (\<lambda>d. d\<lparr>hd_conn := uni_bt_bredr_disconnect gap (hd_conn d)\<rparr>) s else s)"
  have a: "same_table s s1" unfolding s1_def using assms by (auto intro!: same_table_upd)
  then have "i < size_of s1" "\<not> is_free (dev s1 i)"
    using assms by (auto simp: same_table_def is_free_def)
  then have "same_table s1 (upd_dev i (\<lambda>d. d\<lparr>hd_conn := uni_bt_conn_disconnect (hd_conn d)\<rparr>) s1)"
    by (auto intro!: same_table_upd)
  from same_table_trans [OF a this] show ?thesis
    unfolding disconnect_self_def Let_def s1_def [symmetric] by simp
qed

lemma same_tableD:
  assumes "same_table s s'" "i < size_of s"
  shows "size_of s' = size_of s" "hd_child (dev s' i) = hd_child (dev s i)"
    "hd_parent (dev s' i) = hd_parent (dev s i)" "is_free (dev s' i) = is_free (dev s i)"
    "btaddr (hd_conn (dev s' i)) = btaddr (hd_conn (dev s i))"
  using assms by (auto simp: same_table_def is_free_def)

lemma table_slot:
  assumes "table_inv s" "i < size_of s"
  shows "link_ok s i" "slot_ok s i"
  using assms unfolding table_inv_def by blast+

lemma table_links:
  assumes "table_inv s" "i < size_of s" "hd_child (dev s i) = Some c"
  shows "c < size_of s" "c \<noteq> i" "hd_parent (dev s c) = Some i" "hd_child (dev s c) = None"
  using table_slot(1) [OF assms(1,2)] assms(3) unfolding link_ok_def by blast+

lemma table_parent:
  assumes "table_inv s" "i < size_of s" "hd_parent (dev s i) = Some p"
  shows "p < size_of s" "hd_child (dev s p) = Some i"
  using table_slot(1) [OF assms(1,2)] assms(3) unfolding link_ok_def by blast+

lemma hd_init_fields [simp]:
  "hd_child hd_init = None" "hd_parent hd_init = None" "is_free hd_init"
  by (simp_all add: hd_init_def hd_zero_def is_free_def uni_bt_conn_init_def conn_zero_def)

lemma table_free:
  assumes "table_inv s" "i < size_of s"
  shows "is_free (dev s i) \<Longrightarrow> dev s i = hd_init"
    "(i, Connection_Timer) \<in> sys_timers s \<Longrightarrow> \<not> is_free (dev s i) \<and> hd_parent (dev s i) = None"
  using table_slot(2) [OF assms] unfolding slot_ok_def by blast+

lemma child_not_free:
  assumes "table_inv s" "i < size_of s" "hd_child (dev s i) = Some c"
  shows "\<not> is_free (dev s c)" "\<not> is_free (dev s i)"
  using table_links [OF assms] table_free(1) [OF assms(1)] assms by (metis hd_init_fields(1,2) option.distinct(1))+

section \<open>Disconnecting and deleting\<close>

lemma disconnect_same:
  assumes "table_inv s" "i < size_of s" "\<not> is_free (dev s i)"
  shows "\<exists>s'. uni_hid_device_disconnect gap i s = Some s' \<and> same_table s s'"
proof (cases "hd_child (dev s i)")
  case None
  then show ?thesis
    using disconnect_self_same [OF assms(2,3)] by (simp add: uni_hid_device_disconnect_def)
next
  case (Some c)
  note l = table_links [OF assms(1,2) Some] child_not_free [OF assms(1,2) Some]
  define s1 where "s1 = disconnect_self gap c s"
  have a: "same_table s s1" unfolding s1_def using l by (intro disconnect_self_same) simp_all
  then have "same_table s1 (disconnect_self gap i s1)"
    using same_tableD [OF a assms(2)] assms by (intro disconnect_self_same) simp_all
  with a have "same_table s (disconnect_self gap i s1)" by (rule same_table_trans)
  moreover have "size_of s = Suc (size_of s - 1)" using assms(2) by simp
  then have "disconnect_rec (size_of s) gap c s = Some s1"
    using l by (metis (no_types) disconnect_rec.simps(2) option.simps(4) s1_def)
  ultimately show ?thesis
    using Some by (simp add: uni_hid_device_disconnect_def)
qed

definition erased :: "hid_system \<Rightarrow> nat \<Rightarrow> nat \<Rightarrow> bool" where
  "erased s i j \<longleftrightarrow> j = i \<or> hd_child (dev s i) = Some j"

lemma dev_delete_self:
  "i < size_of s \<Longrightarrow> dev (delete_self i s) j = (if j = i then hd_init else dev s j)"
  "size_of (delete_self i s) = size_of s"
  "sys_timers (delete_self i s) = sys_timers s - {(i, Connection_Timer)}"
  "sys_events (delete_self i s) = sys_events s"
  by (simp_all add: delete_self_def uni_hid_device_init_def dev_upd)
     (simp add: upd_dev_def remove_timer_def)

lemma delete_result:
  assumes "table_inv s" "i < size_of s"
  shows "\<exists>s'. uni_hid_device_delete i s = Some s' \<and> size_of s' = size_of s \<and>
    (\<forall>j. dev s' j = (if erased s i j then hd_init else dev s j)) \<and>
    sys_timers s' = {(j, t) \<in> sys_timers s. \<not> (erased s i j \<and> t = Connection_Timer)} \<and>
    sys_events s' = sys_events s"
proof (cases "hd_child (dev s i)")
  case None
  then show ?thesis
    using assms(2) by (auto simp: uni_hid_device_delete_def dev_delete_self erased_def)
next
  case (Some c)
  note l = table_links [OF assms(1,2) Some]
  have "size_of s = Suc (size_of s - 1)" using assms(2) by simp
  then have "delete_rec (size_of s) c s = Some (delete_self c s)"
    using l by (metis (no_types) delete_rec.simps(2) option.simps(4))
  with Some l assms(2) show ?thesis
    by (auto simp: uni_hid_device_delete_def dev_delete_self erased_def)
qed

lemma table_unique:
  assumes "table_inv s" "i < size_of s" "j < size_of s" "i \<noteq> j" "hd_parent (dev s i) = None"
    "hd_parent (dev s j) = None" "\<not> is_free (dev s i)"
  shows "btaddr (hd_conn (dev s i)) \<noteq> btaddr (hd_conn (dev s j))"
  using assms unfolding table_inv_def by blast

lemma table_invI:
  assumes "\<And>i. i < size_of s \<Longrightarrow> link_ok s i" "\<And>i. i < size_of s \<Longrightarrow> slot_ok s i"
    "\<And>i j. \<lbrakk>i < size_of s; j < size_of s; i \<noteq> j; hd_parent (dev s i) = None; hd_parent (dev s j) = None;
       \<not> is_free (dev s i)\<rbrakk> \<Longrightarrow> btaddr (hd_conn (dev s i)) \<noteq> btaddr (hd_conn (dev s j))"
  shows "table_inv s"
  using assms unfolding table_inv_def by blast

lemma delete_inv:
  assumes inv: "table_inv s" and i: "i < size_of s" and top: "hd_parent (dev s i) = None"
    and s': "uni_hid_device_delete i s = Some s'"
  shows "table_inv s'"
proof -
  have n: "size_of s' = size_of s"
    and d: "dev s' j = (if erased s i j then hd_init else dev s j)" for j
    using delete_result [OF inv i] s' by auto
  have t: "(j, Connection_Timer) \<in> sys_timers s' \<longleftrightarrow> (j, Connection_Timer) \<in> sys_timers s \<and> \<not> erased s i j" for j
    using delete_result [OF inv i] s' by auto
  have e_child: "erased s i k \<longleftrightarrow> erased s i j" if "j < size_of s" "hd_child (dev s j) = Some k" for j k
    using that table_links [OF inv that] table_links [OF inv i] top unfolding erased_def
    by (metis option.distinct(1) option.inject)
  have e_parent: "erased s i p \<longleftrightarrow> erased s i j" if "j < size_of s" "hd_parent (dev s j) = Some p" for j p
    using e_child table_parent [OF inv that] by blast
  show ?thesis
  proof (rule table_invI)
    fix j assume "j < size_of s'"
    then have j: "j < size_of s" by (simp add: n)
    show "link_ok s' j"
    proof (cases "erased s i j")
      case True
      then show ?thesis by (simp add: link_ok_def d)
    next
      case False
      then have dj: "dev s' j = dev s j" by (simp add: d)
      have "c < size_of s \<and> c \<noteq> j \<and> hd_parent (dev s' c) = Some j \<and> hd_child (dev s' c) = None"
        if c: "hd_child (dev s j) = Some c" for c
        using table_links [OF inv j c] e_child [OF j c] False by (simp add: d)
      moreover have "p < size_of s \<and> hd_child (dev s' p) = Some j" if p: "hd_parent (dev s j) = Some p" for p
        using table_parent [OF inv j p] e_parent [OF j p] False by (simp add: d)
      ultimately show ?thesis
        unfolding link_ok_def dj n by blast
    qed
    show "slot_ok s' j"
      unfolding slot_ok_def d t using table_free [OF inv j] by (auto split: if_splits)
  next
    fix j k assume "j < size_of s'" "k < size_of s'" "j \<noteq> k" "hd_parent (dev s' j) = None"
      "hd_parent (dev s' k) = None" "\<not> is_free (dev s' j)"
    then show "btaddr (hd_conn (dev s' j)) \<noteq> btaddr (hd_conn (dev s' k))"
      using table_unique [OF inv, of j k] unfolding d n
      by (auto split: if_splits simp: hd_init_fields is_free_def)
         (auto simp: hd_init_def hd_zero_def uni_bt_conn_init_def conn_zero_def)
  qed
qed

section \<open>Creating\<close>

lemma free_unlinked:
  assumes "table_inv s" "i < size_of s" "is_free (dev s i)" "j < size_of s"
  shows "hd_child (dev s j) \<noteq> Some i" "hd_parent (dev s j) \<noteq> Some i"
  using child_not_free [OF assms(1,4)] table_parent [OF assms(1,4)] table_free(1) [OF assms(1-3)] assms
  by (metis, metis hd_init_fields(1) option.distinct(1))

lemma find_free:
  assumes "find_index is_free (sys_devices s) = Some i"
  shows "i < size_of s" "is_free (dev s i)" "\<And>j. j < i \<Longrightarrow> \<not> is_free (dev s j)"
  using find_index_Some [OF assms] by (simp_all add: dev_def)

lemma no_instance:
  assumes "uni_hid_device_get_instance_for_address a s = None" "j < size_of s" "hd_parent (dev s j) = None"
  shows "btaddr (hd_conn (dev s j)) \<noteq> a"
proof -
  have "\<forall>d \<in> set (sys_devices s). \<not> (hd_parent d = None \<and> a = btaddr (hd_conn d))"
    using assms(1) by (simp add: uni_hid_device_get_instance_for_address_def find_index_None
        uni_hid_device_is_virtual_device_def)
  from bspec [OF this nth_mem [OF assms(2)]] assms(3) show ?thesis by (auto simp: dev_def)
qed

definition new_device :: "bd_addr \<Rightarrow> hid_device" where
  "new_device a = hd_zero\<lparr>hd_conn := conn_zero\<lparr>btaddr := a\<rparr>\<rparr>"

lemma new_device_fields [simp]:
  "hd_child (new_device a) = None" "hd_parent (new_device a) = None" "is_free (new_device a) = (a = zero_addr)"
  "btaddr (hd_conn (new_device a)) = a"
  by (simp_all add: new_device_def hd_zero_def is_free_def)

lemma create_result:
  assumes inv: "table_inv s" and i: "find_index is_free (sys_devices s) = Some i"
  shows "\<exists>s'. uni_hid_device_create a s = Some (Some i, s') \<and> size_of s' = size_of s \<and>
    (\<forall>j. dev s' j = (if j = i then new_device a else dev s j)) \<and>
    sys_timers s' = insert (i, Connection_Timer) (sys_timers s) \<and> sys_events s' = sys_events s"
proof -
  note f = find_free [OF i]
  have "(i, Connection_Timer) \<notin> sys_timers s" using table_free(2) [OF inv f(1)] f(2) by blast
  with i f(1) show ?thesis
    by (simp add: uni_hid_device_create_def start_connection_timeout_def add_timer_def dev_upd [symmetric]
        new_device_def [symmetric])
       (simp add: dev_def upd_dev_def nth_list_update)
qed

lemma create_inv:
  assumes inv: "table_inv s" and a: "a \<noteq> zero_addr"
    and fresh: "uni_hid_device_get_instance_for_address a s = None"
    and i: "find_index is_free (sys_devices s) = Some i"
    and s': "uni_hid_device_create a s = Some (r, s')"
  shows "table_inv s'"
proof -
  note f = find_free [OF i]
  have n: "size_of s' = size_of s" and d: "dev s' j = (if j = i then new_device a else dev s j)"
    and t: "sys_timers s' = insert (i, Connection_Timer) (sys_timers s)" for j
    using create_result [OF inv i, of a] s' by auto
  show ?thesis
  proof (rule table_invI)
    fix j assume "j < size_of s'"
    then have j: "j < size_of s" by (simp add: n)
    show "link_ok s' j"
    proof (cases "j = i")
      case True
      then show ?thesis by (simp add: link_ok_def d)
    next
      case False
      have same: "hd_child (dev s j) = Some c \<or> hd_parent (dev s j) = Some c \<Longrightarrow> dev s' c = dev s c" for c
        using free_unlinked [OF inv f(1,2) j] by (auto simp: d)
      show ?thesis
        by (rule link_ok_same [OF table_slot(1) [OF inv j] n]) (use False same in \<open>simp_all add: d\<close>)
    qed
    show "slot_ok s' j"
      using table_slot(2) [OF inv j] a unfolding slot_ok_def d t by auto
  next
    fix j k assume "j < size_of s'" "k < size_of s'" "j \<noteq> k" "hd_parent (dev s' j) = None"
      "hd_parent (dev s' k) = None" "\<not> is_free (dev s' j)"
    then show "btaddr (hd_conn (dev s' j)) \<noteq> btaddr (hd_conn (dev s' k))"
      using table_unique [OF inv, of j k] no_instance [OF fresh] unfolding d n
      by (auto split: if_splits)
  qed
qed

lemma create_virtual_result:
  assumes p: "p < size_of s" and i: "find_index is_free (sys_devices s) = Some i" and "i \<noteq> p"
  shows "\<exists>s' d. uni_hid_device_create_virtual True p s = (Some i, s') \<and> size_of s' = size_of s \<and>
    (\<forall>j. dev s' j = (if j = i then d else if j = p then (dev s p)\<lparr>hd_child := Some i\<rparr> else dev s j)) \<and>
    hd_parent d = Some p \<and> hd_child d = hd_child (dev s i) \<and> btaddr (hd_conn d) = btaddr (hd_conn (dev s p)) \<and>
    hd_controller_type d = hd_controller_type (dev s p) \<and> hd_report_parser d = hd_report_parser (dev s i) \<and>
    sys_timers s' = sys_timers s \<and> sys_events s' = sys_events s"
  using find_free(1) [OF i] i assms
  by (simp add: uni_hid_device_create_virtual_def Let_def dev_upd)
     (simp add: upd_dev_def)

lemma create_virtual_inv:
  assumes inv: "table_inv s" and p: "p < size_of s" "\<not> is_free (dev s p)" "hd_parent (dev s p) = None"
    "hd_child (dev s p) = None"
    and s': "uni_hid_device_create_virtual b p s = (r, s')"
  shows "table_inv s'"
proof (cases "b \<and> find_index is_free (sys_devices s) \<noteq> None")
  case False
  with s' inv show ?thesis by (auto simp: uni_hid_device_create_virtual_def split: if_splits)
next
  case True
  then obtain i where b: "b" and i: "find_index is_free (sys_devices s) = Some i" by auto
  note f = find_free [OF i]
  have ip: "i \<noteq> p" using f(2) p(2) by auto
  obtain v where n: "size_of s' = size_of s" and t: "sys_timers s' = sys_timers s"
    and d: "\<And>j. dev s' j = (if j = i then v else if j = p then (dev s p)\<lparr>hd_child := Some i\<rparr> else dev s j)"
    and v: "hd_parent v = Some p" "hd_child v = None" "btaddr (hd_conn v) = btaddr (hd_conn (dev s p))"
    using create_virtual_result [OF p(1) i ip] s' b table_free(1) [OF inv f(1,2)] by auto
  have vf: "\<not> is_free v" using v(3) p(2) by (simp add: is_free_def)
  show ?thesis
  proof (rule table_invI)
    fix j assume "j < size_of s'"
    then have j: "j < size_of s" by (simp add: n)
    show "link_ok s' j"
    proof (cases "j = i \<or> j = p")
      case True
      then show ?thesis using ip p(1) f(1) by (auto simp: link_ok_def d n v p(3,4))
    next
      case False
      have same: "hd_child (dev s j) = Some c \<or> hd_parent (dev s j) = Some c \<Longrightarrow> dev s' c = dev s c" for c
        using free_unlinked [OF inv f(1,2) j] table_links(3) [OF inv j, of c] table_parent(2) [OF inv j, of c] p(3,4)
        by (auto simp: d)
      show ?thesis
        by (rule link_ok_same [OF table_slot(1) [OF inv j] n]) (use False same in \<open>simp_all add: d\<close>)
    qed
    show "slot_ok s' j"
      using table_free [OF inv j] f(2) vf p(2) unfolding slot_ok_def d t by (auto simp: is_free_def)
  next
    fix j k assume "j < size_of s'" "k < size_of s'" "j \<noteq> k" "hd_parent (dev s' j) = None"
      "hd_parent (dev s' k) = None" "\<not> is_free (dev s' j)"
    then show "btaddr (hd_conn (dev s' j)) \<noteq> btaddr (hd_conn (dev s' k))"
      using table_unique [OF inv, of j k] v unfolding d n by (auto split: if_splits simp: is_free_def)
  qed
qed

section \<open>Ready and timed out\<close>

lemma drop_device:
  assumes inv: "table_inv s" and i: "i < size_of s" "\<not> is_free (dev s i)" "hd_parent (dev s i) = None"
  shows "\<exists>s1 s2. uni_hid_device_disconnect gap i s = Some s1 \<and> same_table s s1 \<and>
    uni_hid_device_delete i s1 = Some s2 \<and> table_inv s2 \<and> size_of s2 = size_of s \<and>
    (\<forall>j. erased s i j \<longrightarrow> dev s2 j = hd_init) \<and>
    (\<forall>j < size_of s. is_free (dev s2 j) \<longleftrightarrow> is_free (dev s j) \<or> erased s i j)"
proof -
  obtain s1 where s1: "uni_hid_device_disconnect gap i s = Some s1" and st: "same_table s s1"
    using disconnect_same [OF inv i(1,2)] by blast
  note k = same_tableD [OF st]
  have inv1: "table_inv s1" by (rule same_table_inv [OF st inv])
  have i1: "i < size_of s1" using k(1) i(1) by simp
  obtain s2 where s2: "uni_hid_device_delete i s1 = Some s2" and n: "size_of s2 = size_of s1"
    and d: "\<And>j. dev s2 j = (if erased s1 i j then hd_init else dev s1 j)"
    using delete_result [OF inv1 i1] by auto
  have e: "erased s1 i j = erased s i j" for j using k(2) [OF i(1)] by (simp add: erased_def)
  have "table_inv s2" using delete_inv [OF inv1 i1 _ s2] k(3) [OF i(1)] i(3) by simp
  moreover have "dev s2 j = hd_init" if "erased s i j" for j using that by (simp add: d e)
  moreover have "is_free (dev s2 j) \<longleftrightarrow> is_free (dev s j) \<or> erased s i j" if "j < size_of s" for j
    using k(4) [OF that] by (simp add: d e)
  moreover have "size_of s2 = size_of s" using n k(1) [OF i(1)] by simp
  ultimately show ?thesis using s1 st s2 by blast
qed

lemma ready_complete_inv:
  assumes inv: "table_inv s" and i: "i < size_of s" "\<not> is_free (dev s i)" "\<not> accepted \<Longrightarrow> hd_parent (dev s i) = None"
  shows "\<exists>b s'. uni_hid_device_set_ready_complete gap accepted i s = Some (b, s') \<and> table_inv s'"
proof -
  define s1 where "s1 = tell (On_Ready i) (remove_timer i Connection_Timer s)"
  have st: "same_table s s1" by (simp add: s1_def)
  have inv1: "table_inv s1" by (rule same_table_inv [OF st inv])
  have d: "dev s1 j = dev s j" "size_of s1 = size_of s" for j by (simp_all add: s1_def)
  show ?thesis
  proof (cases accepted)
    case True
    have "table_inv (upd_dev i (\<lambda>d. d\<lparr>hd_conn := uni_bt_conn_set_state STATE_DEVICE_READY (hd_conn d)\<rparr>) s1)"
      by (rule same_table_inv [OF same_table_upd inv1]) (simp_all add: d i)
    with True inv show ?thesis
      by (auto simp: uni_hid_device_set_ready_complete_def Let_def s1_def [symmetric])
  next
    case False
    with drop_device [OF inv1, of i gap] i inv show ?thesis
      by (auto simp: uni_hid_device_set_ready_complete_def Let_def s1_def [symmetric] d)
  qed
qed

lemma timeout_inv:
  assumes inv: "table_inv s" and t: "i < size_of s" "(i, Connection_Timer) \<in> sys_timers s"
  shows "\<exists>s'. device_connection_timeout gap i s = Some s' \<and> table_inv s'"
proof -
  define s1 where "s1 = remove_timer i Connection_Timer s"
  have st: "same_table s s1" by (simp add: s1_def)
  have inv1: "table_inv s1" by (rule same_table_inv [OF st inv])
  have d: "dev s1 j = dev s j" "size_of s1 = size_of s" for j by (simp_all add: s1_def)
  show ?thesis
    using drop_device [OF inv1, of i gap] table_free(2) [OF inv t] t inv1
    by (auto simp: device_connection_timeout_def Let_def s1_def [symmetric] d)
qed

section \<open>Controller data\<close>

definition receive_data :: "remap_state \<Rightarrow> nat \<Rightarrow> uni_controller \<Rightarrow> hid_system \<Rightarrow> hid_system option" where
  "receive_data rm i c s =
     uni_hid_device_process_controller rm i (upd_dev i (\<lambda>d. d\<lparr>hd_controller := c\<rparr>) s)"

text \<open>While the delay timer of the system button is registered, the bit that keeps it from being started again is set.\<close>

definition delay_ok :: "hid_system \<Rightarrow> nat \<Rightarrow> bool" where
  "delay_ok s i \<longleftrightarrow> ((i, Misc_Delay_Timer) \<in> sys_timers s \<longrightarrow> has_bits (hd_wait_delay (dev s i)) WAIT_SYSTEM)"

definition delays_inv :: "hid_system \<Rightarrow> bool" where
  "delays_inv s \<longleftrightarrow> (\<forall>i < size_of s. delay_ok s i)"

lemma dev_other_upd [simp]: "j \<noteq> i \<Longrightarrow> dev (upd_dev i f s) j = dev s j"
  by (simp add: dev_def upd_dev_def)

lemma same_table_upd':
  assumes "same_table s s'" "i < size_of s" "\<not> is_free (dev s i)"
    "\<And>d. hd_child (f d) = hd_child d" "\<And>d. hd_parent (f d) = hd_parent d"
    "\<And>d. btaddr (hd_conn (f d)) = btaddr (hd_conn d)"
  shows "same_table s (upd_dev i f s')"
  using same_table_trans [OF assms(1) same_table_upd [OF _ _ assms(4-6)]] same_tableD [OF assms(1,2)] assms(2,3)
  by simp

lemma misc_system_same:
  assumes "i < size_of s" "\<not> is_free (dev s i)" "delay_ok s i"
  shows "\<exists>s'. process_misc_button_system i s = Some s' \<and> same_table s s'"
proof -
  let ?rel = "\<lambda>d. d\<lparr>hd_wait_release := hd_wait_release d OR WAIT_SYSTEM\<rparr>"
  let ?del = "\<lambda>d. d\<lparr>hd_wait_delay := hd_wait_delay d OR WAIT_SYSTEM\<rparr>"
  have a: "same_table s (upd_dev i (\<lambda>d. d\<lparr>hd_wait_release := hd_wait_release d AND NOT WAIT_SYSTEM\<rparr>) s)"
    and b: "same_table s (upd_dev i ?rel s)" using assms by (auto intro!: same_table_upd)
  have c: "same_table s (upd_dev i ?del (tell e (upd_dev i ?rel s)))" for e
    using b assms by (auto intro!: same_table_upd')
  have t: "(i, Misc_Delay_Timer) \<notin> sys_timers s \<Longrightarrow> same_table s s' \<Longrightarrow> sys_timers s' = sys_timers s \<Longrightarrow>
    \<exists>s''. add_timer i Misc_Delay_Timer s' = Some s'' \<and> same_table s s''" for s'
    by (auto simp: add_timer_def same_table_def dev_def)
  show ?thesis
    using a b t [OF _ c] assms(3)
    by (auto simp: process_misc_button_system_def Let_def delay_ok_def)
qed

lemma process_controller_same:
  assumes i: "i < size_of s" "\<not> is_free (dev s i)" and dl: "delay_ok s i"
  shows "\<exists>s'. uni_hid_device_process_controller rm i s = Some s' \<and> same_table s s'"
proof (cases "conn_state (hd_conn (dev s i)) = STATE_DEVICE_READY")
  case False
  then show ?thesis by (simp add: uni_hid_device_process_controller_def)
next
  case True
  define s1 where "s1 = (if klass (hd_controller (dev s i)) = CLASS_GAMEPAD
    then upd_dev i (\<lambda>d. d\<lparr>hd_controller := upd_gp (uni_gamepad_remap rm) (hd_controller d)\<rparr>) s else s)"
  define s2 where "s2 = tell (On_Controller_Data i (hd_controller (dev s1 i))) s1"
  have a: "same_table s s2"
    unfolding s2_def s1_def using i by (auto intro!: same_table_upd)
  have dl2: "delay_ok s2 i" using dl i unfolding s2_def s1_def delay_ok_def
    by (auto simp: dev_upd)
  note k = same_tableD [OF a i(1)]
  obtain s3 where s3: "process_misc_button_system i s2 = Some s3" "same_table s2 s3"
    using misc_system_same [of i s2] k i dl2 by auto
  have b: "same_table s s3" by (rule same_table_trans [OF a s3(2)])
  have "same_table s (process_misc_button_home i s3)"
    unfolding process_misc_button_home_def Let_def using b i by (auto intro!: same_table_upd')
  with True s3(1) show ?thesis
    by (simp add: uni_hid_device_process_controller_def Let_def s1_def [symmetric] s2_def [symmetric])
qed

lemma receive_data_same:
  assumes "i < size_of s" "\<not> is_free (dev s i)" "delay_ok s i"
  shows "\<exists>s'. receive_data rm i c s = Some s' \<and> same_table s s'"
proof -
  let ?s = "upd_dev i (\<lambda>d. d\<lparr>hd_controller := c\<rparr>) s"
  have a: "same_table s ?s" using assms by (auto intro!: same_table_upd)
  have "delay_ok ?s i" using assms by (simp add: delay_ok_def dev_upd)
  then obtain s' where s': "uni_hid_device_process_controller rm i ?s = Some s'" and b: "same_table ?s s'"
    using process_controller_same [of i ?s rm] assms same_tableD [OF a assms(1)] by auto
  from s' same_table_trans [OF a b] show ?thesis by (simp add: receive_data_def)
qed

section \<open>The delay of the system button\<close>

text \<open>Steps that register no delay timer and keep the bits of those that are registered.\<close>

definition keeps_delays :: "hid_system \<Rightarrow> hid_system \<Rightarrow> bool" where
  "keeps_delays s s' \<longleftrightarrow> size_of s' = size_of s \<and> (\<forall>i < size_of s. (i, Misc_Delay_Timer) \<in> sys_timers s' \<longrightarrow>
     (i, Misc_Delay_Timer) \<in> sys_timers s \<and> hd_wait_delay (dev s' i) = hd_wait_delay (dev s i))"

lemma keeps_refl [simp]: "keeps_delays s s"
  by (simp add: keeps_delays_def)

lemma keeps_trans: "keeps_delays a b \<Longrightarrow> keeps_delays b c \<Longrightarrow> keeps_delays a c"
  by (simp add: keeps_delays_def)

lemma keeps_inv: "keeps_delays s s' \<Longrightarrow> delays_inv s \<Longrightarrow> delays_inv s'"
  by (simp add: keeps_delays_def delays_inv_def delay_ok_def)

lemma keeps_basic [simp]:
  "keeps_delays s (tell e s') = keeps_delays s s'"
  "keeps_delays s (uni_hid_device_on_connected i b s') = keeps_delays s s'"
  by (simp_all add: keeps_delays_def)

lemma keeps_remove [simp]: "keeps_delays s s' \<Longrightarrow> keeps_delays s (remove_timer i t s')"
  by (simp add: keeps_delays_def)

lemma dev_upd_any: "dev (upd_dev i f s) j = (if j = i \<and> i < size_of s then f (dev s i) else dev s j)"
  by (cases "i < size_of s") (auto simp: dev_def upd_dev_def list_update_beyond not_less)

lemma keeps_upd: "keeps_delays s s' \<Longrightarrow> (\<And>d. hd_wait_delay (f d) = hd_wait_delay d) \<Longrightarrow> keeps_delays s (upd_dev i f s')"
  by (simp add: keeps_delays_def dev_upd_any)

lemma keeps_disconnect:
  assumes "uni_hid_device_disconnect gap i s = Some s'"
  shows "keeps_delays s s'"
proof -
  have self: "keeps_delays t (disconnect_self gap i t')" if "keeps_delays t t'" for gap i t t'
    unfolding disconnect_self_def Let_def using that by (simp add: keeps_upd)
  have "disconnect_rec n gap i t = Some t' \<Longrightarrow> keeps_delays t t'" for n gap i t t'
    by (induction n gap i t arbitrary: t' rule: disconnect_rec.induct) (auto intro: self split: option.splits)
  then show ?thesis using assms unfolding uni_hid_device_disconnect_def by blast
qed

text \<open>No delay timer of the device or of its virtual child is running.\<close>

definition delay_settled :: "hid_system \<Rightarrow> nat \<Rightarrow> bool" where
  "delay_settled s i \<longleftrightarrow> (i, Misc_Delay_Timer) \<notin> sys_timers s \<and>
     (case hd_child (dev s i) of Some c \<Rightarrow> (c, Misc_Delay_Timer) \<notin> sys_timers s | None \<Rightarrow> True)"

lemma settled_erased: "delay_settled s i \<longleftrightarrow> (\<forall>j. erased s i j \<longrightarrow> (j, Misc_Delay_Timer) \<notin> sys_timers s)"
  by (auto simp: delay_settled_def erased_def split: option.splits)

lemma keeps_delete:
  assumes "table_inv s" "i < size_of s" "delay_settled s i" "uni_hid_device_delete i s = Some s'"
  shows "keeps_delays s s'"
  using delete_result [OF assms(1,2)] assms(3,4) by (auto simp: keeps_delays_def settled_erased)

lemma keeps_drop:
  assumes inv: "table_inv s" and i: "i < size_of s" "\<not> is_free (dev s i)" "delay_settled s i"
    and s1: "uni_hid_device_disconnect gap i s = Some s1" and s2: "uni_hid_device_delete i s1 = Some s2"
  shows "keeps_delays s s2"
proof -
  obtain t where "uni_hid_device_disconnect gap i s = Some t" "same_table s t" using disconnect_same [OF inv i(1,2)] by blast
  then have st: "same_table s s1" using s1 by simp
  note k = keeps_disconnect [OF s1] same_tableD [OF st i(1)]
  have "(j, Misc_Delay_Timer) \<notin> sys_timers s1" if "j < size_of s" "erased s i j" for j
    using k(1) i(3) that by (auto simp: keeps_delays_def settled_erased)
  moreover have "j < size_of s" if "erased s i j" for j using that i(1) table_links(1) [OF inv i(1)] by (auto simp: erased_def)
  moreover have "erased s1 i j = erased s i j" for j using k(3) by (simp add: erased_def)
  ultimately have "delay_settled s1 i" by (simp add: settled_erased)
  then have "keeps_delays s1 s2" using keeps_delete [OF same_table_inv [OF st inv] _ _ s2] k(2) i(1) by simp
  with k(1) show ?thesis by (rule keeps_trans)
qed

lemma wait_bits [simp]:
  "has_bits (x AND NOT WAIT_SYSTEM) WAIT_SYSTEM = False" "has_bits (x OR WAIT_SYSTEM) WAIT_SYSTEM = True"
  "has_bits (x AND NOT WAIT_START) WAIT_SYSTEM = has_bits x WAIT_SYSTEM"
  "has_bits (x OR WAIT_START) WAIT_SYSTEM = has_bits x WAIT_SYSTEM"
  by (simp_all add: WAIT_SYSTEM_def WAIT_START_def has_bits_BIT bit_and_iff bit_or_iff bit_not_iff bit_BIT)

text \<open>The press that starts the timer sets the bit.\<close>

lemma add_timer_facts:
  "add_timer i t s = Some s' \<Longrightarrow> dev s' j = dev s j \<and> size_of s' = size_of s \<and> sys_timers s' = insert (i, t) (sys_timers s)"
  by (auto simp: add_timer_def dev_def split: if_splits)

lemma press_delays:
  assumes "process_misc_button_system i s = Some s'" "i < size_of s" "delays_inv s"
  shows "delays_inv s'"
proof (cases "keeps_delays s s'")
  case True
  with assms(3) show ?thesis by (rule keeps_inv [rotated])
next
  case False
  let ?s = "upd_dev i (\<lambda>d. d\<lparr>hd_wait_delay := hd_wait_delay d OR WAIT_SYSTEM\<rparr>) (tell (On_System_Button i)
    (upd_dev i (\<lambda>d. d\<lparr>hd_wait_release := hd_wait_release d OR WAIT_SYSTEM\<rparr>) s))"
  have "add_timer i Misc_Delay_Timer ?s = Some s'"
    using assms(1) False by (auto simp: process_misc_button_system_def Let_def keeps_upd split: if_splits)
  from add_timer_facts [OF this] assms(2,3) show ?thesis
    by (auto simp: delays_inv_def delay_ok_def dev_upd)
qed

lemma data_delays:
  assumes "receive_data rm i c s = Some s'" "i < size_of s" "delays_inv s"
  shows "delays_inv s'"
proof -
  have home: "delays_inv (process_misc_button_home i t)" if "delays_inv t" for t
    by (rule keeps_inv [OF _ that]) (simp add: process_misc_button_home_def Let_def keeps_upd)
  have 0: "delays_inv (tell e t)" if "delays_inv t" for e t using that by (rule keeps_inv [rotated]) simp
  have upd: "delays_inv (upd_dev i f t)" if "delays_inv t" "\<And>d. hd_wait_delay (f d) = hd_wait_delay d" for f t
    using that(1) by (rule keeps_inv [rotated]) (simp add: keeps_upd that(2))
  show ?thesis
    using assms(1) unfolding receive_data_def uni_hid_device_process_controller_def Let_def
    by (auto split: if_splits intro!: home upd 0 elim!: press_delays simp: assms)
qed

section \<open>Runs\<close>

text \<open>
  What the stack does to the table. The guards: an address is created once, is not the zero
  address; the other operations name devices in use; a virtual device is created for a real one
  that has none, and only deleted with its parent or when the platform declines it, which breaks the
  link (\<open>uni_hid_parser_ds4_setup\<close>, \<open>ds5_send_enable_lightbar_report\<close>); a timer that expires is registered;
  no device is deleted while its delay timer is running, which the code does not ensure
  (\<open>stale_delay_timer_traps\<close>).
\<close>

datatype table_event =
    Ev_Create bd_addr
  | Ev_Create_Virtual bool nat
  | Ev_Connect nat
  | Ev_Disconnect "u16 \<Rightarrow> gap_type" nat
  | Ev_Delete nat
  | Ev_Ready_Complete "u16 \<Rightarrow> gap_type" bool nat
  | Ev_Connection_Timeout "u16 \<Rightarrow> gap_type" nat
  | Ev_Guess "u16 \<Rightarrow> u16 \<Rightarrow> controller_type" bool nat
  | Ev_Data nat uni_controller
  | Ev_Delay_Timer nat
  | Ev_Decline_Virtual "u16 \<Rightarrow> gap_type" nat

text \<open>The platform declines the virtual device that a parser has just created for \<open>p\<close>.\<close>

definition decline_virtual :: "(u16 \<Rightarrow> gap_type) \<Rightarrow> nat \<Rightarrow> hid_system \<Rightarrow> hid_system option" where
  "decline_virtual gap p s =
     (case hd_child (dev s p) of
        None \<Rightarrow> Some s
      | Some c \<Rightarrow> map_option (\<lambda>(b, s1). upd_dev p (\<lambda>d. d\<lparr>hd_child := None\<rparr>) s1)
          (uni_hid_device_set_ready_complete gap False c s))"

fun table_step :: "remap_state \<Rightarrow> table_event \<Rightarrow> hid_system \<Rightarrow> hid_system option" where
  "table_step rm (Ev_Create a) s = map_option snd (uni_hid_device_create a s)"
| "table_step rm (Ev_Create_Virtual b p) s = Some (snd (uni_hid_device_create_virtual b p s))"
| "table_step rm (Ev_Connect i) s = Some (uni_hid_device_connect i s)"
| "table_step rm (Ev_Disconnect gap i) s = uni_hid_device_disconnect gap i s"
| "table_step rm (Ev_Delete i) s = uni_hid_device_delete i s"
| "table_step rm (Ev_Ready_Complete gap b i) s = map_option snd (uni_hid_device_set_ready_complete gap b i s)"
| "table_step rm (Ev_Connection_Timeout gap i) s = device_connection_timeout gap i s"
| "table_step rm (Ev_Guess db x i) s =
     Some (upd_dev i (uni_hid_device_guess_controller_type_from_pid_vid db x) s)"
| "table_step rm (Ev_Data i c) s = receive_data rm i c s"
| "table_step rm (Ev_Delay_Timer i) s = Some (misc_button_enable_callback i s)"
| "table_step rm (Ev_Decline_Virtual gap p) s = decline_virtual gap p s"

definition in_use :: "hid_system \<Rightarrow> nat \<Rightarrow> bool" where
  "in_use s i \<longleftrightarrow> i < size_of s \<and> \<not> is_free (dev s i)"

fun table_ok :: "table_event \<Rightarrow> hid_system \<Rightarrow> bool" where
  "table_ok (Ev_Create a) s \<longleftrightarrow> a \<noteq> zero_addr \<and> uni_hid_device_get_instance_for_address a s = None"
| "table_ok (Ev_Create_Virtual b p) s \<longleftrightarrow> in_use s p \<and> hd_parent (dev s p) = None \<and> hd_child (dev s p) = None"
| "table_ok (Ev_Connect i) s \<longleftrightarrow> in_use s i"
| "table_ok (Ev_Disconnect gap i) s \<longleftrightarrow> in_use s i"
| "table_ok (Ev_Delete i) s \<longleftrightarrow> i < size_of s \<and> hd_parent (dev s i) = None \<and> delay_settled s i"
| "table_ok (Ev_Ready_Complete gap b i) s \<longleftrightarrow> in_use s i \<and> (\<not> b \<longrightarrow> hd_parent (dev s i) = None \<and> delay_settled s i)"
| "table_ok (Ev_Connection_Timeout gap i) s \<longleftrightarrow> i < size_of s \<and> (i, Connection_Timer) \<in> sys_timers s \<and>
     (conn_state (hd_conn (dev s i)) = STATE_DEVICE_READY \<or> delay_settled s i)"
| "table_ok (Ev_Guess db x i) s \<longleftrightarrow> in_use s i"
| "table_ok (Ev_Data i c) s \<longleftrightarrow> in_use s i"
| "table_ok (Ev_Delay_Timer i) s \<longleftrightarrow> i < size_of s \<and> (i, Misc_Delay_Timer) \<in> sys_timers s"
| "table_ok (Ev_Decline_Virtual gap p) s \<longleftrightarrow> in_use s p \<and> (case hd_child (dev s p) of None \<Rightarrow> False
     | Some c \<Rightarrow> conn_state (hd_conn (dev s c)) \<noteq> STATE_DEVICE_READY \<and> delay_settled s c)"

lemma guess_fields:
  "hd_child (uni_hid_device_guess_controller_type_from_pid_vid db x d) = hd_child d"
  "hd_parent (uni_hid_device_guess_controller_type_from_pid_vid db x d) = hd_parent d"
  "hd_conn (uni_hid_device_guess_controller_type_from_pid_vid db x d) = hd_conn d"
  by (simp_all add: uni_hid_device_guess_controller_type_from_pid_vid_def Let_def)

lemma create_step:
  assumes "table_inv s" "table_ok (Ev_Create a) s"
  shows "\<exists>s'. table_step rm (Ev_Create a) s = Some s' \<and> table_inv s'"
proof (cases "find_index is_free (sys_devices s)")
  case None
  then show ?thesis using assms(1) by (simp add: uni_hid_device_create_def)
next
  case (Some i)
  obtain s' where s': "uni_hid_device_create a s = Some (Some i, s')"
    using create_result [OF assms(1) Some, of a] by blast
  then show ?thesis using create_inv [OF assms(1) _ _ Some s'] assms(2) by simp
qed

lemma decline_inv:
  assumes inv: "table_inv s" and p: "p < size_of s" "hd_child (dev s p) = Some c"
    and nr: "conn_state (hd_conn (dev s c)) \<noteq> STATE_DEVICE_READY" and st: "delay_settled s c"
  shows "\<exists>s'. decline_virtual gap p s = Some s' \<and> table_inv s' \<and> keeps_delays s s'"
proof -
  note l = table_links [OF inv p] and nf = child_not_free [OF inv p]
  define s1 where "s1 = tell (On_Ready c) (remove_timer c Connection_Timer s)"
  have inv1: "table_inv s1" by (rule same_table_inv [OF _ inv]) (simp add: s1_def)
  have d1: "dev s1 j = dev s j" "size_of s1 = size_of s" for j by (simp_all add: s1_def)
  have k1: "keeps_delays s s1" and c1: "c < size_of s1" "\<not> is_free (dev s1 c)" "delay_settled s1 c"
    using l(1) nf(1) st by (simp_all add: s1_def delay_settled_def split: option.splits)
  obtain s2 where s2: "uni_hid_device_disconnect gap c s1 = Some s2" and st2: "same_table s1 s2"
    using disconnect_same [OF inv1 c1(1,2)] by blast
  note e2 = same_tableD [OF st2]
  have inv2: "table_inv s2" by (rule same_table_inv [OF st2 inv1])
  have c2: "c < size_of s2" "hd_child (dev s2 c) = None" using e2(1,2) [OF c1(1)] c1(1) l(4) by (simp_all add: d1)
  obtain s3 where s3: "uni_hid_device_delete c s2 = Some s3" and n3: "size_of s3 = size_of s2"
    and D3: "\<forall>j. dev s3 j = (if erased s2 c j then hd_init else dev s2 j)"
    and T3: "sys_timers s3 = {(j, t) \<in> sys_timers s2. \<not> (erased s2 c j \<and> t = Connection_Timer)}"
    using delete_result [OF inv2 c2(1)] by blast
  have e: "erased s2 c j \<longleftrightarrow> j = c" for j by (auto simp: erased_def c2(2))
  have d3: "dev s3 j = (if j = c then hd_init else dev s2 j)" for j using D3 by (simp add: e)
  have t3: "(j, Connection_Timer) \<in> sys_timers s3 \<Longrightarrow> (j, Connection_Timer) \<in> sys_timers s2 \<and> j \<noteq> c" for j
    by (simp add: T3 e)
  define s4 where "s4 = upd_dev p (\<lambda>d. d\<lparr>hd_child := None\<rparr>) s3"
  have "decline_virtual gap p s = Some s4"
    using nr p(2) s2 s3
    by (simp add: decline_virtual_def uni_hid_device_set_ready_complete_def Let_def s1_def [symmetric] s4_def)
  moreover have "keeps_delays s s4"
    unfolding s4_def by (intro keeps_upd keeps_trans [OF k1 keeps_drop [OF inv1 c1 s2 s3]]) simp
  moreover have "table_inv s4"
  proof -
    have n: "size_of s4 = size_of s2" by (simp add: s4_def n3)
    have p2: "p < size_of s2" "hd_child (dev s2 p) = Some c" "hd_parent (dev s2 c) = Some p" "c \<noteq> p"
      using p l e2(1,2) [of p] e2(3) [of c] c1(1) by (simp_all add: d1)
    have pp: "hd_parent (dev s2 p) = None"
      using table_links(4) [OF inv2] table_parent [OF inv2 p2(1)] p2(2) by (cases "hd_parent (dev s2 p)") auto
    have d: "dev s4 j = (if j = c then hd_init else if j = p then (dev s2 p)\<lparr>hd_child := None\<rparr> else dev s2 j)" for j
      using p2 by (simp add: s4_def dev_upd_any n3 d3)
    have other: "hd_child (dev s2 j) \<noteq> Some c" "hd_child (dev s2 j) \<noteq> Some p" "hd_parent (dev s2 j) \<noteq> Some p" "hd_parent (dev s2 j) \<noteq> Some c"
      if "j < size_of s2" "j \<noteq> c" "j \<noteq> p" for j
    proof -
      show "hd_child (dev s2 j) \<noteq> Some c" using table_links(3) [OF inv2 that(1), of c] p2(3) that(3) by auto
      show "hd_child (dev s2 j) \<noteq> Some p" using table_links(3) [OF inv2 that(1), of p] pp by auto
      show "hd_parent (dev s2 j) \<noteq> Some p" using table_parent(2) [OF inv2 that(1), of p] p2(2) that(2) by auto
      show "hd_parent (dev s2 j) \<noteq> Some c" using table_parent(2) [OF inv2 that(1), of c] c2(2) by auto
    qed
    show ?thesis
    proof (rule table_invI)
      fix j assume "j < size_of s4"
      then have j: "j < size_of s2" by (simp add: n)
      consider "j = c" | "j = p" | "j \<noteq> c" "j \<noteq> p" by blast
      then show "link_ok s4 j"
      proof cases
        case 3
        show ?thesis
          by (rule link_ok_same [OF table_slot(1) [OF inv2 j] n]) (use 3 other [OF j] in \<open>auto simp: d\<close>)
      qed (use p2(4) pp in \<open>simp_all add: link_ok_def d\<close>)
      show "slot_ok s4 j"
        using table_free [OF inv2 j] t3 [of j] child_not_free(2) [OF inv2 p2(1,2)] pp
        unfolding slot_ok_def d by (auto simp: s4_def is_free_def)
    next
      fix j k assume jk: "j < size_of s4" "k < size_of s4" "j \<noteq> k" "hd_parent (dev s4 j) = None"
        "hd_parent (dev s4 k) = None" "\<not> is_free (dev s4 j)"
      have b: "btaddr (hd_conn hd_init) = zero_addr" by (simp add: hd_init_def hd_zero_def uni_bt_conn_init_def conn_zero_def)
      have "j \<noteq> c" using jk(6) by (auto simp: d)
      then show "btaddr (hd_conn (dev s4 j)) \<noteq> btaddr (hd_conn (dev s4 k))"
        using jk table_unique [OF inv2, of j k] p2(4) b unfolding d n by (auto simp: is_free_def split: if_splits)
    qed
  qed
  ultimately show ?thesis by blast
qed

text \<open>The invariant of the runs.\<close>

definition table_run_inv :: "hid_system \<Rightarrow> bool" where
  "table_run_inv s \<longleftrightarrow> table_inv s \<and> delays_inv s"

lemma run_invI: "table_inv s' \<Longrightarrow> keeps_delays s s' \<Longrightarrow> table_run_inv s \<Longrightarrow> table_run_inv s'"
  by (simp add: table_run_inv_def keeps_inv)

lemma create_keeps:
  assumes "table_inv s" "delays_inv s" "uni_hid_device_create a s = Some (r, s')"
  shows "keeps_delays s s'"
proof (cases "find_index is_free (sys_devices s)")
  case None
  then show ?thesis using assms(3) by (auto simp: uni_hid_device_create_def)
next
  case (Some i)
  have "\<not> has_bits (hd_wait_delay hd_init) WAIT_SYSTEM" by code_simp
  then have "(i, Misc_Delay_Timer) \<notin> sys_timers s"
    using assms(2) find_free [OF Some] table_free(1) [OF assms(1)] by (metis delay_ok_def delays_inv_def)
  then show ?thesis using create_result [OF assms(1) Some, of a] assms(3) by (auto simp: keeps_delays_def)
qed

lemma virtual_keeps:
  assumes "table_inv s"
  shows "keeps_delays s (snd (uni_hid_device_create_virtual b p s))"
  by (auto simp: uni_hid_device_create_virtual_def Let_def keeps_upd split: option.splits)

lemma expired_law:
  assumes "table_run_inv s" "i < size_of s" "(i, Misc_Delay_Timer) \<in> sys_timers s"
  shows "table_run_inv (misc_button_enable_callback i s)"
proof -
  have inv: "table_inv s" "delays_inv s" using assms(1) by (simp_all add: table_run_inv_def)
  have "\<not> has_bits (hd_wait_delay hd_init) WAIT_SYSTEM" by code_simp
  then have "\<not> is_free (dev s i)"
    using inv(2) assms(2,3) table_free(1) [OF inv(1) assms(2)] by (metis delay_ok_def delays_inv_def)
  then have "same_table s (misc_button_enable_callback i s)"
    unfolding misc_button_enable_callback_def by (intro same_table_upd') (simp_all add: assms(2))
  moreover have "delays_inv (misc_button_enable_callback i s)"
    using inv(2) by (auto simp: delays_inv_def delay_ok_def misc_button_enable_callback_def dev_upd_any)
  ultimately show ?thesis using same_table_inv [OF _ inv(1)] by (simp add: table_run_inv_def)
qed

lemma table_step_law:
  assumes "table_run_inv s" "table_ok e s"
  shows "\<exists>s'. table_step rm e s = Some s' \<and> table_run_inv s'"
proof -
  have inv: "table_inv s" "delays_inv s" using assms(1) by (simp_all add: table_run_inv_def)
  have ready: "keeps_delays s s'" if "in_use s i" "\<not> b \<longrightarrow> delay_settled s i"
    "uni_hid_device_set_ready_complete gap b i s = Some (r, s')" for gap b i r s'
  proof -
    let ?s = "tell (On_Ready i) (remove_timer i Connection_Timer s)"
    have "table_inv ?s" by (rule same_table_inv [OF _ inv(1)]) simp
    moreover have "delay_settled ?s i = delay_settled s i" by (simp add: delay_settled_def split: option.splits)
    ultimately have "keeps_delays ?s s2" if "uni_hid_device_disconnect gap i ?s = Some s1" "uni_hid_device_delete i s1 = Some s2" "\<not> b" for s1 s2
      using keeps_drop [of ?s i gap s1 s2] \<open>in_use s i\<close> \<open>\<not> b \<longrightarrow> delay_settled s i\<close> that by (simp add: in_use_def)
    then show ?thesis using that(3)
      by (auto simp: uni_hid_device_set_ready_complete_def Let_def keeps_upd split: if_splits option.splits
          intro: keeps_trans [of s ?s])
  qed
  have timeout: "keeps_delays s s'" if "i < size_of s" "(i, Connection_Timer) \<in> sys_timers s"
    "conn_state (hd_conn (dev s i)) = STATE_DEVICE_READY \<or> delay_settled s i" "device_connection_timeout gap i s = Some s'" for gap i s'
  proof -
    let ?s = "remove_timer i Connection_Timer s"
    have "table_inv ?s" by (rule same_table_inv [OF _ inv(1)]) simp
    moreover have "delay_settled ?s i = delay_settled s i" by (simp add: delay_settled_def split: option.splits)
    ultimately have "keeps_delays ?s s2" if "uni_hid_device_disconnect gap i ?s = Some s1" "uni_hid_device_delete i s1 = Some s2" "delay_settled s i" for s1 s2
      using keeps_drop [of ?s i gap s1 s2] table_free(2) [OF inv(1) \<open>i < size_of s\<close> \<open>(i, Connection_Timer) \<in> sys_timers s\<close>]
        \<open>i < size_of s\<close> that by simp
    then show ?thesis using that(3,4)
      by (auto simp: device_connection_timeout_def Let_def split: if_splits option.splits intro: keeps_trans [of s ?s])
  qed
  note closed = run_invI [OF _ _ assms(1)]
  show ?thesis
  proof (cases e)
    case (Ev_Create a)
    then show ?thesis using create_step [OF inv(1), of a rm] assms(2) create_keeps [OF inv, of a] by (auto intro: closed)
  next
    case (Ev_Create_Virtual b p)
    then show ?thesis using create_virtual_inv [OF inv(1), of p b] assms(2) virtual_keeps [OF inv(1), of b p]
      by (simp add: in_use_def) (metis closed prod.collapse)
  next
    case (Ev_Connect i)
    then show ?thesis using assms(2)
      by (auto simp: in_use_def uni_hid_device_connect_def intro!: closed same_table_inv [OF _ inv(1)] same_table_upd keeps_upd)
  next
    case (Ev_Disconnect gap i)
    then show ?thesis using assms(2) disconnect_same [OF inv(1), of i gap] same_table_inv [OF _ inv(1)] keeps_disconnect [of gap i s]
      by (auto simp: in_use_def intro: closed)
  next
    case (Ev_Delete i)
    then show ?thesis using assms(2) delete_result [OF inv(1), of i] delete_inv [OF inv(1), of i] keeps_delete [OF inv(1), of i]
      by (auto intro: closed)
  next
    case (Ev_Ready_Complete gap b i)
    then show ?thesis using assms(2) ready_complete_inv [OF inv(1), of i b gap] ready [of i b gap] by (auto simp: in_use_def intro: closed)
  next
    case (Ev_Connection_Timeout gap i)
    then show ?thesis using assms(2) timeout_inv [OF inv(1), of i gap] timeout [of i gap] by (auto intro: closed)
  next
    case (Ev_Guess db x i)
    have "hd_wait_delay (uni_hid_device_guess_controller_type_from_pid_vid db x d) = hd_wait_delay d" for d
      by (simp add: uni_hid_device_guess_controller_type_from_pid_vid_def Let_def)
    with Ev_Guess show ?thesis using assms(2)
      by (auto simp: in_use_def guess_fields intro!: closed same_table_inv [OF _ inv(1)] same_table_upd keeps_upd)
  next
    case (Ev_Data i c)
    then have "i < size_of s" "\<not> is_free (dev s i)" "delay_ok s i"
      using assms(2) inv(2) by (simp_all add: in_use_def delays_inv_def)
    with Ev_Data show ?thesis using receive_data_same [of i s rm c] same_table_inv [OF _ inv(1)] data_delays [OF _ _ inv(2), of rm i c]
      by (auto simp: table_run_inv_def)
  next
    case (Ev_Delay_Timer i)
    then show ?thesis using expired_law [OF assms(1)] assms(2) by simp
  next
    case (Ev_Decline_Virtual gap p)
    then show ?thesis using assms(2) decline_inv [OF inv(1), of p _ gap] by (auto simp: in_use_def intro: closed split: option.splits)
  qed
qed

interpretation table: guarded_machine "table_step rm" table_ok table_run_inv for rm
  by unfold_locales (rule table_step_law)

section \<open>Properties of the table\<close>

lemma setup_dev [simp]: "i < n \<Longrightarrow> dev (uni_hid_device_setup n) i = hd_init"
  "size_of (uni_hid_device_setup n) = n" "sys_timers (uni_hid_device_setup n) = {}"
  by (simp_all add: uni_hid_device_setup_def dev_def)

lemma setup_inv: "table_inv (uni_hid_device_setup n)"
  by (rule table_invI) (auto simp: link_ok_def slot_ok_def)

lemma setup_run_inv: "table_run_inv (uni_hid_device_setup n)"
  using setup_inv by (simp add: table_run_inv_def delays_inv_def delay_ok_def)

lemma upd_size [simp]: "size_of (s\<lparr>sys_timers := t\<rparr>) = size_of s" "size_of (s\<lparr>sys_events := ev\<rparr>) = size_of s"
  by simp_all

lemma add_timer_size: "add_timer i t s = Some s' \<Longrightarrow> size_of s' = size_of s"
  by (auto simp: add_timer_def split: if_splits)

lemma disconnect_self_size [simp]: "size_of (disconnect_self gap i s) = size_of s"
  by (simp add: disconnect_self_def Let_def)

lemma disconnect_rec_size: "disconnect_rec n gap i s = Some s' \<Longrightarrow> size_of s' = size_of s"
  by (induction n gap i s arbitrary: s' rule: disconnect_rec.induct) (auto split: option.splits)

lemma delete_rec_size: "delete_rec n i s = Some s' \<Longrightarrow> size_of s' = size_of s"
  by (induction n i s arbitrary: s' rule: delete_rec.induct)
     (auto simp: dev_delete_self split: option.splits)

lemmas op_sizes = disconnect_rec_size delete_rec_size add_timer_size

lemma process_size: "uni_hid_device_process_controller rm i s = Some s' \<Longrightarrow> size_of s' = size_of s"
  by (auto simp: uni_hid_device_process_controller_def Let_def process_misc_button_home_def
      process_misc_button_system_def dest!: add_timer_size split: if_splits)

lemma table_step_size: "table_step rm e s = Some s' \<Longrightarrow> size_of s' = size_of s"
  by (cases e)
     (auto simp: uni_hid_device_create_def uni_hid_device_create_virtual_def Let_def uni_hid_device_connect_def
      start_connection_timeout_def uni_hid_device_disconnect_def uni_hid_device_delete_def
      uni_hid_device_set_ready_complete_def device_connection_timeout_def receive_data_def decline_virtual_def
      misc_button_enable_callback_def dev_delete_self(2) dest!: op_sizes process_size split: option.splits if_splits)

lemma run_size: "run_steps (table_step rm) es s = Some s' \<Longrightarrow> size_of s' = size_of s"
  by (induction es arbitrary: s) (auto dest!: table_step_size split: option.splits)




text \<open>The remapping state at start-up, and a session of a DualShock 4 with its virtual mouse.\<close>

definition start_layout :: remap_state where
  "start_layout = \<lparr>rm_map = GAMEPAD_DEFAULT_MAPPINGS, rm_type = TYPE_XBOX\<rparr>"

definition ds4_session :: "table_event list" where
  "ds4_session = [Ev_Create [1, 2, 3, 4, 5, 6], Ev_Connect 0,
     Ev_Guess (\<lambda>v p. TYPE_PS4Controller) False 0, Ev_Create_Virtual True 0,
     Ev_Connect 1, Ev_Decline_Virtual (\<lambda>h. GAP_ACL) 0, Ev_Create_Virtual True 0,
     Ev_Ready_Complete (\<lambda>h. GAP_ACL) True 1]"

lemma ds4_session_admissible:
  "admissible (table_step start_layout) table_ok ds4_session (uni_hid_device_setup 2)"
  by code_simp


text \<open>
  When the connection timer of a device fires, a device that is ready keeps everything; any
  other device is disconnected and deleted together with its virtual child: both slots are free and
  initialised again, and exactly these two changed from used to free.
\<close>

theorem connection_timeout_correct:
  assumes "admissible (table_step rm) table_ok es (uni_hid_device_setup n)"
    and "run_steps (table_step rm) es (uni_hid_device_setup n) = Some s"
    and "i < n" "(i, Connection_Timer) \<in> sys_timers s"
  shows "\<exists>s'. device_connection_timeout gap i s = Some s' \<and>
    (if conn_state (hd_conn (dev s i)) = STATE_DEVICE_READY then sys_devices s' = sys_devices s
     else (\<forall>j < n. (erased s i j \<longrightarrow> dev s' j = hd_init) \<and>
             (is_free (dev s' j) \<longleftrightarrow> is_free (dev s j) \<or> erased s i j)))"
proof -
  have inv: "table_inv s" using table.run_law [OF setup_run_inv assms(1)] assms(2) by (auto simp: table_run_inv_def)
  have n: "size_of s = n" using run_size [OF assms(2)] by simp
  define s1 where "s1 = remove_timer i Connection_Timer s"
  have inv1: "table_inv s1" by (rule same_table_inv [OF _ inv]) (simp add: s1_def)
  have d: "dev s1 j = dev s j" "size_of s1 = n" "sys_devices s1 = sys_devices s" for j
    by (simp_all add: s1_def n) (simp add: remove_timer_def)
  have e: "erased s1 = erased s" by (intro ext) (simp add: erased_def d)
  note f = table_free(2) [OF inv, unfolded n, OF assms(3,4)]
  show ?thesis
    using drop_device [OF inv1, of i gap] f assms(3)
    by (auto simp: device_connection_timeout_def Let_def s1_def [symmetric] d e n)
qed

lemma ds4_session_timer:
  "\<exists>s. run_steps (table_step start_layout) ds4_session (uni_hid_device_setup 2) = Some s \<and>
     (0, Connection_Timer) \<in> sys_timers s \<and> hd_child (dev s 0) = Some 1 \<and>
     conn_state (hd_conn (dev s 0)) \<noteq> STATE_DEVICE_READY"
proof -
  have "case run_steps (table_step start_layout) ds4_session (uni_hid_device_setup 2) of None \<Rightarrow> False
    | Some s \<Rightarrow> (0, Connection_Timer) \<in> sys_timers s \<and> hd_child (dev s 0) = Some 1 \<and>
        conn_state (hd_conn (dev s 0)) \<noteq> STATE_DEVICE_READY"
    by code_simp
  then show ?thesis by (auto split: option.splits)
qed

theorem connection_timeout_correct_witness:
  "\<exists>s s'. run_steps (table_step start_layout) ds4_session (uni_hid_device_setup 2) = Some s \<and>
     device_connection_timeout (\<lambda>h. GAP_ACL) 0 s = Some s' \<and> dev s' 0 = hd_init \<and> dev s' 1 = hd_init"
proof -
  obtain s where s: "run_steps (table_step start_layout) ds4_session (uni_hid_device_setup 2) = Some s"
    "(0, Connection_Timer) \<in> sys_timers s" "hd_child (dev s 0) = Some 1"
    "conn_state (hd_conn (dev s 0)) \<noteq> STATE_DEVICE_READY"
    using ds4_session_timer by blast
  obtain s' where "device_connection_timeout (\<lambda>h. GAP_ACL) 0 s = Some s'"
    "\<forall>j < 2. (erased s 0 j \<longrightarrow> dev s' j = hd_init)"
    using connection_timeout_correct [OF ds4_session_admissible s(1) _ s(2), of "\<lambda>h. GAP_ACL"] s(4) by auto
  moreover have "erased s 0 0" "erased s 0 1" using s(3) by (simp_all add: erased_def)
  ultimately show ?thesis using s(1) by (metis one_less_numeral_iff semiring_norm(76) zero_less_numeral)
qed

section \<open>The system button\<close>

text \<open>What the platform gets: a gamepad is remapped first.\<close>

definition delivered :: "remap_state \<Rightarrow> uni_controller \<Rightarrow> uni_controller" where
  "delivered rm c = (if klass c = CLASS_GAMEPAD then upd_gp (uni_gamepad_remap rm) c else c)"

definition system_pressed :: "uni_controller \<Rightarrow> bool" where
  "system_pressed c = has_bits (misc_buttons (gamepad c)) MISC_BUTTON_SYSTEM"

fun reports_and_presses :: "nat \<Rightarrow> bool \<Rightarrow> uni_controller list \<Rightarrow> platform_event list" where
  "reports_and_presses i held [] = []"
| "reports_and_presses i held (c # cs) =
     On_Controller_Data i c # (if system_pressed c \<and> \<not> held then [On_System_Button i] else []) @
     reports_and_presses i (system_pressed c) cs"

definition holds_system :: "hid_device \<Rightarrow> bool" where
  "holds_system d = has_bits (hd_wait_release d) WAIT_SYSTEM"

lemma tell_events [simp]: "sys_events (tell e s) = sys_events s @ [e]" "sys_events (upd_dev i f s) = sys_events s"
  by (simp_all add: tell_def upd_dev_def)

lemma receive_data_event:
  assumes "i < size_of s" "conn_state (hd_conn (dev s i)) = STATE_DEVICE_READY" "\<not> requires_delay (dev s i)"
  shows "\<exists>s'. receive_data rm i c s = Some s' \<and> size_of s' = size_of s \<and>
    conn_state (hd_conn (dev s' i)) = STATE_DEVICE_READY \<and> \<not> requires_delay (dev s' i) \<and>
    holds_system (dev s' i) = system_pressed (delivered rm c) \<and>
    sys_events s' = sys_events s @ On_Controller_Data i (delivered rm c) #
      (if system_pressed (delivered rm c) \<and> \<not> holds_system (dev s i) then [On_System_Button i] else [])"
  using assms
  by (auto simp: receive_data_def uni_hid_device_process_controller_def process_misc_button_system_def
      process_misc_button_home_def Let_def dev_upd delivered_def system_pressed_def holds_system_def
      requires_delay_def)

text \<open>
  C29: The system button of a ready device that needs no delay. Over any sequence of reports the
  platform gets every report, remapped, in order, and one system-button event right after the report
  in which the button went down: never a second one while it is held.
\<close>

theorem system_button_once_per_press:
  assumes "i < size_of s" "conn_state (hd_conn (dev s i)) = STATE_DEVICE_READY" "\<not> requires_delay (dev s i)"
  shows "\<exists>s'. run_steps (receive_data rm i) cs s = Some s' \<and>
    sys_events s' = sys_events s @ reports_and_presses i (holds_system (dev s i)) (map (delivered rm) cs)"
  using assms
proof (induction cs arbitrary: s)
  case Nil
  then show ?case by simp
next
  case (Cons c cs)
  from receive_data_event [OF Cons.prems, of rm c] obtain s1 where
    s1: "receive_data rm i c s = Some s1" "size_of s1 = size_of s"
      "conn_state (hd_conn (dev s1 i)) = STATE_DEVICE_READY" "\<not> requires_delay (dev s1 i)"
      "holds_system (dev s1 i) = system_pressed (delivered rm c)"
      "sys_events s1 = sys_events s @ On_Controller_Data i (delivered rm c) #
        (if system_pressed (delivered rm c) \<and> \<not> holds_system (dev s i) then [On_System_Button i] else [])"
    by blast
  with Cons.IH [of s1] Cons.prems(1) show ?case by simp
qed

definition ready_device :: hid_system where
  "ready_device = upd_dev 0 (\<lambda>d. d\<lparr>hd_conn := conn_zero\<lparr>conn_state := STATE_DEVICE_READY\<rparr>\<rparr>) (uni_hid_device_setup 1)"

definition system_pad :: uni_controller where
  "system_pad = controller_zero\<lparr>klass := CLASS_GAMEPAD,
     gamepad := gamepad_zero\<lparr>misc_buttons := MISC_BUTTON_SYSTEM\<rparr>\<rparr>"

theorem system_button_once_per_press_witness:
  "\<exists>s'. run_steps (receive_data start_layout 0) [system_pad, system_pad] ready_device = Some s' \<and>
     sys_events s' = [On_Controller_Data 0 system_pad, On_System_Button 0, On_Controller_Data 0 system_pad]"
proof -
  have "0 < size_of ready_device" "conn_state (hd_conn (dev ready_device 0)) = STATE_DEVICE_READY"
    "\<not> requires_delay (dev ready_device 0)" by code_simp+
  moreover have "sys_events ready_device @ reports_and_presses 0 (holds_system (dev ready_device 0))
      (map (delivered start_layout) [system_pad, system_pad]) =
    [On_Controller_Data 0 system_pad, On_System_Button 0, On_Controller_Data 0 system_pad]" by code_simp
  ultimately show ?thesis
    using system_button_once_per_press [of 0 ready_device start_layout "[system_pad, system_pad]"] by metis
qed

definition switch_session :: "table_event list" where
  "switch_session = [Ev_Create [1, 2, 3, 4, 5, 6], Ev_Guess (\<lambda>v p. TYPE_SwitchProController) False 0,
     Ev_Ready_Complete (\<lambda>h. GAP_ACL) True 0, Ev_Data 0 system_pad]"

text \<open>
  Deleting a Switch pad leaves its button delay timer registered. When the slot is used again
  for a Switch pad before the timer expires, its first press of the system button starts a timer
  that is still in the run loop. The deletion is the one event outside the guards of the runs above.
\<close>

definition deleted_switch :: hid_system where
  "deleted_switch = the (run_steps (table_step start_layout) (switch_session @ [Ev_Delete 0]) (uni_hid_device_setup 2))"

theorem stale_delay_timer_traps:
  "run_steps (table_step start_layout) (switch_session @ [Ev_Delete 0]) (uni_hid_device_setup 2) = Some deleted_switch \<and>
   (0, Misc_Delay_Timer) \<in> sys_timers deleted_switch \<and> is_free (dev deleted_switch 0) \<and>
   admissible (table_step start_layout) table_ok switch_session deleted_switch \<and>
   run_steps (table_step start_layout) switch_session deleted_switch = None"
proof -
  have "run_steps (table_step start_layout) (switch_session @ [Ev_Delete 0]) (uni_hid_device_setup 2) \<noteq> None" by code_simp
  then have "run_steps (table_step start_layout) (switch_session @ [Ev_Delete 0]) (uni_hid_device_setup 2) = Some deleted_switch"
    by (auto simp: deleted_switch_def)
  moreover have "(0, Misc_Delay_Timer) \<in> sys_timers deleted_switch" "is_free (dev deleted_switch 0)"
    "admissible (table_step start_layout) table_ok switch_session deleted_switch"
    "run_steps (table_step start_layout) switch_session deleted_switch = None" by code_simp+
  ultimately show ?thesis by blast
qed

section \<open>Outgoing reports\<close>

text \<open>A request to send with the status of the attempt, and the stack's answer that it can send.\<close>

datatype link_event = Submit u8 u16 "u8 list" | Can_Send u8

fun link_step :: "link_event \<Rightarrow> circular_buffer \<Rightarrow> sent_report list \<times> circular_buffer" where
  "link_step (Submit st cid r) q = uni_hid_device_send_report st cid r q"
| "link_step (Can_Send st) q = uni_hid_device_send_queued_reports st q"

fun link_run :: "link_event list \<Rightarrow> circular_buffer \<Rightarrow> sent_report list \<times> circular_buffer" where
  "link_run [] q = ([], q)"
| "link_run (e # es) q =
     (let (out, q1) = link_step e q; (outs, q2) = link_run es q1 in (out @ outs, q2))"

definition waiting :: "circular_buffer \<Rightarrow> sent_report list" where
  "waiting q = map (\<lambda>x. Sent (u16_of (cb_cid x)) (cb_bytes x)) (cb_contents q)"

fun submitted :: "link_event list \<Rightarrow> sent_report list" where
  "submitted [] = []"
| "submitted (Submit st cid r # es) = (if cid = 0 \<or> r = [] then [] else [Sent cid r]) @ submitted es"
| "submitted (Can_Send st # es) = submitted es"

definition fits :: "sent_report \<Rightarrow> bool" where
  "fits m = (case m of Sent cid r \<Rightarrow> cid \<noteq> 0 \<and> r \<noteq> [] \<and> length r < UNI_CIRCULAR_BUFFER_DATA_SIZE)"

lemma cid_roundtrip [simp]: "u16_of (to_i16 (uint cid)) = (cid :: u16)"
proof -
  have m: "word_of_int (y mod 65536) = (word_of_int y :: u16)" for y
    by (simp add: word_of_int_eq_iff take_bit_eq_mod)
  show ?thesis
    unfolding u16_of_def to_i16_def to_signed_def by (simp add: m wi_hom_syms)
qed

lemma send_effect:
  assumes q: "cb_invar q" and f: "fits (Sent cid r)" and room: "length (cb_contents q) < 31"
    and s: "uni_hid_device_send_report st cid r q = (out, q')"
  shows "cb_invar q' \<and> (if st = 0 then out = [Sent cid r] \<and> q' = q
    else out = [] \<and> waiting q' = waiting q @ [Sent cid r])"
proof (cases "st = 0")
  case True
  with assms show ?thesis by (simp add: uni_hid_device_send_report_def fits_def)
next
  case False
  have "\<not> uni_circular_buffer_is_full q" using room cbq.full_law [OF q] by (simp add: UNI_CIRCULAR_BUFFER_SIZE_def)
  then obtain b where b: "uni_circular_buffer_put q (to_i16 (uint cid)) r = Inr b"
    using f by (auto simp: uni_circular_buffer_put_def fits_def)
  with s f False have "out = []" "q' = b" by (auto simp: uni_hid_device_send_report_def fits_def)
  with False cb_put_Inr [OF q b] show ?thesis by (simp add: waiting_def)
qed

lemma flush_effect:
  assumes q: "cb_invar q" and f: "\<forall>m \<in> set (waiting q). fits m"
    and s: "uni_hid_device_send_queued_reports st q = (out, q')"
  shows "cb_invar q' \<and> (case waiting q of [] \<Rightarrow> out = [] \<and> waiting q' = []
    | m # ms \<Rightarrow> if st = 0 then out = [m] \<and> waiting q' = ms else out = [] \<and> waiting q' = ms @ [m])"
proof (cases "uni_circular_buffer_is_empty q")
  case True
  with s q cbq.empty_law [OF q] show ?thesis by (simp add: uni_hid_device_send_queued_reports_def waiting_def)
next
  case False
  then obtain x b where g: "uni_circular_buffer_get q = Inr (x, b)"
    by (simp add: uni_circular_buffer_get_def cb_take_def)
  note k = cb_get_Inr [OF q g]
  have "length (cb_contents b) < 31"
    using k(2) cbq.bound_law [OF q] by (simp add: UNI_CIRCULAR_BUFFER_SIZE_def)
  moreover have "fits (Sent (u16_of (cb_cid x)) (cb_bytes x))" using f k(2) by (simp add: waiting_def)
  moreover have "uni_hid_device_send_report st (u16_of (cb_cid x)) (cb_bytes x) b = (out, q')"
    using s False g by (simp add: uni_hid_device_send_queued_reports_def)
  ultimately have "cb_invar q' \<and> (if st = 0 then out = [Sent (u16_of (cb_cid x)) (cb_bytes x)] \<and> q' = b
      else out = [] \<and> waiting q' = waiting b @ [Sent (u16_of (cb_cid x)) (cb_bytes x)])"
    by (intro send_effect [OF k(1)])
  moreover have "waiting q = Sent (u16_of (cb_cid x)) (cb_bytes x) # waiting b"
    by (simp add: waiting_def k(2))
  ultimately show ?thesis by (cases "st = 0") auto
qed

lemma link_run_conserves:
  assumes "cb_invar q" "\<forall>m \<in> set (waiting q @ submitted es). fits m"
    "length (waiting q) + length (submitted es) \<le> 31" "link_run es q = (out, q')"
  shows "mset out + mset (waiting q') = mset (waiting q) + mset (submitted es)"
  using assms
proof (induction es arbitrary: q out)
  case Nil
  then show ?case by simp
next
  case (Cons e es)
  obtain o1 q1 where st: "link_step e q = (o1, q1)" by fastforce
  obtain o2 where rest: "link_run es q1 = (o2, q')" and out: "out = o1 @ o2"
    using Cons.prems(4) st by (auto simp: Let_def split: prod.splits)
  have "cb_invar q1 \<and> mset o1 + mset (waiting q1) = mset (waiting q) + mset (submitted [e])"
  proof (cases e)
    case (Submit st cid r)
    show ?thesis
    proof (cases "cid = 0 \<or> r = []")
      case True
      with Submit st Cons.prems(1) show ?thesis
        by (auto simp: uni_hid_device_send_report_def split: if_splits)
    next
      case False
      with Submit Cons.prems(2,3) have "fits (Sent cid r)" "length (cb_contents q) < 31"
        by (auto simp: waiting_def)
      from send_effect [OF Cons.prems(1) this, of st o1 q1] st Submit False
      show ?thesis by (auto split: if_splits)
    qed
  next
    case (Can_Send st)
    with flush_effect [OF Cons.prems(1), of st o1 q1] st Cons.prems(2)
    show ?thesis by (auto split: list.splits if_splits)
  qed
  then have c: "cb_invar q1" and m: "mset (o1 @ waiting q1) = mset (waiting q @ submitted [e])" by simp_all
  have sub: "submitted (e # es) = submitted [e] @ submitted es" by (cases e) simp_all
  have "set (waiting q1) \<subseteq> set (waiting q @ submitted [e])" using mset_eq_setD [OF m] by auto
  moreover have "length (waiting q1) \<le> length (waiting q @ submitted [e])" using mset_eq_length [OF m] by simp
  ultimately have "mset o2 + mset (waiting q') = mset (waiting q1) + mset (submitted es)"
    using Cons.prems(2,3) by (intro Cons.IH [OF c _ _ rest]) (auto simp: sub)
  with m show ?case by (simp add: out sub) (metis add.assoc)
qed

lemma waiting_zero [simp]: "waiting cb_zero = []"
  by (simp add: waiting_def)

text \<open>
  C28: No report is lost or duplicated: over any sequence of at most 31 submitted reports of less
  than 128 bytes and any statuses of the link, what was sent and what still waits in the ring is
  exactly what was submitted (reports for no channel and empty reports are refused).
\<close>

theorem reports_conserved:
  assumes "\<forall>m \<in> set (submitted es). fits m" "length (submitted es) \<le> 31" "link_run es cb_zero = (out, q)"
  shows "mset out + mset (waiting q) = mset (submitted es)"
  using link_run_conserves [OF cb_zero_invar _ _ assms(3)] assms by simp

theorem reports_conserved_witness:
  "\<exists>out q. link_run [Submit 1 64 [5], Submit 0 64 [6], Can_Send 1, Can_Send 0] cb_zero = (out, q) \<and>
     mset out + mset (waiting q) = mset [Sent 64 [5], Sent 64 [6]]"
proof -
  obtain out q where r: "link_run [Submit 1 64 [5], Submit 0 64 [6], Can_Send 1, Can_Send 0] cb_zero = (out, q)"
    by fastforce
  from reports_conserved [OF _ _ r] r show ?thesis
    by (simp add: fits_def UNI_CIRCULAR_BUFFER_DATA_SIZE_def)
qed

text \<open>
  The order of reports is not kept: with two reports in the ring, an attempt that fails puts
  the older one behind the newer, and a report submitted while others wait overtakes them.
\<close>

theorem failed_resend_reorders:
  "fst (link_run [Submit 1 64 [5], Submit 1 64 [6], Can_Send 1, Can_Send 0, Can_Send 0] cb_zero) =
     [Sent 64 [6], Sent 64 [5]] \<and>
   fst (link_run [Submit 1 64 [5], Submit 0 64 [6], Can_Send 0] cb_zero) = [Sent 64 [6], Sent 64 [5]] \<and>
   fst (link_run [Submit 1 64 [5], Submit 1 64 [6], Can_Send 0, Can_Send 0] cb_zero) =
     [Sent 64 [5], Sent 64 [6]]"
  by code_simp

section \<open>Parser tables\<close>

text \<open>
  Guessing the controller type. An already typed device is left alone; otherwise the device
  gets a type that is not one of the unknown ones, and a parser table in which every report can be
  read: there is an init function (iCade apart) and a parser of whole reports or of usages, and
  usages need the HID descriptor. A device that only the class of device identifies becomes a mouse
  or a keyboard before the Xbox name and the Android fallback are considered.
\<close>

theorem guessed_parser_complete:
  "let d' = uni_hid_device_guess_controller_type_from_pid_vid db x d; t = hd_report_parser d'
   in if uni_hid_device_has_controller_type d then d' = d
      else uni_hid_device_has_controller_type d' \<and>
        hd_controller_type d' \<notin> {TYPE_Unknown, TYPE_UnknownNonSteamController, TYPE_UnknownSteamController} \<and>
        (pt_init_report t = None \<longleftrightarrow> hd_controller_type d' = TYPE_iCadeController) \<and>
        (pt_parse_input_report t \<noteq> None \<or> pt_parse_usage t \<noteq> None) \<and>
        (uni_hid_device_does_require_hid_descriptor d' \<longleftrightarrow> pt_parse_usage t \<noteq> None) \<and>
        (db (hd_vendor_id d) (hd_product_id d) = TYPE_Unknown \<longrightarrow>
           hd_controller_type d' = (if uni_hid_device_is_mouse d then TYPE_GenericMouse
             else if uni_hid_device_is_keyboard d then TYPE_GenericKeyboard
             else if x then TYPE_XBoxOneController else TYPE_AndroidController))"
proof -
  have flag: "has_bits (v OR FLAGS_HAS_CONTROLLER_TYPE) FLAGS_HAS_CONTROLLER_TYPE" for v
    by (simp add: FLAGS_HAS_CONTROLLER_TYPE_def has_bits_BIT bit_or_iff bit_BIT)
  have tables: "(pt_init_report (parser_for t b) = None \<longleftrightarrow> t = TYPE_iCadeController) \<and>
    (pt_parse_input_report (parser_for t b) \<noteq> None \<or> pt_parse_usage (parser_for t b) \<noteq> None)" for t b
    by (cases t) (simp_all add: no_parser_def Let_def)
  have guess: "guessed_type db x d \<notin> {TYPE_Unknown, TYPE_UnknownNonSteamController, TYPE_UnknownSteamController}"
    by (simp add: guessed_type_def Let_def)
  show ?thesis
    using flag tables guess
    by (simp add: uni_hid_device_guess_controller_type_from_pid_vid_def Let_def
        uni_hid_device_has_controller_type_def uni_hid_device_does_require_hid_descriptor_def guessed_type_def)
qed

theorem guessed_parser_complete_witness:
  "let d = hd_zero\<lparr>hd_cod := 0x580\<rparr>;
       d' = uni_hid_device_guess_controller_type_from_pid_vid (\<lambda>v p. TYPE_Unknown) False d
   in hd_controller_type d' = TYPE_GenericMouse \<and> uni_hid_device_has_controller_type d'"
proof -
  have "\<not> uni_hid_device_has_controller_type (hd_zero\<lparr>hd_cod := 0x580\<rparr>)"
    "uni_hid_device_is_mouse (hd_zero\<lparr>hd_cod := 0x580\<rparr>)" by code_simp+
  then show ?thesis
    using guessed_parser_complete [of "\<lambda>v p. TYPE_Unknown" False "hd_zero\<lparr>hd_cod := 0x580\<rparr>"]
    by (simp add: Let_def)
qed

end
