(* ===== verification/Bt_Bredr.thy ===== *)
theory Bt_Bredr
  imports Device_Table Parser_DS3 Switch_Device Allowlist
begin

text \<open>
  Connecting over Bluetooth BR/EDR: \<^verbatim>\<open>components/bluepad32/bt/uni_bt_bredr.c\<close> and
  \<^verbatim>\<open>bt/uni_bt_sdp.c\<close>, on the table of devices. Events of BTstack are calls of the handlers with the fields
  read from the packet; what is asked of BTstack is recorded in \<open>br_requests\<close>. Fields of a device that
  only these files use are maps over the slots. Starting a timer that runs and writing behind the
  buffer for attributes are the value None.

  An environment holds what other code answers: GAP types, the platform, the setup functions of the
  parsers, the table of known controllers, the statuses of the requests, and the byte strings in a
  list of HID descriptors.
\<close>

section \<open>State\<close>

datatype sdp_query_type = SDP_QUERY_AFTER_CONNECT | SDP_QUERY_BEFORE_CONNECT | SDP_QUERY_NOT_NEEDED

datatype bt_request =
    Name_Request bd_addr u8 u16
  | L2cap_Create bd_addr u16
  | L2cap_Accept u16
  | L2cap_Decline u16
  | Sdp_Query bd_addr u16
  | Drop_Link_Key bd_addr
  | Request_Security u16

record bredr =
  br_sys :: hid_system
  br_query_type :: "nat \<Rightarrow> sdp_query_type"
  br_page_scan :: "nat \<Rightarrow> u8"
  br_clock_offset :: "nat \<Rightarrow> u16"
  br_rssi :: "nat \<Rightarrow> u8"
  br_sdp_device :: "nat option"
  br_sdp_timer :: "nat option"
  br_attribute :: "u8 list"
  br_requests :: "bt_request list"

record bredr_env =
  en_gap :: "u16 \<Rightarrow> gap_type"
  en_accepted :: bool
  en_run_setup :: "parser_id \<Rightarrow> nat \<Rightarrow> hid_system \<Rightarrow> hid_system option"
  en_db :: "u16 \<Rightarrow> u16 \<Rightarrow> controller_type"
  en_allowed :: "bd_addr \<Rightarrow> bool"
  en_incoming_allowed :: bool
  en_platform :: "(bd_addr \<Rightarrow> string \<Rightarrow> u16 \<Rightarrow> u8 \<Rightarrow> bool) option"
  en_l2cap :: "u16 \<Rightarrow> u8 \<times> u16"
  en_sdp :: u8
  en_descriptors :: "u8 list \<Rightarrow> u8 list list"
  en_gap_security :: bool

definition PSM_HID_CONTROL :: u16 where "PSM_HID_CONTROL = 0x11"

definition PSM_HID_INTERRUPT :: u16 where "PSM_HID_INTERRUPT = 0x13"

definition PNP_INFORMATION :: u16 where "PNP_INFORMATION = 0x1200"

definition HID_SERVICE :: u16 where "HID_SERVICE = 0x1124"

definition UNI_BT_CLOCK_OFFSET_VALID :: u16 where "UNI_BT_CLOCK_OFFSET_VALID = BIT 15"

definition MAX_ATTRIBUTE_VALUE_SIZE :: nat where "MAX_ATTRIBUTE_VALUE_SIZE = 512"

definition ask_stack :: "bt_request \<Rightarrow> bredr \<Rightarrow> bredr" where
  "ask_stack q b = b\<lparr>br_requests := br_requests b @ [q]\<rparr>"

definition on_sys :: "(hid_system \<Rightarrow> hid_system) \<Rightarrow> bredr \<Rightarrow> bredr" where
  "on_sys f b = b\<lparr>br_sys := f (br_sys b)\<rparr>"

definition on_sys_opt :: "(hid_system \<Rightarrow> hid_system option) \<Rightarrow> bredr \<Rightarrow> bredr option" where
  "on_sys_opt f b = map_option (\<lambda>s. b\<lparr>br_sys := s\<rparr>) (f (br_sys b))"

definition the_dev :: "nat \<Rightarrow> bredr \<Rightarrow> hid_device" where
  "the_dev i b = dev (br_sys b) i"

definition state_of :: "nat \<Rightarrow> bredr \<Rightarrow> bt_conn_state" where
  "state_of i b = conn_state (hd_conn (the_dev i b))"

definition set_state :: "nat \<Rightarrow> bt_conn_state \<Rightarrow> bredr \<Rightarrow> bredr" where
  "set_state i st b = on_sys (upd_dev i (\<lambda>d. d\<lparr>hd_conn := uni_bt_conn_set_state st (hd_conn d)\<rparr>)) b"

definition upd_conn :: "nat \<Rightarrow> (bt_conn \<Rightarrow> bt_conn) \<Rightarrow> bredr \<Rightarrow> bredr" where
  "upd_conn i f b = on_sys (upd_dev i (\<lambda>d. d\<lparr>hd_conn := f (hd_conn d)\<rparr>)) b"

definition addr_of :: "nat \<Rightarrow> bredr \<Rightarrow> bd_addr" where
  "addr_of i b = btaddr (hd_conn (the_dev i b))"

definition uni_hid_device_has_name :: "hid_device \<Rightarrow> bool" where
  "uni_hid_device_has_name d \<longleftrightarrow> has_bits (hd_flags d) FLAGS_HAS_NAME"

definition is_incoming :: "nat \<Rightarrow> bredr \<Rightarrow> bool" where
  "is_incoming i b \<longleftrightarrow> incoming (hd_conn (the_dev i b))"

text \<open>The memset of a slot also clears the fields kept here.\<close>

definition clear_slot :: "nat \<Rightarrow> bredr \<Rightarrow> bredr" where
  "clear_slot i b = b\<lparr>br_query_type := (br_query_type b)(i := SDP_QUERY_AFTER_CONNECT),
     br_page_scan := (br_page_scan b)(i := 0), br_clock_offset := (br_clock_offset b)(i := 0),
     br_rssi := (br_rssi b)(i := 0)\<rparr>"

definition create_device :: "bd_addr \<Rightarrow> bredr \<Rightarrow> (nat option \<times> bredr) option" where
  "create_device addr b = (case uni_hid_device_create addr (br_sys b) of
     None \<Rightarrow> None
   | Some (None, s) \<Rightarrow> Some (None, b\<lparr>br_sys := s\<rparr>)
   | Some (Some i, s) \<Rightarrow> Some (Some i, clear_slot i (b\<lparr>br_sys := s\<rparr>)))"

text \<open>\<^verbatim>\<open>uni_hid_device_disconnect\<close> and then \<^verbatim>\<open>uni_hid_device_delete\<close>, as all callers do.\<close>

definition drop :: "bredr_env \<Rightarrow> nat \<Rightarrow> bredr \<Rightarrow> bredr option" where
  "drop env i b = (case uni_hid_device_disconnect (en_gap env) i (br_sys b) of
     None \<Rightarrow> None
   | Some s1 \<Rightarrow> map_option (\<lambda>s2. clear_slot i (b\<lparr>br_sys := s2\<rparr>)) (uni_hid_device_delete i s1))"

definition set_ready :: "bredr_env \<Rightarrow> nat \<Rightarrow> bredr \<Rightarrow> bredr option" where
  "set_ready env i b = on_sys_opt (uni_hid_device_set_ready (en_gap env) (en_accepted env) (en_run_setup env) i) b"

section \<open>Names\<close>

definition name_match :: "string \<Rightarrow> (u16 \<times> u16) option" where
  "name_match name =
     (if ds3_known_name name then Some (0x054c, 0x0268) else uni_hid_parser_switch_does_name_match name)"

definition guess_from_pid_vid :: "bredr_env \<Rightarrow> nat \<Rightarrow> bredr \<Rightarrow> bredr" where
  "guess_from_pid_vid env i b = on_sys (upd_dev i (\<lambda>d. uni_hid_device_guess_controller_type_from_pid_vid (en_db env)
     (hd_name d = ''Xbox Wireless Controller'') d)) b"

definition uni_hid_device_guess_controller_type_from_name ::
  "bredr_env \<Rightarrow> nat \<Rightarrow> string \<Rightarrow> bredr \<Rightarrow> bool \<times> bredr" where
  "uni_hid_device_guess_controller_type_from_name env i name b = (case name_match name of
     None \<Rightarrow> (False, b)
   | Some (vid, pid) \<Rightarrow> (True, guess_from_pid_vid env i
       (on_sys (uni_hid_device_set_product_id i pid) (on_sys (uni_hid_device_set_vendor_id i vid) b))))"

section \<open>Requests\<close>

definition l2cap_create_control_connection :: "bredr_env \<Rightarrow> nat \<Rightarrow> bredr \<Rightarrow> bredr" where
  "l2cap_create_control_connection env i b =
     (let b1 = ask_stack (L2cap_Create (addr_of i b) PSM_HID_CONTROL) b; (status, cid) = en_l2cap env PSM_HID_CONTROL
      in if status \<noteq> 0 then b1
         else set_state i STATE_L2CAP_CONTROL_CONNECTION_REQUESTED (upd_conn i (\<lambda>c. c\<lparr>control_cid := cid\<rparr>) b1))"

definition l2cap_create_interrupt_connection :: "bredr_env \<Rightarrow> nat \<Rightarrow> bredr \<Rightarrow> bredr" where
  "l2cap_create_interrupt_connection env i b =
     (let b1 = ask_stack (L2cap_Create (addr_of i b) PSM_HID_INTERRUPT) b; (status, cid) = en_l2cap env PSM_HID_INTERRUPT
      in if status \<noteq> 0 then b1
         else set_state i STATE_L2CAP_INTERRUPT_CONNECTION_REQUESTED (upd_conn i (\<lambda>c. c\<lparr>interrupt_cid := cid\<rparr>) b1))"

definition uni_bt_sdp_query_start_vid_pid :: "bredr_env \<Rightarrow> nat \<Rightarrow> bredr \<Rightarrow> bredr option" where
  "uni_bt_sdp_query_start_vid_pid env i b =
     (let b1 = ask_stack (Sdp_Query (addr_of i b) PNP_INFORMATION) (set_state i STATE_SDP_VENDOR_REQUESTED b)
      in if en_sdp env \<noteq> 0 then drop env i b1 else Some b1)"

definition uni_bt_sdp_query_start :: "bredr_env \<Rightarrow> nat \<Rightarrow> bredr \<Rightarrow> bredr option" where
  "uni_bt_sdp_query_start env i b =
     (if br_sdp_device b \<noteq> None then drop env i b
      else if br_sdp_timer b \<noteq> None then None
      else uni_bt_sdp_query_start_vid_pid env i (b\<lparr>br_sdp_device := Some i, br_sdp_timer := Some i\<rparr>))"

section \<open>The state machine\<close>

definition request_name :: "nat \<Rightarrow> bredr \<Rightarrow> bredr option" where
  "request_name i b =
     (let q = (if has_bits (br_clock_offset b i) UNI_BT_CLOCK_OFFSET_VALID
               then Name_Request (addr_of i b) (br_page_scan b i) (br_clock_offset b i)
               else Name_Request (addr_of i b) 2 0)
      in on_sys_opt (add_timer i Inquiry_Timer) (set_state i STATE_REMOTE_NAME_INQUIRED (ask_stack q b)))"

definition name_fetched :: "bredr_env \<Rightarrow> nat \<Rightarrow> bredr \<Rightarrow> bredr option" where
  "name_fetched env i b =
     (let name = hd_name (the_dev i b)
      in if name = ''Wireless Controller''
         then uni_bt_sdp_query_start env i (b\<lparr>br_query_type := (br_query_type b)(i := SDP_QUERY_BEFORE_CONNECT)\<rparr>)
         else let (known, b1) = uni_hid_device_guess_controller_type_from_name env i name b;
                  b2 = (if known then set_state i STATE_SDP_HID_DESCRIPTOR_FETCHED
                          (b1\<lparr>br_query_type := (br_query_type b1)(i := SDP_QUERY_NOT_NEEDED)\<rparr>) else b1)
           in if is_incoming i b2
              then (if br_query_type b2 i = SDP_QUERY_NOT_NEEDED then set_ready env i b2
                    else uni_bt_sdp_query_start env i b2)
              else Some (l2cap_create_control_connection env i b2))"

definition descriptor_fetched :: "bredr_env \<Rightarrow> nat \<Rightarrow> bredr \<Rightarrow> bredr option" where
  "descriptor_fetched env i b =
     (if is_incoming i b then set_ready env i b
      else if br_query_type b i = SDP_QUERY_BEFORE_CONNECT then Some (l2cap_create_control_connection env i b)
      else set_ready env i b)"

definition outgoing_connected :: "bredr_env \<Rightarrow> nat \<Rightarrow> bredr \<Rightarrow> bredr option" where
  "outgoing_connected env i b =
     (if state_of i b = STATE_L2CAP_CONTROL_CONNECTED then Some (l2cap_create_interrupt_connection env i b)
      else if state_of i b = STATE_L2CAP_INTERRUPT_CONNECTED
      then (case br_query_type b i of
              SDP_QUERY_AFTER_CONNECT \<Rightarrow> uni_bt_sdp_query_start env i b
            | _ \<Rightarrow> set_ready env i b)
      else Some b)"

definition setup_rank :: "nat \<Rightarrow> bredr \<Rightarrow> nat" where
  "setup_rank i b = (if i < length (sys_devices (br_sys b)) \<and> state_of i b = STATE_SDP_VENDOR_FETCHED then 4 else 1)"

lemma state_after [simp]:
  "i < length (sys_devices (br_sys b)) \<Longrightarrow> state_of i (set_state i st b) = st"
  by (simp add: state_of_def set_state_def the_dev_def on_sys_def dev_def upd_dev_def uni_bt_conn_set_state_def)

lemma slots_after [simp]:
  "length (sys_devices (br_sys (set_state i st b))) = length (sys_devices (br_sys b))"
  by (simp add: set_state_def on_sys_def upd_dev_def)

lemma state_update [simp]:
  "state_of i (b\<lparr>br_sdp_device := x, br_sdp_timer := y\<rparr>) = state_of i b"
  by (simp add: state_of_def the_dev_def)

text \<open>
  The three functions call each other: a device that needs no HID descriptor goes on at once. A slot
  outside the table is the null pointer.
\<close>

function (sequential) uni_bt_bredr_process_fsm :: "bredr_env \<Rightarrow> nat \<Rightarrow> bredr \<Rightarrow> bredr option"
  and uni_bt_sdp_query_start_hid_descriptor :: "bredr_env \<Rightarrow> nat \<Rightarrow> bredr \<Rightarrow> bredr option"
  and uni_bt_sdp_query_end :: "bredr_env \<Rightarrow> nat \<Rightarrow> bredr \<Rightarrow> bredr option" where
  "uni_bt_bredr_process_fsm env i b =
     (if i \<ge> length (sys_devices (br_sys b)) then Some b
      else if \<not> uni_hid_device_has_name (the_dev i b) \<and>
        (state_of i b = STATE_DEVICE_DISCOVERED \<or> state_of i b = STATE_L2CAP_INTERRUPT_CONNECTED)
      then request_name i b
      else if state_of i b = STATE_REMOTE_NAME_FETCHED then name_fetched env i b
      else if state_of i b = STATE_SDP_VENDOR_FETCHED then uni_bt_sdp_query_start_hid_descriptor env i b
      else if state_of i b = STATE_SDP_HID_DESCRIPTOR_FETCHED then descriptor_fetched env i b
      else if \<not> is_incoming i b then outgoing_connected env i b
      else Some b)"
| "uni_bt_sdp_query_start_hid_descriptor env i b =
     (if \<not> uni_hid_device_does_require_hid_descriptor (the_dev i b) then uni_bt_sdp_query_end env i b
      else if br_sdp_device b = None then Some b
      else let b1 = ask_stack (Sdp_Query (addr_of i b) HID_SERVICE) (set_state i STATE_SDP_HID_DESCRIPTOR_REQUESTED b)
        in if en_sdp env \<noteq> 0 then drop env i (b1\<lparr>br_sdp_timer := None\<rparr>) else Some b1)"
| "uni_bt_sdp_query_end env i b = uni_bt_bredr_process_fsm env i
     ((set_state i STATE_SDP_HID_DESCRIPTOR_FETCHED b)\<lparr>br_sdp_device := None, br_sdp_timer := None\<rparr>)"
  by pat_completeness auto

termination
  by (relation "measure (\<lambda>x. case x of Inl (_, i, b) \<Rightarrow> setup_rank i b | Inr (Inl _) \<Rightarrow> 3 | Inr (Inr _) \<Rightarrow> 2)")
    (auto simp: setup_rank_def)

declare uni_bt_bredr_process_fsm.simps [simp del] uni_bt_sdp_query_start_hid_descriptor.simps [simp del]
  uni_bt_sdp_query_end.simps [simp del]

section \<open>Handlers of the connection events\<close>

definition inquiry_remote_name_timeout_callback :: "bredr_env \<Rightarrow> nat \<Rightarrow> bredr \<Rightarrow> bredr option" where
  "inquiry_remote_name_timeout_callback env i b = uni_bt_bredr_process_fsm env i
     (set_state i STATE_REMOTE_NAME_FETCHED (on_sys (uni_hid_device_set_name i (Some ''Controller without name'')) b))"

definition instance_for :: "bd_addr \<Rightarrow> bredr \<Rightarrow> nat option" where
  "instance_for addr b = uni_hid_device_get_instance_for_address addr (br_sys b)"

definition accept_control :: "u16 \<Rightarrow> u16 \<Rightarrow> nat \<Rightarrow> bredr \<Rightarrow> bredr" where
  "accept_control channel hnd i b = on_sys (uni_hid_device_set_incoming i True)
     (upd_conn i (\<lambda>c. c\<lparr>control_cid := channel\<rparr>)
       (on_sys (uni_hid_device_set_connection_handle i hnd) (ask_stack (L2cap_Accept channel) b)))"

definition incoming_channel :: "u16 \<Rightarrow> u16 \<Rightarrow> u16 \<Rightarrow> bd_addr \<Rightarrow> nat option \<Rightarrow> bredr \<Rightarrow> bredr option" where
  "incoming_channel channel psm hnd addr device b =
     (if psm = PSM_HID_CONTROL
      then (case device of
              Some i \<Rightarrow> Some (accept_control channel hnd i b)
            | None \<Rightarrow> (case create_device addr b of
                None \<Rightarrow> None
              | Some (None, b1) \<Rightarrow> Some (ask_stack (L2cap_Decline channel) b1)
              | Some (Some i, b1) \<Rightarrow> Some (accept_control channel hnd i b1)))
      else if psm = PSM_HID_INTERRUPT
      then (case device of
              None \<Rightarrow> Some (ask_stack (L2cap_Decline channel) b)
            | Some i \<Rightarrow> Some (ask_stack (L2cap_Accept channel) (upd_conn i (\<lambda>c. c\<lparr>interrupt_cid := channel\<rparr>) b)))
      else Some b)"

definition uni_bt_bredr_on_l2cap_incoming_connection ::
  "bredr_env \<Rightarrow> u16 \<Rightarrow> u16 \<Rightarrow> u16 \<Rightarrow> bd_addr \<Rightarrow> bredr \<Rightarrow> bredr option" where
  "uni_bt_bredr_on_l2cap_incoming_connection env channel psm hnd addr b =
     (if \<not> en_incoming_allowed env then Some (ask_stack (L2cap_Decline channel) b)
      else if \<not> en_allowed env addr then Some (ask_stack (L2cap_Decline channel) b)
      else case instance_for addr b of
          None \<Rightarrow> incoming_channel channel psm hnd addr None b
        | Some i \<Rightarrow>
            if state_of i b = STATE_DEVICE_READY
            then (case drop env i b of
                    None \<Rightarrow> None | Some b1 \<Rightarrow> incoming_channel channel psm hnd addr None b1)
            else incoming_channel channel psm hnd addr (Some i) b)"

definition uni_bt_bredr_on_l2cap_channel_opened ::
  "bredr_env \<Rightarrow> u8 \<Rightarrow> u16 \<Rightarrow> u16 \<Rightarrow> bd_addr \<Rightarrow> bredr \<Rightarrow> bredr option" where
  "uni_bt_bredr_on_l2cap_channel_opened env status psm local_cid addr b = (case instance_for addr b of
     None \<Rightarrow> Some b
   | Some i \<Rightarrow>
       if status \<noteq> 0 then drop env i (ask_stack (Drop_Link_Key (addr_of i b)) b)
       else uni_bt_bredr_process_fsm env i
         (if psm = PSM_HID_CONTROL
          then set_state i STATE_L2CAP_CONTROL_CONNECTED (upd_conn i (\<lambda>c. c\<lparr>control_cid := local_cid\<rparr>) b)
          else if psm = PSM_HID_INTERRUPT
          then on_sys (uni_hid_device_connect i)
            (set_state i STATE_L2CAP_INTERRUPT_CONNECTED (upd_conn i (\<lambda>c. c\<lparr>interrupt_cid := local_cid\<rparr>) b))
          else b))"

definition uni_bt_bredr_on_l2cap_channel_closed :: "bredr_env \<Rightarrow> u16 \<Rightarrow> bredr \<Rightarrow> bredr option" where
  "uni_bt_bredr_on_l2cap_channel_closed env local_cid b =
     (case uni_hid_device_get_instance_for_cid local_cid (br_sys b) of None \<Rightarrow> Some b | Some i \<Rightarrow> drop env i b)"

text \<open>Where the bytes of a packet go: to the parser of feature reports or of input reports.\<close>

datatype delivery = Deliver_Feature nat "u8 list" | Deliver_Input nat "u8 list"

definition uni_bt_bredr_on_l2cap_data_packet :: "u16 \<Rightarrow> u8 list \<Rightarrow> bredr \<Rightarrow> delivery option" where
  "uni_bt_bredr_on_l2cap_data_packet channel packet b =
     (case uni_hid_device_get_instance_for_cid channel (br_sys b) of
        None \<Rightarrow> None
      | Some i \<Rightarrow>
          if length packet < 2 then None
          else if channel = control_cid (hd_conn (the_dev i b))
          then (if pt_parse_feature_report (hd_report_parser (the_dev i b)) \<noteq> None
                then Some (Deliver_Feature i (tl packet)) else None)
          else if channel \<noteq> interrupt_cid (hd_conn (the_dev i b)) then None
          else if packet ! 0 \<noteq> 0xa1 then None
          else Some (Deliver_Input i (tl packet)))"

definition discovered_device ::
  "nat \<Rightarrow> u32 \<Rightarrow> u8 \<Rightarrow> u16 \<Rightarrow> u8 \<Rightarrow> string option \<Rightarrow> bredr \<Rightarrow> bredr" where
  "discovered_device i cod page_scan clock_offset rssi name b =
     (let b1 = on_sys (uni_hid_device_set_cod i cod) (set_state i STATE_DEVICE_DISCOVERED b);
          b2 = b1\<lparr>br_page_scan := (br_page_scan b1)(i := page_scan),
            br_clock_offset := (br_clock_offset b1)(i := clock_offset OR UNI_BT_CLOCK_OFFSET_VALID),
            br_rssi := (br_rssi b1)(i := rssi)\<rparr>
      in case name of
           Some n \<Rightarrow> if n \<noteq> [] \<and> \<not> uni_hid_device_has_name (the_dev i b2)
             then set_state i STATE_REMOTE_NAME_FETCHED (on_sys (uni_hid_device_set_name i (Some n)) b2) else b2
         | None \<Rightarrow> b2)"

definition uni_bt_bredr_on_gap_inquiry_result ::
  "bredr_env \<Rightarrow> bd_addr \<Rightarrow> u8 \<Rightarrow> u16 \<Rightarrow> u32 \<Rightarrow> u8 option \<Rightarrow> string option \<Rightarrow> bredr \<Rightarrow> bredr option" where
  "uni_bt_bredr_on_gap_inquiry_result env addr page_scan clock_offset cod rssi_opt name b =
     (let rssi = (case rssi_opt of Some r \<Rightarrow> r | None \<Rightarrow> 255);
          n = (case name of Some n \<Rightarrow> n | None \<Rightarrow> [])
      in if \<not> uni_hid_device_on_device_discovered (en_allowed env) (en_platform env) addr n (ucast cod) rssi then Some b
         else case instance_for addr b of
             Some i \<Rightarrow> if state_of i b = STATE_DEVICE_READY then Some b else uni_bt_bredr_process_fsm env i b
           | None \<Rightarrow> (case create_device addr b of
               None \<Rightarrow> None
             | Some (None, b1) \<Rightarrow> Some b1
             | Some (Some i, b1) \<Rightarrow> uni_bt_bredr_process_fsm env i
                 (discovered_device i cod page_scan clock_offset rssi name b1)))"

definition uni_bt_bredr_on_hci_connection_request :: "bd_addr \<Rightarrow> u32 \<Rightarrow> bredr \<Rightarrow> bredr option" where
  "uni_bt_bredr_on_hci_connection_request addr cod b =
     (let announced = (\<lambda>i b. on_sys (uni_hid_device_set_incoming i True) (on_sys (uni_hid_device_set_cod i cod) b))
      in case instance_for addr b of
           Some i \<Rightarrow> Some (announced i b)
         | None \<Rightarrow> (case create_device addr b of
             None \<Rightarrow> None
           | Some (None, b1) \<Rightarrow> Some b1
           | Some (Some i, b1) \<Rightarrow> Some (announced i b1)))"

definition uni_bt_bredr_on_hci_connection_complete ::
  "bredr_env \<Rightarrow> u8 \<Rightarrow> u16 \<Rightarrow> bd_addr \<Rightarrow> bredr \<Rightarrow> bredr" where
  "uni_bt_bredr_on_hci_connection_complete env status hnd addr b =
     (if status \<noteq> 0 then b
      else case instance_for addr b of
          None \<Rightarrow> b
        | Some i \<Rightarrow>
            let b1 = on_sys (uni_hid_device_set_connection_handle i hnd) b
            in if en_gap_security env then b1 else ask_stack (Request_Security hnd) b1)"

text \<open>\<^verbatim>\<open>on_hci_disconnection_complete\<close> of \<^verbatim>\<open>uni_bt.c\<close>.\<close>

definition on_hci_disconnection_complete :: "bredr_env \<Rightarrow> u16 \<Rightarrow> bredr \<Rightarrow> bredr option" where
  "on_hci_disconnection_complete env hnd b =
     (case uni_hid_device_get_instance_for_connection_handle hnd (br_sys b) of
        None \<Rightarrow> Some b | Some i \<Rightarrow> drop env i b)"

text \<open>The PIN: zeros for keyboards and mice, else the own address backwards (a Wii remote in sync mode).\<close>

definition uni_bt_bredr_on_hci_pin_code_request :: "bd_addr \<Rightarrow> bd_addr \<Rightarrow> bredr \<Rightarrow> bd_addr \<times> u8 list" where
  "uni_bt_bredr_on_hci_pin_code_request local_addr addr b =
     (let is_mouse_or_keyboard = (case instance_for addr b of
            None \<Rightarrow> False
          | Some i \<Rightarrow> hd_cod (the_dev i b) AND COD_MAJOR_MASK = COD_MAJOR_PERIPHERAL \<and>
              hd_cod (the_dev i b) AND 0xc0 \<noteq> 0)
      in (addr, if is_mouse_or_keyboard then [0x30, 0x30, 0x30, 0x30] else rev local_addr))"

definition uni_bt_bredr_on_hci_remote_name_request_complete ::
  "bredr_env \<Rightarrow> u8 \<Rightarrow> string \<Rightarrow> bd_addr \<Rightarrow> bredr \<Rightarrow> bredr option" where
  "uni_bt_bredr_on_hci_remote_name_request_complete env status remote_name addr b = (case instance_for addr b of
     None \<Rightarrow> Some b
   | Some i \<Rightarrow>
       let name = (if status \<noteq> 0 then ''Controller without name'' else remote_name);
           b1 = on_sys (uni_hid_device_set_name i (Some name)) b;
           r = (if state_of i b1 \<noteq> STATE_DEVICE_PENDING_READY \<and> state_of i b1 \<noteq> STATE_DEVICE_READY
                then uni_bt_bredr_process_fsm env i (set_state i STATE_REMOTE_NAME_FETCHED b1) else Some b1)
       in map_option (on_sys (remove_timer i Inquiry_Timer)) r)"

section \<open>Answers to SDP queries\<close>

datatype sdp_event = Attribute_Byte u16 u16 u16 u8 | Query_Finished

text \<open>An element that is an integer of 16 bits.\<close>

definition de_element_get_uint16 :: "u8 list \<Rightarrow> u16 option" where
  "de_element_get_uint16 e =
     (if e ! 0 AND 7 = 1 then Some (push_bit 8 (ucast (e ! 1)) OR ucast (e ! 2)) else None)"

text \<open>A byte of an attribute, and whether it was the last.\<close>

definition attribute_byte :: "u16 \<Rightarrow> u16 \<Rightarrow> u8 \<Rightarrow> bredr \<Rightarrow> (bredr \<times> bool) option" where
  "attribute_byte len offset data b =
     (if unat len > MAX_ATTRIBUTE_VALUE_SIZE then Some (b, False)
      else if unat offset \<ge> MAX_ATTRIBUTE_VALUE_SIZE then None
      else Some (b\<lparr>br_attribute := (br_attribute b)[unat offset := data]\<rparr>, offset + 1 = len))"

fun set_descriptors :: "nat \<Rightarrow> u8 list list \<Rightarrow> bredr \<Rightarrow> bredr option" where
  "set_descriptors i [] b = Some b"
| "set_descriptors i (x # xs) b = (case on_sys_opt (uni_hid_device_set_hid_descriptor i x) b of
     None \<Rightarrow> None | Some b1 \<Rightarrow> set_descriptors i xs b1)"

fun uni_handle_sdp_hid_query_result :: "bredr_env \<Rightarrow> sdp_event \<Rightarrow> bredr \<Rightarrow> bredr option" where
  "uni_handle_sdp_hid_query_result env (Attribute_Byte attribute len offset data) b =
     (case br_sdp_device b of
        None \<Rightarrow> Some b
      | Some i \<Rightarrow> (case attribute_byte len offset data b of
          None \<Rightarrow> None
        | Some (b1, complete) \<Rightarrow>
            if complete \<and> attribute = 0x0206 then set_descriptors i (en_descriptors env (br_attribute b1)) b1
            else Some b1))"
| "uni_handle_sdp_hid_query_result env Query_Finished b =
     (case br_sdp_device b of None \<Rightarrow> Some b | Some i \<Rightarrow> uni_bt_sdp_query_end env i b)"

fun uni_handle_sdp_pid_query_result :: "bredr_env \<Rightarrow> sdp_event \<Rightarrow> bredr \<Rightarrow> bredr option" where
  "uni_handle_sdp_pid_query_result env (Attribute_Byte attribute len offset data) b =
     (case br_sdp_device b of
        None \<Rightarrow> Some b
      | Some i \<Rightarrow> (case attribute_byte len offset data b of
          None \<Rightarrow> None
        | Some (b1, complete) \<Rightarrow>
            if \<not> complete then Some b1
            else (case de_element_get_uint16 (br_attribute b1) of
                None \<Rightarrow> Some b1
              | Some v \<Rightarrow>
                  if attribute = 0x0201 then Some (on_sys (uni_hid_device_set_vendor_id i v) b1)
                  else if attribute = 0x0202 then Some (on_sys (uni_hid_device_set_product_id i v) b1)
                  else Some b1)))"
| "uni_handle_sdp_pid_query_result env Query_Finished b =
     (case br_sdp_device b of
        None \<Rightarrow> Some b
      | Some i \<Rightarrow> uni_bt_bredr_process_fsm env i (set_state i STATE_SDP_VENDOR_FETCHED (guess_from_pid_vid env i b)))"

text \<open>\<open>i\<close> is the context of the timer, which the run loop has removed.\<close>

definition sdp_query_timeout :: "nat \<Rightarrow> bredr \<Rightarrow> bredr" where
  "sdp_query_timeout i b =
     (if br_sdp_device b = None then b
      else if br_sdp_device b \<noteq> Some i then b
      else b\<lparr>br_sdp_device := None\<rparr>)"

section \<open>Runs\<close>

datatype bredr_event =
    Name_Timeout nat
  | Sdp_Timeout
  | Connection_Timeout nat
  | Incoming_Connection u16 u16 u16 bd_addr
  | Channel_Opened u8 u16 u16 bd_addr
  | Channel_Closed u16
  | Inquiry_Result bd_addr u8 u16 u32 "u8 option" "string option"
  | Connection_Request bd_addr u32
  | Connection_Complete u8 u16 bd_addr
  | Disconnection_Complete u16
  | Name_Complete u8 string bd_addr
  | Sdp_Pid sdp_event
  | Sdp_Hid sdp_event

fun bredr_step :: "bredr_env \<Rightarrow> bredr_event \<Rightarrow> bredr \<Rightarrow> bredr option" where
  "bredr_step env (Name_Timeout i) b =
     inquiry_remote_name_timeout_callback env i (on_sys (remove_timer i Inquiry_Timer) b)"
| "bredr_step env Sdp_Timeout b =
     (case br_sdp_timer b of None \<Rightarrow> Some b | Some i \<Rightarrow> Some (sdp_query_timeout i (b\<lparr>br_sdp_timer := None\<rparr>)))"
| "bredr_step env (Connection_Timeout i) b = map_option (if state_of i b = STATE_DEVICE_READY then id else clear_slot i)
     (on_sys_opt (device_connection_timeout (en_gap env) i) b)"
| "bredr_step env (Incoming_Connection channel psm hnd addr) b =
     uni_bt_bredr_on_l2cap_incoming_connection env channel psm hnd addr b"
| "bredr_step env (Channel_Opened status psm cid addr) b =
     uni_bt_bredr_on_l2cap_channel_opened env status psm cid addr b"
| "bredr_step env (Channel_Closed cid) b = uni_bt_bredr_on_l2cap_channel_closed env cid b"
| "bredr_step env (Inquiry_Result addr page_scan clock_offset cod rssi name) b =
     uni_bt_bredr_on_gap_inquiry_result env addr page_scan clock_offset cod rssi name b"
| "bredr_step env (Connection_Request addr cod) b = uni_bt_bredr_on_hci_connection_request addr cod b"
| "bredr_step env (Connection_Complete status hnd addr) b =
     Some (uni_bt_bredr_on_hci_connection_complete env status hnd addr b)"
| "bredr_step env (Disconnection_Complete hnd) b = on_hci_disconnection_complete env hnd b"
| "bredr_step env (Name_Complete status name addr) b =
     uni_bt_bredr_on_hci_remote_name_request_complete env status name addr b"
| "bredr_step env (Sdp_Pid e) b = uni_handle_sdp_pid_query_result env e b"
| "bredr_step env (Sdp_Hid e) b = uni_handle_sdp_hid_query_result env e b"

definition bredr_fresh :: "nat \<Rightarrow> bredr" where
  "bredr_fresh n = \<lparr>br_sys = uni_hid_device_setup n, br_query_type = (\<lambda>_. SDP_QUERY_AFTER_CONNECT),
     br_page_scan = (\<lambda>_. 0), br_clock_offset = (\<lambda>_. 0), br_rssi = (\<lambda>_. 0), br_sdp_device = None,
     br_sdp_timer = None, br_attribute = replicate MAX_ATTRIBUTE_VALUE_SIZE 0, br_requests = []\<rparr>"

end
