(* ===== verification/Bredr_Requests.thy ===== *)
theory Bredr_Requests
  imports Bt_Bredr
begin

text \<open>
  Invariants of \<^verbatim>\<open>Bt_Bredr\<close> over all runs, whatever the stack reports in whatever order: the timer of
  the SDP query belongs to the device being queried, and channels are accepted only as the allow list
  and the switch for incoming connections say. \<open>tame\<close> is what every operation keeps.
\<close>

section \<open>The query in progress, and the connections accepted\<close>

definition sdp_ok :: "bredr \<Rightarrow> bool" where
  "sdp_ok b \<longleftrightarrow> (br_sdp_timer b = None \<or> br_sdp_timer b = br_sdp_device b)"

definition accepted :: "bredr \<Rightarrow> u16 set" where
  "accepted b = {c. L2cap_Accept c \<in> set (br_requests b)}"

text \<open>What every step keeps, the acceptance of a channel apart.\<close>

definition tame :: "bredr \<Rightarrow> bredr \<Rightarrow> bool" where
  "tame b b' \<longleftrightarrow> accepted b' = accepted b \<and> (sdp_ok b \<longrightarrow> sdp_ok b')"

definition tame_opt :: "bredr \<Rightarrow> bredr option \<Rightarrow> bool" where
  "tame_opt b r \<longleftrightarrow> (case r of None \<Rightarrow> True | Some b' \<Rightarrow> tame b b')"

lemma tame_refl [simp]: "tame b b"
  by (simp add: tame_def)

lemma tame_opt_simps [simp]: "tame_opt b None" "tame_opt b (Some b') = tame b b'"
  by (simp_all add: tame_opt_def)

lemma tame_trans: "tame a b \<Longrightarrow> tame b c \<Longrightarrow> tame a c"
  by (simp add: tame_def)

lemma tame_opt_trans: "tame a b \<Longrightarrow> tame_opt b r \<Longrightarrow> tame_opt a r"
  by (auto simp: tame_opt_def intro: tame_trans split: option.splits)

lemma tame_on_sys [simp]: "tame a (on_sys f b) = tame a b"
  by (simp add: tame_def accepted_def sdp_ok_def on_sys_def)

lemma tame_on_sys_opt [simp]: "tame a b \<Longrightarrow> tame_opt a (on_sys_opt f b)"
  by (cases "f (br_sys b)") (simp_all add: tame_def accepted_def sdp_ok_def on_sys_opt_def)

lemma tame_map [simp]: "tame_opt a r \<Longrightarrow> tame_opt a (map_option (on_sys f) r)"
  by (cases r) simp_all

lemma tame_state [simp]: "tame a (set_state i st b) = tame a b" "tame a (upd_conn i f b) = tame a b"
  by (simp_all add: set_state_def upd_conn_def)

lemma tame_fields [simp]:
  "tame a (b\<lparr>br_query_type := q\<rparr>) = tame a b" "tame a (b\<lparr>br_page_scan := p\<rparr>) = tame a b"
  "tame a (b\<lparr>br_clock_offset := c\<rparr>) = tame a b" "tame a (b\<lparr>br_rssi := r\<rparr>) = tame a b"
  "tame a (b\<lparr>br_attribute := t\<rparr>) = tame a b" "tame a (b\<lparr>br_sys := s\<rparr>) = tame a b"
  "tame a (clear_slot i b) = tame a b"
  by (simp_all add: tame_def accepted_def sdp_ok_def clear_slot_def)

lemma tame_sdp [simp]:
  "tame a b \<Longrightarrow> tame a (b\<lparr>br_sdp_timer := None\<rparr>)"
  "tame a b \<Longrightarrow> tame a (b\<lparr>br_sdp_device := x, br_sdp_timer := x\<rparr>)"
  "tame a b \<Longrightarrow> tame a (b\<lparr>br_sdp_device := x, br_sdp_timer := None\<rparr>)"
  by (simp_all add: tame_def accepted_def sdp_ok_def)

lemma accepted_request [simp]:
  "accepted (ask_stack q b) = (case q of L2cap_Accept c \<Rightarrow> insert c (accepted b) | _ \<Rightarrow> accepted b)"
  by (cases q) (auto simp: accepted_def ask_stack_def)

lemma tame_request [simp]: "(\<And>c. q \<noteq> L2cap_Accept c) \<Longrightarrow> tame a (ask_stack q b) = tame a b"
proof -
  assume q: "\<And>c. q \<noteq> L2cap_Accept c"
  have "accepted (ask_stack q b) = accepted b" using q by (auto split: bt_request.splits)
  moreover have "sdp_ok (ask_stack q b) = sdp_ok b" by (simp add: ask_stack_def sdp_ok_def)
  ultimately show ?thesis by (simp add: tame_def)
qed

lemma tame_create: "create_device addr b = Some (r, b') \<Longrightarrow> tame b b'"
  by (auto simp: create_device_def split: option.splits)

lemma tame_drop [simp]: "tame a b \<Longrightarrow> tame_opt a (drop env i b)"
  by (auto simp: drop_def tame_opt_def split: option.splits)

lemma tame_dropD: "drop env i b = Some b' \<Longrightarrow> tame b b'"
  using tame_drop [of b b env i] by simp

lemma tame_ready [simp]: "tame a b \<Longrightarrow> tame_opt a (set_ready env i b)"
  by (simp add: set_ready_def)

lemma tame_requests [simp]:
  "tame a b \<Longrightarrow> tame a (l2cap_create_control_connection env i b)"
  "tame a b \<Longrightarrow> tame a (l2cap_create_interrupt_connection env i b)"
  by (simp_all add: l2cap_create_control_connection_def l2cap_create_interrupt_connection_def Let_def case_prod_beta)

lemma tame_query_start [simp]: "tame a b \<Longrightarrow> tame_opt a (uni_bt_sdp_query_start env i b)"
  by (simp add: uni_bt_sdp_query_start_def uni_bt_sdp_query_start_vid_pid_def Let_def)

lemma tame_guess [simp]: "tame a (guess_from_pid_vid env i b) = tame a b"
  by (simp add: guess_from_pid_vid_def)

lemma tame_guess_name [simp]: "tame a (snd (uni_hid_device_guess_controller_type_from_name env i nm b)) = tame a b"
  by (auto simp: uni_hid_device_guess_controller_type_from_name_def split: option.splits)

lemma tame_branches [simp]:
  "tame a b \<Longrightarrow> tame_opt a (request_name i b)" "tame a b \<Longrightarrow> tame_opt a (name_fetched env i b)"
  "tame a b \<Longrightarrow> tame_opt a (descriptor_fetched env i b)" "tame a b \<Longrightarrow> tame_opt a (outgoing_connected env i b)"
  by (simp_all add: request_name_def name_fetched_def descriptor_fetched_def outgoing_connected_def Let_def
      case_prod_beta split: sdp_query_type.splits)

lemma tame_fsm [simp]:
  "tame_opt b (uni_bt_bredr_process_fsm env i b)"
  "tame_opt b (uni_bt_sdp_query_start_hid_descriptor env i b)"
  "tame_opt b (uni_bt_sdp_query_end env i b)"
proof (induction env i b and env i b and env i b rule:
    uni_bt_bredr_process_fsm_uni_bt_sdp_query_start_hid_descriptor_uni_bt_sdp_query_end.induct)
  case (1 env i b)
  then show ?case by (subst uni_bt_bredr_process_fsm.simps) simp
next
  case (2 env i b)
  then show ?case by (subst uni_bt_sdp_query_start_hid_descriptor.simps) (simp add: Let_def)
next
  case (3 env i b)
  show ?case unfolding uni_bt_sdp_query_end.simps
    by (rule tame_opt_trans [OF _ 3]) simp
qed

lemma tame_fsm_after [simp]: "tame a b \<Longrightarrow> tame_opt a (uni_bt_bredr_process_fsm env i b)"
  using tame_opt_trans tame_fsm(1) by blast

lemma tame_attribute: "attribute_byte len off d b = Some (b', c) \<Longrightarrow> tame b b'"
  by (auto simp: attribute_byte_def split: if_splits)

lemma tame_descriptors [simp]: "tame a b \<Longrightarrow> tame_opt a (set_descriptors i xs b)"
proof (induction xs arbitrary: b)
  case (Cons x xs)
  have "tame_opt a (on_sys_opt (uni_hid_device_set_hid_descriptor i x) b)" using Cons.prems by simp
  with Cons.IH show ?case by (auto split: option.splits)
qed simp

lemma tame_discovered [simp]: "tame a (discovered_device i cod ps co rssi name b) = tame a b"
  by (simp add: discovered_device_def Let_def split: option.splits)

lemma tame_step:
  assumes "\<And>c psm hnd addr. e \<noteq> Incoming_Connection c psm hnd addr"
  shows "tame_opt b (bredr_step env e b)"
proof (cases e)
  case (Sdp_Pid s)
  then show ?thesis
    by (cases s) (auto dest!: tame_attribute split: option.splits)
next
  case (Sdp_Hid s)
  then show ?thesis
    by (cases s) (auto dest!: tame_attribute split: option.splits intro: tame_opt_trans)
next
  case (Connection_Timeout i)
  have "tame_opt b (on_sys_opt (device_connection_timeout (en_gap env) i) b)" by simp
  with Connection_Timeout show ?thesis by (auto simp: tame_opt_def split: option.splits)
next
  case (Inquiry_Result addr ps co cod rssi name)
  then show ?thesis
    by (auto simp: uni_bt_bredr_on_gap_inquiry_result_def Let_def dest!: tame_create split: option.splits)
next
  case (Connection_Request addr cod)
  then show ?thesis
    by (auto simp: uni_bt_bredr_on_hci_connection_request_def Let_def dest!: tame_create split: option.splits)
next
  case (Name_Complete status name addr)
  then show ?thesis
    by (auto simp: uni_bt_bredr_on_hci_remote_name_request_complete_def Let_def split: option.splits)
next
  case (Channel_Opened status psm cid addr)
  then show ?thesis
    by (auto simp: uni_bt_bredr_on_l2cap_channel_opened_def split: option.splits)
next
  case Sdp_Timeout
  then show ?thesis
    by (auto simp: sdp_query_timeout_def tame_def sdp_ok_def accepted_def split: option.splits)
qed (auto simp: assms inquiry_remote_name_timeout_callback_def uni_bt_bredr_on_l2cap_channel_closed_def
    uni_bt_bredr_on_hci_connection_complete_def on_hci_disconnection_complete_def Let_def split: option.splits)

lemma accept_effect:
  assumes "tame a b" "b' = accept_control c hnd i b \<or> b' = ask_stack (L2cap_Accept c) (upd_conn i f b)"
  shows "accepted b' = insert c (accepted a) \<and> (sdp_ok a \<longrightarrow> sdp_ok b')"
proof -
  have "accepted b' = insert c (accepted b)" "sdp_ok b' = sdp_ok b"
    using assms(2) by (elim disjE; auto simp: accept_control_def ask_stack_def on_sys_def upd_conn_def accepted_def sdp_ok_def)+
  with assms(1) show ?thesis by (simp add: tame_def)
qed

lemma incoming_effect:
  assumes "incoming_channel c psm hnd addr device b = Some b'" "tame a b"
  shows "accepted b' \<subseteq> insert c (accepted a) \<and> (sdp_ok a \<longrightarrow> sdp_ok b')"
proof -
  have "tame a b' \<or> (\<exists>b1 i f. tame a b1 \<and> (b' = accept_control c hnd i b1 \<or> b' = ask_stack (L2cap_Accept c) (upd_conn i f b1)))"
  proof (cases device)
    case (Some i)
    with assms show ?thesis unfolding incoming_channel_def
      by (auto split: if_splits)
  next
    case None
    show ?thesis
    proof (cases "psm = PSM_HID_CONTROL")
      case True
      with assms(1) None obtain r b1 where r: "create_device addr b = Some (r, b1)"
        and b': "b' = (case r of None \<Rightarrow> ask_stack (L2cap_Decline c) b1 | Some i \<Rightarrow> accept_control c hnd i b1)"
        unfolding incoming_channel_def by (auto split: option.splits)
      have "tame a b1" using tame_create [OF r] assms(2) tame_trans by blast
      with b' show ?thesis by (cases r) auto
    next
      case False
      with assms None show ?thesis unfolding incoming_channel_def by (auto split: if_splits)
    qed
  qed
  then show ?thesis
  proof
    assume "tame a b'"
    then show ?thesis by (auto simp: tame_def)
  next
    assume "\<exists>b1 i f. tame a b1 \<and> (b' = accept_control c hnd i b1 \<or> b' = ask_stack (L2cap_Accept c) (upd_conn i f b1))"
    then show ?thesis using accept_effect by blast
  qed
qed

lemma step_effect:
  assumes "bredr_step env e b = Some b'"
  shows "sdp_ok b \<longrightarrow> sdp_ok b'"
    "accepted b' \<subseteq> accepted b \<union> {c. \<exists>psm hnd addr. e = Incoming_Connection c psm hnd addr \<and>
       en_incoming_allowed env \<and> en_allowed env addr}"
proof -
  have "(sdp_ok b \<longrightarrow> sdp_ok b') \<and> accepted b' \<subseteq> accepted b \<union> {c. \<exists>psm hnd addr. e = Incoming_Connection c psm hnd addr \<and>
       en_incoming_allowed env \<and> en_allowed env addr}"
  proof (cases "\<exists>c psm hnd addr. e = Incoming_Connection c psm hnd addr")
    case False
    then show ?thesis using tame_step [of e b env] assms by (auto simp: tame_def)
  next
    case True
    then obtain c psm hnd addr where e: "e = Incoming_Connection c psm hnd addr" by blast
    show ?thesis
    proof (cases "en_incoming_allowed env \<and> en_allowed env addr")
      case False
      then have "tame b b'"
        using assms by (auto simp: e uni_bt_bredr_on_l2cap_incoming_connection_def split: if_splits)
      then show ?thesis by (simp add: tame_def)
    next
      case True
      obtain d b1 where "tame b b1" "incoming_channel c psm hnd addr d b1 = Some b'"
        using assms True unfolding e bredr_step.simps uni_bt_bredr_on_l2cap_incoming_connection_def
        by (auto split: option.splits if_splits dest: tame_dropD intro: tame_refl)
      from incoming_effect [OF this(2,1)] True show ?thesis unfolding e by auto
    qed
  qed
  then show "sdp_ok b \<longrightarrow> sdp_ok b'"
    "accepted b' \<subseteq> accepted b \<union> {c. \<exists>psm hnd addr. e = Incoming_Connection c psm hnd addr \<and>
       en_incoming_allowed env \<and> en_allowed env addr}" by blast+
qed

lemma run_effect:
  assumes "run_steps (bredr_step env) es b = Some b'"
  shows "(sdp_ok b \<longrightarrow> sdp_ok b') \<and> accepted b' \<subseteq> accepted b \<union> {c. \<exists>psm hnd addr.
    Incoming_Connection c psm hnd addr \<in> set es \<and> en_incoming_allowed env \<and> en_allowed env addr}"
  using assms
proof (induction es arbitrary: b)
  case (Cons e es)
  then obtain b1 where b1: "bredr_step env e b = Some b1" "run_steps (bredr_step env) es b1 = Some b'"
    by (auto split: option.splits)
  from Cons.IH [OF b1(2)] step_effect [OF b1(1)] show ?case
    by (simp add: subset_iff) (metis (lifting))
qed simp

lemma fresh_ok: "sdp_ok (bredr_fresh n)" "accepted (bredr_fresh n) = {}"
  by (simp_all add: sdp_ok_def accepted_def bredr_fresh_def)

text \<open>
  C40: Over any sequence of events from start-up, a channel is accepted only if incoming connections
  are allowed and a request for this channel came from an address that may connect.
\<close>

theorem only_allowed_devices_accepted:
  assumes "run_steps (bredr_step env) es (bredr_fresh n) = Some b" "L2cap_Accept c \<in> set (br_requests b)"
  shows "en_incoming_allowed env \<and> (\<exists>psm hnd addr. Incoming_Connection c psm hnd addr \<in> set es \<and> en_allowed env addr)"
proof -
  have "c \<in> accepted b" using assms(2) by (simp add: accepted_def)
  with run_effect [OF assms(1)] fresh_ok [of n] show ?thesis by (simp add: subset_iff) blast
qed

theorem sdp_timer_of_query:
  assumes "run_steps (bredr_step env) es (bredr_fresh n) = Some b"
  shows "br_sdp_timer b = None \<or> br_sdp_timer b = br_sdp_device b"
  using run_effect [OF assms] fresh_ok [of n] unfolding sdp_ok_def by blast

end
