(* ===== verification/Bredr_Views.thy ===== *)
theory Bredr_Views
  imports Bredr_Requests
begin

text \<open>
  What each operation of \<^verbatim>\<open>Bt_Bredr\<close> does to the fields of a slot, so that a run is computed step by
  step, and the steps of a connection: channels, the answers to the SDP queries, the end of a query.
\<close>

section \<open>Views of a slot\<close>

lemma instance_forD:
  assumes "instance_for a b = Some i"
  shows "i < size_of (br_sys b)" "addr_of i b = a"
  using find_index_Some [OF assms [unfolded instance_for_def uni_hid_device_get_instance_for_address_def]]
  by (simp_all add: addr_of_def the_dev_def dev_def)

lemma find_index_update:
  assumes "P y = P (xs ! i)"
  shows "find_index P (xs[i := y]) = find_index P xs"
proof -
  have "find_index_from k P (xs[i := y]) = find_index_from k P xs" for k
    using assms by (induction xs arbitrary: i k) (auto split: nat.split)
  then show ?thesis by (simp add: find_index_def)
qed

lemma instance_upd [simp]:
  assumes "hd_parent (f (the_dev i b)) = hd_parent (the_dev i b)"
    "btaddr (hd_conn (f (the_dev i b))) = btaddr (hd_conn (the_dev i b))"
  shows "instance_for a (on_sys (upd_dev i f) b) = instance_for a b"
  using assms
  by (simp add: instance_for_def uni_hid_device_get_instance_for_address_def on_sys_def upd_dev_def
      find_index_update uni_hid_device_is_virtual_device_def the_dev_def dev_def)

definition slot :: "nat \<Rightarrow> bredr \<Rightarrow> bool" where
  "slot i b \<longleftrightarrow> i < size_of (br_sys b)"

lemma view_upd:
  "slot j (on_sys (upd_dev i f) b) = slot j b"
  "the_dev j (on_sys (upd_dev i f) b) = (if j = i \<and> slot i b then f (the_dev i b) else the_dev j b)"
proof -
  have "upd_dev i f s = s" if "\<not> i < size_of s" for s using that by (cases s) (simp add: upd_dev_def list_update_beyond)
  then show "slot j (on_sys (upd_dev i f) b) = slot j b"
    "the_dev j (on_sys (upd_dev i f) b) = (if j = i \<and> slot i b then f (the_dev i b) else the_dev j b)"
    by (auto simp: slot_def the_dev_def on_sys_def dev_upd)
qed

lemma view_request [simp]:
  "the_dev i (ask_stack q b) = the_dev i b" "instance_for a (ask_stack q b) = instance_for a b"
  "slot i (ask_stack q b) = slot i b"
  by (simp_all add: ask_stack_def the_dev_def instance_for_def slot_def)

lemma view_tell [simp]:
  "the_dev i (on_sys (uni_hid_device_on_connected j c) b) = the_dev i b"
  "instance_for a (on_sys (uni_hid_device_on_connected j c) b) = instance_for a b"
  "slot i (on_sys (uni_hid_device_on_connected j c) b) = slot i b"
  by (simp_all add: on_sys_def the_dev_def instance_for_def slot_def uni_hid_device_on_connected_def tell_def dev_def
      uni_hid_device_get_instance_for_address_def)

lemma view_fields [simp]:
  "the_dev i (b\<lparr>br_sdp_device := x\<rparr>) = the_dev i b" "the_dev i (b\<lparr>br_sdp_timer := y\<rparr>) = the_dev i b" "the_dev i (b\<lparr>br_query_type := q\<rparr>) = the_dev i b" "the_dev i (b\<lparr>br_attribute := t\<rparr>) = the_dev i b"
  "the_dev i (b\<lparr>br_page_scan := p\<rparr>) = the_dev i b" "the_dev i (b\<lparr>br_clock_offset := c\<rparr>) = the_dev i b" "the_dev i (b\<lparr>br_rssi := r\<rparr>) = the_dev i b"
  "instance_for a (b\<lparr>br_sdp_device := x\<rparr>) = instance_for a b" "instance_for a (b\<lparr>br_sdp_timer := y\<rparr>) = instance_for a b" "instance_for a (b\<lparr>br_query_type := q\<rparr>) = instance_for a b" "instance_for a (b\<lparr>br_attribute := t\<rparr>) = instance_for a b"
  "instance_for a (b\<lparr>br_page_scan := p\<rparr>) = instance_for a b" "instance_for a (b\<lparr>br_clock_offset := c\<rparr>) = instance_for a b" "instance_for a (b\<lparr>br_rssi := r\<rparr>) = instance_for a b"
  "slot i (b\<lparr>br_sdp_device := x\<rparr>) = slot i b" "slot i (b\<lparr>br_sdp_timer := y\<rparr>) = slot i b" "slot i (b\<lparr>br_query_type := q\<rparr>) = slot i b" "slot i (b\<lparr>br_attribute := t\<rparr>) = slot i b"
  "slot i (b\<lparr>br_page_scan := p\<rparr>) = slot i b" "slot i (b\<lparr>br_clock_offset := c\<rparr>) = slot i b" "slot i (b\<lparr>br_rssi := r\<rparr>) = slot i b"
  by (simp_all add: the_dev_def instance_for_def slot_def)

lemma fields_on_sys [simp]:
  "br_sdp_device (on_sys g b) = br_sdp_device b" "br_sdp_timer (on_sys g b) = br_sdp_timer b"
  "br_query_type (on_sys g b) = br_query_type b" "br_requests (on_sys g b) = br_requests b"
  "br_attribute (on_sys g b) = br_attribute b" "br_clock_offset (on_sys g b) = br_clock_offset b"
  by (simp_all add: on_sys_def)

lemma fields_request [simp]:
  "br_sdp_device (ask_stack q b) = br_sdp_device b" "br_sdp_timer (ask_stack q b) = br_sdp_timer b"
  "br_query_type (ask_stack q b) = br_query_type b" "br_requests (ask_stack q b) = br_requests b @ [q]"
  "br_attribute (ask_stack q b) = br_attribute b" "br_clock_offset (ask_stack q b) = br_clock_offset b"
  by (simp_all add: ask_stack_def)

lemma on_connect: "on_sys (uni_hid_device_connect i) b = on_sys (uni_hid_device_on_connected i True)
    (on_sys (upd_dev i (\<lambda>d. d\<lparr>hd_conn := uni_bt_conn_set_connected True (hd_conn d)\<rparr>)) b)"
  by (simp add: on_sys_def uni_hid_device_connect_def)

lemma on_setters:
  "on_sys (uni_hid_device_set_product_id i p) b = on_sys (upd_dev i (\<lambda>d. d\<lparr>hd_product_id := p,
     hd_flags := hd_flags d OR FLAGS_HAS_PRODUCT_ID\<rparr>)) b"
  "v \<noteq> 0 \<Longrightarrow> on_sys (uni_hid_device_set_vendor_id i v) b = on_sys (upd_dev i (\<lambda>d. d\<lparr>hd_vendor_id := v,
     hd_flags := hd_flags d OR FLAGS_HAS_VENDOR_ID\<rparr>)) b"
  "on_sys (uni_hid_device_set_cod i cod) b = on_sys (upd_dev i (\<lambda>d. d\<lparr>hd_cod := cod,
     hd_flags := (if cod = 0 then hd_flags d AND NOT FLAGS_HAS_COD else hd_flags d OR FLAGS_HAS_COD)\<rparr>)) b"
  "on_sys (uni_hid_device_set_name i (Some n)) b = on_sys (upd_dev i (\<lambda>d. d\<lparr>hd_name := take (HID_MAX_NAME_LEN - 1) n,
     hd_flags := hd_flags d OR FLAGS_HAS_NAME\<rparr>)) b"
  "on_sys (uni_hid_device_set_incoming i c) b = on_sys (upd_dev i (\<lambda>d. d\<lparr>hd_conn := (hd_conn d)\<lparr>incoming := c\<rparr>\<rparr>)) b"
  "on_sys (uni_hid_device_set_connection_handle i h) b =
     on_sys (upd_dev i (\<lambda>d. d\<lparr>hd_conn := (hd_conn d)\<lparr>handle := h\<rparr>\<rparr>)) b"
  by (simp_all add: on_sys_def uni_hid_device_set_product_id_def uni_hid_device_set_vendor_id_def
      uni_hid_device_set_cod_def uni_hid_device_set_name_def uni_hid_device_set_incoming_def
      uni_hid_device_set_connection_handle_def)

lemma slot_size [simp]: "slot i b \<Longrightarrow> i < size_of (br_sys b)"
  by (simp add: slot_def)

lemma slot_instance: "instance_for a b = Some i \<Longrightarrow> slot i b \<and> addr_of i b = a"
  using instance_forD by (simp add: slot_def)

lemmas views = view_upd on_connect set_state_def upd_conn_def state_of_def addr_of_def is_incoming_def
  uni_hid_device_has_name_def uni_bt_conn_set_state_def uni_bt_conn_set_connected_def

lemma start_query:
  assumes "br_sdp_device b = None" "br_sdp_timer b = None" "en_sdp env = 0"
  shows "uni_bt_sdp_query_start env i b = Some (ask_stack (Sdp_Query (addr_of i b) PNP_INFORMATION)
    (set_state i STATE_SDP_VENDOR_REQUESTED (b\<lparr>br_sdp_device := Some i, br_sdp_timer := Some i\<rparr>)))"
  using assms by (simp add: uni_bt_sdp_query_start_def uni_bt_sdp_query_start_vid_pid_def Let_def views)

lemma process_slot:
  "slot i b \<Longrightarrow> uni_bt_bredr_process_fsm env i b =
     (if \<not> uni_hid_device_has_name (the_dev i b) \<and>
        (state_of i b = STATE_DEVICE_DISCOVERED \<or> state_of i b = STATE_L2CAP_INTERRUPT_CONNECTED)
      then request_name i b
      else if state_of i b = STATE_REMOTE_NAME_FETCHED then name_fetched env i b
      else if state_of i b = STATE_SDP_VENDOR_FETCHED then uni_bt_sdp_query_start_hid_descriptor env i b
      else if state_of i b = STATE_SDP_HID_DESCRIPTOR_FETCHED then descriptor_fetched env i b
      else if \<not> is_incoming i b then outgoing_connected env i b
      else Some b)"
  by (subst uni_bt_bredr_process_fsm.simps) (simp add: slot_def)

section \<open>Steps of a connection\<close>

definition control_open :: "nat \<Rightarrow> u16 \<Rightarrow> bredr \<Rightarrow> bredr" where
  "control_open i k b = set_state i STATE_L2CAP_CONTROL_CONNECTED (upd_conn i (\<lambda>c. c\<lparr>control_cid := k\<rparr>) b)"

definition interrupt_open :: "nat \<Rightarrow> u16 \<Rightarrow> bredr \<Rightarrow> bredr" where
  "interrupt_open i k b = on_sys (uni_hid_device_connect i)
     (set_state i STATE_L2CAP_INTERRUPT_CONNECTED (upd_conn i (\<lambda>c. c\<lparr>interrupt_cid := k\<rparr>) b))"

definition query_started :: "nat \<Rightarrow> bredr \<Rightarrow> bredr" where
  "query_started i b = ask_stack (Sdp_Query (addr_of i b) PNP_INFORMATION)
     (set_state i STATE_SDP_VENDOR_REQUESTED (b\<lparr>br_sdp_device := Some i, br_sdp_timer := Some i\<rparr>))"

definition vendor_known :: "bredr_env \<Rightarrow> nat \<Rightarrow> bredr \<Rightarrow> bredr" where
  "vendor_known env i b = set_state i STATE_SDP_VENDOR_FETCHED (guess_from_pid_vid env i b)"

definition descriptor_asked :: "nat \<Rightarrow> bredr \<Rightarrow> bredr" where
  "descriptor_asked i b = ask_stack (Sdp_Query (addr_of i b) HID_SERVICE)
     (set_state i STATE_SDP_HID_DESCRIPTOR_REQUESTED b)"

definition query_closed :: "nat \<Rightarrow> bredr \<Rightarrow> bredr" where
  "query_closed i b = (set_state i STATE_SDP_HID_DESCRIPTOR_FETCHED b)\<lparr>br_sdp_device := None, br_sdp_timer := None\<rparr>"

lemmas stage_defs = control_open_def interrupt_open_def query_started_def vendor_known_def descriptor_asked_def
  query_closed_def l2cap_create_control_connection_def l2cap_create_interrupt_connection_def guess_from_pid_vid_def

lemma guess_keeps [simp]:
  "hd_conn (uni_hid_device_guess_controller_type_from_pid_vid db x d) = hd_conn d"
  "hd_parent (uni_hid_device_guess_controller_type_from_pid_vid db x d) = hd_parent d"
  "hd_name (uni_hid_device_guess_controller_type_from_pid_vid db x d) = hd_name d"
  by (simp_all add: uni_hid_device_guess_controller_type_from_pid_vid_def Let_def)

lemma has_flag: "has_bits (v OR BIT n) (BIT m :: u32) \<longleftrightarrow> has_bits v (BIT m) \<or> (n = m \<and> n < 32)"
  by (auto simp: has_bits_BIT bit_or_iff bit_BIT)

lemmas flags = has_flag FLAGS_HAS_COD_def FLAGS_HAS_NAME_def FLAGS_HAS_HID_DESCRIPTOR_def FLAGS_HAS_VENDOR_ID_def
  FLAGS_HAS_PRODUCT_ID_def FLAGS_HAS_CONTROLLER_TYPE_def

lemma guess_keeps_name [simp]:
  "has_bits (hd_flags (uni_hid_device_guess_controller_type_from_pid_vid db x d)) FLAGS_HAS_NAME =
     has_bits (hd_flags d) FLAGS_HAS_NAME"
  by (simp add: uni_hid_device_guess_controller_type_from_pid_vid_def Let_def flags)

lemma control_opened:
  assumes "instance_for a b = Some i" "\<not> is_incoming i b"
  shows "bredr_step env (Channel_Opened 0 PSM_HID_CONTROL k a) b =
    Some (l2cap_create_interrupt_connection env i (control_open i k b))"
  using assms slot_instance [OF assms(1)]
  by (simp add: uni_bt_bredr_on_l2cap_channel_opened_def process_slot views outgoing_connected_def control_open_def)

lemma interrupt_opened:
  assumes "instance_for a b = Some i" "\<not> is_incoming i b" "uni_hid_device_has_name (the_dev i b)"
  shows "bredr_step env (Channel_Opened 0 PSM_HID_INTERRUPT k a) b = outgoing_connected env i (interrupt_open i k b)"
  using assms slot_instance [OF assms(1)]
  by (simp add: uni_bt_bredr_on_l2cap_channel_opened_def process_slot views interrupt_open_def
      PSM_HID_CONTROL_def PSM_HID_INTERRUPT_def)

text \<open>What follows the end of the query and the opening of the interrupt channel.\<close>

lemma fetched_ready:
  "is_incoming i b \<or> br_query_type b i \<noteq> SDP_QUERY_BEFORE_CONNECT \<Longrightarrow> descriptor_fetched env i b = set_ready env i b"
  by (auto simp: descriptor_fetched_def)

lemma query_started_by:
  assumes "br_sdp_device b = None" "br_sdp_timer b = None" "en_sdp env = 0"
  shows "uni_bt_sdp_query_start env i b = Some (query_started i b)"
  using start_query [OF assms] by (simp add: query_started_def)

lemma query_end: "slot i b \<Longrightarrow> uni_bt_sdp_query_end env i b = descriptor_fetched env i (query_closed i b)"
  by (auto simp: uni_bt_sdp_query_end.simps process_slot views query_closed_def)

lemma vendor_answered:
  assumes "br_sdp_device b = Some i" "slot i b" "en_sdp env = 0"
  shows "bredr_step env (Sdp_Pid Query_Finished) b =
    (if uni_hid_device_does_require_hid_descriptor (the_dev i (vendor_known env i b))
     then Some (descriptor_asked i (vendor_known env i b))
     else descriptor_fetched env i (query_closed i (vendor_known env i b)))"
  using assms
  by (simp add: process_slot views uni_bt_sdp_query_start_hid_descriptor.simps query_end descriptor_asked_def
      vendor_known_def guess_from_pid_vid_def Let_def)

lemma descriptor_answered:
  assumes "br_sdp_device b = Some i" "slot i b"
  shows "bredr_step env (Sdp_Hid Query_Finished) b = descriptor_fetched env i (query_closed i b)"
  using assms by (simp add: query_end)

text \<open>The bytes of the answer to the query for vendor and product.\<close>

definition id_attribute :: "u16 \<Rightarrow> u16 \<Rightarrow> bredr_event list" where
  "id_attribute attribute v = [Sdp_Pid (Attribute_Byte attribute 3 0 9),
     Sdp_Pid (Attribute_Byte attribute 3 1 (ucast (drop_bit 8 v))), Sdp_Pid (Attribute_Byte attribute 3 2 (ucast v))]"

lemma id_bytes: "push_bit 8 (ucast (ucast (drop_bit 8 v) :: u8)) OR ucast (ucast v :: u8) = (v :: u16)"
  by (rule bit_word_eqI) (auto simp: bit_simps)

definition attribute_kept :: "u16 \<Rightarrow> bredr \<Rightarrow> bredr" where
  "attribute_kept v b = b\<lparr>br_attribute := (br_attribute b)[0 := 9, 1 := ucast (drop_bit 8 v), 2 := ucast v]\<rparr>"

lemma id_answer:
  assumes "br_sdp_device b = Some i" "length (br_attribute b) = MAX_ATTRIBUTE_VALUE_SIZE"
  shows "run_steps (bredr_step env) (id_attribute 0x201 v) b =
      Some (on_sys (uni_hid_device_set_vendor_id i v) (attribute_kept v b))"
    "run_steps (bredr_step env) (id_attribute 0x202 v) b =
      Some (on_sys (uni_hid_device_set_product_id i v) (attribute_kept v b))"
  using assms
  by (simp_all add: id_attribute_def attribute_byte_def MAX_ATTRIBUTE_VALUE_SIZE_def de_element_get_uint16_def
      id_bytes attribute_kept_def)

end
