(* ===== verification/Bredr_Runs.thy ===== *)
theory Bredr_Runs
  imports Bredr_Views
begin

text \<open>
  Connections over BR/EDR from the first event to the readiness step of the device, for any table with
  room for it and any name: those this side opens after an inquiry and those the device opens, with the
  requests made in each and their order. Then runs that go wrong.
\<close>

section \<open>Connections from start to end\<close>

lemma free_slot_addr:
  assumes "table_inv (br_sys b)" "find_index is_free (sys_devices (br_sys b)) = Some i" "instance_for a b = None"
  shows "a \<noteq> zero_addr"
proof -
  note f = find_free [OF assms(2)]
  have "dev (br_sys b) i = hd_init" using table_free(1) [OF assms(1) f(1,2)] .
  then show ?thesis
    using no_instance [of a "br_sys b" i] assms(3) f(1)
    by (auto simp: instance_for_def hd_init_def hd_zero_def uni_bt_conn_init_def conn_zero_def)
qed






subsection \<open>The queries\<close>










subsection \<open>Connections of this side\<close>
























subsection \<open>Connections of the device\<close>

text \<open>A connection from the device: it is accepted, named and then queried.\<close>

definition naming :: "nat \<Rightarrow> bredr \<Rightarrow> bool" where
  "naming i b \<longleftrightarrow> (i, Inquiry_Timer) \<in> sys_timers (br_sys b)"

lemma naming_views [simp]:
  "naming i (on_sys (upd_dev j f) b) = naming i b" "naming i (ask_stack q b) = naming i b"
  "naming i (on_sys (uni_hid_device_on_connected j c) b) = naming i b"
  "naming i (b\<lparr>br_sdp_device := x\<rparr>) = naming i b" "naming i (b\<lparr>br_sdp_timer := x\<rparr>) = naming i b"
  by (simp_all add: naming_def on_sys_def ask_stack_def)


lemma timer_stopped [simp]:
  "the_dev j (on_sys (remove_timer i t) b) = the_dev j b" "slot j (on_sys (remove_timer i t) b) = slot j b"
  "instance_for a (on_sys (remove_timer i t) b) = instance_for a b"
  "\<not> naming i (on_sys (remove_timer i Inquiry_Timer) b)"
  by (simp_all add: naming_def on_sys_def the_dev_def slot_def instance_for_def remove_timer_def dev_def
      uni_hid_device_get_instance_for_address_def)






lemma interrupt_opened_in:
  assumes "instance_for a b = Some i" "\<not> uni_hid_device_has_name (the_dev i b)"
  shows "bredr_step env (Channel_Opened 0 PSM_HID_INTERRUPT k a) b = request_name i (interrupt_open i k b)"
  using assms slot_instance [OF assms(1)]
  by (simp add: uni_bt_bredr_on_l2cap_channel_opened_def process_slot views interrupt_open_def
      PSM_HID_CONTROL_def PSM_HID_INTERRUPT_def)

text \<open>The events of a connection from the device, up to its name.\<close>

definition incoming_run :: "bd_addr \<Rightarrow> u32 \<Rightarrow> u16 \<Rightarrow> u16 \<Rightarrow> u16 \<Rightarrow> bredr_event list" where
  "incoming_run a cod h k1 k2 = [Connection_Request a cod, Connection_Complete 0 h a,
     Incoming_Connection k1 PSM_HID_CONTROL h a, Channel_Opened 0 PSM_HID_CONTROL k1 a,
     Incoming_Connection k2 PSM_HID_INTERRUPT h a, Channel_Opened 0 PSM_HID_INTERRUPT k2 a]"








section \<open>Runs that go wrong\<close>

text \<open>The environment of the examples: Microsoft makes Xbox controllers and Sony DualShock 4, all requests succeed.\<close>

definition bench :: bredr_env where
  "bench = \<lparr>en_gap = (\<lambda>_. GAP_ACL), en_accepted = True, en_run_setup = (\<lambda>p i s. Some s),
     en_db = (\<lambda>v p. if v = 0x45e then TYPE_XBoxOneController else if v = 0x54c then TYPE_PS4Controller else TYPE_Unknown), en_allowed = (\<lambda>_. True),
     en_incoming_allowed = True, en_platform = None, en_l2cap = (\<lambda>psm. (0, 0x40)), en_sdp = 0,
     en_descriptors = (\<lambda>_. []), en_gap_security = False\<rparr>"

definition pad_addr :: bd_addr where "pad_addr = [1, 2, 3, 4, 5, 6]"

text \<open>A device goes while its HID descriptor is asked for: the answer makes the empty slot ready.\<close>

lemma ghost:
  assumes "br_sdp_device b = Some i" "slot i b" "the_dev i b = hd_init" "br_query_type b i = SDP_QUERY_AFTER_CONNECT"
    "en_accepted env"
  shows "\<exists>b'. bredr_step env (Sdp_Hid Query_Finished) b = Some b' \<and> is_free (the_dev i b') \<and>
    state_of i b' = STATE_DEVICE_READY \<and> sys_events (br_sys b') = sys_events (br_sys b) @ [On_Ready i]"
proof -
  let ?b = "query_closed i b"
  have v: "slot i ?b" "state_of i ?b = STATE_SDP_HID_DESCRIPTOR_FETCHED" "pt_setup (hd_report_parser (the_dev i ?b)) = None"
    "sys_events (br_sys ?b) = sys_events (br_sys b)" "is_free (the_dev i ?b)"
    using assms(2,3)
    by (simp_all add: query_closed_def views hd_init_def hd_zero_def no_parser_def is_free_def uni_bt_conn_init_def conn_zero_def)
      (simp add: on_sys_def upd_dev_def)
  have "br_query_type ?b i = SDP_QUERY_AFTER_CONNECT" using assms(4) by (simp add: query_closed_def set_state_def)
  then have "bredr_step env (Sdp_Hid Query_Finished) b = set_ready env i ?b"
    using descriptor_answered [OF assms(1,2)] by (simp add: fetched_ready)
  then show ?thesis
    using v assms(5)
    by (simp add: set_ready_def on_sys_opt_def uni_hid_device_set_ready_def uni_hid_device_set_ready_complete_def Let_def
        state_of_def the_dev_def slot_def dev_upd uni_bt_conn_set_state_def is_free_def)
      (simp add: tell_def remove_timer_def upd_dev_def)
qed

definition ghost_session :: "bredr_event list" where
  "ghost_session = [Inquiry_Result pad_addr 1 0 0x508 None (Some ''Pad''), Channel_Opened 0 PSM_HID_CONTROL 0x40 pad_addr,
     Channel_Opened 0 PSM_HID_INTERRUPT 0x41 pad_addr, Sdp_Pid Query_Finished, Channel_Closed 0x41, Sdp_Hid Query_Finished]"

theorem ghost_device_ready:
  "\<exists>b. run_steps (bredr_step bench) ghost_session (bredr_fresh 1) = Some b \<and> is_free (the_dev 0 b) \<and>
     state_of 0 b = STATE_DEVICE_READY \<and> On_Ready 0 \<in> set (sys_events (br_sys b)) \<and> instance_for pad_addr b = None"
proof -
  have "case run_steps (bredr_step bench) ghost_session (bredr_fresh 1) of None \<Rightarrow> False
    | Some b \<Rightarrow> is_free (the_dev 0 b) \<and> state_of 0 b = STATE_DEVICE_READY \<and> On_Ready 0 \<in> set (sys_events (br_sys b)) \<and>
       instance_for pad_addr b = None"
    by code_simp
  then show ?thesis by (auto split: option.splits)
qed

text \<open>
  While a name request is out, the interrupt channel of the same unnamed device opens: its timer is
  started a second time. A device with no name in the inquiry that connects by itself does it.
\<close>

theorem second_name_request_traps:
  assumes "instance_for a b = Some i" "naming i b" "\<not> uni_hid_device_has_name (the_dev i b)"
  shows "bredr_step env (Channel_Opened 0 PSM_HID_INTERRUPT k a) b = None"
proof -
  have "naming i (set_state i STATE_REMOTE_NAME_INQUIRED (ask_stack q (interrupt_open i k b)))" for q
    using assms(2) by (simp add: interrupt_open_def views)
  then show ?thesis
    unfolding interrupt_opened_in [OF assms(1,3)]
    by (simp add: request_name_def Let_def on_sys_opt_def add_timer_def naming_def)
qed

definition impatient_session :: "bredr_event list" where
  "impatient_session = [Inquiry_Result pad_addr 1 0 0x508 None None, Incoming_Connection 0x40 PSM_HID_CONTROL 9 pad_addr,
     Channel_Opened 0 PSM_HID_CONTROL 0x40 pad_addr, Incoming_Connection 0x41 PSM_HID_INTERRUPT 9 pad_addr]"

theorem second_name_request_traps_witness:
  "\<exists>b. run_steps (bredr_step bench) impatient_session (bredr_fresh 1) = Some b \<and>
     bredr_step bench (Channel_Opened 0 PSM_HID_INTERRUPT 0x41 pad_addr) b = None"
proof -
  have "case run_steps (bredr_step bench) impatient_session (bredr_fresh 1) of None \<Rightarrow> False
    | Some b \<Rightarrow> instance_for pad_addr b = Some 0 \<and> naming 0 b \<and> \<not> uni_hid_device_has_name (the_dev 0 b)"
    by code_simp
  then obtain b where "run_steps (bredr_step bench) impatient_session (bredr_fresh 1) = Some b"
    "instance_for pad_addr b = Some 0" "naming 0 b" "\<not> uni_hid_device_has_name (the_dev 0 b)"
    by (auto split: option.splits)
  then show ?thesis using second_name_request_traps [of pad_addr b 0 bench] by blast
qed

text \<open>
  The query for the HID descriptor cannot be sent: the device is dropped and the timer stopped, but the
  query stays in progress. No time-out will end it, and a device that reaches its query is dropped.
\<close>

definition stuck :: "nat \<Rightarrow> bredr \<Rightarrow> bool" where
  "stuck i b \<longleftrightarrow> br_sdp_device b = Some i \<and> br_sdp_timer b = None"

theorem failed_query_blocks_later_ones:
  assumes "br_sdp_device b = Some i" "slot i b" "en_sdp env \<noteq> 0"
    "uni_hid_device_does_require_hid_descriptor (the_dev i (vendor_known env i b))"
    "bredr_step env (Sdp_Pid Query_Finished) b = Some b'"
  shows "stuck i b' \<and> bredr_step env Sdp_Timeout b' = Some b' \<and>
    (\<forall>env' j. uni_bt_sdp_query_start env' j b' = drop env' j b')"
proof -
  have "stuck i b'"
    using assms
    by (auto simp: process_slot views uni_bt_sdp_query_start_hid_descriptor.simps vendor_known_def guess_from_pid_vid_def
        Let_def stuck_def drop_def clear_slot_def split: option.splits)
  then show ?thesis by (simp add: stuck_def uni_bt_sdp_query_start_def)
qed

definition sdp_refused :: bredr_env where "sdp_refused = bench\<lparr>en_sdp := 1\<rparr>"

theorem failed_query_blocks_later_ones_witness:
  "\<exists>b b'. run_steps (bredr_step bench) (take 3 ghost_session) (bredr_fresh 1) = Some b \<and>
     bredr_step sdp_refused (Sdp_Pid Query_Finished) b = Some b' \<and> stuck 0 b'"
proof -
  have "case run_steps (bredr_step bench) (take 3 ghost_session) (bredr_fresh 1) of None \<Rightarrow> False
    | Some b \<Rightarrow> br_sdp_device b = Some 0 \<and> 0 < size_of (br_sys b) \<and>
       uni_hid_device_does_require_hid_descriptor (the_dev 0 (vendor_known sdp_refused 0 b)) \<and>
       bredr_step sdp_refused (Sdp_Pid Query_Finished) b \<noteq> None"
    by code_simp
  then obtain b b' where "run_steps (bredr_step bench) (take 3 ghost_session) (bredr_fresh 1) = Some b"
    "br_sdp_device b = Some 0" "slot 0 b" "uni_hid_device_does_require_hid_descriptor (the_dev 0 (vendor_known sdp_refused 0 b))"
    "bredr_step sdp_refused (Sdp_Pid Query_Finished) b = Some b'"
    by (auto simp: slot_def split: option.splits)
  moreover from this have "stuck 0 b'"
    using failed_query_blocks_later_ones [of b 0 sdp_refused b'] by (simp add: sdp_refused_def bench_def)
  ultimately show ?thesis by blast
qed

section \<open>The properties on the bench\<close>







theorem only_allowed_devices_accepted_witness:
  "\<exists>b. run_steps (bredr_step bench) (incoming_run pad_addr 0x508 9 0x40 0x41) (bredr_fresh 1) = Some b \<and>
     L2cap_Accept 0x41 \<in> set (br_requests b) \<and> en_allowed bench pad_addr"
proof -
  have "case run_steps (bredr_step bench) (incoming_run pad_addr 0x508 9 0x40 0x41) (bredr_fresh 1) of None \<Rightarrow> False
    | Some b \<Rightarrow> L2cap_Accept 0x41 \<in> set (br_requests b)"
    by code_simp
  then obtain b where "run_steps (bredr_step bench) (incoming_run pad_addr 0x508 9 0x40 0x41) (bredr_fresh 1) = Some b"
    "L2cap_Accept 0x41 \<in> set (br_requests b)" by (auto split: option.splits)
  with only_allowed_devices_accepted [OF this] show ?thesis by (auto simp: bench_def)
qed

theorem sdp_timer_of_query_witness:
  "\<exists>b. run_steps (bredr_step bench) (take 3 ghost_session) (bredr_fresh 1) = Some b \<and> br_sdp_timer b = Some 0 \<and>
     br_sdp_device b = Some 0"
proof -
  have "case run_steps (bredr_step bench) (take 3 ghost_session) (bredr_fresh 1) of None \<Rightarrow> False
    | Some b \<Rightarrow> br_sdp_timer b = Some 0" by code_simp
  then obtain b where b: "run_steps (bredr_step bench) (take 3 ghost_session) (bredr_fresh 1) = Some b" "br_sdp_timer b = Some 0"
    by (auto split: option.splits)
  with sdp_timer_of_query [OF b(1)] show ?thesis by simp
qed

end
