(* ===== verification/Joystick.thy ===== *)
theory Joystick
  imports Sony_Common Report_Bytes Rumble
begin

text \<open>
  \<^verbatim>\<open>components/bluepad32/uni_joystick.c\<close>: a classic joystick (four directions, three buttons) fed by a
  gamepad, a tilted Wii remote, a keyboard or a balance board. \<^verbatim>\<open>ENABLE_ACCEL_WHEEL_MODE\<close> is defined, as
  in the file. The thresholds of the balance board (\<^verbatim>\<open>controller/uni_balance_board.c\<close>) are an argument;
  they are settings of the console.
\<close>

section \<open>Gamepads\<close>

record uni_joystick =
  jy_up :: u8
  jy_down :: u8
  jy_left :: u8
  jy_right :: u8
  jy_button3 :: u8
  jy_fire :: u8
  jy_button2 :: u8
  jy_auto_fire :: u8

definition joystick_zero :: uni_joystick where
  "joystick_zero = \<lparr>jy_up = 0, jy_down = 0, jy_left = 0, jy_right = 0, jy_button3 = 0, jy_fire = 0,
     jy_button2 = 0, jy_auto_fire = 0\<rparr>"

definition AXIS_THRESHOLD :: int where
  "AXIS_THRESHOLD = 128"

definition bool8 :: "bool \<Rightarrow> u8" where
  "bool8 b = (if b then 1 else 0)"

definition to_single_joy :: "uni_gamepad \<Rightarrow> uni_joystick \<Rightarrow> uni_joystick" where
  "to_single_joy gp j = j\<lparr>
     jy_fire := or_if (has_bits (buttons gp) BUTTON_THUMB_L) 1 (or_if (has_bits (buttons gp) BUTTON_A) 1 (jy_fire j)),
     jy_auto_fire := or_if (has_bits (buttons gp) BUTTON_SHOULDER_R) 1 (jy_auto_fire j),
     jy_up := or_if (axis_y gp < - AXIS_THRESHOLD) 1 (or_if (has_bits (dpad gp) DPAD_UP) 1 (jy_up j)),
     jy_down := or_if (axis_y gp > AXIS_THRESHOLD) 1 (or_if (has_bits (dpad gp) DPAD_DOWN) 1 (jy_down j)),
     jy_right := or_if (axis_x gp > AXIS_THRESHOLD) 1 (or_if (has_bits (dpad gp) DPAD_RIGHT) 1 (jy_right j)),
     jy_left := or_if (axis_x gp < - AXIS_THRESHOLD) 1 (or_if (has_bits (dpad gp) DPAD_LEFT) 1 (jy_left j)),
     jy_button2 := u8_of (brake gp div 4), jy_button3 := u8_of (throttle gp div 4)\<rparr>"

definition uni_joy_to_single_joy_from_gamepad :: "uni_gamepad \<Rightarrow> uni_joystick \<Rightarrow> bool \<Rightarrow> uni_joystick" where
  "uni_joy_to_single_joy_from_gamepad gp out use_two_buttons =
     (let j = to_single_joy gp out;
          b = has_bits (buttons gp) BUTTON_B;
          j1 = (if use_two_buttons then j\<lparr>jy_button2 := bool8 b\<rparr> else j\<lparr>jy_up := or_if b 1 (jy_up j)\<rparr>)
      in j1\<lparr>jy_button2 := or_if (has_bits (buttons gp) BUTTON_X) 1 (jy_button2 j1),
        jy_button3 := or_if (has_bits (buttons gp) BUTTON_Y) 1 (jy_button3 j1)\<rparr>)"

definition uni_joy_to_twinstick_from_gamepad ::
  "uni_gamepad \<Rightarrow> uni_joystick \<times> uni_joystick \<Rightarrow> uni_joystick \<times> uni_joystick" where
  "uni_joy_to_twinstick_from_gamepad gp js = (case js of (out1, out2) \<Rightarrow>
     (let j2 = to_single_joy gp out2
      in (out1\<lparr>
        jy_fire := or_if (has_bits (buttons gp) BUTTON_THUMB_R) 1 (or_if (has_bits (buttons gp) BUTTON_B) 1 (jy_fire out1)),
        jy_button2 := or_if (has_bits (buttons gp) BUTTON_Y) 1 (jy_button2 out1),
        jy_auto_fire := bool8 (has_bits (buttons gp) BUTTON_SHOULDER_R),
        jy_left := or_if (axis_rx gp < - AXIS_THRESHOLD) 1 (jy_left out1),
        jy_right := or_if (axis_rx gp > AXIS_THRESHOLD) 1 (jy_right out1),
        jy_up := or_if (axis_ry gp < - AXIS_THRESHOLD) 1 (jy_up out1),
        jy_down := or_if (axis_ry gp > AXIS_THRESHOLD) 1 (jy_down out1)\<rparr>,
      j2\<lparr>jy_button2 := or_if (has_bits (buttons gp) BUTTON_X) 1 (jy_button2 j2),
        jy_auto_fire := bool8 (has_bits (buttons gp) BUTTON_SHOULDER_L)\<rparr>)))"

text \<open>A Wii remote held as a wheel; in its resting position it steers nothing, and no button counts.\<close>

definition uni_joy_to_single_from_wii_accel :: "uni_gamepad \<Rightarrow> uni_joystick" where
  "uni_joy_to_single_from_wii_accel gp =
     (let sx = accel gp ! 0; sy = accel gp ! 1
      in if sx > - 26 \<and> sx < 26 then joystick_zero
         else let j = joystick_zero\<lparr>
                jy_up := or_if (has_bits (buttons gp) BUTTON_B) DPAD_UP (bool8 (has_bits (dpad gp) DPAD_UP)),
                jy_down := or_if (has_bits (buttons gp) BUTTON_A) DPAD_DOWN (bool8 (has_bits (dpad gp) DPAD_DOWN)),
                jy_left := bool8 (has_bits (dpad gp) DPAD_LEFT),
                jy_right := bool8 (has_bits (dpad gp) DPAD_RIGHT),
                jy_fire := or_if (has_bits (buttons gp) BUTTON_Y) 1 (bool8 (has_bits (buttons gp) BUTTON_X))\<rparr>
           in if sy > 26 then j\<lparr>jy_left := 1, jy_right := 0\<rparr>
              else if sy < - 26 then j\<lparr>jy_right := 1, jy_left := 0\<rparr>
              else j)"

section \<open>Keyboards\<close>

text \<open>The key codes that mean something to a joystick.\<close>

definition joystick_key :: "u8 \<Rightarrow> uni_joystick \<times> uni_joystick option \<Rightarrow> uni_joystick \<times> uni_joystick option" where
  "joystick_key key js = (case js of (j1, second) \<Rightarrow>
     (let one = (\<lambda>f. (f j1, second));
          only_one = (\<lambda>f. if second = None then (f j1, second) else js);
          two = (\<lambda>f. (j1, map_option f second))
      in if key = 0x50 then one (\<lambda>j. j\<lparr>jy_left := 1\<rparr>)
         else if key = 0x4f then one (\<lambda>j. j\<lparr>jy_right := 1\<rparr>)
         else if key = 0x52 then one (\<lambda>j. j\<lparr>jy_up := 1\<rparr>)
         else if key = 0x51 then one (\<lambda>j. j\<lparr>jy_down := 1\<rparr>)
         else if key = 0x2c \<or> key = 0x1d then only_one (\<lambda>j. j\<lparr>jy_fire := 1\<rparr>)
         else if key = 0x1b then only_one (\<lambda>j. j\<lparr>jy_button2 := 1\<rparr>)
         else if key = 0x06 then only_one (\<lambda>j. j\<lparr>jy_button3 := 1\<rparr>)
         else if key = 0x1a then two (\<lambda>j. j\<lparr>jy_up := 1\<rparr>)
         else if key = 0x04 then two (\<lambda>j. j\<lparr>jy_left := 1\<rparr>)
         else if key = 0x16 then two (\<lambda>j. j\<lparr>jy_down := 1\<rparr>)
         else if key = 0x07 then two (\<lambda>j. j\<lparr>jy_right := 1\<rparr>)
         else if key = 0x14 then two (\<lambda>j. j\<lparr>jy_button2 := 1\<rparr>)
         else if key = 0x08 then two (\<lambda>j. j\<lparr>jy_fire := 1\<rparr>)
         else if key = 0x15 then two (\<lambda>j. j\<lparr>jy_button3 := 1\<rparr>)
         else js))"

text \<open>The loop stops at the first code up to 3, which is none of a key.\<close>

fun joystick_keys :: "u8 list \<Rightarrow> uni_joystick \<times> uni_joystick option \<Rightarrow> uni_joystick \<times> uni_joystick option" where
  "joystick_keys [] js = js"
| "joystick_keys (key # keys) js = (if key \<le> 3 then js else joystick_keys keys (joystick_key key js))"

definition joystick_modifiers :: "u8 \<Rightarrow> u8 \<Rightarrow> u8 \<Rightarrow> u8 \<Rightarrow> uni_joystick \<Rightarrow> uni_joystick" where
  "joystick_modifiers m fire b2 b3 j = j\<lparr>jy_fire := or_if (has_bits m fire) 1 (jy_fire j),
     jy_button2 := or_if (has_bits m b2) 1 (jy_button2 j), jy_button3 := or_if (has_bits m b3) 1 (jy_button3 j)\<rparr>"

definition to_joy_from_keyboard ::
  "uni_keyboard \<Rightarrow> uni_joystick \<times> uni_joystick option \<Rightarrow> uni_joystick \<times> uni_joystick option" where
  "to_joy_from_keyboard kb js = (case joystick_keys (kb_pressed_keys kb) js of (j1, second) \<Rightarrow>
     (if second = None
      then (joystick_modifiers (kb_modifiers kb) (BIT 0) (BIT 2) (BIT 1) j1, second)
      else (joystick_modifiers (kb_modifiers kb) (BIT 6) (BIT 4) (BIT 5) j1, second)))"

definition uni_joy_to_single_joy_from_keyboard :: "uni_keyboard \<Rightarrow> uni_joystick \<Rightarrow> uni_joystick" where
  "uni_joy_to_single_joy_from_keyboard kb out = fst (to_joy_from_keyboard kb (out, None))"

definition uni_joy_to_twinstick_from_keyboard ::
  "uni_keyboard \<Rightarrow> uni_joystick \<times> uni_joystick \<Rightarrow> uni_joystick \<times> uni_joystick" where
  "uni_joy_to_twinstick_from_keyboard kb js = (case js of (out1, out2) \<Rightarrow>
     (case to_joy_from_keyboard kb (out2, Some out1) of
        (j2, Some j1) \<Rightarrow> (j1, j2) | (j2, None) \<Rightarrow> (out1, j2)))"

section \<open>The balance board\<close>

datatype fire_state = BB_RESET | BB_THRESHOLD | BB_IN_AIR | BB_FIRE

record uni_balance_board_state =
  bs_fire_state :: fire_state
  bs_fire_counter :: u8
  bs_smooth_left :: int
  bs_smooth_right :: int
  bs_smooth_top :: int
  bs_smooth_down :: int

record uni_balance_board_threshold =
  th_move :: int
  th_fire :: int

definition UNI_BALANCE_BOARD_IDLE_THRESHOLD :: u16 where
  "UNI_BALANCE_BOARD_IDLE_THRESHOLD = 1600"

text \<open>The defaults of the thresholds.\<close>

definition bb_threshold :: uni_balance_board_threshold where
  "bb_threshold = \<lparr>th_move = 1500, th_fire = 5000\<rparr>"

definition smooth :: "u16 \<Rightarrow> u16 \<Rightarrow> int \<Rightarrow> int" where
  "smooth a b old = to_i16 (case mult_frac (uint a + uint b - old) 6 100 of Some v \<Rightarrow> v | None \<Rightarrow> 0)"

definition board_directions :: "int \<Rightarrow> uni_balance_board_state \<Rightarrow> uni_joystick \<Rightarrow> uni_joystick" where
  "board_directions move st j =
     (let j1 = (if bs_smooth_top st - bs_smooth_down st > move then j\<lparr>jy_up := 1\<rparr>
                else if bs_smooth_down st - bs_smooth_top st > move then j\<lparr>jy_down := 1\<rparr> else j)
      in if bs_smooth_right st - bs_smooth_left st > move then j1\<lparr>jy_right := 1\<rparr>
         else if bs_smooth_left st - bs_smooth_right st > move then j1\<lparr>jy_left := 1\<rparr> else j1)"

definition board_idle :: "uni_balance_board \<Rightarrow> bool" where
  "board_idle bb \<longleftrightarrow> bb_tl bb < UNI_BALANCE_BOARD_IDLE_THRESHOLD \<and> bb_tr bb < UNI_BALANCE_BOARD_IDLE_THRESHOLD \<and>
     bb_bl bb < UNI_BALANCE_BOARD_IDLE_THRESHOLD \<and> bb_br bb < UNI_BALANCE_BOARD_IDLE_THRESHOLD"

definition board_landed :: "uni_balance_board \<Rightarrow> bool" where
  "board_landed bb \<longleftrightarrow> bb_tl bb \<ge> UNI_BALANCE_BOARD_IDLE_THRESHOLD \<or> bb_tr bb \<ge> UNI_BALANCE_BOARD_IDLE_THRESHOLD \<or>
     bb_bl bb > UNI_BALANCE_BOARD_IDLE_THRESHOLD \<or> bb_br bb \<ge> UNI_BALANCE_BOARD_IDLE_THRESHOLD"

definition board_sum :: "uni_balance_board \<Rightarrow> int" where
  "board_sum bb = uint (bb_tl bb) + uint (bb_tr bb) + uint (bb_bl bb) + uint (bb_br bb)"

text \<open>The next state of the jump detection, and whether the fire button is pressed.\<close>

definition enter :: "fire_state \<Rightarrow> uni_balance_board_state \<Rightarrow> uni_balance_board_state" where
  "enter s st = st\<lparr>bs_fire_state := s, bs_fire_counter := 0\<rparr>"

definition board_fire ::
  "int \<Rightarrow> uni_balance_board \<Rightarrow> uni_balance_board_state \<Rightarrow> uni_balance_board_state \<times> bool" where
  "board_fire fire bb st0 =
     (let st = st0\<lparr>bs_fire_counter := bs_fire_counter st0 + 1\<rparr>; n = bs_fire_counter st
      in case bs_fire_state st of
           BB_RESET \<Rightarrow> ((if board_sum bb \<ge> fire then enter BB_THRESHOLD st else st), False)
         | BB_THRESHOLD \<Rightarrow> ((if board_idle bb then enter BB_IN_AIR st
             else if n > 10 then enter BB_RESET st
             else if board_sum bb \<ge> fire then st\<lparr>bs_fire_counter := 0\<rparr> else st), False)
         | BB_IN_AIR \<Rightarrow> (if n > 2 then (enter BB_FIRE st, True)
             else ((if board_landed bb then enter BB_RESET st else st), False))
         | BB_FIRE \<Rightarrow> ((if n > 10 then enter BB_RESET st else st), True))"

definition uni_joy_to_single_joy_from_balance_board ::
  "uni_balance_board_threshold \<Rightarrow> uni_balance_board \<Rightarrow> uni_balance_board_state \<Rightarrow> uni_joystick \<Rightarrow>
     uni_balance_board_state \<times> uni_joystick" where
  "uni_joy_to_single_joy_from_balance_board th bb st out =
     (let st1 = st\<lparr>bs_smooth_down := smooth (bb_bl bb) (bb_br bb) (bs_smooth_down st),
            bs_smooth_top := smooth (bb_tl bb) (bb_tr bb) (bs_smooth_top st),
            bs_smooth_left := smooth (bb_tl bb) (bb_bl bb) (bs_smooth_left st),
            bs_smooth_right := smooth (bb_tr bb) (bb_br bb) (bs_smooth_right st)\<rparr>;
          j = board_directions (th_move th) st1 out
      in case board_fire (th_fire th) bb st1 of (st2, fire) \<Rightarrow>
           (st2, if fire then j\<lparr>jy_fire := 1\<rparr> else j))"

text \<open>The joysticks of a sequence of reports; each starts from a released one.\<close>

fun board_run ::
  "uni_balance_board_threshold \<Rightarrow> uni_balance_board list \<Rightarrow> uni_balance_board_state \<Rightarrow>
     uni_balance_board_state \<times> uni_joystick list" where
  "board_run th [] st = (st, [])"
| "board_run th (bb # bbs) st = (case uni_joy_to_single_joy_from_balance_board th bb st joystick_zero of
     (st1, j) \<Rightarrow> (case board_run th bbs st1 of (st2, js) \<Rightarrow> (st2, j # js)))"

definition board_start :: uni_balance_board_state where
  "board_start = \<lparr>bs_fire_state = BB_RESET, bs_fire_counter = 0, bs_smooth_left = 0, bs_smooth_right = 0,
     bs_smooth_top = 0, bs_smooth_down = 0\<rparr>"

section \<open>Properties\<close>

text \<open>
  A keyboard in single mode drives exactly its joystick: a direction or button is pressed iff one of
  its keys is among the keys in front of the first empty entry, or its modifier on the left is held.
\<close>

definition key_set :: "u8 list \<Rightarrow> u8 set" where
  "key_set keys = set (takeWhile (\<lambda>k. 3 < k) keys)"

definition live_keys :: "uni_keyboard \<Rightarrow> u8 set" where
  "live_keys kb = key_set (kb_pressed_keys kb)"

lemma joystick_key_single:
  "snd (joystick_key key (j, None)) = None"
    "jy_left (fst (joystick_key key (j, None))) = (if key = 0x50 then 1 else jy_left j)"
    "jy_right (fst (joystick_key key (j, None))) = (if key = 0x4f then 1 else jy_right j)"
    "jy_up (fst (joystick_key key (j, None))) = (if key = 0x52 then 1 else jy_up j)"
    "jy_down (fst (joystick_key key (j, None))) = (if key = 0x51 then 1 else jy_down j)"
    "jy_fire (fst (joystick_key key (j, None))) = (if key = 0x2c \<or> key = 0x1d then 1 else jy_fire j)"
    "jy_button2 (fst (joystick_key key (j, None))) = (if key = 0x1b then 1 else jy_button2 j)"
    "jy_button3 (fst (joystick_key key (j, None))) = (if key = 0x06 then 1 else jy_button3 j)"
    "jy_auto_fire (fst (joystick_key key (j, None))) = jy_auto_fire j"
  by (simp_all add: joystick_key_def)

lemma joystick_keys_single:
  defines "out \<equiv> \<lambda>keys j. joystick_keys keys (j, None)"
  shows "snd (out keys j) = None" "jy_left (fst (out keys j)) = (if 0x50 \<in> key_set keys then 1 else jy_left j)"
    "jy_right (fst (out keys j)) = (if 0x4f \<in> key_set keys then 1 else jy_right j)"
    "jy_up (fst (out keys j)) = (if 0x52 \<in> key_set keys then 1 else jy_up j)"
    "jy_down (fst (out keys j)) = (if 0x51 \<in> key_set keys then 1 else jy_down j)"
    "jy_fire (fst (out keys j)) = (if 0x2c \<in> key_set keys \<or> 0x1d \<in> key_set keys then 1 else jy_fire j)"
    "jy_button2 (fst (out keys j)) = (if 0x1b \<in> key_set keys then 1 else jy_button2 j)"
    "jy_button3 (fst (out keys j)) = (if 0x06 \<in> key_set keys then 1 else jy_button3 j)"
    "jy_auto_fire (fst (out keys j)) = jy_auto_fire j"
proof (induction keys arbitrary: j)
  case (Cons key keys)
  have more: "out (key # keys) i = (if key \<le> 3 then (i, None) else out keys (fst (joystick_key key (i, None))))"
    "key_set (key # keys) = (if key \<le> 3 then {} else insert key (key_set keys))" for i
    using joystick_key_single(1) [of key i]
    by (cases "joystick_key key (i, None)"; auto simp: out_def key_set_def)+
  note key = joystick_key_single
  { case 1 show ?case using Cons.IH(1) by (simp add: more)
  next case 2 show ?case by (simp add: more Cons.IH(2) key(2))
  next case 3 show ?case by (simp add: more Cons.IH(3) key(3))
  next case 4 show ?case by (simp add: more Cons.IH(4) key(4))
  next case 5 show ?case by (simp add: more Cons.IH(5) key(5))
  next case 6 show ?case by (auto simp: more Cons.IH(6) key(6))
  next case 7 show ?case by (simp add: more Cons.IH(7) key(7))
  next case 8 show ?case by (simp add: more Cons.IH(8) key(8))
  next case 9 show ?case by (simp add: more Cons.IH(9) key(9)) }
qed (simp_all add: key_set_def out_def)

lemma zero_joystick [simp]:
  "jy_up joystick_zero = 0" "jy_down joystick_zero = 0" "jy_left joystick_zero = 0" "jy_right joystick_zero = 0"
  "jy_button3 joystick_zero = 0" "jy_fire joystick_zero = 0" "jy_button2 joystick_zero = 0"
  "jy_auto_fire joystick_zero = 0"
  by (simp_all add: joystick_zero_def)

lemma or_if_zero: "or_if b 1 (if c then 1 else 0 :: u8) = bool8 (b \<or> c)"
  by (simp add: or_if_def bool8_def)

theorem joystick_keyboard_correct:
  "uni_joy_to_single_joy_from_keyboard kb joystick_zero =
    \<lparr>jy_up = bool8 (0x52 \<in> live_keys kb), jy_down = bool8 (0x51 \<in> live_keys kb),
      jy_left = bool8 (0x50 \<in> live_keys kb), jy_right = bool8 (0x4f \<in> live_keys kb),
      jy_button3 = bool8 (bit (kb_modifiers kb) 1 \<or> 0x06 \<in> live_keys kb),
      jy_fire = bool8 (bit (kb_modifiers kb) 0 \<or> 0x2c \<in> live_keys kb \<or> 0x1d \<in> live_keys kb),
      jy_button2 = bool8 (bit (kb_modifiers kb) 2 \<or> 0x1b \<in> live_keys kb), jy_auto_fire = 0\<rparr>"
proof -
  obtain j' second where j': "joystick_keys (kb_pressed_keys kb) (joystick_zero, None) = (j', second)" by fastforce
  note keys = joystick_keys_single [of "kb_pressed_keys kb" joystick_zero, unfolded j' fst_conv snd_conv,
      folded live_keys_def]
  show ?thesis
    unfolding uni_joy_to_single_joy_from_keyboard_def to_joy_from_keyboard_def joystick_modifiers_def j'
    by (intro uni_joystick.equality) (simp_all add: keys has_bits_BIT or_if_def bool8_def)
qed

subsection \<open>The balance board\<close>

text \<open>A jump: a heavy frame, later one with the board idle, before the frame \<open>k\<close>.\<close>

definition jumped :: "int \<Rightarrow> uni_balance_board list \<Rightarrow> nat \<Rightarrow> bool" where
  "jumped fire bbs k \<longleftrightarrow> (\<exists>i m. i < m \<and> m < k \<and> board_sum (bbs ! i) \<ge> fire \<and> board_idle (bbs ! m))"

definition heard :: "int \<Rightarrow> uni_balance_board list \<Rightarrow> uni_balance_board_state \<Rightarrow> bool" where
  "heard fire h st \<longleftrightarrow> (bs_fire_state st = BB_THRESHOLD \<longrightarrow> (\<exists>i < length h. board_sum (h ! i) \<ge> fire)) \<and>
     (bs_fire_state st \<in> {BB_IN_AIR, BB_FIRE} \<longrightarrow> jumped fire h (length h))"

lemma nth_snoc: "i < length h \<Longrightarrow> (h @ [b]) ! i = h ! i" "(h @ [b]) ! length h = b"
  by (simp_all add: nth_append)

lemma jumped_prefix: "jumped fire h k \<Longrightarrow> k \<le> length h \<Longrightarrow> jumped fire (h @ bs) k"
  unfolding jumped_def by (elim exE) (rule exI, rule exI, auto simp: nth_append)

lemma jumped_later: "jumped fire h k \<Longrightarrow> k \<le> n \<Longrightarrow> jumped fire h n"
  unfolding jumped_def by (meson less_le_trans)

lemma jumped_snoc: "jumped fire h (length h) \<Longrightarrow> jumped fire (h @ [b]) (Suc (length h))"
  by (rule jumped_later [OF jumped_prefix [of fire h "length h"]]) simp_all

lemma jumped_now:
  assumes "i < length h" "board_sum (h ! i) \<ge> fire" "board_idle b"
  shows "jumped fire (h @ [b]) (Suc (length h))"
  unfolding jumped_def
  by (rule exI [of _ i], rule exI [of _ "length h"]) (use assms in \<open>simp add: nth_append\<close>)

lemma fire_heard:
  assumes "heard fire h st" "board_fire fire b st = (st', pressed)"
  shows "heard fire (h @ [b]) st'" "pressed \<Longrightarrow> jumped fire h (length h)"
proof -
  have sum: "board_sum b \<ge> fire \<Longrightarrow> \<exists>i < length (h @ [b]). board_sum ((h @ [b]) ! i) \<ge> fire"
    by (rule exI [of _ "length h"]) (simp add: nth_snoc)
  have old: "(\<exists>i < length h. board_sum (h ! i) \<ge> fire) \<Longrightarrow> \<exists>i < length (h @ [b]). board_sum ((h @ [b]) ! i) \<ge> fire"
    by (auto simp: nth_append)
  show "heard fire (h @ [b]) st'" "pressed \<Longrightarrow> jumped fire h (length h)"
    using assms sum old jumped_snoc [of fire h b] jumped_now [of _ h fire b]
    by (cases "bs_fire_state st"; auto simp: heard_def board_fire_def enter_def Let_def split: if_splits)+
qed

lemma heard_same: "bs_fire_state st' = bs_fire_state st \<Longrightarrow> heard fire h st' = heard fire h st"
  by (simp add: heard_def)

lemma directions_fire [simp]: "jy_fire (board_directions move st j) = jy_fire j"
  by (simp add: board_directions_def Let_def)

lemma board_run_fire:
  assumes "heard (th_fire th) h st" "board_run th bbs st = (st', js)" "k < length js" "jy_fire (js ! k) \<noteq> 0"
  shows "jumped (th_fire th) (h @ bbs) (length h + k)"
  using assms
proof (induction bbs arbitrary: h st js k)
  case Nil
  then show ?case by simp
next
  case (Cons b bbs)
  obtain st1 j where s: "uni_joy_to_single_joy_from_balance_board th b st joystick_zero = (st1, j)" by fastforce
  obtain js' where r: "board_run th bbs st1 = (st', js')" "js = j # js'"
    using Cons.prems(2) s by (auto split: prod.splits)
  let ?st = "st\<lparr>bs_smooth_down := smooth (bb_bl b) (bb_br b) (bs_smooth_down st),
            bs_smooth_top := smooth (bb_tl b) (bb_tr b) (bs_smooth_top st),
            bs_smooth_left := smooth (bb_tl b) (bb_bl b) (bs_smooth_left st),
            bs_smooth_right := smooth (bb_tr b) (bb_br b) (bs_smooth_right st)\<rparr>"
  obtain pressed where f: "board_fire (th_fire th) b ?st = (st1, pressed)" "jy_fire j \<noteq> 0 \<longleftrightarrow> pressed"
    using s by (auto simp: uni_joy_to_single_joy_from_balance_board_def Let_def joystick_zero_def split: prod.splits)
  have h: "heard (th_fire th) h ?st" using Cons.prems(1) by (simp add: heard_def)
  show ?case
  proof (cases k)
    case 0
    then have "jumped (th_fire th) h (length h)"
      using fire_heard(2) [OF h f(1)] f(2) r(2) Cons.prems(4) by simp
    with 0 jumped_prefix [of _ h "length h"] show ?thesis by simp
  next
    case (Suc n)
    with Cons.IH [OF fire_heard(1) [OF h f(1)] r(1), of n] r(2) Cons.prems(3,4) show ?thesis by simp
  qed
qed

text \<open>
  fire on a balance board means a jump: whenever the button is pressed in a run from the start state,
  an earlier frame reached the fire threshold, and a later one before it was idle on all four sensors.
\<close>

theorem board_fire_needs_jump:
  assumes "board_run th bbs board_start = (st, js)" "k < length js" "jy_fire (js ! k) \<noteq> 0"
  shows "\<exists>i m. i < m \<and> m < k \<and> th_fire th \<le> board_sum (bbs ! i) \<and> board_idle (bbs ! m)"
proof -
  have "heard (th_fire th) [] board_start" by (simp add: heard_def board_start_def)
  from board_run_fire [OF this assms] show ?thesis by (auto simp: jumped_def)
qed

definition board_of :: "u16 \<Rightarrow> uni_balance_board" where
  "board_of w = \<lparr>bb_tr = w, bb_br = w, bb_tl = w, bb_bl = w, bb_temperature = 0\<rparr>"

theorem board_fire_needs_jump_witness:
  "\<exists>st js. board_run bb_threshold (board_of 2000 # replicate 4 (board_of 0)) board_start = (st, js) \<and>
    (\<exists>i m. i < m \<and> m < 4 \<and> 5000 \<le> board_sum ((board_of 2000 # replicate 4 (board_of 0)) ! i) \<and>
      board_idle ((board_of 2000 # replicate 4 (board_of 0)) ! m))"
proof -
  have c: "length (snd (board_run bb_threshold (board_of 2000 # replicate 4 (board_of 0)) board_start)) = 5 \<and>
      jy_fire (snd (board_run bb_threshold (board_of 2000 # replicate 4 (board_of 0)) board_start) ! 4) \<noteq> 0"
    by code_simp
  obtain st js where r: "board_run bb_threshold (board_of 2000 # replicate 4 (board_of 0)) board_start = (st, js)"
    by fastforce
  with c have "length js = 5 \<and> jy_fire (js ! 4) \<noteq> 0" by simp
  with board_fire_needs_jump [OF r, of 4] r show ?thesis by (auto simp: bb_threshold_def)
qed

text \<open>
  The low-pass filter forgets the old value instead of adding the difference to it, so it settles at
  about six hundredths of the load: with the default threshold no imbalance of less than 23 kg moves the
  joystick, where 1.5 kg are meant.
\<close>

lemma small_i16: "- 84 \<le> x \<Longrightarrow> x \<le> 1386 \<Longrightarrow> to_i16 x = x"
  by (simp add: to_i16_id)

lemma smooth_bounds:
  assumes "uint a + uint b \<le> 23000" "- 84 \<le> s" "s \<le> 1386"
  shows "- 84 \<le> smooth a b s \<and> smooth a b s \<le> 1386"
proof -
  have "- 1386 \<le> uint a + uint b - s" using assms(3) uint_nonnegative [of a] uint_nonnegative [of b] by linarith
  moreover have "uint a + uint b - s \<le> 23084" using assms(1,2) by linarith
  ultimately have x: "- 8316 \<le> (uint a + uint b - s) * 6" "(uint a + uint b - s) * 6 \<le> 138504" by simp_all
  have "(- 8316) sdiv 100 = (- 83 :: int)" "138504 sdiv 100 = (1385 :: int)"
    by (simp_all add: signed_divide_int_def)
  with sdiv_mono [OF x(1), of 100] sdiv_mono [OF x(2), of 100]
  have b: "- 83 \<le> ((uint a + uint b - s) * 6) sdiv 100" "((uint a + uint b - s) * 6) sdiv 100 \<le> 1385"
    by linarith+
  have "mult_frac (uint a + uint b - s) 6 100 = Some (((uint a + uint b - s) * 6) sdiv 100)"
    by (rule mult_frac_eq) simp
  moreover have "to_i16 (((uint a + uint b - s) * 6) sdiv 100) = ((uint a + uint b - s) * 6) sdiv 100"
    using b by (intro small_i16) linarith+
  ultimately show ?thesis
    using b by (simp only: smooth_def option.case) linarith
qed

definition light :: "uni_balance_board \<Rightarrow> bool" where
  "light bb \<longleftrightarrow> uint (bb_bl bb) + uint (bb_br bb) \<le> 23000 \<and> uint (bb_tl bb) + uint (bb_tr bb) \<le> 23000 \<and>
     uint (bb_tl bb) + uint (bb_bl bb) \<le> 23000 \<and> uint (bb_tr bb) + uint (bb_br bb) \<le> 23000"

definition settled :: "uni_balance_board_state \<Rightarrow> bool" where
  "settled st \<longleftrightarrow> (\<forall>s \<in> {bs_smooth_left st, bs_smooth_right st, bs_smooth_top st, bs_smooth_down st}.
     - 84 \<le> s \<and> s \<le> 1386)"

definition still :: "uni_joystick \<Rightarrow> bool" where
  "still j \<longleftrightarrow> jy_up j = 0 \<and> jy_down j = 0 \<and> jy_left j = 0 \<and> jy_right j = 0"

lemma light_step:
  assumes "light bb" "settled st" "uni_joy_to_single_joy_from_balance_board bb_threshold bb st joystick_zero = (st', j)"
  shows "settled st' \<and> still j"
proof -
  let ?st = "st\<lparr>bs_smooth_down := smooth (bb_bl bb) (bb_br bb) (bs_smooth_down st),
            bs_smooth_top := smooth (bb_tl bb) (bb_tr bb) (bs_smooth_top st),
            bs_smooth_left := smooth (bb_tl bb) (bb_bl bb) (bs_smooth_left st),
            bs_smooth_right := smooth (bb_tr bb) (bb_br bb) (bs_smooth_right st)\<rparr>"
  have s: "settled ?st" using assms(1,2) smooth_bounds by (simp add: settled_def light_def)
  then have d: "board_directions 1500 ?st joystick_zero = joystick_zero"
    by (auto simp: board_directions_def settled_def Let_def)
  obtain st2 p where f: "board_fire 5000 bb ?st = (st2, p)" by fastforce
  have "settled st2" using f s
    by (cases "bs_fire_state st") (auto simp: board_fire_def enter_def Let_def settled_def split: if_splits)
  with assms(3) d f show ?thesis
    by (auto simp: uni_joy_to_single_joy_from_balance_board_def Let_def bb_threshold_def still_def joystick_zero_def)
qed

theorem board_ignores_23kg:
  assumes "\<forall>bb \<in> set bbs. light bb" "board_run bb_threshold bbs board_start = (st, js)"
  shows "\<forall>j \<in> set js. still j"
proof -
  have "board_run bb_threshold bbs st0 = (st, js) \<Longrightarrow> settled st0 \<Longrightarrow> \<forall>bb \<in> set bbs. light bb \<Longrightarrow>
    \<forall>j \<in> set js. still j" for st0
  proof (induction bbs arbitrary: st0 js)
    case Nil
    then show ?case by simp
  next
    case (Cons b bbs)
    obtain st1 j where s: "uni_joy_to_single_joy_from_balance_board bb_threshold b st0 joystick_zero = (st1, j)"
      by fastforce
    obtain js' where r: "board_run bb_threshold bbs st1 = (st, js')" "js = j # js'"
      using Cons.prems(1) s by (auto split: prod.splits)
    with light_step [OF _ Cons.prems(2) s] Cons.IH [OF r(1)] Cons.prems(3) show ?case by simp
  qed
  with assms show ?thesis by (simp add: settled_def board_start_def)
qed

end
