(* ===== verification/Mouse_Quadrature.thy ===== *)
theory Mouse_Quadrature
  imports Binary32 Rumble
begin

text \<open>
  \<^verbatim>\<open>components/bluepad32/uni_mouse_quadrature.c\<close>: the movements of a mouse as the two lines of a
  quadrature encoder, one step per tick of a timer. Timers and pins belong to the ESP-IDF: what is set on
  them is recorded. The arithmetic of the timer is binary32. A signed overflow, and a number of units
  that does not fit the 64 bits it is converted to (also the infinity of a division by zero), are the
  value None. A product that overflows to infinity gives the least number of units, as it does here,
  where it stays finite.
\<close>

section \<open>One encoder\<close>

datatype phase_direction = PHASE_DIRECTION_NEG | PHASE_DIRECTION_POS

record quadrature_state =
  qd_dir :: phase_direction
  qd_value :: int
  qd_phase :: int
  qd_timer :: "nat \<times> nat"
  qd_gpios :: "int \<times> int"

definition TICKS_PER_80US :: rat where "TICKS_PER_80US = 1"

definition ONE_SECOND :: int where "ONE_SECOND = 12500"

definition lines_of :: "int \<Rightarrow> bool \<times> bool" where
  "lines_of phase = (if phase = 0 then (False, False) else if phase = 1 then (True, False)
     else if phase = 2 then (True, True) else if phase = 3 then (False, True) else (False, False))"

text \<open>A tick: the new state and the levels it sets, if it does.\<close>

definition process_quadrature :: "quadrature_state \<Rightarrow> quadrature_state \<times> (bool \<times> bool) option" where
  "process_quadrature q =
     (if qd_value q \<le> 0 then (q, None)
      else let p = (if qd_dir q = PHASE_DIRECTION_NEG
               then (if qd_phase q - 1 < 0 then 3 else qd_phase q - 1)
               else (if qd_phase q + 1 > 3 then 0 else qd_phase q + 1))
        in (q\<lparr>qd_value := qd_value q - 1, qd_phase := p\<rparr>, Some (lines_of p)))"

definition negated32 :: "int \<Rightarrow> int option" where
  "negated32 x = (if x = - (2 ^ 31) then None else Some (- x))"

text \<open>
  The conversion of \<open>roundf(units_f)\<close> to \<open>uint64_t\<close> is undefined from 2^64 on. A negative scale
  gives a negative quotient (minus infinity, when the product rounds to zero), which is raised to one unit.
\<close>

definition timer_units :: "rat \<Rightarrow> int \<Rightarrow> int option" where
  "timer_units scale abs_delta =
     (let p = f_mul (f_of_int abs_delta) scale
      in if p = 0 then (if scale < 0 then Some (lroundf TICKS_PER_80US) else None)
         else let u = f_div (f_mul 128 TICKS_PER_80US) p;
                  units = lroundf (if u < TICKS_PER_80US then TICKS_PER_80US else u)
           in if units \<ge> 2 ^ 64 then None else Some units)"

text \<open>The new state and the value for the counter of its timer.\<close>

definition process_update :: "rat \<Rightarrow> int \<Rightarrow> quadrature_state \<Rightarrow> (quadrature_state \<times> int) option" where
  "process_update scale delta q =
     (if delta = 0 then Some (q, ONE_SECOND * 60)
      else case (if delta < 0 then negated32 delta else Some delta) of
          None \<Rightarrow> None
        | Some a \<Rightarrow> map_option (Pair (q\<lparr>qd_value := a,
            qd_dir := (if delta < 0 then PHASE_DIRECTION_NEG else PHASE_DIRECTION_POS)\<rparr>)) (timer_units scale a))"

section \<open>The ports\<close>

record quadratures =
  qs_ports :: "(quadrature_state \<times> quadrature_state) list"
  qs_timer_started :: "bool list"
  qs_initialized :: bool
  qs_scale_factor :: rat
  qs_property_scale :: rat
  qs_counters :: "((nat \<times> nat) \<times> int) list"
  qs_running :: "(nat \<times> nat) set"
  qs_levels :: "(int \<times> bool) list"

definition quadrature_zero :: "nat \<times> nat \<Rightarrow> quadrature_state" where
  "quadrature_zero timer = \<lparr>qd_dir = PHASE_DIRECTION_NEG, qd_value = 0, qd_phase = 0, qd_timer = timer,
     qd_gpios = (0, 0)\<rparr>"

definition uni_mouse_quadrature_get_scale_factor :: "quadratures \<Rightarrow> rat \<times> quadratures" where
  "uni_mouse_quadrature_get_scale_factor s = (qs_property_scale s, s\<lparr>qs_scale_factor := qs_property_scale s\<rparr>)"

definition uni_mouse_quadrature_set_scale_factor :: "rat \<Rightarrow> quadratures \<Rightarrow> quadratures" where
  "uni_mouse_quadrature_set_scale_factor scale s = s\<lparr>qs_scale_factor := scale, qs_property_scale := scale\<rparr>"

text \<open>The task that creates the timers is taken to have run when \<open>init\<close> returns.\<close>

definition init_from_cpu_task :: "quadratures \<Rightarrow> quadratures" where
  "init_from_cpu_task s = s\<lparr>qs_counters := qs_counters s @
     concat (map (\<lambda>(h, v). [(qd_timer h, ONE_SECOND * 60), (qd_timer v, ONE_SECOND * 60)]) (qs_ports s))\<rparr>"

definition uni_mouse_quadrature_init :: "quadratures \<Rightarrow> quadratures" where
  "uni_mouse_quadrature_init s =
     (let s1 = s\<lparr>qs_ports := map (\<lambda>i. (quadrature_zero (i, 0), quadrature_zero (i, 1))) [0, 1],
            qs_timer_started := [False, False]\<rparr>
      in (init_from_cpu_task (snd (uni_mouse_quadrature_get_scale_factor s1)))\<lparr>qs_initialized := True\<rparr>)"

definition port_ok :: "int \<Rightarrow> bool" where
  "port_ok port_idx \<longleftrightarrow> \<not> (port_idx < 0 \<or> port_idx \<ge> 2)"

definition uni_mouse_quadrature_setup_port ::
  "int \<Rightarrow> int \<times> int \<Rightarrow> int \<times> int \<Rightarrow> quadratures \<Rightarrow> quadratures" where
  "uni_mouse_quadrature_setup_port port_idx h v s =
     (if \<not> port_ok port_idx then s
      else let i = nat port_idx; (qh, qv) = qs_ports s ! i
        in s\<lparr>qs_ports := (qs_ports s)[i := (qh\<lparr>qd_gpios := h\<rparr>, qv\<lparr>qd_gpios := v\<rparr>)]\<rparr>)"

definition uni_mouse_quadrature_deinit :: "quadratures \<Rightarrow> quadratures" where
  "uni_mouse_quadrature_deinit s = s\<lparr>qs_running := qs_running s - (\<Union>(h, v) \<in> set (qs_ports s). {qd_timer h, qd_timer v}),
     qs_initialized := False\<rparr>"

definition uni_mouse_quadrature_start :: "int \<Rightarrow> quadratures \<Rightarrow> quadratures" where
  "uni_mouse_quadrature_start port_idx s =
     (if \<not> qs_initialized s then s
      else if \<not> port_ok port_idx then s
      else let i = nat port_idx; (h, v) = qs_ports s ! i
        in if qs_timer_started s ! i then s
           else s\<lparr>qs_running := qs_running s \<union> {qd_timer h, qd_timer v},
             qs_timer_started := (qs_timer_started s)[i := True]\<rparr>)"

definition uni_mouse_quadrature_pause :: "int \<Rightarrow> quadratures \<Rightarrow> quadratures" where
  "uni_mouse_quadrature_pause port_idx s =
     (if \<not> qs_initialized s then s
      else if \<not> port_ok port_idx then s
      else let i = nat port_idx; (h, v) = qs_ports s ! i
        in if \<not> qs_timer_started s ! i then s
           else s\<lparr>qs_running := qs_running s - {qd_timer h, qd_timer v},
             qs_timer_started := (qs_timer_started s)[i := False]\<rparr>)"

definition uni_mouse_quadrature_update :: "int \<Rightarrow> int \<Rightarrow> int \<Rightarrow> quadratures \<Rightarrow> quadratures option" where
  "uni_mouse_quadrature_update port_idx dx dy s =
     (if \<not> qs_initialized s then Some s
      else if \<not> port_ok port_idx then Some s
      else let i = nat port_idx; (h, v) = qs_ports s ! i
        in case process_update (qs_scale_factor s) dx h of
             None \<Rightarrow> None
           | Some (h1, uh) \<Rightarrow> (case negated32 dy of
               None \<Rightarrow> None
             | Some ndy \<Rightarrow> (case process_update (qs_scale_factor s) ndy v of
                 None \<Rightarrow> None
               | Some (v1, uv) \<Rightarrow> Some (s\<lparr>qs_ports := (qs_ports s)[i := (h1, v1)],
                   qs_counters := qs_counters s @ [(qd_timer h, uh), (qd_timer v, uv)]\<rparr>))))"

text \<open>An alarm of a timer wakes the task of its encoder.\<close>

definition quadrature_levels :: "quadrature_state \<Rightarrow> (bool \<times> bool) option \<Rightarrow> (int \<times> bool) list" where
  "quadrature_levels q lines = (case lines of None \<Rightarrow> []
     | Some (a, b) \<Rightarrow> [(fst (qd_gpios q), a), (snd (qd_gpios q), b)])"

definition timer_task :: "nat \<Rightarrow> nat \<Rightarrow> quadratures \<Rightarrow> quadratures" where
  "timer_task port_idx encoder_idx s =
     (let (h, v) = qs_ports s ! port_idx; q = (if encoder_idx = 0 then h else v); (q1, lines) = process_quadrature q
      in s\<lparr>qs_ports := (qs_ports s)[port_idx := (if encoder_idx = 0 then (q1, v) else (h, q1))],
        qs_levels := qs_levels s @ quadrature_levels q lines\<rparr>)"

section \<open>What a computer makes of the lines\<close>

text \<open>A decoder of quadrature signals: it counts up or down by the order in which the lines change.\<close>

definition gray :: "bool \<times> bool \<Rightarrow> int" where
  "gray l = (if fst l then (if snd l then 2 else 1) else (if snd l then 3 else 0))"

definition decoded_step :: "bool \<times> bool \<Rightarrow> bool \<times> bool \<Rightarrow> int" where
  "decoded_step old new = (let d = (gray new - gray old) mod 4 in if d = 1 then 1 else if d = 3 then - 1 else 0)"

text \<open>Events at one encoder; the run carries the lines as they are and the count of the decoder.\<close>

datatype quadrature_event = Mouse_Moves int | Timer_Ticks

fun quadrature_step ::
  "rat \<Rightarrow> quadrature_event \<Rightarrow> quadrature_state \<times> (bool \<times> bool) \<times> int \<Rightarrow>
     (quadrature_state \<times> (bool \<times> bool) \<times> int) option" where
  "quadrature_step scale (Mouse_Moves delta) (q, lines, n) =
     map_option (\<lambda>(q1, _). (q1, lines, n)) (process_update scale delta q)"
| "quadrature_step scale Timer_Ticks (q, lines, n) = (case process_quadrature q of
     (q1, None) \<Rightarrow> Some (q1, lines, n)
   | (q1, Some new) \<Rightarrow> Some (q1, new, n + decoded_step lines new))"

text \<open>
  The specification: a position and the way still to go. A movement replaces what is left of the one
  before, a tick goes one step.
\<close>

fun position_step :: "quadrature_event \<Rightarrow> int \<times> int \<Rightarrow> int \<times> int" where
  "position_step (Mouse_Moves delta) (pos, left) = (pos, if delta = 0 then left else delta)"
| "position_step Timer_Ticks (pos, left) = (pos + sgn left, left - sgn left)"

fun movement_ok :: "quadrature_event \<Rightarrow> bool" where
  "movement_ok (Mouse_Moves delta) = (\<bar>delta\<bar> < 2 ^ 31)"
| "movement_ok Timer_Ticks = True"

definition way_left :: "quadrature_state \<Rightarrow> int" where
  "way_left q = (if qd_dir q = PHASE_DIRECTION_NEG then - qd_value q else qd_value q)"

definition quadrature_rel :: "quadrature_state \<times> (bool \<times> bool) \<times> int \<Rightarrow> int \<times> int \<Rightarrow> bool" where
  "quadrature_rel c a = (case (c, a) of ((q, lines, n), (pos, left)) \<Rightarrow>
     qd_phase q \<in> {0, 1, 2, 3} \<and> 0 \<le> qd_value q \<and> lines = lines_of (qd_phase q) \<and> n = pos \<and> left = way_left q)"

lemma timer_units_positive:
  assumes "1 / 2 ^ 56 \<le> scale" "1 \<le> a"
  shows "\<exists>u. timer_units scale a = Some u \<and> 1 \<le> u \<and> u \<le> 2 ^ 63"
proof -
  let ?p = "f_mul (f_of_int a) scale" and ?u = "f_div (f_mul 128 1) (f_mul (f_of_int a) scale)"
  have "f_of_int 1 \<le> f_of_int a" using assms(2) by (simp add: f_of_int_def f32_mono)
  then have a: "1 \<le> f_of_int a" using f_of_int_exact [of 1] by simp
  have "1 / 2 ^ 56 \<le> f_of_int a * scale"
    using mult_mono [OF a assms(1)] a by simp
  then have "f32 (1 / 2 ^ 56) \<le> ?p" by (simp only: f_mul_def f32_mono)
  moreover have "f32 (1 / 2 ^ 56) = 1 / 2 ^ 56" using f32_exact [of 1 56] by simp
  ultimately have p: "1 / 2 ^ 56 \<le> ?p" by simp
  then have p0: "?p \<noteq> 0" "0 < ?p" by (auto intro: less_le_trans [of 0 "1 / 2 ^ 56"])
  have "f_mul 128 1 = 128" using f32_exact [of 128 0] by (simp add: f_mul_def)
  moreover have "128 / ?p \<le> 128 / (1 / 2 ^ 56)" using p p0(2) by (intro divide_left_mono) simp_all
  ultimately have "?u \<le> f32 (2 ^ 63)" unfolding f_div_def by (intro f32_mono) simp
  moreover have "f32 (2 ^ 63) = 2 ^ 63" by code_simp
  ultimately have u: "?u \<le> of_int (2 ^ 63)" by simp
  let ?w = "lroundf (if ?u < 1 then 1 else ?u)"
  have w: "?w \<le> 2 ^ 63" "1 \<le> ?w" by (rule lroundf_bounds(2), use u in simp) (rule lroundf_bounds(1), simp)
  then have "timer_units scale a = Some ?w" unfolding timer_units_def Let_def TICKS_PER_80US_def using p0(1) by (simp only: if_False) simp
  with w show ?thesis by blast
qed

lemma update_returns:
  assumes "1 / 2 ^ 56 \<le> scale" "\<bar>delta\<bar> < 2 ^ 31" "delta \<noteq> 0"
  shows "\<exists>u. process_update scale delta q = Some (q\<lparr>qd_value := \<bar>delta\<bar>,
    qd_dir := (if delta < 0 then PHASE_DIRECTION_NEG else PHASE_DIRECTION_POS)\<rparr>, u) \<and> 1 \<le> u \<and> u \<le> 2 ^ 63"
proof -
  have "1 \<le> \<bar>delta\<bar>" using assms(3) by linarith
  then obtain u where "timer_units scale \<bar>delta\<bar> = Some u" "1 \<le> u" "u \<le> 2 ^ 63"
    using timer_units_positive [OF assms(1), of "\<bar>delta\<bar>"] by blast
  then show ?thesis using assms(2,3)
    by (cases "delta < 0") (auto simp: process_update_def negated32_def)
qed

lemma tick_turns:
  assumes "quadrature_rel (q, lines, n) (pos, left)" "0 < qd_value q"
  shows "\<exists>q1 new. process_quadrature q = (q1, Some new) \<and> decoded_step lines new = sgn left \<and>
    quadrature_rel (q1, new, pos + sgn left) (pos + sgn left, left - sgn left) \<and>
    (fst lines \<noteq> fst new) \<noteq> (snd lines \<noteq> snd new)"
proof -
  have r: "qd_phase q = 0 \<or> qd_phase q = 1 \<or> qd_phase q = 2 \<or> qd_phase q = 3" "lines = lines_of (qd_phase q)"
    "n = pos" "left = way_left q" using assms(1) by (auto simp: quadrature_rel_def)
  show ?thesis
  proof (cases "qd_dir q")
    case PHASE_DIRECTION_NEG
    then have "sgn left = - 1" using r(4) assms(2) by (simp add: way_left_def)
    with PHASE_DIRECTION_NEG r assms(2) show ?thesis
      by (elim disjE) (simp_all add: quadrature_rel_def process_quadrature_def lines_of_def decoded_step_def
          gray_def way_left_def)
  next
    case PHASE_DIRECTION_POS
    then have "sgn left = 1" using r(4) assms(2) by (simp add: way_left_def)
    with PHASE_DIRECTION_POS r assms(2) show ?thesis
      by (elim disjE) (simp_all add: quadrature_rel_def process_quadrature_def lines_of_def decoded_step_def
          gray_def way_left_def)
  qed
qed

lemma quadrature_sim:
  assumes "1 / 2 ^ 56 \<le> scale" "quadrature_rel c a" "movement_ok e"
  shows "\<exists>c'. quadrature_step scale e c = Some c' \<and> quadrature_rel c' (position_step e a)"
proof -
  obtain q lines n pos left where ca: "c = (q, lines, n)" "a = (pos, left)" by (cases c; cases a) auto
  show ?thesis
  proof (cases e)
    case (Mouse_Moves delta)
    show ?thesis
    proof (cases "delta = 0")
      case True
      with Mouse_Moves assms(2) ca show ?thesis by (simp add: process_update_def)
    next
      case False
      with Mouse_Moves assms(3) obtain u where u: "process_update scale delta q = Some (q\<lparr>qd_value := \<bar>delta\<bar>,
          qd_dir := (if delta < 0 then PHASE_DIRECTION_NEG else PHASE_DIRECTION_POS)\<rparr>, u)"
        using update_returns [OF assms(1), of delta q] by auto
      from False Mouse_Moves assms(2) ca show ?thesis
        by (simp add: u quadrature_rel_def way_left_def)
    qed
  next
    case Timer_Ticks
    show ?thesis
    proof (cases "0 < qd_value q")
      case True
      from assms(2) have r: "quadrature_rel (q, lines, n) (pos, left)" by (simp only: ca)
      then have n: "n = pos" by (simp add: quadrature_rel_def)
      from tick_turns [OF r True] obtain q1 new where t: "process_quadrature q = (q1, Some new)"
        "decoded_step lines new = sgn left"
        "quadrature_rel (q1, new, pos + sgn left) (pos + sgn left, left - sgn left)" by blast
      have "quadrature_step scale e c = Some (q1, new, pos + sgn left)" by (simp add: ca Timer_Ticks t(1,2) n)
      moreover have "position_step e a = (pos + sgn left, left - sgn left)" by (simp add: ca Timer_Ticks)
      ultimately show ?thesis using t(3) by simp
    next
      case False
      with assms(2) ca Timer_Ticks show ?thesis
        by (auto simp: quadrature_rel_def process_quadrature_def way_left_def)
    qed
  qed
qed

lemma quadrature_run_sim:
  assumes "1 / 2 ^ 56 \<le> scale" "quadrature_rel c a" "\<forall>e \<in> set es. movement_ok e"
  shows "\<exists>c'. run_steps (quadrature_step scale) es c = Some c' \<and> quadrature_rel c' (fold position_step es a)"
  using assms(2,3)
proof (induction es arbitrary: c a)
  case Nil
  then show ?case by simp
next
  case (Cons e es)
  obtain c1 where c1: "quadrature_step scale e c = Some c1" "quadrature_rel c1 (position_step e a)"
    using quadrature_sim [OF assms(1) Cons.prems(1), of e] Cons.prems(2) by auto
  with Cons.IH [OF c1(2)] Cons.prems(2) show ?case by simp
qed

section \<open>Properties\<close>

text \<open>
  C31: the two lines of an encoder carry the movements of the mouse: after any movements and ticks, a
  decoder that watches the lines has counted exactly the position of the specification, in which each
  tick goes one step of the latest movement; and no operation fails, for movements within 31 bits and
  any scale from 2^-56 on. From there on the units fit their 64 bits; at 2^-57 they do not.
\<close>

theorem quadrature_carries_position:
  assumes "1 / 2 ^ 56 \<le> scale" "\<forall>e \<in> set es. movement_ok e"
  shows "\<exists>q lines. run_steps (quadrature_step scale) es (quadrature_zero timer, (False, False), 0) =
      Some (q, lines, fst (fold position_step es (0, 0))) \<and>
    way_left q = snd (fold position_step es (0, 0))"
proof -
  have "quadrature_rel (quadrature_zero timer, (False, False), 0) (0, 0)"
    by (simp add: quadrature_rel_def quadrature_zero_def lines_of_def way_left_def)
  from quadrature_run_sim [OF assms(1) this assms(2)] show ?thesis
    by (cases "fold position_step es (0, 0)") (auto simp: quadrature_rel_def)
qed

theorem quadrature_carries_position_witness:
  "\<exists>q lines. run_steps (quadrature_step 1) [Mouse_Moves (- 2), Timer_Ticks, Mouse_Moves 3, Timer_Ticks, Timer_Ticks]
    (quadrature_zero (0, 0), (False, False), 0) = Some (q, lines, 1) \<and> way_left q = 1"
  using quadrature_carries_position [of 1 "[Mouse_Moves (- 2), Timer_Ticks, Mouse_Moves 3, Timer_Ticks, Timer_Ticks]" "(0, 0)"]
  by simp

text \<open>In the specification a movement is over after its number of ticks.\<close>

theorem quadrature_ticks:
  assumes "delta \<noteq> 0"
  shows "fold position_step (Mouse_Moves delta # replicate (nat \<bar>delta\<bar>) Timer_Ticks) (pos, left) = (pos + delta, 0)"
proof -
  have "fold position_step (replicate n Timer_Ticks) (p, k) = (p + k, 0)" if "n = nat \<bar>k\<bar>" for n p k
    using that
  proof (induction n arbitrary: p k)
    case 0
    then show ?case by simp
  next
    case (Suc n)
    then have "n = nat \<bar>k - sgn k\<bar>" by (cases "0 < k") (auto simp: sgn_if)
    from Suc.IH [OF this, of "p + sgn k"] show ?case by simp
  qed
  with assms show ?thesis by simp
qed

text \<open>The counter of the timer is set to at least one tick of 80 us and at most 2^63.\<close>

theorem quadrature_units:
  assumes "1 / 2 ^ 56 \<le> scale" "\<bar>delta\<bar> < 2 ^ 31"
  shows "\<exists>q' u. process_update scale delta q = Some (q', u) \<and> 1 \<le> u \<and> u \<le> 2 ^ 63"
proof (cases "delta = 0")
  case True
  then show ?thesis by (simp add: process_update_def ONE_SECOND_def)
next
  case False
  with update_returns [OF assms, of q] show ?thesis by blast
qed

text \<open>Nothing keeps the scale of the console from being zero, or so small that the units do not fit.\<close>

theorem small_scale_fails:
  "process_update 0 1 q = None \<and> process_update (1 / 2 ^ 57) 1 q = None"
proof -
  have "timer_units 0 1 = None" "timer_units (1 / 2 ^ 57) 1 = None" by code_simp+
  then show ?thesis by (simp add: process_update_def)
qed

end
