(* ===== verification/Arduino_Platform.thy ===== *)
theory Arduino_Platform
  imports Device_Table
begin

text \<open>
  \<^verbatim>\<open>components/bluepad32_arduino/arduino_platform.c\<close>, \<^verbatim>\<open>ArduinoBluepad32.cpp\<close> and
  \<^verbatim>\<open>ArduinoController\<close>: the bridge between the Bluetooth task, which owns the devices, and the
  Arduino task, which owns the \<open>Controller\<close> objects. A device gets a seat when it is ready; its data
  is copied to the seat; requests of the Arduino task travel back in a queue.

  The platform data of device \<open>d\<close> is \<open>ar_instance ! d\<close>. Each operation is atomic here; in the program
  the accesses to a seat's data are guarded by a mutex.
\<close>

section \<open>State\<close>

definition MAX_PENDING_REQUESTS :: nat where "MAX_PENDING_REQUESTS = 16"
definition GAMEPAD_INVALID :: int where "GAMEPAD_INVALID = - 1"

record arduino_properties =
  pr_btaddr :: bd_addr
  pr_type :: u16
  pr_subtype :: u8
  pr_vendor_id :: u16
  pr_product_id :: u16
  pr_flags :: u16

record arduino_controller =
  ac_idx :: int
  ac_data :: uni_controller
  ac_updated :: bool
  ac_properties :: arduino_properties

definition properties_zero :: arduino_properties where
  "properties_zero = \<lparr>pr_btaddr = zero_addr, pr_type = 0, pr_subtype = 0, pr_vendor_id = 0,
     pr_product_id = 0, pr_flags = 0\<rparr>"

definition empty_seat :: arduino_controller where
  "empty_seat = \<lparr>ac_idx = GAMEPAD_INVALID, ac_data = controller_zero, ac_updated = False,
     ac_properties = properties_zero\<rparr>"

datatype pending_cmd =
    CMD_LIGHTBAR_COLOR u8 u8 u8
  | CMD_PLAYER_LEDS u8
  | CMD_RUMBLE u16 u16 u8 u8
  | CMD_DISCONNECT

record pending_request =
  rq_idx :: u8
  rq_cmd :: pending_cmd

record arduino =
  ar_controllers :: "arduino_controller list"
  ar_used :: int
  ar_instance :: "int list"
  ar_queue :: "pending_request list"

text \<open>What the bridge asks of a device.\<close>

datatype device_call =
    Set_Lightbar nat u8 u8 u8
  | Set_Player_Leds nat u8
  | Play_Rumble nat u16 u16 u8 u8
  | Disconnect_Later nat

text \<open>\<open>n\<close> seats and device slots; the queue is empty when it is created.\<close>

definition arduino_init :: "nat \<Rightarrow> arduino" where
  "arduino_init n = \<lparr>ar_controllers = replicate n empty_seat, ar_used = 0,
     ar_instance = replicate n 0, ar_queue = []\<rparr>"

section \<open>The Bluetooth task\<close>

fun type_code :: "controller_type \<Rightarrow> int" where
  "type_code TYPE_Unknown = 0"
| "type_code TYPE_UnknownSteamController = 1"
| "type_code TYPE_SteamController = 2"
| "type_code TYPE_UnknownNonSteamController = 30"
| "type_code TYPE_XBoxOneController = 32"
| "type_code TYPE_PS3Controller = 33"
| "type_code TYPE_PS4Controller = 34"
| "type_code TYPE_WiiController = 35"
| "type_code TYPE_AndroidController = 37"
| "type_code TYPE_SwitchProController = 38"
| "type_code TYPE_SwitchJoyConLeft = 39"
| "type_code TYPE_SwitchJoyConRight = 40"
| "type_code TYPE_PS5Controller = 45"
| "type_code TYPE_iCadeController = 50"
| "type_code TYPE_SmartTVRemoteController = 51"
| "type_code TYPE_8BitdoController = 52"
| "type_code TYPE_GenericController = 53"
| "type_code TYPE_NimbusController = 54"
| "type_code TYPE_OUYAController = 55"
| "type_code TYPE_PSMoveController = 56"
| "type_code TYPE_AtariJoystick = 57"
| "type_code TYPE_GenericKeyboard = 400"
| "type_code TYPE_GenericMouse = 800"
| "type_code (TYPE_Other n) = n"

definition seat_properties :: "hid_device \<Rightarrow> arduino_properties" where
  "seat_properties d = \<lparr>pr_btaddr = btaddr (hd_conn d), pr_type = u16_of (type_code (hd_controller_type d)),
     pr_subtype = u8_of (type_code (hd_controller_type d)), pr_vendor_id = hd_vendor_id d,
     pr_product_id = hd_product_id d,
     pr_flags = or_if (pt_set_lightbar_color (hd_report_parser d) \<noteq> None) (BIT 2)
       (or_if (pt_play_dual_rumble (hd_report_parser d) \<noteq> None) (BIT 0)
       (or_if (pt_set_player_leds (hd_report_parser d) \<noteq> None) (BIT 1) 0))\<rparr>"

definition set_instance :: "nat \<Rightarrow> int \<Rightarrow> arduino \<Rightarrow> arduino" where
  "set_instance d v ar = ar\<lparr>ar_instance := (ar_instance ar)[d := v]\<rparr>"

definition arduino_on_device_connected :: "nat \<Rightarrow> arduino \<Rightarrow> arduino" where
  "arduino_on_device_connected d ar = set_instance d GAMEPAD_INVALID ar"

definition arduino_on_device_disconnected :: "nat \<Rightarrow> arduino \<Rightarrow> arduino" where
  "arduino_on_device_disconnected d ar =
     (let idx = ar_instance ar ! d
      in if idx = GAMEPAD_INVALID then ar
         else if idx < 0 \<or> idx \<ge> int (length (ar_controllers ar)) then ar
         else set_instance d GAMEPAD_INVALID
           (ar\<lparr>ar_used := ar_used ar - 1, ar_controllers := (ar_controllers ar)[nat idx := empty_seat]\<rparr>))"

datatype ready_status = READY_SUCCESS | READY_NO_SLOTS | READY_INVALID_CONTROLLER

text \<open>The argument \<open>h\<close> is the device \<open>d\<close>; the player LEDs show the seat plus one.\<close>

definition arduino_on_device_ready ::
  "nat \<Rightarrow> hid_device \<Rightarrow> arduino \<Rightarrow> ready_status \<times> device_call list \<times> arduino" where
  "arduino_on_device_ready d h ar =
     (if ar_used ar = int (length (ar_controllers ar)) then (READY_NO_SLOTS, [], ar)
      else if ar_instance ar ! d \<noteq> GAMEPAD_INVALID then (READY_INVALID_CONTROLLER, [], ar)
      else
        let ar' = (case find_index (\<lambda>c. ac_idx c = GAMEPAD_INVALID) (ar_controllers ar) of
              None \<Rightarrow> ar
            | Some i \<Rightarrow> set_instance d (int i) (ar\<lparr>ar_used := ar_used ar + 1,
                ar_controllers := (ar_controllers ar)[i := (ar_controllers ar ! i)
                  \<lparr>ac_idx := int i, ac_properties := seat_properties h\<rparr>]\<rparr>))
        in (READY_SUCCESS,
            (if pt_set_player_leds (hd_report_parser h) \<noteq> None
             then [Set_Player_Leds d (u8_of (ar_instance ar' ! d + 1))] else []), ar'))"

definition arduino_device :: "arduino \<Rightarrow> hid_system \<Rightarrow> int \<Rightarrow> nat option" where
  "arduino_device ar s idx = find_index (\<lambda>d. conn_state (hd_conn (dev s d)) = STATE_DEVICE_READY \<and>
     ar_instance ar ! d = idx) [0..<length (sys_devices s)]"

definition arduino_get_internal_hid_device :: "arduino \<Rightarrow> hid_system \<Rightarrow> int \<Rightarrow> nat option" where
  "arduino_get_internal_hid_device ar s idx =
     (if idx = GAMEPAD_INVALID then None
      else if idx < 0 \<or> idx \<ge> int (length (ar_controllers ar)) then None
      else arduino_device ar s idx)"

definition perform :: "hid_system \<Rightarrow> nat \<Rightarrow> pending_cmd \<Rightarrow> device_call list" where
  "perform s d cmd =
     (let t = hd_report_parser (dev s d)
      in case cmd of
           CMD_LIGHTBAR_COLOR r g b \<Rightarrow> if pt_set_lightbar_color t \<noteq> None then [Set_Lightbar d r g b] else []
         | CMD_PLAYER_LEDS l \<Rightarrow> if pt_set_player_leds t \<noteq> None then [Set_Player_Leds d l] else []
         | CMD_RUMBLE a b c e \<Rightarrow> if pt_play_dual_rumble t \<noteq> None then [Play_Rumble d a b c e] else []
         | CMD_DISCONNECT \<Rightarrow> [Disconnect_Later d])"

text \<open>An unknown device ends the loop: the request is gone, the ones behind it stay.\<close>

fun process_loop :: "arduino \<Rightarrow> hid_system \<Rightarrow> pending_request list \<Rightarrow> device_call list \<times> pending_request list" where
  "process_loop ar s [] = ([], [])"
| "process_loop ar s (r # rs) =
     (case arduino_device ar s (uint (rq_idx r)) of
        None \<Rightarrow> ([], rs)
      | Some d \<Rightarrow> (let (calls, rest) = process_loop ar s rs in (perform s d (rq_cmd r) @ calls, rest)))"

definition process_pending_requests :: "hid_system \<Rightarrow> arduino \<Rightarrow> device_call list \<times> arduino" where
  "process_pending_requests s ar =
     (let (calls, rest) = process_loop ar s (ar_queue ar) in (calls, ar\<lparr>ar_queue := rest\<rparr>))"

definition arduino_on_controller_data ::
  "hid_system \<Rightarrow> nat \<Rightarrow> uni_controller \<Rightarrow> arduino \<Rightarrow> device_call list \<times> arduino" where
  "arduino_on_controller_data s d c ar =
     (let (calls, ar1) = process_pending_requests s ar; idx = ar_instance ar1 ! d
      in if idx < 0 \<or> idx \<ge> int (length (ar_controllers ar1)) then (calls, ar1)
         else (calls, ar1\<lparr>ar_controllers := (ar_controllers ar1)
                [nat idx := (ar_controllers ar1 ! nat idx)\<lparr>ac_data := c, ac_updated := True\<rparr>]\<rparr>))"

section \<open>The Arduino task\<close>

datatype api_error = INVALID_DEVICE | NO_DATA

definition valid_seat :: "int \<Rightarrow> arduino \<Rightarrow> bool" where
  "valid_seat idx ar \<longleftrightarrow> \<not> (idx < 0 \<or> idx \<ge> int (length (ar_controllers ar))) \<and>
     ac_idx (ar_controllers ar ! nat idx) \<noteq> GAMEPAD_INVALID"

definition arduino_get_controller_data :: "int \<Rightarrow> arduino \<Rightarrow> api_error + (uni_controller \<times> arduino)" where
  "arduino_get_controller_data idx ar =
     (if \<not> valid_seat idx ar then Inl INVALID_DEVICE
      else let c = ar_controllers ar ! nat idx
           in if ac_updated c
              then Inr (ac_data c, ar\<lparr>ar_controllers := (ar_controllers ar)[nat idx := c\<lparr>ac_updated := False\<rparr>]\<rparr>)
              else Inl NO_DATA)"

definition arduino_get_controller_properties :: "int \<Rightarrow> arduino \<Rightarrow> api_error + arduino_properties" where
  "arduino_get_controller_properties idx ar =
     (if \<not> valid_seat idx ar then Inl INVALID_DEVICE else Inr (ac_properties (ar_controllers ar ! nat idx)))"

definition queue_send :: "pending_request \<Rightarrow> arduino \<Rightarrow> arduino" where
  "queue_send r ar = (if length (ar_queue ar) < MAX_PENDING_REQUESTS
     then ar\<lparr>ar_queue := ar_queue ar @ [r]\<rparr> else ar)"

definition arduino_request :: "pending_cmd \<Rightarrow> int \<Rightarrow> arduino \<Rightarrow> api_error + arduino" where
  "arduino_request cmd idx ar =
     (if \<not> valid_seat idx ar then Inl INVALID_DEVICE
      else Inr (queue_send \<lparr>rq_idx = u8_of idx, rq_cmd = cmd\<rparr> ar))"

definition arduino_set_player_leds :: "int \<Rightarrow> u8 \<Rightarrow> arduino \<Rightarrow> api_error + arduino" where
  "arduino_set_player_leds idx leds = arduino_request (CMD_PLAYER_LEDS leds) idx"

definition arduino_set_lightbar_color :: "int \<Rightarrow> u8 \<Rightarrow> u8 \<Rightarrow> u8 \<Rightarrow> arduino \<Rightarrow> api_error + arduino" where
  "arduino_set_lightbar_color idx r g b = arduino_request (CMD_LIGHTBAR_COLOR r g b) idx"

definition arduino_play_dual_rumble ::
  "int \<Rightarrow> u16 \<Rightarrow> u16 \<Rightarrow> u8 \<Rightarrow> u8 \<Rightarrow> arduino \<Rightarrow> api_error + arduino" where
  "arduino_play_dual_rumble idx delayed_start_ms duration_ms weak strong =
     arduino_request (CMD_RUMBLE delayed_start_ms duration_ms weak strong) idx"

definition arduino_disconnect_controller :: "int \<Rightarrow> arduino \<Rightarrow> api_error + arduino" where
  "arduino_disconnect_controller idx = arduino_request CMD_DISCONNECT idx"

subsection \<open>Controller objects\<close>

record arduino_object =
  co_connected :: bool
  co_idx :: int
  co_data :: uni_controller
  co_properties :: arduino_properties
  co_has_data :: bool

definition Controller_new :: arduino_object where
  "Controller_new = \<lparr>co_connected = False, co_idx = - 1, co_data = controller_zero,
     co_properties = properties_zero, co_has_data = False\<rparr>"

text \<open>A request of the sketch through its \<open>Controller\<close>; errors are only logged.\<close>

definition Controller_request :: "pending_cmd \<Rightarrow> arduino_object \<Rightarrow> arduino \<Rightarrow> arduino" where
  "Controller_request cmd c ar =
     (if \<not> co_connected c then ar
      else case arduino_request cmd (co_idx c) ar of Inl e \<Rightarrow> ar | Inr ar' \<Rightarrow> ar')"

definition Controller_playDualRumble :: "u16 \<Rightarrow> u16 \<Rightarrow> u8 \<Rightarrow> u8 \<Rightarrow> arduino_object \<Rightarrow> arduino \<Rightarrow> arduino" where
  "Controller_playDualRumble a b w st = Controller_request (CMD_RUMBLE a b w st)"

record bluepad32 =
  bp_prev :: u32
  bp_controllers :: "arduino_object list"

datatype bp_callback = Called_On_Connect nat | Called_On_Disconnect nat

definition onConnected :: "arduino \<Rightarrow> arduino_object \<Rightarrow> arduino_object" where
  "onConnected ar c = (let c1 = c\<lparr>co_connected := True\<rparr>
     in case arduino_get_controller_properties (co_idx c1) ar of
          Inl e \<Rightarrow> c1 | Inr p \<Rightarrow> c1\<lparr>co_properties := p\<rparr>)"

definition onDisconnected :: "arduino_object \<Rightarrow> arduino_object" where
  "onDisconnected c = c\<lparr>co_connected := False\<rparr>"

text \<open>First loop: the seats from \<open>i\<close> on; returns the mask of the seats in use.\<close>

definition poll_seat :: "nat \<Rightarrow> arduino_object \<Rightarrow> arduino \<Rightarrow> bool \<times> bool \<times> arduino_object \<times> arduino" where
  "poll_seat i c ar = (case arduino_get_controller_data (int i) ar of
        Inl INVALID_DEVICE \<Rightarrow> (False, False, c, ar)
      | Inl NO_DATA \<Rightarrow> (True, False, c\<lparr>co_has_data := False, co_idx := int i\<rparr>, ar)
      | Inr (v, ar') \<Rightarrow> (True, True, c\<lparr>co_data := v, co_has_data := True, co_idx := int i\<rparr>, ar'))"

fun poll_seats :: "nat \<Rightarrow> arduino_object list \<Rightarrow> arduino \<Rightarrow> u32 \<times> bool \<times> arduino_object list \<times> arduino" where
  "poll_seats i [] ar = (0, False, [], ar)"
| "poll_seats i (c # cs) ar =
     (let (in_seat, fresh, c', ar1) = poll_seat i c ar;
          (msk, updated, cs', ar2) = poll_seats (Suc i) cs ar1
      in (or_if in_seat (BIT i) msk, fresh \<or> updated, c' # cs', ar2))"

text \<open>Second loop: compare bit by bit.\<close>

fun notify :: "nat \<Rightarrow> u32 \<Rightarrow> u32 \<Rightarrow> arduino \<Rightarrow> arduino_object list \<Rightarrow> bp_callback list \<times> arduino_object list" where
  "notify i now prev ar [] = ([], [])"
| "notify i now prev ar (c # cs) =
     (let (calls, cs') = notify (Suc i) now prev ar cs
      in if has_bits now (BIT i) = has_bits prev (BIT i) then (calls, c # cs')
         else if has_bits now (BIT i) then (Called_On_Connect i # calls, onConnected ar c # cs')
         else (Called_On_Disconnect i # calls, onDisconnected c # cs'))"

definition Bluepad32_update ::
  "bluepad32 \<Rightarrow> arduino \<Rightarrow> bool \<times> bp_callback list \<times> bluepad32 \<times> arduino" where
  "Bluepad32_update bp ar =
     (let (now, updated, cs, ar') = poll_seats 0 (bp_controllers bp) ar
      in if now = bp_prev bp then (updated, [], bp\<lparr>bp_controllers := cs\<rparr>, ar')
         else let (calls, cs') = notify 0 now (bp_prev bp) ar' cs
              in (updated, calls, bp\<lparr>bp_controllers := cs', bp_prev := now\<rparr>, ar'))"

definition Bluepad32_new :: "nat \<Rightarrow> bluepad32" where
  "Bluepad32_new n = \<lparr>bp_prev = 0, bp_controllers = replicate n Controller_new\<rparr>"

section \<open>Seats\<close>

definition seats_taken :: "arduino \<Rightarrow> nat" where
  "seats_taken ar = length (filter (\<lambda>c. ac_idx c \<noteq> GAMEPAD_INVALID) (ar_controllers ar))"

record bridge =
  br_arduino :: arduino
  br_live :: "bool list"

text \<open>
  A device is live between its connection and its disconnection; its platform data is zero before
  (the slot was cleared), which only a live device may read as a seat.
\<close>

definition bridge_inv :: "nat \<Rightarrow> bridge \<Rightarrow> bool" where
  "bridge_inv n b \<longleftrightarrow> (let ar = br_arduino b; inst = ar_instance ar; live = br_live b in
     length (ar_controllers ar) = n \<and> length inst = n \<and> length live = n \<and>
     ar_used ar = int (seats_taken ar) \<and>
     (\<forall>i < n. ac_idx (ar_controllers ar ! i) = GAMEPAD_INVALID \<or>
        ac_idx (ar_controllers ar ! i) = int i \<and> (\<exists>d < n. live ! d \<and> inst ! d = int i)) \<and>
     (\<forall>d < n. live ! d \<longrightarrow> inst ! d = GAMEPAD_INVALID \<or>
        (\<exists>i < n. inst ! d = int i \<and> ac_idx (ar_controllers ar ! i) = int i)) \<and>
     (\<forall>d < n. \<forall>e < n. live ! d \<longrightarrow> live ! e \<longrightarrow> inst ! d = inst ! e \<longrightarrow> inst ! d \<noteq> GAMEPAD_INVALID \<longrightarrow> d = e))"

datatype bridge_event =
    Br_Cleared nat
  | Br_Connected nat
  | Br_Ready nat hid_device
  | Br_Disconnected nat
  | Br_Data hid_system nat uni_controller
  | Br_Request pending_cmd int
  | Br_Poll int

fun bridge_step :: "bridge_event \<Rightarrow> bridge \<Rightarrow> bridge option" where
  "bridge_step (Br_Cleared d) b = Some (b\<lparr>br_arduino := set_instance d 0 (br_arduino b)\<rparr>)"
| "bridge_step (Br_Connected d) b =
     Some (b\<lparr>br_arduino := arduino_on_device_connected d (br_arduino b), br_live := (br_live b)[d := True]\<rparr>)"
| "bridge_step (Br_Ready d h) b = Some (b\<lparr>br_arduino := snd (snd (arduino_on_device_ready d h (br_arduino b)))\<rparr>)"
| "bridge_step (Br_Disconnected d) b =
     Some (b\<lparr>br_arduino := arduino_on_device_disconnected d (br_arduino b), br_live := (br_live b)[d := False]\<rparr>)"
| "bridge_step (Br_Data s d c) b = Some (b\<lparr>br_arduino := snd (arduino_on_controller_data s d c (br_arduino b))\<rparr>)"
| "bridge_step (Br_Request cmd idx) b =
     Some (case arduino_request cmd idx (br_arduino b) of Inl e \<Rightarrow> b | Inr ar \<Rightarrow> b\<lparr>br_arduino := ar\<rparr>)"
| "bridge_step (Br_Poll idx) b =
     Some (case arduino_get_controller_data idx (br_arduino b) of Inl e \<Rightarrow> b | Inr (v, ar) \<Rightarrow> b\<lparr>br_arduino := ar\<rparr>)"

fun bridge_ok :: "nat \<Rightarrow> bridge_event \<Rightarrow> bridge \<Rightarrow> bool" where
  "bridge_ok n (Br_Cleared d) b \<longleftrightarrow> d < n \<and> \<not> br_live b ! d"
| "bridge_ok n (Br_Connected d) b \<longleftrightarrow> d < n \<and> \<not> br_live b ! d"
| "bridge_ok n (Br_Ready d h) b \<longleftrightarrow> d < n \<and> br_live b ! d"
| "bridge_ok n (Br_Disconnected d) b \<longleftrightarrow> d < n \<and> br_live b ! d"
| "bridge_ok n (Br_Data s d c) b \<longleftrightarrow> d < n"
| "bridge_ok n (Br_Request cmd idx) b \<longleftrightarrow> True"
| "bridge_ok n (Br_Poll idx) b \<longleftrightarrow> True"

lemma seat_taken_update:
  assumes "i < length (ar_controllers ar)"
  shows "length (filter (\<lambda>c. ac_idx c \<noteq> GAMEPAD_INVALID) ((ar_controllers ar)[i := c])) +
    (if ac_idx (ar_controllers ar ! i) \<noteq> GAMEPAD_INVALID then 1 else 0) =
    seats_taken ar + (if ac_idx c \<noteq> GAMEPAD_INVALID then 1 else 0)"
  using count_true_update [OF assms, of "\<lambda>c. ac_idx c \<noteq> GAMEPAD_INVALID" c] by (simp add: seats_taken_def)

lemma int_not_invalid [simp]: "int i \<noteq> GAMEPAD_INVALID" "GAMEPAD_INVALID \<noteq> int i"
  by (simp_all add: GAMEPAD_INVALID_def)

lemma bridge_invD:
  assumes "bridge_inv n b"
  shows "length (ar_controllers (br_arduino b)) = n" "length (ar_instance (br_arduino b)) = n"
    "length (br_live b) = n" "ar_used (br_arduino b) = int (seats_taken (br_arduino b))"
    "\<And>i. i < n \<Longrightarrow> ac_idx (ar_controllers (br_arduino b) ! i) = GAMEPAD_INVALID \<or>
        ac_idx (ar_controllers (br_arduino b) ! i) = int i \<and>
        (\<exists>d < n. br_live b ! d \<and> ar_instance (br_arduino b) ! d = int i)"
    "\<And>d. d < n \<Longrightarrow> br_live b ! d \<Longrightarrow> ar_instance (br_arduino b) ! d = GAMEPAD_INVALID \<or>
        (\<exists>i < n. ar_instance (br_arduino b) ! d = int i \<and> ac_idx (ar_controllers (br_arduino b) ! i) = int i)"
    "\<And>d e. d < n \<Longrightarrow> e < n \<Longrightarrow> br_live b ! d \<Longrightarrow> br_live b ! e \<Longrightarrow>
        ar_instance (br_arduino b) ! d = ar_instance (br_arduino b) ! e \<Longrightarrow>
        ar_instance (br_arduino b) ! d \<noteq> GAMEPAD_INVALID \<Longrightarrow> d = e"
  using assms unfolding bridge_inv_def Let_def by blast+

lemma bridge_invI:
  assumes "length (ar_controllers (br_arduino b)) = n" "length (ar_instance (br_arduino b)) = n"
    "length (br_live b) = n" "ar_used (br_arduino b) = int (seats_taken (br_arduino b))"
    "\<And>i. i < n \<Longrightarrow> ac_idx (ar_controllers (br_arduino b) ! i) = GAMEPAD_INVALID \<or>
        ac_idx (ar_controllers (br_arduino b) ! i) = int i \<and>
        (\<exists>d < n. br_live b ! d \<and> ar_instance (br_arduino b) ! d = int i)"
    "\<And>d. d < n \<Longrightarrow> br_live b ! d \<Longrightarrow> ar_instance (br_arduino b) ! d = GAMEPAD_INVALID \<or>
        (\<exists>i < n. ar_instance (br_arduino b) ! d = int i \<and> ac_idx (ar_controllers (br_arduino b) ! i) = int i)"
    "\<And>d e. d < n \<Longrightarrow> e < n \<Longrightarrow> br_live b ! d \<Longrightarrow> br_live b ! e \<Longrightarrow>
        ar_instance (br_arduino b) ! d = ar_instance (br_arduino b) ! e \<Longrightarrow>
        ar_instance (br_arduino b) ! d \<noteq> GAMEPAD_INVALID \<Longrightarrow> d = e"
  shows "bridge_inv n b"
  using assms unfolding bridge_inv_def Let_def by blast

text \<open>Steps that leave seats and assignments alone.\<close>

definition same_seats :: "arduino \<Rightarrow> arduino \<Rightarrow> bool" where
  "same_seats ar ar' \<longleftrightarrow> ar_used ar' = ar_used ar \<and> ar_instance ar' = ar_instance ar \<and>
     map ac_idx (ar_controllers ar') = map ac_idx (ar_controllers ar)"

lemma seats_taken_map: "seats_taken ar = length (filter (\<lambda>i. i \<noteq> GAMEPAD_INVALID) (map ac_idx (ar_controllers ar)))"
  by (simp add: seats_taken_def filter_map o_def)

lemma same_seats_inv:
  assumes "same_seats (br_arduino b) ar'" "bridge_inv n b"
  shows "bridge_inv n (b\<lparr>br_arduino := ar'\<rparr>)"
proof -
  have m: "map ac_idx (ar_controllers ar') = map ac_idx (ar_controllers (br_arduino b))"
    and u: "ar_used ar' = ar_used (br_arduino b)" and t: "ar_instance ar' = ar_instance (br_arduino b)"
    using assms(1) by (simp_all add: same_seats_def)
  have l: "length (ar_controllers ar') = length (ar_controllers (br_arduino b))"
    using arg_cong [OF m, of length] by simp
  have same: "ac_idx (ar_controllers ar' ! i) = ac_idx (ar_controllers (br_arduino b) ! i)" if "i < n" for i
    using arg_cong [OF m, of "\<lambda>xs. xs ! i"] that l bridge_invD(1) [OF assms(2)] by simp
  have taken: "seats_taken ar' = seats_taken (br_arduino b)" by (simp add: seats_taken_map m)
  note inv = bridge_invD [OF assms(2)]
  show ?thesis
    by (rule bridge_invI) (use inv(1-4) in \<open>simp_all add: t u l taken same inv(5,7)\<close>, use inv(6) same in metis)
qed

lemma map_idx_update [simp]:
  "i < length cs \<Longrightarrow> ac_idx c = ac_idx (cs ! i) \<Longrightarrow> map ac_idx (cs[i := c]) = map ac_idx cs"
  by (simp add: map_update) (metis length_map list_update_id nth_map)

lemma data_same_seats: "same_seats ar (snd (arduino_on_controller_data s d c ar))"
  by (auto simp: arduino_on_controller_data_def process_pending_requests_def Let_def same_seats_def
      split: prod.splits)

lemma request_same_seats: "arduino_request cmd idx ar = Inr ar' \<Longrightarrow> same_seats ar ar'"
  by (auto simp: arduino_request_def queue_send_def same_seats_def split: if_splits)

lemma poll_same_seats: "arduino_get_controller_data idx ar = Inr (v, ar') \<Longrightarrow> same_seats ar ar'"
  by (auto simp: arduino_get_controller_data_def valid_seat_def Let_def same_seats_def split: if_splits)

lemma not_live_inv:
  assumes inv: "bridge_inv n b" and d: "d < n" "\<not> br_live b ! d"
  shows "bridge_inv n (b\<lparr>br_arduino := set_instance d v (br_arduino b)\<rparr>)"
    and "bridge_inv n (b\<lparr>br_arduino := set_instance d GAMEPAD_INVALID (br_arduino b), br_live := (br_live b)[d := True]\<rparr>)"
proof -
  note l = bridge_invD(1-3) [OF inv] and u = bridge_invD(4) [OF inv] and seat = bridge_invD(5) [OF inv]
    and inst = bridge_invD(6) [OF inv] and uniq = bridge_invD(7) [OF inv]
  have t: "seats_taken (set_instance d w (br_arduino b)) = seats_taken (br_arduino b)" for w
    by (simp add: seats_taken_def set_instance_def)
  have c: "ar_controllers (set_instance d w (br_arduino b)) = ar_controllers (br_arduino b)"
    "ar_used (set_instance d w (br_arduino b)) = ar_used (br_arduino b)" for w
    by (simp_all add: set_instance_def)
  have i: "ar_instance (set_instance d w (br_arduino b)) ! e = (if e = d then w else ar_instance (br_arduino b) ! e)"
    if "e < n" for w e using that l(2) by (simp add: set_instance_def nth_list_update)
  have il: "length (ar_instance (set_instance d w (br_arduino b))) = n" for w
    using l(2) by (simp add: set_instance_def)
  show "bridge_inv n (b\<lparr>br_arduino := set_instance d v (br_arduino b)\<rparr>)"
  proof (rule bridge_invI, goal_cases)
    case (5 k)
    then show ?case using seat [OF 5] d by (simp add: c) (metis i)
  next
    case (6 e)
    then have "e \<noteq> d" "e < n" "br_live b ! e" using d by auto
    then show ?case using inst [of e] by (simp add: c i)
  next
    case (7 e f)
    then have "e \<noteq> d" "f \<noteq> d" "e < n" "f < n" "br_live b ! e" "br_live b ! f" using d by auto
    then show ?case using uniq [of e f] 7(5,6) by (simp add: i)
  qed (use l u il in \<open>simp_all add: c t\<close>)
  show "bridge_inv n (b\<lparr>br_arduino := set_instance d GAMEPAD_INVALID (br_arduino b), br_live := (br_live b)[d := True]\<rparr>)"
  proof (rule bridge_invI, goal_cases)
    case (5 k)
    then show ?case using seat [OF 5] d l(3) by (simp add: c) (metis i nth_list_update_neq)
  next
    case (6 e)
    then show ?case using inst [of e] l(3) by (cases "e = d") (simp_all add: c i)
  next
    case (7 e f)
    then have "e \<noteq> d" "f \<noteq> d" by (auto simp: i)
    then show ?case using uniq [of e f] 7 l(3) by (simp add: i)
  qed (use l u il in \<open>simp_all add: c t\<close>)
qed

lemma live_False_inv:
  assumes inv: "bridge_inv n b" and d: "d < n" "ar_instance (br_arduino b) ! d = GAMEPAD_INVALID"
  shows "bridge_inv n (b\<lparr>br_live := (br_live b)[d := False]\<rparr>)"
proof -
  note l = bridge_invD(1-4) [OF inv] and seat = bridge_invD(5) [OF inv]
    and inst = bridge_invD(6) [OF inv] and uniq = bridge_invD(7) [OF inv]
  have live: "(br_live b)[d := False] ! e \<longleftrightarrow> br_live b ! e \<and> e \<noteq> d" if "e < n" for e
    using that l(3) d(1) by (simp add: nth_list_update)
  show ?thesis
  proof (rule bridge_invI, goal_cases)
    case (5 k)
    then show ?case using seat [OF 5] d(2) by (simp add: live) (metis int_not_invalid(1) live)
  next
    case (6 e)
    then show ?case using inst [of e] by (simp add: live)
  next
    case (7 e f)
    then show ?case using uniq [of e f] by (simp add: live)
  qed (use l in simp_all)
qed

lemma disconnected_inv:
  assumes inv: "bridge_inv n b" and d: "d < n" "br_live b ! d"
  shows "bridge_inv n (b\<lparr>br_arduino := arduino_on_device_disconnected d (br_arduino b), br_live := (br_live b)[d := False]\<rparr>)"
proof (cases "ar_instance (br_arduino b) ! d = GAMEPAD_INVALID")
  case True
  then show ?thesis using live_False_inv [OF inv d(1) True] by (simp add: arduino_on_device_disconnected_def Let_def)
next
  case False
  note l = bridge_invD(1-4) [OF inv] and seat = bridge_invD(5) [OF inv]
    and inst = bridge_invD(6) [OF inv] and uniq = bridge_invD(7) [OF inv]
  from inst [OF d] False obtain i where i: "i < n" "ar_instance (br_arduino b) ! d = int i"
    "ac_idx (ar_controllers (br_arduino b) ! i) = int i" by auto
  define ar where "ar = arduino_on_device_disconnected d (br_arduino b)"
  have ar: "ar = set_instance d GAMEPAD_INVALID ((br_arduino b)\<lparr>ar_used := ar_used (br_arduino b) - 1,
      ar_controllers := (ar_controllers (br_arduino b))[i := empty_seat]\<rparr>)"
    using i l(1) by (simp add: ar_def arduino_on_device_disconnected_def Let_def)
  have taken: "seats_taken ar + 1 = seats_taken (br_arduino b)"
    using seat_taken_update [of i "br_arduino b" empty_seat] i l(1)
    by (simp add: ar seats_taken_def set_instance_def empty_seat_def)
  have c: "ac_idx (ar_controllers ar ! k) = (if k = i then GAMEPAD_INVALID else ac_idx (ar_controllers (br_arduino b) ! k))"
    if "k < n" for k using that l(1) by (simp add: ar set_instance_def nth_list_update empty_seat_def)
  have t: "ar_instance ar ! e = (if e = d then GAMEPAD_INVALID else ar_instance (br_arduino b) ! e)" if "e < n" for e
    using that l(2) by (simp add: ar set_instance_def nth_list_update)
  have live: "(br_live b)[d := False] ! e \<longleftrightarrow> br_live b ! e \<and> e \<noteq> d" if "e < n" for e
    using that l(3) d(1) by (simp add: nth_list_update)
  have "bridge_inv n (b\<lparr>br_arduino := ar, br_live := (br_live b)[d := False]\<rparr>)"
  proof (rule bridge_invI, goal_cases)
    case (4)
    show ?case using l(4) taken by (simp add: ar set_instance_def)
  next
    case (5 k)
    then show ?case using seat [OF 5] i(2) by (simp add: c) (metis live of_nat_eq_iff t)
  next
    case (6 e)
    then have e: "e < n" "br_live b ! e" "e \<noteq> d" by (simp_all add: live)
    have "ar_instance (br_arduino b) ! e \<noteq> int i" using uniq [of e d] e d i(2) by auto
    with inst [OF e(1,2)] e show ?case by (simp add: t) (metis c)
  next
    case (7 e f)
    then show ?case using uniq [of e f] by (simp add: live t)
  qed (use l in \<open>simp_all add: ar set_instance_def\<close>)
  then show ?thesis by (simp add: ar_def)
qed

lemma free_seat:
  assumes "ar_used ar = int (seats_taken ar)" "ar_used ar \<noteq> int (length (ar_controllers ar))"
  shows "find_index (\<lambda>c. ac_idx c = GAMEPAD_INVALID) (ar_controllers ar) \<noteq> None"
proof
  assume "find_index (\<lambda>c. ac_idx c = GAMEPAD_INVALID) (ar_controllers ar) = None"
  then have "filter (\<lambda>c. ac_idx c \<noteq> GAMEPAD_INVALID) (ar_controllers ar) = ar_controllers ar"
    by (simp add: find_index_None filter_id_conv)
  with assms show False by (simp add: seats_taken_def)
qed

lemma ready_cases:
  assumes inv: "bridge_inv n b" and d: "d < n"
  shows "arduino_on_device_ready d h (br_arduino b) =
    (if seats_taken (br_arduino b) = n then (READY_NO_SLOTS, [], br_arduino b)
     else if ar_instance (br_arduino b) ! d \<noteq> GAMEPAD_INVALID then (READY_INVALID_CONTROLLER, [], br_arduino b)
     else let i = the (find_index (\<lambda>c. ac_idx c = GAMEPAD_INVALID) (ar_controllers (br_arduino b)))
       in (READY_SUCCESS,
           if pt_set_player_leds (hd_report_parser h) \<noteq> None then [Set_Player_Leds d (u8_of (int i + 1))] else [],
           set_instance d (int i) ((br_arduino b)\<lparr>ar_used := ar_used (br_arduino b) + 1,
             ar_controllers := (ar_controllers (br_arduino b))[i := (ar_controllers (br_arduino b) ! i)
               \<lparr>ac_idx := int i, ac_properties := seat_properties h\<rparr>]\<rparr>)))"
proof -
  note l = bridge_invD(1-4) [OF inv]
  show ?thesis
    using free_seat [of "br_arduino b"] l d
    by (auto simp: arduino_on_device_ready_def Let_def set_instance_def)
qed

lemma ready_inv:
  assumes inv: "bridge_inv n b" and d: "d < n" "br_live b ! d"
  shows "bridge_inv n (b\<lparr>br_arduino := snd (snd (arduino_on_device_ready d h (br_arduino b)))\<rparr>)"
proof (cases "seats_taken (br_arduino b) = n \<or> ar_instance (br_arduino b) ! d \<noteq> GAMEPAD_INVALID")
  case True
  then show ?thesis using inv unfolding ready_cases [OF inv d(1)] by auto
next
  case False
  note l = bridge_invD(1-4) [OF inv] and seat = bridge_invD(5) [OF inv]
    and inst = bridge_invD(6) [OF inv] and uniq = bridge_invD(7) [OF inv]
  obtain i where f: "find_index (\<lambda>c. ac_idx c = GAMEPAD_INVALID) (ar_controllers (br_arduino b)) = Some i"
    using free_seat [of "br_arduino b"] False l by auto
  have i: "i < n" "ac_idx (ar_controllers (br_arduino b) ! i) = GAMEPAD_INVALID"
    using find_index_Some [OF f] l(1) by simp_all
  define ar where "ar = snd (snd (arduino_on_device_ready d h (br_arduino b)))"
  have ar: "ar = set_instance d (int i) ((br_arduino b)\<lparr>ar_used := ar_used (br_arduino b) + 1,
      ar_controllers := (ar_controllers (br_arduino b))[i := (ar_controllers (br_arduino b) ! i)
        \<lparr>ac_idx := int i, ac_properties := seat_properties h\<rparr>]\<rparr>)"
    using False unfolding ar_def ready_cases [OF inv d(1)] by (simp add: f Let_def)
  have taken: "seats_taken ar = seats_taken (br_arduino b) + 1"
    using seat_taken_update [of i "br_arduino b" "(ar_controllers (br_arduino b) ! i)
        \<lparr>ac_idx := int i, ac_properties := seat_properties h\<rparr>"] i l(1)
    by (simp add: ar seats_taken_def set_instance_def)
  have c: "ac_idx (ar_controllers ar ! k) = (if k = i then int i else ac_idx (ar_controllers (br_arduino b) ! k))"
    if "k < n" for k using that l(1) i(1) by (simp add: ar set_instance_def nth_list_update)
  have t: "ar_instance ar ! e = (if e = d then int i else ar_instance (br_arduino b) ! e)" if "e < n" for e
    using that l(2) d(1) by (simp add: ar set_instance_def nth_list_update)
  have free: "br_live b ! e \<Longrightarrow> e < n \<Longrightarrow> ar_instance (br_arduino b) ! e \<noteq> int i" for e
    using inst [of e] i(2) by auto
  have "bridge_inv n (b\<lparr>br_arduino := ar\<rparr>)"
  proof (rule bridge_invI, goal_cases)
    case (4)
    show ?case using l(4) taken by (simp add: ar set_instance_def)
  next
    case (5 k)
    show ?case
    proof (cases "k = i")
      case True
      then show ?thesis using 5 d by (simp add: c) (metis t)
    next
      case nk: False
      then show ?thesis using seat [OF 5] 5 d False by (simp add: c) (metis int_not_invalid(2) t)
    qed
  next
    case (6 e)
    then have e: "e < n" "br_live b ! e" by simp_all
    then show ?case using inst [OF e] i(1) free [OF e(2,1)] by (simp add: t) (metis c)
  next
    case (7 e f)
    then show ?case using uniq [of e f] free [of e] free [of f] by (simp add: t split: if_splits)
  qed (use l in \<open>simp_all add: ar set_instance_def\<close>)
  then show ?thesis by (simp add: ar_def)
qed

lemma bridge_step_law:
  assumes "bridge_inv n b" "bridge_ok n e b"
  shows "\<exists>b'. bridge_step e b = Some b' \<and> bridge_inv n b'"
proof (cases e)
  case (Br_Cleared d)
  with assms not_live_inv(1) show ?thesis by simp
next
  case (Br_Connected d)
  with assms not_live_inv(2) [of n b d] show ?thesis by (simp add: arduino_on_device_connected_def)
next
  case (Br_Ready d h)
  with assms ready_inv show ?thesis by simp
next
  case (Br_Disconnected d)
  with assms disconnected_inv show ?thesis by simp
next
  case (Br_Data s d c)
  with same_seats_inv [OF data_same_seats assms(1)] show ?thesis by simp
next
  case (Br_Request cmd idx)
  with assms(1) same_seats_inv [OF request_same_seats assms(1)] show ?thesis by (auto split: sum.split)
next
  case (Br_Poll idx)
  with assms(1) same_seats_inv [OF poll_same_seats assms(1)] show ?thesis by (auto split: sum.split)
qed

interpretation bridge: guarded_machine bridge_step "bridge_ok n" "bridge_inv n" for n
  by unfold_locales (rule bridge_step_law)

definition bridge_init :: "nat \<Rightarrow> bridge" where
  "bridge_init n = \<lparr>br_arduino = arduino_init n, br_live = replicate n False\<rparr>"

lemma bridge_init_inv: "bridge_inv n (bridge_init n)"
  by (rule bridge_invI)
     (simp_all add: bridge_init_def arduino_init_def seats_taken_def empty_seat_def filter_replicate)

section \<open>Polling\<close>

lemma same_seats_refl [simp]: "same_seats ar ar"
  by (simp add: same_seats_def)

lemma same_seats_trans: "same_seats a b \<Longrightarrow> same_seats b c \<Longrightarrow> same_seats a c"
  by (simp add: same_seats_def)

lemma valid_seat_same: "same_seats ar ar' \<Longrightarrow> valid_seat k ar' = valid_seat k ar"
proof -
  assume "same_seats ar ar'"
  then have m: "map ac_idx (ar_controllers ar') = map ac_idx (ar_controllers ar)" by (simp add: same_seats_def)
  have l: "length (ar_controllers ar') = length (ar_controllers ar)" using arg_cong [OF m, of length] by simp
  have "j < length (ar_controllers ar) \<Longrightarrow> ac_idx (ar_controllers ar' ! j) = ac_idx (ar_controllers ar ! j)" for j
    using arg_cong [OF m, of "\<lambda>xs. xs ! j"] l by simp
  then show ?thesis by (auto simp: valid_seat_def l)
qed

lemma poll_seat_result:
  assumes "poll_seat i c ar = (in_seat, fresh, c', ar')"
  shows "in_seat = valid_seat (int i) ar" "same_seats ar ar'" "co_connected c' = co_connected c"
    "fresh \<longleftrightarrow> in_seat \<and> ac_updated (ar_controllers ar ! i)"
  using assms poll_same_seats [of "int i" ar]
  by (auto simp: poll_seat_def arduino_get_controller_data_def Let_def split: if_splits)

lemma poll_seats_result:
  assumes "poll_seats i cs ar = (msk, updated, cs', ar')" "i + length cs \<le> 32"
  shows "length cs' = length cs \<and> same_seats ar ar' \<and> map co_connected cs' = map co_connected cs \<and>
    (\<forall>k. has_bits msk (BIT k) \<longleftrightarrow> i \<le> k \<and> k < i + length cs \<and> valid_seat (int k) ar)"
  using assms
proof (induction i cs ar arbitrary: msk updated cs' ar' rule: poll_seats.induct)
  case (1 i ar)
  then show ?case by (auto simp: has_bits_BIT)
next
  case (2 i c cs ar)
  obtain s f c1 ar1 where p: "poll_seat i c ar = (s, f, c1, ar1)" by (metis prod_cases4)
  obtain m u cs1 ar2 where q: "poll_seats (Suc i) cs ar1 = (m, u, cs1, ar2)" by (metis prod_cases4)
  note r = poll_seat_result [OF p]
  have ih: "length cs1 = length cs \<and> same_seats ar1 ar2 \<and> map co_connected cs1 = map co_connected cs \<and>
    (\<forall>k. has_bits m (BIT k) \<longleftrightarrow> Suc i \<le> k \<and> k < Suc i + length cs \<and> valid_seat (int k) ar1)"
    using 2(1) [OF p [symmetric] refl refl refl q] 2(3) by simp
  have out: "msk = or_if s (BIT i) m" "cs' = c1 # cs1" "ar' = ar2" using 2(2) p q by (simp_all add: Let_def)
  have "has_bits msk (BIT k) \<longleftrightarrow> i \<le> k \<and> k < i + length (c # cs) \<and> valid_seat (int k) ar" for k
  proof (cases "k = i")
    case True
    have "\<not> bit m i" using ih by (auto simp: has_bits_BIT)
    then show ?thesis using True 2(3) r(1) by (simp add: out has_bits_BIT bit_or_if bit_BIT)
  next
    case False
    have "has_bits msk (BIT k) = has_bits m (BIT k)" using False by (simp add: out has_bits_BIT bit_or_if bit_BIT)
    also have "\<dots> \<longleftrightarrow> Suc i \<le> k \<and> k < Suc i + length cs \<and> valid_seat (int k) ar1" using ih by blast
    finally show ?thesis using False valid_seat_same [OF r(2), of "int k"] by auto
  qed
  with ih out r(2,3) show ?case by (auto intro: same_seats_trans)
qed

definition seat_changes :: "nat \<Rightarrow> nat \<Rightarrow> (nat \<Rightarrow> bool) \<Rightarrow> (nat \<Rightarrow> bool) \<Rightarrow> bp_callback list" where
  "seat_changes i n was now = concat (map (\<lambda>k. if was k = now k then []
     else if now k then [Called_On_Connect k] else [Called_On_Disconnect k]) [i..<i + n])"

lemma onConnected_connected [simp]: "co_connected (onConnected ar c)"
  by (simp add: onConnected_def Let_def split: sum.split)

lemma notify_result:
  assumes "notify i now prev ar cs = (calls, cs')"
  shows "calls = seat_changes i (length cs) (\<lambda>k. has_bits prev (BIT k)) (\<lambda>k. has_bits now (BIT k)) \<and>
    length cs' = length cs \<and>
    (\<forall>j < length cs. co_connected (cs' ! j) = (if has_bits now (BIT (i + j)) = has_bits prev (BIT (i + j))
       then co_connected (cs ! j) else has_bits now (BIT (i + j))))"
  using assms
proof (induction i now prev ar cs arbitrary: calls cs' rule: notify.induct)
  case (1 i now prev ar)
  then show ?case by (simp add: seat_changes_def)
next
  case (2 i now prev ar c cs)
  obtain calls1 cs1 where q: "notify (Suc i) now prev ar cs = (calls1, cs1)" by fastforce
  have ih: "calls1 = seat_changes (Suc i) (length cs) (\<lambda>k. has_bits prev (BIT k)) (\<lambda>k. has_bits now (BIT k))"
    "length cs1 = length cs"
    "\<And>j. j < length cs \<Longrightarrow> co_connected (cs1 ! j) = (if has_bits now (BIT (Suc i + j)) = has_bits prev (BIT (Suc i + j))
       then co_connected (cs ! j) else has_bits now (BIT (Suc i + j)))"
    using 2(1) [OF q] by auto
  have u: "[i..<i + length (c # cs)] = i # [Suc i..<Suc i + length cs]" by (simp add: upt_conv_Cons del: upt_Suc)
  have calls: "calls = seat_changes i (length (c # cs)) (\<lambda>k. has_bits prev (BIT k)) (\<lambda>k. has_bits now (BIT k))"
    using 2(2) q ih(1) unfolding seat_changes_def u by (auto simp: Let_def split: if_splits)
  have "co_connected (cs' ! j) = (if has_bits now (BIT (i + j)) = has_bits prev (BIT (i + j))
       then co_connected ((c # cs) ! j) else has_bits now (BIT (i + j)))" if "j < length (c # cs)" for j
    using 2(2) q ih(3) that by (cases j) (auto simp: Let_def onDisconnected_def split: if_splits)
  with calls 2(2) q ih(2) show ?case by (auto simp: Let_def split: if_splits)
qed

text \<open>
  The poll of the sketch over a history of the bridge: \<open>taken\<close> is what \<open>update\<close> sees of it.
\<close>

definition taken :: "arduino \<Rightarrow> nat \<Rightarrow> bool" where
  "taken ar i = valid_seat (int i) ar"

fun run_updates :: "arduino list \<Rightarrow> bluepad32 \<Rightarrow> bp_callback list \<times> bluepad32" where
  "run_updates [] bp = ([], bp)"
| "run_updates (ar # ars) bp =
     (let (u, calls, bp1, ar1) = Bluepad32_update bp ar; (rest, bp2) = run_updates ars bp1
      in (calls @ rest, bp2))"

fun callbacks :: "nat \<Rightarrow> (nat \<Rightarrow> bool) \<Rightarrow> arduino list \<Rightarrow> bp_callback list" where
  "callbacks n was [] = []"
| "callbacks n was (ar # ars) = seat_changes 0 n was (taken ar) @ callbacks n (taken ar) ars"

definition objects_track :: "nat \<Rightarrow> (nat \<Rightarrow> bool) \<Rightarrow> bluepad32 \<Rightarrow> bool" where
  "objects_track n was bp \<longleftrightarrow> n \<le> 32 \<and> length (bp_controllers bp) = n \<and>
     (\<forall>i < n. has_bits (bp_prev bp) (BIT i) = was i \<and> co_connected (bp_controllers bp ! i) = was i) \<and>
     (\<forall>i \<ge> n. \<not> has_bits (bp_prev bp) (BIT i))"

lemma seat_changes_cong:
  "(\<And>k. k < n \<Longrightarrow> was k = was' k) \<Longrightarrow> (\<And>k. k < n \<Longrightarrow> now k = now' k) \<Longrightarrow>
   seat_changes 0 n was now = seat_changes 0 n was' now'"
  unfolding seat_changes_def by (intro arg_cong [where f = concat] map_cong) auto

lemma seat_changes_same [simp]: "seat_changes i n f f = []"
  by (simp add: seat_changes_def)

lemma update_result:
  assumes t: "objects_track n was bp" and u: "Bluepad32_update bp ar = (upd, calls, bp', ar')"
  shows "calls = seat_changes 0 n was (taken ar) \<and> objects_track n (taken ar) bp'"
proof -
  obtain now up cs ar1 where p: "poll_seats 0 (bp_controllers bp) ar = (now, up, cs, ar1)" by (metis prod_cases4)
  have n: "n \<le> 32" "length (bp_controllers bp) = n" using t by (simp_all add: objects_track_def)
  have r: "length cs = n" "map co_connected cs = map co_connected (bp_controllers bp)"
    "\<And>k. has_bits now (BIT k) \<longleftrightarrow> k < n \<and> taken ar k"
    using poll_seats_result [OF p] n by (auto simp: taken_def)
  have conn: "co_connected (cs ! i) = was i" if "i < n" for i
    using arg_cong [OF r(2), of "\<lambda>xs. xs ! i"] that r(1) t n by (simp add: objects_track_def)
  show ?thesis
  proof (cases "now = bp_prev bp")
    case True
    then have same: "k < n \<Longrightarrow> was k = taken ar k" for k using r(3) [of k] t by (simp add: objects_track_def)
    have "seat_changes 0 n was (taken ar) = seat_changes 0 n (taken ar) (taken ar)"
      by (rule seat_changes_cong) (simp_all add: same)
    with True u p t same conn n r(1) show ?thesis
      by (auto simp: Bluepad32_update_def Let_def objects_track_def)
  next
    case False
    obtain cl cs' where q: "notify 0 now (bp_prev bp) ar1 cs = (cl, cs')" by fastforce
    note nr = notify_result [OF q, unfolded r(1)]
    have out: "calls = cl" "bp' = bp\<lparr>bp_controllers := cs', bp_prev := now\<rparr>"
      using u p q False by (simp_all add: Bluepad32_update_def Let_def)
    have "cl = seat_changes 0 n was (taken ar)"
      using nr t r(3) by (simp add: objects_track_def) (rule seat_changes_cong, auto simp: objects_track_def)
    moreover have "co_connected (cs' ! i) = taken ar i" if "i < n" for i
      using nr that conn [OF that] r(3) [of i] t by (auto simp: objects_track_def)
    ultimately show ?thesis using out nr n r(3) by (simp add: objects_track_def)
  qed
qed

lemma run_updates_result:
  assumes "objects_track n was bp" "run_updates ars bp = (calls, bp')"
  shows "calls = callbacks n was ars \<and> objects_track n (if ars = [] then was else taken (last ars)) bp'"
  using assms
proof (induction ars arbitrary: was bp calls bp')
  case Nil
  then show ?case by simp
next
  case (Cons ar ars)
  obtain u c1 bp1 ar1 where s: "Bluepad32_update bp ar = (u, c1, bp1, ar1)" by (metis prod_cases4)
  obtain c2 bp2 where r: "run_updates ars bp1 = (c2, bp2)" by fastforce
  note step = update_result [OF Cons.prems(1) s]
  from Cons.IH [OF conjunct2 [OF step] r] step Cons.prems(2) s r
  show ?case by (auto simp: Let_def)
qed

lemma new_tracks: "n \<le> 32 \<Longrightarrow> objects_track n (\<lambda>i. False) (Bluepad32_new n)"
  by (simp add: objects_track_def Bluepad32_new_def Controller_new_def has_bits_BIT)

section \<open>Properties\<close>

text \<open>
  C13: The seats of the bridge over any sequence of connections, ready devices, disconnections,
  data, requests and polls: the counter is the number of seats taken; a taken seat carries its own
  index and belongs to exactly one live device; a live device has no seat or the one it names.
\<close>

theorem bridge_seats:
  assumes "admissible bridge_step (bridge_ok n) es (bridge_init n)"
  shows "\<exists>b. run_steps bridge_step es (bridge_init n) = Some b \<and>
    ar_used (br_arduino b) = int (seats_taken (br_arduino b)) \<and>
    (\<forall>i < n. taken (br_arduino b) i \<longrightarrow> ac_idx (ar_controllers (br_arduino b) ! i) = int i \<and>
       (\<exists>!d. d < n \<and> br_live b ! d \<and> ar_instance (br_arduino b) ! d = int i)) \<and>
    (\<forall>d < n. br_live b ! d \<longrightarrow> ar_instance (br_arduino b) ! d = GAMEPAD_INVALID \<or>
       (\<exists>i < n. ar_instance (br_arduino b) ! d = int i \<and> taken (br_arduino b) i))"
proof -
  obtain b where b: "run_steps bridge_step es (bridge_init n) = Some b" and inv: "bridge_inv n b"
    using bridge.run_law [OF bridge_init_inv assms] by blast
  have taken: "taken (br_arduino b) i \<longleftrightarrow> ac_idx (ar_controllers (br_arduino b) ! i) \<noteq> GAMEPAD_INVALID"
    if "i < n" for i using that bridge_invD(1) [OF inv] by (simp add: taken_def valid_seat_def)
  have "ac_idx (ar_controllers (br_arduino b) ! i) = int i \<and>
       (\<exists>!d. d < n \<and> br_live b ! d \<and> ar_instance (br_arduino b) ! d = int i)"
    if i: "i < n" "taken (br_arduino b) i" for i
  proof -
    from bridge_invD(5) [OF inv i(1)] taken [OF i(1)] i(2)
    obtain d where d: "d < n" "br_live b ! d" "ar_instance (br_arduino b) ! d = int i"
      "ac_idx (ar_controllers (br_arduino b) ! i) = int i" by auto
    have "e = d" if "e < n" "br_live b ! e" "ar_instance (br_arduino b) ! e = int i" for e
      by (rule bridge_invD(7) [OF inv that(1) d(1) that(2) d(2)]) (simp_all add: that(3) d(3))
    with d show ?thesis by blast
  qed
  moreover have "ar_instance (br_arduino b) ! d = GAMEPAD_INVALID \<or>
       (\<exists>i < n. ar_instance (br_arduino b) ! d = int i \<and> taken (br_arduino b) i)"
    if "d < n" "br_live b ! d" for d
    using bridge_invD(6) [OF inv that] taken by auto
  ultimately show ?thesis using b bridge_invD(4) [OF inv] by blast
qed

definition two_pads :: "bridge_event list" where
  "two_pads = [Br_Cleared 2, Br_Connected 2, Br_Ready 2 hd_zero, Br_Connected 0, Br_Ready 0 hd_zero,
     Br_Request (CMD_PLAYER_LEDS 3) 1, Br_Disconnected 2, Br_Connected 1, Br_Ready 1 hd_zero]"

lemma two_pads_admissible: "admissible bridge_step (bridge_ok 4) two_pads (bridge_init 4)"
  by code_simp

theorem bridge_seats_witness:
  "\<exists>b. run_steps bridge_step two_pads (bridge_init 4) = Some b \<and>
     ar_used (br_arduino b) = int (seats_taken (br_arduino b))"
  using bridge_seats [OF two_pads_admissible] by blast

text \<open>
  A device that becomes ready on a reachable bridge is declined when all seats are taken,
  refused when it has a seat, and otherwise gets the lowest free seat: its properties are the
  device's, its player LEDs show the seat plus one, and no other seat changes.
\<close>

theorem ready_gets_lowest_seat:
  assumes "admissible bridge_step (bridge_ok n) es (bridge_init n)"
    "run_steps bridge_step es (bridge_init n) = Some b" "d < n"
    "arduino_on_device_ready d h (br_arduino b) = (st, calls, ar)"
  shows "case st of
      READY_NO_SLOTS \<Rightarrow> (\<forall>i < n. taken (br_arduino b) i) \<and> calls = [] \<and> ar = br_arduino b
    | READY_INVALID_CONTROLLER \<Rightarrow> ar_instance (br_arduino b) ! d \<noteq> GAMEPAD_INVALID \<and> calls = [] \<and> ar = br_arduino b
    | READY_SUCCESS \<Rightarrow> (\<exists>i < n. \<not> taken (br_arduino b) i \<and> (\<forall>j < i. taken (br_arduino b) j) \<and>
        taken ar i \<and> ar_instance ar ! d = int i \<and>
        ac_properties (ar_controllers ar ! i) = seat_properties h \<and>
        calls = (if pt_set_player_leds (hd_report_parser h) \<noteq> None then [Set_Player_Leds d (u8_of (int i + 1))] else []) \<and>
        (\<forall>j < n. j \<noteq> i \<longrightarrow> ar_controllers ar ! j = ar_controllers (br_arduino b) ! j))"
proof -
  have inv: "bridge_inv n b" using bridge.run_law [OF bridge_init_inv assms(1)] assms(2) by auto
  note l = bridge_invD(1-4) [OF inv]
  have taken: "taken (br_arduino b) i \<longleftrightarrow> ac_idx (ar_controllers (br_arduino b) ! i) \<noteq> GAMEPAD_INVALID"
    if "i < n" for i using that l(1) by (simp add: taken_def valid_seat_def)
  have full: "taken (br_arduino b) i" if "seats_taken (br_arduino b) = n" "i < n" for i
  proof (rule ccontr)
    assume "\<not> taken (br_arduino b) i"
    with that l(1) taken have "length (filter (\<lambda>c. ac_idx c \<noteq> GAMEPAD_INVALID) (ar_controllers (br_arduino b))) <
        length (ar_controllers (br_arduino b))"
      by (intro length_filter_less [of "ar_controllers (br_arduino b) ! i"]) auto
    with that(1) l(1) show False by (simp add: seats_taken_def)
  qed
  show ?thesis
  proof (cases "seats_taken (br_arduino b) = n \<or> ar_instance (br_arduino b) ! d \<noteq> GAMEPAD_INVALID")
    case True
    then show ?thesis using assms(4) full unfolding ready_cases [OF inv assms(3)] by (auto split: if_splits)
  next
    case False
    obtain i where f: "find_index (\<lambda>c. ac_idx c = GAMEPAD_INVALID) (ar_controllers (br_arduino b)) = Some i"
      using free_seat [of "br_arduino b"] False l by auto
    have i: "i < n" "\<not> taken (br_arduino b) i" "\<And>j. j < i \<Longrightarrow> taken (br_arduino b) j"
      using find_index_Some [OF f] l(1) taken by auto
    have out: "st = READY_SUCCESS"
        "calls = (if pt_set_player_leds (hd_report_parser h) \<noteq> None then [Set_Player_Leds d (u8_of (int i + 1))] else [])"
        "ar = set_instance d (int i) ((br_arduino b)\<lparr>ar_used := ar_used (br_arduino b) + 1,
             ar_controllers := (ar_controllers (br_arduino b))[i := (ar_controllers (br_arduino b) ! i)
               \<lparr>ac_idx := int i, ac_properties := seat_properties h\<rparr>]\<rparr>)"
      using assms(4) False unfolding ready_cases [OF inv assms(3)] by (simp_all add: f Let_def)
    have "taken ar i" using i(1) l(1) by (simp add: out(3) taken_def valid_seat_def set_instance_def)
    moreover have "ar_instance ar ! d = int i" "ac_properties (ar_controllers ar ! i) = seat_properties h"
      "\<And>j. j < n \<Longrightarrow> j \<noteq> i \<Longrightarrow> ar_controllers ar ! j = ar_controllers (br_arduino b) ! j"
      using i(1) l assms(3) by (simp_all add: out(3) set_instance_def)
    ultimately show ?thesis using i out(1,2) by auto
  qed
qed

definition led_pad :: hid_device where
  "led_pad = hd_zero\<lparr>hd_report_parser := parser_for TYPE_PS5Controller False\<rparr>"

theorem ready_gets_lowest_seat_witness:
  "\<exists>b calls ar. run_steps bridge_step (two_pads @ [Br_Connected 3]) (bridge_init 4) = Some b \<and>
     arduino_on_device_ready 3 led_pad (br_arduino b) = (READY_SUCCESS, calls, ar) \<and> calls = [Set_Player_Leds 3 3] \<and>
     ar_instance ar ! 3 = 2"
proof -
  have adm: "admissible bridge_step (bridge_ok 4) (two_pads @ [Br_Connected 3]) (bridge_init 4)" by code_simp
  obtain b where b: "run_steps bridge_step (two_pads @ [Br_Connected 3]) (bridge_init 4) = Some b"
    using bridge.run_law [OF bridge_init_inv adm] by blast
  obtain st calls ar where r: "arduino_on_device_ready 3 led_pad (br_arduino b) = (st, calls, ar)"
    by (metis prod_cases3)
  have "case run_steps bridge_step (two_pads @ [Br_Connected 3]) (bridge_init 4) of None \<Rightarrow> False
    | Some b \<Rightarrow> fst (arduino_on_device_ready 3 led_pad (br_arduino b)) = READY_SUCCESS \<and>
        taken (br_arduino b) 0 \<and> taken (br_arduino b) 1 \<and> \<not> taken (br_arduino b) 2" by code_simp
  then have s: "st = READY_SUCCESS" "taken (br_arduino b) 0" "taken (br_arduino b) 1" "\<not> taken (br_arduino b) 2"
    by (simp_all add: b r)
  have lp: "pt_set_player_leds (hd_report_parser led_pad) \<noteq> None" by code_simp
  from ready_gets_lowest_seat [OF adm b _ r] s(1) lp obtain i where
    i: "\<not> taken (br_arduino b) i" "\<forall>j < i. taken (br_arduino b) j" "ar_instance ar ! 3 = int i"
      "calls = [Set_Player_Leds 3 (u8_of (int i + 1))]" by auto
  have "\<not> 2 < i" using i(2) s(4) by blast
  moreover have "i \<noteq> 0" "i \<noteq> 1" using i(1) s(2,3) by metis+
  ultimately have "i = 2" by linarith
  with i b r s(1) show ?thesis by (simp add: u8_of_def)
qed

text \<open>
  C14: The sketch's view. Over any history of the bridge, polled once per entry, \<open>update\<close> calls the
  connect callback exactly for the seats that were taken since the poll before, the disconnect
  callback exactly for those given up, in the order of the seats, and afterwards a controller object
  is connected iff its seat is taken.
\<close>

theorem update_callbacks:
  assumes "n \<le> 32" "run_updates (ars @ [ar]) (Bluepad32_new n) = (calls, bp)"
  shows "calls = callbacks n (\<lambda>i. False) (ars @ [ar]) \<and>
    (\<forall>i < n. co_connected (bp_controllers bp ! i) = taken ar i)"
  using run_updates_result [OF new_tracks [OF assms(1)] assms(2)] by (simp add: objects_track_def)

theorem update_callbacks_witness:
  "case run_steps bridge_step (take 3 two_pads) (bridge_init 4) of None \<Rightarrow> False
   | Some b \<Rightarrow> fst (run_updates [arduino_init 4, br_arduino b] (Bluepad32_new 4)) = [Called_On_Connect 0]"
proof -
  have "callbacks 4 (\<lambda>i. False) ([arduino_init 4] @ [a]) = [Called_On_Connect 0]"
    if "run_steps bridge_step (take 3 two_pads) (bridge_init 4) = Some b" "a = br_arduino b" for a b
  proof -
    have "case run_steps bridge_step (take 3 two_pads) (bridge_init 4) of None \<Rightarrow> False
     | Some b \<Rightarrow> callbacks 4 (\<lambda>i. False) [arduino_init 4, br_arduino b] = [Called_On_Connect 0]" by code_simp
    with that show ?thesis by simp
  qed
  moreover have "run_steps bridge_step (take 3 two_pads) (bridge_init 4) \<noteq> None" by code_simp
  ultimately show ?thesis
    using update_callbacks [of 4 "[arduino_init 4]"] by (auto split: option.split) (metis prod.collapse)
qed

text \<open>
  Requests of the sketch come out in order: when every request names a seat of a ready device,
  draining the queue performs all of them, oldest first, and empties it; the first request for a
  seat without a device ends the drain, is dropped, and leaves exactly the requests behind it.
\<close>

theorem pending_requests_fifo:
  assumes "ar_queue ar = done @ rest" "\<forall>r \<in> set done. arduino_device ar s (uint (rq_idx r)) \<noteq> None"
    "rest = [] \<or> arduino_device ar s (uint (rq_idx (hd rest))) = None"
  shows "process_pending_requests s ar =
    (concat (map (\<lambda>r. perform s (the (arduino_device ar s (uint (rq_idx r)))) (rq_cmd r)) done),
     ar\<lparr>ar_queue := tl rest\<rparr>)"
proof -
  have "process_loop ar s (done @ rest) =
    (concat (map (\<lambda>r. perform s (the (arduino_device ar s (uint (rq_idx r)))) (rq_cmd r)) done), tl rest)"
    using assms(2,3)
  proof (induction "done")
    case Nil
    then show ?case by (cases rest) auto
  next
    case (Cons r rs)
    then show ?case by (auto simp: Let_def)
  qed
  then show ?thesis by (simp add: process_pending_requests_def assms(1))
qed

definition waiting_requests :: arduino where
  "waiting_requests = (arduino_init 2)\<lparr>ar_queue := [\<lparr>rq_idx = 0, rq_cmd = CMD_DISCONNECT\<rparr>,
     \<lparr>rq_idx = 7, rq_cmd = CMD_DISCONNECT\<rparr>, \<lparr>rq_idx = 0, rq_cmd = CMD_PLAYER_LEDS 1\<rparr>]\<rparr>"

theorem pending_requests_fifo_witness:
  "process_pending_requests ready_device waiting_requests =
     ([Disconnect_Later 0], waiting_requests\<lparr>ar_queue := [\<lparr>rq_idx = 0, rq_cmd = CMD_PLAYER_LEDS 1\<rparr>]\<rparr>)"
proof -
  have "ar_queue waiting_requests = [\<lparr>rq_idx = 0, rq_cmd = CMD_DISCONNECT\<rparr>] @
      [\<lparr>rq_idx = 7, rq_cmd = CMD_DISCONNECT\<rparr>, \<lparr>rq_idx = 0, rq_cmd = CMD_PLAYER_LEDS 1\<rparr>]"
    by (simp add: waiting_requests_def)
  moreover have "arduino_device waiting_requests ready_device (uint (0 :: u8)) = Some 0"
    "arduino_device waiting_requests ready_device (uint (7 :: u8)) = None" by code_simp+
  ultimately show ?thesis
    using pending_requests_fifo [of waiting_requests "[\<lparr>rq_idx = 0, rq_cmd = CMD_DISCONNECT\<rparr>]"
        "[\<lparr>rq_idx = 7, rq_cmd = CMD_DISCONNECT\<rparr>, \<lparr>rq_idx = 0, rq_cmd = CMD_PLAYER_LEDS 1\<rparr>]" ready_device]
    by (simp add: perform_def Let_def)
qed

end
