(* ===== verification/Control_Inputs.thy ===== *)
theory Control_Inputs
  imports Arduino_Platform Binary32
begin

text \<open>
  \<^verbatim>\<open>main/control_inputs.cpp\<close>: the named inputs of a gamepad, their normalisation, the activity test
  and the detection of the input a user is moving.

  A \<open>ControllerPtr\<close> is an optional controller object. The getters of \<^verbatim>\<open>ArduinoController.h\<close> that the
  program uses are modelled for controllers whose data is a gamepad's: \<open>onConnectedController\<close> lets
  no other class in.
\<close>

section \<open>Definitions\<close>

type_synonym controller_ptr = "arduino_object option"

datatype input_kind = Centered | Positive | Digital

datatype input_id = In_None | AxisX | AxisY | AxisRX | AxisRY | Throttle | Brake | ButtonA | ButtonB
  | ButtonX | ButtonY | ButtonL1 | ButtonR1 | ButtonL2 | ButtonR2 | ButtonStart | ButtonSelect
  | DpadUp | DpadDown | DpadLeft | DpadRight | In_Other u8

text \<open>\<open>In_Other\<close>: a stored byte beyond the enumeration, which the casts let through.\<close>

record input_definition =
  in_id :: input_id
  in_label :: string
  in_kind :: input_kind

definition kInputs :: "input_definition list" where
  "kInputs = map (\<lambda>(i, l, k). \<lparr>in_id = i, in_label = l, in_kind = k\<rparr>)
    [(AxisX, ''Axis X (left stick LR)'', Centered), (AxisY, ''Axis Y (left stick UD)'', Centered),
     (AxisRX, ''Axis RX (right stick LR)'', Centered), (AxisRY, ''Axis RY (right stick UD)'', Centered),
     (Throttle, ''RT trigger'', Positive), (Brake, ''LT trigger'', Positive),
     (ButtonA, ''Button A'', Digital), (ButtonB, ''Button B'', Digital), (ButtonX, ''Button X'', Digital),
     (ButtonY, ''Button Y'', Digital), (ButtonL1, ''Button LB'', Digital), (ButtonR1, ''Button RB'', Digital),
     (ButtonL2, ''Button L2'', Digital), (ButtonR2, ''Button R2'', Digital),
     (ButtonStart, ''Button Start'', Digital), (ButtonSelect, ''Button Select'', Digital),
     (DpadUp, ''D-pad Up'', Digital), (DpadDown, ''D-pad Down'', Digital),
     (DpadLeft, ''D-pad Left'', Digital), (DpadRight, ''D-pad Right'', Digital)]"

definition getInputDefinition :: "input_id \<Rightarrow> input_definition option" where
  "getInputDefinition i = find (\<lambda>d. in_id d = i) kInputs"

definition ctl_buttons :: "arduino_object \<Rightarrow> u16" where
  "ctl_buttons c = (if klass (co_data c) = CLASS_GAMEPAD then buttons (gamepad (co_data c))
     else if klass (co_data c) = CLASS_MOUSE then mouse_buttons (mouse (co_data c)) else 0)"

definition ctl_misc_buttons :: "arduino_object \<Rightarrow> u8" where
  "ctl_misc_buttons c = (if klass (co_data c) = CLASS_GAMEPAD then misc_buttons (gamepad (co_data c))
     else if klass (co_data c) = CLASS_MOUSE then mouse_misc_buttons (mouse (co_data c)) else 0)"

definition pressed :: "bool \<Rightarrow> rat" where
  "pressed b = (if b then 1 else 0)"

definition axis_value :: "int \<Rightarrow> rat" where
  "axis_value v = constrain (f_div (f_of_int v) (f_of_int 512)) (- 1) 1"

definition trigger_value :: "int \<Rightarrow> rat" where
  "trigger_value v = constrain (f_div (f_of_int v) (f_of_int 1023)) 0 1"

fun normalized :: "input_id \<Rightarrow> arduino_object \<Rightarrow> rat" where
  "normalized AxisX c = axis_value (axis_x (gamepad (co_data c)))"
| "normalized AxisY c = axis_value (axis_y (gamepad (co_data c)))"
| "normalized AxisRX c = axis_value (axis_rx (gamepad (co_data c)))"
| "normalized AxisRY c = axis_value (axis_ry (gamepad (co_data c)))"
| "normalized Throttle c = trigger_value (throttle (gamepad (co_data c)))"
| "normalized Brake c = trigger_value (brake (gamepad (co_data c)))"
| "normalized ButtonA c = pressed (has_bits (ctl_buttons c) BUTTON_A)"
| "normalized ButtonB c = pressed (has_bits (ctl_buttons c) BUTTON_B)"
| "normalized ButtonX c = pressed (has_bits (ctl_buttons c) BUTTON_X)"
| "normalized ButtonY c = pressed (has_bits (ctl_buttons c) BUTTON_Y)"
| "normalized ButtonL1 c = pressed (has_bits (ctl_buttons c) BUTTON_SHOULDER_L)"
| "normalized ButtonR1 c = pressed (has_bits (ctl_buttons c) BUTTON_SHOULDER_R)"
| "normalized ButtonL2 c = pressed (has_bits (ctl_buttons c) BUTTON_TRIGGER_L)"
| "normalized ButtonR2 c = pressed (has_bits (ctl_buttons c) BUTTON_TRIGGER_R)"
| "normalized ButtonStart c = pressed (has_bits (ctl_misc_buttons c) MISC_BUTTON_START)"
| "normalized ButtonSelect c = pressed (has_bits (ctl_misc_buttons c) MISC_BUTTON_SELECT)"
| "normalized DpadUp c = pressed (has_bits (dpad (gamepad (co_data c))) 0x01)"
| "normalized DpadDown c = pressed (has_bits (dpad (gamepad (co_data c))) 0x02)"
| "normalized DpadLeft c = pressed (has_bits (dpad (gamepad (co_data c))) 0x08)"
| "normalized DpadRight c = pressed (has_bits (dpad (gamepad (co_data c))) 0x04)"
| "normalized In_None c = 0"
| "normalized (In_Other k) c = 0"

definition normalizedForInput :: "input_id \<Rightarrow> controller_ptr \<Rightarrow> rat" where
  "normalizedForInput i ctl = (case ctl of None \<Rightarrow> 0 | Some c \<Rightarrow> normalized i c)"

definition isInputActive :: "input_id \<Rightarrow> controller_ptr \<Rightarrow> bool" where
  "isInputActive i ctl =
     (if i = In_None \<or> ctl = None then False
      else case getInputDefinition i of
        None \<Rightarrow> False
      | Some d \<Rightarrow>
          let n = normalizedForInput i ctl
          in if in_kind d = Digital then n \<ge> 1 / 2
             else (if in_kind d = Centered then \<bar>n\<bar> else n) \<ge> 1 / 2)"

text \<open>The literals \<open>0.15f\<close> and \<open>0.25f\<close> are rounded to binary32.\<close>

definition candidates :: "(input_id \<times> rat \<times> bool) list" where
  "candidates = [(ButtonA, 1 / 2, False), (ButtonB, 1 / 2, False), (ButtonX, 1 / 2, False),
     (ButtonY, 1 / 2, False), (ButtonL1, 1 / 2, False), (ButtonR1, 1 / 2, False),
     (ButtonStart, 1 / 2, False), (ButtonSelect, 1 / 2, False), (DpadUp, 1 / 2, False),
     (DpadDown, 1 / 2, False), (DpadLeft, 1 / 2, False), (DpadRight, 1 / 2, False),
     (Throttle, f32 (15 / 100), False), (Brake, f32 (15 / 100), False), (AxisX, 1 / 4, True),
     (AxisY, 1 / 4, True), (AxisRX, 1 / 4, True), (AxisRY, 1 / 4, True)]"

definition strength :: "controller_ptr \<Rightarrow> input_id \<times> rat \<times> bool \<Rightarrow> rat" where
  "strength ctl c = (case c of (i, threshold, abs_value) \<Rightarrow>
     let v = normalizedForInput i ctl in if abs_value then \<bar>v\<bar> else v)"

fun dominant_loop :: "controller_ptr \<Rightarrow> (input_id \<times> rat \<times> bool) list \<Rightarrow> input_id \<Rightarrow> rat \<Rightarrow> input_id" where
  "dominant_loop ctl [] best best_val = best"
| "dominant_loop ctl (c # cs) best best_val =
     (let v = strength ctl c
      in if v \<ge> fst (snd c) \<and> v > best_val then dominant_loop ctl cs (fst c) v
         else dominant_loop ctl cs best best_val)"

definition detectDominantInput :: "controller_ptr \<Rightarrow> input_id" where
  "detectDominantInput ctl = (if ctl = None then In_None else dominant_loop ctl candidates In_None 0)"

section \<open>Lemmas\<close>

lemma getInputDefinition_kind:
  "getInputDefinition i = None \<longleftrightarrow> i = In_None \<or> (\<exists>k. i = In_Other k)"
  "getInputDefinition i = Some d \<Longrightarrow> in_id d = i \<and>
     in_kind d = (if i \<in> {AxisX, AxisY, AxisRX, AxisRY} then Centered
       else if i \<in> {Throttle, Brake} then Positive else Digital)"
  by (cases i; simp add: getInputDefinition_def kInputs_def)
     (cases i; auto simp: getInputDefinition_def kInputs_def)

lemma axis_value_range: "- 1 \<le> axis_value v \<and> axis_value v \<le> 1"
  by (simp add: axis_value_def)

lemma trigger_value_range: "0 \<le> trigger_value v \<and> trigger_value v \<le> 1"
  by (simp add: trigger_value_def)

lemma pressed_range [simp]: "0 \<le> pressed b" "pressed b \<le> 1" "(1 / 2 \<le> pressed b) = b" "(pressed b = 0) = (\<not> b)"
  by (auto simp: pressed_def)

lemma normalized_unit: "\<bar>normalizedForInput i ctl\<bar> \<le> 1"
proof (cases ctl)
  case None
  then show ?thesis by (simp add: normalizedForInput_def)
next
  case (Some c)
  then show ?thesis using axis_value_range trigger_value_range
    by (cases i) (auto simp: normalizedForInput_def abs_le_iff intro: order_trans [of _ 0])
qed

lemma axis_value_exact: "\<bar>v\<bar> \<le> 512 \<Longrightarrow> axis_value v = of_int v / 512"
proof -
  assume v: "\<bar>v\<bar> \<le> 512"
  then have "f_of_int v = of_int v" "f_of_int 512 = 512" by (simp_all add: f_of_int_exact)
  moreover have "f32 (of_int v / 2 ^ 9) = of_int v / 2 ^ 9" using v by (intro f32_exact) simp_all
  moreover have "\<bar>of_int v :: rat\<bar> \<le> 512" using v by (metis of_int_abs of_int_le_numeral_iff)
  ultimately show ?thesis by (simp add: axis_value_def f_div_def constrain_def abs_le_iff)
qed

text \<open>
  Every input is normalised: centred ones to [-1, 1], triggers to [0, 1], digital ones to 0 or 1;
  a stick within its documented range is reported exactly as its share of 512; the result grows
  with the raw value. Without a controller everything reads 0.
\<close>

theorem normalized_inputs:
  "\<bar>normalizedForInput i ctl\<bar> \<le> 1 \<and>
   (case getInputDefinition i of None \<Rightarrow> normalizedForInput i ctl = 0
    | Some d \<Rightarrow> (case in_kind d of
        Centered \<Rightarrow> (\<exists>v. normalizedForInput i ctl = (if ctl = None then 0 else axis_value v))
      | Positive \<Rightarrow> 0 \<le> normalizedForInput i ctl
      | Digital \<Rightarrow> normalizedForInput i ctl \<in> {0, 1})) \<and>
   axis_value 512 = 1 \<and> axis_value (- 512) = - 1 \<and> axis_value 0 = 0 \<and>
   mono axis_value \<and> mono trigger_value \<and> trigger_value 1023 = 1 \<and> trigger_value 0 = 0"
proof -
  have m: "mono f" if "\<And>x y. x \<le> y \<Longrightarrow> f x \<le> f y" for f :: "int \<Rightarrow> rat" using that by (rule monoI)
  have fi: "x \<le> y \<Longrightarrow> f_of_int x \<le> f_of_int y" for x y by (simp add: f_of_int_def f32_mono)
  have n: "f_of_int 512 = 512" "f_of_int 1023 = 1023" "f_of_int 0 = 0" by (simp_all add: f_of_int_exact)
  have "mono axis_value" "mono trigger_value"
    by (rule m, unfold axis_value_def trigger_value_def f_div_def n,
        intro constrain_mono f32_mono divide_right_mono fi; simp)+
  moreover have "axis_value 512 = 1" "axis_value (- 512) = - 1" "axis_value 0 = 0" by (simp_all add: axis_value_exact)
  moreover have "trigger_value 1023 = 1" "trigger_value 0 = 0"
    by (simp_all add: trigger_value_def f_div_def n f32.one f32.zero)
  moreover have "case getInputDefinition i of None \<Rightarrow> normalizedForInput i ctl = 0
    | Some d \<Rightarrow> (case in_kind d of
        Centered \<Rightarrow> (\<exists>v. normalizedForInput i ctl = (if ctl = None then 0 else axis_value v))
      | Positive \<Rightarrow> 0 \<le> normalizedForInput i ctl
      | Digital \<Rightarrow> normalizedForInput i ctl \<in> {0, 1})"
    using getInputDefinition_kind [of i] trigger_value_range
    by (cases i; cases ctl) (auto simp: normalizedForInput_def pressed_def split: option.split input_kind.split)
  ultimately show ?thesis using normalized_unit by blast
qed

definition reaches :: "controller_ptr \<Rightarrow> input_id \<times> rat \<times> bool \<Rightarrow> bool" where
  "reaches ctl c \<longleftrightarrow> fst (snd c) \<le> strength ctl c"

definition strongest :: "controller_ptr \<Rightarrow> (input_id \<times> rat \<times> bool) list \<Rightarrow> input_id \<times> rat \<times> bool \<Rightarrow>
    (input_id \<times> rat \<times> bool) list \<Rightarrow> bool" where
  "strongest ctl pre c post \<longleftrightarrow> reaches ctl c \<and>
     (\<forall>d \<in> set pre. reaches ctl d \<longrightarrow> strength ctl d < strength ctl c) \<and>
     (\<forall>d \<in> set post. reaches ctl d \<longrightarrow> strength ctl d \<le> strength ctl c)"

lemma dominant_loop_result:
  "(\<forall>c \<in> set cs. reaches ctl c \<longrightarrow> strength ctl c \<le> b) \<and> dominant_loop ctl cs i b = i \<or>
    (\<exists>pre c post. cs = pre @ c # post \<and> dominant_loop ctl cs i b = fst c \<and> b < strength ctl c \<and>
       strongest ctl pre c post)"
proof (induction cs arbitrary: i b)
  case Nil
  then show ?case by simp
next
  case (Cons c cs)
  show ?case
  proof (cases "reaches ctl c \<and> strength ctl c > b")
    case True
    then have step: "dominant_loop ctl (c # cs) i b = dominant_loop ctl cs (fst c) (strength ctl c)"
      by (simp add: Let_def reaches_def)
    from Cons.IH [of "strength ctl c" "fst c"] show ?thesis
    proof (elim disjE conjE exE)
      assume "\<forall>d \<in> set cs. reaches ctl d \<longrightarrow> strength ctl d \<le> strength ctl c"
        "dominant_loop ctl cs (fst c) (strength ctl c) = fst c"
      then have "strongest ctl [] c cs" using True by (simp add: strongest_def)
      then show ?thesis using True step \<open>dominant_loop ctl cs (fst c) _ = fst c\<close>
        by (intro disjI2 exI [of _ "[]"] exI [of _ c] exI [of _ cs]) simp
    next
      fix pre e post
      assume e: "cs = pre @ e # post" "dominant_loop ctl cs (fst c) (strength ctl c) = fst e"
        "strength ctl c < strength ctl e" "strongest ctl pre e post"
      then have "strongest ctl (c # pre) e post" by (simp add: strongest_def)
      with e True step show ?thesis
        by (intro disjI2 exI [of _ "c # pre"] exI [of _ e] exI [of _ post]) simp
    qed
  next
    case False
    then have step: "dominant_loop ctl (c # cs) i b = dominant_loop ctl cs i b" by (auto simp: Let_def reaches_def)
    from Cons.IH [of b i] show ?thesis
    proof (elim disjE conjE exE)
      assume "\<forall>d \<in> set cs. reaches ctl d \<longrightarrow> strength ctl d \<le> b" "dominant_loop ctl cs i b = i"
      then show ?thesis using False step by (intro disjI1) auto
    next
      fix pre e post
      assume e: "cs = pre @ e # post" "dominant_loop ctl cs i b = fst e" "b < strength ctl e" "strongest ctl pre e post"
      then have "strongest ctl (c # pre) e post" using False by (auto simp: strongest_def)
      with e step show ?thesis
        by (intro disjI2 exI [of _ "c # pre"] exI [of _ e] exI [of _ post]) simp
    qed
  qed
qed

lemma threshold_pos: "c \<in> set candidates \<Longrightarrow> 0 < fst (snd c)"
proof -
  have "f32 (1 / 2 ^ 3) \<le> f32 (15 / 100)" by (rule f32_mono) simp
  then have "0 < f32 (15 / 100)" using f32_exact [of 1 3] by simp
  then show "c \<in> set candidates \<Longrightarrow> 0 < fst (snd c)" by (auto simp: candidates_def)
qed

text \<open>
  Learning an input. With a controller, the detected input is None when no candidate reaches
  its threshold; otherwise it is the first candidate, buttons before analog controls, among those of
  the greatest strength.
\<close>

theorem dominant_input_correct:
  "if \<forall>c \<in> set candidates. \<not> reaches (Some ctl) c then detectDominantInput (Some ctl) = In_None
   else \<exists>pre c post. candidates = pre @ c # post \<and> detectDominantInput (Some ctl) = fst c \<and>
     fst (snd c) \<le> strength (Some ctl) c \<and>
     (\<forall>d \<in> set pre. reaches (Some ctl) d \<longrightarrow> strength (Some ctl) d < strength (Some ctl) c) \<and>
     (\<forall>d \<in> set post. reaches (Some ctl) d \<longrightarrow> strength (Some ctl) d \<le> strength (Some ctl) c)"
proof -
  have "0 < strength (Some ctl) c" if "c \<in> set candidates" "reaches (Some ctl) c" for c
    using threshold_pos [OF that(1)] that(2) by (simp add: reaches_def)
  then have none: "\<forall>c \<in> set candidates. \<not> reaches (Some ctl) c"
    if "\<forall>c \<in> set candidates. reaches (Some ctl) c \<longrightarrow> strength (Some ctl) c \<le> 0"
    using that by (meson not_le)
  from dominant_loop_result [of candidates "Some ctl" 0 In_None] show ?thesis
  proof (elim disjE conjE exE)
    fix pre c post
    assume c: "candidates = pre @ c # post" "dominant_loop (Some ctl) candidates In_None 0 = fst c"
      "strongest (Some ctl) pre c post"
    have "c \<in> set candidates" unfolding c(1) by simp
    moreover have "reaches (Some ctl) c" using c(3) by (simp add: strongest_def)
    ultimately have "\<not> (\<forall>c \<in> set candidates. \<not> reaches (Some ctl) c)" by blast
    moreover have "detectDominantInput (Some ctl) = fst c" using c(2) by (simp add: detectDominantInput_def)
    ultimately show ?thesis using c(1,3) unfolding strongest_def reaches_def by (simp only: if_False) blast
  qed (use none in \<open>simp add: detectDominantInput_def\<close>)
qed

definition demo_pad :: arduino_object where
  "demo_pad = Controller_new\<lparr>co_connected := True, co_data := controller_zero\<lparr>klass := CLASS_GAMEPAD,
     gamepad := gamepad_zero\<lparr>axis_x := - 300, axis_y := 512, buttons := BUTTON_B\<rparr>\<rparr>\<rparr>"

theorem dominant_input_correct_witness: "detectDominantInput (Some demo_pad) \<noteq> In_None"
proof -
  have "(ButtonB, 1 / 2, False) \<in> set candidates" by (simp add: candidates_def)
  moreover have "strength (Some demo_pad) (ButtonB, 1 / 2, False) = 1"
    by (simp add: strength_def normalizedForInput_def ctl_buttons_def demo_pad_def pressed_def button_defs has_bits_BIT bit_BIT)
  ultimately have r: "\<not> (\<forall>c \<in> set candidates. \<not> reaches (Some demo_pad) c)" by (force simp: reaches_def)
  have "In_None \<notin> fst ` set candidates" by (simp add: candidates_def)
  moreover obtain pre c post where "candidates = pre @ c # post" "detectDominantInput (Some demo_pad) = fst c"
    using dominant_input_correct [of demo_pad] r by auto
  ultimately show ?thesis by (metis image_eqI in_set_conv_decomp)
qed

end
