(* ===== verification/Rc_Signal.thy ===== *)
theory Rc_Signal
  imports Control_Inputs
begin

text \<open>
  \<^verbatim>\<open>main/rc_model.cpp\<close>, first half: from the controller to the signals. A virtual input turns one or
  two inputs of the pad into a value between -1 and 1 (directly, or as a toggle of two or three
  positions); an output channel mixes up to three virtual inputs into a signal, from which the servo
  pulse or the level of a switch follows.

  \<open>powf\<close> is a parameter: C leaves its last bits to the mathematical library.
\<close>

section \<open>Configuration\<close>

datatype input_type = Direct | Toggle2Pos | Toggle3Pos
datatype toggle_range_mode = Unipolar | Bipolar
datatype modifier_function = Fn_None | Fn_Reverse | Fn_Center | Fn_Activate | Fn_Desactivate
datatype mix_mode = Mix_Add | Mix_Multiply
datatype pwm_failsafe_mode = Failsafe_Min | Failsafe_Center | Failsafe_Max
datatype channel_type = Channel_Pwm | Channel_Switch

record virtual_input =
  vi_used :: bool
  vi_primary :: input_id
  vi_secondary :: input_id
  vi_type :: input_type
  vi_range :: toggle_range_mode
  vi_rumble :: bool
  vi_modifier :: input_id
  vi_function :: modifier_function
  vi_deadzone :: int
  vi_expo :: int
  vi_name :: string

definition VirtualInputConfig :: virtual_input where
  "VirtualInputConfig = \<lparr>vi_used = False, vi_primary = In_None, vi_secondary = In_None,
     vi_type = Direct, vi_range = Bipolar, vi_rumble = False, vi_modifier = In_None,
     vi_function = Fn_None, vi_deadzone = 10, vi_expo = 0, vi_name = []\<rparr>"

record output_channel =
  oc_used :: bool
  oc_type :: channel_type
  oc_pin :: u8
  oc_inverted :: bool
  oc_threshold :: int
  oc_failsafe :: pwm_failsafe_mode
  oc_source_a :: int
  oc_source_b :: int
  oc_source_c :: int
  oc_mix :: mix_mode
  oc_weight_a :: int
  oc_weight_b :: int
  oc_weight_c :: int
  oc_offset_a :: int
  oc_offset_b :: int
  oc_offset_c :: int
  oc_name :: string

definition OutputChannelConfig :: output_channel where
  "OutputChannelConfig = \<lparr>oc_used = False, oc_type = Channel_Pwm, oc_pin = 0, oc_inverted = False,
     oc_threshold = 50, oc_failsafe = Failsafe_Center, oc_source_a = - 1, oc_source_b = - 1,
     oc_source_c = - 1, oc_mix = Mix_Multiply, oc_weight_a = 100, oc_weight_b = 0, oc_weight_c = 0,
     oc_offset_a = 0, oc_offset_b = 0, oc_offset_c = 0, oc_name = []\<rparr>"

definition kMaxVirtualInputs :: nat where "kMaxVirtualInputs = 16"
definition kMaxOutputChannels :: nat where "kMaxOutputChannels = 24"

section \<open>Virtual inputs\<close>

definition kRumbleGain :: rat where "kRumbleGain = f32 (26 / 10)"

definition scaleRumble :: "u8 \<Rightarrow> u8" where
  "scaleRumble x = u8_of (constrain (lroundf (f_mul (f_of_int (uint x)) kRumbleGain)) 0 255)"

definition applyDeadzoneSigned :: "rat \<Rightarrow> int \<Rightarrow> rat" where
  "applyDeadzoneSigned v deadzone_percent =
     (let dz = f_div (f_of_int (constrain deadzone_percent 0 95)) 100; a = \<bar>v\<bar>
      in if a \<le> dz then 0
         else let scaled = f_div (f_sub a dz) (f_sub 1 dz) in if v < 0 then - scaled else scaled)"

definition applyExpoSigned :: "(rat \<Rightarrow> rat \<Rightarrow> rat) \<Rightarrow> rat \<Rightarrow> int \<Rightarrow> rat" where
  "applyExpoSigned powf v expo_percent =
     (let e = f_div (f_of_int (constrain expo_percent 0 100)) 100
      in if e \<le> 0 then constrain v (- 1) 1
         else let power = f_add 1 (f_mul e 2);
                  a = powf \<bar>v\<bar> power
              in constrain (if v < 0 then - a else a) (- 1) 1)"

definition isInputEnabledByModifier :: "virtual_input \<Rightarrow> bool \<Rightarrow> bool" where
  "isInputEnabledByModifier i modifier_pressed =
     (if vi_modifier i = In_None then True
      else if vi_function i = Fn_Activate then modifier_pressed
      else if vi_function i = Fn_Desactivate then \<not> modifier_pressed
      else True)"

definition connected_ptr :: "controller_ptr \<Rightarrow> bool" where
  "connected_ptr ctl \<longleftrightarrow> (case ctl of None \<Rightarrow> False | Some c \<Rightarrow> co_connected c)"

definition pressed_or_none :: "input_id \<Rightarrow> controller_ptr \<Rightarrow> bool" where
  "pressed_or_none i ctl \<longleftrightarrow> (if i \<noteq> In_None then isInputActive i ctl else False)"

definition raw_value :: "virtual_input \<Rightarrow> controller_ptr \<Rightarrow> rat" where
  "raw_value i ctl =
     (let v = normalizedForInput (vi_primary i) ctl;
          v1 = (if vi_secondary i \<noteq> In_None then f_sub v (normalizedForInput (vi_secondary i) ctl) else v)
      in constrain v1 (- 1) 1)"

definition response :: "(rat \<Rightarrow> rat \<Rightarrow> rat) \<Rightarrow> virtual_input \<Rightarrow> rat \<Rightarrow> rat" where
  "response powf i v = constrain (applyExpoSigned powf (applyDeadzoneSigned v (vi_deadzone i)) (vi_expo i)) (- 1) 1"

definition evaluateVirtualInput :: "(rat \<Rightarrow> rat \<Rightarrow> rat) \<Rightarrow> virtual_input \<Rightarrow> controller_ptr \<Rightarrow> rat" where
  "evaluateVirtualInput powf i ctl =
     (if \<not> vi_used i \<or> vi_primary i = In_None \<or> \<not> connected_ptr ctl then 0
      else
        let v = raw_value i ctl;
            v1 = (if vi_function i = Fn_Reverse \<and> pressed_or_none (vi_modifier i) ctl then - v else v)
        in if \<not> isInputEnabledByModifier i (pressed_or_none (vi_modifier i) ctl) then 0
           else response powf i v1)"

subsection \<open>Toggles\<close>

text \<open>The entries of the seven file-level arrays that belong to one virtual input.\<close>

record toggle_state =
  tg_position :: int
  tg_primary_prev :: bool
  tg_secondary_prev :: bool
  tg_modifier_prev :: bool
  tg_direction :: int
  tg_direct_prev :: bool
  tg_last_rumble :: u32

definition next_cycle :: "toggle_state \<Rightarrow> toggle_state" where
  "next_cycle t =
     (let dir = (if tg_position t \<le> 0 then 1 else if tg_position t \<ge> 2 then - 1 else tg_direction t)
      in t\<lparr>tg_direction := dir, tg_position := to_i8 (constrain (tg_position t + dir) 0 2)\<rparr>)"

definition toggle_move :: "virtual_input \<Rightarrow> int \<Rightarrow> bool \<Rightarrow> bool \<Rightarrow> bool \<Rightarrow> toggle_state \<Rightarrow> toggle_state" where
  "toggle_move i positions primary_rise secondary_rise modifier_rise t =
     (if modifier_rise \<and> positions = 3 \<and> vi_function i = Fn_Center
      then t\<lparr>tg_position := 1, tg_direction := 1\<rparr>
      else if positions = 2 \<and> primary_rise
      then t\<lparr>tg_position := (if tg_position t = 0 then 1 else 0)\<rparr>
      else if positions = 3 \<and> vi_secondary i \<noteq> In_None
      then (if primary_rise \<and> \<not> secondary_rise then t\<lparr>tg_position := 2\<rparr>
            else if secondary_rise \<and> \<not> primary_rise then t\<lparr>tg_position := 0\<rparr> else t)
      else if primary_rise
      then (if positions = 2 then t\<lparr>tg_position := (if tg_position t = 0 then 1 else 0)\<rparr> else next_cycle t)
      else t)"

definition toggle_value :: "toggle_range_mode \<Rightarrow> int \<Rightarrow> int \<Rightarrow> rat" where
  "toggle_value rng positions pos =
     (if positions = 2 then (if rng = Bipolar then if pos \<noteq> 0 then 1 else - 1 else if pos \<noteq> 0 then 1 else 0)
      else if rng = Bipolar then f_of_int (pos - 1) else f_mul (f_of_int pos) (1 / 2))"

definition evaluateToggleVirtualInput ::
  "virtual_input \<Rightarrow> controller_ptr \<Rightarrow> int \<Rightarrow> toggle_state \<Rightarrow> rat \<times> toggle_state" where
  "evaluateToggleVirtualInput i ctl positions t =
     (if \<not> connected_ptr ctl then (0, t)
      else
        let primary = isInputActive (vi_primary i) ctl;
            primary_rise = (primary \<and> \<not> tg_primary_prev t);
            secondary = pressed_or_none (vi_secondary i) ctl;
            secondary_rise = (secondary \<and> \<not> tg_secondary_prev t);
            md = pressed_or_none (vi_modifier i) ctl;
            modifier_rise = (md \<and> \<not> tg_modifier_prev t);
            t1 = t\<lparr>tg_primary_prev := primary, tg_secondary_prev := secondary, tg_modifier_prev := md\<rparr>
        in if \<not> isInputEnabledByModifier i md then (0, t1)
           else let t2 = toggle_move i positions primary_rise secondary_rise modifier_rise t1
                in (toggle_value (vi_range i) positions (tg_position t2), t2))"

subsection \<open>One pass over the inputs\<close>

datatype rumble_request = Rumble u16 u8 u8

definition playInputRumble ::
  "u32 \<Rightarrow> u8 \<Rightarrow> u8 \<Rightarrow> u16 \<Rightarrow> toggle_state \<Rightarrow> rumble_request list \<times> toggle_state" where
  "playInputRumble now weak strong duration_ms t =
     (if now - tg_last_rumble t < 80 then ([], t)
      else ([Rumble duration_ms (scaleRumble weak) (scaleRumble strong)], t\<lparr>tg_last_rumble := now\<rparr>))"

definition rumble2 :: "u32 \<Rightarrow> toggle_state \<Rightarrow> rumble_request list \<times> toggle_state" where
  "rumble2 now t = (if tg_position t = 0 then playInputRumble now 0x80 0xC0 90 t
     else playInputRumble now 0xC0 0xFF 140 t)"

definition rumble3 :: "u32 \<Rightarrow> toggle_state \<Rightarrow> rumble_request list \<times> toggle_state" where
  "rumble3 now t = (if tg_position t = 0 then playInputRumble now 0x70 0xB0 80 t
     else if tg_position t = 1 then playInputRumble now 0xA0 0xE0 115 t
     else playInputRumble now 0xD0 0xFF 160 t)"

definition evaluate_input ::
  "(rat \<Rightarrow> rat \<Rightarrow> rat) \<Rightarrow> u32 \<Rightarrow> controller_ptr \<Rightarrow> virtual_input \<Rightarrow> toggle_state \<Rightarrow>
     rat \<times> toggle_state \<times> rumble_request list" where
  "evaluate_input powf now ctl i t =
     (if \<not> connected_ptr ctl
      then (0, t\<lparr>tg_primary_prev := False, tg_secondary_prev := False, tg_modifier_prev := False,
              tg_direct_prev := False\<rparr>, [])
      else if vi_type i = Toggle2Pos
      then let (v, t1) = evaluateToggleVirtualInput i ctl 2 t;
               (r, t2) = (if vi_rumble i \<and> tg_position t \<noteq> tg_position t1 then rumble2 now t1 else ([], t1))
           in (v, t2, r)
      else if vi_type i = Toggle3Pos
      then let (v, t1) = evaluateToggleVirtualInput i ctl 3 t;
               (r, t2) = (if vi_rumble i \<and> tg_position t \<noteq> tg_position t1 then rumble3 now t1 else ([], t1))
           in (v, t2, r)
      else
        let primary = isInputActive (vi_primary i) ctl;
            primary_rise = (primary \<and> \<not> tg_direct_prev t);
            t1 = t\<lparr>tg_direct_prev := primary, tg_primary_prev := False, tg_secondary_prev := False,
                   tg_modifier_prev := False, tg_direction := 1\<rparr>;
            v = evaluateVirtualInput powf i ctl;
            digital = (case getInputDefinition (vi_primary i) of None \<Rightarrow> False | Some d \<Rightarrow> in_kind d = Digital);
            (r, t2) = (if vi_rumble i \<and> digital \<and> primary_rise then playInputRumble now 0xB0 0xFF 120 t1
                       else ([], t1))
        in (v, t2, r))"

section \<open>Outputs\<close>

definition sourceValueByIndex :: "rat list \<Rightarrow> int \<Rightarrow> rat" where
  "sourceValueByIndex rt idx = (if idx < 0 \<or> idx \<ge> int kMaxVirtualInputs then 0 else rt ! nat idx)"

definition mix_term :: "rat list \<Rightarrow> int \<Rightarrow> int \<Rightarrow> int \<Rightarrow> rat" where
  "mix_term rt source weight offset =
     f_add (f_mul (sourceValueByIndex rt source) (f_div (f_of_int weight) 100)) (f_div (f_of_int offset) 100)"

definition multiply_terms :: "(bool \<times> rat) list \<Rightarrow> rat" where
  "multiply_terms ts = (if \<exists>t \<in> set ts. fst t then foldl (\<lambda>p (b, t). if b then f_mul p t else p) 1 ts else 0)"

definition mixed_value :: "rat list \<Rightarrow> output_channel \<Rightarrow> rat" where
  "mixed_value rt oc =
     (let tA = mix_term rt (oc_source_a oc) (oc_weight_a oc) (oc_offset_a oc);
          tB = mix_term rt (oc_source_b oc) (oc_weight_b oc) (oc_offset_b oc);
          tC = mix_term rt (oc_source_c oc) (oc_weight_c oc) (oc_offset_c oc)
      in if oc_mix oc = Mix_Multiply
         then multiply_terms [(oc_source_a oc \<ge> 0 \<or> oc_offset_a oc \<noteq> 0, tA),
                (oc_source_b oc \<ge> 0 \<or> oc_offset_b oc \<noteq> 0, tB), (oc_source_c oc \<ge> 0 \<or> oc_offset_c oc \<noteq> 0, tC)]
         else f_add (f_add tA tB) tC)"

definition evaluateOutputSignal :: "rat list \<Rightarrow> output_channel \<Rightarrow> rat" where
  "evaluateOutputSignal rt oc =
     (if \<not> oc_used oc then 0
      else let v = constrain (mixed_value rt oc) (- 1) 1 in if oc_inverted oc then - v else v)"

definition clampPwmUs :: "int \<Rightarrow> int" where
  "clampPwmUs us = constrain us 1000 2000"

definition applyPwmInvert :: "int \<Rightarrow> bool \<Rightarrow> int" where
  "applyPwmInvert us inverted = (if \<not> inverted then us else clampPwmUs (1000 + 2000 - us))"

definition pwmUsFromSignal :: "rat \<Rightarrow> int" where
  "pwmUsFromSignal n = lroundf (f_add 1500 (f_mul n (f_of_int 500)))"

definition pwmFromOutput :: "rat list \<Rightarrow> output_channel \<Rightarrow> int" where
  "pwmFromOutput rt oc = applyPwmInvert (clampPwmUs (pwmUsFromSignal (evaluateOutputSignal rt oc))) False"

definition switchFromOutput :: "rat list \<Rightarrow> output_channel \<Rightarrow> bool" where
  "switchFromOutput rt oc \<longleftrightarrow>
     constrain \<bar>evaluateOutputSignal rt oc\<bar> 0 1 \<ge> f_div (f_of_int (constrain (oc_threshold oc) 0 100)) 100"

section \<open>The response curve\<close>

text \<open>What the program relies on of \<open>powf\<close>: results for bases between 0 and 1, and the two exact cases.\<close>

definition powf_ok :: "(rat \<Rightarrow> rat \<Rightarrow> rat) \<Rightarrow> bool" where
  "powf_ok powf \<longleftrightarrow> (\<forall>a p. 0 \<le> a \<longrightarrow> a \<le> 1 \<longrightarrow> 1 \<le> p \<longrightarrow> 0 \<le> powf a p \<and> powf a p \<le> 1) \<and>
     (\<forall>p. 1 \<le> p \<longrightarrow> powf 0 p = 0 \<and> powf 1 p = 1)"

definition dead_zone :: "int \<Rightarrow> rat" where
  "dead_zone percent = f_div (f_of_int (constrain percent 0 95)) 100"

lemma f_of_int_small [simp]: "\<bar>n\<bar> < 2 ^ 24 \<Longrightarrow> f_of_int n = of_int n"
  by (rule f_of_int_exact)

lemma constrain_percent: "0 \<le> constrain p 0 (95 :: int)" "constrain p 0 (95 :: int) \<le> 95"
  by simp_all

lemma dead_zone_range: "0 \<le> dead_zone p" "dead_zone p \<le> 31 / 32"
proof -
  have f: "f_of_int (constrain p 0 95) = of_int (constrain p 0 95)"
  proof (rule f_of_int_exact)
    have "\<bar>constrain p 0 (95 :: int)\<bar> \<le> 95" using constrain_percent [of p] by linarith
    then show "\<bar>constrain p 0 (95 :: int)\<bar> < 2 ^ 24" by (rule le_less_trans) simp
  qed
  have "(of_int (constrain p 0 95) :: rat) \<le> 95" using constrain_percent(2) [of p] by (metis of_int_le_iff of_int_numeral)
  moreover have "(of_int 31 / 2 ^ 5 :: rat) = 31 / 32" by simp
  ultimately have "of_int (constrain p 0 95) / 100 \<le> (of_int 31 / 2 ^ 5 :: rat)" by linarith
  then have "f32 (of_int (constrain p 0 95) / 100) \<le> f32 (of_int 31 / 2 ^ 5)" by (rule f32_mono)
  also have "\<dots> = of_int 31 / 2 ^ 5" by (rule f32_exact) simp_all
  finally show "dead_zone p \<le> 31 / 32" by (simp add: dead_zone_def f_div_def f)
  show "0 \<le> dead_zone p" using constrain_percent(1) [of p]
    by (simp add: dead_zone_def f_div_def f f32.nonneg)
qed

lemma one_minus_dead_zone: "1 / 32 \<le> f_sub 1 (dead_zone p)" "0 < f_sub 1 (dead_zone p)"
proof -
  have "f32 (of_int 1 / 2 ^ 5) \<le> f32 (1 - dead_zone p)" using dead_zone_range(2) [of p] by (intro f32_mono) simp
  moreover have "f32 (of_int 1 / 2 ^ 5) = of_int 1 / 2 ^ 5" by (rule f32_exact) simp_all
  ultimately show "1 / 32 \<le> f_sub 1 (dead_zone p)" by (simp add: f_sub_def)
  then show "0 < f_sub 1 (dead_zone p)" by simp
qed

lemma deadzone_alt: "applyDeadzoneSigned v p =
    (if \<bar>v\<bar> \<le> dead_zone p then 0
     else let scaled = f_div (f_sub \<bar>v\<bar> (dead_zone p)) (f_sub 1 (dead_zone p)) in if v < 0 then - scaled else scaled)"
  by (simp add: applyDeadzoneSigned_def dead_zone_def Let_def)

lemma scaled_range:
  assumes "dead_zone p \<le> a" "a \<le> 1"
  shows "0 \<le> f_div (f_sub a (dead_zone p)) (f_sub 1 (dead_zone p)) \<and>
    f_div (f_sub a (dead_zone p)) (f_sub 1 (dead_zone p)) \<le> 1"
proof -
  have "0 \<le> f_sub a (dead_zone p)" using assms(1) by (simp add: f_sub_def f32.nonneg)
  moreover have "f_sub a (dead_zone p) \<le> f_sub 1 (dead_zone p)" using assms(2) by (simp add: f_sub_def f32_mono)
  ultimately have "0 \<le> f_sub a (dead_zone p) / f_sub 1 (dead_zone p)"
    "f_sub a (dead_zone p) / f_sub 1 (dead_zone p) \<le> 1"
    using one_minus_dead_zone [of p] by (simp_all add: divide_le_eq)
  then show ?thesis by (simp add: f_div_def f32.nonneg f32.le_one)
qed

lemma deadzone_nonneg: "0 \<le> v \<Longrightarrow> v \<le> 1 \<Longrightarrow> 0 \<le> applyDeadzoneSigned v p \<and> applyDeadzoneSigned v p \<le> 1"
  using scaled_range [of p v] by (simp add: deadzone_alt Let_def)

lemma deadzone_odd: "applyDeadzoneSigned (- v) p = - applyDeadzoneSigned v p"
  using dead_zone_range(1) [of p] by (auto simp: deadzone_alt Let_def)

lemma deadzone_one: "applyDeadzoneSigned 1 p = 1"
  using one_minus_dead_zone [of p] dead_zone_range(2) [of p] by (simp add: deadzone_alt f_div_def f32.one)

lemma deadzone_mono:
  assumes "0 \<le> v" "v \<le> w" "w \<le> 1"
  shows "applyDeadzoneSigned v p \<le> applyDeadzoneSigned w p"
proof (cases "v \<le> dead_zone p")
  case True
  then show ?thesis using deadzone_nonneg [of w p] assms by (simp add: deadzone_alt)
next
  case False
  have "f_sub v (dead_zone p) \<le> f_sub w (dead_zone p)" using assms by (simp add: f_sub_def f32_mono)
  then have "f_div (f_sub v (dead_zone p)) (f_sub 1 (dead_zone p)) \<le> f_div (f_sub w (dead_zone p)) (f_sub 1 (dead_zone p))"
    unfolding f_div_def using one_minus_dead_zone [of p] by (intro f32_mono divide_right_mono) simp_all
  with False assms show ?thesis by (simp add: deadzone_alt Let_def)
qed

lemma expo_power: "1 \<le> f_add 1 (f_mul (f_div (f_of_int (constrain p 0 100)) 100) 2)"
proof -
  have "0 \<le> constrain p 0 (100 :: int)" by simp
  then have "0 \<le> f_of_int (constrain p 0 100)" by (simp add: f_of_int_def f32.nonneg)
  then have "0 \<le> f_mul (f_div (f_of_int (constrain p 0 100)) 100) 2"
    by (simp add: f_mul_def f_div_def f32.nonneg)
  then show ?thesis using f32_mono [of 1 "1 + f_mul (f_div (f_of_int (constrain p 0 100)) 100) 2"]
    by (simp add: f_add_def f32.one)
qed

lemma expo_odd: "powf_ok powf \<Longrightarrow> applyExpoSigned powf (- v) p = - applyExpoSigned powf v p"
  using expo_power [of p] constrain_neg [of 1]
  by (cases "v = 0") (auto simp: applyExpoSigned_def Let_def powf_ok_def constrain_def)

lemma expo_nonneg: "powf_ok powf \<Longrightarrow> 0 \<le> v \<Longrightarrow> v \<le> 1 \<Longrightarrow> 0 \<le> applyExpoSigned powf v p \<and> applyExpoSigned powf v p \<le> 1"
proof -
  assume a: "powf_ok powf" "0 \<le> v" "v \<le> 1"
  have "0 \<le> powf v q \<and> powf v q \<le> 1" if "1 \<le> q" for q using a that by (simp add: powf_ok_def)
  from this [OF expo_power [of p]] a(2,3) show ?thesis by (simp add: applyExpoSigned_def Let_def)
qed

lemma expo_one: "powf_ok powf \<Longrightarrow> applyExpoSigned powf 1 p = 1"
  using expo_power [of p] by (auto simp: applyExpoSigned_def Let_def powf_ok_def)

lemma expo_none: "p \<le> 0 \<Longrightarrow> applyExpoSigned powf v p = constrain v (- 1) 1"
proof -
  assume "p \<le> 0"
  then have "constrain p 0 (100 :: int) = 0" by (simp add: constrain_def)
  then show ?thesis by (simp add: applyExpoSigned_def f_div_def f32.zero)
qed

lemma response_alt:
  assumes "powf_ok powf" "0 \<le> v" "v \<le> 1"
  shows "response powf i v = applyExpoSigned powf (applyDeadzoneSigned v (vi_deadzone i)) (vi_expo i)"
  using expo_nonneg [OF assms(1), of "applyDeadzoneSigned v (vi_deadzone i)" "vi_expo i"]
    deadzone_nonneg [OF assms(2,3), of "vi_deadzone i"]
  by (simp add: response_def)

lemma response_odd: "powf_ok powf \<Longrightarrow> response powf i (- v) = - response powf i v"
  using constrain_neg [of "1 :: rat"] by (simp add: response_def deadzone_odd expo_odd)

text \<open>
  How far the response is from the straight line that starts at the end of the dead zone: the two
  differences are off by at most 2^-24, which the quotient enlarges, and the last rounding adds as much.
\<close>

definition straight :: "rat \<Rightarrow> rat \<Rightarrow> rat" where
  "straight d v = (v - d) / (1 - d)"

definition exponent :: "int \<Rightarrow> rat" where
  "exponent percent = f_add 1 (f_mul (f_div (f_of_int (constrain percent 0 100)) 100) 2)"

lemma f_of_percent: "0 \<le> m \<Longrightarrow> m \<le> 100 \<Longrightarrow> f_of_int (constrain p 0 m) = of_int (constrain p 0 m)"
  by (rule f_of_int_exact) (simp add: constrain_def)

lemma quotient_error:
  fixes x y :: rat
  assumes "0 \<le> x" "x \<le> y" "0 < y" "1 / 32 \<le> y'" "\<bar>x' - x\<bar> \<le> 1 / 2 ^ 24" "\<bar>y' - y\<bar> \<le> 1 / 2 ^ 24"
  shows "\<bar>x' / y' - x / y\<bar> \<le> 1 / 2 ^ 18"
proof -
  have q: "0 \<le> x / y" "x / y \<le> 1" and y': "0 < y'" using assms(1-4) by simp_all
  have "x' / y' - x / y = ((x' - x) - x / y * (y' - y)) / y'" using y' assms(3) by (simp add: field_simps)
  then have "\<bar>x' / y' - x / y\<bar> = \<bar>(x' - x) - x / y * (y' - y)\<bar> / y'" using y' by (simp add: abs_divide)
  also have "\<dots> \<le> (2 / 2 ^ 24) / y'"
  proof (rule divide_right_mono)
    have "\<bar>x / y * (y' - y)\<bar> \<le> 1 * (1 / 2 ^ 24)" unfolding abs_mult using q assms(6) by (intro mult_mono) simp_all
    then show "\<bar>(x' - x) - x / y * (y' - y)\<bar> \<le> 2 / 2 ^ 24" using assms(5) by linarith
  qed (use y' in simp)
  also have "\<dots> \<le> (2 / 2 ^ 24) / (1 / 32)" using y' assms(4) by (intro divide_left_mono) simp_all
  finally show ?thesis by simp
qed

lemma dead_zone_error: "\<bar>dead_zone p - of_int (constrain p 0 95) / 100\<bar> \<le> 1 / 2 ^ 24"
proof -
  have "(0 :: rat) \<le> of_int (constrain p 0 95)" "(of_int (constrain p 0 95) :: rat) \<le> 95"
    using constrain_percent [of p] by (metis of_int_0_le_iff, metis of_int_le_iff of_int_numeral)
  then have "\<bar>(of_int (constrain p 0 95) :: rat) / 100\<bar> \<le> 1" by (simp only: abs_le_iff) linarith
  moreover have "f_of_int (constrain p 0 95) = of_int (constrain p 0 95)" by (simp add: f_of_percent)
  ultimately show ?thesis using f32_error by (simp add: dead_zone_def f_div_def)
qed

lemma deadzone_straight:
  assumes "dead_zone p < v" "v \<le> 1"
  shows "\<bar>applyDeadzoneSigned v p - straight (dead_zone p) v\<bar> \<le> 1 / 2 ^ 17"
proof -
  let ?d = "dead_zone p" and ?x = "f_sub v (dead_zone p)" and ?y = "f_sub 1 (dead_zone p)"
  note d = dead_zone_range [of p] one_minus_dead_zone [of p]
  have e: "\<bar>f_sub a ?d - (a - ?d)\<bar> \<le> 1 / 2 ^ 24" if "?d \<le> a" "a \<le> 1" for a
    unfolding f_sub_def using that d by (intro f32_error) simp
  have "\<bar>?x / ?y - straight ?d v\<bar> \<le> 1 / 2 ^ 18" unfolding straight_def
    using assms d e [of v] e [of 1] by (intro quotient_error) simp_all
  moreover have "\<bar>f_div ?x ?y - ?x / ?y\<bar> \<le> 1 / 2 ^ 24"
  proof -
    have "?x \<le> ?y" "0 \<le> ?x" using assms by (simp_all add: f_sub_def f32_mono f32.nonneg)
    then show ?thesis unfolding f_div_def using d by (intro f32_error) simp
  qed
  moreover have "applyDeadzoneSigned v p = f_div ?x ?y" using assms d by (simp add: deadzone_alt Let_def)
  ultimately show ?thesis unfolding abs_le_iff by simp
qed

lemma deadzone_positive:
  assumes "dead_zone p + 1 / 2 ^ 126 \<le> v" "v \<le> 1"
  shows "0 < applyDeadzoneSigned v p"
proof -
  let ?x = "f_sub v (dead_zone p)" and ?y = "f_sub 1 (dead_zone p)" and ?u = "1 / 2 ^ 126 :: rat"
  note d = dead_zone_range [of p] one_minus_dead_zone [of p]
  have u: "f32 ?u = ?u" using f32_exact [of 1 126] by simp
  have x: "?u \<le> ?x" using f32_mono [of ?u "v - dead_zone p"] assms(1) unfolding u f_sub_def by linarith
  have "?y \<le> 1" using d unfolding f_sub_def by (intro f32.le_one) simp
  then have "?u * ?y \<le> ?u * 1" by (intro mult_left_mono) simp_all
  with x have "?u * ?y \<le> ?x" by linarith
  then have "?u \<le> ?x / ?y" using d(4) by (simp only: pos_le_divide_eq)
  then have "?u \<le> f_div ?x ?y" using f32_mono [of ?u "?x / ?y"] unfolding u f_div_def by blast
  then have "0 < f_div ?x ?y" by (rule less_le_trans [rotated]) simp
  moreover have "dead_zone p < v" by (rule less_le_trans [OF _ assms(1)]) simp
  ultimately show ?thesis using d(1) by (simp add: deadzone_alt Let_def)
qed

lemma expo_some:
  assumes "powf_ok powf" "0 \<le> v" "v \<le> 1" "0 < p"
  shows "applyExpoSigned powf v p = powf v (exponent p)"
proof -
  have c: "1 \<le> constrain p 0 (100 :: int)" "constrain p 0 (100 :: int) \<le> 100" using assms(4) by (simp_all add: constrain_def)
  then have "(1 :: rat) \<le> of_int (constrain p 0 100)" by (metis of_int_1 of_int_le_iff)
  moreover have "f_of_int (constrain p 0 100) = of_int (constrain p 0 100)" by (simp add: f_of_percent)
  ultimately have "(of_int 1 / 2 ^ 7 :: rat) \<le> f_of_int (constrain p 0 100) / 100" by simp
  then have "f32 (of_int 1 / 2 ^ 7) \<le> f_div (f_of_int (constrain p 0 100)) 100" unfolding f_div_def by (rule f32_mono)
  moreover have "f32 (of_int 1 / 2 ^ 7) = of_int 1 / 2 ^ 7" by (rule f32_exact) simp_all
  ultimately have "0 < f_div (f_of_int (constrain p 0 100)) 100" by simp
  moreover have "0 \<le> powf v (exponent p) \<and> powf v (exponent p) \<le> 1"
    using assms(1-3) expo_power [of p] by (simp add: powf_ok_def exponent_def)
  ultimately show ?thesis using assms(2) by (simp add: applyExpoSigned_def Let_def exponent_def)
qed

lemma exponent_range: "1 \<le> exponent p \<and> exponent p \<le> 3"
proof -
  have c: "0 \<le> constrain p 0 (100 :: int)" "constrain p 0 (100 :: int) \<le> 100" by simp_all
  have "f_of_int (constrain p 0 100) = of_int (constrain p 0 100)" by (simp add: f_of_percent)
  moreover have "(of_int (constrain p 0 100) :: rat) \<le> 100" using c(2) by (metis of_int_le_iff of_int_numeral)
  ultimately have "f_of_int (constrain p 0 100) \<le> 100" by (simp only:)
  then have "f_div (f_of_int (constrain p 0 100)) 100 \<le> 1" unfolding f_div_def by (intro f32.le_one) simp
  then have "f_mul (f_div (f_of_int (constrain p 0 100)) 100) 2 \<le> f32 2" unfolding f_mul_def by (intro f32_mono) simp
  also have "f32 2 = 2" using f32_exact [of 2 0] by simp
  finally have "exponent p \<le> f32 3" unfolding exponent_def f_add_def by (intro f32_mono) simp
  also have "f32 3 = 3" using f32_exact [of 3 0] by simp
  finally show ?thesis using expo_power [of p] by (simp add: exponent_def)
qed

text \<open>
  C11: The response of a direct input to its raw value. For every configuration it is odd, stays
  within [-1, 1], keeps the sign and reaches 1 at full deflection. It is 0 up to the end of the dead
  zone, which is the percentage configured up to 2^-24, and positive from the next normal number on.
  Without expo it is, up to 2^-17, the straight line from the end of the dead zone to full deflection,
  and grows with the deflection; with expo it is that response raised by \<open>powf\<close> to a power between 1 and 3.
\<close>

theorem response_curve:
  assumes "powf_ok powf" "0 \<le> v" "v \<le> w" "w \<le> 1"
  shows "response powf i (- v) = - response powf i v \<and> 0 \<le> response powf i v \<and> response powf i v \<le> 1 \<and>
    response powf i 1 = 1 \<and>
    \<bar>dead_zone (vi_deadzone i) - of_int (constrain (vi_deadzone i) 0 95) / 100\<bar> \<le> 1 / 2 ^ 24 \<and>
    (v \<le> dead_zone (vi_deadzone i) \<longrightarrow> response powf i v = 0) \<and>
    (vi_expo i \<le> 0 \<longrightarrow> response powf i v \<le> response powf i w \<and>
       (dead_zone (vi_deadzone i) + 1 / 2 ^ 126 \<le> v \<longrightarrow> 0 < response powf i v) \<and>
       (dead_zone (vi_deadzone i) < v \<longrightarrow> \<bar>response powf i v - straight (dead_zone (vi_deadzone i)) v\<bar> \<le> 1 / 2 ^ 17)) \<and>
    (0 < vi_expo i \<longrightarrow> response powf i v = powf (response powf (i\<lparr>vi_expo := 0\<rparr>) v) (exponent (vi_expo i)) \<and>
       1 \<le> exponent (vi_expo i) \<and> exponent (vi_expo i) \<le> 3)"
proof -
  let ?p = "vi_deadzone i"
  have v: "v \<le> 1" "0 \<le> w" using assms by simp_all
  note dz = deadzone_nonneg [OF assms(2) v(1), of ?p] deadzone_nonneg [OF v(2) assms(4), of ?p]
  note alt = response_alt [OF assms(1,2) v(1)] response_alt [OF assms(1) v(2) assms(4)]
  have lin: "response powf k v = applyDeadzoneSigned v (vi_deadzone k)" if "vi_expo k \<le> 0" for k
    using expo_none [OF that] deadzone_nonneg [OF assms(2) v(1), of "vi_deadzone k"]
    by (simp add: response_alt [OF assms(1,2) v(1)])
  have "response powf i v = 0" if "v \<le> dead_zone ?p"
  proof -
    have "applyExpoSigned powf 0 p = 0" for p using expo_odd [OF assms(1), of 0 p] by simp
    with that assms(2) show ?thesis by (simp add: alt deadzone_alt)
  qed
  moreover have "response powf i v \<le> response powf i w" if "vi_expo i \<le> 0"
    unfolding alt expo_none [OF that] by (intro constrain_mono deadzone_mono assms) simp
  moreover have "response powf i v = powf (response powf (i\<lparr>vi_expo := 0\<rparr>) v) (exponent (vi_expo i))" if "0 < vi_expo i"
    using expo_some [OF assms(1) _ _ that, of "applyDeadzoneSigned v ?p"] dz lin [of "i\<lparr>vi_expo := 0\<rparr>"] by (simp add: alt)
  moreover have "response powf i 1 = 1"
    using response_alt [OF assms(1), of 1] by (simp add: deadzone_one expo_one [OF assms(1)])
  ultimately show ?thesis
    using response_odd [OF assms(1)] expo_nonneg [OF assms(1), of "applyDeadzoneSigned v ?p" "vi_expo i"] dz alt(1)
      dead_zone_error [of ?p] exponent_range [of "vi_expo i"] lin [of i] deadzone_positive [of ?p v] deadzone_straight [of ?p v] v(1)
    by simp
qed

lemma cap_powf_ok: "powf_ok (\<lambda>a p. a)"
  by (simp add: powf_ok_def)

theorem response_curve_witness:
  "response (\<lambda>a p. a) VirtualInputConfig (- (1 / 16)) = 0 \<and> response (\<lambda>a p. a) VirtualInputConfig 1 = 1"
proof -
  have "f32 (1 / 2 ^ 4) \<le> f32 (10 / 100)" by (rule f32_mono) simp
  moreover have "f32 (of_int 1 / 2 ^ 4) = of_int 1 / 2 ^ 4" by (rule f32_exact) simp_all
  ultimately have "1 / 16 \<le> dead_zone 10" by (simp add: dead_zone_def f_div_def)
  then show ?thesis
    using response_curve [OF cap_powf_ok, of "1 / 16" 1 VirtualInputConfig] by (simp add: VirtualInputConfig_def)
qed

section \<open>Outputs\<close>

lemma signal_unit: "- 1 \<le> evaluateOutputSignal rt oc \<and> evaluateOutputSignal rt oc \<le> 1"
proof -
  have "- 1 \<le> constrain x (- 1) (1 :: rat) \<and> constrain x (- 1) (1 :: rat) \<le> 1" for x by simp
  then show ?thesis unfolding evaluateOutputSignal_def Let_def
    by (smt (verit, best) minus_le_iff neg_le_iff_le zero_le_one le_minus_one_simps(1))
qed

lemma pulse_ends: "pwmUsFromSignal 1 = 2000" "pwmUsFromSignal (- 1) = 1000" "pwmUsFromSignal 0 = 1500"
proof -
  have e: "f32 (of_int n) = of_int n" if "\<bar>n\<bar> < 2 ^ 24" for n using f32_exact [of n 0] that by simp
  have "lroundf 2000 = 2000" "lroundf 1000 = 1000" "lroundf 1500 = 1500"
    using lroundf_int [of 2000] lroundf_int [of 1000] lroundf_int [of 1500] by simp_all
  with e [of 2000] e [of 1000] e [of 1500] e [of 500] e [of "- 500"]
  show "pwmUsFromSignal 1 = 2000" "pwmUsFromSignal (- 1) = 1000" "pwmUsFromSignal 0 = 1500"
    by (simp_all add: pwmUsFromSignal_def f_add_def f_mul_def f_of_int_def f32.zero)
qed

lemma pulse_mono: "x \<le> y \<Longrightarrow> pwmUsFromSignal x \<le> pwmUsFromSignal y"
  unfolding pwmUsFromSignal_def f_add_def f_mul_def
  by (intro lroundf_mono f32_mono add_left_mono mult_right_mono) simp_all

text \<open>
  C10: Every output is safe for the hardware: whatever the configuration and the runtime values, the
  signal is within [-1, 1] (0 for an unused channel), the servo pulse within 1000..2000 us and equal
  to the pulse of the signal without clamping; reversing a channel negates its signal; full signals
  give the end points and no signal the centre.
\<close>

theorem output_pulse:
  "\<bar>evaluateOutputSignal rt oc\<bar> \<le> 1 \<and> 1000 \<le> pwmFromOutput rt oc \<and> pwmFromOutput rt oc \<le> 2000 \<and>
   pwmFromOutput rt oc = pwmUsFromSignal (evaluateOutputSignal rt oc) \<and>
   evaluateOutputSignal rt (oc\<lparr>oc_inverted := \<not> oc_inverted oc\<rparr>) = - evaluateOutputSignal rt oc \<and>
   evaluateOutputSignal rt (oc\<lparr>oc_used := False\<rparr>) = 0 \<and>
   pwmUsFromSignal 1 = 2000 \<and> pwmUsFromSignal (- 1) = 1000 \<and> pwmUsFromSignal 0 = 1500"
proof -
  have "1000 \<le> pwmUsFromSignal (evaluateOutputSignal rt oc)" "pwmUsFromSignal (evaluateOutputSignal rt oc) \<le> 2000"
    using signal_unit [of rt oc] pulse_mono [of "- 1" "evaluateOutputSignal rt oc"]
      pulse_mono [of "evaluateOutputSignal rt oc" 1] by (simp_all add: pulse_ends)
  moreover have "mixed_value rt (oc\<lparr>oc_inverted := b\<rparr>) = mixed_value rt oc" for b
    by (simp add: mixed_value_def Let_def)
  ultimately show ?thesis using signal_unit [of rt oc]
    by (auto simp: pwmFromOutput_def applyPwmInvert_def clampPwmUs_def pulse_ends abs_le_iff evaluateOutputSignal_def
        Let_def)
qed

section \<open>Toggle cycles\<close>

fun toggle_run :: "virtual_input \<Rightarrow> int \<Rightarrow> controller_ptr list \<Rightarrow> toggle_state \<Rightarrow> toggle_state" where
  "toggle_run i positions [] t = t"
| "toggle_run i positions (c # cs) t = toggle_run i positions cs (snd (evaluateToggleVirtualInput i c positions t))"

fun rises :: "bool \<Rightarrow> bool list \<Rightarrow> nat" where
  "rises prev [] = 0"
| "rises prev (b # bs) = (if b \<and> \<not> prev then 1 else 0) + rises b bs"

definition cycle3 :: "nat \<Rightarrow> int" where
  "cycle3 n = [0, 1, 2, 1] ! (n mod 4)"

definition plain_toggle :: "virtual_input \<Rightarrow> bool" where
  "plain_toggle i \<longleftrightarrow> vi_secondary i = In_None \<and> vi_modifier i = In_None"

lemma toggle_step:
  assumes "plain_toggle i" "connected_ptr c"
  shows "evaluateToggleVirtualInput i c positions t =
    (let t2 = (if isInputActive (vi_primary i) c \<and> \<not> tg_primary_prev t
         then if positions = 2 then t\<lparr>tg_position := (if tg_position t = 0 then 1 else 0)\<rparr> else next_cycle t
         else t)\<lparr>tg_primary_prev := isInputActive (vi_primary i) c, tg_secondary_prev := False, tg_modifier_prev := False\<rparr>
     in (toggle_value (vi_range i) positions (tg_position t2), t2))"
  using assms by (simp add: evaluateToggleVirtualInput_def plain_toggle_def pressed_or_none_def
      isInputEnabledByModifier_def toggle_move_def next_cycle_def Let_def)

definition in_cycle :: "int \<Rightarrow> nat \<Rightarrow> toggle_state \<Rightarrow> bool" where
  "in_cycle positions n t \<longleftrightarrow> (if positions = 2 then tg_position t = int (n mod 2)
     else tg_position t = cycle3 n \<and> (n mod 4 = 1 \<longrightarrow> tg_direction t = 1) \<and> (n mod 4 = 3 \<longrightarrow> tg_direction t = - 1))"

lemma cycle_step:
  assumes "in_cycle positions n t"
  shows "in_cycle positions (Suc n) (if positions = 2 then t\<lparr>tg_position := (if tg_position t = 0 then 1 else 0)\<rparr> else next_cycle t)"
proof (cases "positions = 2")
  case True
  with assms show ?thesis by (simp add: in_cycle_def) presburger
next
  case False
  have i8: "to_i8 0 = 0" "to_i8 1 = 1" "to_i8 2 = 2" by (simp_all add: to_i8_id)
  consider "n mod 4 = 0" | "n mod 4 = 1" | "n mod 4 = 2" | "n mod 4 = 3" by linarith
  then show ?thesis using False assms
    by cases (simp_all add: in_cycle_def next_cycle_def cycle3_def mod_Suc Let_def constrain_def i8)
qed

lemma toggle_run_cycle:
  assumes "plain_toggle i" "\<forall>c \<in> set cs. connected_ptr c" "in_cycle positions n t"
  shows "in_cycle positions (n + rises (tg_primary_prev t) (map (isInputActive (vi_primary i)) cs))
    (toggle_run i positions cs t)"
  using assms(2,3)
proof (induction cs arbitrary: n t)
  case Nil
  then show ?case by simp
next
  case (Cons c cs)
  let ?rise = "isInputActive (vi_primary i) c \<and> \<not> tg_primary_prev t"
  define t2 where "t2 = snd (evaluateToggleVirtualInput i c positions t)"
  have "in_cycle positions (n + (if ?rise then 1 else 0)) t2"
    "tg_primary_prev t2 = isInputActive (vi_primary i) c"
    using Cons.prems cycle_step [of positions n t]
    by (auto simp: t2_def toggle_step [OF assms(1)] Let_def in_cycle_def)
  with Cons.IH [of "n + (if ?rise then 1 else 0)" t2] Cons.prems(1)
  show ?case by (simp add: t2_def add.assoc)
qed

definition toggle_zero :: toggle_state where
  "toggle_zero = \<lparr>tg_position = 0, tg_primary_prev = False, tg_secondary_prev = False,
     tg_modifier_prev = False, tg_direction = 1, tg_direct_prev = False, tg_last_rumble = 0\<rparr>"

text \<open>
  A toggle with one button. However long the button is held in each poll, the position depends
  only on the number of presses: two positions alternate, three positions run up and down
  (0, 1, 2, 1, 0, ...).
\<close>

theorem toggle_cycle:
  assumes "plain_toggle i" "\<forall>c \<in> set cs. connected_ptr c"
  shows "tg_position (toggle_run i 2 cs toggle_zero) = int (rises False (map (isInputActive (vi_primary i)) cs) mod 2) \<and>
    tg_position (toggle_run i 3 cs toggle_zero) = cycle3 (rises False (map (isInputActive (vi_primary i)) cs))"
  using toggle_run_cycle [OF assms, of 2 0 toggle_zero] toggle_run_cycle [OF assms, of 3 0 toggle_zero]
  by (simp add: in_cycle_def toggle_zero_def cycle3_def)

definition idle_pad :: arduino_object where
  "idle_pad = demo_pad\<lparr>co_data := controller_zero\<lparr>klass := CLASS_GAMEPAD\<rparr>\<rparr>"

theorem toggle_cycle_witness:
  "tg_position (toggle_run (VirtualInputConfig\<lparr>vi_primary := ButtonB\<rparr>) 3
     [Some demo_pad, Some demo_pad, Some idle_pad, Some demo_pad] toggle_zero) = 2"
proof -
  let ?i = "VirtualInputConfig\<lparr>vi_primary := ButtonB\<rparr>"
  have "isInputActive ButtonB (Some demo_pad)" "\<not> isInputActive ButtonB (Some idle_pad)"
    by (simp_all add: isInputActive_def getInputDefinition_def kInputs_def normalizedForInput_def ctl_buttons_def
        pressed_def idle_pad_def demo_pad_def has_bits_BIT button_defs bit_BIT controller_zero_def gamepad_zero_def)
  moreover have "plain_toggle ?i" by (simp add: plain_toggle_def VirtualInputConfig_def)
  moreover have "\<forall>c \<in> set [Some demo_pad, Some demo_pad, Some idle_pad, Some demo_pad]. connected_ptr c"
    by (simp add: connected_ptr_def demo_pad_def idle_pad_def)
  ultimately show ?thesis
    using toggle_cycle [of ?i "[Some demo_pad, Some demo_pad, Some idle_pad, Some demo_pad]"]
    by (simp add: cycle3_def)
qed

end
