(* ===== verification/Rc_Model.thy ===== *)
theory Rc_Model
  imports Rc_Signal
begin

text \<open>
  \<^verbatim>\<open>main/rc_model.cpp\<close>, second half: the state of the firmware, its outputs on the pins, the
  conversion to and from the stored configuration, and applying a configuration as a transaction.

  The board is a parameter: which pins can carry a servo signal (\<open>hasPwm\<close> depends on the chip) and
  whether attaching a servo succeeds (the servo library runs out of channels). A name is its text
  before the terminating zero; the arrays of 24 characters hold at most 23.
\<close>

section \<open>State\<close>

record servo =
  sv_pin :: "u8 option"
  sv_us :: int

record board =
  bd_has_pwm :: "int \<Rightarrow> bool"
  bd_attaches :: "servo list \<Rightarrow> nat \<Rightarrow> u8 \<Rightarrow> bool"

record rc_state =
  rc_inputs :: "virtual_input list"
  rc_outputs :: "output_channel list"
  rc_virtual :: "rat list"
  rc_output :: "rat list"
  rc_servos :: "servo list"
  rc_attached :: "bool list"
  rc_toggles :: "toggle_state list"
  rc_gpio :: "u8 \<Rightarrow> bool option"

definition toggle_boot :: "nat \<Rightarrow> toggle_state" where
  "toggle_boot i = toggle_zero\<lparr>tg_direction := (if i = 0 then 1 else 0)\<rparr>"

definition rc_boot :: rc_state where
  "rc_boot = \<lparr>rc_inputs = replicate kMaxVirtualInputs VirtualInputConfig,
     rc_outputs = replicate kMaxOutputChannels OutputChannelConfig,
     rc_virtual = replicate kMaxVirtualInputs 0, rc_output = replicate kMaxOutputChannels 0,
     rc_servos = replicate kMaxOutputChannels \<lparr>sv_pin = None, sv_us = 0\<rparr>,
     rc_attached = replicate kMaxOutputChannels False,
     rc_toggles = map toggle_boot [0..<kMaxVirtualInputs], rc_gpio = (\<lambda>_. None)\<rparr>"

definition out_at :: "rc_state \<Rightarrow> nat \<Rightarrow> output_channel" where
  "out_at s i = rc_outputs s ! i"

definition set_out :: "nat \<Rightarrow> output_channel \<Rightarrow> rc_state \<Rightarrow> rc_state" where
  "set_out i oc s = s\<lparr>rc_outputs := (rc_outputs s)[i := oc]\<rparr>"

definition set_runtime :: "nat \<Rightarrow> rat \<Rightarrow> rc_state \<Rightarrow> rc_state" where
  "set_runtime i v s = s\<lparr>rc_output := (rc_output s)[i := v]\<rparr>"

definition digitalWrite :: "u8 \<Rightarrow> bool \<Rightarrow> rc_state \<Rightarrow> rc_state" where
  "digitalWrite pin level s = s\<lparr>rc_gpio := (rc_gpio s)(pin := Some level)\<rparr>"

definition writeMicroseconds :: "nat \<Rightarrow> int \<Rightarrow> rc_state \<Rightarrow> rc_state" where
  "writeMicroseconds i us s = (if sv_pin (rc_servos s ! i) = None then s
     else s\<lparr>rc_servos := (rc_servos s)[i := (rc_servos s ! i)\<lparr>sv_us := us\<rparr>]\<rparr>)"

section \<open>Allocation\<close>

definition firstFreeVirtualIndex :: "rc_state \<Rightarrow> nat option" where
  "firstFreeVirtualIndex s = find_index (\<lambda>v. \<not> vi_used v) (rc_inputs s)"

definition firstFreeOutputIndex :: "rc_state \<Rightarrow> nat option" where
  "firstFreeOutputIndex s = find_index (\<lambda>oc. \<not> oc_used oc) (rc_outputs s)"

definition outputPinAlreadyUsed :: "u8 \<Rightarrow> nat \<Rightarrow> rc_state \<Rightarrow> bool" where
  "outputPinAlreadyUsed pin ignore_index s \<longleftrightarrow>
     (\<exists>i \<in> set [0..<length (rc_outputs s)]. i \<noteq> ignore_index \<and> oc_used (out_at s i) \<and> oc_pin (out_at s i) = pin)"

definition firstAvailablePwmPin :: "board \<Rightarrow> nat \<Rightarrow> rc_state \<Rightarrow> nat option" where
  "firstAvailablePwmPin bd ignore_index s =
     find (\<lambda>pin. bd_has_pwm bd (int pin) \<and> \<not> outputPinAlreadyUsed (u8_of (int pin)) ignore_index s) [0..<49]"

section \<open>Output hardware\<close>

datatype hw_error = Pwm_Attach_Failed u8 | Pin_Already_Used

definition detach :: "nat \<Rightarrow> rc_state \<Rightarrow> rc_state" where
  "detach i s = s\<lparr>rc_servos := (rc_servos s)[i := (rc_servos s ! i)\<lparr>sv_pin := None\<rparr>]\<rparr>"

definition releaseOutputHardware :: "nat \<Rightarrow> rc_state \<Rightarrow> rc_state" where
  "releaseOutputHardware i s =
     (if rc_attached s ! i then (detach i s)\<lparr>rc_attached := (rc_attached s)[i := False]\<rparr> else s)"

definition pwmFailsafeUs :: "pwm_failsafe_mode \<Rightarrow> int" where
  "pwmFailsafeUs m = (case m of Failsafe_Min \<Rightarrow> 1000 | Failsafe_Max \<Rightarrow> 2000 | Failsafe_Center \<Rightarrow> 1500)"

definition writeFailsafeForOutput :: "nat \<Rightarrow> rc_state \<Rightarrow> rc_state" where
  "writeFailsafeForOutput i s =
     (let oc = out_at s i
      in if \<not> oc_used oc then s
         else if oc_type oc = Channel_Pwm
         then let us = pwmFailsafeUs (oc_failsafe oc);
                  s1 = (if rc_attached s ! i then writeMicroseconds i us s else s)
              in set_runtime i (if us \<le> 1000 then - 1 else if us \<ge> 2000 then 1 else 0) s1
         else set_runtime i 0 (digitalWrite (oc_pin oc) False s))"

definition applyFailsafeAllOutputs :: "rc_state \<Rightarrow> rc_state" where
  "applyFailsafeAllOutputs s = fold writeFailsafeForOutput [0..<length (rc_outputs s)] s"

definition tryAttachOnPin :: "board \<Rightarrow> nat \<Rightarrow> u8 \<Rightarrow> rc_state \<Rightarrow> bool \<times> rc_state" where
  "tryAttachOnPin bd i pin s =
     (if \<not> bd_has_pwm bd (uint pin) then (False, s)
      else if outputPinAlreadyUsed pin i s then (False, s)
      else
        let s1 = (if sv_pin (rc_servos s ! i) \<noteq> None then detach i s else s)
        in if \<not> bd_attaches bd (rc_servos s1) i pin then (False, s1)
           else (True, s1\<lparr>rc_servos := (rc_servos s1)[i := (rc_servos s1 ! i)\<lparr>sv_pin := Some pin\<rparr>],
                   rc_outputs := (rc_outputs s1)[i := (rc_outputs s1 ! i)\<lparr>oc_pin := pin\<rparr>],
                   rc_attached := (rc_attached s1)[i := True]\<rparr>))"

fun tryPins :: "board \<Rightarrow> nat \<Rightarrow> u8 \<Rightarrow> nat list \<Rightarrow> rc_state \<Rightarrow> rc_state" where
  "tryPins bd i requested [] s = s"
| "tryPins bd i requested (p # ps) s =
     (if int p = uint requested then tryPins bd i requested ps s
      else case tryAttachOnPin bd i (u8_of (int p)) s of
             (True, s') \<Rightarrow> s' | (False, s') \<Rightarrow> tryPins bd i requested ps s')"

definition setupOutputHardware :: "board \<Rightarrow> nat \<Rightarrow> rc_state \<Rightarrow> hw_error option \<times> rc_state" where
  "setupOutputHardware bd i s =
     (let oc = out_at s i
      in if oc_type oc = Channel_Pwm
         then let (ok, s1) = tryAttachOnPin bd i (oc_pin oc) s;
                  s2 = (if ok then s1 else tryPins bd i (oc_pin oc) [0..<49] s1)
              in if \<not> ok \<and> \<not> rc_attached s2 ! i then (Some (Pwm_Attach_Failed (oc_pin oc)), s2)
                 else (None, writeFailsafeForOutput i s2)
         else if outputPinAlreadyUsed (oc_pin oc) i s then (Some Pin_Already_Used, s)
         else (None, writeFailsafeForOutput i (digitalWrite (oc_pin oc) False s)))"

definition release_used :: "nat \<Rightarrow> rc_state \<Rightarrow> rc_state" where
  "release_used i s = (if oc_used (out_at s i) then releaseOutputHardware i s else s)"

fun setup_all :: "board \<Rightarrow> nat list \<Rightarrow> rc_state \<Rightarrow> hw_error option \<times> rc_state" where
  "setup_all bd [] s = (None, s)"
| "setup_all bd (i # is) s =
     (if \<not> oc_used (out_at s i) then setup_all bd is s
      else case setupOutputHardware bd i s of
             (Some e, s') \<Rightarrow> (Some e, s') | (None, s') \<Rightarrow> setup_all bd is s')"

definition rebuildOutputHardware :: "board \<Rightarrow> rc_state \<Rightarrow> hw_error option \<times> rc_state" where
  "rebuildOutputHardware bd s =
     (let is = [0..<length (rc_outputs s)] in setup_all bd is (fold release_used is s))"

section \<open>Runtime\<close>

definition evaluateVirtualRuntime ::
  "(rat \<Rightarrow> rat \<Rightarrow> rat) \<Rightarrow> u32 \<Rightarrow> controller_ptr \<Rightarrow> rc_state \<Rightarrow> rumble_request list \<times> rc_state" where
  "evaluateVirtualRuntime powf now ctl s =
     (let rs = map (\<lambda>i. evaluate_input powf now ctl (rc_inputs s ! i) (rc_toggles s ! i)) [0..<length (rc_inputs s)]
      in (concat (map (snd \<circ> snd) rs), s\<lparr>rc_virtual := map fst rs, rc_toggles := map (fst \<circ> snd) rs\<rparr>))"

definition drive_output :: "nat \<Rightarrow> rc_state \<Rightarrow> rc_state" where
  "drive_output i s =
     (let oc = out_at s i
      in if \<not> oc_used oc then set_runtime i 0 s
         else
           let s1 = set_runtime i (evaluateOutputSignal (rc_virtual s) oc) s
           in if oc_type oc = Channel_Pwm
              then (if rc_attached s1 ! i then writeMicroseconds i (pwmFromOutput (rc_virtual s1) oc) s1 else s1)
              else digitalWrite (oc_pin oc) (switchFromOutput (rc_virtual s1) oc) s1)"

definition processGamepadToOutputs ::
  "(rat \<Rightarrow> rat \<Rightarrow> rat) \<Rightarrow> u32 \<Rightarrow> controller_ptr \<Rightarrow> rc_state \<Rightarrow> rumble_request list \<times> rc_state" where
  "processGamepadToOutputs powf now ctl s =
     (let (rumbles, s1) = evaluateVirtualRuntime powf now ctl s
      in (rumbles, fold drive_output [0..<length (rc_outputs s1)] s1))"

section \<open>Stored configurations\<close>

definition kConfigMagic :: u32 where "kConfigMagic = 0x52434346"
definition kConfigVersion :: u16 where "kConfigVersion = 5"

record persisted_input =
  pv_used :: u8
  pv_input :: u8
  pv_secondary :: u8
  pv_modifier :: u8
  pv_function :: u8
  pv_deadzone :: u8
  pv_expo :: u8
  pv_reserved :: u8
  pv_name :: string

record persisted_channel =
  pc_used :: u8
  pc_type :: u8
  pc_pin :: u8
  pc_inverted :: u8
  pc_mix_mode :: u8
  pc_source_a :: int
  pc_source_b :: int
  pc_source_c :: int
  pc_weight_a :: int
  pc_weight_b :: int
  pc_weight_c :: int
  pc_offset_a :: int
  pc_offset_b :: int
  pc_offset_c :: int
  pc_threshold :: u8
  pc_name :: string

record persisted_config =
  cf_magic :: u32
  cf_version :: u16
  cf_reserved :: u16
  cf_inputs :: "persisted_input list"
  cf_channels :: "persisted_channel list"

definition pv_zero :: persisted_input where
  "pv_zero = \<lparr>pv_used = 0, pv_input = 0, pv_secondary = 0, pv_modifier = 0, pv_function = 0,
     pv_deadzone = 0, pv_expo = 0, pv_reserved = 0, pv_name = []\<rparr>"

definition pc_zero :: persisted_channel where
  "pc_zero = \<lparr>pc_used = 0, pc_type = 0, pc_pin = 0, pc_inverted = 0, pc_mix_mode = 0, pc_source_a = 0,
     pc_source_b = 0, pc_source_c = 0, pc_weight_a = 0, pc_weight_b = 0, pc_weight_c = 0, pc_offset_a = 0,
     pc_offset_b = 0, pc_offset_c = 0, pc_threshold = 0, pc_name = []\<rparr>"

definition cf_zero :: persisted_config where
  "cf_zero = \<lparr>cf_magic = 0, cf_version = 0, cf_reserved = 0, cf_inputs = replicate kMaxVirtualInputs pv_zero,
     cf_channels = replicate kMaxOutputChannels pc_zero\<rparr>"

definition input_order :: "input_id list" where
  "input_order = [In_None, AxisX, AxisY, AxisRX, AxisRY, Throttle, Brake, ButtonA, ButtonB, ButtonX, ButtonY,
     ButtonL1, ButtonR1, ButtonL2, ButtonR2, ButtonStart, ButtonSelect, DpadUp, DpadDown, DpadLeft, DpadRight]"

definition input_of_code :: "u8 \<Rightarrow> input_id" where
  "input_of_code k = (if unat k < length input_order then input_order ! unat k else In_Other k)"

definition input_code :: "input_id \<Rightarrow> u8" where
  "input_code i = (case i of In_Other k \<Rightarrow> k
     | _ \<Rightarrow> (case find_index (\<lambda>j. j = i) input_order of Some n \<Rightarrow> of_nat n | None \<Rightarrow> 0))"

definition type_bits :: "input_type \<Rightarrow> u8" where
  "type_bits t = (case t of Direct \<Rightarrow> 0 | Toggle2Pos \<Rightarrow> 1 | Toggle3Pos \<Rightarrow> 2)"

definition function_code :: "modifier_function \<Rightarrow> u8" where
  "function_code f = (case f of Fn_None \<Rightarrow> 0 | Fn_Reverse \<Rightarrow> 1 | Fn_Center \<Rightarrow> 2 | Fn_Activate \<Rightarrow> 3 | Fn_Desactivate \<Rightarrow> 4)"

definition failsafe_code :: "pwm_failsafe_mode \<Rightarrow> u8" where
  "failsafe_code m = (case m of Failsafe_Min \<Rightarrow> 0 | Failsafe_Center \<Rightarrow> 1 | Failsafe_Max \<Rightarrow> 2)"

definition b2u :: "bool \<Rightarrow> u8" where "b2u b = (if b then 1 else 0)"

definition store_input :: "virtual_input \<Rightarrow> persisted_input" where
  "store_input v = \<lparr>pv_used = b2u (vi_used v), pv_input = input_code (vi_primary v),
     pv_secondary = input_code (vi_secondary v), pv_modifier = input_code (vi_modifier v),
     pv_function = function_code (vi_function v),
     pv_deadzone = u8_of (constrain (vi_deadzone v) 0 95), pv_expo = u8_of (constrain (vi_expo v) 0 100),
     pv_reserved = type_bits (vi_type v) OR push_bit 4 (b2u (vi_range v = Bipolar)) OR push_bit 5 (b2u (vi_rumble v)),
     pv_name = vi_name v\<rparr>"

definition store_channel :: "output_channel \<Rightarrow> persisted_channel" where
  "store_channel c = \<lparr>pc_used = b2u (oc_used c), pc_type = b2u (oc_type c = Channel_Switch), pc_pin = oc_pin c,
     pc_inverted = b2u (oc_inverted c),
     pc_mix_mode = (b2u (oc_mix c = Mix_Multiply) AND 0x01) OR push_bit 4 ((failsafe_code (oc_failsafe c) + 1) AND 0x03),
     pc_source_a = oc_source_a c, pc_source_b = oc_source_b c, pc_source_c = oc_source_c c,
     pc_weight_a = oc_weight_a c, pc_weight_b = oc_weight_b c, pc_weight_c = oc_weight_c c,
     pc_offset_a = oc_offset_a c, pc_offset_b = oc_offset_b c, pc_offset_c = oc_offset_c c,
     pc_threshold = u8_of (constrain (oc_threshold c) 0 100), pc_name = oc_name c\<rparr>"

definition exportCurrentConfig :: "rc_state \<Rightarrow> persisted_config" where
  "exportCurrentConfig s = cf_zero\<lparr>cf_magic := kConfigMagic, cf_version := kConfigVersion,
     cf_inputs := map store_input (rc_inputs s), cf_channels := map store_channel (rc_outputs s)\<rparr>"

definition pwmFailsafeModeFromPacked :: "u8 \<Rightarrow> pwm_failsafe_mode" where
  "pwmFailsafeModeFromPacked packed = (if packed = 0 then Failsafe_Center else if packed = 1 then Failsafe_Min
     else if packed = 2 then Failsafe_Max else Failsafe_Center)"

definition load_input :: "persisted_input \<Rightarrow> virtual_input" where
  "load_input p =
     (if pv_used p = 0 then VirtualInputConfig
      else
        let type_raw = pv_reserved p AND 0x0F;
            range_raw = drop_bit 4 (pv_reserved p) AND 0x01;
            rumble_raw = drop_bit 5 (pv_reserved p) AND 0x01
        in \<lparr>vi_used = True, vi_primary = input_of_code (pv_input p), vi_secondary = input_of_code (pv_secondary p),
             vi_type = (if type_raw = 1 then Toggle2Pos else if type_raw = 2 then Toggle3Pos else Direct),
             vi_range = (if range_raw = 1 then Bipolar else Unipolar), vi_rumble = (rumble_raw = 1),
             vi_modifier = input_of_code (pv_modifier p),
             vi_function = (if pv_function p = 1 then Fn_Reverse else if pv_function p = 2 then Fn_Center
               else if pv_function p = 3 then Fn_Activate else if pv_function p = 4 then Fn_Desactivate else Fn_None),
             vi_deadzone = constrain (uint (pv_deadzone p)) 0 95, vi_expo = constrain (uint (pv_expo p)) 0 100,
             vi_name = take 23 (pv_name p)\<rparr>)"

definition load_channel :: "persisted_channel \<Rightarrow> output_channel" where
  "load_channel p = \<lparr>oc_used = True, oc_type = (if pc_type p = 1 then Channel_Switch else Channel_Pwm),
     oc_pin = pc_pin p, oc_inverted = (pc_inverted p \<noteq> 0), oc_threshold = constrain (uint (pc_threshold p)) 0 100,
     oc_failsafe = pwmFailsafeModeFromPacked (drop_bit 4 (pc_mix_mode p) AND 0x03),
     oc_source_a = pc_source_a p, oc_source_b = pc_source_b p, oc_source_c = pc_source_c p,
     oc_mix = (if pc_mix_mode p AND 0x01 = 1 then Mix_Multiply else Mix_Add),
     oc_weight_a = constrain (pc_weight_a p) (- 100) 100, oc_weight_b = constrain (pc_weight_b p) (- 100) 100,
     oc_weight_c = constrain (pc_weight_c p) (- 100) 100, oc_offset_a = constrain (pc_offset_a p) (- 100) 100,
     oc_offset_b = constrain (pc_offset_b p) (- 100) 100, oc_offset_c = constrain (pc_offset_c p) (- 100) 100,
     oc_name = take 23 (pc_name p)\<rparr>"

definition load_toggle :: "persisted_input \<Rightarrow> toggle_state \<Rightarrow> toggle_state" where
  "load_toggle p t =
     (if pv_used p = 0 then t
      else
        let t1 = t\<lparr>tg_primary_prev := False, tg_secondary_prev := False, tg_modifier_prev := False,
                   tg_direct_prev := False, tg_last_rumble := 0\<rparr>;
            v = load_input p
        in if vi_type v = Toggle2Pos then t1\<lparr>tg_position := 0\<rparr>
           else if vi_type v = Toggle3Pos
           then t1\<lparr>tg_position := (if vi_range v = Unipolar then 0 else 1), tg_direction := 1\<rparr>
           else t1\<lparr>tg_position := 0, tg_direction := 1\<rparr>)"

section \<open>Applying a configuration\<close>

datatype apply_error = Invalid_Preset_Format | Invalid_Source_Index | No_Pwm_Gpio | Setup_Failed hw_error

definition sourceValid :: "int \<Rightarrow> bool" where
  "sourceValid k \<longleftrightarrow> - 1 \<le> k \<and> k < int kMaxVirtualInputs"

text \<open>The rollback: channel by channel, with its hardware, while later channels still hold the new configuration.\<close>

definition restore_channel :: "board \<Rightarrow> output_channel list \<Rightarrow> bool list \<Rightarrow> nat \<Rightarrow> rc_state \<Rightarrow> rc_state" where
  "restore_channel bd old_outputs old_pwm i s =
     (let s1 = (if oc_used (out_at s i) then releaseOutputHardware i s else s);
          s2 = (set_out i (old_outputs ! i) s1)\<lparr>rc_attached := (rc_attached s1)[i := False]\<rparr>
      in if oc_used (out_at s2 i) \<and> old_pwm ! i then snd (setupOutputHardware bd i s2) else s2)"

definition restoreOld ::
  "board \<Rightarrow> virtual_input list \<Rightarrow> output_channel list \<Rightarrow> bool list \<Rightarrow> rc_state \<Rightarrow> rc_state" where
  "restoreOld bd old_inputs old_outputs old_pwm s =
     fold (restore_channel bd old_outputs old_pwm) [0..<length old_outputs] (s\<lparr>rc_inputs := old_inputs\<rparr>)"

definition load_output :: "board \<Rightarrow> persisted_channel \<Rightarrow> nat \<Rightarrow> rc_state \<Rightarrow> apply_error option \<times> rc_state" where
  "load_output bd p i s =
     (if \<not> sourceValid (pc_source_a p) \<or> \<not> sourceValid (pc_source_b p) \<or> \<not> sourceValid (pc_source_c p)
      then (Some Invalid_Source_Index, s)
      else
        let s1 = set_out i (load_channel p) s
        in if oc_type (out_at s1 i) = Channel_Pwm \<and> \<not> bd_has_pwm bd (uint (oc_pin (out_at s1 i)))
           then (case firstAvailablePwmPin bd i s1 of
                   None \<Rightarrow> (Some No_Pwm_Gpio, s1)
                 | Some pin \<Rightarrow> (case setupOutputHardware bd i (set_out i ((out_at s1 i)\<lparr>oc_pin := u8_of (int pin)\<rparr>) s1) of
                     (e, s2) \<Rightarrow> (map_option Setup_Failed e, s2)))
           else (case setupOutputHardware bd i s1 of (e, s2) \<Rightarrow> (map_option Setup_Failed e, s2)))"

fun load_outputs :: "board \<Rightarrow> persisted_channel list \<Rightarrow> nat \<Rightarrow> rc_state \<Rightarrow> apply_error option \<times> rc_state" where
  "load_outputs bd [] i s = (None, s)"
| "load_outputs bd (p # ps) i s =
     (if pc_used p = 0 then load_outputs bd ps (Suc i) s
      else case load_output bd p i s of
             (Some e, s') \<Rightarrow> (Some e, s') | (None, s') \<Rightarrow> load_outputs bd ps (Suc i) s')"

definition clear_outputs :: "rc_state \<Rightarrow> rc_state" where
  "clear_outputs s = fold (\<lambda>i s. set_out i OutputChannelConfig (release_used i s)) [0..<length (rc_outputs s)] s"

definition load_inputs :: "persisted_config \<Rightarrow> rc_state \<Rightarrow> rc_state" where
  "load_inputs cfg s = s\<lparr>rc_inputs := map load_input (cf_inputs cfg),
     rc_toggles := map2 load_toggle (cf_inputs cfg) (rc_toggles s)\<rparr>"

text \<open>
  On success the code also stores the configuration in flash; see \<open>saveRuntimeConfigToNvs\<close> in
  \<open>Preset_Store\<close>.
\<close>

definition applyPersistedConfig :: "board \<Rightarrow> persisted_config \<Rightarrow> rc_state \<Rightarrow> apply_error option \<times> rc_state" where
  "applyPersistedConfig bd cfg s =
     (if cf_magic cfg \<noteq> kConfigMagic \<or> cf_version cfg \<noteq> kConfigVersion then (Some Invalid_Preset_Format, s)
      else
        let s1 = load_inputs cfg (clear_outputs s)
        in case load_outputs bd (cf_channels cfg) 0 s1 of
             (Some e, s2) \<Rightarrow> (Some e, restoreOld bd (rc_inputs s) (rc_outputs s) (rc_attached s) s2)
           | (None, s2) \<Rightarrow> (None, applyFailsafeAllOutputs s2))"

end
