(* ===== verification/Rc_Config.thy ===== *)
theory Rc_Config
  imports Rc_Model
begin

text \<open>
  Theorems about stored configurations and the output hardware (\<^verbatim>\<open>main/rc_model.cpp\<close>): what
  survives a save and a load, what a successful or failed \<open>applyPersistedConfig\<close> leaves, and what
  \<open>rebuildOutputHardware\<close> establishes.
\<close>

section \<open>Round trip of a configuration\<close>

definition wf_id :: "input_id \<Rightarrow> bool" where
  "wf_id i \<longleftrightarrow> (case i of In_Other k \<Rightarrow> length input_order \<le> unat k | _ \<Rightarrow> True)"

definition wf_input :: "virtual_input \<Rightarrow> bool" where
  "wf_input v \<longleftrightarrow> wf_id (vi_primary v) \<and> wf_id (vi_secondary v) \<and> wf_id (vi_modifier v) \<and>
     0 \<le> vi_deadzone v \<and> vi_deadzone v \<le> 95 \<and> 0 \<le> vi_expo v \<and> vi_expo v \<le> 100 \<and> length (vi_name v) \<le> 23"

definition percent_range :: "int \<Rightarrow> bool" where
  "percent_range p \<longleftrightarrow> - 100 \<le> p \<and> p \<le> 100"

definition wf_channel :: "output_channel \<Rightarrow> bool" where
  "wf_channel c \<longleftrightarrow> 0 \<le> oc_threshold c \<and> oc_threshold c \<le> 100 \<and> sourceValid (oc_source_a c) \<and>
     sourceValid (oc_source_b c) \<and> sourceValid (oc_source_c c) \<and> percent_range (oc_weight_a c) \<and>
     percent_range (oc_weight_b c) \<and> percent_range (oc_weight_c c) \<and> percent_range (oc_offset_a c) \<and>
     percent_range (oc_offset_b c) \<and> percent_range (oc_offset_c c) \<and> length (oc_name c) \<le> 23"

lemma code_of_id: "wf_id i \<Longrightarrow> input_of_code (input_code i) = i"
  by (cases i) (simp_all add: wf_id_def input_of_code_def input_code_def input_order_def find_index_def)

lemma id_of_code: "input_code (input_of_code k) = k" "wf_id (input_of_code k)"
proof -
  have "input_code (input_of_code k) = k \<and> wf_id (input_of_code k)"
  proof (cases "unat k < length input_order")
    case True
    have all: "\<forall>n \<in> set [0..<21]. input_code (input_order ! n) = of_nat n \<and> wf_id (input_order ! n)"
      by (simp add: upt_rec input_code_def input_order_def find_index_def wf_id_def)
    from True have "unat k \<in> set [0..<21]" by (simp add: input_order_def)
    with all have "input_code (input_order ! unat k) = of_nat (unat k)" "wf_id (input_order ! unat k)" by blast+
    with True show ?thesis by (simp add: input_of_code_def)
  next
    case False
    then show ?thesis by (simp add: input_of_code_def input_code_def wf_id_def)
  qed
  then show "input_code (input_of_code k) = k" "wf_id (input_of_code k)" by simp_all
qed

lemma packed_input:
  fixes v :: virtual_input
  shows "(type_bits t OR push_bit 4 (b2u b) OR push_bit 5 (b2u r)) AND 0x0F = type_bits t"
    "drop_bit 4 (type_bits t OR push_bit 4 (b2u b) OR push_bit 5 (b2u r)) AND 0x01 = b2u b"
    "drop_bit 5 (type_bits t OR push_bit 4 (b2u b) OR push_bit 5 (b2u r)) AND 0x01 = b2u r"
  by (cases t; cases b; cases r; simp add: type_bits_def b2u_def)+

lemma uint_u8: "0 \<le> x \<Longrightarrow> x < 256 \<Longrightarrow> uint (u8_of x) = x"
  by (simp add: u8_of_def uint_word_of_int)

lemma load_store_input: "wf_input v \<Longrightarrow> load_input (store_input v) = (if vi_used v then v else VirtualInputConfig)"
  by (cases "vi_type v"; cases "vi_function v"; cases "vi_range v")
     (auto simp: load_input_def store_input_def wf_input_def packed_input b2u_def code_of_id uint_u8 Let_def type_bits_def
       function_code_def)

lemma used_same: "oc_used c \<Longrightarrow> c\<lparr>oc_used := True, oc_failsafe := m\<rparr> = c\<lparr>oc_failsafe := m\<rparr>"
  by (cases c) simp

text \<open>The failsafe mode after a save and a load.\<close>

definition stored_failsafe :: "pwm_failsafe_mode \<Rightarrow> pwm_failsafe_mode" where
  "stored_failsafe m = pwmFailsafeModeFromPacked (failsafe_code m + 1)"

lemma stored_failsafe [simp]:
  "stored_failsafe Failsafe_Min = Failsafe_Min"
  "stored_failsafe Failsafe_Center = Failsafe_Max"
  "stored_failsafe Failsafe_Max = Failsafe_Center"
  by (simp_all add: stored_failsafe_def pwmFailsafeModeFromPacked_def failsafe_code_def)

lemma load_store_channel:
  assumes "wf_channel c"
  shows "load_channel (store_channel c) = c\<lparr>oc_used := True, oc_failsafe := stored_failsafe (oc_failsafe c)\<rparr>"
  using assms unfolding load_channel_def store_channel_def
  by (cases c; cases "oc_type c"; cases "oc_mix c"; cases "oc_failsafe c")
     (auto simp: b2u_def uint_u8 wf_channel_def percent_range_def pwmFailsafeModeFromPacked_def failsafe_code_def)

section \<open>What an operation on one channel leaves alone\<close>

definition only_channel :: "nat \<Rightarrow> rc_state \<Rightarrow> rc_state \<Rightarrow> bool" where
  "only_channel i s s' \<longleftrightarrow> rc_inputs s' = rc_inputs s \<and> rc_virtual s' = rc_virtual s \<and> rc_toggles s' = rc_toggles s \<and>
     length (rc_outputs s') = length (rc_outputs s) \<and> length (rc_servos s') = length (rc_servos s) \<and>
     length (rc_attached s') = length (rc_attached s) \<and> length (rc_output s') = length (rc_output s) \<and>
     (\<forall>j. j \<noteq> i \<longrightarrow> rc_outputs s' ! j = rc_outputs s ! j \<and> rc_servos s' ! j = rc_servos s ! j \<and>
        rc_attached s' ! j = rc_attached s ! j \<and> rc_output s' ! j = rc_output s ! j)"

lemma only_refl [simp]: "only_channel i s s"
  by (simp add: only_channel_def)

lemma only_trans [trans]: "only_channel i s s' \<Longrightarrow> only_channel i s' s'' \<Longrightarrow> only_channel i s s''"
  by (simp add: only_channel_def)

lemma only_basic [simp]:
  "only_channel i s (set_out i oc s)" "only_channel i s (set_runtime i v s)" "only_channel i s (digitalWrite p l s)"
  "only_channel i s (writeMicroseconds i us s)" "only_channel i s (detach i s)" "only_channel i s (releaseOutputHardware i s)"
  "only_channel i s (s\<lparr>rc_attached := (rc_attached s)[i := b]\<rparr>)"
  by (simp_all add: only_channel_def set_out_def set_runtime_def digitalWrite_def writeMicroseconds_def detach_def
      releaseOutputHardware_def)

lemma only_failsafe [simp]: "only_channel i s (writeFailsafeForOutput i s)"
  unfolding writeFailsafeForOutput_def Let_def
  by (auto intro: only_trans [OF _ only_basic(2)])

lemma only_attach: "tryAttachOnPin bd i p s = (b, s') \<Longrightarrow> only_channel i s s'"
  by (auto simp: tryAttachOnPin_def only_channel_def detach_def Let_def split: if_splits)

lemma only_pins: "only_channel i s (tryPins bd i r ps s)"
  by (induction bd i r ps s rule: tryPins.induct)
     (auto split: prod.splits bool.splits dest: only_attach intro: only_trans)

lemma only_setup: "setupOutputHardware bd i s = (e, s') \<Longrightarrow> only_channel i s s'"
  unfolding setupOutputHardware_def Let_def
  by (auto split: if_splits prod.splits dest!: only_attach
      intro: only_trans [OF only_trans [OF _ only_pins] only_failsafe] only_trans [OF _ only_failsafe]
        only_trans [OF _ only_pins] only_trans [OF only_basic(3) only_failsafe])

lemma pin_used_only:
  assumes "only_channel i s s'"
  shows "outputPinAlreadyUsed p i s' = outputPinAlreadyUsed p i s"
  using assms by (auto simp: outputPinAlreadyUsed_def only_channel_def out_at_def)

section \<open>Setting up one channel\<close>

definition rc_shape :: "rc_state \<Rightarrow> bool" where
  "rc_shape s \<longleftrightarrow> length (rc_inputs s) = kMaxVirtualInputs \<and> length (rc_outputs s) = kMaxOutputChannels \<and>
     length (rc_servos s) = kMaxOutputChannels \<and> length (rc_attached s) = kMaxOutputChannels \<and>
     length (rc_output s) = kMaxOutputChannels \<and> length (rc_virtual s) = kMaxVirtualInputs \<and>
     length (rc_toggles s) = kMaxVirtualInputs"

lemma shape_only: "only_channel i s s' \<Longrightarrow> rc_shape s \<Longrightarrow> rc_shape s'"
  by (simp add: rc_shape_def only_channel_def)

text \<open>Channel \<open>i\<close> drives its own pin, and no other used channel claims it.\<close>

definition placed :: "board \<Rightarrow> nat \<Rightarrow> rc_state \<Rightarrow> bool" where
  "placed bd i s \<longleftrightarrow> \<not> outputPinAlreadyUsed (oc_pin (out_at s i)) i s \<and>
     (oc_type (out_at s i) = Channel_Pwm \<longrightarrow> rc_attached s ! i \<and>
        sv_pin (rc_servos s ! i) = Some (oc_pin (out_at s i)) \<and> bd_has_pwm bd (uint (oc_pin (out_at s i))))"

text \<open>The channel after an attempt: on another pin, or as it was.\<close>

definition moved_to :: "board \<Rightarrow> nat \<Rightarrow> u8 \<Rightarrow> rc_state \<Rightarrow> rc_state \<Rightarrow> bool" where
  "moved_to bd i p s s' \<longleftrightarrow> out_at s' i = (out_at s i)\<lparr>oc_pin := p\<rparr> \<and> rc_attached s' ! i \<and>
     sv_pin (rc_servos s' ! i) = Some p \<and> bd_has_pwm bd (uint p) \<and> \<not> outputPinAlreadyUsed p i s"

definition unmoved :: "nat \<Rightarrow> rc_state \<Rightarrow> rc_state \<Rightarrow> bool" where
  "unmoved i s s' \<longleftrightarrow> rc_outputs s' = rc_outputs s \<and> rc_attached s' = rc_attached s"

lemma attach_cases:
  assumes "tryAttachOnPin bd i p s = (b, s')" "rc_shape s" "i < kMaxOutputChannels"
  shows "if b then moved_to bd i p s s' else unmoved i s s'"
  using assms by (auto simp: tryAttachOnPin_def moved_to_def unmoved_def detach_def out_at_def rc_shape_def Let_def
      split: if_splits)

lemma pins_cases:
  assumes "rc_shape s" "i < kMaxOutputChannels"
  shows "unmoved i s (tryPins bd i r ps s) \<or> (\<exists>p. moved_to bd i p s (tryPins bd i r ps s))"
  using assms(1)
proof (induction ps arbitrary: s)
  case Nil
  then show ?case by (simp add: unmoved_def)
next
  case (Cons q ps)
  obtain b s1 where a: "tryAttachOnPin bd i (u8_of (int q)) s = (b, s1)" by fastforce
  have sh: "rc_shape s1" using Cons.prems only_attach [OF a] by (rule shape_only [rotated])
  show ?case
  proof (cases "int q = uint r")
    case True
    then show ?thesis using Cons by simp
  next
    case False
    show ?thesis
    proof (cases b)
      case True
      then show ?thesis using False a attach_cases [OF a Cons.prems assms(2)] by auto
    next
      case fb: False
      then have u: "unmoved i s s1" using attach_cases [OF a Cons.prems assms(2)] by simp
      have "outputPinAlreadyUsed p i s1 = outputPinAlreadyUsed p i s" for p by (rule pin_used_only [OF only_attach [OF a]])
      then show ?thesis using Cons.IH [OF sh] u False fb a by (auto simp: unmoved_def moved_to_def out_at_def)
    qed
  qed
qed

text \<open>Channel \<open>i\<close> is at its failsafe.\<close>

definition failsafe_signal :: "output_channel \<Rightarrow> rat" where
  "failsafe_signal oc = (if oc_type oc = Channel_Switch then 0
     else case oc_failsafe oc of Failsafe_Min \<Rightarrow> - 1 | Failsafe_Max \<Rightarrow> 1 | Failsafe_Center \<Rightarrow> 0)"

definition channel_safe :: "nat \<Rightarrow> rc_state \<Rightarrow> bool" where
  "channel_safe i s \<longleftrightarrow> rc_output s ! i = failsafe_signal (out_at s i) \<and>
     (if oc_type (out_at s i) = Channel_Pwm
      then rc_attached s ! i \<and> sv_pin (rc_servos s ! i) \<noteq> None \<longrightarrow>
        sv_us (rc_servos s ! i) = pwmFailsafeUs (oc_failsafe (out_at s i))
      else rc_gpio s (oc_pin (out_at s i)) = Some False)"

lemma failsafe_keeps [simp]:
  "rc_outputs (writeFailsafeForOutput i s) = rc_outputs s"
  "rc_attached (writeFailsafeForOutput i s) = rc_attached s"
  "out_at (writeFailsafeForOutput i s) j = out_at s j"
  by (simp_all add: writeFailsafeForOutput_def set_runtime_def writeMicroseconds_def digitalWrite_def out_at_def Let_def)

lemma failsafe_servo_pin [simp]: "sv_pin (rc_servos (writeFailsafeForOutput i s) ! j) = sv_pin (rc_servos s ! j)"
  by (cases "j < length (rc_servos s)"; cases "j = i")
     (simp_all add: writeFailsafeForOutput_def set_runtime_def writeMicroseconds_def digitalWrite_def Let_def
       list_update_beyond)

lemma failsafe_gpio: "rc_gpio s p = Some False \<Longrightarrow> rc_gpio (writeFailsafeForOutput i s) p = Some False"
  by (auto simp: writeFailsafeForOutput_def set_runtime_def writeMicroseconds_def digitalWrite_def Let_def)

lemma channel_type_cases: "oc_type c \<noteq> Channel_Pwm \<longleftrightarrow> oc_type c = Channel_Switch"
  by (cases "oc_type c") simp_all

lemma failsafe_safe:
  assumes "oc_used (out_at s i)" "rc_shape s" "i < kMaxOutputChannels"
  shows "channel_safe i (writeFailsafeForOutput i s)"
  using assms by (cases "oc_failsafe (out_at s i)")
    (auto simp: channel_safe_def failsafe_signal_def channel_type_cases writeFailsafeForOutput_def set_runtime_def
      writeMicroseconds_def digitalWrite_def out_at_def rc_shape_def pwmFailsafeUs_def Let_def)

lemma placed_failsafe [simp]: "placed bd j (writeFailsafeForOutput i s) = placed bd j s"
  by (simp add: placed_def outputPinAlreadyUsed_def)

definition re_pinned :: "nat \<Rightarrow> rc_state \<Rightarrow> rc_state \<Rightarrow> bool" where
  "re_pinned i s s' \<longleftrightarrow> (\<exists>p. out_at s' i = (out_at s i)\<lparr>oc_pin := p\<rparr> \<and>
     (oc_type (out_at s i) = Channel_Switch \<longrightarrow> p = oc_pin (out_at s i)))"

lemma same_pin: "c\<lparr>oc_pin := oc_pin c\<rparr> = c"
  by simp

lemma re_pinned_refl: "out_at s' i = out_at s i \<Longrightarrow> re_pinned i s s'"
  unfolding re_pinned_def by (metis same_pin)

lemma re_pinned_trans:
  assumes "re_pinned i s s1" "re_pinned i s1 s2"
  shows "re_pinned i s s2"
proof -
  from assms(1) obtain p where p: "out_at s1 i = (out_at s i)\<lparr>oc_pin := p\<rparr>"
    "oc_type (out_at s i) = Channel_Switch \<longrightarrow> p = oc_pin (out_at s i)" by (auto simp: re_pinned_def)
  from assms(2) obtain q where "out_at s2 i = (out_at s1 i)\<lparr>oc_pin := q\<rparr>"
    "oc_type (out_at s1 i) = Channel_Switch \<longrightarrow> q = oc_pin (out_at s1 i)" by (auto simp: re_pinned_def)
  with p show ?thesis unfolding re_pinned_def by (intro exI [of _ q]) auto
qed

lemma moved_to_placed: "moved_to bd i p s s' \<Longrightarrow> only_channel i s s' \<Longrightarrow> placed bd i s'"
  by (simp add: moved_to_def placed_def pin_used_only)

lemma setup_placed:
  assumes r: "setupOutputHardware bd i s = (None, s')" and sh: "rc_shape s" and i: "i < kMaxOutputChannels"
    and u: "oc_used (out_at s i)" and fresh: "oc_type (out_at s i) = Channel_Pwm \<longrightarrow> \<not> rc_attached s ! i"
  shows "placed bd i s' \<and> channel_safe i s' \<and> re_pinned i s s'"
proof (cases "oc_type (out_at s i) = Channel_Pwm")
  case pwm: True
  then have loose: "\<not> rc_attached s ! i" using fresh by simp
  obtain b s1 where a: "tryAttachOnPin bd i (oc_pin (out_at s i)) s = (b, s1)" by fastforce
  define s2 where "s2 = (if b then s1 else tryPins bd i (oc_pin (out_at s i)) [0..<49] s1)"
  have sh1: "rc_shape s1" using only_attach [OF a] sh by (rule shape_only)
  have o2: "only_channel i s s2" using only_attach [OF a] only_pins by (auto simp: s2_def intro: only_trans)
  have s': "s' = writeFailsafeForOutput i s2" and att: "b \<or> rc_attached s2 ! i"
    using r pwm a by (auto simp: setupOutputHardware_def s2_def Let_def split: if_splits)
  have pin1: "outputPinAlreadyUsed p i s1 = outputPinAlreadyUsed p i s" for p by (rule pin_used_only [OF only_attach [OF a]])
  have "\<exists>p. moved_to bd i p s s2"
  proof (cases b)
    case True
    then show ?thesis using attach_cases [OF a sh i] by (auto simp: s2_def)
  next
    case False
    then have "unmoved i s s1" using attach_cases [OF a sh i] by simp
    moreover have "unmoved i s1 s2 \<or> (\<exists>p. moved_to bd i p s1 s2)" using pins_cases [OF sh1 i] False by (simp add: s2_def)
    ultimately show ?thesis using False att loose pin1 by (auto simp: unmoved_def moved_to_def out_at_def)
  qed
  then obtain p where m: "moved_to bd i p s s2" ..
  then have "out_at s2 i = (out_at s i)\<lparr>oc_pin := p\<rparr>" by (simp add: moved_to_def)
  then show ?thesis
    using moved_to_placed [OF m o2] failsafe_safe [of s2 i] shape_only [OF o2 sh] i u pwm
    by (auto simp: s' re_pinned_def)
next
  case False
  then have np: "\<not> outputPinAlreadyUsed (oc_pin (out_at s i)) i s"
    and s': "s' = writeFailsafeForOutput i (digitalWrite (oc_pin (out_at s i)) False s)"
    using r by (auto simp: setupOutputHardware_def Let_def split: if_splits)
  have o: "out_at (digitalWrite p l s) j = out_at s j" for p l j by (simp add: out_at_def digitalWrite_def)
  have "rc_shape (digitalWrite (oc_pin (out_at s i)) False s)" using sh by (rule shape_only [rotated]) simp
  with np False u i show ?thesis
    by (auto simp: s' placed_def o pin_used_only [OF only_trans [OF only_basic(3) only_failsafe]]
        intro!: failsafe_safe re_pinned_refl)
qed

lemma setup_ok:
  assumes "setupOutputHardware bd i s = (None, s')" "rc_shape s" "i < kMaxOutputChannels"
    "oc_used (out_at s i)" "\<not> rc_attached s ! i"
  shows "placed bd i s' \<and> channel_safe i s' \<and> re_pinned i s s'"
  using assms by (intro setup_placed) simp_all

lemma setup_gpio: "setupOutputHardware bd i s = (e, s') \<Longrightarrow> rc_gpio s p = Some False \<Longrightarrow> rc_gpio s' p = Some False"
proof -
  assume r: "setupOutputHardware bd i s = (e, s')" and g: "rc_gpio s p = Some False"
  have at: "rc_gpio s2 = rc_gpio s1" if "tryAttachOnPin bd i q s1 = (b, s2)" for q s1 s2 b
    using that by (auto simp: tryAttachOnPin_def detach_def Let_def split: if_splits)
  have pins: "rc_gpio (tryPins bd i q ps s1) = rc_gpio s1" for q ps s1
    by (induction ps arbitrary: s1) (auto split: prod.splits bool.splits dest: at)
  show ?thesis using r g at pins
    by (auto simp: setupOutputHardware_def digitalWrite_def Let_def split: if_splits prod.splits intro!: failsafe_gpio)
qed

section \<open>Setting up all channels\<close>

definition gpio_low_kept :: "rc_state \<Rightarrow> rc_state \<Rightarrow> bool" where
  "gpio_low_kept s s' \<longleftrightarrow> (\<forall>p. rc_gpio s p = Some False \<longrightarrow> rc_gpio s' p = Some False)"

lemma channel_safe_only:
  "only_channel i s s' \<Longrightarrow> gpio_low_kept s s' \<Longrightarrow> j \<noteq> i \<Longrightarrow> channel_safe j s \<Longrightarrow> channel_safe j s'"
  by (auto simp: only_channel_def channel_safe_def gpio_low_kept_def out_at_def split: if_splits)

lemma outside_length: "only_channel i s s' \<Longrightarrow> length (rc_outputs s') = length (rc_outputs s)"
  by (simp add: only_channel_def)

lemma placed_only:
  assumes o: "only_channel i s s'" and j: "j \<noteq> i" "oc_used (out_at s j)" "placed bd j s" "j < length (rc_outputs s)"
    and i: "placed bd i s'"
  shows "placed bd j s'"
proof -
  have eq: "out_at s' k = out_at s k" if "k \<noteq> i" for k using o that by (simp add: only_channel_def out_at_def)
  have "\<not> outputPinAlreadyUsed (oc_pin (out_at s j)) j s'"
  proof
    assume "outputPinAlreadyUsed (oc_pin (out_at s j)) j s'"
    then obtain k where k: "k < length (rc_outputs s)" "k \<noteq> j" "oc_used (out_at s' k)" "oc_pin (out_at s' k) = oc_pin (out_at s j)"
      by (auto simp: outputPinAlreadyUsed_def outside_length [OF o])
    show False
    proof (cases "k = i")
      case True
      have "outputPinAlreadyUsed (oc_pin (out_at s' i)) i s'"
        unfolding outputPinAlreadyUsed_def using j k True eq [OF j(1)] by (auto simp: outside_length [OF o] intro!: bexI [of _ j])
      with i show False by (simp add: placed_def)
    next
      case False
      with k j(3) eq [OF False] show False by (auto simp: placed_def outputPinAlreadyUsed_def)
    qed
  qed
  with j o show ?thesis by (simp add: placed_def eq) (simp add: only_channel_def)
qed

text \<open>Every used channel below \<open>n\<close> is set up and at its failsafe.\<close>

definition set_up_below :: "board \<Rightarrow> nat \<Rightarrow> rc_state \<Rightarrow> bool" where
  "set_up_below bd n s \<longleftrightarrow> (\<forall>j < n. oc_used (out_at s j) \<longrightarrow> placed bd j s \<and> channel_safe j s)"

definition no_stale_from :: "nat \<Rightarrow> rc_state \<Rightarrow> bool" where
  "no_stale_from n s \<longleftrightarrow> (\<forall>j < kMaxOutputChannels. n \<le> j \<longrightarrow> \<not> rc_attached s ! j)"

definition hardware_ok :: "board \<Rightarrow> rc_state \<Rightarrow> bool" where
  "hardware_ok bd s \<longleftrightarrow> (\<forall>j < kMaxOutputChannels. oc_used (out_at s j) \<longrightarrow> placed bd j s)"

definition at_failsafe :: "rc_state \<Rightarrow> bool" where
  "at_failsafe s \<longleftrightarrow> (\<forall>j < kMaxOutputChannels. oc_used (out_at s j) \<longrightarrow> channel_safe j s)"

lemma set_up_step:
  assumes r: "setupOutputHardware bd i s = (None, s')" and sh: "rc_shape s" and i: "i < kMaxOutputChannels"
    and u: "oc_used (out_at s i)" and n: "\<not> rc_attached s ! i"
    and inv: "set_up_below bd i s0" "only_channel i s0 s" "gpio_low_kept s0 s"
  shows "set_up_below bd (Suc i) s' \<and> rc_shape s' \<and> re_pinned i s s' \<and> only_channel i s s'"
proof -
  have o: "only_channel i s s'" using r by (rule only_setup)
  have o0: "only_channel i s0 s'" using inv(2) o by (rule only_trans)
  have g: "gpio_low_kept s0 s'" using setup_gpio [OF r] inv(3) by (simp add: gpio_low_kept_def)
  have ok: "placed bd i s'" "channel_safe i s'" "re_pinned i s s'"
    using setup_ok [OF r sh i u n] by simp_all
  have "placed bd j s' \<and> channel_safe j s'" if j: "j < Suc i" "oc_used (out_at s' j)" for j
  proof (cases "j = i")
    case True
    with ok show ?thesis by simp
  next
    case False
    then have "oc_used (out_at s0 j)" "j < i" "j < length (rc_outputs s0)"
      using j o0 inv(2) i sh by (auto simp: only_channel_def out_at_def rc_shape_def)
    then show ?thesis
      using inv(1) placed_only [OF o0 False _ _ _ ok(1)] channel_safe_only [OF o0 g False]
      by (auto simp: set_up_below_def)
  qed
  then show ?thesis using ok(3) o shape_only [OF o sh] by (simp add: set_up_below_def)
qed

lemma setup_all_ok:
  assumes "setup_all bd is s = (None, s')" "is = [n..<kMaxOutputChannels]" "n \<le> kMaxOutputChannels"
    "rc_shape s" "\<forall>j < kMaxOutputChannels. n \<le> j \<and> oc_used (out_at s j) \<longrightarrow> \<not> rc_attached s ! j" "set_up_below bd n s"
  shows "set_up_below bd kMaxOutputChannels s' \<and> rc_shape s' \<and> (\<forall>j. re_pinned j s s')"
  using assms
proof (induction "is" arbitrary: n s)
  case Nil
  from Nil.prems(2,3) have "n = kMaxOutputChannels" by (metis upt_eq_Nil_conv le_antisym bot_nat_0.extremum_uniqueI)
  with Nil show ?case by (auto intro: re_pinned_refl)
next
  case (Cons i "is")
  have i: "i = n" "n < kMaxOutputChannels" "is = [Suc n..<kMaxOutputChannels]"
    using Cons.prems(2) [symmetric] by (auto simp only: upt_eq_Cons_conv Suc_eq_plus1)
  show ?case
  proof (cases "oc_used (out_at s i)")
    case False
    with Cons.prems(6) i have "set_up_below bd (Suc n) s" by (auto simp: set_up_below_def less_Suc_eq)
    with False Cons.IH [of s "Suc n"] Cons.prems i show ?thesis by simp
  next
    case True
    obtain s1 where r: "setupOutputHardware bd i s = (None, s1)" "setup_all bd is s1 = (None, s')"
      using Cons.prems(1) True by (auto split: prod.splits option.splits)
    have ok: "set_up_below bd (Suc n) s1" "rc_shape s1" "re_pinned i s s1" and o: "only_channel i s s1"
      using set_up_step [OF r(1) Cons.prems(4), of s] Cons.prems(5,6) i True by (auto simp: gpio_low_kept_def)
    have "\<forall>j < kMaxOutputChannels. Suc n \<le> j \<and> oc_used (out_at s1 j) \<longrightarrow> \<not> rc_attached s1 ! j"
      using Cons.prems(5) o i by (auto simp: only_channel_def out_at_def)
    then have fin: "set_up_below bd kMaxOutputChannels s' \<and> rc_shape s' \<and> (\<forall>j. re_pinned j s1 s')"
      using Cons.IH [OF r(2) i(3)] i ok by simp
    have "re_pinned j s s'" for j
    proof (cases "j = i")
      case True
      with fin ok(3) show ?thesis by (blast intro: re_pinned_trans)
    next
      case False
      then have "re_pinned j s s1" using o by (intro re_pinned_refl) (simp add: only_channel_def out_at_def)
      with fin show ?thesis by (blast intro: re_pinned_trans)
    qed
    with fin show ?thesis by blast
  qed
qed

section \<open>Rebuilding the hardware\<close>

lemma release_facts [simp]:
  "rc_outputs (release_used i s) = rc_outputs s" "rc_inputs (release_used i s) = rc_inputs s"
  "out_at (release_used i s) j = out_at s j" "rc_gpio (release_used i s) = rc_gpio s"
  "rc_toggles (release_used i s) = rc_toggles s"
  by (simp_all add: release_used_def releaseOutputHardware_def detach_def out_at_def)

lemma release_shape [simp]: "rc_shape (release_used i s) = rc_shape s"
  by (simp add: release_used_def releaseOutputHardware_def detach_def rc_shape_def)

lemma release_attached:
  "i < length (rc_attached s) \<Longrightarrow>
     rc_attached (release_used i s) ! j = (rc_attached s ! j \<and> \<not> (j = i \<and> oc_used (out_at s i)))"
  by (auto simp: release_used_def releaseOutputHardware_def detach_def nth_list_update)

lemma fold_release:
  assumes "\<forall>i \<in> set xs. i < kMaxOutputChannels" "rc_shape s"
  shows "rc_outputs (fold release_used xs s) = rc_outputs s \<and> rc_inputs (fold release_used xs s) = rc_inputs s \<and>
    rc_gpio (fold release_used xs s) = rc_gpio s \<and> rc_toggles (fold release_used xs s) = rc_toggles s \<and>
    rc_shape (fold release_used xs s) \<and>
    (\<forall>j. rc_attached (fold release_used xs s) ! j = (rc_attached s ! j \<and> \<not> (j \<in> set xs \<and> oc_used (out_at s j))))"
  using assms
proof (induction xs arbitrary: s)
  case Nil
  then show ?case by simp
next
  case (Cons i xs)
  have "i < length (rc_attached s)" using Cons.prems by (simp add: rc_shape_def)
  then show ?case using Cons.IH [of "release_used i s"] Cons.prems by (auto simp: release_attached)
qed

lemma setup_all_inputs: "setup_all bd is s = (e, s') \<Longrightarrow> rc_inputs s' = rc_inputs s"
proof (induction "is" arbitrary: s)
  case Nil
  then show ?case by simp
next
  case (Cons i "is")
  show ?case
  proof (cases "oc_used (out_at s i)")
    case False
    with Cons show ?thesis by simp
  next
    case True
    obtain f s1 where r: "setupOutputHardware bd i s = (f, s1)" by fastforce
    have "rc_inputs s1 = rc_inputs s" using only_setup [OF r] by (simp add: only_channel_def)
    with Cons r True show ?thesis by (cases f) auto
  qed
qed

lemma rebuild_ok:
  assumes "rebuildOutputHardware bd s = (None, s')" "rc_shape s"
  shows "hardware_ok bd s' \<and> at_failsafe s' \<and> rc_shape s' \<and> (\<forall>i. re_pinned i s s')"
proof -
  define s0 where "s0 = fold release_used [0..<kMaxOutputChannels] s"
  have f: "rc_outputs s0 = rc_outputs s" "rc_shape s0"
    "\<forall>j. rc_attached s0 ! j = (rc_attached s ! j \<and> \<not> (j < kMaxOutputChannels \<and> oc_used (out_at s j)))"
    using fold_release [of "[0..<kMaxOutputChannels]" s] assms(2) by (simp_all add: s0_def)
  have "setup_all bd [0..<kMaxOutputChannels] s0 = (None, s')"
    using assms by (simp add: rebuildOutputHardware_def s0_def rc_shape_def Let_def)
  then have "set_up_below bd kMaxOutputChannels s' \<and> rc_shape s' \<and> (\<forall>i. re_pinned i s0 s')"
    using setup_all_ok [of bd "[0..<kMaxOutputChannels]" s0 s' 0] f by (simp add: set_up_below_def out_at_def)
  then show ?thesis using f(1) by (simp add: set_up_below_def hardware_ok_def at_failsafe_def re_pinned_def out_at_def)
qed

section \<open>Applying a configuration\<close>

definition no_stale :: "rc_state \<Rightarrow> bool" where
  "no_stale s \<longleftrightarrow> (\<forall>j < kMaxOutputChannels. rc_attached s ! j \<longrightarrow> oc_used (out_at s j))"

definition cf_shape :: "persisted_config \<Rightarrow> bool" where
  "cf_shape cfg \<longleftrightarrow> length (cf_inputs cfg) = kMaxVirtualInputs \<and> length (cf_channels cfg) = kMaxOutputChannels"

definition channel_loaded :: "persisted_channel \<Rightarrow> nat \<Rightarrow> rc_state \<Rightarrow> bool" where
  "channel_loaded p j s \<longleftrightarrow>
     (if pc_used p = 0 then out_at s j = OutputChannelConfig \<and> \<not> rc_attached s ! j
      else \<exists>pin. out_at s j = (load_channel p)\<lparr>oc_pin := pin\<rparr> \<and> (pc_type p = 1 \<longrightarrow> pin = pc_pin p))"

lemma channel_loaded_only: "only_channel i s s' \<Longrightarrow> j \<noteq> i \<Longrightarrow> channel_loaded p j s' = channel_loaded p j s"
  by (simp add: channel_loaded_def only_channel_def out_at_def)

lemma load_channel_simps [simp]:
  "oc_used (load_channel p)" "(oc_type (load_channel p) = Channel_Switch) = (pc_type p = 1)"
  "oc_pin (load_channel p) = pc_pin p"
  by (simp_all add: load_channel_def)

lemma out_set_out [simp]: "i < kMaxOutputChannels \<Longrightarrow> rc_shape s \<Longrightarrow> out_at (set_out i oc s) i = oc"
  by (simp add: out_at_def set_out_def rc_shape_def)

lemma load_output_cases:
  assumes "load_output bd p i s = (e, s')" "rc_shape s" "i < kMaxOutputChannels"
  shows "only_channel i s s' \<and> (e = None \<longrightarrow> (\<exists>pin. setupOutputHardware bd i (set_out i ((load_channel p)\<lparr>oc_pin := pin\<rparr>) s) = (None, s') \<and>
     (pc_type p = 1 \<longrightarrow> pin = pc_pin p)))"
proof -
  have *: "set_out i c (set_out i d t) = set_out i c t" for c d t by (simp add: set_out_def)
  have lc: "(load_channel p)\<lparr>oc_pin := pc_pin p\<rparr> = load_channel p" by (metis load_channel_simps(3) same_pin)
  have o: "only_channel i s t" if "setupOutputHardware bd i (set_out i c s) = (f, t)" for c f t
    using only_trans [OF only_basic(1) only_setup [OF that]] .
  show ?thesis using assms unfolding load_output_def
    by (auto simp: Let_def * split: if_splits option.splits prod.splits intro: o)
       (metis lc load_channel_simps(2) channel_type.distinct(1))+
qed

lemma load_output_ok:
  assumes "load_output bd p i s = (None, s')" "rc_shape s" "i < kMaxOutputChannels" "\<not> rc_attached s ! i"
    "set_up_below bd i s" "pc_used p \<noteq> 0"
  shows "set_up_below bd (Suc i) s' \<and> rc_shape s' \<and> only_channel i s s' \<and> channel_loaded p i s'"
proof -
  obtain pin where pin: "setupOutputHardware bd i (set_out i ((load_channel p)\<lparr>oc_pin := pin\<rparr>) s) = (None, s')"
    "pc_type p = 1 \<longrightarrow> pin = pc_pin p" and o: "only_channel i s s'"
    using load_output_cases [OF assms(1-3)] by auto
  let ?s = "set_out i ((load_channel p)\<lparr>oc_pin := pin\<rparr>) s"
  have sh: "rc_shape ?s" by (rule shape_only [OF only_basic(1) assms(2)])
  have r: "set_up_below bd (Suc i) s' \<and> rc_shape s' \<and> re_pinned i ?s s'"
    using set_up_step [OF pin(1) sh assms(3), of s] assms by (simp add: gpio_low_kept_def) (simp add: set_out_def)
  then have "channel_loaded p i s'" using pin(2) assms by (auto simp: re_pinned_def channel_loaded_def)
  with r o show ?thesis by simp
qed

lemma load_outputs_ok:
  assumes "load_outputs bd (drop n cs) n s = (None, s')" "length cs = kMaxOutputChannels" "n \<le> kMaxOutputChannels"
    "rc_shape s" "set_up_below bd n s" "\<forall>j < n. channel_loaded (cs ! j) j s"
    "\<forall>j < kMaxOutputChannels. n \<le> j \<longrightarrow> out_at s j = OutputChannelConfig \<and> \<not> rc_attached s ! j"
  shows "set_up_below bd kMaxOutputChannels s' \<and> rc_shape s' \<and> rc_inputs s' = rc_inputs s \<and>
    (\<forall>j < kMaxOutputChannels. channel_loaded (cs ! j) j s')"
  using assms(3-) assms(1)
proof (induction arbitrary: s rule: inc_induct)
  case base
  with assms(2) show ?case by simp
next
  case (step n)
  have d: "drop n cs = cs ! n # drop (Suc n) cs" using step.hyps assms(2) by (simp add: Cons_nth_drop_Suc)
  show ?case
  proof (cases "pc_used (cs ! n) = 0")
    case True
    have "\<not> oc_used OutputChannelConfig" by (simp add: OutputChannelConfig_def)
    then have "set_up_below bd (Suc n) s" using step.prems(2,4) step.hyps by (auto simp: set_up_below_def less_Suc_eq)
    moreover have "\<forall>j < Suc n. channel_loaded (cs ! j) j s"
      using step.prems(3,4) step.hyps True by (auto simp: channel_loaded_def less_Suc_eq)
    ultimately show ?thesis using step.IH [of s] step.prems True d by auto
  next
    case False
    obtain s1 where r: "load_output bd (cs ! n) n s = (None, s1)" "load_outputs bd (drop (Suc n) cs) (Suc n) s1 = (None, s')"
      using step.prems(5) d False by (auto split: prod.splits option.splits)
    have ok: "set_up_below bd (Suc n) s1" "rc_shape s1" "channel_loaded (cs ! n) n s1" and o: "only_channel n s s1"
      using load_output_ok [OF r(1)] step.prems(1,2,4) step.hyps False by auto
    have "\<forall>j < Suc n. channel_loaded (cs ! j) j s1"
      using step.prems(3) ok(3) channel_loaded_only [OF o] by (auto simp: less_Suc_eq)
    moreover have "\<forall>j < kMaxOutputChannels. Suc n \<le> j \<longrightarrow> out_at s1 j = OutputChannelConfig \<and> \<not> rc_attached s1 ! j"
      using step.prems(4) o by (auto simp: only_channel_def out_at_def)
    moreover have "rc_inputs s1 = rc_inputs s" using o by (simp add: only_channel_def)
    ultimately show ?thesis using step.IH [of s1] ok(1,2) r(2) by simp
  qed
qed

lemma setup_re_pinned:
  assumes r: "setupOutputHardware bd i s = (e, s')" and sh: "rc_shape s" and i: "i < kMaxOutputChannels"
  shows "re_pinned i s s'"
proof (cases "oc_type (out_at s i) = Channel_Pwm")
  case True
  obtain b s1 where a: "tryAttachOnPin bd i (oc_pin (out_at s i)) s = (b, s1)" by fastforce
  define s2 where "s2 = (if b then s1 else tryPins bd i (oc_pin (out_at s i)) [0..<49] s1)"
  have m: "moved_to bd i p t t' \<Longrightarrow> re_pinned i t t'" if "oc_type (out_at t i) = Channel_Pwm" for p t t'
    using that by (auto simp: moved_to_def re_pinned_def)
  have un: "unmoved i t t' \<Longrightarrow> re_pinned i t t'" for t t'
    by (rule re_pinned_refl) (simp add: unmoved_def out_at_def)
  have "re_pinned i s s2"
  proof (cases b)
    case True
    with attach_cases [OF a sh i] m \<open>oc_type (out_at s i) = Channel_Pwm\<close> show ?thesis by (auto simp: s2_def)
  next
    case False
    then have "unmoved i s s1" using attach_cases [OF a sh i] by simp
    moreover have "oc_type (out_at s1 i) = Channel_Pwm" using calculation True by (simp add: unmoved_def out_at_def)
    ultimately show ?thesis using pins_cases [where bd = bd, OF shape_only [OF only_attach [OF a] sh] i] False m un
      by (simp add: s2_def) (metis re_pinned_trans)
  qed
  moreover have "out_at s' i = out_at s2 i"
    using r True a by (auto simp: setupOutputHardware_def s2_def Let_def split: if_splits)
  ultimately show ?thesis by (simp add: re_pinned_def)
next
  case False
  then have "out_at s' i = out_at s i"
    using r by (auto simp: setupOutputHardware_def Let_def out_at_def digitalWrite_def split: if_splits)
  then show ?thesis by (rule re_pinned_refl)
qed

lemma clear_facts:
  assumes "distinct xs" "\<forall>i \<in> set xs. i < kMaxOutputChannels" "rc_shape s"
  shows "rc_shape (fold (\<lambda>i s. set_out i OutputChannelConfig (release_used i s)) xs s) \<and>
    rc_inputs (fold (\<lambda>i s. set_out i OutputChannelConfig (release_used i s)) xs s) = rc_inputs s \<and>
    rc_toggles (fold (\<lambda>i s. set_out i OutputChannelConfig (release_used i s)) xs s) = rc_toggles s \<and>
    (\<forall>j. out_at (fold (\<lambda>i s. set_out i OutputChannelConfig (release_used i s)) xs s) j =
       (if j \<in> set xs then OutputChannelConfig else out_at s j)) \<and>
    (\<forall>j. rc_attached (fold (\<lambda>i s. set_out i OutputChannelConfig (release_used i s)) xs s) ! j =
       (rc_attached s ! j \<and> \<not> (j \<in> set xs \<and> oc_used (out_at s j))))"
  using assms
proof (induction xs arbitrary: s)
  case Nil
  then show ?case by simp
next
  case (Cons i xs)
  let ?s = "set_out i OutputChannelConfig (release_used i s)"
  have i: "i < kMaxOutputChannels" "i < length (rc_attached s)" using Cons.prems by (auto simp: rc_shape_def)
  have sh: "rc_shape ?s" using Cons.prems(3) by (intro shape_only [OF only_basic(1)]) simp
  have out: "out_at ?s j = (if j = i then OutputChannelConfig else out_at s j)" for j
    using i Cons.prems(3) by (simp add: out_at_def set_out_def rc_shape_def nth_list_update)
  have att: "rc_attached ?s ! j = (rc_attached s ! j \<and> \<not> (j = i \<and> oc_used (out_at s i)))" for j
    using release_attached [OF i(2)] by (simp add: set_out_def)
  have inp: "rc_inputs ?s = rc_inputs s" "rc_toggles ?s = rc_toggles s" by (simp_all add: set_out_def)
  show ?case using Cons.IH [OF _ _ sh] Cons.prems by (auto simp: out att inp)
qed

lemma clear_ok:
  assumes "rc_shape s"
  shows "rc_shape (clear_outputs s)" "rc_inputs (clear_outputs s) = rc_inputs s" "rc_toggles (clear_outputs s) = rc_toggles s"
    "j < kMaxOutputChannels \<Longrightarrow> out_at (clear_outputs s) j = OutputChannelConfig"
    "no_stale s \<Longrightarrow> j < kMaxOutputChannels \<Longrightarrow> \<not> rc_attached (clear_outputs s) ! j"
  using clear_facts [of "[0..<kMaxOutputChannels]" s] assms
  by (auto simp: clear_outputs_def rc_shape_def no_stale_def)

lemma load_inputs_facts [simp]:
  "rc_inputs (load_inputs cfg s) = map load_input (cf_inputs cfg)"
  "rc_attached (load_inputs cfg s) = rc_attached s" "rc_outputs (load_inputs cfg s) = rc_outputs s"
  "out_at (load_inputs cfg s) j = out_at s j"
  by (simp_all add: load_inputs_def out_at_def)

lemma load_inputs_shape: "cf_shape cfg \<Longrightarrow> rc_shape s \<Longrightarrow> rc_shape (load_inputs cfg s)"
  by (simp add: load_inputs_def rc_shape_def cf_shape_def)

lemma fold_failsafe:
  assumes "rc_shape s" "\<forall>i \<in> set xs. i < kMaxOutputChannels"
  shows "rc_outputs (fold writeFailsafeForOutput xs s) = rc_outputs s \<and>
    rc_attached (fold writeFailsafeForOutput xs s) = rc_attached s \<and>
    rc_inputs (fold writeFailsafeForOutput xs s) = rc_inputs s \<and>
    rc_toggles (fold writeFailsafeForOutput xs s) = rc_toggles s \<and>
    rc_virtual (fold writeFailsafeForOutput xs s) = rc_virtual s \<and>
    rc_shape (fold writeFailsafeForOutput xs s) \<and>
    (\<forall>bd j. placed bd j (fold writeFailsafeForOutput xs s) = placed bd j s) \<and>
    (\<forall>j. oc_used (out_at s j) \<and> (j \<in> set xs \<or> channel_safe j s) \<longrightarrow> channel_safe j (fold writeFailsafeForOutput xs s))"
  using assms
proof (induction xs arbitrary: s)
  case Nil
  then show ?case by simp
next
  case (Cons i xs)
  let ?s = "writeFailsafeForOutput i s"
  have o: "only_channel i s ?s" by simp
  have eqs: "rc_inputs ?s = rc_inputs s" "rc_toggles ?s = rc_toggles s" "rc_virtual ?s = rc_virtual s"
    using o by (simp_all add: only_channel_def)
  have sh: "rc_shape ?s" using o Cons.prems(1) by (rule shape_only)
  have g: "gpio_low_kept s ?s" by (simp add: gpio_low_kept_def failsafe_gpio)
  have "channel_safe j ?s" if "oc_used (out_at s j)" "j = i \<or> channel_safe j s" for j
    using that failsafe_safe [of s i] channel_safe_only [OF o g, of j] Cons.prems by (cases "j = i") auto
  then show ?case using Cons.IH [OF sh] Cons.prems eqs by auto
qed

lemma fold_servo_pin: "sv_pin (rc_servos (fold writeFailsafeForOutput xs s) ! j) = sv_pin (rc_servos s ! j)"
  by (induction xs arbitrary: s) simp_all

lemma apply_failsafe_ok:
  assumes "rc_shape s"
  shows "at_failsafe (applyFailsafeAllOutputs s)" "rc_outputs (applyFailsafeAllOutputs s) = rc_outputs s"
    "rc_attached (applyFailsafeAllOutputs s) = rc_attached s" "rc_inputs (applyFailsafeAllOutputs s) = rc_inputs s"
    "rc_toggles (applyFailsafeAllOutputs s) = rc_toggles s" "rc_virtual (applyFailsafeAllOutputs s) = rc_virtual s"
    "rc_shape (applyFailsafeAllOutputs s)" "placed bd j (applyFailsafeAllOutputs s) = placed bd j s"
    "hardware_ok bd (applyFailsafeAllOutputs s) = hardware_ok bd s"
  using fold_failsafe [OF assms, of "[0..<kMaxOutputChannels]"] assms
  by (auto simp: applyFailsafeAllOutputs_def at_failsafe_def hardware_ok_def rc_shape_def out_at_def)

lemma load_outputs_shape:
  assumes "load_outputs bd cs n s = (e, s')" "rc_shape s" "n + length cs \<le> kMaxOutputChannels"
  shows "rc_shape s' \<and> rc_inputs s' = rc_inputs s"
  using assms
proof (induction cs arbitrary: n s)
  case Nil
  then show ?case by simp
next
  case (Cons c cs)
  show ?case
  proof (cases "pc_used c = 0")
    case True
    with Cons show ?thesis by simp
  next
    case False
    obtain f s1 where r: "load_output bd c n s = (f, s1)" by fastforce
    have o: "only_channel n s s1" using load_output_cases [OF r Cons.prems(2)] Cons.prems(3) by simp
    then have "rc_shape s1" "rc_inputs s1 = rc_inputs s" using shape_only [OF o Cons.prems(2)] by (simp_all add: only_channel_def)
    with Cons r False show ?thesis by (cases f) auto
  qed
qed

lemma restore_channel_ok:
  assumes "rc_shape t" "i < kMaxOutputChannels"
  shows "only_channel i t (restore_channel bd (rc_outputs s) old_pwm i t) \<and>
    re_pinned i s (restore_channel bd (rc_outputs s) old_pwm i t)"
proof -
  let ?t1 = "if oc_used (out_at t i) then releaseOutputHardware i t else t"
  let ?t2 = "(set_out i (rc_outputs s ! i) ?t1)\<lparr>rc_attached := (rc_attached ?t1)[i := False]\<rparr>"
  have o1: "only_channel i t ?t1" by simp
  have o2: "only_channel i t ?t2"
    using only_trans [OF o1 only_trans [OF only_basic(1) only_basic(7)]] by (simp add: set_out_def)
  have old: "out_at ?t2 i = out_at s i"
    using assms shape_only [OF o1 assms(1)] by (simp add: out_at_def set_out_def rc_shape_def)
  obtain f t3 where r: "setupOutputHardware bd i ?t2 = (f, t3)" by fastforce
  have "restore_channel bd (rc_outputs s) old_pwm i t = (if oc_used (out_at ?t2 i) \<and> old_pwm ! i then t3 else ?t2)"
    unfolding restore_channel_def Let_def r by simp
  moreover have "re_pinned i s t3" "only_channel i t t3"
    using setup_re_pinned [OF r shape_only [OF o2 assms(1)] assms(2)] old only_trans [OF o2 only_setup [OF r]]
    by (simp_all add: re_pinned_def)
  moreover have "re_pinned i s ?t2" using old by (rule re_pinned_refl)
  ultimately show ?thesis using o2 by simp
qed

lemma restore_fold:
  assumes "rc_shape t" "n \<le> kMaxOutputChannels"
  shows "rc_inputs (fold (restore_channel bd (rc_outputs s) old_pwm) [0..<n] t) = rc_inputs t \<and>
    rc_shape (fold (restore_channel bd (rc_outputs s) old_pwm) [0..<n] t) \<and>
    (\<forall>j < n. re_pinned j s (fold (restore_channel bd (rc_outputs s) old_pwm) [0..<n] t))"
  using assms(2)
proof (induction n)
  case 0
  then show ?case using assms(1) by simp
next
  case (Suc n)
  let ?u = "fold (restore_channel bd (rc_outputs s) old_pwm) [0..<n] t"
  have u: "only_channel n ?u (restore_channel bd (rc_outputs s) old_pwm n ?u)"
    "re_pinned n s (restore_channel bd (rc_outputs s) old_pwm n ?u)"
    using restore_channel_ok [of ?u n] Suc by simp_all
  have "re_pinned j s (restore_channel bd (rc_outputs s) old_pwm n ?u)" if "j < n" for j
    using u(1) Suc that by (auto simp: only_channel_def re_pinned_def out_at_def)
  with u Suc shape_only [OF u(1)] show ?case by (auto simp: less_Suc_eq only_channel_def)
qed

definition config_format_ok :: "persisted_config \<Rightarrow> bool" where
  "config_format_ok cfg \<longleftrightarrow> cf_magic cfg = kConfigMagic \<and> cf_version cfg = kConfigVersion"

lemma apply_success_facts:
  assumes "applyPersistedConfig bd cfg s = (None, s')" "rc_shape s" "no_stale s" "cf_shape cfg"
  shows "rc_inputs s' = map load_input (cf_inputs cfg) \<and> hardware_ok bd s' \<and> at_failsafe s' \<and>
    (\<forall>j < kMaxOutputChannels. channel_loaded (cf_channels cfg ! j) j s') \<and> rc_shape s' \<and> no_stale s'"
proof -
  define s1 where "s1 = load_inputs cfg (clear_outputs s)"
  have sh: "rc_shape s1" using assms(2,4) by (simp add: s1_def load_inputs_shape clear_ok)
  obtain s2 where l: "load_outputs bd (cf_channels cfg) 0 s1 = (None, s2)" and s': "s' = applyFailsafeAllOutputs s2"
    using assms(1) by (auto simp: applyPersistedConfig_def s1_def Let_def split: if_splits prod.splits option.splits)
  have ok: "set_up_below bd kMaxOutputChannels s2" "rc_shape s2" "rc_inputs s2 = rc_inputs s1"
    "\<forall>j < kMaxOutputChannels. channel_loaded (cf_channels cfg ! j) j s2"
    using load_outputs_ok [of bd 0 "cf_channels cfg" s1 s2] l assms(2-4) sh
    by (auto simp: cf_shape_def set_up_below_def s1_def clear_ok)
  have stale: "no_stale s2" using ok(4) by (auto simp: no_stale_def channel_loaded_def split: if_splits)
  show ?thesis
    using ok apply_failsafe_ok [OF ok(2)] stale
    by (auto simp: s' s1_def hardware_ok_def set_up_below_def channel_loaded_def no_stale_def out_at_def)
qed

subsection \<open>From any state\<close>

text \<open>
  The flag of a servo outlives the deletion of its output. Where it is set for an unused channel, a
  servo loaded there counts as attached although no pin could be attached: the channel is excepted.
\<close>

definition stale :: "rc_state \<Rightarrow> nat \<Rightarrow> bool" where
  "stale s j \<longleftrightarrow> rc_attached s ! j \<and> \<not> oc_used (out_at s j)"

definition excepted :: "rc_state \<Rightarrow> nat \<Rightarrow> rc_state \<Rightarrow> bool" where
  "excepted s0 j s \<longleftrightarrow> stale s0 j \<and> oc_type (out_at s j) = Channel_Pwm"

definition drives :: "board \<Rightarrow> nat \<Rightarrow> rc_state \<Rightarrow> bool" where
  "drives bd j s \<longleftrightarrow> (oc_type (out_at s j) = Channel_Pwm \<longrightarrow> rc_attached s ! j \<and>
     sv_pin (rc_servos s ! j) = Some (oc_pin (out_at s j)) \<and> bd_has_pwm bd (uint (oc_pin (out_at s j))))"

definition own_pin :: "rc_state \<Rightarrow> nat \<Rightarrow> rc_state \<Rightarrow> bool" where
  "own_pin s0 j s \<longleftrightarrow> (\<forall>k < kMaxOutputChannels. k \<noteq> j \<longrightarrow> oc_used (out_at s k) \<longrightarrow> \<not> excepted s0 k s \<longrightarrow>
     oc_pin (out_at s k) \<noteq> oc_pin (out_at s j))"

definition set_up_but :: "rc_state \<Rightarrow> board \<Rightarrow> nat \<Rightarrow> rc_state \<Rightarrow> bool" where
  "set_up_but s0 bd n s \<longleftrightarrow> (\<forall>j < n. oc_used (out_at s j) \<longrightarrow>
     channel_safe j s \<and> (\<not> excepted s0 j s \<longrightarrow> drives bd j s \<and> own_pin s0 j s))"

definition channel_set :: "persisted_channel \<Rightarrow> nat \<Rightarrow> rc_state \<Rightarrow> bool" where
  "channel_set p j s \<longleftrightarrow> (if pc_used p = 0 then out_at s j = OutputChannelConfig
     else \<exists>pin. out_at s j = (load_channel p)\<lparr>oc_pin := pin\<rparr> \<and> (pc_type p = 1 \<longrightarrow> pin = pc_pin p))"

lemma placed_drives: "placed bd j s \<Longrightarrow> rc_shape s \<Longrightarrow> drives bd j s \<and> own_pin s0 j s"
  by (auto simp: placed_def drives_def own_pin_def outputPinAlreadyUsed_def rc_shape_def)

lemma setup_safe:
  assumes "setupOutputHardware bd i s = (None, s')" "rc_shape s" "i < kMaxOutputChannels" "oc_used (out_at s i)"
  shows "channel_safe i s'"
proof -
  obtain t where t: "s' = writeFailsafeForOutput i t" "only_channel i s t" "out_at t i = out_at s' i"
    using assms(1) unfolding setupOutputHardware_def Let_def
    by (auto split: if_splits prod.splits dest!: only_attach
        intro!: that intro: only_trans [OF _ only_pins])
  have "oc_used (out_at t i)" using setup_re_pinned [OF assms(1-3)] assms(4) by (auto simp: t(3) re_pinned_def)
  then show ?thesis using failsafe_safe [of t i] shape_only [OF t(2) assms(2)] assms(3) by (simp add: t(1))
qed

lemma set_up_but_step:
  assumes r: "setupOutputHardware bd i s = (None, s')" and sh: "rc_shape s" and i: "i < kMaxOutputChannels"
    and u: "oc_used (out_at s i)" and n: "rc_attached s ! i \<longrightarrow> stale s0 i"
    and inv: "set_up_but s0 bd i s1" "only_channel i s1 s" "gpio_low_kept s1 s" "rc_shape s1"
  shows "set_up_but s0 bd (Suc i) s'"
proof -
  have o: "only_channel i s1 s'" using inv(2) only_setup [OF r] by (rule only_trans)
  have g: "gpio_low_kept s1 s'" using setup_gpio [OF r] inv(3) by (simp add: gpio_low_kept_def)
  have sh': "rc_shape s'" using only_setup [OF r] sh by (rule shape_only)
  have eq: "out_at s' k = out_at s1 k" "rc_attached s' ! k = rc_attached s1 ! k" "rc_servos s' ! k = rc_servos s1 ! k"
    if "k \<noteq> i" for k using o that by (simp_all add: only_channel_def out_at_def)
  have mine: "drives bd i s' \<and> own_pin s0 i s' \<and> \<not> outputPinAlreadyUsed (oc_pin (out_at s' i)) i s'" if "\<not> excepted s0 i s'"
  proof -
    have "oc_type (out_at s' i) = oc_type (out_at s i)" using setup_re_pinned [OF r sh i] by (auto simp: re_pinned_def)
    then have "placed bd i s'" using setup_placed [OF r sh i u] n that by (auto simp: excepted_def)
    then show ?thesis using placed_drives [of bd i s' s0] sh' by (simp add: placed_def [of bd i s'])
  qed
  have "channel_safe j s' \<and> (\<not> excepted s0 j s' \<longrightarrow> drives bd j s' \<and> own_pin s0 j s')"
    if j: "j < Suc i" "oc_used (out_at s' j)" for j
  proof (cases "j = i")
    case True
    with mine setup_safe [OF r sh i u] show ?thesis by simp
  next
    case False
    then have b: "channel_safe j s1" "\<not> excepted s0 j s1 \<longrightarrow> drives bd j s1 \<and> own_pin s0 j s1"
      using inv(1) j eq(1) by (auto simp: set_up_but_def)
    have "oc_pin (out_at s' i) \<noteq> oc_pin (out_at s' j)" if "\<not> excepted s0 i s'"
      using mine [OF that] False j i sh' by (auto simp: outputPinAlreadyUsed_def rc_shape_def)
    then have "own_pin s0 j s1 \<Longrightarrow> own_pin s0 j s'"
      unfolding own_pin_def excepted_def using eq(1) False by metis
    then show ?thesis using b channel_safe_only [OF o g False] eq False by (auto simp: excepted_def drives_def)
  qed
  then show ?thesis by (simp add: set_up_but_def)
qed

lemma load_but_ok:
  assumes "load_outputs bd (drop n cs) n s = (None, s')" "length cs = kMaxOutputChannels" "n \<le> kMaxOutputChannels"
    "rc_shape s" "set_up_but s0 bd n s" "\<forall>j < n. channel_set (cs ! j) j s"
    "\<forall>j < n. rc_attached s ! j \<and> \<not> oc_used (out_at s j) \<longrightarrow> stale s0 j"
    "\<forall>j < kMaxOutputChannels. n \<le> j \<longrightarrow> out_at s j = OutputChannelConfig \<and> (rc_attached s ! j \<longrightarrow> stale s0 j)"
  shows "set_up_but s0 bd kMaxOutputChannels s' \<and> rc_shape s' \<and> rc_inputs s' = rc_inputs s \<and>
    (\<forall>j < kMaxOutputChannels. channel_set (cs ! j) j s' \<and> (stale s' j \<longrightarrow> stale s0 j))"
  using assms(3-) assms(1)
proof (induction arbitrary: s rule: inc_induct)
  case base
  with assms(2) show ?case by (simp add: stale_def)
next
  case (step n)
  have d: "drop n cs = cs ! n # drop (Suc n) cs" using step.hyps assms(2) by (simp add: Cons_nth_drop_Suc)
  have free: "\<not> oc_used OutputChannelConfig" by (simp add: OutputChannelConfig_def)
  show ?case
  proof (cases "pc_used (cs ! n) = 0")
    case True
    have "set_up_but s0 bd (Suc n) s" using free step.prems(2,5) step.hyps by (auto simp: set_up_but_def less_Suc_eq)
    moreover have "\<forall>j < Suc n. channel_set (cs ! j) j s"
      using step.prems(3,5) step.hyps True by (auto simp: channel_set_def less_Suc_eq)
    moreover have "\<forall>j < Suc n. rc_attached s ! j \<and> \<not> oc_used (out_at s j) \<longrightarrow> stale s0 j"
      using step.prems(4,5) step.hyps by (auto simp: less_Suc_eq)
    ultimately show ?thesis using step.IH [of s] step.prems True d by auto
  next
    case False
    obtain s1 where r: "load_output bd (cs ! n) n s = (None, s1)" "load_outputs bd (drop (Suc n) cs) (Suc n) s1 = (None, s')"
      using step.prems(6) d False by (auto split: prod.splits option.splits)
    have n: "n < kMaxOutputChannels" using step.hyps by simp
    obtain pin where pin: "setupOutputHardware bd n (set_out n ((load_channel (cs ! n))\<lparr>oc_pin := pin\<rparr>) s) = (None, s1)"
      "pc_type (cs ! n) = 1 \<longrightarrow> pin = pc_pin (cs ! n)" and o: "only_channel n s s1"
      using load_output_cases [OF r(1) step.prems(1) n] by auto
    let ?s = "set_out n ((load_channel (cs ! n))\<lparr>oc_pin := pin\<rparr>) s"
    have sh: "rc_shape ?s" by (rule shape_only [OF only_basic(1) step.prems(1)])
    have at: "out_at ?s n = (load_channel (cs ! n))\<lparr>oc_pin := pin\<rparr>" using n step.prems(1) by simp
    have b: "set_up_but s0 bd (Suc n) s1"
      using step.prems(1,2,5) step.hyps at
      by (intro set_up_but_step [OF pin(1) sh n, where ?s1.0 = s])
        (simp_all add: gpio_low_kept_def, simp_all add: set_out_def)
    obtain q where q: "out_at s1 n = (load_channel (cs ! n))\<lparr>oc_pin := q\<rparr>" "pc_type (cs ! n) = 1 \<longrightarrow> q = pc_pin (cs ! n)"
      using setup_re_pinned [OF pin(1) sh n] pin(2) unfolding re_pinned_def at by (auto simp: load_channel_simps)
    have eq: "out_at s1 j = out_at s j" "rc_attached s1 ! j = rc_attached s ! j" if "j \<noteq> n" for j
      using o that by (simp_all add: only_channel_def out_at_def)
    have "\<forall>j < Suc n. channel_set (cs ! j) j s1"
      using step.prems(3) eq False q by (auto simp: channel_set_def less_Suc_eq)
    moreover have "\<forall>j < Suc n. rc_attached s1 ! j \<and> \<not> oc_used (out_at s1 j) \<longrightarrow> stale s0 j"
      using step.prems(4) eq q(1) by (auto simp: less_Suc_eq)
    moreover have "\<forall>j < kMaxOutputChannels. Suc n \<le> j \<longrightarrow> out_at s1 j = OutputChannelConfig \<and> (rc_attached s1 ! j \<longrightarrow> stale s0 j)"
      using step.prems(5) eq by auto
    moreover have "rc_inputs s1 = rc_inputs s" using o by (simp add: only_channel_def)
    ultimately show ?thesis using step.IH [of s1] b shape_only [OF o step.prems(1)] r(2) by simp
  qed
qed

lemma clear_stale: "rc_shape s \<Longrightarrow> j < kMaxOutputChannels \<Longrightarrow> rc_attached (clear_outputs s) ! j \<longleftrightarrow> stale s j"
  using clear_facts [of "[0..<kMaxOutputChannels]" s]
  by (auto simp: clear_outputs_def rc_shape_def stale_def)

text \<open>
  C5: A configuration that is applied without an error is in force, whatever the state before: the
  virtual inputs and, up to the pin of a servo, the channels are those of the configuration; every
  output is at its failsafe; every servo is attached to the pin its channel names, a PWM pin of the
  board, and no two channels share a pin. One case is excepted, and it is the code's: the servo of a
  channel whose flag was left set by the deletion of its output (\<open>stale\<close>) counts as attached even when
  no pin could be attached, so nothing is said of it. Without such flags nothing is excepted, and none appears.
\<close>

theorem apply_success:
  assumes "applyPersistedConfig bd cfg s = (None, s')" "rc_shape s" "cf_shape cfg"
  shows "rc_inputs s' = map load_input (cf_inputs cfg) \<and> rc_shape s' \<and> at_failsafe s' \<and>
    (\<forall>j < kMaxOutputChannels. channel_set (cf_channels cfg ! j) j s' \<and> (stale s' j \<longrightarrow> stale s j) \<and>
       (oc_used (out_at s' j) \<and> \<not> excepted s j s' \<longrightarrow> drives bd j s' \<and> own_pin s j s')) \<and>
    ((\<forall>j < kMaxOutputChannels. \<not> stale s j) \<longrightarrow> hardware_ok bd s')"
proof -
  define s1 where "s1 = load_inputs cfg (clear_outputs s)"
  have sh: "rc_shape s1" using assms(2,3) by (simp add: s1_def load_inputs_shape clear_ok)
  obtain s2 where l: "load_outputs bd (cf_channels cfg) 0 s1 = (None, s2)" and s': "s' = applyFailsafeAllOutputs s2"
    using assms(1) by (auto simp: applyPersistedConfig_def s1_def Let_def split: if_splits prod.splits option.splits)
  have ok: "set_up_but s bd kMaxOutputChannels s2" "rc_shape s2" "rc_inputs s2 = rc_inputs s1"
    "\<forall>j < kMaxOutputChannels. channel_set (cf_channels cfg ! j) j s2 \<and> (stale s2 j \<longrightarrow> stale s j)"
    using load_but_ok [of bd 0 "cf_channels cfg" s1 s2 s] l assms(2,3) sh
    by (auto simp: cf_shape_def set_up_but_def s1_def clear_ok clear_stale)
  note fs = apply_failsafe_ok [OF ok(2)]
  have eq: "out_at s' j = out_at s2 j" for j by (simp add: s' fs out_at_def)
  have drv: "drives bd j s' \<and> own_pin s j s'" if "j < kMaxOutputChannels" "oc_used (out_at s' j)" "\<not> excepted s j s'" for j
  proof -
    have d: "drives bd j s2" "own_pin s j s2" using ok(1) that by (auto simp: set_up_but_def excepted_def eq)
    have "sv_pin (rc_servos s' ! j) = sv_pin (rc_servos s2 ! j)"
      unfolding s' applyFailsafeAllOutputs_def by (rule fold_servo_pin)
    with d show ?thesis by (simp add: drives_def own_pin_def excepted_def eq) (simp add: s' fs)
  qed
  moreover have "hardware_ok bd s'" if none: "\<forall>j < kMaxOutputChannels. \<not> stale s j"
  proof -
    have "placed bd j s'" if "j < kMaxOutputChannels" "oc_used (out_at s' j)" for j
      using drv [OF that] none that fs(7) by (auto simp: placed_def drives_def own_pin_def excepted_def
          outputPinAlreadyUsed_def rc_shape_def s')
    then show ?thesis by (simp add: hardware_ok_def)
  qed
  moreover have "channel_set p j s' = channel_set p j s2" "stale s' j = stale s2 j" for p j
    by (simp_all add: channel_set_def stale_def eq) (simp add: s' fs)
  ultimately show ?thesis using ok fs by (simp add: s' s1_def)
qed

lemma apply_failure_facts:
  assumes "applyPersistedConfig bd cfg s = (Some e, s')" "rc_shape s" "cf_shape cfg"
  shows "(e = Invalid_Preset_Format \<longleftrightarrow> \<not> config_format_ok cfg) \<and> (e = Invalid_Preset_Format \<longrightarrow> s' = s) \<and>
    rc_inputs s' = rc_inputs s \<and> (\<forall>j < kMaxOutputChannels. re_pinned j s s')"
proof (cases "config_format_ok cfg")
  case False
  then show ?thesis using assms(1) by (auto simp: applyPersistedConfig_def config_format_ok_def intro: re_pinned_refl)
next
  case True
  define s1 where "s1 = load_inputs cfg (clear_outputs s)"
  have sh: "rc_shape s1" using assms(2,3) by (simp add: s1_def load_inputs_shape clear_ok)
  obtain s2 where l: "load_outputs bd (cf_channels cfg) 0 s1 = (Some e, s2)"
    and s': "s' = restoreOld bd (rc_inputs s) (rc_outputs s) (rc_attached s) s2"
    using assms(1) True
    by (auto simp: applyPersistedConfig_def config_format_ok_def s1_def Let_def split: if_splits prod.splits option.splits)
  have err: "load_outputs bd cs n t = (Some e, t') \<Longrightarrow> e \<noteq> Invalid_Preset_Format" for cs n t t'
    by (induction bd cs n t rule: load_outputs.induct)
       (auto simp: load_output_def Let_def split: if_splits prod.splits option.splits)
  have sh2: "rc_shape (s2\<lparr>rc_inputs := rc_inputs s\<rparr>)"
    using load_outputs_shape [OF l sh] assms(2,3) by (simp add: rc_shape_def cf_shape_def)
  then show ?thesis using restore_fold [OF sh2, of kMaxOutputChannels, where s = s] err [OF l] True assms(2)
    by (simp add: s' restoreOld_def rc_shape_def)
qed

text \<open>
  C6: A configuration that is refused leaves the previous one: an unknown format changes nothing,
  and after any other error the virtual inputs are the old ones and every channel is the old one
  up to the pin of a servo.
\<close>

theorem apply_failure:
  assumes "applyPersistedConfig bd cfg s = (Some e, s')" "rc_shape s" "cf_shape cfg"
  shows "(e = Invalid_Preset_Format \<longleftrightarrow> \<not> config_format_ok cfg) \<and> (e = Invalid_Preset_Format \<longrightarrow> s' = s) \<and>
    rc_inputs s' = rc_inputs s \<and> (\<forall>j < kMaxOutputChannels. re_pinned j s s')"
  using assms by (rule apply_failure_facts)

section \<open>A configuration that fits the board\<close>

definition attaches_always :: "board \<Rightarrow> bool" where
  "attaches_always bd \<longleftrightarrow> (\<forall>servos i pin. bd_attaches bd servos i pin)"

definition fits_board :: "board \<Rightarrow> persisted_config \<Rightarrow> bool" where
  "fits_board bd cfg \<longleftrightarrow> config_format_ok cfg \<and> cf_shape cfg \<and>
     (\<forall>i < kMaxOutputChannels. let p = cf_channels cfg ! i in pc_used p \<noteq> 0 \<longrightarrow>
        sourceValid (pc_source_a p) \<and> sourceValid (pc_source_b p) \<and> sourceValid (pc_source_c p) \<and>
        (pc_type p \<noteq> 1 \<longrightarrow> bd_has_pwm bd (uint (pc_pin p))) \<and>
        (\<forall>j < i. pc_used (cf_channels cfg ! j) \<noteq> 0 \<longrightarrow> pc_pin (cf_channels cfg ! j) \<noteq> pc_pin p))"

definition loaded_channel :: "persisted_channel \<Rightarrow> output_channel" where
  "loaded_channel p = (if pc_used p = 0 then OutputChannelConfig else load_channel p)"

lemma setup_exact:
  assumes "oc_type (out_at s i) = Channel_Pwm \<longrightarrow> bd_has_pwm bd (uint (oc_pin (out_at s i)))"
    "\<not> outputPinAlreadyUsed (oc_pin (out_at s i)) i s" "attaches_always bd" "rc_shape s" "i < kMaxOutputChannels"
  obtains s' where "setupOutputHardware bd i s = (None, s')" "out_at s' i = out_at s i"
proof (cases "oc_type (out_at s i) = Channel_Pwm")
  case True
  obtain b s1 where a: "tryAttachOnPin bd i (oc_pin (out_at s i)) s = (b, s1)" by fastforce
  then have b: b using assms True by (auto simp: tryAttachOnPin_def attaches_always_def Let_def split: if_splits)
  then have "out_at s1 i = out_at s i" using attach_cases [OF a assms(4,5)] by (simp add: moved_to_def)
  with a b True show ?thesis by (intro that [of "writeFailsafeForOutput i s1"]) (simp_all add: setupOutputHardware_def)
next
  case False
  have "out_at (digitalWrite p l s) i = out_at s i" for p l by (simp add: out_at_def digitalWrite_def)
  with False assms(2) show ?thesis by (intro that [of "writeFailsafeForOutput i (digitalWrite (oc_pin (out_at s i)) False s)"])
    (simp_all add: setupOutputHardware_def)
qed

lemma load_output_exact:
  assumes "fits_board bd cfg" "attaches_always bd" "rc_shape s" "i < kMaxOutputChannels" "pc_used (cf_channels cfg ! i) \<noteq> 0"
    "\<forall>j < kMaxOutputChannels. out_at s j = (if j < i then loaded_channel (cf_channels cfg ! j) else OutputChannelConfig)"
  obtains s' where "load_output bd (cf_channels cfg ! i) i s = (None, s')" "only_channel i s s'"
    "out_at s' i = load_channel (cf_channels cfg ! i)"
proof -
  let ?p = "cf_channels cfg ! i"
  let ?s = "set_out i (load_channel ?p) s"
  have f: "sourceValid (pc_source_a ?p)" "sourceValid (pc_source_b ?p)" "sourceValid (pc_source_c ?p)"
    "pc_type ?p \<noteq> 1 \<longrightarrow> bd_has_pwm bd (uint (pc_pin ?p))"
    "\<forall>j < i. pc_used (cf_channels cfg ! j) \<noteq> 0 \<longrightarrow> pc_pin (cf_channels cfg ! j) \<noteq> pc_pin ?p"
    using assms(1,4,5) by (auto simp: fits_board_def Let_def)
  have pwm: "oc_type (load_channel ?p) = Channel_Pwm \<longleftrightarrow> pc_type ?p \<noteq> 1" by (simp add: load_channel_def)
  have "\<not> outputPinAlreadyUsed (pc_pin ?p) i s"
    using assms(3,4,6) f(5) by (auto simp: outputPinAlreadyUsed_def loaded_channel_def OutputChannelConfig_def rc_shape_def
        split: if_splits)
  then have free: "\<not> outputPinAlreadyUsed (pc_pin ?p) i ?s" by (simp add: pin_used_only [OF only_basic(1)])
  have sh: "rc_shape ?s" by (rule shape_only [OF only_basic(1) assms(3)])
  have out: "out_at ?s i = load_channel ?p" using assms(3,4) by simp
  obtain s' where r: "setupOutputHardware bd i ?s = (None, s')" "out_at s' i = out_at ?s i"
    using setup_exact [of ?s i bd] f(4) free assms(2,4) sh by (auto simp: out pwm)
  show ?thesis
  proof (rule that)
    show "load_output bd ?p i s = (None, s')" using f(1-4) r(1) by (auto simp: load_output_def out pwm Let_def)
    show "only_channel i s s'" by (rule only_trans [OF only_basic(1) only_setup [OF r(1)]])
    show "out_at s' i = load_channel ?p" using r(2) out by simp
  qed
qed

lemma load_outputs_exact:
  assumes fit: "fits_board bd cfg" "attaches_always bd" and n: "n \<le> kMaxOutputChannels"
    and s: "rc_shape s" "\<forall>j < kMaxOutputChannels. out_at s j = (if j < n then loaded_channel (cf_channels cfg ! j) else OutputChannelConfig)"
  shows "\<exists>s'. load_outputs bd (drop n (cf_channels cfg)) n s = (None, s') \<and> rc_shape s' \<and>
    (\<forall>j < kMaxOutputChannels. out_at s' j = loaded_channel (cf_channels cfg ! j))"
  using n s
proof (induction arbitrary: s rule: inc_induct)
  case base
  have "length (cf_channels cfg) = kMaxOutputChannels" using fit by (simp add: fits_board_def cf_shape_def)
  with base show ?case by simp
next
  case (step n)
  have d: "drop n (cf_channels cfg) = cf_channels cfg ! n # drop (Suc n) (cf_channels cfg)"
    using step.hyps fit by (simp add: Cons_nth_drop_Suc fits_board_def cf_shape_def)
  show ?case
  proof (cases "pc_used (cf_channels cfg ! n) = 0")
    case True
    then have "\<forall>j < kMaxOutputChannels. out_at s j = (if j < Suc n then loaded_channel (cf_channels cfg ! j) else OutputChannelConfig)"
      using step.prems(2) by (auto simp: less_Suc_eq loaded_channel_def)
    with step.IH [of s] step.prems(1) True d show ?thesis by simp
  next
    case False
    then obtain s1 where r: "load_output bd (cf_channels cfg ! n) n s = (None, s1)" and o: "only_channel n s s1"
      and out: "out_at s1 n = load_channel (cf_channels cfg ! n)"
      using load_output_exact [OF fit step.prems(1)] step by blast
    have "\<forall>j < kMaxOutputChannels. out_at s1 j = (if j < Suc n then loaded_channel (cf_channels cfg ! j) else OutputChannelConfig)"
      using step.prems(2) o out False by (auto simp: less_Suc_eq loaded_channel_def only_channel_def out_at_def)
    with step.IH [of s1] shape_only [OF o step.prems(1)] r False d show ?thesis by simp
  qed
qed

lemma apply_fits:
  assumes "fits_board bd cfg" "attaches_always bd" "rc_shape s"
  shows "\<exists>s'. applyPersistedConfig bd cfg s = (None, s') \<and> rc_inputs s' = map load_input (cf_inputs cfg) \<and>
    rc_outputs s' = map loaded_channel (cf_channels cfg)"
proof -
  define s1 where "s1 = load_inputs cfg (clear_outputs s)"
  have cf: "cf_shape cfg" "config_format_ok cfg" using assms(1) by (simp_all add: fits_board_def)
  have sh: "rc_shape s1" using assms(3) cf by (simp add: s1_def load_inputs_shape clear_ok)
  obtain s2 where l: "load_outputs bd (cf_channels cfg) 0 s1 = (None, s2)" "rc_shape s2"
    "\<forall>j < kMaxOutputChannels. out_at s2 j = loaded_channel (cf_channels cfg ! j)"
    using load_outputs_exact [OF assms(1,2) le0 sh] assms(3) by (auto simp: s1_def clear_ok)
  have "rc_outputs s2 = map loaded_channel (cf_channels cfg)"
    using l(2,3) cf(1) by (intro nth_equalityI) (auto simp: rc_shape_def cf_shape_def out_at_def)
  moreover have "rc_inputs s2 = map load_input (cf_inputs cfg)"
    using load_outputs_shape [OF l(1) sh] cf(1) by (simp add: cf_shape_def s1_def)
  ultimately show ?thesis using l(1) cf apply_failsafe_ok [OF l(2)]
    by (simp add: applyPersistedConfig_def config_format_ok_def s1_def [symmetric] Let_def)
qed

section \<open>Saving and loading\<close>

definition wf_config :: "rc_state \<Rightarrow> bool" where
  "wf_config s \<longleftrightarrow> (\<forall>v \<in> set (rc_inputs s). wf_input v) \<and> (\<forall>c \<in> set (rc_outputs s). wf_channel c)"

lemma export_fits:
  assumes "rc_shape s" "hardware_ok bd s" "wf_config s"
  shows "fits_board bd (exportCurrentConfig s)"
proof -
  have used: "pc_used (store_channel c) \<noteq> 0 \<longleftrightarrow> oc_used c" for c by (simp add: store_channel_def b2u_def)
  have src: "sourceValid (pc_source_a (store_channel c))" "sourceValid (pc_source_b (store_channel c))"
    "sourceValid (pc_source_c (store_channel c))" if "wf_channel c" for c
    using that by (simp_all add: store_channel_def wf_channel_def)
  have pin: "pc_pin (store_channel c) = oc_pin c" "pc_type (store_channel c) \<noteq> 1 \<longleftrightarrow> oc_type c = Channel_Pwm" for c
    by (cases "oc_type c"; simp add: store_channel_def b2u_def)+
  have len: "length (rc_outputs s) = kMaxOutputChannels" using assms(1) by (simp add: rc_shape_def)
  have "oc_pin (rc_outputs s ! j) \<noteq> oc_pin (rc_outputs s ! i)"
    if "j < i" "i < kMaxOutputChannels" "oc_used (rc_outputs s ! j)" "oc_used (rc_outputs s ! i)" for i j
  proof -
    have "\<not> outputPinAlreadyUsed (oc_pin (out_at s i)) i s"
      using assms(2) that by (simp add: hardware_ok_def placed_def out_at_def)
    moreover have "j \<in> set [0..<length (rc_outputs s)]" "j \<noteq> i" using that len by auto
    ultimately show ?thesis using that(3) unfolding outputPinAlreadyUsed_def out_at_def by blast
  qed
  then show ?thesis using assms len
    by (auto simp: fits_board_def exportCurrentConfig_def config_format_ok_def cf_shape_def rc_shape_def Let_def used pin
        hardware_ok_def placed_def out_at_def wf_config_def intro!: src)
qed

text \<open>
  C7: Round trip. Saving the configuration in force and applying it again on the same board
  succeeds and gives back every input and every channel field for field, with one exception: the
  failsafe mode. Minimum is kept, but centre and maximum are exchanged.
\<close>

theorem config_roundtrip:
  assumes "rc_shape s" "hardware_ok bd s" "wf_config s" "attaches_always bd"
  shows "\<exists>s'. applyPersistedConfig bd (exportCurrentConfig s) s = (None, s') \<and>
    rc_inputs s' = map (\<lambda>v. if vi_used v then v else VirtualInputConfig) (rc_inputs s) \<and>
    rc_outputs s' = map (\<lambda>c. if oc_used c
      then c\<lparr>oc_failsafe := (case oc_failsafe c of Failsafe_Min \<Rightarrow> Failsafe_Min
        | Failsafe_Center \<Rightarrow> Failsafe_Max | Failsafe_Max \<Rightarrow> Failsafe_Center)\<rparr>
      else OutputChannelConfig) (rc_outputs s)"
proof -
  have "loaded_channel (store_channel c) = (if oc_used c
      then c\<lparr>oc_failsafe := (case oc_failsafe c of Failsafe_Min \<Rightarrow> Failsafe_Min
        | Failsafe_Center \<Rightarrow> Failsafe_Max | Failsafe_Max \<Rightarrow> Failsafe_Center)\<rparr>
      else OutputChannelConfig)" if "c \<in> set (rc_outputs s)" for c
  proof -
    have used: "pc_used (store_channel c) = 0 \<longleftrightarrow> \<not> oc_used c" by (simp add: store_channel_def b2u_def)
    from that assms(3) have "wf_channel c" by (simp add: wf_config_def)
    from load_store_channel [OF this] show ?thesis
      by (cases "oc_failsafe c") (simp_all add: loaded_channel_def used used_same)
  qed
  moreover have "load_input (store_input v) = (if vi_used v then v else VirtualInputConfig)" if "v \<in> set (rc_inputs s)" for v
    using assms(3) that by (simp add: wf_config_def load_store_input)
  ultimately show ?thesis using apply_fits [OF export_fits [OF assms(1-3)] assms(4,1)]
    by (simp add: exportCurrentConfig_def cong: map_cong)
qed

text \<open>
  The consequence for the model. A servo whose failsafe is the centre (the default, neutral
  throttle) goes to 2000 us, full throttle, as soon as the saved configuration is applied.
\<close>

theorem saved_center_is_full_throttle:
  assumes "rc_shape s" "hardware_ok bd s" "wf_config s" "attaches_always bd" "no_stale s"
    and c: "j < kMaxOutputChannels" "oc_used (out_at s j)" "oc_type (out_at s j) = Channel_Pwm"
      "oc_failsafe (out_at s j) = Failsafe_Center"
  shows "\<exists>s'. applyPersistedConfig bd (exportCurrentConfig s) s = (None, s') \<and> sv_us (rc_servos s' ! j) = 2000"
proof -
  obtain s' where a: "applyPersistedConfig bd (exportCurrentConfig s) s = (None, s')"
    and o: "rc_outputs s' = map loaded_channel (map store_channel (rc_outputs s))"
    using apply_fits [OF export_fits [OF assms(1-3)] assms(4,1)] by (auto simp: exportCurrentConfig_def)
  have cf: "cf_shape (exportCurrentConfig s)" using assms(1) by (simp add: exportCurrentConfig_def cf_shape_def rc_shape_def)
  have ok: "hardware_ok bd s'" "at_failsafe s'" using apply_success_facts [OF a assms(1,5) cf] by simp_all
  have len: "j < length (rc_outputs s)" using assms(1) c(1) by (simp add: rc_shape_def)
  have wf: "wf_channel (out_at s j)" using assms(3) len by (simp add: wf_config_def out_at_def)
  have used: "pc_used (store_channel (out_at s j)) \<noteq> 0" using c(2) by (simp add: store_channel_def b2u_def)
  have "out_at s' j = loaded_channel (store_channel (out_at s j))" using o len by (simp add: out_at_def)
  also have "\<dots> = (out_at s j)\<lparr>oc_used := True, oc_failsafe := Failsafe_Max\<rparr>"
    using load_store_channel [OF wf] used c(4) by (simp add: loaded_channel_def)
  finally have out: "out_at s' j = (out_at s j)\<lparr>oc_used := True, oc_failsafe := Failsafe_Max\<rparr>" .
  with ok c have "sv_us (rc_servos s' ! j) = 2000"
    by (auto simp: hardware_ok_def at_failsafe_def placed_def channel_safe_def pwmFailsafeUs_def)
  with a show ?thesis by blast
qed

section \<open>A concrete board\<close>

definition demo_board :: board where
  "demo_board = \<lparr>bd_has_pwm = (\<lambda>pin. pin \<in> {12, 13, 14, 27}), bd_attaches = (\<lambda>_ _ _. True)\<rparr>"

definition demo_input :: persisted_input where
  "demo_input = pv_zero\<lparr>pv_used := 1, pv_input := 3, pv_deadzone := 10, pv_expo := 20, pv_name := ''Steering''\<rparr>"

definition demo_servo :: "u8 \<Rightarrow> persisted_channel" where
  "demo_servo pin = pc_zero\<lparr>pc_used := 1, pc_pin := pin, pc_mix_mode := 1, pc_source_b := - 1, pc_source_c := - 1,
     pc_weight_a := 100, pc_threshold := 50\<rparr>"

definition demo_switch :: "u8 \<Rightarrow> persisted_channel" where
  "demo_switch pin = (demo_servo pin)\<lparr>pc_type := 1\<rparr>"

definition config_of :: "persisted_channel list \<Rightarrow> persisted_config" where
  "config_of cs = cf_zero\<lparr>cf_magic := kConfigMagic, cf_version := kConfigVersion,
     cf_inputs := demo_input # replicate 15 pv_zero, cf_channels := cs @ replicate (24 - length cs) pc_zero\<rparr>"

definition demo_drive :: rc_state where
  "demo_drive = snd (applyPersistedConfig demo_board (config_of [demo_servo 13, demo_switch 5]) rc_boot)"

lemma demo_applies: "fst (applyPersistedConfig demo_board (config_of [demo_servo 13, demo_switch 5]) rc_boot) = None"
  by code_simp

lemma rc_boot_ok: "rc_shape rc_boot" "no_stale rc_boot"
  by (simp_all add: rc_shape_def rc_boot_def no_stale_def kMaxVirtualInputs_def)

lemma demo_cf_shape: "length cs \<le> 24 \<Longrightarrow> cf_shape (config_of cs)"
  by (simp add: cf_shape_def config_of_def kMaxVirtualInputs_def kMaxOutputChannels_def)

lemma demo_drive_ok: "rc_shape demo_drive" "no_stale demo_drive" "hardware_ok demo_board demo_drive"
proof -
  have "applyPersistedConfig demo_board (config_of [demo_servo 13, demo_switch 5]) rc_boot = (None, demo_drive)"
    using demo_applies by (simp add: demo_drive_def prod_eq_iff)
  from apply_success_facts [OF this rc_boot_ok demo_cf_shape]
  show "rc_shape demo_drive" "no_stale demo_drive" "hardware_ok demo_board demo_drive" by simp_all
qed

lemma demo_wf: "wf_config demo_drive"
  by code_simp

lemma demo_attaches: "attaches_always demo_board"
  by (simp add: attaches_always_def demo_board_def)

lemma demo_servo_0: "oc_used (out_at demo_drive 0)" "oc_type (out_at demo_drive 0) = Channel_Pwm"
    "oc_failsafe (out_at demo_drive 0) = Failsafe_Center" "oc_pin (out_at demo_drive 0) = 13"
  by code_simp+

theorem apply_success_witness:
  "hardware_ok demo_board demo_drive \<and> at_failsafe demo_drive \<and> channel_set (demo_servo 13) 0 demo_drive"
proof -
  let ?cfg = "config_of [demo_servo 13, demo_switch 5]"
  have a: "applyPersistedConfig demo_board ?cfg rc_boot = (None, demo_drive)"
    using demo_applies by (simp add: demo_drive_def prod_eq_iff)
  have "\<forall>j < kMaxOutputChannels. \<not> stale rc_boot j" using rc_boot_ok(2) by (auto simp: no_stale_def stale_def)
  then have ok: "hardware_ok demo_board demo_drive" "at_failsafe demo_drive" "channel_set (cf_channels ?cfg ! 0) 0 demo_drive"
    using apply_success [OF a rc_boot_ok(1) demo_cf_shape] by (simp_all add: kMaxOutputChannels_def)
  from ok(3) have "channel_set (demo_servo 13) 0 demo_drive" by (simp add: config_of_def)
  with ok show ?thesis by blast
qed

text \<open>
  The excepted case. With a flag left over from a deleted output, a servo that no pin of the board
  accepts is loaded without an error, and nothing is attached.
\<close>

definition dead_board :: board where
  "dead_board = demo_board\<lparr>bd_attaches := (\<lambda>_ _ _. False)\<rparr>"

definition stale_boot :: rc_state where
  "stale_boot = rc_boot\<lparr>rc_attached := True # replicate 23 False\<rparr>"

theorem stale_flag_hides_failed_attach:
  "fst (load_output dead_board (demo_servo 13) 0 stale_boot) = None \<and>
   sv_pin (rc_servos (snd (load_output dead_board (demo_servo 13) 0 stale_boot)) ! 0) = None \<and>
   fst (load_output dead_board (demo_servo 13) 0 rc_boot) = Some (Setup_Failed (Pwm_Attach_Failed 13))"
  by code_simp

definition clash_config :: persisted_config where
  "clash_config = config_of [demo_servo 12, demo_servo 13, demo_switch 13]"

definition clashed :: "apply_error option \<times> rc_state" where
  "clashed = load_outputs demo_board (cf_channels clash_config) 0 (load_inputs clash_config (clear_outputs demo_drive))"

lemma apply_restores:
  assumes "config_format_ok cfg" "load_outputs bd (cf_channels cfg) 0 (load_inputs cfg (clear_outputs s)) = (Some e, s2)"
  shows "applyPersistedConfig bd cfg s = (Some e, restoreOld bd (rc_inputs s) (rc_outputs s) (rc_attached s) s2)"
  using assms by (simp add: applyPersistedConfig_def config_format_ok_def Let_def)

lemma clash_fails:
  "applyPersistedConfig demo_board clash_config demo_drive = (Some (Setup_Failed Pin_Already_Used),
     restoreOld demo_board (rc_inputs demo_drive) (rc_outputs demo_drive) (rc_attached demo_drive) (snd clashed))"
proof -
  have "fst clashed = Some (Setup_Failed Pin_Already_Used)" by code_simp
  then have "clashed = (Some (Setup_Failed Pin_Already_Used), snd clashed)" by (simp add: prod_eq_iff)
  moreover have "config_format_ok clash_config" by code_simp
  ultimately show ?thesis unfolding clashed_def by (intro apply_restores) simp_all
qed

theorem apply_failure_witness:
  "rc_inputs (snd (applyPersistedConfig demo_board clash_config demo_drive)) = rc_inputs demo_drive \<and>
   re_pinned 0 demo_drive (snd (applyPersistedConfig demo_board clash_config demo_drive))"
proof -
  have "applyPersistedConfig demo_board clash_config demo_drive =
      (Some (Setup_Failed Pin_Already_Used), snd (applyPersistedConfig demo_board clash_config demo_drive))"
    by (simp add: clash_fails)
  from apply_failure [OF this demo_drive_ok(1)] show ?thesis
    by (simp add: clash_config_def demo_cf_shape kMaxOutputChannels_def)
qed

text \<open>
  The rollback is not exact. Restoring the first channel while a later channel still holds the
  pin of the refused configuration moves its servo to another pin, although the message says that
  the preset is invalid.
\<close>

theorem rollback_moves_servo:
  "hardware_ok demo_board demo_drive \<and> oc_pin (out_at demo_drive 0) = 13 \<and>
   (case applyPersistedConfig demo_board clash_config demo_drive of (e, s') \<Rightarrow>
      e = Some (Setup_Failed Pin_Already_Used) \<and> oc_pin (out_at s' 0) = 12 \<and> sv_pin (rc_servos s' ! 0) = Some 12)"
proof -
  let ?s = "restoreOld demo_board (rc_inputs demo_drive) (rc_outputs demo_drive) (rc_attached demo_drive) (snd clashed)"
  have "oc_pin (out_at ?s 0) = 12 \<and> sv_pin (rc_servos ?s ! 0) = Some 12" by code_simp
  then show ?thesis using demo_drive_ok(3) demo_servo_0(4) by (simp add: clash_fails)
qed

theorem config_roundtrip_witness:
  "\<exists>s'. applyPersistedConfig demo_board (exportCurrentConfig demo_drive) demo_drive = (None, s') \<and>
     oc_failsafe (rc_outputs s' ! 0) = Failsafe_Max"
proof -
  have "0 < length (rc_outputs demo_drive)" using demo_drive_ok(1) by (simp add: rc_shape_def kMaxOutputChannels_def)
  then show ?thesis
    using config_roundtrip [OF demo_drive_ok(1,3) demo_wf demo_attaches] demo_servo_0
    by (auto simp: out_at_def)
qed

theorem saved_center_is_full_throttle_witness:
  "\<exists>s'. applyPersistedConfig demo_board (exportCurrentConfig demo_drive) demo_drive = (None, s') \<and>
     sv_us (rc_servos s' ! 0) = 2000"
  by (rule saved_center_is_full_throttle [OF demo_drive_ok(1,3) demo_wf demo_attaches demo_drive_ok(2) _ demo_servo_0(1-3)])
     (simp add: kMaxOutputChannels_def)

end
