(* ===== verification/Runtime_Loop.thy ===== *)
theory Runtime_Loop
  imports Rc_Config
begin

text \<open>
  \<^verbatim>\<open>main/runtime_loop.cpp\<close>: one iteration of the control loop. Fresh data drives the outputs; without
  data for longer than the time-out, or without a gamepad, the outputs go to their failsafe.

  The two pointers are optional values; \<open>ms\<close> is the later reading of \<open>millis()\<close> that limits the rate
  of the rumble, \<open>now\<close> the one the loop passes.
\<close>

record control =
  ct_last :: "u32 option"
  ct_timed_out :: "bool option"
  ct_rc :: rc_state

definition fresh :: "controller_ptr \<Rightarrow> bool" where
  "fresh pad \<longleftrightarrow> (case pad of None \<Rightarrow> False | Some c \<Rightarrow> co_connected c \<and> co_has_data c)"

definition processControlTick ::
  "(rat \<Rightarrow> rat \<Rightarrow> rat) \<Rightarrow> u32 \<Rightarrow> controller_ptr \<Rightarrow> u32 \<Rightarrow> u32 \<Rightarrow> control \<Rightarrow> rumble_request list \<times> control" where
  "processControlTick powf ms pad now timeout ct =
     (if connected_ptr pad
      then if fresh pad
           then let (rumbles, s) = processGamepadToOutputs powf ms pad (ct_rc ct)
                in (rumbles, \<lparr>ct_last = map_option (\<lambda>_. now) (ct_last ct),
                      ct_timed_out = map_option (\<lambda>_. False) (ct_timed_out ct), ct_rc = s\<rparr>)
           else let last = (case ct_last ct of Some t \<Rightarrow> t | None \<Rightarrow> now)
                in if now - last > timeout
                   then ([], ct\<lparr>ct_rc := applyFailsafeAllOutputs (ct_rc ct),
                           ct_timed_out := map_option (\<lambda>_. True) (ct_timed_out ct)\<rparr>)
                   else ([], ct)
      else let (rumbles, s) = evaluateVirtualRuntime powf ms None (ct_rc ct)
           in (rumbles, ct\<lparr>ct_rc := applyFailsafeAllOutputs s\<rparr>))"

definition countActiveOutputs :: "output_channel list option \<Rightarrow> nat" where
  "countActiveOutputs outputs = (case outputs of None \<Rightarrow> 0 | Some os \<Rightarrow> fold (\<lambda>oc n. if oc_used oc then n + 1 else n) os 0)"

section \<open>Driving the outputs\<close>

lemma virtual_facts:
  assumes "evaluateVirtualRuntime powf ms ctl s = (r, s')"
  shows "rc_inputs s' = rc_inputs s" "rc_outputs s' = rc_outputs s" "rc_attached s' = rc_attached s"
    "rc_servos s' = rc_servos s" "rc_output s' = rc_output s" "rc_gpio s' = rc_gpio s"
    "length (rc_virtual s') = length (rc_inputs s)" "length (rc_toggles s') = length (rc_inputs s)"
  using assms by (auto simp: evaluateVirtualRuntime_def Let_def)

lemma virtual_same:
  assumes "evaluateVirtualRuntime powf ms ctl s = (r, s')" "rc_shape s"
  shows "rc_shape s'" "placed bd j s' = placed bd j s" "channel_safe j s' = channel_safe j s" "out_at s' j = out_at s j"
  using virtual_facts [OF assms(1)] assms(2)
  by (simp_all add: rc_shape_def placed_def channel_safe_def outputPinAlreadyUsed_def out_at_def)

text \<open>Without a controller every virtual input is 0 and no rumble is asked for.\<close>

lemma virtual_none: "evaluateVirtualRuntime powf ms None s = (r, s') \<Longrightarrow>
    r = [] \<and> (\<forall>v \<in> set (rc_virtual s'). v = 0)"
  by (auto simp: evaluateVirtualRuntime_def evaluate_input_def connected_ptr_def Let_def)

definition channel_driven :: "nat \<Rightarrow> rc_state \<Rightarrow> bool" where
  "channel_driven i s \<longleftrightarrow> (let oc = out_at s i in
     rc_output s ! i = (if oc_used oc then evaluateOutputSignal (rc_virtual s) oc else 0) \<and>
     (oc_used oc \<longrightarrow>
        (if oc_type oc = Channel_Pwm then rc_attached s ! i \<longrightarrow> sv_us (rc_servos s ! i) = pwmFromOutput (rc_virtual s) oc
         else rc_gpio s (oc_pin oc) = Some (switchFromOutput (rc_virtual s) oc))))"

lemma drive_facts [simp]:
  "rc_outputs (drive_output i s) = rc_outputs s" "rc_attached (drive_output i s) = rc_attached s"
  "rc_virtual (drive_output i s) = rc_virtual s" "rc_inputs (drive_output i s) = rc_inputs s"
  "rc_toggles (drive_output i s) = rc_toggles s" "out_at (drive_output i s) j = out_at s j"
  by (simp_all add: drive_output_def set_runtime_def writeMicroseconds_def digitalWrite_def out_at_def Let_def)

lemma drive_only [simp]: "only_channel i s (drive_output i s)"
  unfolding drive_output_def Let_def
  by (auto intro: only_trans [OF only_basic(2)] only_basic)

lemma drive_gpio:
  "rc_gpio (drive_output i s) p = (if oc_used (out_at s i) \<and> oc_type (out_at s i) = Channel_Switch \<and> oc_pin (out_at s i) = p
     then Some (switchFromOutput (rc_virtual s) (out_at s i)) else rc_gpio s p)"
  by (auto simp: drive_output_def set_runtime_def writeMicroseconds_def digitalWrite_def channel_type_cases out_at_def Let_def)

lemma drive_placed:
  assumes "placed bd j s" "oc_used (out_at s j)" "rc_shape s"
  shows "placed bd j (drive_output i s)"
proof -
  have "sv_pin (rc_servos (drive_output i s) ! j) = sv_pin (rc_servos s ! j)"
    by (cases "i < length (rc_servos s)"; cases "j = i")
       (simp_all add: drive_output_def set_runtime_def writeMicroseconds_def digitalWrite_def list_update_beyond Let_def)
  with assms show ?thesis by (simp add: placed_def outputPinAlreadyUsed_def)
qed

lemma drive_driven:
  assumes "rc_shape s" "i < kMaxOutputChannels" "oc_used (out_at s i) \<longrightarrow> placed bd i s"
  shows "channel_driven i (drive_output i s)"
  using assms
  by (auto simp: channel_driven_def drive_output_def set_runtime_def writeMicroseconds_def digitalWrite_def rc_shape_def
      out_at_def placed_def Let_def split: if_splits)

lemma driven_kept:
  assumes "channel_driven j s" "j \<noteq> i" "j < kMaxOutputChannels" "i < kMaxOutputChannels" "rc_shape s" "hardware_ok bd s"
  shows "channel_driven j (drive_output i s)"
proof -
  have eqs: "rc_servos (drive_output i s) ! j = rc_servos s ! j" "rc_output (drive_output i s) ! j = rc_output s ! j"
    using drive_only [of i s] assms(2) by (simp_all add: only_channel_def)
  have "\<not> (oc_used (out_at s i) \<and> oc_pin (out_at s i) = oc_pin (out_at s j))" if "oc_used (out_at s j)"
  proof
    assume "oc_used (out_at s i) \<and> oc_pin (out_at s i) = oc_pin (out_at s j)"
    with assms(2,4,5) have "outputPinAlreadyUsed (oc_pin (out_at s j)) j s"
      unfolding outputPinAlreadyUsed_def by (intro bexI [of _ i]) (auto simp: rc_shape_def)
    with assms(3,6) that show False by (simp add: hardware_ok_def placed_def)
  qed
  with assms(1) show ?thesis by (auto simp: channel_driven_def eqs drive_gpio Let_def)
qed

lemma fold_drive:
  assumes "rc_shape s" "hardware_ok bd s" "\<forall>i \<in> set xs. i < kMaxOutputChannels"
  shows "rc_shape (fold drive_output xs s) \<and> hardware_ok bd (fold drive_output xs s) \<and>
    rc_outputs (fold drive_output xs s) = rc_outputs s \<and> rc_attached (fold drive_output xs s) = rc_attached s \<and>
    rc_virtual (fold drive_output xs s) = rc_virtual s \<and> rc_inputs (fold drive_output xs s) = rc_inputs s \<and>
    (\<forall>j < kMaxOutputChannels. j \<in> set xs \<or> channel_driven j s \<longrightarrow> channel_driven j (fold drive_output xs s))"
  using assms
proof (induction xs arbitrary: s)
  case Nil
  then show ?case by simp
next
  case (Cons i xs)
  let ?s = "drive_output i s"
  have sh: "rc_shape ?s" using shape_only [OF drive_only] Cons.prems(1) by blast
  have hw: "hardware_ok bd ?s" using Cons.prems(1,2) by (auto simp: hardware_ok_def intro: drive_placed)
  have "channel_driven j ?s" if "j < kMaxOutputChannels" "j = i \<or> channel_driven j s" for j
    using that drive_driven [of s i bd] driven_kept [of j s i bd] Cons.prems by (cases "j = i") (auto simp: hardware_ok_def)
  then show ?case using Cons.IH [OF sh hw] Cons.prems by auto
qed

section \<open>One iteration\<close>

text \<open>
  C3: Fresh data drives every output. After an iteration with fresh data on working hardware, every
  channel carries the signal mixed from the new virtual inputs, every servo the pulse and every
  switch the level of that signal; the packet time is noted, the time-out cleared, and the
  configuration is untouched.
\<close>

theorem fresh_tick_drives:
  assumes "fresh pad" "rc_shape (ct_rc ct)" "hardware_ok bd (ct_rc ct)"
    "processControlTick powf ms pad now timeout ct = (rumbles, ct')"
  shows "(\<forall>j < kMaxOutputChannels. channel_driven j (ct_rc ct')) \<and>
    rc_virtual (ct_rc ct') = map (\<lambda>i. fst (evaluate_input powf ms pad (rc_inputs (ct_rc ct) ! i) (rc_toggles (ct_rc ct) ! i)))
      [0..<kMaxVirtualInputs] \<and>
    ct_last ct' = map_option (\<lambda>_. now) (ct_last ct) \<and> ct_timed_out ct' = map_option (\<lambda>_. False) (ct_timed_out ct) \<and>
    rc_inputs (ct_rc ct') = rc_inputs (ct_rc ct) \<and> rc_outputs (ct_rc ct') = rc_outputs (ct_rc ct) \<and>
    hardware_ok bd (ct_rc ct')"
proof -
  have c: "connected_ptr pad" using assms(1) by (auto simp: fresh_def connected_ptr_def split: option.splits)
  obtain r s1 where v: "evaluateVirtualRuntime powf ms pad (ct_rc ct) = (r, s1)" by fastforce
  note same = virtual_same [OF v assms(2)] and facts = virtual_facts [OF v]
  have hw: "hardware_ok bd s1" using assms(3) same by (simp add: hardware_ok_def)
  have len: "length (rc_outputs s1) = kMaxOutputChannels" using same(1) by (simp add: rc_shape_def)
  have ct': "ct' = \<lparr>ct_last = map_option (\<lambda>_. now) (ct_last ct), ct_timed_out = map_option (\<lambda>_. False) (ct_timed_out ct),
      ct_rc = fold drive_output [0..<kMaxOutputChannels] s1\<rparr>"
    using assms(1,4) c v len by (simp add: processControlTick_def processGamepadToOutputs_def Let_def)
  have "rc_virtual s1 = map (\<lambda>i. fst (evaluate_input powf ms pad (rc_inputs (ct_rc ct) ! i) (rc_toggles (ct_rc ct) ! i)))
      [0..<kMaxVirtualInputs]"
    using v assms(2) by (auto simp: evaluateVirtualRuntime_def rc_shape_def Let_def)
  then show ?thesis using fold_drive [OF same(1) hw, of "[0..<kMaxOutputChannels]"] facts by (simp add: ct')
qed

section \<open>Loss of the signal\<close>

record tick =
  tk_pad :: controller_ptr
  tk_time :: nat
  tk_ms :: u32

fun ticks :: "(rat \<Rightarrow> rat \<Rightarrow> rat) \<Rightarrow> u32 \<Rightarrow> tick list \<Rightarrow> control \<Rightarrow> control" where
  "ticks powf timeout [] ct = ct"
| "ticks powf timeout (t # ts) ct =
     ticks powf timeout ts (snd (processControlTick powf (tk_ms t) (tk_pad t) (of_nat (tk_time t)) timeout ct))"

text \<open>What an iteration without fresh data does.\<close>

lemma quiet_tick:
  assumes "\<not> fresh pad" "rc_shape (ct_rc ct)"
  shows "ct_last (snd (processControlTick powf ms pad now timeout ct)) = ct_last ct \<and>
    rc_shape (ct_rc (snd (processControlTick powf ms pad now timeout ct))) \<and>
    (at_failsafe (ct_rc ct) \<or> \<not> connected_ptr pad \<or> (case ct_last ct of None \<Rightarrow> False | Some t \<Rightarrow> now - t > timeout) \<longrightarrow>
     at_failsafe (ct_rc (snd (processControlTick powf ms pad now timeout ct)))) \<and>
    (connected_ptr pad \<and> (case ct_last ct of None \<Rightarrow> True | Some t \<Rightarrow> now - t \<le> timeout) \<longrightarrow>
     snd (processControlTick powf ms pad now timeout ct) = ct)"
proof (cases "connected_ptr pad")
  case True
  then show ?thesis using assms apply_failsafe_ok [OF assms(2)]
    by (auto simp: processControlTick_def Let_def split: option.splits)
next
  case False
  obtain r s1 where v: "evaluateVirtualRuntime powf ms None (ct_rc ct) = (r, s1)" by fastforce
  show ?thesis using False v virtual_same [OF v assms(2)] apply_failsafe_ok
    by (simp add: processControlTick_def)
qed

lemma quiet_ticks:
  assumes "\<forall>t \<in> set ts. \<not> fresh (tk_pad t)" "rc_shape (ct_rc ct)"
  shows "ct_last (ticks powf timeout ts ct) = ct_last ct \<and> rc_shape (ct_rc (ticks powf timeout ts ct)) \<and>
    (at_failsafe (ct_rc ct) \<longrightarrow> at_failsafe (ct_rc (ticks powf timeout ts ct)))"
  using assms
proof (induction ts arbitrary: ct)
  case Nil
  then show ?case by simp
next
  case (Cons t ts)
  then show ?case using quiet_tick [of "tk_pad t" ct] by simp
qed

lemma elapsed:
  assumes "m \<le> n" "n - m < 2 ^ 32"
  shows "unat ((of_nat n :: u32) - of_nat m) = n - m"
proof -
  have "(of_nat n :: u32) - of_nat m = of_nat (n - m)" using assms(1) by (simp add: of_nat_diff)
  with assms(2) show ?thesis by (simp add: unat_of_nat)
qed

lemma quiet_split:
  assumes "\<forall>t \<in> set (pre @ t # post). \<not> fresh (tk_pad t)" "rc_shape (ct_rc ct)"
    "\<not> connected_ptr (tk_pad t) \<or> (case ct_last ct of None \<Rightarrow> False | Some l \<Rightarrow> of_nat (tk_time t) - l > timeout)"
  shows "at_failsafe (ct_rc (ticks powf timeout (pre @ t # post) ct))"
proof -
  have app: "ticks powf timeout (xs @ ys) c = ticks powf timeout ys (ticks powf timeout xs c)" for xs ys c
    by (induction xs arbitrary: c) simp_all
  let ?c1 = "ticks powf timeout pre ct"
  let ?c2 = "snd (processControlTick powf (tk_ms t) (tk_pad t) (of_nat (tk_time t)) timeout ?c1)"
  have c1: "ct_last ?c1 = ct_last ct" "rc_shape (ct_rc ?c1)" using quiet_ticks [of pre ct] assms by simp_all
  have c2: "at_failsafe (ct_rc ?c2)" "rc_shape (ct_rc ?c2)"
    using quiet_tick [of "tk_pad t" ?c1 powf "tk_ms t" "of_nat (tk_time t)" timeout] assms c1 by auto
  show ?thesis using quiet_ticks [of post ?c2] assms(1) c2 by (simp add: app)
qed

text \<open>
  C4: Loss of the signal. Once an iteration later than the time-out has passed since the last packet
  (the clock of 32 bits may wrap around in between), or one without a connected gamepad, every output
  is at its failsafe and stays there through any further iterations without fresh data, however long
  they go on.
\<close>

theorem signal_loss_failsafe:
  assumes "\<forall>t \<in> set ts. \<not> fresh (tk_pad t)" "rc_shape (ct_rc ct)" "ct_last ct = Some (of_nat since)"
    and t: "t \<in> set ts" "\<not> connected_ptr (tk_pad t) \<or>
      (since \<le> tk_time t \<and> unat timeout < tk_time t - since \<and> tk_time t - since < 2 ^ 32)"
  shows "at_failsafe (ct_rc (ticks powf timeout ts ct))"
proof -
  obtain pre post where ts: "ts = pre @ t # post" using t(1) by (auto simp: in_set_conv_decomp)
  have "\<not> connected_ptr (tk_pad t) \<or> (of_nat (tk_time t) :: u32) - of_nat since > timeout"
    using t(2) elapsed [of since "tk_time t"] by (auto simp: word_less_nat_alt)
  then show ?thesis using quiet_split [of pre t post ct timeout powf] assms(1-3) by (simp add: ts)
qed

definition demo_tick :: "controller_ptr \<Rightarrow> nat \<Rightarrow> tick" where
  "demo_tick pad t = \<lparr>tk_pad = pad, tk_time = t, tk_ms = of_nat t\<rparr>"

definition demo_control :: control where
  "demo_control = \<lparr>ct_last = Some (of_nat 4294967000), ct_timed_out = Some False, ct_rc = demo_drive\<rparr>"

theorem signal_loss_failsafe_witness:
  "at_failsafe (ct_rc (ticks (\<lambda>a b. a) 450
     [demo_tick (Some demo_pad) 4294967020, demo_tick (Some demo_pad) 4294967460] demo_control))"
  using signal_loss_failsafe [of "[demo_tick (Some demo_pad) 4294967020, demo_tick (Some demo_pad) 4294967460]"
      demo_control 4294967000 "demo_tick (Some demo_pad) 4294967460" 450 "\<lambda>a b. a"] demo_drive_ok(1)
  by (simp add: demo_tick_def demo_control_def fresh_def demo_pad_def Controller_new_def)

definition fresh_pad :: arduino_object where
  "fresh_pad = demo_pad\<lparr>co_has_data := True\<rparr>"

theorem fresh_tick_drives_witness:
  "channel_driven 0 (ct_rc (snd (processControlTick (\<lambda>a b. a) 7 (Some fresh_pad) 7 450 demo_control)))"
  using fresh_tick_drives [of "Some fresh_pad" demo_control demo_board "\<lambda>a b. a" 7 7 450] demo_drive_ok
  by (simp add: fresh_def fresh_pad_def demo_pad_def demo_control_def prod_eq_iff kMaxOutputChannels_def)

end
