(* ===== verification/Preset_Store.thy ===== *)
theory Preset_Store
  imports Runtime_Loop
begin

text \<open>
  \<^verbatim>\<open>main/preset_store.cpp\<close> and \<^verbatim>\<open>main/preset_service.cpp\<close>: the presets of the user in flash, the
  built-in presets, the model to start with, and the choice of a free name.

  The flash library is a parameter: a record of its operations on a state of any type. \<open>nvs_ok\<close> names
  what the program relies on, whether or not an operation succeeds; \<open>nvs_reliable\<close> adds that
  none fails. A stored value is the structure the program wrote; one of any other size is \<open>Foreign\<close>.
\<close>

section \<open>Names\<close>

definition is_space :: "char \<Rightarrow> bool" where
  "is_space c \<longleftrightarrow> c = CHR '' '' \<or> 9 \<le> (of_char c :: nat) \<and> (of_char c :: nat) \<le> 13"

definition trim :: "string \<Rightarrow> string" where
  "trim s = rev (dropWhile is_space (rev (dropWhile is_space s)))"

definition between :: "char \<Rightarrow> char \<Rightarrow> char \<Rightarrow> bool" where
  "between a b c \<longleftrightarrow> (of_char a :: nat) \<le> of_char c \<and> (of_char c :: nat) \<le> of_char b"

definition name_char :: "char \<Rightarrow> bool" where
  "name_char c \<longleftrightarrow> between CHR ''a'' CHR ''z'' c \<or> between CHR ''A'' CHR ''Z'' c \<or> between CHR ''0'' CHR ''9'' c \<or>
     c = CHR ''_'' \<or> c = CHR ''-''"

fun sanitize_loop :: "string \<Rightarrow> string \<Rightarrow> string" where
  "sanitize_loop [] out = out"
| "sanitize_loop (c # cs) out =
     (if \<not> length out < 23 then out
      else sanitize_loop cs (if name_char c then out @ [c] else if c = CHR '' '' then out @ [CHR ''_''] else out))"

definition sanitizePresetName :: "string \<Rightarrow> string" where
  "sanitizePresetName s = (let out = sanitize_loop (trim s) [] in if out = [] then ''preset'' else out)"

definition to_lower :: "char \<Rightarrow> char" where
  "to_lower c = (if between CHR ''A'' CHR ''Z'' c then char_of (of_char c + (32 :: nat)) else c)"

definition equalsIgnoreCase :: "string \<Rightarrow> string \<Rightarrow> bool" where
  "equalsIgnoreCase a b \<longleftrightarrow> length a = length b \<and> map to_lower a = map to_lower b"

fun decimal :: "nat \<Rightarrow> string" where
  "decimal n = (if n < 10 then [char_of (48 + n)] else decimal (n div 10) @ [char_of (48 + n mod 10)])"

declare decimal.simps [simp del]

section \<open>Flash\<close>

definition kMaxUserPresets :: nat where "kMaxUserPresets = 8"
definition kPresetDirectoryVersion :: u16 where "kPresetDirectoryVersion = 2"

record preset_directory =
  pd_magic :: u32
  pd_version :: u16
  pd_count :: nat
  pd_names :: "string list"

datatype stored = Config persisted_config | Directory preset_directory | Text string | Foreign

record 'f nvs =
  nv_open :: "bool \<Rightarrow> 'f \<Rightarrow> bool"
  nv_get :: "string \<Rightarrow> 'f \<Rightarrow> stored option"
  nv_set :: "string \<Rightarrow> stored \<Rightarrow> 'f \<Rightarrow> bool \<times> 'f"
  nv_erase :: "string \<Rightarrow> 'f \<Rightarrow> 'f"
  nv_commit :: "'f \<Rightarrow> bool \<times> 'f"

definition presetBlobKey :: "nat \<Rightarrow> string" where
  "presetBlobKey slot = ''pr'' @ decimal slot"

definition findPresetSlotByName :: "preset_directory \<Rightarrow> string \<Rightarrow> nat option" where
  "findPresetSlotByName dir name = find_index (\<lambda>n. equalsIgnoreCase name n) (take (pd_count dir) (pd_names dir))"

definition fresh_directory :: preset_directory where
  "fresh_directory = \<lparr>pd_magic = kConfigMagic, pd_version = kPresetDirectoryVersion, pd_count = 0,
     pd_names = replicate kMaxUserPresets []\<rparr>"

definition loadPresetDirectory :: "'f nvs \<Rightarrow> 'f \<Rightarrow> preset_directory" where
  "loadPresetDirectory nv f =
     (if \<not> nv_open nv False f then fresh_directory
      else case nv_get nv ''preset_dir'' f of
          Some (Directory dir) \<Rightarrow>
            (if pd_magic dir \<noteq> kConfigMagic \<or> pd_version dir \<noteq> kPresetDirectoryVersion then fresh_directory
             else if pd_count dir > kMaxUserPresets then dir\<lparr>pd_count := kMaxUserPresets\<rparr> else dir)
        | _ \<Rightarrow> fresh_directory)"

definition savePresetDirectory :: "'f nvs \<Rightarrow> preset_directory \<Rightarrow> 'f \<Rightarrow> bool \<times> 'f" where
  "savePresetDirectory nv dir f =
     (if \<not> nv_open nv True f then (False, f)
      else case nv_set nv ''preset_dir'' (Directory dir) f of
        (False, f1) \<Rightarrow> (False, f1) | (True, f1) \<Rightarrow> nv_commit nv f1)"

section \<open>Presets of the user\<close>

datatype preset_error = Invalid_Source | Preset_Limit | Nvs_Unavailable | Save_Failed | Unknown_Preset
  | Preset_Corrupted | Corrupted_Magic | Preset_Obsolete | Delete_Failed

definition store_and_commit :: "'f nvs \<Rightarrow> string \<Rightarrow> stored \<Rightarrow> preset_directory \<Rightarrow> 'f \<Rightarrow> bool \<times> 'f" where
  "store_and_commit nv key v dir f =
     (case nv_set nv key v f of
        (False, f1) \<Rightarrow> (False, f1)
      | (True, f1) \<Rightarrow> (case nv_set nv ''preset_dir'' (Directory dir) f1 of
          (False, f2) \<Rightarrow> (False, f2) | (True, f2) \<Rightarrow> nv_commit nv f2))"

definition saveUserPresetBlob ::
  "'f nvs \<Rightarrow> string \<Rightarrow> persisted_config option \<Rightarrow> 'f \<Rightarrow> preset_error option \<times> 'f" where
  "saveUserPresetBlob nv rawName sourceCfg f =
     (let name = sanitizePresetName rawName
      in case sourceCfg of
           None \<Rightarrow> (Some Invalid_Source, f)
         | Some cfg \<Rightarrow>
             (let dir = loadPresetDirectory nv f;
                  found = findPresetSlotByName dir name
              in if found = None \<and> pd_count dir \<ge> kMaxUserPresets then (Some Preset_Limit, f)
                 else
                   let slot = (case found of Some i \<Rightarrow> i | None \<Rightarrow> pd_count dir);
                       dir1 = (if found = None
                         then dir\<lparr>pd_count := pd_count dir + 1, pd_names := (pd_names dir)[slot := take 23 name]\<rparr> else dir)
                   in if \<not> nv_open nv True f then (Some Nvs_Unavailable, f)
                      else case store_and_commit nv (presetBlobKey slot) (Config cfg) dir1 f of
                        (ok, f1) \<Rightarrow> (if ok then None else Some Save_Failed, f1)))"

definition loadUserPreset :: "'f nvs \<Rightarrow> string \<Rightarrow> 'f \<Rightarrow> preset_error + persisted_config" where
  "loadUserPreset nv rawName f =
     (let name = sanitizePresetName rawName; dir = loadPresetDirectory nv f
      in case findPresetSlotByName dir name of
           None \<Rightarrow> Inl Unknown_Preset
         | Some slot \<Rightarrow>
             if \<not> nv_open nv False f then Inl Nvs_Unavailable
             else case nv_get nv (presetBlobKey slot) f of
                 Some (Config cfg) \<Rightarrow>
                   (if cf_magic cfg \<noteq> kConfigMagic then Inl Corrupted_Magic
                    else if cf_version cfg \<noteq> kConfigVersion then Inl Preset_Obsolete
                    else Inr cfg)
               | _ \<Rightarrow> Inl Preset_Corrupted)"

fun delete_loop ::
  "'f nvs \<Rightarrow> nat \<Rightarrow> preset_directory \<Rightarrow> nat list \<Rightarrow> preset_directory \<Rightarrow> 'f \<Rightarrow> bool \<times> preset_directory \<times> 'f" where
  "delete_loop nv slot dir [] newDir f = (True, newDir, f)"
| "delete_loop nv slot dir (i # is) newDir f =
     (if i = slot then delete_loop nv slot dir is newDir f
      else case nv_get nv (presetBlobKey i) f of
          Some (Config cfg) \<Rightarrow>
            (let dst = pd_count newDir
             in if dst \<ge> kMaxUserPresets then (True, newDir, f)
                else case nv_set nv (presetBlobKey dst) (Config cfg) f of
                  (False, f1) \<Rightarrow> (False, newDir, f1)
                | (True, f1) \<Rightarrow> delete_loop nv slot dir is
                    (newDir\<lparr>pd_names := (pd_names newDir)[dst := take 23 (pd_names dir ! i)], pd_count := dst + 1\<rparr>) f1)
        | _ \<Rightarrow> delete_loop nv slot dir is newDir f)"

definition deleteUserPreset :: "'f nvs \<Rightarrow> string \<Rightarrow> 'f \<Rightarrow> preset_error option \<times> 'f" where
  "deleteUserPreset nv rawName f =
     (let name = sanitizePresetName rawName; dir = loadPresetDirectory nv f
      in case findPresetSlotByName dir name of
           None \<Rightarrow> (Some Unknown_Preset, f)
         | Some slot \<Rightarrow>
             if \<not> nv_open nv True f then (Some Nvs_Unavailable, f)
             else case delete_loop nv slot dir [0..<pd_count dir] fresh_directory f of
               (False, _, f1) \<Rightarrow> (Some Delete_Failed, f1)
             | (True, newDir, f1) \<Rightarrow>
                 let f2 = fold (\<lambda>i. nv_erase nv (presetBlobKey i)) [pd_count newDir..<pd_count dir] f1
                 in case nv_set nv ''preset_dir'' (Directory newDir) f2 of
                      (False, f3) \<Rightarrow> (Some Delete_Failed, f3)
                    | (True, f3) \<Rightarrow> (case nv_commit nv f3 of (ok, f4) \<Rightarrow> (if ok then None else Some Delete_Failed, f4)))"

section \<open>Built-in presets\<close>

definition kPresetRcCar :: string where "kPresetRcCar = ''car''"
definition kPresetExcavator :: string where "kPresetExcavator = ''excavator''"
definition kPresetSkidSteer :: string where "kPresetSkidSteer = ''skid_steer''"

definition fill :: "'a \<Rightarrow> nat \<Rightarrow> 'a list \<Rightarrow> 'a list" where
  "fill z n xs = xs @ replicate (n - length xs) z"

definition cf_with :: "persisted_input list \<Rightarrow> persisted_channel list \<Rightarrow> persisted_config" where
  "cf_with ins chs = cf_zero\<lparr>cf_magic := kConfigMagic, cf_version := kConfigVersion,
     cf_inputs := fill pv_zero kMaxVirtualInputs ins, cf_channels := fill pc_zero kMaxOutputChannels chs\<rparr>"

definition buildBuiltinPresetRcCar :: persisted_config where
  "buildBuiltinPresetRcCar = cf_with
     [pv_zero\<lparr>pv_used := 1, pv_input := input_code AxisRX, pv_deadzone := 10, pv_expo := 20, pv_name := ''Steering''\<rparr>,
      pv_zero\<lparr>pv_used := 1, pv_input := input_code Throttle, pv_secondary := input_code Brake, pv_deadzone := 0,
        pv_expo := 25, pv_name := ''Throttle''\<rparr>,
      pv_zero\<lparr>pv_used := 1, pv_input := input_code ButtonA, pv_reserved := 34, pv_deadzone := 0, pv_expo := 0,
        pv_name := ''Steering DR''\<rparr>]
     [pc_zero\<lparr>pc_used := 1, pc_type := 0, pc_pin := 13, pc_source_a := 0, pc_source_b := - 1, pc_source_c := - 1,
        pc_mix_mode := 1, pc_weight_a := 100, pc_weight_b := 0, pc_weight_c := 0, pc_offset_b := 0,
        pc_threshold := 50, pc_name := ''Steering''\<rparr>,
      pc_zero\<lparr>pc_used := 1, pc_type := 0, pc_pin := 12, pc_inverted := 1, pc_source_a := 1, pc_source_b := 2,
        pc_source_c := - 1, pc_mix_mode := 1, pc_weight_a := 100, pc_weight_b := - 75, pc_weight_c := 0,
        pc_offset_b := 100, pc_threshold := 50, pc_name := ''Throttle''\<rparr>]"

definition vmap_entry :: "string \<times> input_id \<times> input_id \<times> u8 \<times> u8 \<Rightarrow> persisted_input" where
  "vmap_entry e = (case e of (name, inp, secondary, deadzone, expo) \<Rightarrow>
     pv_zero\<lparr>pv_used := 1, pv_input := input_code inp, pv_secondary := input_code secondary, pv_deadzone := deadzone,
       pv_expo := expo, pv_name := take 23 name\<rparr>)"

definition omap_entry :: "string \<times> u8 \<times> bool \<times> int \<times> int \<times> int \<times> int \<Rightarrow> persisted_channel" where
  "omap_entry e = (case e of (name, pin, inverted, sourceA, weightA, sourceB, weightB) \<Rightarrow>
     pc_zero\<lparr>pc_used := 1, pc_type := 0, pc_pin := pin, pc_inverted := (if inverted then 1 else 0),
       pc_source_a := sourceA, pc_weight_a := weightA, pc_source_b := sourceB, pc_weight_b := weightB,
       pc_source_c := - 1, pc_weight_c := 0, pc_threshold := 50, pc_name := take 23 name\<rparr>)"

definition buildBuiltinPresetExcavator :: persisted_config where
  "buildBuiltinPresetExcavator = cf_with
     (map vmap_entry [(''Drive'', AxisY, In_None, 10, 30), (''Steer'', AxisX, In_None, 10, 20),
        (''Turret'', AxisRX, In_None, 10, 15), (''Boom'', AxisRY, In_None, 10, 20), (''Bucket'', Throttle, Brake, 5, 25)])
     (map omap_entry [(''Left Track'', 5, False, 0, 100, 1, 100), (''Right Track'', 6, False, 0, 100, 1, - 100),
        (''Turret'', 4, False, 2, 100, - 1, 0), (''Boom'', 7, False, 3, 100, - 1, 0), (''Bucket'', 16, True, 4, 100, - 1, 0)])"

definition buildBuiltinPresetSkidSteer :: persisted_config where
  "buildBuiltinPresetSkidSteer = cf_with
     (map vmap_entry [(''Drive'', AxisY, In_None, 10, 20), (''Steer'', AxisX, In_None, 10, 20),
        (''Arm'', AxisRY, In_None, 10, 20), (''Bucket'', AxisRX, In_None, 10, 20)])
     (map omap_entry [(''Left Track'', 5, False, 0, 100, 1, 100), (''Right Track'', 6, False, 0, 100, 1, - 100),
        (''Arm'', 7, False, 2, 100, - 1, 0), (''Bucket'', 16, False, 3, 100, - 1, 0)])"

definition loadAnyPreset :: "'f nvs \<Rightarrow> string \<Rightarrow> 'f \<Rightarrow> preset_error + persisted_config" where
  "loadAnyPreset nv name f =
     (if name = ''rc_car_controller'' then Inr buildBuiltinPresetRcCar
      else if name = kPresetRcCar then Inr buildBuiltinPresetRcCar
      else if name = kPresetExcavator then Inr buildBuiltinPresetExcavator
      else if name = kPresetSkidSteer then Inr buildBuiltinPresetSkidSteer
      else loadUserPreset nv name f)"

section \<open>The model to start with\<close>

definition save_text :: "'f nvs \<Rightarrow> string \<Rightarrow> string \<Rightarrow> 'f \<Rightarrow> bool \<times> 'f" where
  "save_text nv key s f =
     (if \<not> nv_open nv True f then (False, f)
      else case nv_set nv key (Text s) f of (False, f1) \<Rightarrow> (False, f1) | (True, f1) \<Rightarrow> nv_commit nv f1)"

definition saveBootModelName :: "'f nvs \<Rightarrow> string \<Rightarrow> 'f \<Rightarrow> bool \<times> 'f" where
  "saveBootModelName nv rawName f = save_text nv ''boot_model'' (sanitizePresetName rawName) f"

text \<open>The size that \<open>nvs_get_str\<close> reports includes the terminating zero.\<close>

definition loadBootModelName :: "'f nvs \<Rightarrow> 'f \<Rightarrow> string" where
  "loadBootModelName nv f =
     (if \<not> nv_open nv False f then kPresetRcCar
      else case nv_get nv ''boot_model'' f of
          Some (Text s) \<Rightarrow>
            (if length s + 1 > 64 then kPresetRcCar
             else let name = sanitizePresetName s in if name = ''rc_car_controller'' then kPresetRcCar else name)
        | _ \<Rightarrow> kPresetRcCar)"

definition saveRuntimeConfigToNvs :: "'f nvs \<Rightarrow> rc_state \<Rightarrow> 'f \<Rightarrow> bool \<times> 'f" where
  "saveRuntimeConfigToNvs nv s f =
     (if \<not> nv_open nv True f then (False, f)
      else case nv_set nv ''cfg'' (Config (exportCurrentConfig s)) f of
        (False, f1) \<Rightarrow> (False, f1) | (True, f1) \<Rightarrow> nv_commit nv f1)"

section \<open>Preset service\<close>

definition saveUserPresetFromConfig ::
  "'f nvs \<Rightarrow> string \<Rightarrow> persisted_config \<Rightarrow> 'f \<Rightarrow> preset_error option \<times> 'f" where
  "saveUserPresetFromConfig nv rawName cfg f = saveUserPresetBlob nv rawName (Some cfg) f"

definition saveCurrentAsUserPreset :: "'f nvs \<Rightarrow> string \<Rightarrow> rc_state \<Rightarrow> 'f \<Rightarrow> preset_error option \<times> 'f" where
  "saveCurrentAsUserPreset nv rawName s f = saveUserPresetBlob nv rawName (Some (exportCurrentConfig s)) f"

definition presetNameExists :: "'f nvs \<Rightarrow> string \<Rightarrow> 'f \<Rightarrow> bool" where
  "presetNameExists nv rawName f \<longleftrightarrow>
     (let dir = loadPresetDirectory nv f; target = sanitizePresetName rawName
      in \<exists>n \<in> set (take (pd_count dir) (pd_names dir)). equalsIgnoreCase target n)"

definition nextAvailableCustomModelName :: "'f nvs \<Rightarrow> string \<Rightarrow> nat \<Rightarrow> 'f \<Rightarrow> string" where
  "nextAvailableCustomModelName nv baseName millis f =
     (let base = sanitizePresetName baseName
      in if \<not> presetNameExists nv base f then base
         else case find (\<lambda>c. \<not> presetNameExists nv c f) (map (\<lambda>i. base @ ''_'' @ decimal i) [2..<100]) of
             Some candidate \<Rightarrow> candidate
           | None \<Rightarrow> base @ ''_'' @ decimal (millis mod 1000))"

end
