(* ===== verification/Preset_Refinement.thy ===== *)
theory Preset_Refinement
  imports Preset_Store
begin

text \<open>
  Theorems about the presets (\<^verbatim>\<open>main/preset_store.cpp\<close>, \<^verbatim>\<open>main/preset_service.cpp\<close>): the flash
  store refines a map from canonical names to configurations, a save is atomic, a failed deletion is
  not; names are valid, suggested names free, the built-in presets applicable.
\<close>

section \<open>Lemmas about names\<close>

lemma name_char_no_space: "name_char c \<Longrightarrow> \<not> is_space c"
  by (auto simp: name_char_def is_space_def between_def)

lemma sanitize_loop_ok:
  "length out \<le> 23 \<Longrightarrow> \<forall>c \<in> set out. name_char c \<Longrightarrow>
     length (sanitize_loop cs out) \<le> 23 \<and> (\<forall>c \<in> set (sanitize_loop cs out). name_char c)"
proof (induction cs arbitrary: out)
  case (Cons c cs)
  define out' where "out' = (if name_char c then out @ [c] else if c = CHR '' '' then out @ [CHR ''_''] else out)"
  show ?case
  proof (cases "length out < 23")
    case True
    have len: "length out' \<le> 23" using True by (simp add: out'_def)
    have "name_char CHR ''_''" by (simp add: name_char_def)
    then have chars: "\<forall>c \<in> set out'. name_char c" using Cons.prems(2) by (auto simp: out'_def split: if_splits)
    have "sanitize_loop (c # cs) out = sanitize_loop cs out'" using True by (simp add: out'_def)
    with Cons.IH [OF len chars] show ?thesis by metis
  next
    case False
    with Cons.prems show ?thesis by simp
  qed
qed simp

lemma sanitize_loop_id:
  "length out + length cs \<le> 23 \<Longrightarrow> \<forall>c \<in> set cs. name_char c \<Longrightarrow> sanitize_loop cs out = out @ cs"
  by (induction cs arbitrary: out) auto

lemma trim_id: "\<forall>c \<in> set s. name_char c \<Longrightarrow> trim s = s"
proof -
  have d: "\<forall>c \<in> set s. name_char c \<Longrightarrow> dropWhile is_space s = s" for s
    by (cases s) (auto simp: name_char_no_space)
  assume "\<forall>c \<in> set s. name_char c"
  then show ?thesis using d [of s] d [of "rev s"] by (simp add: trim_def)
qed

text \<open>A valid stored name: one that sanitising leaves as it is.\<close>

definition valid_name :: "string \<Rightarrow> bool" where
  "valid_name n \<longleftrightarrow> n \<noteq> [] \<and> length n \<le> 23 \<and> (\<forall>c \<in> set n. name_char c)"

lemma sanitize_valid: "valid_name (sanitizePresetName s)"
  using sanitize_loop_ok [of "[]" "trim s"]
  by (auto simp: valid_name_def sanitizePresetName_def Let_def name_char_def between_def)

lemma sanitize_id: "valid_name n \<Longrightarrow> sanitizePresetName n = n"
  using sanitize_loop_id [of "[]" n]
  by (simp add: valid_name_def sanitizePresetName_def trim_id)

definition name_key :: "string \<Rightarrow> string" where
  "name_key n = map to_lower n"

lemma equals_key: "equalsIgnoreCase a b \<longleftrightarrow> name_key a = name_key b"
  by (auto simp: equalsIgnoreCase_def name_key_def dest: map_eq_imp_length_eq)

lemma decimal_digit: "n < 10 \<Longrightarrow> decimal n = [char_of (48 + n)]"
  by (simp add: decimal.simps)

lemma digit_inject:
  fixes m n :: nat
  assumes "m < 10" "n < 10"
  shows "(char_of (48 + m) :: char) = char_of (48 + n) \<longleftrightarrow> m = n"
proof
  assume "(char_of (48 + m) :: char) = char_of (48 + n)"
  then have "of_char (char_of (48 + m) :: char) = (of_char (char_of (48 + n) :: char) :: nat)" by simp
  with assms show "m = n" by simp
qed simp

lemma blob_key [simp]:
  "m < 10 \<Longrightarrow> n < 10 \<Longrightarrow> presetBlobKey m = presetBlobKey n \<longleftrightarrow> m = n"
  "m < 10 \<Longrightarrow> presetBlobKey m \<noteq> ''preset_dir''" "m < 10 \<Longrightarrow> ''preset_dir'' \<noteq> presetBlobKey m"
  by (simp_all add: presetBlobKey_def decimal_digit digit_inject)

section \<open>What the program relies on of the flash library\<close>

definition nvs_ok :: "'f nvs \<Rightarrow> bool" where
  "nvs_ok nv \<longleftrightarrow>
     (\<forall>k v f b f'. nv_set nv k v f = (b, f') \<longrightarrow> (b \<longrightarrow> nv_get nv k f' = Some v) \<and>
        (\<forall>k'. k' \<noteq> k \<or> \<not> b \<longrightarrow> nv_get nv k' f' = nv_get nv k' f)) \<and>
     (\<forall>k k' f. k' \<noteq> k \<longrightarrow> nv_get nv k' (nv_erase nv k f) = nv_get nv k' f) \<and>
     (\<forall>k f. nv_get nv k (nv_erase nv k f) \<in> {None, nv_get nv k f}) \<and>
     (\<forall>k f. nv_get nv k (snd (nv_commit nv f)) = nv_get nv k f) \<and>
     (\<forall>k f. nv_get nv k f \<noteq> None \<longrightarrow> nv_open nv False f)"

definition nvs_reliable :: "'f nvs \<Rightarrow> bool" where
  "nvs_reliable nv \<longleftrightarrow> nvs_ok nv \<and> (\<forall>f. nv_open nv True f) \<and> (\<forall>k v f. fst (nv_set nv k v f)) \<and> (\<forall>f. fst (nv_commit nv f))"

lemma nvs_setD:
  assumes "nvs_ok nv" "nv_set nv k v f = (b, f')"
  shows "nv_get nv k' f' = (if b \<and> k' = k then Some v else nv_get nv k' f)"
proof -
  have "(b \<longrightarrow> nv_get nv k f' = Some v) \<and> (\<forall>k'. k' \<noteq> k \<or> \<not> b \<longrightarrow> nv_get nv k' f' = nv_get nv k' f)"
    using assms unfolding nvs_ok_def by blast
  then show ?thesis by auto
qed

lemma nvs_commitD: "nvs_ok nv \<Longrightarrow> nv_commit nv f = (b, f') \<Longrightarrow> nv_get nv k f' = nv_get nv k f"
  unfolding nvs_ok_def by (metis snd_conv)

lemma nvs_eraseD: "nvs_ok nv \<Longrightarrow> k' \<noteq> k \<Longrightarrow> nv_get nv k' (nv_erase nv k f) = nv_get nv k' f"
  by (simp add: nvs_ok_def)

lemma nvs_open_read: "nvs_ok nv \<Longrightarrow> nv_get nv k f = Some v \<Longrightarrow> nv_open nv False f"
  unfolding nvs_ok_def by (metis option.distinct(1))

lemma reliable_set: "nvs_reliable nv \<Longrightarrow> \<exists>f'. nv_set nv k v f = (True, f')"
  unfolding nvs_reliable_def by (metis prod.collapse)

lemma reliable_commit: "nvs_reliable nv \<Longrightarrow> \<exists>f'. nv_commit nv f = (True, f')"
  unfolding nvs_reliable_def by (metis prod.collapse)

text \<open>The directory that a value under its key stands for.\<close>

definition directory_of :: "stored option \<Rightarrow> preset_directory" where
  "directory_of v = (case v of
     Some (Directory dir) \<Rightarrow>
       (if pd_magic dir \<noteq> kConfigMagic \<or> pd_version dir \<noteq> kPresetDirectoryVersion then fresh_directory
        else if pd_count dir > kMaxUserPresets then dir\<lparr>pd_count := kMaxUserPresets\<rparr> else dir)
   | _ \<Rightarrow> fresh_directory)"

lemma load_directory: "nvs_ok nv \<Longrightarrow> loadPresetDirectory nv f = directory_of (nv_get nv ''preset_dir'' f)"
  by (auto simp: loadPresetDirectory_def directory_of_def split: option.splits stored.splits dest: nvs_open_read)

section \<open>The presets as a map\<close>

definition preset_config :: "stored option \<Rightarrow> persisted_config" where
  "preset_config v = (case v of Some (Config cfg) \<Rightarrow> cfg | _ \<Rightarrow> cf_zero)"

definition entries :: "'f nvs \<Rightarrow> 'f \<Rightarrow> (string \<times> persisted_config) list" where
  "entries nv f = (let dir = loadPresetDirectory nv f in
     map (\<lambda>i. (name_key (pd_names dir ! i), preset_config (nv_get nv (presetBlobKey i) f))) [0..<pd_count dir])"

definition store_ok :: "'f nvs \<Rightarrow> 'f \<Rightarrow> bool" where
  "store_ok nv f \<longleftrightarrow> (let dir = loadPresetDirectory nv f in
     pd_magic dir = kConfigMagic \<and> pd_version dir = kPresetDirectoryVersion \<and>
     pd_count dir \<le> kMaxUserPresets \<and> length (pd_names dir) = kMaxUserPresets \<and>
     (\<forall>i < pd_count dir. valid_name (pd_names dir ! i) \<and> (\<exists>cfg. nv_get nv (presetBlobKey i) f = Some (Config cfg))) \<and>
     distinct (map fst (entries nv f)))"

definition preset_map :: "'f nvs \<Rightarrow> 'f \<Rightarrow> string \<Rightarrow> persisted_config option" where
  "preset_map nv f = map_of (entries nv f)"

lemma entries_length: "length (entries nv f) = pd_count (loadPresetDirectory nv f)"
  by (simp add: entries_def Let_def)

lemma entries_nth: "i < pd_count (loadPresetDirectory nv f) \<Longrightarrow> entries nv f ! i =
    (name_key (pd_names (loadPresetDirectory nv f) ! i), preset_config (nv_get nv (presetBlobKey i) f))"
  by (simp add: entries_def Let_def)

lemma find_index_map: "find_index P (map g xs) = find_index (\<lambda>x. P (g x)) xs"
proof -
  have "find_index_from k P (map g xs) = find_index_from k (\<lambda>x. P (g x)) xs" for k by (induction xs arbitrary: k) simp_all
  then show ?thesis by (simp add: find_index_def)
qed

lemma names_taken:
  assumes "store_ok nv f"
  shows "take (pd_count (loadPresetDirectory nv f)) (pd_names (loadPresetDirectory nv f)) =
    map (\<lambda>i. pd_names (loadPresetDirectory nv f) ! i) [0..<pd_count (loadPresetDirectory nv f)]"
  using assms by (intro nth_equalityI) (auto simp: store_ok_def Let_def)

lemma slot_found:
  assumes "store_ok nv f"
  shows "findPresetSlotByName (loadPresetDirectory nv f) n = find_index (\<lambda>e. fst e = name_key n) (entries nv f)"
  using names_taken [OF assms]
  by (simp add: findPresetSlotByName_def entries_def Let_def find_index_map equals_key eq_commute [of "name_key n"])

lemma slot_none:
  assumes "store_ok nv f" "findPresetSlotByName (loadPresetDirectory nv f) n = None"
  shows "preset_map nv f (name_key n) = None"
proof -
  have "\<forall>e \<in> set (entries nv f). fst e \<noteq> name_key n" using assms(2) by (simp add: slot_found [OF assms(1)] find_index_None)
  then show ?thesis by (auto simp: preset_map_def map_of_eq_None_iff)
qed

lemma slot_some:
  assumes "store_ok nv f" "findPresetSlotByName (loadPresetDirectory nv f) n = Some i"
  shows "i < pd_count (loadPresetDirectory nv f)" "i < length (entries nv f)" "fst (entries nv f ! i) = name_key n"
    "preset_map nv f (name_key n) = Some (snd (entries nv f ! i))"
    "nv_get nv (presetBlobKey i) f = Some (Config (snd (entries nv f ! i)))"
proof -
  note i = find_index_Some [OF assms(2) [unfolded slot_found [OF assms(1)]]]
  show c: "i < pd_count (loadPresetDirectory nv f)" using i(1) by (simp add: entries_length)
  show "i < length (entries nv f)" "fst (entries nv f ! i) = name_key n" using i by simp_all
  have d: "distinct (map fst (entries nv f))" using assms(1) by (simp add: store_ok_def Let_def)
  have "(name_key n, snd (entries nv f ! i)) \<in> set (entries nv f)" using i(1,2) by (metis nth_mem prod.collapse)
  then show "preset_map nv f (name_key n) = Some (snd (entries nv f ! i))"
    unfolding preset_map_def using d by (simp add: map_of_is_SomeI)
  show "nv_get nv (presetBlobKey i) f = Some (Config (snd (entries nv f ! i)))"
    using assms(1) c by (auto simp: store_ok_def entries_nth preset_config_def Let_def)
qed

text \<open>Two flash states that agree on the directory and on the blobs in use hold the same presets.\<close>

lemma same_store:
  assumes "nvs_ok nv" "nv_get nv ''preset_dir'' f' = nv_get nv ''preset_dir'' f"
    "\<forall>i < pd_count (loadPresetDirectory nv f). nv_get nv (presetBlobKey i) f' = nv_get nv (presetBlobKey i) f"
  shows "entries nv f' = entries nv f" "store_ok nv f' = store_ok nv f" "preset_map nv f' = preset_map nv f"
proof -
  have d: "loadPresetDirectory nv f' = loadPresetDirectory nv f" using assms by (simp add: load_directory)
  show e: "entries nv f' = entries nv f" using assms(3) by (auto simp: entries_def d Let_def)
  show "preset_map nv f' = preset_map nv f" by (simp add: preset_map_def e)
  show "store_ok nv f' = store_ok nv f" using assms(3) by (auto simp: store_ok_def d e Let_def)
qed

text \<open>A directory that has just been written is the one that is read.\<close>

lemma written_directory:
  assumes "nvs_ok nv" "nv_get nv ''preset_dir'' f = Some (Directory dir)" "pd_magic dir = kConfigMagic"
    "pd_version dir = kPresetDirectoryVersion" "pd_count dir \<le> kMaxUserPresets"
  shows "loadPresetDirectory nv f = dir"
  using assms by (simp add: load_directory directory_of_def)

lemma map_of_replace:
  assumes "distinct (map fst es)" "i < length es"
  shows "map_of (es[i := (fst (es ! i), v)]) = (map_of es)(fst (es ! i) \<mapsto> v)"
  using assms
proof (induction es arbitrary: i)
  case (Cons e es)
  then show ?case
  proof (cases i)
    case (Suc j)
    have "fst e \<noteq> fst (es ! j)" using Cons.prems Suc by (auto dest: nth_mem)
    with Cons Suc show ?thesis by (auto simp: fun_eq_iff)
  qed auto
qed simp

lemma map_of_drop_one:
  assumes "distinct (map fst es)" "i < length es"
  shows "map_of (take i es @ drop (Suc i) es) = (map_of es)(fst (es ! i) := None)"
  using assms
proof (induction es arbitrary: i)
  case (Cons e es)
  then show ?case
  proof (cases i)
    case 0
    with Cons.prems show ?thesis by (auto simp: fun_eq_iff map_of_eq_None_iff)
  next
    case (Suc j)
    have "fst e \<noteq> fst (es ! j)" using Cons.prems Suc by (auto dest: nth_mem)
    with Cons Suc show ?thesis by (auto simp: fun_eq_iff)
  qed
qed simp

section \<open>Saving\<close>

text \<open>The state in the middle of a save: the blob is written.\<close>

lemma blob_over:
  assumes st: "store_ok nv f" and i: "i < pd_count (loadPresetDirectory nv f)"
    and d: "loadPresetDirectory nv f' = loadPresetDirectory nv f"
    and g: "\<forall>k. k \<noteq> ''preset_dir'' \<longrightarrow> nv_get nv k f' = (if k = presetBlobKey i then Some (Config cfg) else nv_get nv k f)"
  shows "store_ok nv f' \<and> preset_map nv f' = (preset_map nv f)(fst (entries nv f ! i) \<mapsto> cfg)"
proof -
  let ?d = "loadPresetDirectory nv f"
  have cnt: "pd_count ?d \<le> 8" using st by (simp add: store_ok_def kMaxUserPresets_def Let_def)
  have e: "entries nv f' = (entries nv f)[i := (fst (entries nv f ! i), cfg)]"
  proof (rule nth_equalityI)
    fix j assume "j < length (entries nv f')"
    then have j: "j < pd_count ?d" by (simp add: entries_length d)
    then show "entries nv f' ! j = (entries nv f)[i := (fst (entries nv f ! i), cfg)] ! j"
      using i cnt g by (cases "j = i") (simp_all add: entries_nth d entries_length preset_config_def)
  qed (simp add: entries_length d)
  have "map fst (entries nv f') = map fst (entries nv f)"
    using i by (simp add: e map_update list_update_same_conv entries_length)
  moreover have "\<exists>c. nv_get nv (presetBlobKey j) f' = Some (Config c)" if "j < pd_count ?d" for j
  proof -
    have "presetBlobKey j \<noteq> ''preset_dir''" using that cnt by simp
    then show ?thesis using g st that by (cases "presetBlobKey j = presetBlobKey i") (simp_all add: store_ok_def Let_def)
  qed
  ultimately have "store_ok nv f'" using st by (simp add: store_ok_def d Let_def)
  moreover have "distinct (map fst (entries nv f))" using st by (simp add: store_ok_def Let_def)
  ultimately show ?thesis using i map_of_replace [of "entries nv f" i cfg] by (simp add: preset_map_def e entries_length)
qed

text \<open>A new blob with the directory that names it.\<close>

lemma blob_added:
  assumes nv: "nvs_ok nv" and st: "store_ok nv f" and n: "pd_count (loadPresetDirectory nv f) < kMaxUserPresets"
    and name: "valid_name name" "preset_map nv f (name_key name) = None"
    and g: "\<forall>k. nv_get nv k f' =
      (if k = ''preset_dir'' then Some (Directory ((loadPresetDirectory nv f)
         \<lparr>pd_count := pd_count (loadPresetDirectory nv f) + 1,
          pd_names := (pd_names (loadPresetDirectory nv f))[pd_count (loadPresetDirectory nv f) := name]\<rparr>))
       else if k = presetBlobKey (pd_count (loadPresetDirectory nv f)) then Some (Config cfg) else nv_get nv k f)"
  shows "store_ok nv f' \<and> preset_map nv f' = (preset_map nv f)(name_key name \<mapsto> cfg)"
proof -
  let ?d = "loadPresetDirectory nv f"
  have n8: "pd_count ?d < 8" and len: "length (pd_names ?d) = 8" using n st
    by (simp_all add: store_ok_def kMaxUserPresets_def Let_def)
  have d: "loadPresetDirectory nv f' = ?d\<lparr>pd_count := pd_count ?d + 1, pd_names := (pd_names ?d)[pd_count ?d := name]\<rparr>"
    using st n g by (intro written_directory [OF nv]) (auto simp: store_ok_def Let_def)
  have e: "entries nv f' = entries nv f @ [(name_key name, cfg)]"
  proof (rule nth_equalityI)
    fix j assume "j < length (entries nv f')"
    then have j: "j < pd_count ?d \<or> j = pd_count ?d" by (simp add: entries_length d) linarith
    then show "entries nv f' ! j = (entries nv f @ [(name_key name, cfg)]) ! j"
      using n8 len g by (cases "j = pd_count ?d")
        (simp_all add: entries_nth d entries_length nth_append preset_config_def)
  qed (simp add: entries_length d)
  have fresh: "name_key name \<notin> fst ` set (entries nv f)"
    using name(2) by (simp add: preset_map_def map_of_eq_None_iff)
  have "store_ok nv f'"
    using st fresh n8 len name(1) g
    by (auto simp: store_ok_def d e kMaxUserPresets_def nth_list_update less_Suc_eq Let_def)
  moreover have "preset_map nv f' = (preset_map nv f)(name_key name \<mapsto> cfg)"
    using name(2) by (auto simp: preset_map_def e map_add_def fun_eq_iff split: option.split)
  ultimately show ?thesis by simp
qed

lemma store_and_commit_effect:
  assumes "nvs_ok nv" "store_and_commit nv key v dir f = (b, f')" "key \<noteq> ''preset_dir''"
  shows "(b \<longrightarrow> (\<forall>k. nv_get nv k f' = (if k = ''preset_dir'' then Some (Directory dir) else if k = key then Some v else nv_get nv k f))) \<and>
    ((\<forall>k. nv_get nv k f' = nv_get nv k f) \<or>
     (\<forall>k. nv_get nv k f' = (if k = key then Some v else nv_get nv k f)) \<or>
     (\<forall>k. nv_get nv k f' = (if k = ''preset_dir'' then Some (Directory dir) else if k = key then Some v else nv_get nv k f)))"
proof -
  obtain b1 f1 where 1: "nv_set nv key v f = (b1, f1)" by fastforce
  obtain b2 f2 where 2: "nv_set nv ''preset_dir'' (Directory dir) f1 = (b2, f2)" by fastforce
  obtain b3 f3 where 3: "nv_commit nv f2 = (b3, f3)" by fastforce
  note g = nvs_setD [OF assms(1) 1] nvs_setD [OF assms(1) 2] nvs_commitD [OF assms(1) 3]
  show ?thesis using assms(2,3) 1 2 3 g
    by (cases b1; cases b2) (simp_all add: store_and_commit_def, (metis+)?)
qed

lemma name_key_valid: "take 23 (sanitizePresetName n) = sanitizePresetName n"
  using sanitize_valid [of n] by (simp add: valid_name_def)

definition canonical :: "string \<Rightarrow> string" where
  "canonical rawName = name_key (sanitizePresetName rawName)"

text \<open>
  Saving, whatever fails on the way: nothing but the named preset changes, it is the old or the new
  one, and after a success it is the new one.
\<close>

lemma save_effect:
  assumes nv: "nvs_ok nv" and st: "store_ok nv f" and r: "saveUserPresetBlob nv rawName (Some cfg) f = (e, f')"
  shows "store_ok nv f' \<and>
    (preset_map nv f' = preset_map nv f \<or> preset_map nv f' = (preset_map nv f)(canonical rawName \<mapsto> cfg)) \<and>
    (e = None \<longrightarrow> preset_map nv f' = (preset_map nv f)(canonical rawName \<mapsto> cfg))"
proof -
  let ?n = "sanitizePresetName rawName" and ?d = "loadPresetDirectory nv f"
  have cnt: "pd_count ?d \<le> 8" using st by (simp add: store_ok_def kMaxUserPresets_def Let_def)
  show ?thesis
  proof (cases "findPresetSlotByName ?d ?n")
    case (Some i)
    note s = slot_some [OF st Some]
    have dok: "pd_magic ?d = kConfigMagic" "pd_version ?d = kPresetDirectoryVersion" "pd_count ?d \<le> kMaxUserPresets"
      using st by (simp_all add: store_ok_def Let_def)
    show ?thesis
    proof (cases "nv_open nv True f")
      case True
      obtain b where b: "store_and_commit nv (presetBlobKey i) (Config cfg) ?d f = (b, f')" "e = (if b then None else Some Save_Failed)"
        using r Some True by (auto simp: saveUserPresetBlob_def Let_def split: prod.splits)
      have nd: "presetBlobKey i \<noteq> ''preset_dir''" using s(1) cnt by simp
      note eff = store_and_commit_effect [OF nv b(1) nd]
      have over: "store_ok nv t \<and> preset_map nv t = (preset_map nv f)(canonical rawName \<mapsto> cfg)"
        if "\<forall>k. nv_get nv k t = (if k = presetBlobKey i then Some (Config cfg) else nv_get nv k f)" for t
        using blob_over [OF st s(1), of t cfg] s(3) nd that nv by (simp add: canonical_def load_directory)
      have over2: "store_ok nv t \<and> preset_map nv t = (preset_map nv f)(canonical rawName \<mapsto> cfg)"
        if t: "\<forall>k. nv_get nv k t = (if k = ''preset_dir'' then Some (Directory ?d) else
          if k = presetBlobKey i then Some (Config cfg) else nv_get nv k f)" for t
      proof -
        have "nv_get nv ''preset_dir'' t = Some (Directory ?d)" using t by simp
        then have "loadPresetDirectory nv t = ?d" using dok by (intro written_directory [OF nv])
        then show ?thesis using blob_over [OF st s(1), of t cfg] t s(3) by (simp add: canonical_def)
      qed
      have same: "store_ok nv t \<and> preset_map nv t = preset_map nv f" if "\<forall>k. nv_get nv k t = nv_get nv k f" for t
        using same_store [OF nv, of t f] st that by simp
      have "e = None \<longleftrightarrow> b" using b(2) by simp
      then show ?thesis using eff over [of f'] over2 [of f'] same [of f'] by argo
    next
      case False
      then show ?thesis using r Some st by (auto simp: saveUserPresetBlob_def Let_def)
    qed
  next
    case None
    show ?thesis
    proof (cases "pd_count ?d < kMaxUserPresets \<and> nv_open nv True f")
      case True
      let ?dir = "?d\<lparr>pd_count := pd_count ?d + 1, pd_names := (pd_names ?d)[pd_count ?d := ?n]\<rparr>"
      obtain b where b: "store_and_commit nv (presetBlobKey (pd_count ?d)) (Config cfg) ?dir f = (b, f')"
        "e = (if b then None else Some Save_Failed)"
        using r None True by (auto simp: saveUserPresetBlob_def name_key_valid Let_def split: prod.splits)
      have nd: "presetBlobKey (pd_count ?d) \<noteq> ''preset_dir''" using cnt by simp
      note eff = store_and_commit_effect [OF nv b(1) nd]
      have added: "store_ok nv t \<and> preset_map nv t = (preset_map nv f)(canonical rawName \<mapsto> cfg)"
        if "\<forall>k. nv_get nv k t = (if k = ''preset_dir'' then Some (Directory ?dir) else
          if k = presetBlobKey (pd_count ?d) then Some (Config cfg) else nv_get nv k f)" for t
        using blob_added [OF nv st _ sanitize_valid slot_none [OF st None] that] True by (simp add: canonical_def)
      have fresh: "presetBlobKey i \<noteq> presetBlobKey (pd_count ?d)" if "i < pd_count ?d" for i using that cnt by simp
      have same: "store_ok nv t \<and> preset_map nv t = preset_map nv f" if "\<forall>k. nv_get nv k t = nv_get nv k f" for t
        using same_store [OF nv, of t f] st that by simp
      have spare: "store_ok nv t \<and> preset_map nv t = preset_map nv f"
        if "\<forall>k. nv_get nv k t = (if k = presetBlobKey (pd_count ?d) then Some (Config cfg) else nv_get nv k f)" for t
        using same_store [OF nv, of t f] st that nd fresh by simp
      have "e = None \<longleftrightarrow> b" using b(2) by simp
      then show ?thesis using eff added [of f'] same [of f'] spare [of f'] by argo
    next
      case False
      then show ?thesis using r None st by (auto simp: saveUserPresetBlob_def Let_def split: if_splits)
    qed
  qed
qed

section \<open>Deleting\<close>

definition skip_slot :: "nat \<Rightarrow> nat \<Rightarrow> nat" where
  "skip_slot slot j = (if j < slot then j else j + 1)"

text \<open>The loop before position \<open>i\<close>: the presets before it, without the deleted one, are in place.\<close>

definition compacted :: "'f nvs \<Rightarrow> nat \<Rightarrow> preset_directory \<Rightarrow> 'f \<Rightarrow> nat \<Rightarrow> preset_directory \<Rightarrow> 'f \<Rightarrow> bool" where
  "compacted nv slot dir f i newDir g \<longleftrightarrow>
     pd_magic newDir = kConfigMagic \<and> pd_version newDir = kPresetDirectoryVersion \<and>
     pd_count newDir = (if i \<le> slot then i else i - 1) \<and> length (pd_names newDir) = kMaxUserPresets \<and>
     (\<forall>j < pd_count newDir. pd_names newDir ! j = pd_names dir ! skip_slot slot j \<and>
        nv_get nv (presetBlobKey j) g = nv_get nv (presetBlobKey (skip_slot slot j)) f) \<and>
     (\<forall>j. i \<le> j \<and> j < pd_count dir \<longrightarrow> nv_get nv (presetBlobKey j) g = nv_get nv (presetBlobKey j) f)"

lemma compacted_skip: "compacted nv slot dir f slot newDir g \<Longrightarrow> compacted nv slot dir f (Suc slot) newDir g"
  by (simp add: compacted_def)

lemma compacted_copy:
  assumes c: "compacted nv slot dir f i newDir g" and i: "i \<noteq> slot" "i < pd_count dir" "pd_count dir \<le> kMaxUserPresets"
    and nm: "length (pd_names dir ! i) \<le> 23"
    and g': "\<forall>k. nv_get nv k g' = (if k = presetBlobKey (pd_count newDir) then nv_get nv (presetBlobKey i) f else nv_get nv k g)"
  shows "compacted nv slot dir f (Suc i)
    (newDir\<lparr>pd_names := (pd_names newDir)[pd_count newDir := take 23 (pd_names dir ! i)], pd_count := pd_count newDir + 1\<rparr>) g'"
proof -
  let ?n = "pd_count newDir"
  have n: "?n = (if i \<le> slot then i else i - 1)" "?n < 8" "?n < length (pd_names newDir)" "?n \<le> i" "i < 8"
    using c i by (auto simp: compacted_def kMaxUserPresets_def split: if_splits)
  have sk: "skip_slot slot ?n = i" using n(1) i(1) by (auto simp: skip_slot_def)
  have key: "presetBlobKey j = presetBlobKey ?n \<longleftrightarrow> j = ?n" if "j < 8" for j using that n(2) by simp
  have cnt: "pd_count dir \<le> 8" using i(3) by (simp add: kMaxUserPresets_def)
  have old: "pd_names newDir ! j = pd_names dir ! skip_slot slot j"
      "nv_get nv (presetBlobKey j) g = nv_get nv (presetBlobKey (skip_slot slot j)) f" if "j < ?n" for j
    using c that by (simp_all add: compacted_def)
  have rest: "nv_get nv (presetBlobKey j) g' = nv_get nv (presetBlobKey j) f" if "Suc i \<le> j" "j < pd_count dir" for j
  proof -
    have "j \<noteq> ?n" "j < 8" using that n(4) cnt by auto
    then have "nv_get nv (presetBlobKey j) g' = nv_get nv (presetBlobKey j) g" using g' by (simp add: key)
    also have "\<dots> = nv_get nv (presetBlobKey j) f" using c that by (simp add: compacted_def)
    finally show ?thesis .
  qed
  have done_j: "(pd_names newDir)[?n := take 23 (pd_names dir ! i)] ! j = pd_names dir ! skip_slot slot j \<and>
      nv_get nv (presetBlobKey j) g' = nv_get nv (presetBlobKey (skip_slot slot j)) f" if "j < Suc ?n" for j
  proof (cases "j = ?n")
    case True
    with sk nm n(3) g' show ?thesis by simp
  next
    case False
    then have "j < ?n" "j < 8" using that n(2) by simp_all
    with False old g' show ?thesis by (simp add: key)
  qed
  have "Suc ?n = (if Suc i \<le> slot then Suc i else Suc i - 1)" using n(1) i(1) by auto
  with c done_j rest show ?thesis by (simp add: compacted_def)
qed

lemma delete_loop_compacts:
  assumes nv: "nvs_reliable nv" and st: "pd_count dir \<le> kMaxUserPresets" "slot < pd_count dir"
      "\<forall>i < pd_count dir. length (pd_names dir ! i) \<le> 23 \<and> (\<exists>cfg. nv_get nv (presetBlobKey i) f = Some (Config cfg))"
    and c: "compacted nv slot dir f i newDir g" "i \<le> pd_count dir"
  shows "\<exists>newDir' g'. delete_loop nv slot dir [i..<pd_count dir] newDir g = (True, newDir', g') \<and>
    compacted nv slot dir f (pd_count dir) newDir' g'"
  using c(2,1)
proof (induction arbitrary: newDir g rule: inc_induct)
  case base
  then show ?case by simp
next
  case (step i)
  have upt: "[i..<pd_count dir] = i # [Suc i..<pd_count dir]" using step.hyps by (simp add: upt_conv_Cons)
  show ?case
  proof (cases "i = slot")
    case True
    then have "compacted nv slot dir f (Suc i) newDir g"
      using compacted_skip [of nv slot dir f newDir g] step.prems by simp
    from step.IH [OF this] True upt show ?thesis by simp
  next
    case False
    obtain cfg where cfg: "nv_get nv (presetBlobKey i) f = Some (Config cfg)" using st(3) step.hyps by auto
    have read: "nv_get nv (presetBlobKey i) g = Some (Config cfg)" using step.prems step.hyps cfg by (simp add: compacted_def)
    have n: "pd_count newDir < kMaxUserPresets" using step.prems step.hyps st(1) by (auto simp: compacted_def)
    obtain g' where w: "nv_set nv (presetBlobKey (pd_count newDir)) (Config cfg) g = (True, g')"
      using reliable_set [OF nv] by blast
    let ?nd = "newDir\<lparr>pd_names := (pd_names newDir)[pd_count newDir := take 23 (pd_names dir ! i)], pd_count := pd_count newDir + 1\<rparr>"
    have "compacted nv slot dir f (Suc i) ?nd g'"
      using compacted_copy [OF step.prems False _ st(1)] step.hyps st(3) nvs_setD [OF _ w] nv cfg
      by (simp add: nvs_reliable_def)
    then show ?thesis using step.IH [of ?nd g'] upt False read n w by (simp add: Let_def)
  qed
qed

lemma compacted_start:
  "pd_count dir \<le> kMaxUserPresets \<Longrightarrow> compacted nv slot dir f 0 fresh_directory f"
  by (simp add: compacted_def fresh_directory_def)

lemma distinct_drop_one:
  assumes "distinct xs" "i < length xs"
  shows "distinct (take i xs @ drop (Suc i) xs)"
proof -
  have "distinct (take i xs @ xs ! i # drop (Suc i) xs)" using assms id_take_nth_drop [of i xs] by simp
  then show ?thesis by auto
qed

lemma compacted_entries:
  assumes ok: "nvs_ok nv" and st: "store_ok nv f" and slot: "slot < pd_count (loadPresetDirectory nv f)"
    and c: "compacted nv slot (loadPresetDirectory nv f) f (pd_count (loadPresetDirectory nv f)) nd g"
    and h: "nv_get nv ''preset_dir'' h = Some (Directory nd)"
      "\<forall>j < pd_count nd. nv_get nv (presetBlobKey j) h = nv_get nv (presetBlobKey j) g"
  shows "store_ok nv h \<and> preset_map nv h = (preset_map nv f)(fst (entries nv f ! slot) := None)"
proof -
  let ?d = "loadPresetDirectory nv f" and ?es = "entries nv f"
  have cnt: "pd_count ?d \<le> kMaxUserPresets" using st by (simp add: store_ok_def Let_def)
  have n: "pd_count nd = pd_count ?d - 1" "length (pd_names nd) = kMaxUserPresets" "pd_magic nd = kConfigMagic"
    "pd_version nd = kPresetDirectoryVersion" using c slot by (auto simp: compacted_def)
  have d': "loadPresetDirectory nv h = nd" using n cnt h(1) by (intro written_directory [OF ok]) simp_all
  have blob: "nv_get nv (presetBlobKey j) h = nv_get nv (presetBlobKey (skip_slot slot j)) f" if "j < pd_count nd" for j
    using c h(2) that by (simp add: compacted_def)
  have sk: "skip_slot slot j < pd_count ?d" if "j < pd_count nd" for j
    using that n(1) slot by (auto simp: skip_slot_def)
  have es: "entries nv h = take slot ?es @ drop (Suc slot) ?es"
  proof (rule nth_equalityI)
    show "length (entries nv h) = length (take slot ?es @ drop (Suc slot) ?es)"
      using n(1) slot by (simp add: entries_length d')
    fix j assume "j < length (entries nv h)"
    then have j: "j < pd_count nd" by (simp add: entries_length d')
    have "entries nv h ! j = ?es ! skip_slot slot j"
      using j blob [OF j] sk [OF j] c by (simp add: entries_nth d' compacted_def)
    also have "\<dots> = (take slot ?es @ drop (Suc slot) ?es) ! j"
      using j slot n(1) by (auto simp: nth_append skip_slot_def entries_length)
    finally show "entries nv h ! j = (take slot ?es @ drop (Suc slot) ?es) ! j" .
  qed
  have dist: "distinct (map fst ?es)" and len: "slot < length ?es"
    using st slot by (simp_all add: store_ok_def entries_length Let_def)
  have "distinct (map fst (entries nv h))"
    using distinct_drop_one [OF dist, of slot] len by (simp add: es take_map drop_map)
  moreover have "valid_name (pd_names nd ! j) \<and> (\<exists>cfg. nv_get nv (presetBlobKey j) h = Some (Config cfg))" if "j < pd_count nd" for j
    using blob [OF that] sk [OF that] c st that by (simp add: compacted_def store_ok_def Let_def)
  ultimately have "store_ok nv h" using n cnt by (simp add: store_ok_def d' Let_def)
  with map_of_drop_one [OF dist len] show ?thesis by (simp add: preset_map_def es)
qed

lemma delete_effect:
  assumes nv: "nvs_reliable nv" and st: "store_ok nv f" and r: "deleteUserPreset nv rawName f = (e, f')"
  shows "store_ok nv f' \<and>
    (if preset_map nv f (canonical rawName) = None then e = Some Unknown_Preset \<and> f' = f
     else e = None \<and> preset_map nv f' = (preset_map nv f)(canonical rawName := None))"
proof (cases "findPresetSlotByName (loadPresetDirectory nv f) (sanitizePresetName rawName)")
  case None
  then show ?thesis using r st slot_none [OF st None] by (simp add: deleteUserPreset_def canonical_def Let_def)
next
  case (Some slot)
  let ?d = "loadPresetDirectory nv f"
  note s = slot_some [OF st Some]
  have ok: "nvs_ok nv" using nv by (simp add: nvs_reliable_def)
  have cnt: "pd_count ?d \<le> kMaxUserPresets" using st by (simp add: store_ok_def Let_def)
  have blobs: "\<forall>i < pd_count ?d. length (pd_names ?d ! i) \<le> 23 \<and> (\<exists>cfg. nv_get nv (presetBlobKey i) f = Some (Config cfg))"
    using st by (auto simp: store_ok_def valid_name_def Let_def)
  obtain nd g where l: "delete_loop nv slot ?d [0..<pd_count ?d] fresh_directory f = (True, nd, g)"
    and c: "compacted nv slot ?d f (pd_count ?d) nd g"
    using delete_loop_compacts [OF nv cnt s(1) blobs compacted_start [OF cnt]] by auto
  have n: "pd_count nd = pd_count ?d - 1" using c s(1) by (auto simp: compacted_def)
  define g2 where "g2 = fold (\<lambda>i. nv_erase nv (presetBlobKey i)) [pd_count nd..<pd_count ?d] g"
  have upt: "[pd_count nd..<pd_count ?d] = [pd_count nd]" using n s(1) by (simp add: upt_conv_Cons)
  obtain g3 where w: "nv_set nv ''preset_dir'' (Directory nd) g2 = (True, g3)" using reliable_set [OF nv] by blast
  obtain g4 where cm: "nv_commit nv g3 = (True, g4)" using reliable_commit [OF nv] by blast
  have f': "e = None" "f' = g4" using r Some l w cm nv by (auto simp: deleteUserPreset_def g2_def nvs_reliable_def Let_def)
  have get: "nv_get nv k g4 = (if k = ''preset_dir'' then Some (Directory nd) else nv_get nv k g2)" for k
    using nvs_setD [OF ok w] nvs_commitD [OF ok cm] by simp
  have "nv_get nv (presetBlobKey j) g4 = nv_get nv (presetBlobKey j) g" if "j < pd_count nd" for j
  proof -
    have "j < 8" "pd_count nd < 8" "j \<noteq> pd_count nd" using that n cnt s(1) by (auto simp: kMaxUserPresets_def)
    then show ?thesis using ok by (simp add: get g2_def upt nvs_eraseD)
  qed
  then show ?thesis using compacted_entries [OF ok st s(1) c, of g4] s(3,4) f' get by (simp add: canonical_def)
qed

section \<open>The store refines a map\<close>

datatype preset_op = Save string persisted_config | Load string | Delete string
datatype preset_reply = Done "preset_error option" | Loaded "preset_error + persisted_config"

fun preset_step :: "'f nvs \<Rightarrow> preset_op \<Rightarrow> 'f \<Rightarrow> preset_reply \<times> 'f" where
  "preset_step nv (Save n cfg) f = (case saveUserPresetBlob nv n (Some cfg) f of (e, f1) \<Rightarrow> (Done e, f1))"
| "preset_step nv (Load n) f = (Loaded (loadUserPreset nv n f), f)"
| "preset_step nv (Delete n) f = (case deleteUserPreset nv n f of (e, f1) \<Rightarrow> (Done e, f1))"

fun preset_run :: "'f nvs \<Rightarrow> preset_op list \<Rightarrow> 'f \<Rightarrow> preset_reply list \<times> 'f" where
  "preset_run nv [] f = ([], f)"
| "preset_run nv (op # ops) f =
     (let (r, f1) = preset_step nv op f; (rs, f2) = preset_run nv ops f1 in (r # rs, f2))"

text \<open>The specification: a map of at most eight presets, keyed by the canonical name.\<close>

type_synonym preset_spec = "string \<Rightarrow> persisted_config option"

fun map_step :: "preset_op \<Rightarrow> preset_spec \<Rightarrow> preset_reply \<times> preset_spec" where
  "map_step (Save n cfg) m =
     (if m (canonical n) \<noteq> None \<or> card (dom m) < 8 then (Done None, m(canonical n \<mapsto> cfg)) else (Done (Some Preset_Limit), m))"
| "map_step (Load n) m =
     (Loaded (case m (canonical n) of None \<Rightarrow> Inl Unknown_Preset
        | Some cfg \<Rightarrow> if cf_magic cfg \<noteq> kConfigMagic then Inl Corrupted_Magic
            else if cf_version cfg \<noteq> kConfigVersion then Inl Preset_Obsolete else Inr cfg), m)"
| "map_step (Delete n) m =
     (if m (canonical n) = None then (Done (Some Unknown_Preset), m) else (Done None, m(canonical n := None)))"

fun map_run :: "preset_op list \<Rightarrow> preset_spec \<Rightarrow> preset_reply list \<times> preset_spec" where
  "map_run [] m = ([], m)"
| "map_run (op # ops) m = (let (r, m1) = map_step op m; (rs, m2) = map_run ops m1 in (r # rs, m2))"

lemma preset_card:
  assumes "store_ok nv f"
  shows "card (dom (preset_map nv f)) = pd_count (loadPresetDirectory nv f)"
proof -
  have d: "distinct (map fst (entries nv f))" using assms by (simp add: store_ok_def Let_def)
  have "card (dom (preset_map nv f)) = card (set (map fst (entries nv f)))"
    by (simp add: preset_map_def dom_map_of_conv_image_fst)
  also have "\<dots> = length (map fst (entries nv f))" using d by (rule distinct_card)
  finally show ?thesis by (simp add: entries_length)
qed

lemma reliable_store:
  assumes "nvs_reliable nv"
  shows "\<exists>f'. store_and_commit nv k v d f = (True, f')"
proof -
  obtain f1 where 1: "nv_set nv k v f = (True, f1)" using reliable_set [OF assms] by blast
  obtain f2 where 2: "nv_set nv ''preset_dir'' (Directory d) f1 = (True, f2)" using reliable_set [OF assms] by blast
  obtain f3 where "nv_commit nv f2 = (True, f3)" using reliable_commit [OF assms] by blast
  with 1 2 show ?thesis by (simp add: store_and_commit_def)
qed

lemma save_succeeds:
  assumes nv: "nvs_reliable nv" and st: "store_ok nv f" and r: "saveUserPresetBlob nv n (Some cfg) f = (e, f')"
  shows "e = (if preset_map nv f (canonical n) \<noteq> None \<or> card (dom (preset_map nv f)) < 8 then None else Some Preset_Limit) \<and>
    (e \<noteq> None \<longrightarrow> f' = f)"
proof -
  let ?d = "loadPresetDirectory nv f" and ?n = "sanitizePresetName n"
  have op: "nv_open nv True f" using nv by (simp add: nvs_reliable_def)
  show ?thesis
  proof (cases "findPresetSlotByName ?d ?n")
    case None
    let ?dir = "?d\<lparr>pd_count := pd_count ?d + 1, pd_names := (pd_names ?d)[pd_count ?d := take 23 ?n]\<rparr>"
    obtain t where "store_and_commit nv (presetBlobKey (pd_count ?d)) (Config cfg) ?dir f = (True, t)"
      using reliable_store [OF nv] by blast
    then show ?thesis using r op None slot_none [OF st None]
      by (auto simp: saveUserPresetBlob_def preset_card [OF st] canonical_def kMaxUserPresets_def Let_def split: if_splits)
  next
    case (Some i)
    obtain t where "store_and_commit nv (presetBlobKey i) (Config cfg) ?d f = (True, t)"
      using reliable_store [OF nv] by blast
    then show ?thesis using r op Some slot_some(4) [OF st Some]
      by (auto simp: saveUserPresetBlob_def canonical_def Let_def)
  qed
qed

lemma load_effect:
  assumes ok: "nvs_ok nv" and st: "store_ok nv f"
  shows "Loaded (loadUserPreset nv n f) = fst (map_step (Load n) (preset_map nv f))"
proof (cases "findPresetSlotByName (loadPresetDirectory nv f) (sanitizePresetName n)")
  case None
  with slot_none [OF st None] show ?thesis by (simp add: loadUserPreset_def canonical_def Let_def)
next
  case (Some i)
  note s = slot_some [OF st Some]
  have "nv_open nv False f" using nvs_open_read [OF ok s(5)] .
  with Some s show ?thesis by (simp add: loadUserPreset_def canonical_def Let_def)
qed

lemma preset_step_refines:
  assumes nv: "nvs_reliable nv" and st: "store_ok nv f" and r: "preset_step nv op f = (r, f1)"
  shows "map_step op (preset_map nv f) = (r, preset_map nv f1) \<and> store_ok nv f1"
proof -
  have ok: "nvs_ok nv" using nv by (simp add: nvs_reliable_def)
  show ?thesis
  proof (cases op)
    case (Save n cfg)
    obtain e where e: "saveUserPresetBlob nv n (Some cfg) f = (e, f1)" "r = Done e"
      using r Save by (auto split: prod.splits)
    show ?thesis using save_succeeds [OF nv st e(1)] save_effect [OF ok st e(1)] Save e(2) by auto
  next
    case (Load n)
    then show ?thesis using r st load_effect [OF ok st, of n] by auto
  next
    case (Delete n)
    obtain e where e: "deleteUserPreset nv n f = (e, f1)" "r = Done e" using r Delete by (auto split: prod.splits)
    show ?thesis using delete_effect [OF nv st e(1)] Delete e(2) by (auto split: if_splits)
  qed
qed

lemma preset_run_refines:
  assumes "nvs_reliable nv" "store_ok nv f"
  shows "preset_run nv ops f = (rs, f') \<Longrightarrow> map_run ops (preset_map nv f) = (rs, preset_map nv f') \<and> store_ok nv f'"
  using assms(2)
proof (induction ops arbitrary: f rs)
  case Nil
  then show ?case by simp
next
  case (Cons op ops)
  obtain r f1 where r: "preset_step nv op f = (r, f1)" by fastforce
  obtain rs1 where rs1: "preset_run nv ops f1 = (rs1, f')" "rs = r # rs1"
    using Cons.prems(1) r by (auto simp: Let_def split: prod.splits)
  have step: "map_step op (preset_map nv f) = (r, preset_map nv f1)" "store_ok nv f1"
    using preset_step_refines [OF assms(1) Cons.prems(2) r] by simp_all
  from Cons.IH [OF rs1(1) step(2)] show ?case using step(1) rs1(2) by (simp del: map_step.simps)
qed

lemma empty_store:
  assumes "nvs_ok nv" "nv_get nv ''preset_dir'' f = None"
  shows "store_ok nv f" "preset_map nv f = Map.empty"
proof -
  have "loadPresetDirectory nv f = fresh_directory" using assms by (simp add: load_directory directory_of_def)
  then show "store_ok nv f" "preset_map nv f = Map.empty"
    by (simp_all add: store_ok_def preset_map_def entries_def fresh_directory_def)
qed

text \<open>
  C8: The presets refine a map. On flash that does not fail, from a flash without presets, any
  sequence of saves, loads and deletions (whose loop moves the blobs of the presets behind) gets the
  replies of a map of at most eight configurations keyed by the canonical name.
\<close>

theorem presets_refine_map:
  assumes "nvs_reliable nv" "nv_get nv ''preset_dir'' f = None"
  shows "fst (preset_run nv ops f) = fst (map_run ops Map.empty)"
proof -
  have "store_ok nv f" "preset_map nv f = Map.empty" using empty_store [of nv f] assms by (simp_all add: nvs_reliable_def)
  with preset_run_refines [OF assms(1), of f ops "fst (preset_run nv ops f)" "snd (preset_run nv ops f)"]
  show ?thesis by simp
qed

text \<open>
  C9: A save is atomic for the other presets. Whatever operation of the flash fails, every other
  preset is unchanged, the named one is the old or the new one, and it is the new one when the save
  reports success; the store stays consistent.
\<close>

theorem save_is_atomic:
  assumes "nvs_ok nv" "store_ok nv f" "saveUserPresetBlob nv rawName (Some cfg) f = (e, f')"
  shows "store_ok nv f' \<and> (\<forall>k. k = canonical rawName \<or> preset_map nv f' k = preset_map nv f k) \<and>
    preset_map nv f' (canonical rawName) \<in> {preset_map nv f (canonical rawName), Some cfg} \<and>
    (e = None \<longrightarrow> preset_map nv f' (canonical rawName) = Some cfg)"
  using save_effect [OF assms] by (auto split: if_splits)

section \<open>A concrete flash\<close>

definition list_set :: "string \<Rightarrow> stored \<Rightarrow> (string \<times> stored) list \<Rightarrow> (string \<times> stored) list" where
  "list_set k v f = (k, v) # filter (\<lambda>e. fst e \<noteq> k) f"

definition list_nvs :: "(string \<times> stored) list nvs" where
  "list_nvs = \<lparr>nv_open = (\<lambda>rw f. rw \<or> f \<noteq> []), nv_get = (\<lambda>k f. map_of f k), nv_set = (\<lambda>k v f. (True, list_set k v f)),
     nv_erase = (\<lambda>k f. filter (\<lambda>e. fst e \<noteq> k) f), nv_commit = (\<lambda>f. (True, f))\<rparr>"

text \<open>The same with room for a number of writes.\<close>

definition small_nvs :: "(nat \<times> (string \<times> stored) list) nvs" where
  "small_nvs = \<lparr>nv_open = (\<lambda>rw f. rw \<or> snd f \<noteq> []), nv_get = (\<lambda>k f. map_of (snd f) k),
     nv_set = (\<lambda>k v f. if fst f = 0 then (False, f) else (True, (fst f - 1, list_set k v (snd f)))),
     nv_erase = (\<lambda>k f. (fst f, filter (\<lambda>e. fst e \<noteq> k) (snd f))), nv_commit = (\<lambda>f. (True, f))\<rparr>"

lemma map_of_filter_key: "map_of (filter (\<lambda>e. fst e \<noteq> k) f) k' = (if k' = k then None else map_of f k')"
  by (induction f) auto

lemma list_nvs_reliable: "nvs_reliable list_nvs"
  by (auto simp: nvs_reliable_def nvs_ok_def list_nvs_def list_set_def map_of_filter_key)

lemma small_nvs_ok: "nvs_ok small_nvs"
  by (auto simp: nvs_ok_def small_nvs_def list_set_def map_of_filter_key split: if_splits)

definition demo_preset :: "u8 \<Rightarrow> persisted_config" where
  "demo_preset pin = cf_with [] [demo_servo pin]"

lemma demo_canonical: "canonical '' My Car'' = ''my_car''" "canonical ''my_car'' = ''my_car''"
  by code_simp+

lemma demo_format: "cf_magic (demo_preset p) = kConfigMagic" "cf_version (demo_preset p) = kConfigVersion"
  by (simp_all add: demo_preset_def cf_with_def)

theorem presets_refine_map_witness:
  "fst (preset_run list_nvs [Save '' My Car'' (demo_preset 13), Load ''my_car'', Delete ''my_car'', Load '' My Car''] []) =
     [Done None, Loaded (Inr (demo_preset 13)), Done None, Loaded (Inl Unknown_Preset)]"
  using presets_refine_map [OF list_nvs_reliable, of "[]"
      "[Save '' My Car'' (demo_preset 13), Load ''my_car'', Delete ''my_car'', Load '' My Car'']"]
  by (simp add: demo_canonical demo_format list_nvs_def)

theorem save_is_atomic_witness:
  "preset_map small_nvs (snd (saveUserPresetBlob small_nvs ''my_car'' (Some (demo_preset 13)) (1, []))) ''other'' = None"
proof -
  have "store_ok small_nvs (1, [])" "preset_map small_nvs (1, []) = Map.empty"
    using empty_store [OF small_nvs_ok, of "(1, [])"] by (simp_all add: small_nvs_def)
  note store = this
  let ?r = "saveUserPresetBlob small_nvs ''my_car'' (Some (demo_preset 13)) (1, [])"
  have "?r = (fst ?r, snd ?r)" by simp
  from save_is_atomic [OF small_nvs_ok store(1) this]
  have "''other'' = canonical ''my_car'' \<or> preset_map small_nvs (snd ?r) ''other'' = preset_map small_nvs (1, []) ''other''"
    by blast
  then show ?thesis by (simp add: demo_canonical store(2) del: One_nat_def)
qed

text \<open>
  A deletion that fails half-way is not atomic. With room for one write, deleting the first of
  three presets reports a failure, keeps all three names, and leaves the configuration of the second
  under the name of the first.
\<close>

definition current_format :: "persisted_config \<Rightarrow> persisted_config" where
  "current_format cfg = cfg\<lparr>cf_magic := kConfigMagic, cf_version := kConfigVersion\<rparr>"

definition abc_directory :: preset_directory where
  "abc_directory = fresh_directory\<lparr>pd_count := 3, pd_names := [''a'', ''b'', ''c'', [], [], [], [], []]\<rparr>"

definition three_presets :: "persisted_config \<Rightarrow> persisted_config \<Rightarrow> persisted_config \<Rightarrow> (string \<times> stored) list" where
  "three_presets A B C = [(''preset_dir'', Directory abc_directory), (''pr0'', Config (current_format A)),
     (''pr1'', Config (current_format B)), (''pr2'', Config (current_format C))]"

lemma abc_names: "sanitizePresetName ''a'' = ''a''" "sanitizePresetName ''b'' = ''b''"
  "findPresetSlotByName abc_directory ''a'' = Some 0" "findPresetSlotByName abc_directory ''b'' = Some 1"
  "presetBlobKey 0 = ''pr0''" "presetBlobKey 1 = ''pr1''" "presetBlobKey (Suc 0) = ''pr1''" "presetBlobKey 2 = ''pr2''"
  by code_simp+

lemma abc_loads: "map_of f ''preset_dir'' = Some (Directory abc_directory) \<Longrightarrow>
    loadPresetDirectory small_nvs (n, f) = abc_directory"
  by (intro written_directory [OF small_nvs_ok])
    (simp_all add: small_nvs_def abc_directory_def fresh_directory_def kMaxUserPresets_def)

theorem failed_delete_mixes_presets:
  "loadUserPreset small_nvs ''a'' (1, three_presets A B C) = Inr (current_format A) \<and>
   (case deleteUserPreset small_nvs ''a'' (1, three_presets A B C) of (e, f') \<Rightarrow>
      e = Some Delete_Failed \<and> loadUserPreset small_nvs ''a'' f' = Inr (current_format B) \<and>
      loadUserPreset small_nvs ''b'' f' = Inr (current_format B))"
proof -
  let ?f = "list_set ''pr0'' (Config (current_format B)) (three_presets A B C)"
  have d: "loadPresetDirectory small_nvs (n, three_presets A B C) = abc_directory"
    "loadPresetDirectory small_nvs (n, ?f) = abc_directory" for n
    by (rule abc_loads; simp add: three_presets_def list_set_def)+
  have upt: "[0..<pd_count abc_directory] = [0, 1, 2]" by (simp add: abc_directory_def upt_rec)
  have ops: "nv_open small_nvs True g" "nv_get small_nvs ''pr1'' (1, three_presets A B C) = Some (Config (current_format B))"
    "nv_set small_nvs ''pr0'' (Config (current_format B)) (1, three_presets A B C) = (True, (0, ?f))"
    "nv_get small_nvs ''pr2'' (0, ?f) = Some (Config (current_format C))" "nv_set small_nvs k v (0, h) = (False, (0, h))" for g h k v
    by (simp_all add: small_nvs_def three_presets_def list_set_def)
  have counts: "pd_count fresh_directory = 0" "\<not> kMaxUserPresets \<le> 0" "\<not> kMaxUserPresets \<le> 1"
    by (simp_all add: fresh_directory_def kMaxUserPresets_def)
  have "\<exists>nd. delete_loop small_nvs 0 abc_directory [0, 1, 2] fresh_directory (1, three_presets A B C) = (False, nd, (0, ?f))"
    using counts by (simp add: abc_names ops Let_def del: One_nat_def)
  then have del: "deleteUserPreset small_nvs ''a'' (1, three_presets A B C) = (Some Delete_Failed, (0, ?f))"
    unfolding deleteUserPreset_def Let_def abc_names d upt using ops(1) by auto
  have gets: "nv_open small_nvs False (n, three_presets A B C)" "nv_open small_nvs False (n, ?f)"
    "nv_get small_nvs ''pr0'' (n, three_presets A B C) = Some (Config (current_format A))"
    "nv_get small_nvs ''pr0'' (n, ?f) = Some (Config (current_format B))"
    "nv_get small_nvs ''pr1'' (n, ?f) = Some (Config (current_format B))" for n
    by (simp_all add: small_nvs_def three_presets_def list_set_def)
  have fmt: "cf_magic (current_format X) = kConfigMagic" "cf_version (current_format X) = kConfigVersion" for X
    by (simp_all add: current_format_def)
  show ?thesis unfolding del prod.case unfolding loadUserPreset_def Let_def abc_names d
    by (simp add: abc_names gets fmt)
qed

section \<open>Names, free names and built-in presets\<close>

text \<open>
  The type of preset names. Sanitising always gives a valid name (not empty, at most 23 letters,
  digits, dashes and underscores, so it fits its slot with the terminating zero), and leaves exactly
  the valid names as they are.
\<close>

theorem sanitize_type:
  "valid_name (sanitizePresetName s) \<and> (valid_name s \<longleftrightarrow> sanitizePresetName s = s) \<and>
   sanitizePresetName (sanitizePresetName s) = sanitizePresetName s"
  using sanitize_valid [of s] sanitize_id by metis

lemma exists_iff:
  assumes "store_ok nv f"
  shows "presetNameExists nv n f \<longleftrightarrow> canonical n \<in> dom (preset_map nv f)"
proof -
  have "canonical n \<in> dom (preset_map nv f) \<longleftrightarrow>
      (\<exists>i < pd_count (loadPresetDirectory nv f). canonical n = name_key (pd_names (loadPresetDirectory nv f) ! i))"
    by (auto simp: preset_map_def dom_map_of_conv_image_fst entries_def Let_def image_image)
  then show ?thesis using names_taken [OF assms]
    by (auto simp: presetNameExists_def equals_key canonical_def Let_def)
qed

definition numbered :: "string \<Rightarrow> nat \<Rightarrow> string" where
  "numbered base i = base @ ''_'' @ decimal i"

lemma digit_char: "n < 10 \<Longrightarrow> name_char (char_of (48 + n))" "n < 10 \<Longrightarrow> to_lower (char_of (48 + n)) = char_of (48 + (n :: nat))"
  by (simp_all add: name_char_def between_def to_lower_def)

lemma numbered_valid:
  assumes "valid_name base" "length base \<le> 21" "i < 10"
  shows "valid_name (numbered base i)" "canonical (numbered base i) = name_key base @ [CHR ''_'', char_of (48 + i)]"
proof -
  show v: "valid_name (numbered base i)"
    using assms digit_char(1) [OF assms(3)] by (auto simp: valid_name_def numbered_def decimal_digit name_char_def)
  have "to_lower CHR ''_'' = CHR ''_''" by (simp add: to_lower_def between_def)
  then have "name_key (numbered base i) = name_key base @ [CHR ''_'', char_of (48 + i)]"
    using assms(3) digit_char(2) [OF assms(3)] by (simp add: numbered_def name_key_def decimal_digit)
  then show "canonical (numbered base i) = name_key base @ [CHR ''_'', char_of (48 + i)]"
    by (simp only: canonical_def sanitize_id [OF v])
qed

text \<open>Nine different names cannot all be taken.\<close>

lemma free_number:
  assumes st: "store_ok nv f" and b: "valid_name base" "length base \<le> 21" "presetNameExists nv base f"
  shows "\<exists>i. 2 \<le> i \<and> i < 10 \<and> \<not> presetNameExists nv (numbered base i) f"
proof (rule ccontr)
  assume "\<not> ?thesis"
  then have all: "\<forall>i \<in> {2..<10}. canonical (numbered base i) \<in> dom (preset_map nv f)"
    using exists_iff [OF st] by auto
  let ?N = "(\<lambda>i. canonical (numbered base i)) ` {2..<10}"
  have inj: "inj_on (\<lambda>i. canonical (numbered base i)) {2..<10}"
    using numbered_valid(2) [OF b(1,2)] digit_inject by (auto simp: inj_on_def)
  have base: "canonical base = name_key base" using b(1) by (simp add: canonical_def sanitize_id)
  then have "canonical base \<notin> ?N" using numbered_valid(2) [OF b(1,2)] by (auto simp: name_key_def)
  then have nine: "card (insert (canonical base) ?N) = 9" using card_image [OF inj] by simp
  have "insert (canonical base) ?N \<subseteq> dom (preset_map nv f)" using all b(3) exists_iff [OF st] by auto
  moreover have "finite (dom (preset_map nv f))" by (simp add: preset_map_def finite_dom_map_of)
  ultimately have "9 \<le> card (dom (preset_map nv f))" using nine by (metis card_mono)
  moreover have "pd_count (loadPresetDirectory nv f) \<le> 8" using st by (simp add: store_ok_def kMaxUserPresets_def Let_def)
  ultimately show False using preset_card [OF st] by simp
qed

text \<open>
  C32: The suggested name is free, and found soon. For a base of at most 21 characters it is a valid
  name that no preset has in any spelling, and a preset saved under it keeps that name. It is the
  base itself unless that is taken, and else the first candidate \<open>base_i\<close> that is not; because at most
  eight presets exist, \<open>i\<close> is at most 9: the loop ends at its eighth candidate and never falls back on the clock.
\<close>

theorem suggested_name_is_free:
  assumes st: "store_ok nv f" and len: "length (sanitizePresetName baseName) \<le> 21"
  shows "valid_name (nextAvailableCustomModelName nv baseName millis f) \<and>
    canonical (nextAvailableCustomModelName nv baseName millis f) \<notin> dom (preset_map nv f) \<and>
    sanitizePresetName (nextAvailableCustomModelName nv baseName millis f) = nextAvailableCustomModelName nv baseName millis f \<and>
    (if presetNameExists nv (sanitizePresetName baseName) f
     then \<exists>i. 2 \<le> i \<and> i < 10 \<and> nextAvailableCustomModelName nv baseName millis f = numbered (sanitizePresetName baseName) i \<and>
       (\<forall>j. 2 \<le> j \<longrightarrow> j < i \<longrightarrow> presetNameExists nv (numbered (sanitizePresetName baseName) j) f)
     else nextAvailableCustomModelName nv baseName millis f = sanitizePresetName baseName)"
proof -
  let ?b = "sanitizePresetName baseName" and ?n = "nextAvailableCustomModelName nv baseName millis f"
  have "valid_name ?n \<and> \<not> presetNameExists nv ?n f \<and>
    (if presetNameExists nv ?b f
     then \<exists>i. 2 \<le> i \<and> i < 10 \<and> ?n = numbered ?b i \<and> (\<forall>j. 2 \<le> j \<longrightarrow> j < i \<longrightarrow> presetNameExists nv (numbered ?b j) f)
     else ?n = ?b)"
  proof (cases "presetNameExists nv ?b f")
    case False
    then show ?thesis using sanitize_valid by (simp add: nextAvailableCustomModelName_def Let_def)
  next
    case True
    let ?P = "\<lambda>c. \<not> presetNameExists nv c f"
    define N where "N = (100 :: nat)"
    obtain i where i: "2 \<le> i" "i < 10" "?P (numbered ?b i)" using free_number [OF st sanitize_valid len True] by blast
    have "numbered ?b i \<in> set (map (numbered ?b) [2..<N])"
      unfolding set_map set_upt using i(1,2) by (intro imageI) (simp add: N_def)
    then have "find ?P (map (numbered ?b) [2..<N]) \<noteq> None" using i(3) unfolding find_None_iff by blast
    then obtain c where c: "find ?P (map (numbered ?b) [2..<N]) = Some c" by blast
    then obtain k where k: "k < N - 2" "?P c" "c = numbered ?b (2 + k)" "\<forall>j < k. \<not> ?P (numbered ?b (2 + j))"
      by (auto simp: find_Some_iff)
    have taken: "presetNameExists nv (numbered ?b j) f" if "2 \<le> j" "j < 2 + k" for j
    proof -
      from that have "j - 2 < k" "2 + (j - 2) = j" by simp_all
      then show ?thesis using k(4) by metis
    qed
    then have small: "2 + k < 10" using i by (meson le_less_trans not_le)
    then have "valid_name c" using k(3) numbered_valid(1) [OF sanitize_valid len, of "2 + k"] by simp
    moreover have "?n = c" using True c by (simp add: nextAvailableCustomModelName_def numbered_def [abs_def] N_def Let_def del: upt_rec_numeral)
    moreover have "\<exists>i. 2 \<le> i \<and> i < 10 \<and> c = numbered ?b i \<and> (\<forall>j. 2 \<le> j \<longrightarrow> j < i \<longrightarrow> presetNameExists nv (numbered ?b j) f)"
      using k(3) small taken by (intro exI [of _ "2 + k"]) simp
    ultimately show ?thesis using k(2) True by simp
  qed
  then show ?thesis using exists_iff [OF st, of ?n] sanitize_id [of ?n] by blast
qed

theorem suggested_name_is_free_witness:
  "valid_name (nextAvailableCustomModelName list_nvs ''car_custom'' 0 [])"
proof -
  have "store_ok list_nvs []"
    using empty_store(1) [of list_nvs "[]"] list_nvs_reliable by (simp add: nvs_reliable_def list_nvs_def)
  moreover have "length (sanitizePresetName ''car_custom'') \<le> 21" by code_simp
  ultimately show ?thesis by (rule suggested_name_is_free [THEN conjunct1])
qed

definition builtin_pins :: "int set" where
  "builtin_pins = {4, 5, 6, 7, 12, 13, 16}"

lemma fits_by_lists:
  assumes "config_format_ok cfg" "cf_shape cfg"
    "\<forall>p \<in> set (cf_channels cfg). pc_used p \<noteq> 0 \<longrightarrow> sourceValid (pc_source_a p) \<and> sourceValid (pc_source_b p) \<and>
       sourceValid (pc_source_c p) \<and> (pc_type p \<noteq> 1 \<longrightarrow> bd_has_pwm bd (uint (pc_pin p)))"
    "distinct (map pc_pin (filter (\<lambda>p. pc_used p \<noteq> 0) (cf_channels cfg)))"
  shows "fits_board bd cfg"
proof -
  have pins: "pc_pin (xs ! j) \<noteq> pc_pin (xs ! i)"
    if "distinct (map pc_pin (filter (\<lambda>p. pc_used p \<noteq> 0) xs))" "j < i" "i < length xs" "pc_used (xs ! i) \<noteq> 0" "pc_used (xs ! j) \<noteq> 0"
    for xs :: "persisted_channel list" and i j
    using that
  proof (induction xs arbitrary: i j)
    case (Cons x xs)
    show ?case
    proof (cases j)
      case 0
      with Cons.prems obtain k where k: "i = Suc k" "k < length xs" by (cases i) auto
      with Cons.prems have "xs ! k \<in> set (filter (\<lambda>p. pc_used p \<noteq> 0) xs)" by simp
      then have "pc_pin (xs ! k) \<in> set (map pc_pin (filter (\<lambda>p. pc_used p \<noteq> 0) xs))" by simp
      moreover have "pc_pin x \<notin> set (map pc_pin (filter (\<lambda>p. pc_used p \<noteq> 0) xs))" using Cons.prems(1,5) 0 by simp
      ultimately have "pc_pin x \<noteq> pc_pin (xs ! k)" by metis
      with 0 k show ?thesis by simp
    next
      case (Suc m)
      with Cons.prems obtain k where "i = Suc k" by (cases i) auto
      with Cons.IH [of m k] Cons.prems Suc show ?thesis by (auto split: if_splits)
    qed
  qed simp
  show ?thesis using assms pins [OF assms(4)]
    by (simp add: fits_board_def cf_shape_def Let_def)
qed

lemma builtin_fits:
  assumes "\<forall>p \<in> builtin_pins. bd_has_pwm bd p"
    "cfg \<in> {buildBuiltinPresetRcCar, buildBuiltinPresetExcavator, buildBuiltinPresetSkidSteer}"
  shows "fits_board bd cfg"
proof (rule fits_by_lists)
  show "config_format_ok cfg" using assms(2)
    by (auto simp: config_format_ok_def buildBuiltinPresetRcCar_def buildBuiltinPresetExcavator_def
        buildBuiltinPresetSkidSteer_def cf_with_def)
  show "cf_shape cfg" using assms(2)
    by (auto simp: cf_shape_def buildBuiltinPresetRcCar_def buildBuiltinPresetExcavator_def kMaxOutputChannels_def
        buildBuiltinPresetSkidSteer_def cf_with_def fill_def kMaxVirtualInputs_def)
  show "distinct (map pc_pin (filter (\<lambda>p. pc_used p \<noteq> 0) (cf_channels cfg)))" using assms(2)
    by (auto simp: buildBuiltinPresetRcCar_def buildBuiltinPresetExcavator_def omap_entry_def kMaxOutputChannels_def
        buildBuiltinPresetSkidSteer_def cf_with_def fill_def pc_zero_def)
  show "\<forall>p \<in> set (cf_channels cfg). pc_used p \<noteq> 0 \<longrightarrow> sourceValid (pc_source_a p) \<and> sourceValid (pc_source_b p) \<and>
     sourceValid (pc_source_c p) \<and> (pc_type p \<noteq> 1 \<longrightarrow> bd_has_pwm bd (uint (pc_pin p)))"
    using assms
    by (auto simp: buildBuiltinPresetRcCar_def buildBuiltinPresetExcavator_def omap_entry_def kMaxVirtualInputs_def
        buildBuiltinPresetSkidSteer_def cf_with_def fill_def pc_zero_def sourceValid_def builtin_pins_def)
qed

text \<open>
  The built-in presets are valid. On every board whose pins 4, 5, 6, 7, 12, 13 and 16 carry PWM
  and whose servos attach, each of them is applied without an error, from any state, on exactly the
  pins it names.
\<close>

theorem builtin_presets_apply:
  assumes "attaches_always bd" "\<forall>p \<in> builtin_pins. bd_has_pwm bd p" "rc_shape s"
    "cfg \<in> {buildBuiltinPresetRcCar, buildBuiltinPresetExcavator, buildBuiltinPresetSkidSteer}"
  shows "\<exists>s'. applyPersistedConfig bd cfg s = (None, s') \<and> rc_inputs s' = map load_input (cf_inputs cfg) \<and>
    rc_outputs s' = map loaded_channel (cf_channels cfg)"
  using apply_fits [OF builtin_fits] assms by blast

theorem builtin_presets_apply_witness:
  "\<exists>s'. applyPersistedConfig \<lparr>bd_has_pwm = (\<lambda>_. True), bd_attaches = (\<lambda>_ _ _. True)\<rparr> buildBuiltinPresetRcCar rc_boot = (None, s')"
  using builtin_presets_apply [of "\<lparr>bd_has_pwm = (\<lambda>_. True), bd_attaches = (\<lambda>_ _ _. True)\<rparr>" rc_boot buildBuiltinPresetRcCar]
    rc_boot_ok(1) by (auto simp: attaches_always_def)

end
