(* ===== verification/Sketch.thy ===== *)
theory Sketch
  imports Preset_Store
begin

text \<open>
  \<^verbatim>\<open>main/sketch.cpp\<close>: the state of the firmware beside the outputs, the requests of the web interface
  that change it, the access point settings, the scheduler of the Bluetooth scan, the two controller
  callbacks, \<open>setup\<close> and \<open>loop\<close>.

  A request is the map of its arguments. The handler's answer is the pair \<open>sendJson\<close> gets. The web
  server, WiFi and the pages are not modelled. A controller pointer is its index among the objects of
  the Bluetooth library; a function that looks at the object gets it as an argument.
\<close>

section \<open>State\<close>

record 'f sketch =
  sk_control :: control
  sk_gamepad :: "nat option"
  sk_pairing :: bool
  sk_pairing_until :: u32
  sk_scan :: bool
  sk_toggle_at :: u32
  sk_current :: string
  sk_boot :: string
  sk_ssid :: string
  sk_password :: string
  sk_dirty :: bool
  sk_flash :: 'f

definition kSignalTimeoutMs :: u32 where "kSignalTimeoutMs = 450"
definition kPairingWindowMs :: u32 where "kPairingWindowMs = 120000"
definition kBtAutoScanOnMs :: u32 where "kBtAutoScanOnMs = 1500"
definition kBtAutoScanOffMs :: u32 where "kBtAutoScanOffMs = 12000"
definition kBtPairingScanOnMs :: u32 where "kBtPairingScanOnMs = 3500"
definition kBtPairingScanOffMs :: u32 where "kBtPairingScanOffMs = 900"
definition kDefaultApSsid :: string where "kDefaultApSsid = ''RC-Controller''"
definition kDefaultApPassword :: string where "kDefaultApPassword = ''rccontrol''"

definition sk_rc :: "'f sketch \<Rightarrow> rc_state" where
  "sk_rc sk = ct_rc (sk_control sk)"

definition set_rc :: "rc_state \<Rightarrow> 'f sketch \<Rightarrow> 'f sketch" where
  "set_rc s sk = sk\<lparr>sk_control := (sk_control sk)\<lparr>ct_rc := s\<rparr>\<rparr>"

definition sketch_boot :: "'f \<Rightarrow> 'f sketch" where
  "sketch_boot f = \<lparr>sk_control = \<lparr>ct_last = Some 0, ct_timed_out = Some False, ct_rc = rc_boot\<rparr>,
     sk_gamepad = None, sk_pairing = False, sk_pairing_until = 0, sk_scan = False, sk_toggle_at = 0,
     sk_current = kPresetRcCar, sk_boot = kPresetRcCar, sk_ssid = kDefaultApSsid, sk_password = kDefaultApPassword,
     sk_dirty = False, sk_flash = f\<rparr>"

section \<open>Scan scheduler\<close>

text \<open>The result lists the calls of \<open>enableNewBluetoothConnections\<close>.\<close>

definition setBtScanActive :: "bool \<Rightarrow> 'f sketch \<Rightarrow> bool list \<times> 'f sketch" where
  "setBtScanActive enabled sk = (if sk_scan sk = enabled then ([], sk) else ([enabled], sk\<lparr>sk_scan := enabled\<rparr>))"

definition expire_pairing :: "u32 \<Rightarrow> 'f sketch \<Rightarrow> 'f sketch" where
  "expire_pairing now sk = (if sk_pairing sk \<and> now > sk_pairing_until sk
     then sk\<lparr>sk_pairing := False, sk_toggle_at := 0\<rparr> else sk)"

definition updateBtScanScheduler :: "u32 \<Rightarrow> bool \<Rightarrow> 'f sketch \<Rightarrow> bool list \<times> 'f sketch" where
  "updateBtScanScheduler now linked sk =
     (let sk1 = expire_pairing now sk
      in if linked
         then let (calls, sk2) = setBtScanActive False sk1 in (calls, sk2\<lparr>sk_toggle_at := now + 2000\<rparr>)
         else if sk_toggle_at sk1 \<noteq> 0 \<and> now < sk_toggle_at sk1 then ([], sk1)
         else
           let on_ms = (if sk_pairing sk1 then kBtPairingScanOnMs else kBtAutoScanOnMs);
               off_ms = (if sk_pairing sk1 then kBtPairingScanOffMs else kBtAutoScanOffMs)
           in if sk_scan sk1
              then let (calls, sk2) = setBtScanActive False sk1 in (calls, sk2\<lparr>sk_toggle_at := now + off_ms\<rparr>)
              else let (calls, sk2) = setBtScanActive True sk1 in (calls, sk2\<lparr>sk_toggle_at := now + on_ms\<rparr>))"

section \<open>Arguments of a request\<close>

type_synonym request = "string \<Rightarrow> string option"

definition digit_value :: "char \<Rightarrow> int" where
  "digit_value c = int (of_char c) - 48"

definition is_digit :: "char \<Rightarrow> bool" where
  "is_digit c \<longleftrightarrow> between CHR ''0'' CHR ''9'' c"

text \<open>\<open>atol\<close>: blanks, a sign, digits; a value out of range is clamped to 32 bits.\<close>

fun digits_value :: "int \<Rightarrow> string \<Rightarrow> int" where
  "digits_value acc [] = acc"
| "digits_value acc (c # cs) = (if is_digit c then digits_value (10 * acc + digit_value c) cs else acc)"

definition toInt :: "string \<Rightarrow> int" where
  "toInt s = (let t = dropWhile is_space s;
      v = (case t of [] \<Rightarrow> 0
        | c # cs \<Rightarrow> if c = CHR ''-'' then - digits_value 0 cs else if c = CHR ''+'' then digits_value 0 cs else digits_value 0 t)
    in constrain v (- (2 ^ 31)) (2 ^ 31 - 1))"

definition parseIntArg :: "request \<Rightarrow> string \<Rightarrow> int \<Rightarrow> int" where
  "parseIntArg req name fallback =
     (case req name of None \<Rightarrow> fallback
      | Some a \<Rightarrow> let v = trim a in if v = [] then fallback else toInt v)"

definition parseBoolArg :: "request \<Rightarrow> string \<Rightarrow> bool \<Rightarrow> bool" where
  "parseBoolArg req name fallback =
     (case req name of None \<Rightarrow> fallback | Some v \<Rightarrow> v = ''1'' \<or> v = ''true'' \<or> v = ''on'')"

definition signed_decimal :: "int \<Rightarrow> string" where
  "signed_decimal i = (if i < 0 then CHR ''-'' # decimal (nat (- i)) else decimal (nat i))"

definition parse_name :: "request \<Rightarrow> string \<Rightarrow> int \<Rightarrow> string" where
  "parse_name req kind existingIndex =
     (let n = trim (case req ''name'' of Some a \<Rightarrow> a | None \<Rightarrow> kind);
          n1 = (if n = [] then if existingIndex \<ge> 0 then kind @ '' '' @ signed_decimal existingIndex else kind else n)
      in take 23 n1)"

definition input_of_arg :: "int \<Rightarrow> input_id" where
  "input_of_arg k = input_of_code (u8_of k)"

definition parseVirtualFromRequest :: "request \<Rightarrow> int \<Rightarrow> virtual_input \<Rightarrow> virtual_input" where
  "parseVirtualFromRequest req existingIndex v =
     (let fallbackPrimary = (if vi_primary v \<noteq> In_None then uint (input_code (vi_primary v)) else 1);
          type = parseIntArg req ''input_type'' (uint (type_bits (vi_type v)));
          fn = parseIntArg req ''modifier_function'' (uint (function_code (vi_function v)))
      in \<lparr>vi_used = vi_used v, vi_primary = input_of_arg (parseIntArg req ''input'' fallbackPrimary),
          vi_secondary = input_of_arg (parseIntArg req ''input_secondary'' (uint (input_code (vi_secondary v)))),
          vi_type = (if type = 1 then Toggle2Pos else if type = 2 then Toggle3Pos else Direct),
          vi_range = (if parseIntArg req ''range_mode'' (if vi_range v = Bipolar then 1 else 0) = 1 then Bipolar else Unipolar),
          vi_rumble = parseBoolArg req ''rumble'' (vi_rumble v),
          vi_modifier = input_of_arg (parseIntArg req ''input_modifier'' (uint (input_code (vi_modifier v)))),
          vi_function = (if fn = 1 then Fn_Reverse else if fn = 2 then Fn_Center else if fn = 3 then Fn_Activate
            else if fn = 4 then Fn_Desactivate else Fn_None),
          vi_deadzone = constrain (parseIntArg req ''deadzone'' (vi_deadzone v)) 0 95,
          vi_expo = constrain (parseIntArg req ''expo'' (vi_expo v)) 0 100,
          vi_name = parse_name req ''Input'' existingIndex\<rparr>)"

definition parse_source :: "request \<Rightarrow> string \<Rightarrow> int \<Rightarrow> int" where
  "parse_source req name fallback = to_i8 (constrain (parseIntArg req name fallback) (- 1) (int kMaxVirtualInputs - 1))"

definition parse_percent :: "request \<Rightarrow> string \<Rightarrow> int \<Rightarrow> int" where
  "parse_percent req name fallback = to_i8 (constrain (parseIntArg req name fallback) (- 100) 100)"

definition parseOutputFromRequest :: "request \<Rightarrow> int \<Rightarrow> output_channel \<Rightarrow> output_channel" where
  "parseOutputFromRequest req existingIndex c =
     (let type = parseIntArg req ''type'' (if oc_type c = Channel_Switch then 1 else 0);
          failsafe = constrain (parseIntArg req ''pwm_failsafe'' (uint (failsafe_code (oc_failsafe c)))) 0 2
      in \<lparr>oc_used = oc_used c, oc_type = (if type = 1 then Channel_Switch else Channel_Pwm),
          oc_pin = u8_of (constrain (parseIntArg req ''pin'' (uint (oc_pin c))) 0 48),
          oc_inverted = parseBoolArg req ''inverted'' (oc_inverted c),
          oc_threshold = constrain (parseIntArg req ''threshold'' (oc_threshold c)) 0 100,
          oc_failsafe = (if failsafe = 0 then Failsafe_Min else if failsafe = 2 then Failsafe_Max else Failsafe_Center),
          oc_source_a = parse_source req ''source_a'' (oc_source_a c), oc_source_b = parse_source req ''source_b'' (oc_source_b c),
          oc_source_c = parse_source req ''source_c'' (oc_source_c c),
          oc_mix = (if parseIntArg req ''mix_mode'' (if oc_mix c = Mix_Multiply then 1 else 0) = 1 then Mix_Multiply else Mix_Add),
          oc_weight_a = parse_percent req ''weight_a'' (oc_weight_a c), oc_weight_b = parse_percent req ''weight_b'' (oc_weight_b c),
          oc_weight_c = parse_percent req ''weight_c'' (oc_weight_c c), oc_offset_a = parse_percent req ''offset_a'' (oc_offset_a c),
          oc_offset_b = parse_percent req ''offset_b'' (oc_offset_b c), oc_offset_c = parse_percent req ''offset_c'' (oc_offset_c c),
          oc_name = parse_name req ''Output'' existingIndex\<rparr>)"

section \<open>Handlers: inputs and outputs\<close>

type_synonym answer = "bool \<times> string"

definition set_input :: "nat \<Rightarrow> virtual_input \<Rightarrow> rc_state \<Rightarrow> rc_state" where
  "set_input i v s = s\<lparr>rc_inputs := (rc_inputs s)[i := v]\<rparr>"

definition handleApiVirtualAdd :: "request \<Rightarrow> 'f sketch \<Rightarrow> answer \<times> 'f sketch" where
  "handleApiVirtualAdd req sk =
     (case firstFreeVirtualIndex (sk_rc sk) of
        None \<Rightarrow> ((False, ''Input limit reached''), sk)
      | Some index \<Rightarrow>
          let draft = parseVirtualFromRequest req (int index) (VirtualInputConfig\<lparr>vi_used := True\<rparr>)
          in ((True, ''Input added''), (set_rc (set_input index draft (sk_rc sk)) sk)\<lparr>sk_dirty := True\<rparr>))"

text \<open>The index of a used input or output, or None for the answer \<open>Invalid\<close>.\<close>

definition used_index :: "request \<Rightarrow> (nat \<Rightarrow> bool) \<Rightarrow> nat \<Rightarrow> nat option" where
  "used_index req used n =
     (let index = parseIntArg req ''index'' (- 1)
      in if index < 0 \<or> index \<ge> int n \<or> \<not> used (nat index) then None else Some (nat index))"

definition input_index :: "request \<Rightarrow> 'f sketch \<Rightarrow> nat option" where
  "input_index req sk = used_index req (\<lambda>i. vi_used (rc_inputs (sk_rc sk) ! i)) kMaxVirtualInputs"

definition output_index :: "request \<Rightarrow> 'f sketch \<Rightarrow> nat option" where
  "output_index req sk = used_index req (\<lambda>i. oc_used (out_at (sk_rc sk) i)) kMaxOutputChannels"

definition handleApiVirtualUpdate :: "request \<Rightarrow> 'f sketch \<Rightarrow> answer \<times> 'f sketch" where
  "handleApiVirtualUpdate req sk =
     (case input_index req sk of
        None \<Rightarrow> ((False, ''Invalid input''), sk)
      | Some index \<Rightarrow>
          let draft = (parseVirtualFromRequest req (int index) (rc_inputs (sk_rc sk) ! index))\<lparr>vi_used := True\<rparr>
          in ((True, ''Input updated''), (set_rc (set_input index draft (sk_rc sk)) sk)\<lparr>sk_dirty := True\<rparr>))"

definition forget_source :: "int \<Rightarrow> output_channel \<Rightarrow> output_channel" where
  "forget_source index c =
     (if \<not> oc_used c then c
      else
        let c1 = (if oc_source_a c = index then c\<lparr>oc_source_a := - 1, oc_weight_a := 0, oc_offset_a := 0\<rparr> else c);
            c2 = (if oc_source_b c1 = index then c1\<lparr>oc_source_b := - 1, oc_weight_b := 0, oc_offset_b := 0\<rparr> else c1)
        in if oc_source_c c2 = index then c2\<lparr>oc_source_c := - 1, oc_weight_c := 0, oc_offset_c := 0\<rparr> else c2)"

definition handleApiVirtualDelete :: "request \<Rightarrow> 'f sketch \<Rightarrow> answer \<times> 'f sketch" where
  "handleApiVirtualDelete req sk =
     (case input_index req sk of
        None \<Rightarrow> ((False, ''Invalid input''), sk)
      | Some index \<Rightarrow>
          let s = set_input index VirtualInputConfig (sk_rc sk);
              s1 = s\<lparr>rc_outputs := map (forget_source (int index)) (rc_outputs s)\<rparr>
          in ((True, ''Input deleted''), (set_rc s1 sk)\<lparr>sk_dirty := True\<rparr>))"

text \<open>What the messages of \<open>setupOutputHardware\<close> say.\<close>

definition hw_message :: "hw_error \<Rightarrow> string" where
  "hw_message e = (case e of Pwm_Attach_Failed pin \<Rightarrow> ''PWM attach failed on GPIO '' @ decimal (unat pin)
     | Pin_Already_Used \<Rightarrow> ''Pin already used'')"

definition try_output :: "board \<Rightarrow> nat \<Rightarrow> output_channel \<Rightarrow> string \<Rightarrow> 'f sketch \<Rightarrow> answer \<times> 'f sketch" where
  "try_output bd index draft message sk =
     (let previous = out_at (sk_rc sk) index
      in case rebuildOutputHardware bd (set_out index draft (sk_rc sk)) of
           (Some e, s) \<Rightarrow> ((False, hw_message e), set_rc (snd (rebuildOutputHardware bd (set_out index previous s))) sk)
         | (None, s) \<Rightarrow> ((True, message), (set_rc s sk)\<lparr>sk_dirty := True\<rparr>))"

definition handleApiOutputAdd :: "board \<Rightarrow> request \<Rightarrow> 'f sketch \<Rightarrow> answer \<times> 'f sketch" where
  "handleApiOutputAdd bd req sk =
     (case firstFreeOutputIndex (sk_rc sk) of
        None \<Rightarrow> ((False, ''Output limit reached''), sk)
      | Some index \<Rightarrow> try_output bd index
          (parseOutputFromRequest req (int index) (OutputChannelConfig\<lparr>oc_used := True\<rparr>)) ''Output added'' sk)"

definition keep_wiring :: "output_channel \<Rightarrow> output_channel \<Rightarrow> output_channel" where
  "keep_wiring backup draft = draft\<lparr>oc_type := oc_type backup, oc_pin := oc_pin backup, oc_source_a := oc_source_a backup,
     oc_source_b := oc_source_b backup, oc_source_c := oc_source_c backup, oc_mix := oc_mix backup,
     oc_weight_a := oc_weight_a backup, oc_weight_b := oc_weight_b backup, oc_weight_c := oc_weight_c backup,
     oc_offset_a := oc_offset_a backup, oc_offset_b := oc_offset_b backup, oc_offset_c := oc_offset_c backup\<rparr>"

definition handleApiOutputUpdate :: "board \<Rightarrow> request \<Rightarrow> 'f sketch \<Rightarrow> answer \<times> 'f sketch" where
  "handleApiOutputUpdate bd req sk =
     (case output_index req sk of
        None \<Rightarrow> ((False, ''Invalid output''), sk)
      | Some index \<Rightarrow>
          let backup = out_at (sk_rc sk) index;
              draft = (parseOutputFromRequest req (int index) backup)\<lparr>oc_used := True\<rparr>;
              draft1 = (if parseBoolArg req ''allow_rewire'' False then draft else keep_wiring backup draft)
          in try_output bd index draft1 ''Output updated'' sk)"

definition handleApiOutputDelete :: "board \<Rightarrow> request \<Rightarrow> 'f sketch \<Rightarrow> answer \<times> 'f sketch" where
  "handleApiOutputDelete bd req sk =
     (case output_index req sk of
        None \<Rightarrow> ((False, ''Invalid output''), sk)
      | Some index \<Rightarrow> try_output bd index OutputChannelConfig ''Output deleted'' sk)"

section \<open>Handlers: presets and models\<close>

definition preset_message :: "preset_error \<Rightarrow> string" where
  "preset_message e = (case e of Invalid_Source \<Rightarrow> ''Invalid source preset'' | Preset_Limit \<Rightarrow> ''Preset limit reached''
     | Nvs_Unavailable \<Rightarrow> ''NVS unavailable'' | Save_Failed \<Rightarrow> ''Failed to save preset'' | Unknown_Preset \<Rightarrow> ''Unknown preset''
     | Preset_Corrupted \<Rightarrow> ''Preset corrupted'' | Corrupted_Magic \<Rightarrow> ''Preset corrupted (invalid magic)''
     | Preset_Obsolete \<Rightarrow> ''Preset obsolete (format changed after update)'' | Delete_Failed \<Rightarrow> ''Failed to delete preset'')"

definition apply_message :: "apply_error \<Rightarrow> string" where
  "apply_message e = (case e of Invalid_Preset_Format \<Rightarrow> ''Invalid preset format''
     | Invalid_Source_Index \<Rightarrow> ''Invalid output source index''
     | No_Pwm_Gpio \<Rightarrow> ''Invalid preset: no PWM-compatible GPIO available''
     | Setup_Failed h \<Rightarrow> ''Invalid preset: '' @ hw_message h)"

text \<open>\<open>applyPersistedConfig\<close> with its last step, storing the configuration in force.\<close>

definition apply_and_store :: "board \<Rightarrow> 'f nvs \<Rightarrow> persisted_config \<Rightarrow> 'f sketch \<Rightarrow> apply_error option \<times> 'f sketch" where
  "apply_and_store bd nv cfg sk =
     (case applyPersistedConfig bd cfg (sk_rc sk) of
        (Some e, s) \<Rightarrow> (Some e, set_rc s sk)
      | (None, s) \<Rightarrow> (None, (set_rc s sk)\<lparr>sk_flash := snd (saveRuntimeConfigToNvs nv s (sk_flash sk))\<rparr>))"

definition arg :: "request \<Rightarrow> string \<Rightarrow> string" where
  "arg req name = (case req name of Some a \<Rightarrow> a | None \<Rightarrow> [])"

definition handleApiPresetApply :: "board \<Rightarrow> 'f nvs \<Rightarrow> request \<Rightarrow> 'f sketch \<Rightarrow> answer \<times> 'f sketch" where
  "handleApiPresetApply bd nv req sk =
     (let modelName = sanitizePresetName (arg req ''name'')
      in case loadAnyPreset nv modelName (sk_flash sk) of
           Inl e \<Rightarrow> ((False, preset_message e), sk)
         | Inr cfg \<Rightarrow> (case apply_and_store bd nv cfg sk of
             (Some e, sk1) \<Rightarrow> ((False, apply_message e), sk1)
           | (None, sk1) \<Rightarrow> ((True, ''Preset applied''), sk1\<lparr>sk_current := modelName, sk_dirty := False\<rparr>)))"

definition handleApiModelSetDefault :: "'f nvs \<Rightarrow> request \<Rightarrow> 'f sketch \<Rightarrow> answer \<times> 'f sketch" where
  "handleApiModelSetDefault nv req sk =
     (let modelName = sanitizePresetName (arg req ''name'')
      in case loadAnyPreset nv modelName (sk_flash sk) of
           Inl e \<Rightarrow> ((False, preset_message e), sk)
         | Inr cfg \<Rightarrow> (case saveBootModelName nv modelName (sk_flash sk) of
             (False, f) \<Rightarrow> ((False, ''Failed to save boot model''), sk\<lparr>sk_flash := f\<rparr>)
           | (True, f) \<Rightarrow> ((True, ''Boot model updated''), sk\<lparr>sk_flash := f, sk_boot := modelName\<rparr>)))"

definition create_config :: "'f nvs \<Rightarrow> request \<Rightarrow> 'f sketch \<Rightarrow> preset_error + persisted_config" where
  "create_config nv req sk =
     (let rawBase = trim (arg req ''base'')
      in if parseBoolArg req ''from_current'' False then Inr (exportCurrentConfig (sk_rc sk))
         else if rawBase \<noteq> [] \<and> \<not> equalsIgnoreCase rawBase ''none''
         then loadAnyPreset nv (sanitizePresetName rawBase) (sk_flash sk)
         else Inr (cf_zero\<lparr>cf_magic := kConfigMagic, cf_version := kConfigVersion\<rparr>))"

definition handleApiModelCreate :: "board \<Rightarrow> 'f nvs \<Rightarrow> request \<Rightarrow> 'f sketch \<Rightarrow> answer \<times> 'f sketch" where
  "handleApiModelCreate bd nv req sk =
     (let newName = sanitizePresetName (arg req ''name'')
      in if newName = [] then ((False, ''Invalid model name''), sk)
         else case create_config nv req sk of
           Inl e \<Rightarrow> ((False, preset_message e), sk)
         | Inr cfg \<Rightarrow> (case saveUserPresetFromConfig nv newName cfg (sk_flash sk) of
             (Some e, f) \<Rightarrow> ((False, preset_message e), sk\<lparr>sk_flash := f\<rparr>)
           | (None, f) \<Rightarrow> (case apply_and_store bd nv cfg (sk\<lparr>sk_flash := f\<rparr>) of
               (Some e, sk1) \<Rightarrow> ((False, apply_message e), sk1)
             | (None, sk1) \<Rightarrow> ((True, ''Model created''), sk1\<lparr>sk_current := newName, sk_dirty := False\<rparr>))))"

definition builtin_name :: "string \<Rightarrow> bool" where
  "builtin_name n \<longleftrightarrow> n = kPresetRcCar \<or> n = kPresetExcavator \<or> n = kPresetSkidSteer"

definition suggested_base :: "string \<Rightarrow> string" where
  "suggested_base current = (if current = kPresetRcCar then ''car_custom''
     else if current = kPresetExcavator then ''excavator_custom'' else ''skid_steer_custom'')"

text \<open>For a built-in model the answer is the suggested name of a copy.\<close>

definition handleApiModelSaveCurrent :: "'f nvs \<Rightarrow> nat \<Rightarrow> 'f sketch \<Rightarrow> answer \<times> 'f sketch" where
  "handleApiModelSaveCurrent nv millis sk =
     (if builtin_name (sk_current sk)
      then ((False, nextAvailableCustomModelName nv (suggested_base (sk_current sk)) millis (sk_flash sk)), sk)
      else case saveCurrentAsUserPreset nv (sk_current sk) (sk_rc sk) (sk_flash sk) of
          (Some e, f) \<Rightarrow> ((False, preset_message e), sk\<lparr>sk_flash := f\<rparr>)
        | (None, f) \<Rightarrow> ((True, ''Model saved''),
            sk\<lparr>sk_flash := snd (saveRuntimeConfigToNvs nv (sk_rc sk) f), sk_dirty := False\<rparr>))"

definition handleApiModelRevert :: "board \<Rightarrow> 'f nvs \<Rightarrow> 'f sketch \<Rightarrow> answer \<times> 'f sketch" where
  "handleApiModelRevert bd nv sk =
     (case loadAnyPreset nv (sk_current sk) (sk_flash sk) of
        Inl e \<Rightarrow> ((False, preset_message e), sk)
      | Inr cfg \<Rightarrow> (case apply_and_store bd nv cfg sk of
          (Some e, sk1) \<Rightarrow> ((False, apply_message e), sk1)
        | (None, sk1) \<Rightarrow> ((True, ''Changes reverted''), sk1\<lparr>sk_dirty := False\<rparr>)))"

text \<open>Loading the boot model, with the car as the fallback; also the way \<open>setup\<close> does it.\<close>

definition boot_config :: "'f nvs \<Rightarrow> 'f sketch \<Rightarrow> persisted_config \<times> 'f sketch" where
  "boot_config nv sk =
     (case loadAnyPreset nv (sk_boot sk) (sk_flash sk) of
        Inl e \<Rightarrow> (buildBuiltinPresetRcCar, sk\<lparr>sk_boot := kPresetRcCar, sk_current := kPresetRcCar\<rparr>)
      | Inr cfg \<Rightarrow> (cfg, sk\<lparr>sk_current := sk_boot sk\<rparr>))"

definition start_model :: "board \<Rightarrow> 'f nvs \<Rightarrow> 'f sketch \<Rightarrow> 'f sketch" where
  "start_model bd nv sk = (case boot_config nv sk of (cfg, sk1) \<Rightarrow> (snd (apply_and_store bd nv cfg sk1))\<lparr>sk_dirty := False\<rparr>)"

definition handleApiModelDelete :: "board \<Rightarrow> 'f nvs \<Rightarrow> request \<Rightarrow> 'f sketch \<Rightarrow> answer \<times> 'f sketch" where
  "handleApiModelDelete bd nv req sk =
     (let modelName = sanitizePresetName (arg req ''name'')
      in if builtin_name modelName then ((False, ''Readonly preset''), sk)
         else case deleteUserPreset nv modelName (sk_flash sk) of
           (Some e, f) \<Rightarrow> ((False, preset_message e), sk\<lparr>sk_flash := f\<rparr>)
         | (None, f) \<Rightarrow>
             let sk1 = sk\<lparr>sk_flash := f\<rparr>;
                 sk2 = (if sk_boot sk1 = modelName
                   then sk1\<lparr>sk_boot := kPresetRcCar, sk_flash := snd (saveBootModelName nv kPresetRcCar f)\<rparr> else sk1);
                 sk3 = (if sk_current sk2 = modelName then start_model bd nv sk2 else sk2)
             in ((True, ''Preset deleted''), sk3))"

section \<open>Access point\<close>

definition sanitizeApSsid :: "string \<Rightarrow> string" where
  "sanitizeApSsid raw = (let ssid = trim raw in if ssid = [] then kDefaultApSsid else if length ssid > 31 then take 31 ssid else ssid)"

definition sanitizeApPassword :: "string \<Rightarrow> string" where
  "sanitizeApPassword raw = (let pass = trim raw in if length pass > 63 then take 63 pass else pass)"

definition isValidApPassword :: "string \<Rightarrow> bool" where
  "isValidApPassword pass \<longleftrightarrow> pass = [] \<or> 8 \<le> length pass \<and> length pass \<le> 63"

definition load_text :: "'f nvs \<Rightarrow> string \<Rightarrow> nat \<Rightarrow> 'f \<Rightarrow> string option" where
  "load_text nv key limit f =
     (if \<not> nv_open nv False f then None
      else case nv_get nv key f of Some (Text s) \<Rightarrow> (if length s + 1 > limit then None else Some s) | _ \<Rightarrow> None)"

definition loadApSsid :: "'f nvs \<Rightarrow> 'f \<Rightarrow> string" where
  "loadApSsid nv f = (case load_text nv ''ap_ssid'' 64 f of None \<Rightarrow> kDefaultApSsid | Some s \<Rightarrow> sanitizeApSsid s)"

definition loadApPassword :: "'f nvs \<Rightarrow> 'f \<Rightarrow> string" where
  "loadApPassword nv f = (case load_text nv ''ap_pass'' 80 f of None \<Rightarrow> kDefaultApPassword
     | Some s \<Rightarrow> let pass = sanitizeApPassword s in if isValidApPassword pass then pass else kDefaultApPassword)"

definition saveApSsid :: "'f nvs \<Rightarrow> string \<Rightarrow> 'f \<Rightarrow> bool \<times> 'f" where
  "saveApSsid nv raw f = save_text nv ''ap_ssid'' (sanitizeApSsid raw) f"

definition saveApPassword :: "'f nvs \<Rightarrow> string \<Rightarrow> 'f \<Rightarrow> bool \<times> 'f" where
  "saveApPassword nv raw f =
     (let pass = sanitizeApPassword raw
      in if \<not> isValidApPassword pass then (False, f) else save_text nv ''ap_pass'' pass f)"

definition handleApiApConfigSet :: "'f nvs \<Rightarrow> request \<Rightarrow> 'f sketch \<Rightarrow> answer \<times> 'f sketch" where
  "handleApiApConfigSet nv req sk =
     (case (req ''ssid'', req ''password'') of
        (Some rawSsid, Some rawPass) \<Rightarrow>
          let nextSsid = sanitizeApSsid rawSsid; nextPass = sanitizeApPassword rawPass
          in if \<not> isValidApPassword nextPass then ((False, ''Password must be empty (open) or 8-63 chars''), sk)
             else (case saveApSsid nv nextSsid (sk_flash sk) of
                 (False, f) \<Rightarrow> ((False, ''Failed to save AP config''), sk\<lparr>sk_flash := f\<rparr>)
               | (True, f) \<Rightarrow> (case saveApPassword nv nextPass f of
                   (False, f1) \<Rightarrow> ((False, ''Failed to save AP config''), sk\<lparr>sk_flash := f1\<rparr>)
                 | (True, f1) \<Rightarrow> ((True, ''AP config saved. Reboot required to apply.''),
                     sk\<lparr>sk_flash := f1, sk_ssid := nextSsid, sk_password := nextPass\<rparr>)))
      | _ \<Rightarrow> ((False, ''Missing AP fields''), sk))"

text \<open>The same with a restart after a success: the middle component says whether \<open>ESP.restart\<close> is reached.\<close>

definition handleApiApConfigApplyReboot :: "'f nvs \<Rightarrow> request \<Rightarrow> 'f sketch \<Rightarrow> answer \<times> bool \<times> 'f sketch" where
  "handleApiApConfigApplyReboot nv req sk =
     (case handleApiApConfigSet nv req sk of
        ((True, _), sk1) \<Rightarrow> ((True, ''AP config saved. Rebooting now...''), True, sk1)
      | ((False, message), sk1) \<Rightarrow> ((False, message), False, sk1))"

text \<open>The authentication \<open>setupWebUi\<close> configures: None for an open access point, else the WPA2 password.\<close>

definition ap_security :: "'f sketch \<Rightarrow> string option" where
  "ap_security sk = (let apOpen = length (sk_password sk) < 8 in if apOpen then None else Some (take 63 (sk_password sk)))"

section \<open>Learning an input, version of the firmware\<close>

text \<open>The status and the body of the answer.\<close>

definition handleApiLearnDetect :: "controller_ptr \<Rightarrow> nat \<times> string" where
  "handleApiLearnDetect pad =
     (if \<not> connected_ptr pad then (400, ''{\"ok\":false,\"message\":\"No gamepad connected\"}'')
      else
        let hit = detectDominantInput pad
        in if hit = In_None then (200, ''{\"ok\":false,\"message\":\"No active input\"}'')
           else (200, ''{\"ok\":true,\"input\":'' @ decimal (unat (input_code hit)) @ '',\"label\":\"'' @
             (case getInputDefinition hit of Some d \<Rightarrow> in_label d | None \<Rightarrow> ''Unknown'') @ ''\"}''))"

definition startsWithReleaseTag :: "string \<Rightarrow> bool" where
  "startsWithReleaseTag s = (case s of c # d # _ \<Rightarrow> c = CHR ''v'' \<and> is_digit d | _ \<Rightarrow> False)"

text \<open>The version and the channel, from the description in the image if there is one.\<close>

definition detectFirmwareVersionInfo :: "string option \<Rightarrow> string \<times> string" where
  "detectFirmwareVersionInfo desc =
     (let v0 = trim (case desc of Some d \<Rightarrow> d | None \<Rightarrow> []);
          v = (if v0 = [] then ''dev-local'' else v0)
      in (v, if take 8 v = ''nightly-'' then ''nightly'' else if startsWithReleaseTag v then ''release'' else ''dev''))"

section \<open>Pairing, controllers, start and loop\<close>

definition handleApiPairingOn :: "u32 \<Rightarrow> 'f sketch \<Rightarrow> answer \<times> 'f sketch" where
  "handleApiPairingOn now sk = ((True, ''Pairing ON''),
     sk\<lparr>sk_pairing := True, sk_pairing_until := now + kPairingWindowMs, sk_toggle_at := 0\<rparr>)"

definition handleApiPairingOff :: "'f sketch \<Rightarrow> answer \<times> 'f sketch" where
  "handleApiPairingOff sk = ((True, ''Pairing OFF''), sk\<lparr>sk_pairing := False, sk_pairing_until := 0, sk_toggle_at := 0\<rparr>)"

text \<open>\<open>old\<close> is the object of the gamepad in use, \<open>ctl\<close> the new one at \<open>index\<close>.\<close>

definition onConnectedController ::
  "u32 \<Rightarrow> controller_ptr \<Rightarrow> nat \<Rightarrow> arduino_object \<Rightarrow> 'f sketch \<Rightarrow> bool list \<times> 'f sketch" where
  "onConnectedController now old index ctl sk =
     (if klass (co_data ctl) \<in> {CLASS_MOUSE, CLASS_KEYBOARD, CLASS_BALANCE_BOARD} then ([], sk)
      else if sk_gamepad sk \<noteq> None \<and> connected_ptr old then ([], sk)
      else
        let sk1 = sk\<lparr>sk_gamepad := Some index,
              sk_control := (sk_control sk)\<lparr>ct_last := Some now, ct_timed_out := Some False\<rparr>\<rparr>;
            sk2 = (if sk_pairing sk1 then sk1\<lparr>sk_pairing := False, sk_pairing_until := 0\<rparr> else sk1)
        in setBtScanActive False (sk2\<lparr>sk_toggle_at := 0\<rparr>))"

definition onDisconnectedController :: "nat \<Rightarrow> 'f sketch \<Rightarrow> 'f sketch" where
  "onDisconnectedController index sk =
     (if sk_gamepad sk = Some index
      then sk\<lparr>sk_gamepad := None, sk_toggle_at := 0,
             sk_control := (sk_control sk)\<lparr>ct_timed_out := Some False, ct_rc := applyFailsafeAllOutputs (sk_rc sk)\<rparr>\<rparr>
      else sk)"

definition sketch_setup :: "board \<Rightarrow> 'f nvs \<Rightarrow> u32 \<Rightarrow> 'f \<Rightarrow> 'f sketch" where
  "sketch_setup bd nv now f =
     (let sk = (sketch_boot f)\<lparr>sk_ssid := loadApSsid nv f, sk_password := loadApPassword nv f, sk_toggle_at := now + 5000,
              sk_boot := loadBootModelName nv f\<rparr>;
          sk1 = start_model bd nv sk
      in set_rc (applyFailsafeAllOutputs (sk_rc sk1)) sk1)"

text \<open>One turn of \<open>loop\<close>, after \<open>BP32.update()\<close> and its callbacks.\<close>

definition loop_turn ::
  "(rat \<Rightarrow> rat \<Rightarrow> rat) \<Rightarrow> u32 \<Rightarrow> u32 \<Rightarrow> u32 \<Rightarrow> controller_ptr \<Rightarrow> 'f sketch \<Rightarrow> bool list \<times> rumble_request list \<times> 'f sketch" where
  "loop_turn powf scan_ms now ms pad sk =
     (let (calls, sk1) = updateBtScanScheduler scan_ms (connected_ptr pad) sk;
          (rumbles, ct) = processControlTick powf ms pad now kSignalTimeoutMs (sk_control sk1)
      in (calls, rumbles, sk1\<lparr>sk_control := ct\<rparr>))"

end
