(* ===== verification/Firmware_State.thy ===== *)
theory Firmware_State
  imports Preset_Refinement Sketch
begin

text \<open>
  The firmware as a whole: the events that reach it (requests, controller callbacks, turns of the
  loop), the type of its state, and the state after start-up.
\<close>

section \<open>Well-formed outputs\<close>

lemma list_update_all: "\<forall>x \<in> set xs. P x \<Longrightarrow> (i < length xs \<Longrightarrow> P y) \<Longrightarrow> \<forall>x \<in> set (xs[i := y]). P x"
  by (cases "i < length xs") (auto dest!: set_update_subset_insert [THEN subsetD] simp: list_update_beyond)

text \<open>A servo that was ever driven carries a pulse between 1000 and 2000 microseconds.\<close>

definition pulse_ok :: "servo \<Rightarrow> bool" where
  "pulse_ok sv \<longleftrightarrow> sv_us sv = 0 \<or> 1000 \<le> sv_us sv \<and> sv_us sv \<le> 2000"

definition rc_ok :: "rc_state \<Rightarrow> bool" where
  "rc_ok s \<longleftrightarrow> rc_shape s \<and> wf_config s \<and> (\<forall>sv \<in> set (rc_servos s). pulse_ok sv) \<and> (\<forall>v \<in> set (rc_output s). \<bar>v\<bar> \<le> 1)"

named_theorems keeps_rc_ok \<open>operations keep the outputs well formed\<close>

lemma set_out_rc [keeps_rc_ok]: "rc_ok s \<Longrightarrow> wf_channel c \<Longrightarrow> rc_ok (set_out i c s)"
  using list_update_all [of "rc_outputs s" wf_channel i c] by (simp add: rc_ok_def wf_config_def set_out_def rc_shape_def)

lemma set_input_rc [keeps_rc_ok]: "rc_ok s \<Longrightarrow> wf_input v \<Longrightarrow> rc_ok (set_input i v s)"
  using list_update_all [of "rc_inputs s" wf_input i v] by (simp add: rc_ok_def wf_config_def set_input_def rc_shape_def)

lemma set_runtime_rc [keeps_rc_ok]: "rc_ok s \<Longrightarrow> \<bar>v\<bar> \<le> 1 \<Longrightarrow> rc_ok (set_runtime i v s)"
  using list_update_all [of "rc_output s" "\<lambda>v. \<bar>v\<bar> \<le> 1" i v] by (simp add: rc_ok_def wf_config_def set_runtime_def rc_shape_def)

lemma digitalWrite_rc [keeps_rc_ok]: "rc_ok s \<Longrightarrow> rc_ok (digitalWrite p l s)"
  unfolding rc_ok_def wf_config_def digitalWrite_def by (auto simp: rc_shape_def)

lemma servo_update:
  assumes "rc_ok s" "i < length (rc_servos s) \<Longrightarrow> pulse_ok sv"
  shows "rc_ok (s\<lparr>rc_servos := (rc_servos s)[i := sv]\<rparr>)"
  using assms list_update_all [of "rc_servos s" pulse_ok i sv] by (auto simp: rc_ok_def wf_config_def rc_shape_def)

lemma write_rc [keeps_rc_ok]: "rc_ok s \<Longrightarrow> 1000 \<le> us \<Longrightarrow> us \<le> 2000 \<Longrightarrow> rc_ok (writeMicroseconds i us s)"
  unfolding writeMicroseconds_def by (auto intro!: servo_update simp: pulse_ok_def)

lemma servo_at: "rc_ok s \<Longrightarrow> i < length (rc_servos s) \<Longrightarrow> pulse_ok (rc_servos s ! i)"
  by (simp add: rc_ok_def)

lemma detach_rc [keeps_rc_ok]: "rc_ok s \<Longrightarrow> rc_ok (detach i s)"
  unfolding detach_def by (rule servo_update) (auto dest: servo_at simp: pulse_ok_def)

lemma attached_rc [keeps_rc_ok]: "rc_ok s \<Longrightarrow> rc_ok (s\<lparr>rc_attached := (rc_attached s)[i := b]\<rparr>)"
  by (simp add: rc_ok_def wf_config_def rc_shape_def)

lemma release_rc [keeps_rc_ok]: "rc_ok s \<Longrightarrow> rc_ok (releaseOutputHardware i s)"
  using attached_rc [OF detach_rc [of s i], of i False] by (simp add: releaseOutputHardware_def detach_def)

lemma release_used_rc [keeps_rc_ok]: "rc_ok s \<Longrightarrow> rc_ok (release_used i s)"
  by (simp add: release_used_def release_rc)

lemma wf_channel_pin [simp]: "wf_channel (c\<lparr>oc_pin := p\<rparr>) = wf_channel c"
  by (simp add: wf_channel_def)

lemma wf_at: "rc_ok s \<Longrightarrow> i < kMaxOutputChannels \<Longrightarrow> wf_channel (out_at s i)"
  by (simp add: rc_ok_def wf_config_def out_at_def rc_shape_def)

lemma wf_input_at: "rc_ok s \<Longrightarrow> i < kMaxVirtualInputs \<Longrightarrow> wf_input (rc_inputs s ! i)"
  by (simp add: rc_ok_def wf_config_def rc_shape_def)

lemma failsafe_us: "1000 \<le> pwmFailsafeUs m" "pwmFailsafeUs m \<le> 2000"
  by (cases m; simp add: pwmFailsafeUs_def)+

lemma failsafe_rc [keeps_rc_ok]: "rc_ok s \<Longrightarrow> rc_ok (writeFailsafeForOutput i s)"
  unfolding writeFailsafeForOutput_def Let_def by (auto intro!: keeps_rc_ok failsafe_us)

lemma fold_rc: "(\<And>i s. i \<in> set xs \<Longrightarrow> rc_ok s \<Longrightarrow> rc_ok (f i s)) \<Longrightarrow> rc_ok s \<Longrightarrow> rc_ok (fold f xs s)"
  by (induction xs arbitrary: s) auto

lemma failsafe_all_rc [keeps_rc_ok]: "rc_ok s \<Longrightarrow> rc_ok (applyFailsafeAllOutputs s)"
  unfolding applyFailsafeAllOutputs_def by (rule fold_rc) (simp_all add: failsafe_rc)

lemma tryAttach_rc [keeps_rc_ok]: "rc_ok s \<Longrightarrow> rc_ok (snd (tryAttachOnPin bd i p s))"
proof -
  assume s: "rc_ok s"
  have attach: "rc_ok (t\<lparr>rc_servos := (rc_servos t)[i := (rc_servos t ! i)\<lparr>sv_pin := Some p\<rparr>],
      rc_outputs := (rc_outputs t)[i := (rc_outputs t ! i)\<lparr>oc_pin := p\<rparr>], rc_attached := (rc_attached t)[i := True]\<rparr>)"
    if t: "rc_ok t" for t
  proof -
    let ?t = "t\<lparr>rc_servos := (rc_servos t)[i := (rc_servos t ! i)\<lparr>sv_pin := Some p\<rparr>]\<rparr>"
    have "rc_ok ?t" using servo_at [OF t] by (intro servo_update [OF t]) (auto simp: pulse_ok_def)
    moreover have "\<forall>c \<in> set ((rc_outputs t)[i := (rc_outputs t ! i)\<lparr>oc_pin := p\<rparr>]). wf_channel c"
      using t by (intro list_update_all) (auto simp: rc_ok_def wf_config_def)
    ultimately show ?thesis by (simp add: rc_ok_def wf_config_def rc_shape_def)
  qed
  show ?thesis using s attach [OF s] attach [OF detach_rc [OF s]]
    by (auto simp: tryAttachOnPin_def detach_rc Let_def)
qed

lemma tryPins_rc [keeps_rc_ok]: "rc_ok s \<Longrightarrow> rc_ok (tryPins bd i r ps s)"
proof (induction ps arbitrary: s)
  case (Cons p ps)
  then show ?case using tryAttach_rc [OF Cons.prems, of bd i "u8_of (int p)"]
    by (auto split: prod.split bool.split)
qed simp

lemma setup_rc [keeps_rc_ok]: "rc_ok s \<Longrightarrow> rc_ok (snd (setupOutputHardware bd i s))"
proof -
  assume s: "rc_ok s"
  obtain b s1 where a: "tryAttachOnPin bd i (oc_pin (out_at s i)) s = (b, s1)" by fastforce
  with tryAttach_rc [OF s, of bd i "oc_pin (out_at s i)"] have "rc_ok s1" by simp
  with s a show ?thesis by (simp add: setupOutputHardware_def Let_def keeps_rc_ok)
qed

lemma setup_all_rc [keeps_rc_ok]: "rc_ok s \<Longrightarrow> rc_ok (snd (setup_all bd is s))"
proof (induction "is" arbitrary: s)
  case (Cons i "is")
  then show ?case using setup_rc [OF Cons.prems, of bd i] by (auto split: prod.split option.split)
qed simp

lemma rebuild_rc [keeps_rc_ok]: "rc_ok s \<Longrightarrow> rc_ok (snd (rebuildOutputHardware bd s))"
  unfolding rebuildOutputHardware_def Let_def by (intro setup_all_rc fold_rc) (simp_all add: release_used_rc)

section \<open>Loading a configuration\<close>

lemma wf_defaults [simp]: "wf_input VirtualInputConfig" "wf_channel OutputChannelConfig"
  by (simp_all add: wf_input_def VirtualInputConfig_def wf_id_def wf_channel_def OutputChannelConfig_def sourceValid_def
      percent_range_def kMaxVirtualInputs_def)

lemma wf_load_input [simp]: "wf_input (load_input p)"
  by (cases "pv_used p = 0") (simp add: load_input_def, simp add: load_input_def wf_input_def id_of_code(2) Let_def)

lemma wf_load_channel:
  "sourceValid (pc_source_a p) \<Longrightarrow> sourceValid (pc_source_b p) \<Longrightarrow> sourceValid (pc_source_c p) \<Longrightarrow> wf_channel (load_channel p)"
  by (simp add: load_channel_def wf_channel_def percent_range_def)

lemma load_output_rc: "rc_ok s \<Longrightarrow> i < kMaxOutputChannels \<Longrightarrow> rc_ok (snd (load_output bd p i s))"
proof -
  assume s: "rc_ok s" and i: "i < kMaxOutputChannels"
  have su: "rc_ok s2" if "setupOutputHardware bd i (set_out i c s1) = (e, s2)" "rc_ok s1" "wf_channel c" for c e s1 s2
    using setup_rc [OF set_out_rc [OF that(2,3)], of bd i i] that(1) by simp
  show ?thesis
  proof (cases "sourceValid (pc_source_a p) \<and> sourceValid (pc_source_b p) \<and> sourceValid (pc_source_c p)")
    case True
    then have wf: "wf_channel (load_channel p)" by (simp add: wf_load_channel)
    have s1: "rc_ok (set_out i (load_channel p) s)" using s wf by (rule set_out_rc)
    have "out_at (set_out i (load_channel p) s) i = load_channel p" using s i by (simp add: rc_ok_def)
    then show ?thesis using True s s1 wf by (auto simp: load_output_def Let_def split: prod.split option.split intro: su)
  qed (use s in \<open>auto simp: load_output_def\<close>)
qed

lemma load_outputs_rc: "rc_ok s \<Longrightarrow> n + length cs \<le> kMaxOutputChannels \<Longrightarrow> rc_ok (snd (load_outputs bd cs n s))"
proof (induction cs arbitrary: n s)
  case (Cons p cs)
  obtain e s1 where l: "load_output bd p n s = (e, s1)" by fastforce
  with load_output_rc [of s n bd p] Cons.prems have "rc_ok s1" by simp
  with Cons l show ?case by (auto split: option.split)
qed simp

lemma clear_rc: "rc_ok s \<Longrightarrow> rc_ok (clear_outputs s)"
  unfolding clear_outputs_def by (rule fold_rc) (simp_all add: keeps_rc_ok)

lemma load_inputs_rc: "rc_ok s \<Longrightarrow> cf_shape cfg \<Longrightarrow> rc_ok (load_inputs cfg s)"
  using load_inputs_shape [of cfg s] by (auto simp: rc_ok_def wf_config_def load_inputs_def)

lemma old_inputs_rc: "rc_ok s \<Longrightarrow> rc_ok t \<Longrightarrow> rc_ok (t\<lparr>rc_inputs := rc_inputs s\<rparr>)"
  by (simp add: rc_ok_def wf_config_def rc_shape_def)

lemma restore_channel_rc:
  assumes "rc_ok s" "rc_ok t" "i < kMaxOutputChannels"
  shows "rc_ok (restore_channel bd (rc_outputs s) old_pwm i t)"
proof -
  let ?t1 = "if oc_used (out_at t i) then releaseOutputHardware i t else t"
  have "rc_ok (set_out i (rc_outputs s ! i) ?t1)"
    using assms wf_at [OF assms(1,3)] by (simp add: keeps_rc_ok out_at_def)
  from attached_rc [OF this, of i False]
  have "rc_ok ((set_out i (rc_outputs s ! i) ?t1)\<lparr>rc_attached := (rc_attached ?t1)[i := False]\<rparr>)" by (simp add: set_out_def)
  then show ?thesis by (simp add: restore_channel_def Let_def setup_rc)
qed

lemma apply_rc [keeps_rc_ok]:
  assumes "rc_ok s" "cf_shape cfg"
  shows "rc_ok (snd (applyPersistedConfig bd cfg s))"
proof -
  have l: "rc_ok (snd (load_outputs bd (cf_channels cfg) 0 (load_inputs cfg (clear_outputs s))))"
    using assms by (intro load_outputs_rc load_inputs_rc clear_rc) (simp_all add: cf_shape_def)
  have restore: "rc_ok (restoreOld bd (rc_inputs s) (rc_outputs s) (rc_attached s) t)" if "rc_ok t" for t
    unfolding restoreOld_def using assms(1) that
    by (intro fold_rc restore_channel_rc old_inputs_rc) (auto simp: rc_ok_def rc_shape_def)
  show ?thesis using assms(1) l restore
    by (auto simp: applyPersistedConfig_def Let_def failsafe_all_rc split: prod.split option.split)
qed

section \<open>The loop\<close>

lemma pulse_bounds: "1000 \<le> pwmFromOutput rt oc" "pwmFromOutput rt oc \<le> 2000"
  using signal_unit [of rt oc] pulse_ends pulse_mono [of "- 1" "evaluateOutputSignal rt oc"]
    pulse_mono [of "evaluateOutputSignal rt oc" 1] by (simp_all add: pwmFromOutput_def applyPwmInvert_def clampPwmUs_def)

lemma drive_rc [keeps_rc_ok]: "rc_ok s \<Longrightarrow> rc_ok (drive_output i s)"
  using signal_unit [of "rc_virtual s" "out_at s i"]
  by (auto simp: drive_output_def Let_def abs_le_iff intro!: keeps_rc_ok pulse_bounds)

lemma virtual_rc: "rc_ok s \<Longrightarrow> rc_ok (snd (evaluateVirtualRuntime powf ms ctl s))"
proof -
  assume s: "rc_ok s"
  obtain r s1 where v: "evaluateVirtualRuntime powf ms ctl s = (r, s1)" by fastforce
  from virtual_same(1) [OF v] virtual_facts [OF v] s show ?thesis by (simp add: v rc_ok_def wf_config_def)
qed

lemma tick_rc [keeps_rc_ok]: "rc_ok (ct_rc ct) \<Longrightarrow> rc_ok (ct_rc (snd (processControlTick powf ms pad now timeout ct)))"
proof -
  assume s: "rc_ok (ct_rc ct)"
  obtain r s1 where v: "evaluateVirtualRuntime powf ms pad (ct_rc ct) = (r, s1)" by fastforce
  obtain r0 s0 where v0: "evaluateVirtualRuntime powf ms None (ct_rc ct) = (r0, s0)" by fastforce
  have "rc_ok s1" "rc_ok s0" using virtual_rc [OF s, of powf ms] v v0 by (metis snd_conv)+
  moreover from this have "rc_ok (fold drive_output [0..<length (rc_outputs s1)] s1)"
    by (intro fold_rc) (simp_all add: drive_rc)
  ultimately show ?thesis using s v v0
    by (simp add: processControlTick_def processGamepadToOutputs_def Let_def failsafe_all_rc)
qed

section \<open>Flash that holds configurations of the right shape\<close>

definition flash_shaped :: "'f nvs \<Rightarrow> 'f \<Rightarrow> bool" where
  "flash_shaped nv f \<longleftrightarrow> (\<forall>k cfg. nv_get nv k f = Some (Config cfg) \<longrightarrow> cf_shape cfg)"

lemma set_shaped: "nvs_ok nv \<Longrightarrow> flash_shaped nv f \<Longrightarrow> nv_set nv k v f = (b, f') \<Longrightarrow>
    (\<And>cfg. v = Config cfg \<Longrightarrow> cf_shape cfg) \<Longrightarrow> flash_shaped nv f'"
  by (auto simp: flash_shaped_def nvs_setD split: if_splits)

lemma commit_shaped: "nvs_ok nv \<Longrightarrow> flash_shaped nv f \<Longrightarrow> flash_shaped nv (snd (nv_commit nv f))"
  by (simp add: flash_shaped_def nvs_ok_def)

lemma erase_shaped: "nvs_ok nv \<Longrightarrow> flash_shaped nv f \<Longrightarrow> flash_shaped nv (nv_erase nv k f)"
proof -
  assume nv: "nvs_ok nv" and f: "flash_shaped nv f"
  have "nv_get nv k' (nv_erase nv k f) \<in> {None, nv_get nv k' f}" for k'
    using nv by (cases "k' = k") (auto simp: nvs_ok_def)
  with f show ?thesis unfolding flash_shaped_def by (metis insertE option.distinct(1) singletonD)
qed

lemma text_shaped:
  assumes "nvs_ok nv" "flash_shaped nv f"
  shows "flash_shaped nv (snd (save_text nv key s f))"
proof -
  obtain b f1 where r: "nv_set nv key (Text s) f = (b, f1)" by fastforce
  have "flash_shaped nv f1" using set_shaped [OF assms r] by simp
  with assms r show ?thesis by (cases b) (simp_all add: save_text_def commit_shaped)
qed

lemma export_shape: "rc_shape s \<Longrightarrow> cf_shape (exportCurrentConfig s)"
  by (simp add: cf_shape_def exportCurrentConfig_def rc_shape_def)

lemma runtime_shaped:
  assumes "nvs_ok nv" "flash_shaped nv f" "rc_shape s"
  shows "flash_shaped nv (snd (saveRuntimeConfigToNvs nv s f))"
proof -
  obtain b f1 where r: "nv_set nv ''cfg'' (Config (exportCurrentConfig s)) f = (b, f1)" by fastforce
  have "flash_shaped nv f1" using set_shaped [OF assms(1,2) r] export_shape [OF assms(3)] by auto
  with assms r show ?thesis by (cases b) (simp_all add: saveRuntimeConfigToNvs_def commit_shaped)
qed

lemma blob_shaped:
  assumes "nvs_ok nv" "flash_shaped nv f" "cf_shape cfg"
  shows "flash_shaped nv (snd (saveUserPresetBlob nv n (Some cfg) f))"
proof -
  have store: "flash_shaped nv (snd (store_and_commit nv key (Config cfg) dir f))" for key dir
  proof -
    obtain b f1 where r: "nv_set nv key (Config cfg) f = (b, f1)" by fastforce
    have f1: "flash_shaped nv f1" using set_shaped [OF assms(1,2) r] assms(3) by auto
    obtain b2 f2 where r2: "nv_set nv ''preset_dir'' (Directory dir) f1 = (b2, f2)" by fastforce
    have "flash_shaped nv f2" using set_shaped [OF assms(1) f1 r2] by simp
    with assms f1 r r2 show ?thesis by (cases b; cases b2) (simp_all add: store_and_commit_def commit_shaped)
  qed
  show ?thesis unfolding saveUserPresetBlob_def Let_def using assms(2) store
    by (auto split: prod.split) (metis snd_conv)+
qed

lemma delete_loop_shaped:
  assumes "nvs_ok nv" "flash_shaped nv f"
  shows "flash_shaped nv (snd (snd (delete_loop nv slot dir is newDir f)))"
  using assms(2)
proof (induction "is" arbitrary: newDir f)
  case (Cons i "is")
  show ?case
  proof (cases "\<exists>cfg. i \<noteq> slot \<and> nv_get nv (presetBlobKey i) f = Some (Config cfg) \<and> pd_count newDir < kMaxUserPresets")
    case True
    then obtain cfg where c: "i \<noteq> slot" "nv_get nv (presetBlobKey i) f = Some (Config cfg)" "pd_count newDir < kMaxUserPresets"
      by blast
    obtain b f1 where r: "nv_set nv (presetBlobKey (pd_count newDir)) (Config cfg) f = (b, f1)" by fastforce
    have "flash_shaped nv f1" using set_shaped [OF assms(1) Cons.prems r] Cons.prems c(2) by (auto simp: flash_shaped_def)
    with Cons.IH c r show ?thesis by (cases b) (simp_all add: Let_def)
  next
    case False
    with Cons show ?thesis by (auto simp: Let_def not_less split: option.split stored.split)
  qed
qed simp

lemma delete_shaped:
  assumes "nvs_ok nv" "flash_shaped nv f"
  shows "flash_shaped nv (snd (deleteUserPreset nv n f))"
proof (cases "findPresetSlotByName (loadPresetDirectory nv f) (sanitizePresetName n)")
  case None
  with assms show ?thesis by (simp add: deleteUserPreset_def)
next
  case (Some slot)
  obtain b newDir f1 where l: "delete_loop nv slot (loadPresetDirectory nv f) [0..<pd_count (loadPresetDirectory nv f)]
      fresh_directory f = (b, newDir, f1)" by (metis prod_cases3)
  have f1: "flash_shaped nv f1" using delete_loop_shaped [OF assms] l by (metis snd_conv)
  define f2 where "f2 = fold (\<lambda>i. nv_erase nv (presetBlobKey i)) [pd_count newDir..<pd_count (loadPresetDirectory nv f)] f1"
  have erase: "flash_shaped nv (fold (\<lambda>i. nv_erase nv (presetBlobKey i)) xs g)" if "flash_shaped nv g" for xs :: "nat list" and g
    using that by (induction xs arbitrary: g) (simp_all add: erase_shaped assms(1))
  have f2: "flash_shaped nv f2" unfolding f2_def using f1 by (rule erase)
  obtain c f3 where r: "nv_set nv ''preset_dir'' (Directory newDir) f2 = (c, f3)" by fastforce
  have f3: "flash_shaped nv f3" using set_shaped [OF assms(1) f2 r] by simp
  obtain d f4 where cm: "nv_commit nv f3 = (d, f4)" by fastforce
  have "flash_shaped nv f4" using commit_shaped [OF assms(1) f3] cm by simp
  with Some l r cm f1 f3 assms(2) show ?thesis by (cases b; cases c) (simp_all add: deleteUserPreset_def Let_def flip: f2_def)
qed

lemma builtin_shape: "cf_shape buildBuiltinPresetRcCar" "cf_shape buildBuiltinPresetExcavator" "cf_shape buildBuiltinPresetSkidSteer"
  by (simp_all add: cf_shape_def buildBuiltinPresetRcCar_def buildBuiltinPresetExcavator_def buildBuiltinPresetSkidSteer_def
      cf_with_def fill_def kMaxVirtualInputs_def kMaxOutputChannels_def)

lemma load_shape: "flash_shaped nv f \<Longrightarrow> loadAnyPreset nv n f = Inr cfg \<Longrightarrow> cf_shape cfg"
  by (auto simp: loadAnyPreset_def loadUserPreset_def Let_def flash_shaped_def builtin_shape
      split: if_splits option.splits stored.splits)

section \<open>Requests\<close>

lemma parsed_input_wf [simp]: "wf_input (parseVirtualFromRequest req k v)" "wf_input ((parseVirtualFromRequest req k v)\<lparr>vi_used := u\<rparr>)"
  by (simp_all add: parseVirtualFromRequest_def Let_def wf_input_def input_of_arg_def id_of_code(2) parse_name_def)

lemma source_valid [simp]: "sourceValid (parse_source req n d)"
proof -
  have "- 1 \<le> constrain (parseIntArg req n d) (- 1) 15" "constrain (parseIntArg req n d) (- 1) 15 \<le> 15" by simp_all
  moreover from this have "to_i8 (constrain (parseIntArg req n d) (- 1) 15) = constrain (parseIntArg req n d) (- 1) 15"
    by (intro to_i8_id) linarith+
  ultimately show ?thesis by (simp add: parse_source_def sourceValid_def kMaxVirtualInputs_def, linarith)
qed

lemma percent_valid [simp]: "percent_range (parse_percent req n d)"
proof -
  have "- 100 \<le> constrain (parseIntArg req n d) (- 100) 100" "constrain (parseIntArg req n d) (- 100) 100 \<le> 100" by simp_all
  moreover from this have "to_i8 (constrain (parseIntArg req n d) (- 100) 100) = constrain (parseIntArg req n d) (- 100) 100"
    by (intro to_i8_id) linarith+
  ultimately show ?thesis by (simp add: parse_percent_def percent_range_def)
qed

lemma parsed_output_wf [simp]: "wf_channel (parseOutputFromRequest req k c)"
  "wf_channel ((parseOutputFromRequest req k c)\<lparr>oc_used := u\<rparr>)"
  by (simp_all add: parseOutputFromRequest_def Let_def wf_channel_def parse_name_def)

lemma keep_wiring_wf: "wf_channel b \<Longrightarrow> wf_channel d \<Longrightarrow> wf_channel (keep_wiring b d)"
  by (simp add: keep_wiring_def wf_channel_def)

lemma forget_wf: "wf_channel c \<Longrightarrow> wf_channel (forget_source k c)"
  by (simp add: forget_source_def wf_channel_def percent_range_def sourceValid_def kMaxVirtualInputs_def Let_def)

lemma forget_rc: "rc_ok s \<Longrightarrow> rc_ok (s\<lparr>rc_outputs := map (forget_source k) (rc_outputs s)\<rparr>)"
  by (simp add: rc_ok_def wf_config_def rc_shape_def forget_wf)

section \<open>The firmware\<close>

text \<open>What reaches the firmware: requests, the callbacks of the Bluetooth library, turns of the loop.\<close>

datatype event =
    Virtual_Add request | Virtual_Update request | Virtual_Delete request
  | Output_Add request | Output_Update request | Output_Delete request
  | Preset_Apply request | Model_Set_Default request | Model_Create request | Model_Save_Current nat
  | Model_Revert | Model_Delete request | Ap_Config_Set request | Ap_Config_Reboot request
  | Pairing_On u32 | Pairing_Off
  | Connected u32 controller_ptr nat arduino_object | Disconnected nat
  | Turn u32 u32 u32 controller_ptr

fun handle_event :: "board \<Rightarrow> 'f nvs \<Rightarrow> (rat \<Rightarrow> rat \<Rightarrow> rat) \<Rightarrow> event \<Rightarrow> 'f sketch \<Rightarrow> 'f sketch" where
  "handle_event bd nv powf (Virtual_Add req) sk = snd (handleApiVirtualAdd req sk)"
| "handle_event bd nv powf (Virtual_Update req) sk = snd (handleApiVirtualUpdate req sk)"
| "handle_event bd nv powf (Virtual_Delete req) sk = snd (handleApiVirtualDelete req sk)"
| "handle_event bd nv powf (Output_Add req) sk = snd (handleApiOutputAdd bd req sk)"
| "handle_event bd nv powf (Output_Update req) sk = snd (handleApiOutputUpdate bd req sk)"
| "handle_event bd nv powf (Output_Delete req) sk = snd (handleApiOutputDelete bd req sk)"
| "handle_event bd nv powf (Preset_Apply req) sk = snd (handleApiPresetApply bd nv req sk)"
| "handle_event bd nv powf (Model_Set_Default req) sk = snd (handleApiModelSetDefault nv req sk)"
| "handle_event bd nv powf (Model_Create req) sk = snd (handleApiModelCreate bd nv req sk)"
| "handle_event bd nv powf (Model_Save_Current ms) sk = snd (handleApiModelSaveCurrent nv ms sk)"
| "handle_event bd nv powf Model_Revert sk = snd (handleApiModelRevert bd nv sk)"
| "handle_event bd nv powf (Model_Delete req) sk = snd (handleApiModelDelete bd nv req sk)"
| "handle_event bd nv powf (Ap_Config_Set req) sk = snd (handleApiApConfigSet nv req sk)"
| "handle_event bd nv powf (Ap_Config_Reboot req) sk = snd (snd (handleApiApConfigApplyReboot nv req sk))"
| "handle_event bd nv powf (Pairing_On now) sk = snd (handleApiPairingOn now sk)"
| "handle_event bd nv powf Pairing_Off sk = snd (handleApiPairingOff sk)"
| "handle_event bd nv powf (Connected now old i ctl) sk = snd (onConnectedController now old i ctl sk)"
| "handle_event bd nv powf (Disconnected i) sk = onDisconnectedController i sk"
| "handle_event bd nv powf (Turn scan_ms now ms pad) sk = snd (snd (loop_turn powf scan_ms now ms pad sk))"

definition ap_ok :: "'f sketch \<Rightarrow> bool" where
  "ap_ok sk \<longleftrightarrow> sk_ssid sk \<noteq> [] \<and> length (sk_ssid sk) \<le> 31 \<and> isValidApPassword (sk_password sk)"

definition sketch_ok :: "'f nvs \<Rightarrow> 'f sketch \<Rightarrow> bool" where
  "sketch_ok nv sk \<longleftrightarrow> rc_ok (sk_rc sk) \<and> flash_shaped nv (sk_flash sk) \<and> valid_name (sk_current sk) \<and>
     valid_name (sk_boot sk) \<and> ap_ok sk"

lemma rc_set [simp]: "sk_rc (set_rc s sk) = s" "sk_flash (set_rc s sk) = sk_flash sk" "sk_current (set_rc s sk) = sk_current sk"
  "sk_boot (set_rc s sk) = sk_boot sk" "sk_ssid (set_rc s sk) = sk_ssid sk" "sk_password (set_rc s sk) = sk_password sk"
  "sk_gamepad (set_rc s sk) = sk_gamepad sk" "sk_scan (set_rc s sk) = sk_scan sk" "sk_pairing (set_rc s sk) = sk_pairing sk"
  "sk_dirty (set_rc s sk) = sk_dirty sk" "sk_toggle_at (set_rc s sk) = sk_toggle_at sk"
  "sk_pairing_until (set_rc s sk) = sk_pairing_until sk"
  "ct_last (sk_control (set_rc s sk)) = ct_last (sk_control sk)"
  "ct_timed_out (sk_control (set_rc s sk)) = ct_timed_out (sk_control sk)"
  by (simp_all add: sk_rc_def set_rc_def)

lemma rc_update [simp]: "sk_rc (sk\<lparr>sk_dirty := d\<rparr>) = sk_rc sk" "sk_rc (sk\<lparr>sk_flash := f\<rparr>) = sk_rc sk"
  "sk_rc (sk\<lparr>sk_current := n\<rparr>) = sk_rc sk" "sk_rc (sk\<lparr>sk_boot := n\<rparr>) = sk_rc sk" "sk_rc (sk\<lparr>sk_ssid := n\<rparr>) = sk_rc sk"
  "sk_rc (sk\<lparr>sk_password := n\<rparr>) = sk_rc sk" "sk_rc (sk\<lparr>sk_scan := b\<rparr>) = sk_rc sk" "sk_rc (sk\<lparr>sk_pairing := b\<rparr>) = sk_rc sk"
  "sk_rc (sk\<lparr>sk_pairing_until := t\<rparr>) = sk_rc sk" "sk_rc (sk\<lparr>sk_toggle_at := t\<rparr>) = sk_rc sk"
  "sk_rc (sk\<lparr>sk_gamepad := g\<rparr>) = sk_rc sk" "sk_rc (sk\<lparr>sk_control := c\<rparr>) = ct_rc c"
  by (simp_all add: sk_rc_def)

lemma rc_of_ok: "sketch_ok nv sk \<Longrightarrow> rc_ok (sk_rc sk)"
  by (simp add: sketch_ok_def)

lemma set_rc_ok: "sketch_ok nv sk \<Longrightarrow> rc_ok s \<Longrightarrow> sketch_ok nv (set_rc s sk)"
  by (simp add: sketch_ok_def ap_ok_def)

lemma dirty_ok [simp]: "sketch_ok nv (sk\<lparr>sk_dirty := d\<rparr>) = sketch_ok nv sk"
  by (simp add: sketch_ok_def ap_ok_def)

lemma flash_ok: "sketch_ok nv sk \<Longrightarrow> flash_shaped nv f \<Longrightarrow> sketch_ok nv (sk\<lparr>sk_flash := f\<rparr>)"
  by (simp add: sketch_ok_def ap_ok_def)

lemma names_ok: "sketch_ok nv sk \<Longrightarrow> valid_name n \<Longrightarrow> sketch_ok nv (sk\<lparr>sk_current := n\<rparr>)"
  "sketch_ok nv sk \<Longrightarrow> valid_name n \<Longrightarrow> sketch_ok nv (sk\<lparr>sk_boot := n\<rparr>)"
  by (simp_all add: sketch_ok_def ap_ok_def)

lemma used_indexD: "used_index req used n = Some i \<Longrightarrow> i < n \<and> used i"
  by (auto simp: used_index_def Let_def split: if_splits)

lemma find_index_less: "find_index P xs = Some i \<Longrightarrow> i < length xs \<and> P (xs ! i)"
  using find_index_Some [of P xs i] by auto

lemma set_input_ok: "sketch_ok nv sk \<Longrightarrow> wf_input v \<Longrightarrow> sketch_ok nv (set_rc (set_input i v (sk_rc sk)) sk)"
  by (intro set_rc_ok set_input_rc) (simp_all add: sketch_ok_def)

lemma virtual_add_ok: "sketch_ok nv sk \<Longrightarrow> sketch_ok nv (snd (handleApiVirtualAdd req sk))"
  by (auto simp: handleApiVirtualAdd_def Let_def set_input_ok split: option.split)

lemma virtual_update_ok: "sketch_ok nv sk \<Longrightarrow> sketch_ok nv (snd (handleApiVirtualUpdate req sk))"
  by (auto simp: handleApiVirtualUpdate_def Let_def set_input_ok split: option.split)

lemma virtual_delete_ok: "sketch_ok nv sk \<Longrightarrow> sketch_ok nv (snd (handleApiVirtualDelete req sk))"
  unfolding handleApiVirtualDelete_def Let_def
  by (auto intro!: set_rc_ok forget_rc set_input_rc dest: rc_of_ok split: option.split)

lemma try_output_ok:
  assumes "sketch_ok nv sk" "wf_channel draft" "i < kMaxOutputChannels"
  shows "sketch_ok nv (snd (try_output bd i draft message sk))"
proof -
  have s: "rc_ok (sk_rc sk)" using assms(1) by (simp add: sketch_ok_def)
  obtain e t where r: "rebuildOutputHardware bd (set_out i draft (sk_rc sk)) = (e, t)" by fastforce
  have t: "rc_ok t" using rebuild_rc [OF set_out_rc [OF s assms(2)], of bd i] r by simp
  have "rc_ok (snd (rebuildOutputHardware bd (set_out i (out_at (sk_rc sk) i) t)))"
    by (intro rebuild_rc set_out_rc t wf_at [OF s assms(3)])
  with t r show ?thesis by (auto simp: try_output_def Let_def set_rc_ok [OF assms(1)] split: option.split)
qed

lemma free_output: "rc_shape s \<Longrightarrow> firstFreeOutputIndex s = Some i \<Longrightarrow> i < kMaxOutputChannels \<and> \<not> oc_used (out_at s i)"
  by (auto simp: firstFreeOutputIndex_def rc_shape_def out_at_def dest: find_index_less)

lemma output_add_ok: "sketch_ok nv sk \<Longrightarrow> sketch_ok nv (snd (handleApiOutputAdd bd req sk))"
  using free_output [of "sk_rc sk"]
  by (auto simp: handleApiOutputAdd_def sketch_ok_def [of nv sk] rc_ok_def intro!: try_output_ok split: option.split)

lemma output_index_less: "output_index req sk = Some i \<Longrightarrow> i < kMaxOutputChannels \<and> oc_used (out_at (sk_rc sk) i)"
  unfolding output_index_def by (rule used_indexD)

lemma input_index_less: "input_index req sk = Some i \<Longrightarrow> i < kMaxVirtualInputs \<and> vi_used (rc_inputs (sk_rc sk) ! i)"
  unfolding input_index_def by (rule used_indexD)

lemma output_update_ok: "sketch_ok nv sk \<Longrightarrow> sketch_ok nv (snd (handleApiOutputUpdate bd req sk))"
  using output_index_less [of req sk] wf_at [of "sk_rc sk"]
  by (auto simp: handleApiOutputUpdate_def Let_def sketch_ok_def [of nv sk] intro!: try_output_ok keep_wiring_wf split: option.split)

lemma output_delete_ok: "sketch_ok nv sk \<Longrightarrow> sketch_ok nv (snd (handleApiOutputDelete bd req sk))"
  using output_index_less [of req sk]
  by (auto simp: handleApiOutputDelete_def intro!: try_output_ok split: option.split)

lemma apply_store_ok:
  assumes "nvs_ok nv" "sketch_ok nv sk" "cf_shape cfg"
  shows "sketch_ok nv (snd (apply_and_store bd nv cfg sk))"
proof -
  obtain e s where a: "applyPersistedConfig bd cfg (sk_rc sk) = (e, s)" by fastforce
  have s: "rc_ok s" using apply_rc [OF _ assms(3), of "sk_rc sk" bd] assms(2) a by (simp add: sketch_ok_def)
  have "flash_shaped nv (snd (saveRuntimeConfigToNvs nv s (sk_flash sk)))"
    using assms s by (intro runtime_shaped) (simp_all add: sketch_ok_def rc_ok_def)
  with a s assms show ?thesis by (auto simp: apply_and_store_def intro!: flash_ok set_rc_ok split: option.split)
qed

lemma apply_store_state:
  assumes "applyPersistedConfig bd cfg (sk_rc sk) = (e, s)"
  obtains f where "apply_and_store bd nv cfg sk = (e, (set_rc s sk)\<lparr>sk_flash := f\<rparr>)"
proof (cases e)
  case None
  with assms that show ?thesis by (simp add: apply_and_store_def)
next
  case (Some x)
  with assms have "apply_and_store bd nv cfg sk = (e, (set_rc s sk)\<lparr>sk_flash := sk_flash sk\<rparr>)"
    by (cases sk) (simp add: apply_and_store_def set_rc_def)
  with that show ?thesis .
qed

lemma apply_store_at: "nvs_ok nv \<Longrightarrow> sketch_ok nv sk \<Longrightarrow> cf_shape cfg \<Longrightarrow> apply_and_store bd nv cfg sk = (e, sk1) \<Longrightarrow> sketch_ok nv sk1"
  using apply_store_ok [of nv sk cfg bd] by simp

lemma loaded_shape: "sketch_ok nv sk \<Longrightarrow> loadAnyPreset nv n (sk_flash sk) = Inr cfg \<Longrightarrow> cf_shape cfg"
  by (rule load_shape) (simp_all add: sketch_ok_def)

lemma flash_of_ok: "sketch_ok nv sk \<Longrightarrow> flash_shaped nv (sk_flash sk)"
  by (simp add: sketch_ok_def)

lemma preset_apply_ok: "nvs_ok nv \<Longrightarrow> sketch_ok nv sk \<Longrightarrow> sketch_ok nv (snd (handleApiPresetApply bd nv req sk))"
  by (auto simp: handleApiPresetApply_def Let_def split: sum.split prod.split option.split
      intro!: names_ok sanitize_valid intro: apply_store_at loaded_shape)

lemma boot_name_ok:
  "nvs_ok nv \<Longrightarrow> sketch_ok nv sk \<Longrightarrow> saveBootModelName nv n (sk_flash sk) = (b, f) \<Longrightarrow> sketch_ok nv (sk\<lparr>sk_flash := f\<rparr>)"
  using text_shaped [OF _ flash_of_ok, of nv sk "''boot_model''" "sanitizePresetName n"]
  by (auto simp: saveBootModelName_def intro: flash_ok)

lemma set_default_ok: "nvs_ok nv \<Longrightarrow> sketch_ok nv sk \<Longrightarrow> sketch_ok nv (snd (handleApiModelSetDefault nv req sk))"
  by (auto simp: handleApiModelSetDefault_def Let_def split: sum.split prod.split bool.split
      intro!: names_ok sanitize_valid intro: boot_name_ok)

lemma saved_ok: "nvs_ok nv \<Longrightarrow> sketch_ok nv sk \<Longrightarrow> cf_shape cfg \<Longrightarrow>
    saveUserPresetBlob nv n (Some cfg) (sk_flash sk) = (e, f) \<Longrightarrow> sketch_ok nv (sk\<lparr>sk_flash := f\<rparr>)"
  using blob_shaped [OF _ flash_of_ok, of nv sk cfg n] by (auto intro: flash_ok)

lemma empty_shape: "cf_shape (cf_zero\<lparr>cf_magic := m, cf_version := v\<rparr>)"
  by (simp add: cf_shape_def cf_zero_def)

lemma create_shape: "sketch_ok nv sk \<Longrightarrow> create_config nv req sk = Inr cfg \<Longrightarrow> cf_shape cfg"
  using export_shape [of "sk_rc sk"] rc_of_ok [of nv sk] empty_shape [of kConfigVersion kConfigMagic]
  by (auto simp: create_config_def Let_def rc_ok_def split: if_splits intro: loaded_shape)

lemma create_ok: "nvs_ok nv \<Longrightarrow> sketch_ok nv sk \<Longrightarrow> sketch_ok nv (snd (handleApiModelCreate bd nv req sk))"
  by (auto simp: handleApiModelCreate_def saveUserPresetFromConfig_def Let_def split: sum.split prod.split option.split
      intro!: names_ok sanitize_valid intro: saved_ok create_shape apply_store_at)

lemma save_current_ok: "nvs_ok nv \<Longrightarrow> sketch_ok nv sk \<Longrightarrow> sketch_ok nv (snd (handleApiModelSaveCurrent nv ms sk))"
proof -
  assume nv: "nvs_ok nv" and sk: "sketch_ok nv sk"
  have sh: "rc_shape (sk_rc sk)" using rc_of_ok [OF sk] by (simp add: rc_ok_def)
  obtain e f where r: "saveUserPresetBlob nv (sk_current sk) (Some (exportCurrentConfig (sk_rc sk))) (sk_flash sk) = (e, f)" by fastforce
  have f: "sketch_ok nv (sk\<lparr>sk_flash := f\<rparr>)" using nv sk export_shape [OF sh] r by (rule saved_ok)
  then have "flash_shaped nv f" by (simp add: sketch_ok_def)
  from flash_ok [OF sk runtime_shaped [OF nv this sh]] f sk r show ?thesis
    by (simp add: handleApiModelSaveCurrent_def saveCurrentAsUserPreset_def split: option.split)
qed

lemma revert_ok: "nvs_ok nv \<Longrightarrow> sketch_ok nv sk \<Longrightarrow> sketch_ok nv (snd (handleApiModelRevert bd nv sk))"
  by (auto simp: handleApiModelRevert_def split: sum.split prod.split option.split intro: apply_store_at loaded_shape)

lemma builtin_valid: "valid_name kPresetRcCar" "valid_name kPresetExcavator" "valid_name kPresetSkidSteer"
  by code_simp+

lemma boot_config_ok: "sketch_ok nv sk \<Longrightarrow> boot_config nv sk = (cfg, sk1) \<Longrightarrow> cf_shape cfg \<and> sketch_ok nv sk1"
  by (auto simp: boot_config_def builtin_shape builtin_valid intro!: names_ok split: sum.splits intro: loaded_shape)
     (simp_all add: sketch_ok_def)

lemma start_model_ok: "nvs_ok nv \<Longrightarrow> sketch_ok nv sk \<Longrightarrow> sketch_ok nv (start_model bd nv sk)"
  using boot_config_ok [of nv sk] by (auto simp: start_model_def apply_store_ok split: prod.split)

lemma model_delete_ok: "nvs_ok nv \<Longrightarrow> sketch_ok nv sk \<Longrightarrow> sketch_ok nv (snd (handleApiModelDelete bd nv req sk))"
proof -
  assume nv: "nvs_ok nv" and sk: "sketch_ok nv sk"
  define n where "n = sanitizePresetName (arg req ''name'')"
  obtain e f where r: "deleteUserPreset nv n (sk_flash sk) = (e, f)" by fastforce
  have f: "sketch_ok nv (sk\<lparr>sk_flash := f\<rparr>)" using delete_shaped [OF nv flash_of_ok [OF sk], of n] r by (simp add: flash_ok sk)
  obtain b g where g: "saveBootModelName nv kPresetRcCar f = (b, g)" by fastforce
  have "sketch_ok nv (sk\<lparr>sk_flash := g\<rparr>)" using boot_name_ok [OF nv f, of kPresetRcCar b g] g by simp
  then have "flash_shaped nv g" by (simp add: sketch_ok_def)
  then have "sketch_ok nv (sk\<lparr>sk_boot := kPresetRcCar, sk_flash := g\<rparr>)" by (intro flash_ok names_ok sk builtin_valid)
  from this f start_model_ok [OF nv this, of bd] start_model_ok [OF nv f, of bd] r g sk show ?thesis
    by (cases "sk_boot sk = n") (simp_all add: handleApiModelDelete_def Let_def flip: n_def split: option.split)
qed

lemma ssid_ok: "sanitizeApSsid r \<noteq> []" "length (sanitizeApSsid r) \<le> 31"
  by (auto simp: sanitizeApSsid_def Let_def kDefaultApSsid_def)

lemma save_ap_shaped:
  assumes "nvs_ok nv" "flash_shaped nv f"
  shows "saveApSsid nv r f = (b, f') \<Longrightarrow> flash_shaped nv f'" "saveApPassword nv r f = (b, f') \<Longrightarrow> flash_shaped nv f'"
  using text_shaped [OF assms] assms(2)
  by (auto simp: saveApSsid_def saveApPassword_def Let_def split: if_splits) (metis snd_conv)+

lemma ap_set_ok:
  assumes "nvs_ok nv" "sketch_ok nv sk"
  shows "sketch_ok nv (snd (handleApiApConfigSet nv req sk))"
proof (cases "\<exists>a b. req ''ssid'' = Some a \<and> req ''password'' = Some b \<and> isValidApPassword (sanitizeApPassword b)")
  case False
  with assms(2) show ?thesis by (auto simp: handleApiApConfigSet_def Let_def split: option.split)
next
  case True
  then obtain a p where ap: "req ''ssid'' = Some a" "req ''password'' = Some p" "isValidApPassword (sanitizeApPassword p)" by blast
  obtain b f where s: "saveApSsid nv (sanitizeApSsid a) (sk_flash sk) = (b, f)" by fastforce
  obtain c f1 where q: "saveApPassword nv (sanitizeApPassword p) f = (c, f1)" by fastforce
  have f: "flash_shaped nv f" using save_ap_shaped(1) [OF assms(1) flash_of_ok [OF assms(2)] s] .
  have "flash_shaped nv f1" using save_ap_shaped(2) [OF assms(1) f q] .
  with f have "sketch_ok nv (sk\<lparr>sk_flash := f\<rparr>)" "sketch_ok nv (sk\<lparr>sk_flash := f1\<rparr>)"
    "sketch_ok nv (sk\<lparr>sk_flash := f1, sk_ssid := sanitizeApSsid a, sk_password := sanitizeApPassword p\<rparr>)"
    using assms(2) ssid_ok ap(3) by (simp_all add: sketch_ok_def ap_ok_def)
  with ap s q show ?thesis by (cases b; cases c) (simp_all add: handleApiApConfigSet_def Let_def)
qed

lemma ap_reboot_ok: "nvs_ok nv \<Longrightarrow> sketch_ok nv sk \<Longrightarrow> sketch_ok nv (snd (snd (handleApiApConfigApplyReboot nv req sk)))"
proof -
  assume "nvs_ok nv" "sketch_ok nv sk"
  then have "sketch_ok nv (snd (handleApiApConfigSet nv req sk))" by (rule ap_set_ok)
  then show ?thesis by (auto simp: handleApiApConfigApplyReboot_def split: prod.splits bool.splits)
qed

lemma pairing_ok [simp]: "sketch_ok nv (snd (handleApiPairingOn now sk)) = sketch_ok nv sk"
  "sketch_ok nv (snd (handleApiPairingOff sk)) = sketch_ok nv sk"
  by (simp_all add: handleApiPairingOn_def handleApiPairingOff_def sketch_ok_def ap_ok_def)

lemma scan_ok [simp]: "sketch_ok nv (snd (setBtScanActive b sk)) = sketch_ok nv sk"
  "sk_rc (snd (setBtScanActive b sk)) = sk_rc sk"
  by (simp_all add: setBtScanActive_def sketch_ok_def ap_ok_def)

lemma connect_ok: "sketch_ok nv sk \<Longrightarrow> sketch_ok nv (snd (onConnectedController now old i ctl sk))"
  by (simp add: onConnectedController_def Let_def) (simp add: sketch_ok_def ap_ok_def sk_rc_def)

lemma disconnect_ok: "sketch_ok nv sk \<Longrightarrow> sketch_ok nv (onDisconnectedController i sk)"
  using failsafe_all_rc [of "sk_rc sk"] by (simp add: onDisconnectedController_def sketch_ok_def ap_ok_def)

lemma toggle_ok [simp]: "sketch_ok nv (sk\<lparr>sk_toggle_at := t\<rparr>) = sketch_ok nv sk"
  by (simp add: sketch_ok_def ap_ok_def)

lemma scheduler_cases:
  "snd (updateBtScanScheduler now linked sk) = expire_pairing now sk \<or>
   (\<exists>b t. snd (updateBtScanScheduler now linked sk) = (snd (setBtScanActive b (expire_pairing now sk)))\<lparr>sk_toggle_at := t\<rparr>)"
  unfolding updateBtScanScheduler_def Let_def by (simp add: case_prod_beta) blast

lemma scheduler_ok: "sketch_ok nv (snd (updateBtScanScheduler now linked sk)) = sketch_ok nv sk"
proof -
  have "sketch_ok nv (expire_pairing now sk) = sketch_ok nv sk" by (simp add: expire_pairing_def sketch_ok_def ap_ok_def)
  with scheduler_cases [of now linked sk] show ?thesis by auto
qed

lemma turn_ok: "sketch_ok nv sk \<Longrightarrow> sketch_ok nv (snd (snd (loop_turn powf scan_ms now ms pad sk)))"
proof -
  assume sk: "sketch_ok nv sk"
  obtain calls sk1 where u: "updateBtScanScheduler scan_ms (connected_ptr pad) sk = (calls, sk1)" by fastforce
  have sk1: "sketch_ok nv sk1" using scheduler_ok [of nv scan_ms "connected_ptr pad" sk] sk u by simp
  obtain r ct where t: "processControlTick powf ms pad now kSignalTimeoutMs (sk_control sk1) = (r, ct)" by fastforce
  have "rc_ok (ct_rc ct)" using tick_rc [of "sk_control sk1" powf ms pad now kSignalTimeoutMs] rc_of_ok [OF sk1] t
    by (simp add: sk_rc_def)
  with sk1 u t show ?thesis by (simp add: loop_turn_def sketch_ok_def ap_ok_def)
qed

lemma event_ok:
  assumes nv: "nvs_ok nv" and sk: "sketch_ok nv sk"
  shows "sketch_ok nv (handle_event bd nv powf e sk)"
  by (cases e) (simp_all only: handle_event.simps pairing_ok virtual_add_ok [OF sk] virtual_update_ok [OF sk] virtual_delete_ok [OF sk]
      output_add_ok [OF sk] output_update_ok [OF sk] output_delete_ok [OF sk] preset_apply_ok [OF nv sk] set_default_ok [OF nv sk]
      create_ok [OF nv sk] save_current_ok [OF nv sk] revert_ok [OF nv sk] model_delete_ok [OF nv sk] ap_set_ok [OF nv sk]
      ap_reboot_ok [OF nv sk] connect_ok [OF sk] disconnect_ok [OF sk] turn_ok [OF sk] sk)

interpretation firmware: guarded_machine "\<lambda>e sk. Some (handle_event bd nv powf e sk)" "\<lambda>_ _. True"
    "\<lambda>sk. nvs_ok nv \<and> sketch_ok nv sk" for bd nv powf
  by unfold_locales (simp add: event_ok)

lemma run_total: "run_steps (\<lambda>e s. Some (f e s)) es s = Some (fold f es s)" "admissible (\<lambda>e s. Some (f e s)) (\<lambda>_ _. True) es s"
  by (induction es arbitrary: s) simp_all

lemma firmware_run: "nvs_ok nv \<Longrightarrow> sketch_ok nv sk \<Longrightarrow> sketch_ok nv (fold (handle_event bd nv powf) events sk)"
  using firmware.run_law [of nv sk bd powf events] by (simp add: run_total)

section \<open>Start-up\<close>

lemma rc_boot_typed: "rc_ok rc_boot"
proof -
  have "rc_shape rc_boot" by (rule rc_boot_ok)
  moreover have "wf_config rc_boot" by (simp add: wf_config_def rc_boot_def)
  ultimately show ?thesis by (simp add: rc_ok_def rc_boot_def pulse_ok_def)
qed

lemma boot_name_valid: "valid_name (loadBootModelName nv f)"
  by (auto simp: loadBootModelName_def Let_def builtin_valid sanitize_valid split: option.split stored.split)

lemma ap_loaded: "loadApSsid nv f \<noteq> []" "length (loadApSsid nv f) \<le> 31" "isValidApPassword (loadApPassword nv f)"
  by (auto simp: loadApSsid_def loadApPassword_def ssid_ok kDefaultApSsid_def kDefaultApPassword_def isValidApPassword_def Let_def
      split: option.split)

definition before_model :: "'f nvs \<Rightarrow> u32 \<Rightarrow> 'f \<Rightarrow> 'f sketch" where
  "before_model nv now f = (sketch_boot f)\<lparr>sk_ssid := loadApSsid nv f, sk_password := loadApPassword nv f,
     sk_toggle_at := now + 5000, sk_boot := loadBootModelName nv f\<rparr>"

lemma before_model_ok: "flash_shaped nv f \<Longrightarrow> sketch_ok nv (before_model nv now f)"
  by (simp add: sketch_ok_def ap_ok_def before_model_def sketch_boot_def sk_rc_def rc_boot_typed boot_name_valid ap_loaded
      builtin_valid)

lemma setup_before: "sketch_setup bd nv now f =
    (let sk = start_model bd nv (before_model nv now f) in set_rc (applyFailsafeAllOutputs (sk_rc sk)) sk)"
  by (simp add: sketch_setup_def before_model_def Let_def)

lemma sketch_setup_ok: "nvs_ok nv \<Longrightarrow> flash_shaped nv f \<Longrightarrow> sketch_ok nv (sketch_setup bd nv now f)"
  using start_model_ok [of nv "before_model nv now f" bd] before_model_ok [of nv f now]
  by (simp add: setup_before Let_def set_rc_ok failsafe_all_rc rc_of_ok)

text \<open>
  C1: The state of the firmware stays well typed. From start-up on any flash that holds structures of
  the right size, after any sequence of requests with any arguments, controller callbacks and turns
  of the loop: every virtual input and output has settings within their ranges and sources that
  exist, every servo pulse is between 1000 and 2000 microseconds or never given, every signal in
  [-1, 1], the model names are valid names, and the access point has a name and a usable password.
\<close>

theorem firmware_state_typed:
  assumes "nvs_ok nv" "flash_shaped nv f"
    and sk: "sk = fold (handle_event bd nv powf) events (sketch_setup bd nv now f)"
  shows "rc_shape (sk_rc sk) \<and> wf_config (sk_rc sk) \<and> (\<forall>sv \<in> set (rc_servos (sk_rc sk)). pulse_ok sv) \<and>
    (\<forall>v \<in> set (rc_output (sk_rc sk)). \<bar>v\<bar> \<le> 1) \<and> valid_name (sk_current sk) \<and> valid_name (sk_boot sk) \<and>
    sk_ssid sk \<noteq> [] \<and> length (sk_ssid sk) \<le> 31 \<and> isValidApPassword (sk_password sk)"
  using firmware_run [OF assms(1) sketch_setup_ok [OF assms(1,2)]] by (simp add: sk sketch_ok_def ap_ok_def rc_ok_def)

lemma list_nvs_ok: "nvs_ok list_nvs" "flash_shaped list_nvs []"
  using list_nvs_reliable by (simp_all add: nvs_reliable_def flash_shaped_def list_nvs_def)

definition any_request :: request where
  "any_request = [''name'' \<mapsto> ''Horn'', ''pin'' \<mapsto> ''5'', ''type'' \<mapsto> ''1'', ''deadzone'' \<mapsto> ''-7'', ''source_a'' \<mapsto> ''99'']"

theorem firmware_state_typed_witness:
  "wf_config (sk_rc (fold (handle_event demo_board list_nvs (\<lambda>a p. a)) [Virtual_Add any_request, Output_Add any_request, Model_Revert]
     (sketch_setup demo_board list_nvs 7 [])))"
  using firmware_state_typed [OF list_nvs_ok refl] by blast

text \<open>
  C2: Start-up is safe whatever the flash holds. After \<open>setup\<close> every used output has a pin of its own
  and is at its failsafe, the scan is off and nothing is unsaved. The model in force is the one
  stored as boot model, or the car when that cannot be loaded; on a board that fits it, the inputs
  and outputs are exactly those of the model.
\<close>

theorem setup_starts_safe:
  assumes "nvs_ok nv" "flash_shaped nv f"
    and sk: "sk = sketch_setup bd nv now f"
    and loaded: "(name, cfg) = (case loadAnyPreset nv (loadBootModelName nv f) f of
       Inr c \<Rightarrow> (loadBootModelName nv f, c) | Inl e \<Rightarrow> (kPresetRcCar, buildBuiltinPresetRcCar))"
  shows "hardware_ok bd (sk_rc sk) \<and> at_failsafe (sk_rc sk) \<and> sk_current sk = name \<and> sk_boot sk = name \<and>
    \<not> sk_dirty sk \<and> \<not> sk_scan sk \<and> \<not> sk_pairing sk \<and> sk_gamepad sk = None \<and>
    (fits_board bd cfg \<and> attaches_always bd \<longrightarrow>
       rc_inputs (sk_rc sk) = map load_input (cf_inputs cfg) \<and> rc_outputs (sk_rc sk) = map loaded_channel (cf_channels cfg))"
proof -
  let ?b = "before_model nv now f"
  have rc: "sk_rc ?b = rc_boot" "sk_flash ?b = f" "sk_boot ?b = loadBootModelName nv f"
    by (simp_all add: before_model_def sketch_boot_def sk_rc_def)
  obtain sk1 where b: "boot_config nv ?b = (cfg, sk1)" and sk1: "sk1 = ?b\<lparr>sk_boot := name, sk_current := name\<rparr>"
    using loaded rc by (cases "loadAnyPreset nv (loadBootModelName nv f) f")
      (auto simp: boot_config_def before_model_def)
  have shape: "cf_shape cfg" using boot_config_ok [OF before_model_ok [OF assms(2)] b] by simp
  obtain e s where a: "applyPersistedConfig bd cfg rc_boot = (e, s)" by fastforce
  have s: "hardware_ok bd s \<and> at_failsafe s \<and> rc_shape s"
  proof (cases e)
    case None
    with apply_success_facts [OF _ rc_boot_ok shape, of bd s] a show ?thesis by simp
  next
    case (Some x)
    have "\<not> oc_used (out_at s j)" if "j < kMaxOutputChannels" for j
    proof -
      have "re_pinned j rc_boot s" using apply_failure_facts [OF _ rc_boot_ok(1) shape, of bd x s] a Some that by simp
      then show ?thesis using that by (auto simp: re_pinned_def rc_boot_def out_at_def OutputChannelConfig_def)
    qed
    moreover have "rc_shape s" using apply_rc [OF rc_boot_typed shape, of bd] a by (simp add: rc_ok_def)
    ultimately show ?thesis by (simp add: hardware_ok_def at_failsafe_def)
  qed
  obtain g where g: "snd (apply_and_store bd nv cfg sk1) = (set_rc s sk1)\<lparr>sk_flash := g\<rparr>"
  proof -
    have "applyPersistedConfig bd cfg (sk_rc sk1) = (e, s)" using a rc(1) by (simp add: sk1)
    then obtain f' where "apply_and_store bd nv cfg sk1 = (e, (set_rc s sk1)\<lparr>sk_flash := f'\<rparr>)"
      by (rule apply_store_state [where nv = nv])
    with that show thesis by simp
  qed
  then have k: "sk = set_rc (applyFailsafeAllOutputs s) ((set_rc s sk1)\<lparr>sk_flash := g, sk_dirty := False\<rparr>)"
    by (simp add: sk setup_before start_model_def b Let_def)
  have sk': "sk_rc sk = applyFailsafeAllOutputs s" "sk_current sk = name" "sk_boot sk = name" "\<not> sk_dirty sk" "\<not> sk_scan sk"
    "\<not> sk_pairing sk" "sk_gamepad sk = None"
    by (simp_all add: k sk1 before_model_def sketch_boot_def)
  have "rc_inputs s = map load_input (cf_inputs cfg) \<and> rc_outputs s = map loaded_channel (cf_channels cfg)"
    if "fits_board bd cfg" "attaches_always bd"
    using apply_fits [OF that rc_boot_ok(1)] a by auto
  with sk' s show ?thesis by (simp add: apply_failsafe_ok)
qed

theorem setup_starts_safe_witness:
  "sk_current (sketch_setup \<lparr>bd_has_pwm = (\<lambda>_. True), bd_attaches = (\<lambda>_ _ _. True)\<rparr> list_nvs 9 []) = kPresetRcCar \<and>
   rc_outputs (sk_rc (sketch_setup \<lparr>bd_has_pwm = (\<lambda>_. True), bd_attaches = (\<lambda>_ _ _. True)\<rparr> list_nvs 9 [])) =
     map loaded_channel (cf_channels buildBuiltinPresetRcCar)"
proof -
  let ?bd = "\<lparr>bd_has_pwm = (\<lambda>_. True), bd_attaches = (\<lambda>_ _ _. True)\<rparr>"
  have name: "loadBootModelName list_nvs [] = kPresetRcCar" by code_simp
  have l: "(kPresetRcCar, buildBuiltinPresetRcCar) = (case loadAnyPreset list_nvs (loadBootModelName list_nvs []) [] of
      Inr c \<Rightarrow> (loadBootModelName list_nvs [], c) | Inl e \<Rightarrow> (kPresetRcCar, buildBuiltinPresetRcCar))"
    by (simp add: name loadAnyPreset_def)
  have "fits_board ?bd buildBuiltinPresetRcCar" by (rule builtin_fits) simp_all
  moreover have "attaches_always ?bd" by (simp add: attaches_always_def)
  ultimately show ?thesis using setup_starts_safe [where bd = ?bd and now = 9, OF list_nvs_ok refl l] by blast
qed

end
