(* ===== verification/Request_Effects.thy ===== *)
theory Request_Effects
  imports Firmware_State
begin

text \<open>
  What the requests of the web interface do to the outputs and to the models: the settings and pins
  after a change of an output, and three ways in which a request that reports success does not do
  what its answer says.
\<close>

section \<open>Rebuilding the hardware, whatever the answer\<close>

lemma setup_all_re_pinned:
  "setup_all bd is s = (e, s') \<Longrightarrow> \<forall>i \<in> set is. i < kMaxOutputChannels \<Longrightarrow> rc_shape s \<Longrightarrow> rc_shape s' \<and> (\<forall>j. re_pinned j s s')"
proof (induction "is" arbitrary: s)
  case Nil
  then show ?case by (auto intro: re_pinned_refl)
next
  case (Cons i "is")
  show ?case
  proof (cases "oc_used (out_at s i)")
    case False
    with Cons show ?thesis by simp
  next
    case True
    obtain x s1 where r: "setupOutputHardware bd i s = (x, s1)" by fastforce
    have o: "only_channel i s s1" using r by (rule only_setup)
    have sh: "rc_shape s1" using o Cons.prems(3) by (rule shape_only)
    have first: "re_pinned j s s1" for j
    proof (cases "j = i")
      case True
      then show ?thesis using setup_re_pinned [OF r Cons.prems(3)] Cons.prems(2) by simp
    next
      case False
      then show ?thesis using o by (intro re_pinned_refl) (simp add: only_channel_def out_at_def)
    qed
    show ?thesis
    proof (cases x)
      case None
      with Cons.IH [of s1] Cons.prems r True sh first show ?thesis by (auto intro: re_pinned_trans)
    next
      case (Some y)
      with Cons.prems(1) r True sh first show ?thesis by simp
    qed
  qed
qed

lemma rebuild_re_pinned:
  assumes "rebuildOutputHardware bd s = (e, s')" "rc_shape s"
  shows "rc_shape s' \<and> rc_inputs s' = rc_inputs s \<and> (\<forall>j. re_pinned j s s')"
proof -
  let ?s = "fold release_used [0..<kMaxOutputChannels] s"
  have f: "rc_outputs ?s = rc_outputs s" "rc_shape ?s" "rc_inputs ?s = rc_inputs s"
    using fold_release [of "[0..<kMaxOutputChannels]" s] assms(2) by simp_all
  have r: "setup_all bd [0..<kMaxOutputChannels] ?s = (e, s')"
    using assms by (simp add: rebuildOutputHardware_def rc_shape_def Let_def)
  with setup_all_re_pinned [OF r _ f(2)] setup_all_inputs [OF r] f(1,3) show ?thesis
    by (simp add: re_pinned_def out_at_def)
qed

lemma out_set_other [simp]: "j \<noteq> i \<Longrightarrow> out_at (set_out i c s) j = out_at s j"
  by (simp add: out_at_def set_out_def)

lemma set_out_facts [simp]: "rc_shape (set_out i c s) = rc_shape s" "rc_inputs (set_out i c s) = rc_inputs s"
  by (simp_all add: set_out_def rc_shape_def)

text \<open>A channel that is tried, and what remains when it fails.\<close>

lemma try_success:
  assumes "try_output bd i draft m sk = ((True, t), sk')" "rc_shape (sk_rc sk)" "i < kMaxOutputChannels"
  shows "t = m \<and> hardware_ok bd (sk_rc sk') \<and> at_failsafe (sk_rc sk') \<and> rc_shape (sk_rc sk') \<and> sk_dirty sk' \<and>
    rc_inputs (sk_rc sk') = rc_inputs (sk_rc sk) \<and> re_pinned i (set_out i draft (sk_rc sk)) (sk_rc sk') \<and>
    (\<forall>j. j \<noteq> i \<longrightarrow> re_pinned j (sk_rc sk) (sk_rc sk'))"
proof -
  let ?s = "set_out i draft (sk_rc sk)"
  obtain e s where r: "rebuildOutputHardware bd ?s = (e, s)" by fastforce
  with assms(1) have e: "e = None" "sk' = (set_rc s sk)\<lparr>sk_dirty := True\<rparr>" "t = m"
    by (auto simp: try_output_def Let_def split: option.splits)
  have ok: "hardware_ok bd s \<and> at_failsafe s \<and> rc_shape s \<and> (\<forall>j. re_pinned j ?s s)"
    using rebuild_ok [of bd ?s s] r e(1) assms(2) by simp
  moreover have "rc_inputs s = rc_inputs (sk_rc sk)" using rebuild_re_pinned [OF r] assms(2) by simp
  moreover have "re_pinned j (sk_rc sk) s" if "j \<noteq> i" for j
  proof -
    have "re_pinned j ?s s" using ok by blast
    with that show ?thesis by (simp add: re_pinned_def)
  qed
  ultimately show ?thesis using e by simp
qed

lemma try_failure:
  assumes "try_output bd i draft m sk = ((False, t), sk')" "rc_shape (sk_rc sk)" "i < kMaxOutputChannels"
  shows "rc_inputs (sk_rc sk') = rc_inputs (sk_rc sk) \<and> (\<forall>j. re_pinned j (sk_rc sk) (sk_rc sk')) \<and> sk_dirty sk' = sk_dirty sk"
proof -
  let ?s = "set_out i draft (sk_rc sk)" and ?c = "out_at (sk_rc sk) i"
  obtain e s where r: "rebuildOutputHardware bd ?s = (e, s)" by fastforce
  obtain e2 s2 where r2: "rebuildOutputHardware bd (set_out i ?c s) = (e2, s2)" by fastforce
  from assms(1) r r2 have sk': "sk' = set_rc s2 sk" by (auto simp: try_output_def Let_def split: option.splits)
  have one: "rc_shape s" "rc_inputs s = rc_inputs (sk_rc sk)" "re_pinned j ?s s" for j
    using rebuild_re_pinned [OF r] assms(2) by simp_all
  have two: "rc_inputs s2 = rc_inputs s" "re_pinned j (set_out i ?c s) s2" for j
    using rebuild_re_pinned [OF r2] one(1) by simp_all
  have "re_pinned j (sk_rc sk) s2" for j
  proof (cases "j = i")
    case True
    with two(2) [of j] one(1) assms(3) show ?thesis by (simp add: re_pinned_def)
  next
    case False
    have "re_pinned j (sk_rc sk) s" using one(3) [of j] False by (simp add: re_pinned_def)
    moreover have "re_pinned j s s2" using two(2) [of j] False by (simp add: re_pinned_def)
    ultimately show ?thesis by (rule re_pinned_trans)
  qed
  with one two show ?thesis by (simp add: sk')
qed

definition same_wiring :: "output_channel \<Rightarrow> output_channel \<Rightarrow> bool" where
  "same_wiring b c \<longleftrightarrow> oc_type c = oc_type b \<and> oc_mix c = oc_mix b \<and>
     (oc_source_a c, oc_source_b c, oc_source_c c) = (oc_source_a b, oc_source_b b, oc_source_c b) \<and>
     (oc_weight_a c, oc_weight_b c, oc_weight_c c) = (oc_weight_a b, oc_weight_b b, oc_weight_c b) \<and>
     (oc_offset_a c, oc_offset_b c, oc_offset_c c) = (oc_offset_a b, oc_offset_b b, oc_offset_c b) \<and>
     (oc_type b = Channel_Switch \<longrightarrow> oc_pin c = oc_pin b)"

text \<open>
  C20: A request that changes an output either takes effect or changes nothing. After a success the
  output has the new settings up to the pin of a servo, every used output has a pin of its own and is
  at its failsafe, inputs are untouched and the other outputs keep their settings up to the pin of a
  servo; without \<open>allow_rewire\<close> the wiring (type, sources, mix, weights, offsets) stays what it was.
  After a refusal inputs and outputs are those before the request, up to the pin of a servo.
\<close>

theorem output_update_answer:
  assumes "handleApiOutputUpdate bd req sk = ((ok, message), sk')" "rc_shape (sk_rc sk)"
  shows "rc_inputs (sk_rc sk') = rc_inputs (sk_rc sk) \<and>
    (if ok then \<exists>i < kMaxOutputChannels. output_index req sk = Some i \<and>
        hardware_ok bd (sk_rc sk') \<and> at_failsafe (sk_rc sk') \<and> sk_dirty sk' \<and>
        (let old = out_at (sk_rc sk) i; new = out_at (sk_rc sk') i; asked = parseOutputFromRequest req (int i) old in
           oc_used new \<and> oc_name new = oc_name asked \<and> oc_inverted new = oc_inverted asked \<and>
           oc_threshold new = oc_threshold asked \<and> oc_failsafe new = oc_failsafe asked \<and>
           same_wiring (if parseBoolArg req ''allow_rewire'' False then asked else old) new) \<and>
        (\<forall>j. j \<noteq> i \<longrightarrow> re_pinned j (sk_rc sk) (sk_rc sk'))
     else \<forall>j. re_pinned j (sk_rc sk) (sk_rc sk'))"
proof (cases "output_index req sk")
  case None
  with assms(1) show ?thesis by (auto simp: handleApiOutputUpdate_def intro: re_pinned_refl)
next
  case (Some i)
  define old where "old = out_at (sk_rc sk) i"
  define asked where "asked = parseOutputFromRequest req (int i) old"
  define draft where "draft = (if parseBoolArg req ''allow_rewire'' False then asked\<lparr>oc_used := True\<rparr>
    else keep_wiring old (asked\<lparr>oc_used := True\<rparr>))"
  have i: "i < kMaxOutputChannels" using output_index_less [OF Some] by simp
  have t: "try_output bd i draft ''Output updated'' sk = ((ok, message), sk')"
    using assms(1) Some by (simp add: handleApiOutputUpdate_def Let_def draft_def asked_def old_def split: if_splits)
  show ?thesis
  proof (cases ok)
    case False
    with t try_failure [of bd i draft "''Output updated''" sk message sk', OF _ assms(2) i] show ?thesis by simp
  next
    case True
    have s: "hardware_ok bd (sk_rc sk') \<and> at_failsafe (sk_rc sk') \<and> sk_dirty sk' \<and> rc_inputs (sk_rc sk') = rc_inputs (sk_rc sk) \<and>
        re_pinned i (set_out i draft (sk_rc sk)) (sk_rc sk') \<and> (\<forall>j. j \<noteq> i \<longrightarrow> re_pinned j (sk_rc sk) (sk_rc sk'))"
      using try_success [of bd i draft "''Output updated''" sk message sk', OF _ assms(2) i] t True by simp
    from s obtain p where p: "out_at (sk_rc sk') i = draft\<lparr>oc_pin := p\<rparr>" "oc_type draft = Channel_Switch \<longrightarrow> p = oc_pin draft"
      using i assms(2) by (auto simp: re_pinned_def)
    have "same_wiring (if parseBoolArg req ''allow_rewire'' False then asked else old) (draft\<lparr>oc_pin := p\<rparr>)"
      using p(2) by (simp add: draft_def same_wiring_def keep_wiring_def)
    moreover have "oc_used draft \<and> oc_name draft = oc_name asked \<and> oc_inverted draft = oc_inverted asked \<and>
        oc_threshold draft = oc_threshold asked \<and> oc_failsafe draft = oc_failsafe asked"
      by (simp add: draft_def keep_wiring_def)
    ultimately show ?thesis using s i Some True p(1) by (simp add: asked_def old_def Let_def split: if_splits)
  qed
qed

text \<open>The state with the demo outputs: a servo on pin 13 and a switch on pin 5.\<close>

definition demo_sketch :: "(string \<times> stored) list sketch" where
  "demo_sketch = set_rc demo_drive (sketch_boot [])"

definition invert_request :: request where
  "invert_request = [''index'' \<mapsto> ''0'', ''inverted'' \<mapsto> ''on'', ''pin'' \<mapsto> ''27'']"

theorem output_update_answer_witness:
  "oc_inverted (out_at (sk_rc (snd (handleApiOutputUpdate demo_board invert_request demo_sketch))) 0) \<and>
   rc_inputs (sk_rc (snd (handleApiOutputUpdate demo_board invert_request demo_sketch))) = rc_inputs demo_drive"
proof -
  have sh: "rc_shape (sk_rc demo_sketch)" using demo_drive_ok by (simp add: demo_sketch_def)
  obtain ok m sk' where h: "handleApiOutputUpdate demo_board invert_request demo_sketch = ((ok, m), sk')" by (metis surj_pair)
  have ok: "fst (fst (handleApiOutputUpdate demo_board invert_request demo_sketch))" by code_simp
  have idx: "output_index invert_request demo_sketch = Some 0" by code_simp
  have inv: "oc_inverted (parseOutputFromRequest invert_request 0 c)" for c
    by (simp add: parseOutputFromRequest_def invert_request_def parseBoolArg_def Let_def)
  show ?thesis using output_update_answer [OF h sh] ok idx inv h by (simp add: Let_def demo_sketch_def)
qed

section \<open>A deleted output\<close>

lemma release_unused:
  assumes "\<not> oc_used (out_at s i)"
  shows "rc_servos (release_used j s) ! i = rc_servos s ! i" "rc_attached (release_used j s) ! i = rc_attached s ! i"
  using assms by (cases "j = i"; simp add: release_used_def releaseOutputHardware_def detach_def)+

lemma fold_release_unused:
  assumes "\<not> oc_used (out_at s i)"
  shows "rc_servos (fold release_used js s) ! i = rc_servos s ! i \<and> rc_attached (fold release_used js s) ! i = rc_attached s ! i"
  using assms by (induction js arbitrary: s) (simp_all add: release_unused)

lemma setup_all_unused:
  "setup_all bd js s = (e, s') \<Longrightarrow> \<not> oc_used (out_at s i) \<Longrightarrow>
     out_at s' i = out_at s i \<and> rc_servos s' ! i = rc_servos s ! i \<and> rc_attached s' ! i = rc_attached s ! i"
proof (induction js arbitrary: s)
  case (Cons j js)
  show ?case
  proof (cases "oc_used (out_at s j)")
    case True
    with Cons.prems(2) have "i \<noteq> j" by auto
    obtain x s1 where r: "setupOutputHardware bd j s = (x, s1)" by fastforce
    have "out_at s1 i = out_at s i \<and> rc_servos s1 ! i = rc_servos s ! i \<and> rc_attached s1 ! i = rc_attached s ! i"
      using only_setup [OF r] \<open>i \<noteq> j\<close> by (simp add: only_channel_def out_at_def)
    with Cons.IH [of s1] Cons.prems True r show ?thesis by (cases x) auto
  qed (use Cons in simp)
qed simp

text \<open>Nothing in the loop touches the servo of an unused channel.\<close>

lemma failsafe_unused: "\<not> oc_used (out_at s i) \<Longrightarrow> rc_servos (writeFailsafeForOutput j s) ! i = rc_servos s ! i"
  using only_failsafe [of j s] by (cases "j = i") (simp_all add: only_channel_def writeFailsafeForOutput_def)

lemma failsafe_all_unused: "\<not> oc_used (out_at s i) \<Longrightarrow>
    rc_servos (applyFailsafeAllOutputs s) ! i = rc_servos s ! i \<and> out_at (applyFailsafeAllOutputs s) i = out_at s i"
proof -
  assume "\<not> oc_used (out_at s i)"
  then have "rc_servos (fold writeFailsafeForOutput js s) ! i = rc_servos s ! i \<and> out_at (fold writeFailsafeForOutput js s) i = out_at s i"
    for js by (induction js arbitrary: s) (simp_all add: failsafe_unused)
  then show ?thesis by (simp add: applyFailsafeAllOutputs_def)
qed

lemma drive_unused: "\<not> oc_used (out_at s i) \<Longrightarrow> rc_servos (drive_output j s) ! i = rc_servos s ! i"
  using drive_only [of j s] by (cases "j = i") (simp_all add: only_channel_def drive_output_def set_runtime_def)

lemma drive_all_unused: "\<not> oc_used (out_at s i) \<Longrightarrow>
    rc_servos (fold drive_output js s) ! i = rc_servos s ! i \<and> out_at (fold drive_output js s) i = out_at s i"
  by (induction js arbitrary: s) (simp_all add: drive_unused)

lemma tick_unused:
  assumes "\<not> oc_used (out_at (ct_rc ct) i)"
  shows "rc_servos (ct_rc (snd (processControlTick powf ms pad now timeout ct))) ! i = rc_servos (ct_rc ct) ! i \<and>
    out_at (ct_rc (snd (processControlTick powf ms pad now timeout ct))) i = out_at (ct_rc ct) i"
proof -
  obtain r s1 where v: "evaluateVirtualRuntime powf ms pad (ct_rc ct) = (r, s1)" by fastforce
  obtain r0 s0 where v0: "evaluateVirtualRuntime powf ms None (ct_rc ct) = (r0, s0)" by fastforce
  have "out_at s1 i = out_at (ct_rc ct) i" "out_at s0 i = out_at (ct_rc ct) i"
    using virtual_facts [OF v] virtual_facts [OF v0] by (simp_all add: out_at_def)
  then show ?thesis using assms failsafe_all_unused [of s0 i] failsafe_all_unused [of "ct_rc ct" i] drive_all_unused [of s1 i]
      virtual_facts(4) [OF v] virtual_facts(4) [OF v0] v v0
    by (simp add: processControlTick_def processGamepadToOutputs_def Let_def)
qed

lemma ticks_unused:
  "\<not> oc_used (out_at (ct_rc ct) i) \<Longrightarrow> rc_servos (ct_rc (ticks powf timeout ts ct)) ! i = rc_servos (ct_rc ct) ! i"
  by (induction ts arbitrary: ct) (simp_all add: tick_unused)

text \<open>
  C21: A deleted output keeps driving. The delete request resets the settings of a channel before the
  hardware is rebuilt, and the rebuild releases used channels only: after the answer that the output
  is deleted its servo is still attached, with the last pulse it got, and no iteration of the control
  loop ever changes that pulse again, be it for new data, a time-out or a lost controller.
\<close>

theorem deleted_output_keeps_driving:
  assumes "handleApiOutputDelete bd req sk = ((True, message), sk')" "output_index req sk = Some i"
    "rc_shape (sk_rc sk)" "rc_attached (sk_rc sk) ! i"
  shows "out_at (sk_rc sk') i = OutputChannelConfig \<and> rc_attached (sk_rc sk') ! i \<and>
    rc_servos (sk_rc sk') ! i = rc_servos (sk_rc sk) ! i \<and>
    rc_servos (applyFailsafeAllOutputs (sk_rc sk')) ! i = rc_servos (sk_rc sk) ! i \<and>
    (\<forall>ts. rc_servos (ct_rc (ticks powf timeout ts (sk_control sk'))) ! i = rc_servos (sk_rc sk) ! i)"
proof -
  let ?s = "set_out i OutputChannelConfig (sk_rc sk)"
  have i: "i < kMaxOutputChannels" using output_index_less [OF assms(2)] by simp
  have at: "out_at ?s i = OutputChannelConfig" using i assms(3) by simp
  then have un: "\<not> oc_used (out_at ?s i)" by (simp add: OutputChannelConfig_def)
  obtain s where r: "rebuildOutputHardware bd ?s = (None, s)" and sk': "sk' = (set_rc s sk)\<lparr>sk_dirty := True\<rparr>"
    using assms(1,2) by (auto simp: handleApiOutputDelete_def try_output_def Let_def split: prod.splits option.splits)
  let ?t = "fold release_used [0..<length (rc_outputs ?s)] ?s"
  have t: "rc_outputs ?t = rc_outputs ?s" "rc_servos ?t ! i = rc_servos ?s ! i \<and> rc_attached ?t ! i = rc_attached ?s ! i"
    using fold_release [of "[0..<length (rc_outputs ?s)]" ?s] fold_release_unused [OF un] assms(3)
    by (simp_all add: rc_shape_def set_out_def)
  have ut: "\<not> oc_used (out_at ?t i)" using un t(1) by (simp add: out_at_def)
  have "setup_all bd [0..<length (rc_outputs ?s)] ?t = (None, s)" using r by (simp add: rebuildOutputHardware_def Let_def)
  from setup_all_unused [OF this ut] t have s: "out_at s i = out_at ?s i" "rc_servos s ! i = rc_servos (sk_rc sk) ! i"
    "rc_attached s ! i = rc_attached (sk_rc sk) ! i"
    by (simp_all add: out_at_def set_out_def)
  have us: "\<not> oc_used (out_at s i)" using s(1) un by simp
  have ct: "ct_rc (sk_control sk') = s" by (simp add: sk' set_rc_def)
  show ?thesis
    using s assms(4) at failsafe_all_unused [OF us] ticks_unused [of "sk_control sk'" i] us ct by (simp add: sk')
qed

definition delete_request :: request where
  "delete_request = [''index'' \<mapsto> ''0'']"

theorem deleted_output_keeps_driving_witness:
  "rc_attached (sk_rc (snd (handleApiOutputDelete demo_board delete_request demo_sketch))) ! 0 \<and>
   out_at (sk_rc (snd (handleApiOutputDelete demo_board delete_request demo_sketch))) 0 = OutputChannelConfig"
proof -
  have sh: "rc_shape (sk_rc demo_sketch)" using demo_drive_ok by (simp add: demo_sketch_def)
  obtain m sk' where h: "handleApiOutputDelete demo_board delete_request demo_sketch = ((True, m), sk')"
  proof -
    have "fst (fst (handleApiOutputDelete demo_board delete_request demo_sketch))" by code_simp
    with that show thesis by (metis (full_types) prod.collapse)
  qed
  have "output_index delete_request demo_sketch = Some 0" "rc_attached (sk_rc demo_sketch) ! 0" by code_simp+
  from deleted_output_keeps_driving [OF h this(1) sh this(2)] h show ?thesis by simp
qed

section \<open>A new output on a used pin\<close>

text \<open>
  A new output can move a servo. Asked for a switch on the pin of a servo of a lower channel, the
  request is answered as a success; the rebuild sets up the lower channel first, finds its pin claimed
  by the new switch, and moves the servo to another pin, while the switch takes the pin over.
\<close>

definition switch_request :: "string \<Rightarrow> request" where
  "switch_request pin = [''type'' \<mapsto> ''1'', ''pin'' \<mapsto> pin, ''name'' \<mapsto> ''Light'']"

theorem new_switch_moves_servo:
  "let s = sk_rc demo_sketch; (answer, sk') = handleApiOutputAdd demo_board (switch_request ''13'') demo_sketch; s' = sk_rc sk' in
     oc_type (out_at s 0) = Channel_Pwm \<and> sv_pin (rc_servos s ! 0) = Some 13 \<and> answer = (True, ''Output added'') \<and>
     sv_pin (rc_servos s' ! 0) = Some 12 \<and> oc_pin (out_at s' 0) = 12 \<and>
     oc_type (out_at s' 2) = Channel_Switch \<and> oc_pin (out_at s' 2) = 13 \<and> rc_gpio s' 13 = Some False"
  by code_simp

section \<open>A model named like a built-in one\<close>

lemma runtime_keeps_store:
  assumes nv: "nvs_ok nv" and st: "store_ok nv f"
  shows "store_ok nv (snd (saveRuntimeConfigToNvs nv s f)) \<and> preset_map nv (snd (saveRuntimeConfigToNvs nv s f)) = preset_map nv f"
proof -
  obtain b f1 where r: "nv_set nv ''cfg'' (Config (exportCurrentConfig s)) f = (b, f1)" by fastforce
  have other: "nv_get nv k (snd (saveRuntimeConfigToNvs nv s f)) = nv_get nv k f" if "k \<noteq> ''cfg''" for k
  proof -
    have "nv_get nv k f1 = nv_get nv k f" using nvs_setD [OF nv r] that by simp
    with nv r show ?thesis by (cases b) (simp_all add: saveRuntimeConfigToNvs_def nvs_ok_def)
  qed
  have "presetBlobKey i \<noteq> ''cfg''" for i by (simp add: presetBlobKey_def)
  then show ?thesis using same_store [OF nv, of "snd (saveRuntimeConfigToNvs nv s f)" f] st other by simp
qed

definition builtin_config :: "string \<Rightarrow> persisted_config" where
  "builtin_config n = (if n = kPresetRcCar then buildBuiltinPresetRcCar
     else if n = kPresetExcavator then buildBuiltinPresetExcavator else buildBuiltinPresetSkidSteer)"

lemma load_builtin: "builtin_name n \<Longrightarrow> loadAnyPreset nv n f = Inr (builtin_config n)"
  by (auto simp: loadAnyPreset_def builtin_name_def builtin_config_def kPresetRcCar_def kPresetExcavator_def kPresetSkidSteer_def)

text \<open>
  A model created under the name of a built-in one is lost at once. The request stores the current
  outputs as a preset of that name and makes it the current model, but every later load of the name
  gives the built-in model: reverting replaces the outputs by it, saving is refused, and so is
  deleting, so that the preset cannot be read or removed through the interface and keeps its slot.
\<close>

theorem shadowed_model:
  assumes nv: "nvs_ok nv" and st: "store_ok nv (sk_flash sk)"
    and n: "n = sanitizePresetName (arg req ''name'')" "builtin_name n" "parseBoolArg req ''from_current'' False"
    and r: "handleApiModelCreate bd nv req sk = ((True, message), sk')"
  shows "sk_current sk' = n \<and> loadUserPreset nv n (sk_flash sk') = Inr (exportCurrentConfig (sk_rc sk)) \<and>
    loadAnyPreset nv n (sk_flash sk') = Inr (builtin_config n) \<and>
    (\<forall>e s. apply_and_store bd nv (builtin_config n) sk' = (e, s) \<longrightarrow> sk_rc (snd (handleApiModelRevert bd nv sk')) = sk_rc s) \<and>
    (\<exists>m. handleApiModelSaveCurrent nv ms sk' = ((False, m), sk')) \<and>
    (\<forall>req'. sanitizePresetName (arg req' ''name'') = n \<longrightarrow> handleApiModelDelete bd nv req' sk' = ((False, ''Readonly preset''), sk'))"
proof -
  let ?cfg = "exportCurrentConfig (sk_rc sk)"
  have c: "create_config nv req sk = Inr ?cfg" using n(3) by (simp add: create_config_def Let_def)
  have ne: "n \<noteq> []" using sanitize_valid [of "arg req ''name''"] n(1) by (simp add: valid_name_def)
  obtain e f where sv: "saveUserPresetBlob nv n (Some ?cfg) (sk_flash sk) = (e, f)" by fastforce
  obtain x sk1 where a: "apply_and_store bd nv ?cfg (sk\<lparr>sk_flash := f\<rparr>) = (x, sk1)" by fastforce
  have ok: "e = None" "x = None" "sk' = sk1\<lparr>sk_current := n, sk_dirty := False\<rparr>"
    using r c ne sv a by (auto simp: handleApiModelCreate_def saveUserPresetFromConfig_def Let_def n(1) [symmetric] split: option.splits)
  have f: "store_ok nv f" "preset_map nv f = (preset_map nv (sk_flash sk))(canonical n \<mapsto> ?cfg)"
    using save_effect [OF nv st sv] ok(1) by simp_all
  obtain s where "sk_flash sk1 = snd (saveRuntimeConfigToNvs nv s f)"
    using a ok(2) by (auto simp: apply_and_store_def split: prod.splits option.splits)
  then have fl: "store_ok nv (sk_flash sk')" "preset_map nv (sk_flash sk') = (preset_map nv (sk_flash sk))(canonical n \<mapsto> ?cfg)"
    using runtime_keeps_store [OF nv f(1), of s] f(2) ok(3) by simp_all
  have "Loaded (loadUserPreset nv n (sk_flash sk')) = Loaded (Inr ?cfg)"
    using load_effect [OF nv fl(1), of n] fl(2) by (simp add: exportCurrentConfig_def)
  moreover have "sk_rc (snd (handleApiModelRevert bd nv sk')) = sk_rc t"
    if "apply_and_store bd nv (builtin_config n) sk' = (y, t)" for y t
    using that ok(3) by (auto simp: handleApiModelRevert_def load_builtin [OF n(2)] split: option.split)
  moreover have "\<exists>m. handleApiModelSaveCurrent nv ms sk' = ((False, m), sk')"
    using n(2) ok(3) by (simp add: handleApiModelSaveCurrent_def)
  moreover have "handleApiModelDelete bd nv req' sk' = ((False, ''Readonly preset''), sk')"
    if "sanitizePresetName (arg req' ''name'') = n" for req'
    using that n(2) by (simp add: handleApiModelDelete_def Let_def)
  ultimately show ?thesis using ok(3) by (simp add: load_builtin [OF n(2)])
qed

definition car_request :: request where
  "car_request = [''name'' \<mapsto> ''car'', ''from_current'' \<mapsto> ''1'']"

theorem shadowed_model_witness:
  "sk_current (snd (handleApiModelCreate demo_board list_nvs car_request demo_sketch)) = ''car'' \<and>
   loadAnyPreset list_nvs ''car'' (sk_flash (snd (handleApiModelCreate demo_board list_nvs car_request demo_sketch))) =
     Inr buildBuiltinPresetRcCar"
proof -
  have st: "store_ok list_nvs (sk_flash demo_sketch)"
    using empty_store [of list_nvs "[]"] list_nvs_ok by (simp add: demo_sketch_def sketch_boot_def list_nvs_def)
  obtain m sk' where h: "handleApiModelCreate demo_board list_nvs car_request demo_sketch = ((True, m), sk')"
  proof -
    have "fst (fst (handleApiModelCreate demo_board list_nvs car_request demo_sketch))" by code_simp
    with that show thesis by (metis (full_types) prod.collapse)
  qed
  have n: "''car'' = sanitizePresetName (arg car_request ''name'')" "builtin_name ''car''"
    "parseBoolArg car_request ''from_current'' False" by code_simp+
  from shadowed_model [OF list_nvs_ok(1) st n h] h show ?thesis by (simp add: builtin_config_def kPresetRcCar_def)
qed

section \<open>A model deleted in another spelling\<close>

text \<open>
  Names of presets are compared without regard to case, the current and the boot model exactly. A
  model deleted under another spelling stays the boot model, and can no longer be loaded.
\<close>

lemma deleted_boot_model_dangles:
  assumes nv: "nvs_reliable nv" and st: "store_ok nv (sk_flash sk)"
    and n: "n = sanitizePresetName (arg req ''name'')" "n \<noteq> sk_boot sk" "n \<noteq> sk_current sk" "equalsIgnoreCase n (sk_boot sk)"
    and boot: "valid_name (sk_boot sk)" "\<not> builtin_name (sk_boot sk)" "sk_boot sk \<noteq> ''rc_car_controller''"
    and h: "handleApiModelDelete bd nv req sk = ((True, message), sk')"
  shows "sk_boot sk' = sk_boot sk \<and> loadAnyPreset nv (sk_boot sk') (sk_flash sk') = Inl Unknown_Preset"
proof -
  obtain e f where d: "deleteUserPreset nv n (sk_flash sk) = (e, f)" by fastforce
  have sk': "e = None" "sk' = sk\<lparr>sk_flash := f\<rparr>"
    using h n(2,3) d by (auto simp: handleApiModelDelete_def Let_def n(1) [symmetric] split: if_splits option.splits)
  have id: "sanitizePresetName n = n" using sanitize_id [OF sanitize_valid] n(1) by simp
  have k: "canonical n = canonical (sk_boot sk)"
    using n(4) id sanitize_id [OF boot(1)] by (simp add: canonical_def equals_key)
  from delete_effect [OF nv st d] sk'(1)
  have "store_ok nv f \<and> preset_map nv f = (preset_map nv (sk_flash sk))(canonical n := None)"
    by (auto split: if_splits)
  then have "Loaded (loadUserPreset nv (sk_boot sk) f) = Loaded (Inl Unknown_Preset)"
    using load_effect [of nv f "sk_boot sk"] nv k by (simp add: nvs_reliable_def)
  with boot sk' show ?thesis by (simp add: loadAnyPreset_def builtin_name_def)
qed

section \<open>A deleted input\<close>

text \<open>Deleting an input takes it out of every output and leaves everything else of the outputs alone.\<close>

definition feeds :: "int \<Rightarrow> output_channel \<Rightarrow> bool" where
  "feeds k c \<longleftrightarrow> k \<in> {oc_source_a c, oc_source_b c, oc_source_c c}"

lemma forget_feeds: "0 \<le> k \<Longrightarrow> oc_used c \<Longrightarrow> \<not> feeds k (forget_source k c)"
  "\<not> feeds k c \<Longrightarrow> forget_source k c = c"
  by (auto simp: feeds_def forget_source_def Let_def)

lemma deleted_input_feeds_nothing:
  assumes "handleApiVirtualDelete req sk = ((True, message), sk')" "rc_shape (sk_rc sk)"
  shows "\<exists>i < kMaxVirtualInputs. input_index req sk = Some i \<and> \<not> vi_used (rc_inputs (sk_rc sk') ! i) \<and>
    (\<forall>j < kMaxOutputChannels. let c = out_at (sk_rc sk) j; c' = out_at (sk_rc sk') j in
       (oc_used c' \<longrightarrow> \<not> feeds (int i) c') \<and> (\<not> feeds (int i) c \<longrightarrow> c' = c))"
proof (cases "input_index req sk")
  case None
  with assms(1) show ?thesis by (simp add: handleApiVirtualDelete_def)
next
  case (Some i)
  have i: "i < kMaxVirtualInputs" using input_index_less [OF Some] by simp
  have sk': "sk_rc sk' = (set_input i VirtualInputConfig (sk_rc sk))\<lparr>rc_outputs := map (forget_source (int i)) (rc_outputs (sk_rc sk))\<rparr>"
    using assms(1) Some by (auto simp: handleApiVirtualDelete_def set_input_def Let_def)
  have "oc_used (forget_source k c) = oc_used c" for k c by (simp add: forget_source_def Let_def)
  then have "\<forall>j < kMaxOutputChannels. let c = out_at (sk_rc sk) j; c' = out_at (sk_rc sk') j in
       (oc_used c' \<longrightarrow> \<not> feeds (int i) c') \<and> (\<not> feeds (int i) c \<longrightarrow> c' = c)"
    using assms(2) by (simp add: sk' out_at_def rc_shape_def forget_feeds Let_def)
  moreover have "\<not> vi_used (rc_inputs (sk_rc sk') ! i)"
    using i assms(2) by (simp add: sk' set_input_def rc_shape_def VirtualInputConfig_def)
  ultimately show ?thesis using i Some by blast
qed

end
