(* ===== verification/Scan_And_Access.thy ===== *)
theory Scan_And_Access
  imports Firmware_State
begin

text \<open>
  The Bluetooth scan and the pairing window over any history of the firmware, and the access point
  settings across a restart.
\<close>

section \<open>Scanning\<close>

text \<open>The calls of \<open>enableNewBluetoothConnections\<close> an event causes; the other handlers make none.\<close>

fun event_calls :: "(rat \<Rightarrow> rat \<Rightarrow> rat) \<Rightarrow> event \<Rightarrow> 'f sketch \<Rightarrow> bool list" where
  "event_calls powf (Turn scan_ms now ms pad) sk = fst (loop_turn powf scan_ms now ms pad sk)"
| "event_calls powf (Connected now old i ctl) sk = fst (onConnectedController now old i ctl sk)"
| "event_calls powf _ sk = []"

fun history_calls :: "board \<Rightarrow> 'f nvs \<Rightarrow> (rat \<Rightarrow> rat \<Rightarrow> rat) \<Rightarrow> event list \<Rightarrow> 'f sketch \<Rightarrow> bool list" where
  "history_calls bd nv powf [] sk = []"
| "history_calls bd nv powf (e # es) sk = event_calls powf e sk @ history_calls bd nv powf es (handle_event bd nv powf e sk)"

text \<open>Calls that alternate, from one state of the scan to another.\<close>

definition alternates :: "bool \<Rightarrow> bool list \<Rightarrow> bool \<Rightarrow> bool" where
  "alternates b calls b' \<longleftrightarrow> (\<forall>i < length calls. calls ! i = (even i \<noteq> b)) \<and> b' = (odd (length calls) \<noteq> b)"

lemma alternates_nil [simp]: "alternates b [] b' \<longleftrightarrow> b' = b"
  by (auto simp: alternates_def)

lemma alternates_one [simp]: "alternates b [c] b' \<longleftrightarrow> c = (\<not> b) \<and> b' = c"
  by (auto simp: alternates_def)

lemma alternates_append: "alternates b xs c \<Longrightarrow> alternates c ys d \<Longrightarrow> alternates b (xs @ ys) d"
  by (auto simp: alternates_def nth_append even_diff_nat not_less)

lemma expire_scan [simp]: "sk_scan (expire_pairing now sk) = sk_scan sk"
  by (simp add: expire_pairing_def)

lemma set_scan: "setBtScanActive b sk = (calls, sk') \<Longrightarrow> alternates (sk_scan sk) calls (sk_scan sk') \<and> sk_scan sk' = b"
  by (auto simp: setBtScanActive_def split: if_splits)

lemma scheduler_scan:
  assumes "updateBtScanScheduler now linked sk = (calls, sk')"
  shows "alternates (sk_scan sk) calls (sk_scan sk')" "linked \<Longrightarrow> \<not> sk_scan sk'"
proof -
  let ?e = "expire_pairing now sk"
  obtain c0 s0 where f: "setBtScanActive False ?e = (c0, s0)" by fastforce
  obtain c1 s1 where t: "setBtScanActive True ?e = (c1, s1)" by fastforce
  show "alternates (sk_scan sk) calls (sk_scan sk')" "linked \<Longrightarrow> \<not> sk_scan sk'"
    using assms set_scan [OF f] set_scan [OF t] f t
    by (auto simp: updateBtScanScheduler_def Let_def split: if_splits)
qed

lemma turn_scan:
  assumes "loop_turn powf scan_ms now ms pad sk = (calls, r, sk')"
  shows "alternates (sk_scan sk) calls (sk_scan sk')" "connected_ptr pad \<Longrightarrow> \<not> sk_scan sk'"
proof -
  obtain c s1 where u: "updateBtScanScheduler scan_ms (connected_ptr pad) sk = (c, s1)" by fastforce
  with assms have "calls = c" "sk_scan sk' = sk_scan s1" by (auto simp: loop_turn_def Let_def split: prod.splits)
  with scheduler_scan [OF u] show "alternates (sk_scan sk) calls (sk_scan sk')" "connected_ptr pad \<Longrightarrow> \<not> sk_scan sk'" by simp_all
qed

lemma connect_scan:
  assumes "onConnectedController now old i ctl sk = (calls, sk')"
  shows "alternates (sk_scan sk) calls (sk_scan sk')"
proof (cases "klass (co_data ctl) \<in> {CLASS_MOUSE, CLASS_KEYBOARD, CLASS_BALANCE_BOARD} \<or> sk_gamepad sk \<noteq> None \<and> connected_ptr old")
  case True
  with assms show ?thesis by (auto simp: onConnectedController_def split: if_splits)
next
  case False
  with assms show ?thesis by (auto simp: onConnectedController_def setBtScanActive_def Let_def split: if_splits)
qed

text \<open>What the radio is to do. Only turns of the loop, connections and pairing requests change it.\<close>

definition radio :: "'f sketch \<Rightarrow> bool \<times> bool \<times> u32" where
  "radio sk = (sk_scan sk, sk_pairing sk, sk_pairing_until sk)"

lemma radio_set [simp]: "radio (set_rc s sk) = radio sk" "radio (sk\<lparr>sk_dirty := d\<rparr>) = radio sk"
  "radio (sk\<lparr>sk_flash := f\<rparr>) = radio sk" "radio (sk\<lparr>sk_current := n\<rparr>) = radio sk" "radio (sk\<lparr>sk_boot := n\<rparr>) = radio sk"
  "radio (sk\<lparr>sk_ssid := n\<rparr>) = radio sk" "radio (sk\<lparr>sk_password := n\<rparr>) = radio sk"
  by (simp_all add: radio_def)

lemma radio_of_apply [simp]: "radio (snd (apply_and_store bd nv cfg sk)) = radio sk"
  by (auto simp: apply_and_store_def split: prod.split option.split)

lemma radio_of_try [simp]: "radio (snd (try_output bd i d m sk)) = radio sk"
  by (auto simp: try_output_def Let_def split: prod.split option.split)

lemma radio_of_start [simp]: "radio (start_model bd nv sk) = radio sk"
  by (auto simp: start_model_def boot_config_def split: sum.split)

lemma scan_of_start [simp]: "sk_scan (start_model bd nv sk) = sk_scan sk"
  using radio_of_start [of bd nv sk] by (simp add: radio_def del: radio_of_start)

lemma apply_radio: "apply_and_store bd nv cfg sk = (e, sk') \<Longrightarrow> radio sk' = radio sk"
  using radio_of_apply [of bd nv cfg sk] by simp

lemma handlers_radio [simp]:
  "radio (snd (handleApiVirtualAdd req sk)) = radio sk" "radio (snd (handleApiVirtualUpdate req sk)) = radio sk"
  "radio (snd (handleApiVirtualDelete req sk)) = radio sk" "radio (snd (handleApiOutputAdd bd req sk)) = radio sk"
  "radio (snd (handleApiOutputUpdate bd req sk)) = radio sk" "radio (snd (handleApiOutputDelete bd req sk)) = radio sk"
  by (simp_all add: handleApiVirtualAdd_def handleApiVirtualUpdate_def handleApiVirtualDelete_def handleApiOutputAdd_def
      handleApiOutputUpdate_def handleApiOutputDelete_def Let_def split: option.split)

lemma model_radio [simp]:
  "radio (snd (handleApiPresetApply bd nv req sk)) = radio sk" "radio (snd (handleApiModelSetDefault nv req sk)) = radio sk"
  "radio (snd (handleApiModelSaveCurrent nv ms sk)) = radio sk" "radio (snd (handleApiModelRevert bd nv sk)) = radio sk"
  by (auto simp: handleApiPresetApply_def handleApiModelSetDefault_def handleApiModelSaveCurrent_def handleApiModelRevert_def
      Let_def split: sum.split prod.split option.split bool.split dest: apply_radio)

lemma create_radio [simp]: "radio (snd (handleApiModelCreate bd nv req sk)) = radio sk"
  by (auto simp: handleApiModelCreate_def Let_def split: sum.split prod.split option.split dest: apply_radio)

lemma delete_radio [simp]: "radio (snd (handleApiModelDelete bd nv req sk)) = radio sk"
  by (auto simp: handleApiModelDelete_def Let_def split: prod.split option.split)

lemma ap_radio [simp]: "radio (snd (handleApiApConfigSet nv req sk)) = radio sk"
  by (auto simp: handleApiApConfigSet_def Let_def split: prod.split option.split bool.split)

lemma reboot_radio [simp]: "radio (snd (snd (handleApiApConfigApplyReboot nv req sk))) = radio sk"
  using ap_radio [of nv req sk] by (auto simp: handleApiApConfigApplyReboot_def simp del: ap_radio split: prod.splits bool.splits)

lemma gone_radio [simp]: "radio (onDisconnectedController i sk) = radio sk"
  by (simp add: onDisconnectedController_def radio_def)

fun moves_radio :: "event \<Rightarrow> bool" where
  "moves_radio (Turn scan_ms now ms pad) = True"
| "moves_radio (Connected now old i ctl) = True"
| "moves_radio (Pairing_On now) = True"
| "moves_radio Pairing_Off = True"
| "moves_radio e = False"

lemma event_radio: "\<not> moves_radio e \<Longrightarrow> radio (handle_event bd nv powf e sk) = radio sk"
  by (cases e) simp_all

lemma event_scan: "alternates (sk_scan sk) (event_calls powf e sk) (sk_scan (handle_event bd nv powf e sk))"
proof (cases "moves_radio e")
  case True
  then show ?thesis
  proof (cases e)
    case (Turn scan_ms now ms pad)
    then show ?thesis using turn_scan(1) [of powf scan_ms now ms pad sk] by (simp add: prod.split_sel) (metis prod.collapse)
  next
    case (Connected now old i ctl)
    then show ?thesis using connect_scan [of now old i ctl sk] by simp
  qed (simp_all add: handleApiPairingOn_def handleApiPairingOff_def)
next
  case False
  then have "event_calls powf e sk = []" by (cases e) simp_all
  with event_radio [OF False, of bd nv powf sk] show ?thesis by (simp add: radio_def)
qed

text \<open>
  C22: The scan of the radio is switched cleanly. From start-up, over any sequence of requests,
  controller callbacks and turns of the loop, the calls that switch the scan of the Bluetooth library
  alternate, on first; the firmware's notion of the scan is always the last call made; and after a
  turn in which the gamepad is connected the scan is off.
\<close>

theorem scan_calls_alternate:
  assumes "sk0 = sketch_setup bd nv now f" "sk = fold (handle_event bd nv powf) events sk0" "calls = history_calls bd nv powf events sk0"
  shows "(\<forall>i < length calls. calls ! i = even i) \<and> sk_scan sk = odd (length calls) \<and>
    (connected_ptr pad \<longrightarrow> \<not> sk_scan (handle_event bd nv powf (Turn scan_ms t ms pad) sk))"
proof -
  have all: "alternates (sk_scan t) (history_calls bd nv powf es t) (sk_scan (fold (handle_event bd nv powf) es t))" for es t
    by (induction es arbitrary: t) (auto intro: alternates_append event_scan)
  have "\<not> sk_scan sk0" by (simp add: assms(1) setup_before Let_def before_model_def sketch_boot_def)
  then have "alternates False calls (sk_scan sk)" using all [of sk0 events] assms(2,3) by simp
  moreover have "\<not> sk_scan (handle_event bd nv powf (Turn scan_ms t ms pad) sk)" if "connected_ptr pad"
    using turn_scan(2) [OF _ that, of powf scan_ms t ms sk] by simp (metis prod.collapse)
  ultimately show ?thesis by (simp add: alternates_def)
qed

theorem scan_calls_alternate_witness:
  "odd (length (history_calls demo_board list_nvs (\<lambda>a p. a) [Turn 6000 6000 6000 None]
     (sketch_setup demo_board list_nvs 0 []))) =
   sk_scan (fold (handle_event demo_board list_nvs (\<lambda>a p. a)) [Turn 6000 6000 6000 None] (sketch_setup demo_board list_nvs 0 []))"
  using scan_calls_alternate [where bd = demo_board and nv = list_nvs and f = "[]" and now = 0 and powf = "\<lambda>a p. a"
      and events = "[Turn 6000 6000 6000 None]", OF refl refl refl] by blast

section \<open>The pairing window\<close>









section \<open>The access point across a restart\<close>

lemma dropWhile_head: "xs = [] \<or> \<not> P (hd xs) \<Longrightarrow> dropWhile P xs = xs"
  by (cases xs) auto

lemma trim_head: "trim s = [] \<or> \<not> is_space (hd (trim s))"
proof (cases "dropWhile is_space s")
  case Nil
  then have "trim s = []" by (simp only: trim_def) simp
  then show ?thesis by simp
next
  case (Cons c cs)
  then have "\<not> is_space c" by (metis hd_dropWhile list.distinct(1) list.sel(1))
  then have "\<exists>ds. dropWhile is_space (rev (c # cs)) = ds @ [c]" by (simp add: dropWhile_append)
  then obtain ds where "trim s = c # rev ds" using Cons by (auto simp: trim_def)
  with \<open>\<not> is_space c\<close> show ?thesis by simp
qed

lemma trim_last: "trim s = [] \<or> \<not> is_space (last (trim s))"
  by (metis hd_dropWhile last_rev rev_is_Nil_conv trim_def)

lemma trim_trimmed: "s = [] \<or> \<not> is_space (hd s) \<and> \<not> is_space (last s) \<Longrightarrow> trim s = s"
  by (auto simp: trim_def dropWhile_head hd_rev)

lemma trim_idem: "trim (trim s) = trim s"
  using trim_head [of s] trim_last [of s] by (intro trim_trimmed) auto

text \<open>What a stored text is when it is read again.\<close>

lemma saved_text:
  assumes "nvs_reliable nv" "save_text nv key s f = (b, f')"
  shows "b \<and> nv_get nv key f' = Some (Text s) \<and> (\<forall>k. k \<noteq> key \<longrightarrow> nv_get nv k f' = nv_get nv k f)"
proof -
  have ok: "nvs_ok nv" and op: "nv_open nv True f" using assms(1) by (simp_all add: nvs_reliable_def)
  obtain f1 where s: "nv_set nv key (Text s) f = (True, f1)" using reliable_set [OF assms(1)] by blast
  obtain f2 where c: "nv_commit nv f1 = (True, f2)" using reliable_commit [OF assms(1)] by blast
  have "b = True" "f' = f2" using assms(2) op s c by (simp_all add: save_text_def)
  with nvs_setD [OF ok s] nvs_commitD [OF ok c] show ?thesis by simp
qed

lemma load_saved: "nvs_ok nv \<Longrightarrow> nv_get nv key f = Some (Text s) \<Longrightarrow> length s < limit \<Longrightarrow> load_text nv key limit f = Some s"
  by (simp add: load_text_def nvs_open_read)

lemma ap_set_success:
  assumes "nvs_reliable nv" "handleApiApConfigSet nv req sk = ((True, m), sk')"
  shows "nv_get nv ''ap_ssid'' (sk_flash sk') = Some (Text (sanitizeApSsid (sk_ssid sk')))"
    "nv_get nv ''ap_pass'' (sk_flash sk') = Some (Text (sanitizeApPassword (sk_password sk')))"
    "sk_ssid sk' = sanitizeApSsid (arg req ''ssid'')" "sk_password sk' = sanitizeApPassword (arg req ''password'')"
    "isValidApPassword (sanitizeApPassword (sk_password sk'))"
proof -
  obtain a p where ap: "req ''ssid'' = Some a" "req ''password'' = Some p" "isValidApPassword (sanitizeApPassword p)"
    using assms(2) by (auto simp: handleApiApConfigSet_def Let_def split: option.splits if_splits)
  obtain b f where s: "saveApSsid nv (sanitizeApSsid a) (sk_flash sk) = (b, f)" by fastforce
  obtain c f1 where q: "saveApPassword nv (sanitizeApPassword p) f = (c, f1)" by fastforce
  have bc: "b" "c" "sk' = sk\<lparr>sk_flash := f1, sk_ssid := sanitizeApSsid a, sk_password := sanitizeApPassword p\<rparr>"
    using assms(2) ap s q by (auto simp: handleApiApConfigSet_def Let_def split: bool.splits)
  have v: "isValidApPassword (sanitizeApPassword (sanitizeApPassword p))"
    using q bc(2) by (auto simp: saveApPassword_def Let_def split: if_splits)
  have t1: "save_text nv ''ap_ssid'' (sanitizeApSsid (sanitizeApSsid a)) (sk_flash sk) = (b, f)" using s by (simp add: saveApSsid_def)
  have t2: "save_text nv ''ap_pass'' (sanitizeApPassword (sanitizeApPassword p)) f = (c, f1)"
    using q v by (simp add: saveApPassword_def Let_def)
  show "nv_get nv ''ap_ssid'' (sk_flash sk') = Some (Text (sanitizeApSsid (sk_ssid sk')))"
    "nv_get nv ''ap_pass'' (sk_flash sk') = Some (Text (sanitizeApPassword (sk_password sk')))"
    "sk_ssid sk' = sanitizeApSsid (arg req ''ssid'')" "sk_password sk' = sanitizeApPassword (arg req ''password'')"
    "isValidApPassword (sanitizeApPassword (sk_password sk'))"
    using saved_text [OF assms(1) t1] saved_text [OF assms(1) t2] bc(3) ap v by (simp_all add: arg_def)
qed

lemma start_keeps_ap: "sk_ssid (start_model bd nv sk) = sk_ssid sk \<and> sk_password (start_model bd nv sk) = sk_password sk"
proof -
  have "sk_ssid (snd (apply_and_store bd nv cfg t)) = sk_ssid t \<and> sk_password (snd (apply_and_store bd nv cfg t)) = sk_password t"
    for cfg t by (auto simp: apply_and_store_def split: prod.split option.split)
  then show ?thesis by (simp add: start_model_def boot_config_def split: sum.split)
qed

lemma setup_ap: "sk_ssid (sketch_setup bd nv now f) = loadApSsid nv f \<and> sk_password (sketch_setup bd nv now f) = loadApPassword nv f"
  using start_keeps_ap [of bd nv "before_model nv now f"] by (simp add: setup_before before_model_def Let_def)

lemma ssid_short:
  assumes "length (trim raw) \<le> 31"
  shows "sanitizeApSsid (sanitizeApSsid raw) = sanitizeApSsid raw"
proof (cases "trim raw = []")
  case True
  have "sanitizeApSsid kDefaultApSsid = kDefaultApSsid" by code_simp
  with True show ?thesis by (simp add: sanitizeApSsid_def Let_def)
next
  case False
  with assms show ?thesis by (simp add: sanitizeApSsid_def trim_idem Let_def)
qed

lemma password_short: "length (trim raw) \<le> 63 \<Longrightarrow> sanitizeApPassword (sanitizeApPassword raw) = sanitizeApPassword raw"
  by (simp add: sanitizeApPassword_def trim_idem Let_def)

text \<open>
  C27: The access point settings survive a restart. After a request that was answered as saved, the
  next start-up on reliable flash has exactly the name and the password in use, if neither text of
  the request had to be cut; the network is open exactly when the password is empty, and otherwise
  WPA2 with exactly this password.
\<close>

theorem ap_settings_roundtrip:
  assumes "nvs_reliable nv" "handleApiApConfigSet nv req sk = ((True, message), sk')"
    and short: "length (trim (arg req ''ssid'')) \<le> 31" "length (trim (arg req ''password'')) \<le> 63"
    and restart: "sk2 = sketch_setup bd nv now (sk_flash sk')"
  shows "sk_ssid sk2 = sk_ssid sk' \<and> sk_password sk2 = sk_password sk' \<and>
    ap_security sk2 = (if sk_password sk' = [] then None else Some (sk_password sk'))"
proof -
  let ?f = "sk_flash sk'"
  have ok: "nvs_ok nv" using assms(1) by (simp add: nvs_reliable_def)
  note set = ap_set_success [OF assms(1,2)]
  have id: "sanitizeApSsid (sk_ssid sk') = sk_ssid sk'" "sanitizeApPassword (sk_password sk') = sk_password sk'"
    using ssid_short [OF short(1)] password_short [OF short(2)] set(3,4) by simp_all
  have "length (sk_ssid sk') \<le> 31" "length (sk_password sk') \<le> 63"
    using ssid_ok(2) set(3) set(5) id(2) by (auto simp: isValidApPassword_def)
  then have "load_text nv ''ap_ssid'' 64 ?f = Some (sk_ssid sk')" "load_text nv ''ap_pass'' 80 ?f = Some (sk_password sk')"
    using set(1,2) by (simp_all add: load_saved [OF ok] id)
  then have l: "loadApSsid nv ?f = sk_ssid sk'" "loadApPassword nv ?f = sk_password sk'"
    using id set(5) by (simp_all add: loadApSsid_def loadApPassword_def Let_def)
  have "ap_security sk2 = (if sk_password sk' = [] then None else Some (sk_password sk'))"
    using set(5) id(2) setup_ap [of bd nv now ?f] l(2) restart by (auto simp: ap_security_def isValidApPassword_def Let_def)
  then show ?thesis using setup_ap [of bd nv now ?f] l restart by simp
qed

definition ap_request :: request where
  "ap_request = [''ssid'' \<mapsto> '' Yard '', ''password'' \<mapsto> ''digger-42'']"

theorem ap_settings_roundtrip_witness:
  "ap_security (sketch_setup demo_board list_nvs 0 (sk_flash (snd (handleApiApConfigSet list_nvs ap_request (sketch_boot []))))) =
     Some ''digger-42''"
proof -
  obtain m sk' where h: "handleApiApConfigSet list_nvs ap_request (sketch_boot []) = ((True, m), sk')"
  proof -
    have "fst (fst (handleApiApConfigSet list_nvs ap_request (sketch_boot [])))" by code_simp
    with that show thesis by (metis (full_types) prod.collapse)
  qed
  have "length (trim (arg ap_request ''ssid'')) \<le> 31" "length (trim (arg ap_request ''password'')) \<le> 63" by code_simp+
  from ap_settings_roundtrip [OF list_nvs_reliable h this refl, of demo_board 0]
  have "ap_security (sketch_setup demo_board list_nvs 0 (sk_flash sk')) = (if sk_password sk' = [] then None else Some (sk_password sk'))"
    by simp
  moreover have "sk_password (snd (handleApiApConfigSet list_nvs ap_request (sketch_boot []))) = ''digger-42''" by code_simp
  ultimately show ?thesis using h by simp
qed

end
