(* ===== verification/Json_Writer.thy ===== *)
theory Json_Writer
  imports Sketch
begin

text \<open>
  \<^verbatim>\<open>main/json_utils.cpp\<close>: the writer behind every answer of the web interface. Its stack of open objects
  and arrays has sixteen places and no guard; a write behind it is the value None. A program is the
  list of the calls it makes on the writer.
\<close>

section \<open>The writer\<close>

record json_frame =
  fr_type :: char
  fr_first :: bool

record json_writer =
  jw_out :: string
  jw_stack :: "json_frame list"
  jw_depth :: nat
  jw_expecting :: bool

definition json_places :: nat where "json_places = 16"

definition JsonWriter :: json_writer where
  "JsonWriter = \<lparr>jw_out = [], jw_stack = replicate json_places \<lparr>fr_type = CHR 0x00, fr_first = False\<rparr>, jw_depth = 0,
     jw_expecting = False\<rparr>"

definition hex_digit :: "nat \<Rightarrow> char" where
  "hex_digit n = ''0123456789abcdef'' ! n"

definition escape_char :: "char \<Rightarrow> string" where
  "escape_char c =
     (if c = CHR 0x5C then [CHR 0x5C, CHR 0x5C]
      else if c = CHR 0x22 then [CHR 0x5C, CHR 0x22]
      else if c = CHR 0x0A then [CHR 0x5C, CHR ''n'']
      else if c = CHR 0x0D then [CHR 0x5C, CHR ''r'']
      else if c = CHR 0x09 then [CHR 0x5C, CHR ''t'']
      else if (of_char c :: nat) < 0x20
      then [CHR 0x5C, CHR ''u'', CHR ''0'', CHR ''0'', hex_digit (of_char c div 16 mod 16), hex_digit (of_char c mod 16)]
      else [c])"

definition escape :: "string \<Rightarrow> string" where
  "escape s = concat (map escape_char s)"

definition append_text :: "string \<Rightarrow> json_writer \<Rightarrow> json_writer" where
  "append_text s w = w\<lparr>jw_out := jw_out w @ s\<rparr>"

definition appendEscapedString :: "string \<Rightarrow> json_writer \<Rightarrow> json_writer" where
  "appendEscapedString s w = append_text ([CHR 0x22] @ escape s @ [CHR 0x22]) w"

definition set_first :: "nat \<Rightarrow> bool \<Rightarrow> json_writer \<Rightarrow> json_writer" where
  "set_first i b w = w\<lparr>jw_stack := (jw_stack w)[i := (jw_stack w ! i)\<lparr>fr_first := b\<rparr>]\<rparr>"

definition beforeValue :: "json_writer \<Rightarrow> json_writer" where
  "beforeValue w =
     (if jw_expecting w then w
      else if jw_depth w = 0 then w
      else
        let f = jw_stack w ! (jw_depth w - 1)
        in if fr_type f = CHR ''a''
           then set_first (jw_depth w - 1) False (if \<not> fr_first f then append_text '','' w else w) else w)"

definition open_frame :: "char \<Rightarrow> string \<Rightarrow> json_writer \<Rightarrow> json_writer option" where
  "open_frame type text w =
     (let w1 = append_text text (beforeValue w)
      in if jw_depth w1 \<ge> json_places then None
         else Some (w1\<lparr>jw_stack := (jw_stack w1)[jw_depth w1 := \<lparr>fr_type = type, fr_first = True\<rparr>],
                jw_depth := jw_depth w1 + 1, jw_expecting := False\<rparr>))"

definition beginObject :: "json_writer \<Rightarrow> json_writer option" where
  "beginObject w = open_frame CHR ''o'' ''{'' w"

definition beginArray :: "json_writer \<Rightarrow> json_writer option" where
  "beginArray w = open_frame CHR ''a'' ''['' w"

definition close_frame :: "string \<Rightarrow> json_writer \<Rightarrow> json_writer option" where
  "close_frame text w = Some ((append_text text w)\<lparr>jw_depth := jw_depth w - 1, jw_expecting := False\<rparr>)"

definition endObject :: "json_writer \<Rightarrow> json_writer option" where
  "endObject w = close_frame ''}'' w"

definition endArray :: "json_writer \<Rightarrow> json_writer option" where
  "endArray w = close_frame '']'' w"

definition key :: "string \<Rightarrow> json_writer \<Rightarrow> json_writer option" where
  "key k w =
     (if jw_depth w = 0 \<or> fr_type (jw_stack w ! (jw_depth w - 1)) \<noteq> CHR ''o'' then Some w
      else
        let idx = jw_depth w - 1;
            w1 = (if \<not> fr_first (jw_stack w ! idx) then append_text '','' w else w);
            w2 = append_text '':'' (appendEscapedString k (set_first idx False w1))
        in Some (w2\<lparr>jw_expecting := True\<rparr>))"

definition rawValue :: "string \<Rightarrow> json_writer \<Rightarrow> json_writer option" where
  "rawValue raw w = Some ((append_text raw (beforeValue w))\<lparr>jw_expecting := False\<rparr>)"

definition value_string :: "string \<Rightarrow> json_writer \<Rightarrow> json_writer option" where
  "value_string s w = Some ((appendEscapedString s (beforeValue w))\<lparr>jw_expecting := False\<rparr>)"

definition value_int :: "int \<Rightarrow> json_writer \<Rightarrow> json_writer option" where
  "value_int i w = rawValue (signed_decimal i) w"

definition value_bool :: "bool \<Rightarrow> json_writer \<Rightarrow> json_writer option" where
  "value_bool b w = rawValue (if b then ''true'' else ''false'') w"

text \<open>The text of a float with a number of decimals is the library's: a parameter.\<close>

definition value_float :: "(rat \<Rightarrow> nat \<Rightarrow> string) \<Rightarrow> rat \<Rightarrow> nat \<Rightarrow> json_writer \<Rightarrow> json_writer option" where
  "value_float fmt x decimals w = rawValue (fmt x decimals) w"

fun run_writer :: "(json_writer \<Rightarrow> json_writer option) list \<Rightarrow> json_writer \<Rightarrow> json_writer option" where
  "run_writer [] w = Some w"
| "run_writer (c # cs) w = (case c w of None \<Rightarrow> None | Some w' \<Rightarrow> run_writer cs w')"

section \<open>The text of a value\<close>

datatype json =
    J_Object "(string \<times> json) list" | J_Array "json list" | J_String string | J_Int int | J_Bool bool | J_Number string

definition quoted :: "string \<Rightarrow> string" where
  "quoted s = [CHR 0x22] @ escape s @ [CHR 0x22]"

fun render :: "json \<Rightarrow> string" and render_members :: "bool \<Rightarrow> (string \<times> json) list \<Rightarrow> string"
  and render_items :: "bool \<Rightarrow> json list \<Rightarrow> string" where
  "render (J_Object ms) = ''{'' @ render_members True ms @ ''}''"
| "render (J_Array vs) = ''['' @ render_items True vs @ '']''"
| "render (J_String s) = quoted s"
| "render (J_Int i) = signed_decimal i"
| "render (J_Bool b) = (if b then ''true'' else ''false'')"
| "render (J_Number t) = t"
| "render_members first [] = []"
| "render_members first ((k, v) # ms) = (if first then [] else '','') @ quoted k @ '':'' @ render v @ render_members False ms"
| "render_items first [] = []"
| "render_items first (v # vs) = (if first then [] else '','') @ render v @ render_items False vs"

text \<open>The calls that write a value, and the nesting it needs.\<close>

fun emit :: "json \<Rightarrow> (json_writer \<Rightarrow> json_writer option) list"
  and emit_members :: "(string \<times> json) list \<Rightarrow> (json_writer \<Rightarrow> json_writer option) list"
  and emit_items :: "json list \<Rightarrow> (json_writer \<Rightarrow> json_writer option) list" where
  "emit (J_Object ms) = [beginObject] @ emit_members ms @ [endObject]"
| "emit (J_Array vs) = [beginArray] @ emit_items vs @ [endArray]"
| "emit (J_String s) = [value_string s]"
| "emit (J_Int i) = [value_int i]"
| "emit (J_Bool b) = [value_bool b]"
| "emit (J_Number t) = [rawValue t]"
| "emit_members [] = []"
| "emit_members ((k, v) # ms) = [key k] @ emit v @ emit_members ms"
| "emit_items [] = []"
| "emit_items (v # vs) = emit v @ emit_items vs"

fun nesting :: "json \<Rightarrow> nat" and nesting_members :: "(string \<times> json) list \<Rightarrow> nat" and nesting_items :: "json list \<Rightarrow> nat" where
  "nesting (J_Object ms) = Suc (nesting_members ms)"
| "nesting (J_Array vs) = Suc (nesting_items vs)"
| "nesting (J_String s) = 0"
| "nesting (J_Int i) = 0"
| "nesting (J_Bool b) = 0"
| "nesting (J_Number t) = 0"
| "nesting_members [] = 0"
| "nesting_members ((k, v) # ms) = max (nesting v) (nesting_members ms)"
| "nesting_items [] = 0"
| "nesting_items (v # vs) = max (nesting v) (nesting_items vs)"

lemma run_append [simp]: "run_writer (cs @ ds) w = (case run_writer cs w of None \<Rightarrow> None | Some w' \<Rightarrow> run_writer ds w')"
  by (induction cs arbitrary: w) (simp_all split: option.split)

section \<open>Writing a value\<close>

definition writer_ok :: "json_writer \<Rightarrow> bool" where
  "writer_ok w \<longleftrightarrow> length (jw_stack w) = json_places \<and> jw_depth w \<le> json_places"

definition innermost :: "json_writer \<Rightarrow> json_frame" where
  "innermost w = jw_stack w ! (jw_depth w - 1)"

definition in_array :: "json_writer \<Rightarrow> bool" where
  "in_array w \<longleftrightarrow> \<not> jw_expecting w \<and> jw_depth w > 0 \<and> fr_type (innermost w) = CHR ''a''"

definition comma :: "json_writer \<Rightarrow> string" where
  "comma w = (if in_array w \<and> \<not> fr_first (innermost w) then '','' else [])"

text \<open>The open objects and arrays are as they were, up to the mark that the innermost one has items.\<close>

definition kept :: "json_writer \<Rightarrow> json_writer \<Rightarrow> bool" where
  "kept w w' \<longleftrightarrow> jw_depth w' = jw_depth w \<and> length (jw_stack w') = length (jw_stack w) \<and>
     (\<forall>i. Suc i < jw_depth w \<longrightarrow> jw_stack w' ! i = jw_stack w ! i) \<and>
     (jw_depth w > 0 \<longrightarrow> fr_type (innermost w') = fr_type (innermost w))"

lemma kept_refl [simp]: "kept w w"
  by (simp add: kept_def)

lemma kept_trans: "kept w w' \<Longrightarrow> kept w' w'' \<Longrightarrow> kept w w''"
  by (simp add: kept_def)

lemma kept_ok: "kept w w' \<Longrightarrow> writer_ok w \<Longrightarrow> writer_ok w'"
  by (simp add: kept_def writer_ok_def)

definition wrote :: "json_writer \<Rightarrow> string \<Rightarrow> json_writer \<Rightarrow> bool" where
  "wrote w t w' \<longleftrightarrow> jw_out w' = jw_out w @ comma w @ t \<and> kept w w' \<and> \<not> jw_expecting w' \<and>
     (jw_depth w > 0 \<longrightarrow> fr_first (innermost w') = (\<not> in_array w \<and> fr_first (innermost w)))"

lemma before_facts:
  assumes "writer_ok w"
  shows "jw_out (beforeValue w) = jw_out w @ comma w" "kept w (beforeValue w)" "jw_expecting (beforeValue w) = jw_expecting w"
    "jw_depth w > 0 \<Longrightarrow> fr_first (innermost (beforeValue w)) = (\<not> in_array w \<and> fr_first (innermost w))"
  using assms
  by (auto simp: beforeValue_def Let_def comma_def in_array_def innermost_def kept_def set_first_def append_text_def writer_ok_def)

lemma append_facts [simp]: "jw_out (append_text t w) = jw_out w @ t" "jw_stack (append_text t w) = jw_stack w"
  "jw_depth (append_text t w) = jw_depth w" "jw_expecting (append_text t w) = jw_expecting w"
  by (simp_all add: append_text_def)

lemma top_append [simp]: "innermost (append_text t w) = innermost w"
  by (simp add: innermost_def)

lemma atom_wrote: "writer_ok w \<Longrightarrow> wrote w t ((append_text t (beforeValue w))\<lparr>jw_expecting := False\<rparr>)"
  using before_facts [of w] by (auto simp: wrote_def kept_def innermost_def)

lemma open_facts:
  assumes ok: "writer_ok w"
  shows "if jw_depth w < json_places
    then \<exists>w1. open_frame c t w = Some w1 \<and> jw_out w1 = jw_out w @ comma w @ t \<and> jw_depth w1 = Suc (jw_depth w) \<and>
      \<not> jw_expecting w1 \<and> writer_ok w1 \<and> innermost w1 = \<lparr>fr_type = c, fr_first = True\<rparr> \<and>
      (\<forall>i < jw_depth w. jw_stack w1 ! i = jw_stack (beforeValue w) ! i)
    else open_frame c t w = None"
proof -
  note b = before_facts [OF ok]
  have d: "jw_depth (beforeValue w) = jw_depth w" "length (jw_stack (beforeValue w)) = json_places"
    using b(2) ok by (simp_all add: kept_def writer_ok_def)
  show ?thesis using b(1) d by (auto simp: open_frame_def Let_def writer_ok_def innermost_def)
qed

lemma close_wrote:
  assumes ok: "writer_ok w" and o: "open_frame c t w = Some w1"
    and m: "kept w1 w2" "jw_out w2 = jw_out w1 @ body"
  shows "\<exists>w3. close_frame t' w2 = Some w3 \<and> wrote w (t @ body @ t') w3"
proof -
  note b = before_facts [OF ok]
  have lt: "jw_depth w < json_places" using open_facts [OF ok, of c t] o by (auto split: if_splits)
  have w1: "jw_out w1 = jw_out w @ comma w @ t" "jw_depth w1 = Suc (jw_depth w)" "length (jw_stack w1) = length (jw_stack w)"
    "\<forall>i < jw_depth w. jw_stack w1 ! i = jw_stack (beforeValue w) ! i"
    using open_facts [OF ok, of c t] o lt ok by (simp_all add: writer_ok_def)
  let ?w3 = "(append_text t' w2)\<lparr>jw_depth := jw_depth w2 - 1, jw_expecting := False\<rparr>"
  have stack: "jw_stack ?w3 ! i = jw_stack (beforeValue w) ! i" if "i < jw_depth w" for i
    using m(1) w1(2,4) that by (simp add: kept_def)
  have "innermost ?w3 = innermost (beforeValue w)" if "jw_depth w > 0"
    using stack [of "jw_depth w - 1"] that m(1) w1(2) b(2) by (simp add: innermost_def kept_def)
  then have "wrote w (t @ body @ t') ?w3"
    using b stack m w1 by (auto simp: wrote_def kept_def)
  then show ?thesis by (simp add: close_frame_def)
qed

lemma key_facts:
  assumes ok: "writer_ok w" and o: "jw_depth w > 0" "fr_type (innermost w) = CHR ''o''"
  shows "\<exists>w1. key k w = Some w1 \<and> jw_out w1 = jw_out w @ (if fr_first (innermost w) then [] else '','') @ quoted k @ '':'' \<and>
    kept w w1 \<and> jw_expecting w1 \<and> \<not> fr_first (innermost w1)"
  using assms
  by (auto simp: key_def Let_def innermost_def set_first_def appendEscapedString_def append_text_def quoted_def kept_def writer_ok_def)

lemma atom_run:
  assumes "writer_ok w" "\<And>v. c v = Some ((append_text t (beforeValue v))\<lparr>jw_expecting := False\<rparr>)"
  shows "\<exists>w'. run_writer [c] w = Some w' \<and> wrote w t w'"
  using atom_wrote [OF assms(1), of t] assms(2) by simp

lemma value_calls:
  "value_string s w = Some ((append_text (quoted s) (beforeValue w))\<lparr>jw_expecting := False\<rparr>)"
  "value_int i w = Some ((append_text (signed_decimal i) (beforeValue w))\<lparr>jw_expecting := False\<rparr>)"
  "value_bool b w = Some ((append_text (if b then ''true'' else ''false'') (beforeValue w))\<lparr>jw_expecting := False\<rparr>)"
  "rawValue t w = Some ((append_text t (beforeValue w))\<lparr>jw_expecting := False\<rparr>)"
  by (simp_all add: value_string_def value_int_def value_bool_def rawValue_def appendEscapedString_def quoted_def)

definition room :: "json_writer \<Rightarrow> nat \<Rightarrow> bool" where
  "room w n \<longleftrightarrow> jw_depth w + n \<le> json_places"

lemma bracket_run:
  assumes ok: "writer_ok w"
    and body: "\<And>w1. writer_ok w1 \<Longrightarrow> jw_depth w1 > 0 \<Longrightarrow> fr_type (innermost w1) = c \<Longrightarrow> \<not> jw_expecting w1 \<Longrightarrow>
      if room w1 n then \<exists>w2. run_writer cs w1 = Some w2 \<and> jw_out w2 = jw_out w1 @ tx (fr_first (innermost w1)) \<and> kept w1 w2
      else run_writer cs w1 = None"
  shows "if room w (Suc n) then \<exists>w3. run_writer ([open_frame c t] @ cs @ [close_frame t']) w = Some w3 \<and> wrote w (t @ tx True @ t') w3
    else run_writer ([open_frame c t] @ cs @ [close_frame t']) w = None"
proof (cases "jw_depth w < json_places")
  case False
  then show ?thesis using open_facts [OF ok, of c t] by (simp add: room_def)
next
  case True
  then obtain w1 where w1: "open_frame c t w = Some w1" "jw_depth w1 = Suc (jw_depth w)" "\<not> jw_expecting w1" "writer_ok w1"
    "innermost w1 = \<lparr>fr_type = c, fr_first = True\<rparr>" using open_facts [OF ok, of c t] by auto
  have b: "if room w1 n then \<exists>w2. run_writer cs w1 = Some w2 \<and> jw_out w2 = jw_out w1 @ tx True \<and> kept w1 w2
      else run_writer cs w1 = None"
    using body [of w1] w1 by (auto split: if_splits)
  have r: "room w1 n = room w (Suc n)" using w1(2) by (simp add: room_def)
  show ?thesis
  proof (cases "room w (Suc n)")
    case False
    with b r w1(1) show ?thesis by simp
  next
    case True
    with b r obtain w2 where w2: "run_writer cs w1 = Some w2" "jw_out w2 = jw_out w1 @ tx True" "kept w1 w2" by auto
    from close_wrote [OF ok w1(1) w2(3,2), of t'] obtain w3 where "close_frame t' w2 = Some w3" "wrote w (t @ tx True @ t') w3" by blast
    with w1(1) w2(1) True show ?thesis by simp
  qed
qed

lemma begin_calls: "beginObject = open_frame CHR ''o'' ''{''" "endObject = close_frame ''}''"
  "beginArray = open_frame CHR ''a'' ''[''" "endArray = close_frame '']''"
  by (simp_all add: fun_eq_iff beginObject_def endObject_def beginArray_def endArray_def)

lemma emit_run:
  "writer_ok w \<Longrightarrow>
     if room w (nesting v) then \<exists>w'. run_writer (emit v) w = Some w' \<and> wrote w (render v) w' else run_writer (emit v) w = None"
  and members_run:
  "writer_ok w \<Longrightarrow> jw_depth w > 0 \<Longrightarrow> fr_type (innermost w) = CHR ''o'' \<Longrightarrow> \<not> jw_expecting w \<Longrightarrow>
     if room w (nesting_members ms)
     then \<exists>w'. run_writer (emit_members ms) w = Some w' \<and> jw_out w' = jw_out w @ render_members (fr_first (innermost w)) ms \<and> kept w w'
     else run_writer (emit_members ms) w = None"
  and items_run:
  "writer_ok w \<Longrightarrow> jw_depth w > 0 \<Longrightarrow> fr_type (innermost w) = CHR ''a'' \<Longrightarrow> \<not> jw_expecting w \<Longrightarrow>
     if room w (nesting_items vs)
     then \<exists>w'. run_writer (emit_items vs) w = Some w' \<and> jw_out w' = jw_out w @ render_items (fr_first (innermost w)) vs \<and> kept w w'
     else run_writer (emit_items vs) w = None"
proof (induction v and ms and vs arbitrary: w and w and w rule: emit_emit_members_emit_items.induct)
  case (1 ms)
  show ?case unfolding emit.simps render.simps nesting.simps begin_calls
    by (rule bracket_run [where tx = "\<lambda>b. render_members b ms", OF 1(2)]) (rule 1(1))
next
  case (2 vs)
  show ?case unfolding emit.simps render.simps nesting.simps begin_calls
    by (rule bracket_run [where tx = "\<lambda>b. render_items b vs", OF 2(2)]) (rule 2(1))
next
  case (3 s)
  then show ?case using atom_run [OF 3, of "value_string s" "quoted s"] by (simp add: value_calls room_def writer_ok_def)
next
  case (4 i)
  then show ?case using atom_run [OF 4, of "value_int i" "signed_decimal i"] by (simp add: value_calls room_def writer_ok_def)
next
  case (5 b)
  then show ?case using atom_run [OF 5, of "value_bool b" "if b then ''true'' else ''false''"]
    by (simp add: value_calls room_def writer_ok_def)
next
  case (6 t)
  then show ?case using atom_run [OF 6, of "rawValue t" t] by (simp add: value_calls room_def writer_ok_def)
next
  case 7
  then show ?case by (auto simp: room_def writer_ok_def)
next
  case (8 k v ms)
  obtain w1 where w1: "key k w = Some w1" "jw_out w1 = jw_out w @ (if fr_first (innermost w) then [] else '','') @ quoted k @ '':''"
    "kept w w1" "jw_expecting w1" "\<not> fr_first (innermost w1)"
    using key_facts [OF 8(3,4,5), of k] by auto
  have ok1: "writer_ok w1" and d1: "jw_depth w1 = jw_depth w" "fr_type (innermost w1) = CHR ''o''"
    using kept_ok [OF w1(3) 8(3)] w1(3) 8(4,5) by (simp_all add: kept_def)
  show ?case
  proof (cases "room w (nesting v)")
    case False
    then show ?thesis using 8(1) [OF ok1] d1 w1(1) by (simp add: room_def)
  next
    case True
    then obtain w2 where w2: "run_writer (emit v) w1 = Some w2" "wrote w1 (render v) w2"
      using 8(1) [OF ok1] d1 by (auto simp: room_def)
    have f: "kept w1 w2" "\<not> jw_expecting w2" "\<not> fr_first (innermost w2)" "jw_out w2 = jw_out w1 @ render v"
      using w2(2) w1(4,5) d1 8(4) by (simp_all add: wrote_def in_array_def comma_def)
    have ok2: "writer_ok w2" and d2: "jw_depth w2 = jw_depth w" "fr_type (innermost w2) = CHR ''o''"
      using kept_ok [OF f(1) ok1] f(1) d1 8(4) by (simp_all add: kept_def)
    have k: "kept w w2" using w1(3) f(1) by (rule kept_trans)
    have rec: "if room w2 (nesting_members ms)
        then \<exists>w'. run_writer (emit_members ms) w2 = Some w' \<and> jw_out w' = jw_out w2 @ render_members False ms \<and> kept w2 w'
        else run_writer (emit_members ms) w2 = None"
      using 8(2) [OF ok2 _ d2(2) f(2)] d2 8(4) f(3) by (simp split: if_splits)
    have r: "room w (nesting_members ((k, v) # ms)) = room w2 (nesting_members ms)" using True d2(1) by (auto simp: room_def)
    show ?thesis
    proof (cases "room w2 (nesting_members ms)")
      case False
      with rec r w1(1) w2(1) show ?thesis by simp
    next
      case True
      with rec obtain w3 where "run_writer (emit_members ms) w2 = Some w3" "jw_out w3 = jw_out w2 @ render_members False ms" "kept w2 w3"
        by auto
      with True r w1(1,2) w2(1) f(4) kept_trans [OF k] show ?thesis by simp
    qed
  qed
next
  case 9
  then show ?case by (auto simp: room_def writer_ok_def)
next
  case (10 v vs)
  have arr: "in_array w" using 10(4,5,6) by (simp add: in_array_def)
  show ?case
  proof (cases "room w (nesting v)")
    case False
    then show ?thesis using 10(1) [OF 10(3)] by (simp add: room_def)
  next
    case True
    then obtain w2 where w2: "run_writer (emit v) w = Some w2" "wrote w (render v) w2" using 10(1) [OF 10(3)] by auto
    have f: "kept w w2" "\<not> jw_expecting w2" "\<not> fr_first (innermost w2)" "jw_out w2 = jw_out w @ comma w @ render v"
      using w2(2) arr 10(4) by (simp_all add: wrote_def)
    have ok2: "writer_ok w2" and d2: "jw_depth w2 = jw_depth w" "fr_type (innermost w2) = CHR ''a''"
      using kept_ok [OF f(1) 10(3)] f(1) 10(4,5) by (simp_all add: kept_def)
    have rec: "if room w2 (nesting_items vs)
        then \<exists>w'. run_writer (emit_items vs) w2 = Some w' \<and> jw_out w' = jw_out w2 @ render_items False vs \<and> kept w2 w'
        else run_writer (emit_items vs) w2 = None"
      using 10(2) [OF ok2 _ d2(2) f(2)] d2 10(4) f(3) by (simp split: if_splits)
    have r: "room w (nesting_items (v # vs)) = room w2 (nesting_items vs)" using True d2(1) by (auto simp: room_def)
    show ?thesis
    proof (cases "room w2 (nesting_items vs)")
      case False
      with rec r w2(1) show ?thesis by simp
    next
      case True
      with rec obtain w3 where "run_writer (emit_items vs) w2 = Some w3" "jw_out w3 = jw_out w2 @ render_items False vs" "kept w2 w3"
        by auto
      with True r w2(1) f(4) kept_trans [OF f(1)] arr show ?thesis by (simp add: comma_def)
    qed
  qed
qed

lemma writer_prints:
  "if nesting v \<le> 16 then \<exists>w. run_writer (emit v) JsonWriter = Some w \<and> jw_out w = render v \<and> jw_depth w = 0
   else run_writer (emit v) JsonWriter = None"
  using emit_run [of JsonWriter v]
  by (auto simp: JsonWriter_def writer_ok_def room_def wrote_def kept_def comma_def in_array_def json_places_def split: if_splits)

text \<open>
  C24: The writer prints JSON. Writing any value from an empty writer, by the calls that follow its
  structure, gives exactly the text of the value, with all brackets closed, if it is nested at most
  sixteen deep; a deeper value makes the writer write behind its stack.
\<close>

theorem json_writer_correct:
  "if nesting v \<le> 16 then \<exists>w. run_writer (emit v) JsonWriter = Some w \<and> jw_out w = render v \<and> jw_depth w = 0
   else run_writer (emit v) JsonWriter = None"
  by (rule writer_prints)

section \<open>Strings\<close>

text \<open>The reader of a string in JSON, from behind the opening quote to the closing one.\<close>

definition hex_value :: "char \<Rightarrow> nat option" where
  "hex_value c = find_index (\<lambda>d. d = c) ''0123456789abcdef''"

fun read_string :: "string \<Rightarrow> (string \<times> string) option" where
  "read_string [] = None"
| "read_string (c # cs) =
     (if c = CHR 0x22 then Some ([], cs)
      else if (of_char c :: nat) < 0x20 then None
      else if c \<noteq> CHR 0x5C then map_option (apfst ((#) c)) (read_string cs)
      else case cs of
        d # ds \<Rightarrow>
          (if d = CHR 0x5C \<or> d = CHR 0x22 then map_option (apfst ((#) d)) (read_string ds)
           else if d = CHR ''n'' then map_option (apfst ((#) (CHR 0x0A))) (read_string ds)
           else if d = CHR ''r'' then map_option (apfst ((#) (CHR 0x0D))) (read_string ds)
           else if d = CHR ''t'' then map_option (apfst ((#) (CHR 0x09))) (read_string ds)
           else if d = CHR ''u'' then (case ds of
               z # y # h # l # rest \<Rightarrow> (case (hex_value h, hex_value l) of
                   (Some a, Some b) \<Rightarrow> if z = CHR ''0'' \<and> y = CHR ''0''
                     then map_option (apfst ((#) (char_of (16 * a + b)))) (read_string rest) else None
                 | _ \<Rightarrow> None)
             | _ \<Rightarrow> None)
           else None)
        | [] \<Rightarrow> None)"

lemma hex_round: "n < 16 \<Longrightarrow> hex_value (hex_digit n) = Some n"
proof -
  have all: "\<forall>n \<in> set [0..<16]. hex_value (hex_digit n) = Some n"
    by (simp add: upt_rec hex_value_def hex_digit_def find_index_def)
  assume "n < 16"
  with all show ?thesis by simp
qed

lemma read_escaped: "read_string (escape_char c @ rest) = map_option (apfst ((#) c)) (read_string rest)"
proof -
  have hex: "char_of (16 * (of_char c div 16 mod 16) + of_char c mod 16 :: nat) = c" if "(of_char c :: nat) < 0x20"
  proof -
    have "16 * (of_char c div 16 mod 16) + of_char c mod 16 = (of_char c :: nat)" using that by simp
    then show ?thesis by simp
  qed
  show ?thesis by (auto simp: escape_char_def hex_round hex)
qed

text \<open>
  C25: No text breaks out of its string. Whatever bytes a name, password or message has, reading the
  escaped string up to its first unescaped quote gives back exactly these bytes and leaves exactly
  what was written after the string; and no control character appears in it.
\<close>

theorem json_string_roundtrip:
  "read_string (escape s @ [CHR 0x22] @ rest) = Some (s, rest) \<and> list_all (\<lambda>c. 0x20 \<le> (of_char c :: nat)) (escape s)"
proof -
  have "list_all (\<lambda>c. 0x20 \<le> (of_char c :: nat)) (escape_char c)" for c
  proof -
    have "\<forall>n \<in> set [0..<16]. 0x20 \<le> (of_char (hex_digit n) :: nat)" by (simp add: upt_rec hex_digit_def)
    then have "0x20 \<le> (of_char (hex_digit (m mod 16)) :: nat)" for m by simp
    from this [of "of_char c div 16"] this [of "of_char c"]
    show ?thesis by (auto simp: escape_char_def not_less)
  qed
  then have "list_all (\<lambda>c. 0x20 \<le> (of_char c :: nat)) (escape s)" by (induction s) (simp_all add: escape_def)
  moreover have "read_string (escape s @ [CHR 0x22] @ rest) = Some (s, rest)"
    by (induction s) (simp_all add: escape_def read_escaped del: read_string.simps, simp add: read_string.simps)
  ultimately show ?thesis by simp
qed

end
