(* ===== verification/State_Service.thy ===== *)
theory State_Service
  imports Json_Writer Firmware_State
begin

text \<open>
  \<^verbatim>\<open>main/state_service.cpp\<close>: the answers of the web interface as calls on the JSON writer, and the
  values they print. The texts of an address and of a float are the library's: parameters.
\<close>

section \<open>The answers\<close>

definition kActiveThreshold :: rat where "kActiveThreshold = f32 (15 / 100)"

type_synonym writer_call = "json_writer \<Rightarrow> json_writer option"

record snapshot =
  sn_ap_ip :: string
  sn_ap_ssid :: string
  sn_ap_password :: string
  sn_gamepad :: bool
  sn_bt_scan :: bool
  sn_pairing :: bool
  sn_failsafe :: bool
  sn_fw_version :: string
  sn_fw_channel :: string
  sn_current :: string
  sn_boot :: string
  sn_dirty :: bool
  sn_inputs :: "virtual_input list"
  sn_outputs :: "output_channel list"
  sn_virtual :: "rat list"
  sn_output :: "rat list"
  sn_presets :: "preset_directory option"
  sn_builtins :: "string list"

definition outputTypeLabel :: "channel_type \<Rightarrow> string" where
  "outputTypeLabel t = (if t = Channel_Pwm then ''PWM'' else ''ON/OFF'')"

definition mixModeLabel :: "mix_mode \<Rightarrow> string" where
  "mixModeLabel m = (if m = Mix_Multiply then ''Multiply'' else ''Add'')"

text \<open>\<open>static_cast<int>\<close> of the enumerations.\<close>

definition range_code :: "toggle_range_mode \<Rightarrow> int" where
  "range_code r = (case r of Unipolar \<Rightarrow> 0 | Bipolar \<Rightarrow> 1)"

definition channel_code :: "channel_type \<Rightarrow> int" where
  "channel_code t = (case t of Channel_Pwm \<Rightarrow> 0 | Channel_Switch \<Rightarrow> 1)"

definition mix_code :: "mix_mode \<Rightarrow> int" where
  "mix_code m = (case m of Mix_Add \<Rightarrow> 0 | Mix_Multiply \<Rightarrow> 1)"

definition appendVirtualInput :: "(rat \<Rightarrow> nat \<Rightarrow> string) \<Rightarrow> nat \<Rightarrow> virtual_input \<Rightarrow> rat \<Rightarrow> writer_call list" where
  "appendVirtualInput fmt index inp runtime =
     [beginObject, key ''index'', value_int (int index), key ''name'', value_string (vi_name inp),
      key ''input'', value_int (uint (input_code (vi_primary inp))),
      key ''input_secondary'', value_int (uint (input_code (vi_secondary inp))),
      key ''input_type'', value_int (uint (type_bits (vi_type inp))),
      key ''range_mode'', value_int (range_code (vi_range inp)), key ''rumble'', value_bool (vi_rumble inp),
      key ''input_modifier'', value_int (uint (input_code (vi_modifier inp))),
      key ''modifier_function'', value_int (uint (function_code (vi_function inp))),
      key ''deadzone'', value_int (vi_deadzone inp), key ''expo'', value_int (vi_expo inp),
      key ''signed_activity'', value_float fmt runtime 3, key ''activity'', value_float fmt \<bar>runtime\<bar> 3,
      key ''active'', value_bool (\<bar>runtime\<bar> > kActiveThreshold), endObject]"

definition appendOutput :: "(rat \<Rightarrow> nat \<Rightarrow> string) \<Rightarrow> nat \<Rightarrow> output_channel \<Rightarrow> rat \<Rightarrow> bool \<Rightarrow> writer_call list" where
  "appendOutput fmt index out runtime failsafeActive =
     [beginObject, key ''index'', value_int (int index), key ''name'', value_string (oc_name out),
      key ''type'', value_int (channel_code (oc_type out)), key ''type_label'', value_string (outputTypeLabel (oc_type out)),
      key ''pin'', value_int (uint (oc_pin out)),
      key ''source_a'', value_int (oc_source_a out), key ''source_b'', value_int (oc_source_b out),
      key ''source_c'', value_int (oc_source_c out),
      key ''mix_mode'', value_int (mix_code (oc_mix out)), key ''mix_mode_label'', value_string (mixModeLabel (oc_mix out)),
      key ''weight_a'', value_int (oc_weight_a out), key ''weight_b'', value_int (oc_weight_b out),
      key ''weight_c'', value_int (oc_weight_c out), key ''offset_a'', value_int (oc_offset_a out),
      key ''offset_b'', value_int (oc_offset_b out), key ''offset_c'', value_int (oc_offset_c out),
      key ''threshold'', value_int (oc_threshold out), key ''inverted'', value_bool (oc_inverted out),
      key ''pwm_failsafe'', value_int (uint (failsafe_code (oc_failsafe out))),
      key ''failsafe_active'', value_bool failsafeActive,
      key ''signed_activity'', value_float fmt runtime 3, key ''activity'', value_float fmt \<bar>runtime\<bar> 3,
      key ''active'', value_bool (\<bar>runtime\<bar> > kActiveThreshold), endObject]"

text \<open>The status of the answer and the calls that write its body.\<close>

definition sendJson :: "bool \<Rightarrow> string \<Rightarrow> nat \<times> writer_call list" where
  "sendJson ok message =
     (if ok then 200 else 400,
      [beginObject, key ''ok'', value_bool ok] @
      (if length message \<noteq> 0 then [key ''message'', value_string message] else []) @ [endObject])"

definition buildInputsJson :: "writer_call list" where
  "buildInputsJson =
     [beginArray] @
     concat (map (\<lambda>d. if in_id d = ButtonL2 \<or> in_id d = ButtonR2 then []
       else [beginObject, key ''id'', value_int (uint (input_code (in_id d))), key ''label'', value_string (in_label d), endObject])
       kInputs) @ [endArray]"

definition input_cards :: "(rat \<Rightarrow> nat \<Rightarrow> string) \<Rightarrow> snapshot \<Rightarrow> writer_call list" where
  "input_cards fmt s = concat (map (\<lambda>i. if \<not> vi_used (sn_inputs s ! i) then []
     else appendVirtualInput fmt i (sn_inputs s ! i) (sn_virtual s ! i)) [0..<kMaxVirtualInputs])"

definition output_cards :: "(rat \<Rightarrow> nat \<Rightarrow> string) \<Rightarrow> snapshot \<Rightarrow> writer_call list" where
  "output_cards fmt s = concat (map (\<lambda>i. if \<not> oc_used (sn_outputs s ! i) then []
     else appendOutput fmt i (sn_outputs s ! i) (sn_output s ! i) (sn_failsafe s)) [0..<kMaxOutputChannels])"

definition buildStateJson :: "board \<Rightarrow> (rat \<Rightarrow> nat \<Rightarrow> string) \<Rightarrow> snapshot \<Rightarrow> writer_call list" where
  "buildStateJson bd fmt s =
     [beginObject, key ''ap_ip'', value_string (sn_ap_ip s), key ''ap_ssid'', value_string (sn_ap_ssid s),
      key ''ap_password'', value_string (sn_ap_password s), key ''gamepad'', value_bool (sn_gamepad s),
      key ''bt_scan'', value_bool (sn_bt_scan s), key ''pairing'', value_bool (sn_pairing s),
      key ''current_model'', value_string (sn_current s), key ''fw_version'', value_string (sn_fw_version s),
      key ''fw_channel'', value_string (sn_fw_channel s), key ''boot_model'', value_string (sn_boot s),
      key ''model_dirty'', value_bool (sn_dirty s), key ''failsafe'', value_bool (sn_failsafe s)] @
     [key ''virtual_inputs'', beginArray] @ input_cards fmt s @ [endArray] @
     [key ''outputs'', beginArray] @ output_cards fmt s @ [endArray] @
     [key ''pwm_pins'', beginArray] @
     concat (map (\<lambda>pin. if bd_has_pwm bd (int pin) then [value_int (int pin)] else []) [0..<49]) @ [endArray] @
     [key ''presets'', beginArray] @ map value_string (sn_builtins s) @
     (case sn_presets s of None \<Rightarrow> [] | Some dir \<Rightarrow> map (\<lambda>i. value_string (pd_names dir ! i)) [0..<pd_count dir]) @
     [endArray, endObject]"

definition buildActivityJson :: "(rat \<Rightarrow> nat \<Rightarrow> string) \<Rightarrow> snapshot \<Rightarrow> writer_call list" where
  "buildActivityJson fmt s =
     [beginObject, key ''ap_ssid'', value_string (sn_ap_ssid s), key ''gamepad'', value_bool (sn_gamepad s),
      key ''bt_scan'', value_bool (sn_bt_scan s), key ''pairing'', value_bool (sn_pairing s),
      key ''failsafe'', value_bool (sn_failsafe s), key ''fw_version'', value_string (sn_fw_version s),
      key ''fw_channel'', value_string (sn_fw_channel s)] @
     [key ''virtual_inputs'', beginArray] @
     concat (map (\<lambda>i. if \<not> vi_used (sn_inputs s ! i) then []
       else [beginObject, key ''index'', value_int (int i), key ''signed_activity'', value_float fmt (sn_virtual s ! i) 3,
             key ''active'', value_bool (\<bar>sn_virtual s ! i\<bar> > kActiveThreshold), endObject]) [0..<kMaxVirtualInputs]) @ [endArray] @
     [key ''outputs'', beginArray] @
     concat (map (\<lambda>i. if \<not> oc_used (sn_outputs s ! i) then []
       else [beginObject, key ''index'', value_int (int i), key ''signed_activity'', value_float fmt (sn_output s ! i) 3,
             key ''failsafe_active'', value_bool (sn_failsafe s),
             key ''active'', value_bool (\<bar>sn_output s ! i\<bar> > kActiveThreshold), endObject]) [0..<kMaxOutputChannels]) @
     [endArray, endObject]"

text \<open>The bodies of the two polled answers; the library's texts are the address and the version.\<close>

definition failsafe_shown :: "controller_ptr \<Rightarrow> 'f sketch \<Rightarrow> bool" where
  "failsafe_shown pad sk \<longleftrightarrow> ct_timed_out (sk_control sk) = Some True \<or> \<not> connected_ptr pad"

definition state_snapshot :: "'f nvs \<Rightarrow> string \<Rightarrow> string \<times> string \<Rightarrow> controller_ptr \<Rightarrow> 'f sketch \<Rightarrow> snapshot" where
  "state_snapshot nv ip fw pad sk =
     \<lparr>sn_ap_ip = ip, sn_ap_ssid = sk_ssid sk, sn_ap_password = sk_password sk, sn_gamepad = connected_ptr pad,
      sn_bt_scan = sk_scan sk, sn_pairing = sk_pairing sk, sn_failsafe = failsafe_shown pad sk,
      sn_fw_version = fst fw, sn_fw_channel = snd fw, sn_current = sk_current sk, sn_boot = sk_boot sk, sn_dirty = sk_dirty sk,
      sn_inputs = rc_inputs (sk_rc sk), sn_outputs = rc_outputs (sk_rc sk), sn_virtual = rc_virtual (sk_rc sk),
      sn_output = rc_output (sk_rc sk), sn_presets = Some (loadPresetDirectory nv (sk_flash sk)),
      sn_builtins = [kPresetRcCar, kPresetExcavator, kPresetSkidSteer]\<rparr>"

definition activity_snapshot :: "string \<times> string \<Rightarrow> controller_ptr \<Rightarrow> 'f sketch \<Rightarrow> snapshot" where
  "activity_snapshot fw pad sk =
     \<lparr>sn_ap_ip = ''0.0.0.0'', sn_ap_ssid = sk_ssid sk, sn_ap_password = [], sn_gamepad = connected_ptr pad,
      sn_bt_scan = sk_scan sk, sn_pairing = sk_pairing sk, sn_failsafe = failsafe_shown pad sk,
      sn_fw_version = fst fw, sn_fw_channel = snd fw, sn_current = sk_current sk, sn_boot = sk_boot sk, sn_dirty = sk_dirty sk,
      sn_inputs = rc_inputs (sk_rc sk), sn_outputs = rc_outputs (sk_rc sk), sn_virtual = rc_virtual (sk_rc sk),
      sn_output = rc_output (sk_rc sk), sn_presets = None, sn_builtins = [[], [], []]\<rparr>"

definition handleApiState ::
  "board \<Rightarrow> (rat \<Rightarrow> nat \<Rightarrow> string) \<Rightarrow> 'f nvs \<Rightarrow> string \<Rightarrow> string \<times> string \<Rightarrow> controller_ptr \<Rightarrow> 'f sketch \<Rightarrow> writer_call list" where
  "handleApiState bd fmt nv ip fw pad sk = buildStateJson bd fmt (state_snapshot nv ip fw pad sk)"

definition handleApiActivity ::
  "(rat \<Rightarrow> nat \<Rightarrow> string) \<Rightarrow> string \<times> string \<Rightarrow> controller_ptr \<Rightarrow> 'f sketch \<Rightarrow> writer_call list" where
  "handleApiActivity fmt fw pad sk = buildActivityJson fmt (activity_snapshot fw pad sk)"

section \<open>The values the answers print\<close>

definition float_value :: "(rat \<Rightarrow> nat \<Rightarrow> string) \<Rightarrow> rat \<Rightarrow> json" where
  "float_value fmt x = J_Number (fmt x 3)"

definition active_value :: "rat \<Rightarrow> json" where
  "active_value x = J_Bool (\<bar>x\<bar> > kActiveThreshold)"

definition input_value :: "(rat \<Rightarrow> nat \<Rightarrow> string) \<Rightarrow> snapshot \<Rightarrow> nat \<Rightarrow> json" where
  "input_value fmt s i = (let v = sn_inputs s ! i; r = sn_virtual s ! i in J_Object
     [(''index'', J_Int (int i)), (''name'', J_String (vi_name v)), (''input'', J_Int (uint (input_code (vi_primary v)))),
      (''input_secondary'', J_Int (uint (input_code (vi_secondary v)))), (''input_type'', J_Int (uint (type_bits (vi_type v)))),
      (''range_mode'', J_Int (range_code (vi_range v))), (''rumble'', J_Bool (vi_rumble v)),
      (''input_modifier'', J_Int (uint (input_code (vi_modifier v)))),
      (''modifier_function'', J_Int (uint (function_code (vi_function v)))),
      (''deadzone'', J_Int (vi_deadzone v)), (''expo'', J_Int (vi_expo v)),
      (''signed_activity'', float_value fmt r), (''activity'', float_value fmt \<bar>r\<bar>), (''active'', active_value r)])"

definition output_value :: "(rat \<Rightarrow> nat \<Rightarrow> string) \<Rightarrow> snapshot \<Rightarrow> nat \<Rightarrow> json" where
  "output_value fmt s i = (let c = sn_outputs s ! i; r = sn_output s ! i in J_Object
     [(''index'', J_Int (int i)), (''name'', J_String (oc_name c)), (''type'', J_Int (channel_code (oc_type c))),
      (''type_label'', J_String (outputTypeLabel (oc_type c))), (''pin'', J_Int (uint (oc_pin c))),
      (''source_a'', J_Int (oc_source_a c)), (''source_b'', J_Int (oc_source_b c)), (''source_c'', J_Int (oc_source_c c)),
      (''mix_mode'', J_Int (mix_code (oc_mix c))), (''mix_mode_label'', J_String (mixModeLabel (oc_mix c))),
      (''weight_a'', J_Int (oc_weight_a c)), (''weight_b'', J_Int (oc_weight_b c)), (''weight_c'', J_Int (oc_weight_c c)),
      (''offset_a'', J_Int (oc_offset_a c)), (''offset_b'', J_Int (oc_offset_b c)), (''offset_c'', J_Int (oc_offset_c c)),
      (''threshold'', J_Int (oc_threshold c)), (''inverted'', J_Bool (oc_inverted c)),
      (''pwm_failsafe'', J_Int (uint (failsafe_code (oc_failsafe c)))), (''failsafe_active'', J_Bool (sn_failsafe s)),
      (''signed_activity'', float_value fmt r), (''activity'', float_value fmt \<bar>r\<bar>), (''active'', active_value r)])"

definition used_inputs :: "snapshot \<Rightarrow> nat list" where
  "used_inputs s = filter (\<lambda>i. vi_used (sn_inputs s ! i)) [0..<kMaxVirtualInputs]"

definition used_outputs :: "snapshot \<Rightarrow> nat list" where
  "used_outputs s = filter (\<lambda>i. oc_used (sn_outputs s ! i)) [0..<kMaxOutputChannels]"

definition preset_names :: "snapshot \<Rightarrow> string list" where
  "preset_names s = sn_builtins s @ (case sn_presets s of None \<Rightarrow> [] | Some dir \<Rightarrow> map (\<lambda>i. pd_names dir ! i) [0..<pd_count dir])"

definition state_value :: "board \<Rightarrow> (rat \<Rightarrow> nat \<Rightarrow> string) \<Rightarrow> snapshot \<Rightarrow> json" where
  "state_value bd fmt s = J_Object
     [(''ap_ip'', J_String (sn_ap_ip s)), (''ap_ssid'', J_String (sn_ap_ssid s)), (''ap_password'', J_String (sn_ap_password s)),
      (''gamepad'', J_Bool (sn_gamepad s)), (''bt_scan'', J_Bool (sn_bt_scan s)), (''pairing'', J_Bool (sn_pairing s)),
      (''current_model'', J_String (sn_current s)), (''fw_version'', J_String (sn_fw_version s)),
      (''fw_channel'', J_String (sn_fw_channel s)), (''boot_model'', J_String (sn_boot s)), (''model_dirty'', J_Bool (sn_dirty s)),
      (''failsafe'', J_Bool (sn_failsafe s)),
      (''virtual_inputs'', J_Array (map (input_value fmt s) (used_inputs s))),
      (''outputs'', J_Array (map (output_value fmt s) (used_outputs s))),
      (''pwm_pins'', J_Array (map (\<lambda>pin. J_Int (int pin)) (filter (\<lambda>pin. bd_has_pwm bd (int pin)) [0..<49]))),
      (''presets'', J_Array (map J_String (preset_names s)))]"

definition activity_value :: "(rat \<Rightarrow> nat \<Rightarrow> string) \<Rightarrow> snapshot \<Rightarrow> json" where
  "activity_value fmt s = J_Object
     [(''ap_ssid'', J_String (sn_ap_ssid s)), (''gamepad'', J_Bool (sn_gamepad s)), (''bt_scan'', J_Bool (sn_bt_scan s)),
      (''pairing'', J_Bool (sn_pairing s)), (''failsafe'', J_Bool (sn_failsafe s)), (''fw_version'', J_String (sn_fw_version s)),
      (''fw_channel'', J_String (sn_fw_channel s)),
      (''virtual_inputs'', J_Array (map (\<lambda>i. J_Object [(''index'', J_Int (int i)),
         (''signed_activity'', float_value fmt (sn_virtual s ! i)), (''active'', active_value (sn_virtual s ! i))]) (used_inputs s))),
      (''outputs'', J_Array (map (\<lambda>i. J_Object [(''index'', J_Int (int i)),
         (''signed_activity'', float_value fmt (sn_output s ! i)), (''failsafe_active'', J_Bool (sn_failsafe s)),
         (''active'', active_value (sn_output s ! i))]) (used_outputs s)))]"

definition inputs_value :: json where
  "inputs_value = J_Array (map (\<lambda>d. J_Object [(''id'', J_Int (uint (input_code (in_id d)))), (''label'', J_String (in_label d))])
     (filter (\<lambda>d. in_id d \<notin> {ButtonL2, ButtonR2}) kInputs))"

definition envelope :: "bool \<Rightarrow> string \<Rightarrow> json" where
  "envelope ok message = J_Object ((''ok'', J_Bool ok) # (if message = [] then [] else [(''message'', J_String message)]))"

section \<open>The answers print the values\<close>

lemma float_call: "value_float fmt x d = rawValue (fmt x d)"
  by (simp add: fun_eq_iff value_float_def)

lemma emit_items_map: "emit_items (map f (filter p xs)) = concat (map (\<lambda>x. if p x then emit (f x) else []) xs)"
  by (induction xs) simp_all

lemma emit_strings: "emit_items (map J_String xs) = map value_string xs"
  by (induction xs) simp_all

lemma if_not_nil: "(if \<not> p then [] else xs) = (if p then xs else [])"
  by simp

lemma emit_card: "emit (input_value fmt s i) = appendVirtualInput fmt i (sn_inputs s ! i) (sn_virtual s ! i)"
  "emit (output_value fmt s i) = appendOutput fmt i (sn_outputs s ! i) (sn_output s ! i) (sn_failsafe s)"
  by (simp_all add: input_value_def appendVirtualInput_def output_value_def appendOutput_def float_value_def active_value_def
      float_call Let_def)

lemma preset_items: "emit_items (map J_String (preset_names s)) = map value_string (sn_builtins s) @
    (case sn_presets s of None \<Rightarrow> [] | Some dir \<Rightarrow> map (\<lambda>i. value_string (pd_names dir ! i)) [0..<pd_count dir])"
  unfolding emit_strings preset_names_def by (simp split: option.split)

lemma state_emits: "buildStateJson bd fmt s = emit (state_value bd fmt s)"
  unfolding state_value_def buildStateJson_def input_cards_def output_cards_def used_inputs_def used_outputs_def if_not_nil
  by (simp only: emit.simps emit_members.simps emit_items_map preset_items emit_card append_assoc append_Cons append_Nil)

lemma activity_emits: "buildActivityJson fmt s = emit (activity_value fmt s)"
  unfolding activity_value_def buildActivityJson_def used_inputs_def used_outputs_def if_not_nil
  by (simp only: emit.simps emit_members.simps emit_items_map emit_items.simps float_value_def active_value_def float_call
      append_assoc append_Cons append_Nil)

lemma inputs_emits: "buildInputsJson = emit inputs_value"
  by (simp add: inputs_value_def buildInputsJson_def kInputs_def)

lemma envelope_emits: "snd (sendJson ok message) = emit (envelope ok message)"
  by (simp add: sendJson_def envelope_def)

lemma nesting_items_max: "nesting_items vs \<le> n \<longleftrightarrow> (\<forall>v \<in> set vs. nesting v \<le> n)"
  by (induction vs) auto

lemma nesting_small: "nesting (state_value bd fmt s) \<le> 16" "nesting (activity_value fmt s) \<le> 16"
  "nesting inputs_value \<le> 16" "nesting (envelope ok message) \<le> 16"
proof -
  have cards: "nesting (input_value fmt s i) = 1" "nesting (output_value fmt s i) = 1" for i
    by (simp_all add: input_value_def output_value_def float_value_def active_value_def Let_def)
  show "nesting (state_value bd fmt s) \<le> 16" by (simp add: state_value_def nesting_items_max cards)
  show "nesting (activity_value fmt s) \<le> 16"
    by (simp add: activity_value_def nesting_items_max float_value_def active_value_def)
  show "nesting inputs_value \<le> 16" by (simp add: inputs_value_def nesting_items_max)
  show "nesting (envelope ok message) \<le> 16" by (simp add: envelope_def)
qed

definition prints :: "writer_call list \<Rightarrow> json \<Rightarrow> bool" where
  "prints calls v \<longleftrightarrow> (case run_writer calls JsonWriter of None \<Rightarrow> False | Some w \<Rightarrow> jw_out w = render v \<and> jw_depth w = 0)"

lemma emit_prints: "nesting v \<le> 16 \<Longrightarrow> prints (emit v) v"
  using writer_prints [of v] by (auto simp: prints_def)

text \<open>
  C26: Every answer of the web interface is JSON with the content it stands for. The envelope of a
  request, the list of inputs, the full state and the live activity are written without overrunning
  the writer's stack, all brackets closed, as exactly the text of their value: the settings and
  signals of the inputs and outputs in use, in order of their index, the PWM pins and the names of
  the presets.
\<close>

theorem answers_are_json:
  "prints (snd (sendJson ok message)) (envelope ok message) \<and> prints buildInputsJson inputs_value \<and>
   prints (handleApiState bd fmt nv ip fw pad sk) (state_value bd fmt (state_snapshot nv ip fw pad sk)) \<and>
   prints (handleApiActivity fmt fw pad sk) (activity_value fmt (activity_snapshot fw pad sk))"
  by (simp add: envelope_emits inputs_emits handleApiState_def state_emits handleApiActivity_def activity_emits
      emit_prints nesting_small)

end
