(* ===== verification/Spec2Isabelle.thy ===== *)
theory Spec2Isabelle
  imports Circular_Buffer Simple_Parsers Parser_Layouts Parser_Icade Parser_Keyboard Parser_Mouse
    Parser_Xboxone Parser_Stadia Parser_DS3 Parser_DS4 Parser_DS5 Parser_PSMove Parser_Steam
    Parser_Switch Parser_Wii Allowlist Bredr_Runs Joystick Mouse_Quadrature Request_Effects
    Scan_And_Access State_Service
begin

text \<open>
  Verification of the RC controller firmware: an ESP32 that pairs with a game controller over
  Bluetooth, maps its sticks and buttons to servos and switches, and is configured over a web page.

  \<^bold>\<open>Parts and how they interact.\<close> A report of a controller comes from the Bluetooth stack to
  \<^verbatim>\<open>components/bluepad32/uni_hid_device.c\<close>, which keeps the table of devices and hands the report to
  the parser of the device (\<^verbatim>\<open>parser/\<close>). The parser fills a virtual gamepad; the remapped gamepad goes
  to the platform, \<^verbatim>\<open>components/bluepad32_arduino\<close>, which gives ready devices a seat and passes their
  data to controller objects of the sketch. The sketch, \<^verbatim>\<open>main/\<close>, reads them once per turn of its
  loop, evaluates the virtual inputs, mixes them into outputs and drives servos and pins; without
  fresh data it goes to the failsafe. Requests of the web page change inputs, outputs, models and
  access point; models are stored in flash. Rumble and lights go the other way, through a queue of
  requests in the platform, the driver of the controller, and the ring of outgoing packets.

  \<^bold>\<open>Theories.\<close> State is a record with the names of the code, an operation a definition with the name
  of the function; what the code does with a trap (a failed assertion, a division by zero, a write
  behind an array) is the value None or an error.
  \<^item> \<open>Prelude\<close>: C integers, conversions, division, first-match search.
  \<^item> \<open>Circular_Buffer\<close>: \<^verbatim>\<open>uni_circular_buffer.c\<close>. The ring refines a bounded queue (locale
    \<open>bounded_queue\<close>).
  \<^item> \<open>Gamepad\<close>, \<open>Hid_Parser\<close>, \<open>Usage_Parser\<close>, \<open>Simple_Parsers\<close>: the virtual gamepad and its remapping
    (\<^verbatim>\<open>uni_gamepad.c\<close>), normalisation and report loop (\<^verbatim>\<open>uni_hid_parser.c\<close>), and the generic, Android and
    8BitDo parsers; the locales \<open>usage_parser\<close>, \<open>ranged_usage_parser\<close> and \<open>button_parser\<close> hold what every
    such parser promises, and each parser is an interpretation.
  \<^item> \<open>Rumble\<close>, \<open>Dual_Rumble\<close>, \<open>Lenient_Rumble\<close>: one-shot timers, runs of a machine that may trap
    (\<open>guarded_machine\<close>), and the rumble of drivers with two timers, proved once for those that insist on a
    rumble to stop (\<open>rumble_driver\<close>) and for those that do not (\<open>lenient_rumble\<close>).
  \<^item> \<open>Parser_Xboxone\<close>, \<open>Sony_Common\<close>, \<open>Crc32\<close>, \<open>Parser_DS4\<close>, \<open>Parser_DS5\<close>: the drivers with state:
    rumble with retries, calibration, touchpad, checksums, handshake, adaptive triggers. The timers of the
    Xbox driver carry the context of their callback, which one of its paths leaves unset.
  \<^item> \<open>Parser_Layouts\<close> (Nimbus, Ouya, TV remote, Atari), \<open>Parser_Icade\<close>, \<open>Parser_Keyboard\<close>, \<open>Parser_Mouse\<close>:
    parsers that only decode; \<open>Parser_Stadia\<close>: rumble by GATT writes; \<open>Parser_DS3\<close>, \<open>Parser_PSMove\<close>: rumble
    that shares its report with the lights; \<open>Parser_Steam\<close>: set-up by GATT queries.
  \<^item> \<open>Report_Bytes\<close>, \<open>Switch_Device\<close>, \<open>Parser_Switch\<close>, \<open>Wii_Device\<close>, \<open>Parser_Wii\<close>: the two drivers that ask
    their device what it is, as state machines driven by its answers, with calibration and rumble. For the
    Wii the packets of the set-up are stated; a Switch controller is followed over flash contents that
    give usable calibrations (\<open>flash_usable\<close>), since erased ones divide by zero (\<open>erased_flash_traps\<close>).
  \<^item> \<open>Hid_Device\<close>, \<open>Device_Table\<close>: \<^verbatim>\<open>uni_hid_device.c\<close> and \<^verbatim>\<open>bt/uni_bt_conn.c\<close>: slots, connection states,
    timers, choice of the parser, reports, system button; the invariant over any run. That the delay timer
    of the system button is never started twice follows from the wait bit, which the press that starts
    it sets; the runs only exclude the deletion of a device while that timer runs, which the code does
    not prevent (\<open>stale_delay_timer_traps\<close>).
  \<^item> \<open>Allowlist\<close>: \<^verbatim>\<open>bt/uni_bt_allowlist.c\<close>, a set of addresses with a switch, kept as text over restarts.
  \<^item> \<open>Bt_Bredr\<close>: \<^verbatim>\<open>bt/uni_bt_bredr.c\<close> and \<^verbatim>\<open>bt/uni_bt_sdp.c\<close>: the state machine of a connection, the
    handlers of the events of the stack, the SDP query. \<open>Bredr_Requests\<close> has what holds over all runs,
    \<open>Bredr_Views\<close> and \<open>Bredr_Runs\<close> connections from both sides from start to end, for the three kinds of
    names (queried before the channels, after them, not at all), and runs that go wrong.
  \<^item> \<open>Joystick\<close>, \<open>Mouse_Quadrature\<close>: \<^verbatim>\<open>uni_joystick.c\<close> and \<^verbatim>\<open>uni_mouse_quadrature.c\<close>, pads, keyboards, balance
    boards and mice as the signals of classic joysticks and mice. The conversion of a rounded binary32 to
    \<open>uint64_t\<close> fails outside its range; it does not for a scale of at least \<open>1 / 2 ^ 56\<close>.
  \<^item> \<open>Arduino_Platform\<close>: \<^verbatim>\<open>arduino_platform.c\<close>, \<^verbatim>\<open>ArduinoBluepad32.cpp\<close>, \<^verbatim>\<open>ArduinoController.cpp\<close>: seats,
    hand-over of data, requests, connect and disconnect callbacks.
  \<^item> \<open>Binary32\<close>: rounding of binary32 as a function on rationals (locale \<open>rounding\<close>); every float
    operation of the sketch rounds by it, and the relative error of a rounding is bounded.
  \<^item> \<open>Control_Inputs\<close>, \<open>Rc_Signal\<close>: \<^verbatim>\<open>main/control_inputs.cpp\<close> and the signal half of \<^verbatim>\<open>main/rc_model.cpp\<close>:
    dead zone, curve, toggles, mixing, pulse and level.
  \<^item> \<open>Rc_Model\<close>, \<open>Rc_Config\<close>: the hardware half of \<^verbatim>\<open>main/rc_model.cpp\<close>: pins, servos, failsafe, stored
    configurations, apply with rollback, save and reload. The flag of an attached servo can be stale;
    success is proved for any flags, and \<open>stale_flag_hides_failed_attach\<close> shows what a stale one hides.
  \<^item> \<open>Runtime_Loop\<close>: \<^verbatim>\<open>main/runtime_loop.cpp\<close>: one turn of the control loop and any sequence of turns.
  \<^item> \<open>Preset_Store\<close>, \<open>Preset_Refinement\<close>: \<^verbatim>\<open>main/preset_store.cpp\<close> and \<^verbatim>\<open>main/preset_service.cpp\<close>, and
    the proof that the flash refines a map of at most eight presets keyed by name without case.
  \<^item> \<open>Sketch\<close>: \<^verbatim>\<open>main/sketch.cpp\<close>: the handlers of the web interface, scan scheduler, callbacks, start-up
    and loop. \<open>Firmware_State\<close> runs any sequence of events (\<open>handle_event\<close>) and proves the type of the
    state and the state after start-up; \<open>Request_Effects\<close> has what requests do to outputs and models,
    \<open>Scan_And_Access\<close> the scan over any history, the pairing window and the access point settings.
  \<^item> \<open>Json_Writer\<close>, \<open>State_Service\<close>: \<^verbatim>\<open>main/json_utils.cpp\<close> and \<^verbatim>\<open>main/state_service.cpp\<close>: the writer
    prints the text of a JSON value, strings survive escaping, and every answer is such a text.

  \<^bold>\<open>What the lemmas show.\<close> For each component: an invariant kept by every operation and over every run;
  the result of the operations on all branches, errors included; a refinement or equivalence where the
  component has a specification (queue, map of presets, JSON text, callbacks of the changed seats);
  round trips of the formats; and, where the code does not do what it means to, a theorem that says so.

  \<^bold>\<open>Parameters and hypotheses.\<close> \<open>powf\<close> of the C library is a function with \<open>powf_ok\<close> (bounds and exact
  ends). The board is a record: the pins with PWM and whether a servo attaches (\<open>attaches_always\<close>).
  The flash library is a record of its operations; \<open>nvs_ok\<close> says what a set, erase and commit change
  whether or not they succeed, \<open>nvs_reliable\<close> that none fails, \<open>flash_shaped\<close> that a stored structure
  has its size. BTstack's timers fire only while registered and must not be registered twice; its
  field iterator delivers the fields of a report as a list. The table from vendor and product to
  controller type, the texts of floats and addresses are parameters.

  \<^bold>\<open>Bounds and fuel.\<close> No fuel is used: every loop is structural or has a measure. Fixed sizes are the
  code's: 32 slots of 128 bytes in the ring, 16 inputs, 24 outputs, pins 0 to 48, 8 presets, names of
  23 characters, 16 frames of the JSON writer. Clocks are 32-bit words and wrap.

  \<^bold>\<open>Not modelled.\<close> BTstack, its start-up, and low-energy connections (\<^verbatim>\<open>bt/uni_bt_le.c\<close>, \<^verbatim>\<open>bt/uni_bt_service.c\<close>,
  \<^verbatim>\<open>bt/uni_bt_setup.c\<close>, and in \<^verbatim>\<open>bt/uni_bt.c\<close> all but the disconnection), which are calls of its GATT and
  security manager; the other platforms; logging, console and properties; WiFi, HTTP and the web page; the servo library beyond
  attach, pin and pulse. Concurrency of the two tasks enters as interleaving of whole operations, which
  their mutex and queue make atomic.
\<close>

end
